(* ===== verification/Prelude.thy ===== *)
theory Prelude
  imports Complex_Main "HOL-Library.Multiset"
begin

text \<open>
  The vocabulary every component shares.  Identifiers are the 128-bit values of the
  program's UUIDs, whose order and whose fixed-width hexadecimal text agree with the
  order of the numbers.  A date is its ordinal (\<open>date.toordinal()\<close>), so subtracting
  two dates counts days; a moment is a number of minutes from midnight of day 0.
  \<open>Decimal\<close> values are exact rationals.  A dictionary that is iterated is a list of
  pairs in insertion order; \<open>dict_get\<close>, \<open>dict_set\<close> and \<open>dict_append\<close> are
  \<open>get\<close>, item assignment and \<open>setdefault(k, []).append(x)\<close>.  The functions
  \<open>bisect_left\<close> and \<open>bisect_right\<close> give what the standard library's do on a sorted
  list.  Two collections carry the automation of the component theories:
  \<open>day_simps\<close> for the arithmetic of dates and \<open>ensures_intros\<close> for the program
  logic of CpSat.
\<close>

named_theorems day_simps
named_theorems ensures_intros

type_synonym uuid = nat
type_synonym date = int
type_synonym moment = int
type_synonym decimal = rat
type_synonym ('k, 'v) dict = "('k \<times> 'v) list"

section \<open>Dates\<close>

definition days_from_to :: "date \<Rightarrow> date \<Rightarrow> date list" where
  "days_from_to a b = [a..b - 1]"

lemma set_days_from_to [simp, day_simps]: "set (days_from_to a b) = {a..<b}"
  by (auto simp: days_from_to_def)

lemma distinct_days_from_to [simp, day_simps]: "distinct (days_from_to a b)"
  by (simp add: days_from_to_def)

lemma sorted_days_from_to [simp]: "sorted (days_from_to a b)"
  by (simp add: days_from_to_def)

lemma days_from_to_Cons: "a < b \<Longrightarrow> days_from_to a b = a # days_from_to (a + 1) b"
  by (simp add: days_from_to_def upto_rec1)

lemma days_from_to_Nil [simp]: "b \<le> a \<Longrightarrow> days_from_to a b = []"
  by (simp add: days_from_to_def)

lemma days_from_to_eq_Nil [simp]: "days_from_to a b = [] \<longleftrightarrow> b \<le> a"
  by (auto simp: days_from_to_def)

lemma hd_days_from_to: "a < b \<Longrightarrow> hd (days_from_to a b) = a"
  by (simp add: days_from_to_Cons)

lemma length_days_from_to [simp, day_simps]: "length (days_from_to a b) = nat (b - a)"
  by (simp add: days_from_to_def)

lemma last_days_from_to: "a < b \<Longrightarrow> last (days_from_to a b) = b - 1"
  by (simp add: days_from_to_def last_conv_nth nth_upto)

lemma card_days_overlap [day_simps]:
  "card ({a..<b} \<inter> {c..<d}) = nat (min b d - max a (c::int))"
proof -
  have "{a..<b} \<inter> {c..<d} = {max a c..<min b d}" by auto
  then show ?thesis by simp
qed

section \<open>Decimal values and integer division\<close>

text \<open>\<open>int(x)\<close> truncates towards zero.\<close>

definition py_int :: "rat \<Rightarrow> int" where
  "py_int r = (if 0 \<le> r then \<lfloor>r\<rfloor> else \<lceil>r\<rceil>)"

lemma py_int_of_int [simp]: "py_int (of_int k) = k"
  by (simp add: py_int_def)

lemma py_int_nonneg: "0 \<le> r \<Longrightarrow> 0 \<le> py_int r"
  by (simp add: py_int_def)

lemma py_int_mono: "r \<le> s \<Longrightarrow> py_int r \<le> py_int s"
  unfolding py_int_def by (auto intro: floor_mono ceiling_mono)
    (smt (verit) ceiling_le_zero dual_order.trans linorder_not_le nless_le zero_le_floor)+

text \<open>\<open>math.ceil(a / b)\<close> for a positive \<open>b\<close>, and the \<open>-(-a // b)\<close> of the code.\<close>

definition ceil_div :: "int \<Rightarrow> int \<Rightarrow> int" where
  "ceil_div a b = - ((- a) div b)"

lemma ceil_div_ge: "0 < b \<Longrightarrow> a \<le> ceil_div a b * b"
  unfolding ceil_div_def
  by (smt (verit, best) minus_div_mult_eq_mod minus_mult_minus mult_minus_left pos_mod_sign)

lemma ceil_div_less: "0 < b \<Longrightarrow> ceil_div a b * b < a + b"
  unfolding ceil_div_def
  by (smt (verit, best) minus_div_mult_eq_mod minus_mult_minus mult_minus_left pos_mod_bound)

section \<open>Dictionaries in insertion order\<close>

definition dict_get :: "('k, 'v) dict \<Rightarrow> 'k \<Rightarrow> 'v option" where
  "dict_get d k = map_of d k"

fun dict_set :: "('k, 'v) dict \<Rightarrow> 'k \<Rightarrow> 'v \<Rightarrow> ('k, 'v) dict" where
  "dict_set [] k v = [(k, v)]"
| "dict_set ((k', v') # d) k v = (if k' = k then (k, v) # d else (k', v') # dict_set d k v)"

definition dict_get_or :: "('k, 'v) dict \<Rightarrow> 'k \<Rightarrow> 'v \<Rightarrow> 'v" where
  "dict_get_or d k x = (case dict_get d k of None \<Rightarrow> x | Some v \<Rightarrow> v)"

definition dict_append :: "('k, 'v list) dict \<Rightarrow> 'k \<Rightarrow> 'v \<Rightarrow> ('k, 'v list) dict" where
  "dict_append d k x = dict_set d k (dict_get_or d k [] @ [x])"

lemma map_of_dict_set [simp]: "map_of (dict_set d k v) = (map_of d)(k \<mapsto> v)"
  by (induction d k v rule: dict_set.induct) auto

lemma dict_get_Nil [simp]: "dict_get [] k = None"
  by (simp add: dict_get_def)

lemma dict_get_set [simp]: "dict_get (dict_set d k v) k' = (if k' = k then Some v else dict_get d k')"
  by (simp add: dict_get_def)

lemma keys_dict_set [simp]: "fst ` set (dict_set d k v) = insert k (fst ` set d)"
  by (induction d k v rule: dict_set.induct) auto

lemma distinct_dict_set [simp]:
  "distinct (map fst d) \<Longrightarrow> distinct (map fst (dict_set d k v))"
proof (induction d k v rule: dict_set.induct)
  case (2 k' v' d k v)
  then show ?case using keys_dict_set [of d k v] by (auto simp: image_iff)
qed simp

lemma dict_get_or_append [simp]:
  "dict_get_or (dict_append d k x) k' [] = dict_get_or d k' [] @ (if k' = k then [x] else [])"
  by (simp add: dict_append_def dict_get_or_def)

lemma dict_get_append:
  "dict_get (dict_append d k x) k' = (if k' = k then Some (dict_get_or d k [] @ [x]) else dict_get d k')"
  by (simp add: dict_append_def)

lemma keys_dict_append [simp]: "fst ` set (dict_append d k x) = insert k (fst ` set d)"
  by (simp add: dict_append_def)

lemma distinct_dict_append [simp]:
  "distinct (map fst d) \<Longrightarrow> distinct (map fst (dict_append d k x))"
  by (simp add: dict_append_def)

lemma dict_get_Some_iff:
  "distinct (map fst d) \<Longrightarrow> dict_get d k = Some v \<longleftrightarrow> (k, v) \<in> set d"
  by (simp add: dict_get_def)

text \<open>
  The grouping loop \<open>for x in xs: groups.setdefault(key(x), []).append(x)\<close> the code
  uses for components, clusters, shifts and commitments.
\<close>

definition group_by :: "('a \<Rightarrow> 'k) \<Rightarrow> 'a list \<Rightarrow> ('k, 'a list) dict" where
  "group_by key xs = fold (\<lambda>x d. dict_append d (key x) x) xs []"

lemma group_fold_get:
  "dict_get_or (fold (\<lambda>x d. dict_append d (key x) x) xs d0) k []
     = dict_get_or d0 k [] @ filter (\<lambda>x. key x = k) xs"
  by (induction xs arbitrary: d0) auto

lemma group_fold_keys:
  "fst ` set (fold (\<lambda>x d. dict_append d (key x) x) xs d0) = fst ` set d0 \<union> key ` set xs"
  by (induction xs arbitrary: d0) auto

lemma group_fold_distinct:
  "distinct (map fst d0) \<Longrightarrow> distinct (map fst (fold (\<lambda>x d. dict_append d (key x) x) xs d0))"
  by (induction xs arbitrary: d0) auto

lemma group_by_distinct [simp]: "distinct (map fst (group_by key xs))"
  by (simp add: group_by_def group_fold_distinct)

lemma group_by_keys [simp]: "fst ` set (group_by key xs) = key ` set xs"
  by (simp add: group_by_def group_fold_keys)

lemma group_by_get_or [simp]: "dict_get_or (group_by key xs) k [] = filter (\<lambda>x. key x = k) xs"
  using group_fold_get [of key xs "[]" k] by (simp add: group_by_def dict_get_or_def)

lemma group_by_mem:
  assumes "(k, ys) \<in> set (group_by key xs)"
  shows "ys = filter (\<lambda>x. key x = k) xs" and "ys \<noteq> []"
proof -
  have g: "dict_get (group_by key xs) k = Some ys"
    using assms by (simp add: dict_get_Some_iff)
  then have "dict_get_or (group_by key xs) k [] = ys" by (simp add: dict_get_or_def)
  then show ys: "ys = filter (\<lambda>x. key x = k) xs" by simp
  have "k \<in> key ` set xs" using assms by (metis fst_conv group_by_keys image_eqI)
  then show "ys \<noteq> []" unfolding ys by (auto simp: filter_empty_conv)
qed

lemma dict_append_Cons:
  "dict_append ((k', ys) # d) k x = (if k' = k then (k, ys @ [x]) # d else (k', ys) # dict_append d k x)"
  by (simp add: dict_append_def dict_get_or_def dict_get_def)

lemma mset_dict_append:
  "mset (concat (map snd (dict_append d k x))) = add_mset x (mset (concat (map snd d)))"
proof (induction d)
  case Nil
  then show ?case by (simp add: dict_append_def dict_get_or_def)
next
  case (Cons e d)
  then show ?case by (cases e) (simp add: dict_append_Cons)
qed

lemma group_by_mset: "mset (concat (map snd (group_by key xs))) = mset xs"
proof -
  have "mset (concat (map snd (fold (\<lambda>x d. dict_append d (key x) x) xs d)))
      = mset xs + mset (concat (map snd d))" for d
    by (induction xs arbitrary: d) (auto simp: mset_dict_append)
  from this [of "[]"] show ?thesis by (simp add: group_by_def)
qed

section \<open>Sorted lists\<close>

definition bisect_left :: "'a::linorder list \<Rightarrow> 'a \<Rightarrow> nat" where
  "bisect_left xs v = length (takeWhile (\<lambda>x. x < v) xs)"

definition bisect_right :: "'a::linorder list \<Rightarrow> 'a \<Rightarrow> nat" where
  "bisect_right xs v = length (takeWhile (\<lambda>x. x \<le> v) xs)"

lemma takeWhile_filter_sorted:
  assumes "sorted xs" and "\<And>x y. x \<le> y \<Longrightarrow> P y \<Longrightarrow> P x"
  shows "takeWhile P xs = filter P xs"
  using assms
proof (induction xs)
  case (Cons x xs)
  show ?case
  proof (cases "P x")
    case False
    then have "filter P xs = []"
      using Cons.prems by (auto simp: filter_empty_conv)
    with False show ?thesis by simp
  qed (use Cons in auto)
qed simp

lemma takeWhile_key_sorted:
  fixes f :: "'a \<Rightarrow> 'b::linorder"
  assumes "sorted (map f xs)"
  shows "takeWhile (\<lambda>x. \<not> c < f x) xs = filter (\<lambda>x. \<not> c < f x) xs"
  using assms
proof (induction xs)
  case (Cons x xs)
  show ?case
  proof (cases "c < f x")
    case True
    then have "filter (\<lambda>x. \<not> c < f x) xs = []"
      using Cons.prems by (auto simp: filter_empty_conv)
    with True show ?thesis by simp
  qed (use Cons in auto)
qed simp

lemma bisect_left_filter: "sorted xs \<Longrightarrow> bisect_left xs v = length (filter (\<lambda>x. x < v) xs)"
  unfolding bisect_left_def by (subst takeWhile_filter_sorted) auto

lemma bisect_right_filter: "sorted xs \<Longrightarrow> bisect_right xs v = length (filter (\<lambda>x. x \<le> v) xs)"
  unfolding bisect_right_def by (subst takeWhile_filter_sorted) auto

lemma bisect_count:
  assumes "sorted xs" and "lo \<le> hi"
  shows "int (bisect_right xs hi) - int (bisect_left xs lo)
       = int (length (filter (\<lambda>x. lo \<le> x \<and> x \<le> hi) xs))"
proof -
  have "length (filter (\<lambda>x. x \<le> hi) xs)
      = length (filter (\<lambda>x. x < lo) xs) + length (filter (\<lambda>x. lo \<le> x \<and> x \<le> hi) xs)"
    using assms(2) by (induction xs) auto
  then show ?thesis using assms(1) by (simp add: bisect_left_filter bisect_right_filter)
qed

lemma nth_bisect_right:
  "sorted xs \<Longrightarrow> i < length xs \<Longrightarrow> i < bisect_right xs v \<longleftrightarrow> xs ! i \<le> v"
proof (induction xs arbitrary: i)
  case (Cons x xs)
  then show ?case
    by (cases i) (auto simp: bisect_right_def dest: nth_mem intro: order_trans)
qed simp

lemma nth_bisect_left:
  "sorted xs \<Longrightarrow> i < length xs \<Longrightarrow> i < bisect_left xs v \<longleftrightarrow> xs ! i < v"
proof (induction xs arbitrary: i)
  case (Cons x xs)
  then show ?case
    by (cases i) (auto simp: bisect_left_def dest: nth_mem intro: order.strict_trans1)
qed simp

lemma bisect_right_le_length: "bisect_right xs v \<le> length xs"
  by (simp add: bisect_right_def length_takeWhile_le)

lemma bisect_left_le_length: "bisect_left xs v \<le> length xs"
  by (simp add: bisect_left_def length_takeWhile_le)

section \<open>Indexed lists and sums\<close>

text \<open>\<open>enumerate(xs)\<close>.\<close>

definition indexed :: "'a list \<Rightarrow> (nat \<times> 'a) list" where
  "indexed xs = zip [0..<length xs] xs"

lemma set_indexed: "set (indexed xs) = {(i, xs ! i) | i. i < length xs}"
proof -
  have "set (zip [0..<length xs] xs) = {([0..<length xs] ! i, xs ! i) | i. i < length xs}"
    by (simp add: set_zip)
  also have "\<dots> = {(i, xs ! i) | i. i < length xs}" by force
  finally show ?thesis by (simp add: indexed_def)
qed

lemma mem_indexed [simp]: "(i, x) \<in> set (indexed xs) \<longleftrightarrow> i < length xs \<and> x = xs ! i"
  by (auto simp: set_indexed)

lemma map_fst_indexed [simp]: "map fst (indexed xs) = [0..<length xs]"
  by (simp add: indexed_def)

lemma distinct_indexed [simp]: "distinct (indexed xs)"
  using distinct_map [of fst "indexed xs"] by simp

definition all_pairs :: "nat \<Rightarrow> (nat \<times> nat) list" where
  "all_pairs n = concat (map (\<lambda>i. map (\<lambda>j. (i, j)) [Suc i..<n]) [0..<n])"

lemma mem_all_pairs [simp]: "(i, j) \<in> set (all_pairs n) \<longleftrightarrow> i < j \<and> j < n"
  by (force simp: all_pairs_def)

lemma sum_list_filter_le:
  fixes f :: "'a \<Rightarrow> int"
  assumes "\<And>x. x \<in> set xs \<Longrightarrow> 0 \<le> f x"
  shows "sum_list (map f (filter P xs)) \<le> sum_list (map f xs)"
  using assms by (induction xs) (auto intro: add_increasing)

lemma list_all_concat_map:
  "list_all P (concat (map f xs)) \<longleftrightarrow> (\<forall>x \<in> set xs. list_all P (f x))"
  by (auto simp: list_all_iff)

lemma list_all_concat_mapD:
  "list_all P (concat (map f xs)) \<Longrightarrow> x \<in> set xs \<Longrightarrow> list_all P (f x)"
  by (simp add: list_all_concat_map)

lemma length_filter_sum: "int (length (filter P xs)) = (\<Sum>x\<leftarrow>xs. if P x then 1 else 0)"
  by (induction xs) auto

lemma sum_list_distinct_set: "distinct xs \<Longrightarrow> (\<Sum>x\<leftarrow>xs. f x) = (\<Sum>x\<in>set xs. f x)"
  for f :: "'a \<Rightarrow> int"
  by (simp add: sum_list_distinct_conv_sum_set)

lemma card_filter_distinct: "distinct xs \<Longrightarrow> length (filter P xs) = card {x \<in> set xs. P x}"
  by (metis distinct_card distinct_filter set_filter)

lemma sum_01_le_one:
  fixes f :: "'a \<Rightarrow> int"
  assumes "finite A" and "\<And>x. x \<in> A \<Longrightarrow> f x = 0 \<or> f x = 1" and "sum f A \<le> 1"
    and "x \<in> A" "y \<in> A" "f x = 1" "f y = 1"
  shows "x = y"
proof (rule ccontr)
  assume "x \<noteq> y"
  have "sum f {x, y} \<le> sum f A"
    using assms by (intro sum_mono2) force+
  with \<open>x \<noteq> y\<close> assms show False by simp
qed

lemma sum_list_01_eq_0_iff:
  fixes f :: "'a \<Rightarrow> int"
  assumes "\<And>x. x \<in> set xs \<Longrightarrow> 0 \<le> f x"
  shows "sum_list (map f xs) = 0 \<longleftrightarrow> (\<forall>x\<in>set xs. f x = 0)"
  using assms
proof (induction xs)
  case (Cons x xs)
  have "0 \<le> sum_list (map f xs)" using Cons.prems by (intro sum_list_nonneg) auto
  moreover have "0 \<le> f x" using Cons.prems by simp
  ultimately have "sum_list (map f (x # xs)) = 0 \<longleftrightarrow> f x = 0 \<and> sum_list (map f xs) = 0"
    by auto
  with Cons show ?case by auto
qed simp

lemma distinct_submset:
  assumes "distinct xs" "mset ys \<subseteq># mset xs"
  shows "distinct ys"
  unfolding distinct_count_atmost_1
proof
  fix a
  have "count (mset ys) a \<le> count (mset xs) a" using assms(2) by (rule mset_subset_eq_count)
  also have "\<dots> \<le> 1" using assms(1) by (simp add: distinct_count_atmost_1)
  finally have "count (mset ys) a \<le> 1" .
  moreover have "a \<in> set ys \<longleftrightarrow> count (mset ys) a \<noteq> 0" by (simp add: count_eq_zero_iff)
  ultimately show "count (mset ys) a = (if a \<in> set ys then 1 else 0)" by (cases "count (mset ys) a") auto
qed


end
