(* ===== verification/DutyTypes.thy ===== *)
theory DutyTypes
  imports Prelude
begin

text \<open>
  The data of the assignment engine (\<open>app/algorithm/types.py\<close>) and its arithmetic on
  days and clock times (\<open>duration.py\<close>, \<open>rest.py\<close>).  Every dataclass is a record
  whose fields carry the initial of the class, since several classes use the same names.
  A clock string \<open>HH:MM\<close> is the pair of numbers the code gets from
  \<open>split(":")\<close>; \<open>valid_clock\<close> are the pairs \<open>datetime\<close> accepts.  Not
  carried: wall-clock timings and solver statistics, which nothing reads back.
\<close>

section \<open>Duration and rest\<close>

type_synonym clock = "int \<times> int"

definition valid_clock :: "clock \<Rightarrow> bool" where
  "valid_clock c \<longleftrightarrow> 0 \<le> fst c \<and> fst c < 24 \<and> 0 \<le> snd c \<and> snd c < 60"

definition parse_hhmm :: "clock \<Rightarrow> int" where
  "parse_hhmm c = fst c * 60 + snd c"

definition combine_date_time :: "date \<Rightarrow> clock \<Rightarrow> moment" where
  "combine_date_time d c = d * (24 * 60) + parse_hhmm c"

definition calendar_days_touched :: "date \<Rightarrow> date \<Rightarrow> int" where
  "calendar_days_touched start_date end_date = end_date - start_date"

definition score_days :: "date \<Rightarrow> date \<Rightarrow> clock \<Rightarrow> clock \<Rightarrow> int" where
  "score_days start_date end_date start_time end_time =
     (let days_touched = calendar_days_touched start_date end_date;
          elapsed_minutes = (days_touched - 1) * 24 * 60
                            + (parse_hhmm end_time - parse_hhmm start_time)
      in max 1 (ceil_div elapsed_minutes (24 * 60)))"

definition last_duty_day :: "date \<Rightarrow> date \<Rightarrow> date" where
  "last_duty_day start_date end_date = (if end_date > start_date then end_date - 1 else end_date)"

definition rest_violated :: "moment \<Rightarrow> date \<Rightarrow> clock \<Rightarrow> int \<Rightarrow> bool" where
  "rest_violated prior_end_dt next_start_date next_start_time rest_hours =
     (if rest_hours \<le> 0 then False
      else combine_date_time next_start_date next_start_time < prior_end_dt + rest_hours * 60)"

text \<open>\<open>services/rest.py\<close>: the first date on which a new duty may start.\<close>

definition earliest_eligible_date :: "moment \<Rightarrow> int \<Rightarrow> int \<Rightarrow> date" where
  "earliest_eligible_date effective_end_dt rest_hours extra_days =
     (let earliest_dt = effective_end_dt + rest_hours * 60 + extra_days * (24 * 60)
      in if earliest_dt mod (24 * 60) = 0 then earliest_dt div (24 * 60)
         else earliest_dt div (24 * 60) + 1)"

lemma valid_clock_bounds:
  "valid_clock c \<Longrightarrow> 0 \<le> parse_hhmm c \<and> parse_hhmm c < 24 * 60"
  by (auto simp: valid_clock_def parse_hhmm_def)

lemma combine_date_time_div:
  assumes "valid_clock c"
  shows "combine_date_time d c div (24 * 60) = d"
  using valid_clock_bounds [OF assms] by (simp add: combine_date_time_def)

lemma combine_date_time_less:
  assumes "valid_clock c" "valid_clock c'" "d < d'"
  shows "combine_date_time d c < combine_date_time d' c'"
  using valid_clock_bounds [OF assms(1)] valid_clock_bounds [OF assms(2)] assms(3)
  by (simp add: combine_date_time_def)

lemma score_days_ge_1: "1 \<le> score_days a b c c'"
  by (simp add: score_days_def Let_def)

lemma score_days_le_touched:
  assumes "valid_clock c" "valid_clock c'" "a < b"
  shows "score_days a b c c' \<le> calendar_days_touched a b"
proof -
  let ?e = "(b - a - 1) * 24 * 60 + (parse_hhmm c' - parse_hhmm c)"
  have "ceil_div ?e (24 * 60) * (24 * 60) < ?e + 24 * 60" by (rule ceil_div_less) simp
  then have "ceil_div ?e (24 * 60) < b - a + 1"
    using valid_clock_bounds [OF assms(1)] valid_clock_bounds [OF assms(2)] by simp
  then show ?thesis using assms(3)
    by (simp add: score_days_def calendar_days_touched_def Let_def)
qed

lemma score_days_gt_touched_less_1:
  assumes "valid_clock c" "valid_clock c'" "a < b"
  shows "calendar_days_touched a b - 1 \<le> score_days a b c c'"
proof -
  let ?e = "(b - a - 1) * 24 * 60 + (parse_hhmm c' - parse_hhmm c)"
  have "?e \<le> ceil_div ?e (24 * 60) * (24 * 60)" by (rule ceil_div_ge) simp
  then have "b - a - 2 < ceil_div ?e (24 * 60)"
    using valid_clock_bounds [OF assms(1)] valid_clock_bounds [OF assms(2)] by simp
  then show ?thesis by (simp add: score_days_def calendar_days_touched_def Let_def)
qed

lemma last_duty_day_bounds: "a < b \<Longrightarrow> a \<le> last_duty_day a b \<and> last_duty_day a b < b"
  by (simp add: last_duty_day_def)

text \<open>
  The rest window ends where it should: a duty that starts at midnight of a date
  respects the rest hours and extra days after the effective end exactly when that date is
  not before \<open>earliest_eligible_date\<close>.
\<close>

theorem earliest_eligible_least:
  "earliest_eligible_date fin rest_hours extra_days \<le> d
     \<longleftrightarrow> fin + rest_hours * 60 + extra_days * (24 * 60) \<le> combine_date_time d (0, 0)"
proof -
  have "(if m mod 1440 = 0 then m div 1440 else m div 1440 + 1) \<le> d \<longleftrightarrow> m \<le> d * 1440" for m :: int
  proof -
    define q r where "q = m div 1440" and "r = m mod 1440"
    have "m = 1440 * q + r" "0 \<le> r" "r < 1440" by (simp_all add: q_def r_def)
    then show ?thesis unfolding q_def [symmetric] r_def [symmetric] by (cases "r = 0") auto
  qed
  note eq = this
  define m where "m = fin + rest_hours * 60 + extra_days * (24 * 60)"
  show ?thesis
    unfolding earliest_eligible_date_def combine_date_time_def parse_hhmm_def Let_def m_def [symmetric]
    using eq [of m] by (simp split: if_split_asm)
qed

text \<open>
  The score of a duty is one day per started 24 hours: with valid clock times it is
  between the touched calendar days less one and the touched days, at least 1, and the least
  number of whole days that holds the elapsed minutes.
\<close>

theorem score_days_bounds:
  assumes "valid_clock c" "valid_clock c'" "a < b"
  shows "max 1 (calendar_days_touched a b - 1) \<le> score_days a b c c'
     \<and> score_days a b c c' \<le> calendar_days_touched a b
     \<and> (b - a - 1) * 1440 + (parse_hhmm c' - parse_hhmm c) \<le> score_days a b c c' * 1440"
proof -
  let ?e = "(b - a - 1) * 24 * 60 + (parse_hhmm c' - parse_hhmm c)"
  have "?e \<le> ceil_div ?e (24 * 60) * (24 * 60)" by (rule ceil_div_ge) simp
  then have "?e \<le> score_days a b c c' * 1440"
    by (simp add: score_days_def calendar_days_touched_def Let_def max_def)
  then show ?thesis
    using score_days_ge_1 score_days_le_touched [OF assms] score_days_gt_touched_less_1 [OF assms] by simp
qed

lemma score_days_bounds_witness:
  "max 1 (calendar_days_touched 0 3 - 1) \<le> score_days 0 3 (8, 0) (7, 59)
     \<and> score_days 0 3 (8, 0) (7, 59) \<le> calendar_days_touched 0 3
     \<and> (3 - 0 - 1) * 1440 + (parse_hhmm (7, 59) - parse_hhmm (8, 0)) \<le> score_days 0 3 (8, 0) (7, 59) * 1440"
  by (rule score_days_bounds) (simp_all add: valid_clock_def)

section \<open>Input and output records\<close>

definition EFFORT_SCALE :: int where
  "EFFORT_SCALE = 1000000000"

datatype py_value = PyNone | PyBool bool | PyInt int | PyStr string

fun truthy :: "py_value option \<Rightarrow> bool" where
  "truthy None = False"
| "truthy (Some PyNone) = False"
| "truthy (Some (PyBool b)) = b"
| "truthy (Some (PyInt i)) = (i \<noteq> 0)"
| "truthy (Some (PyStr s)) = (s \<noteq> [])"

definition truthy_str :: "string option \<Rightarrow> bool" where
  "truthy_str s = (case s of None \<Rightarrow> False | Some t \<Rightarrow> t \<noteq> [])"

definition node_in_scope :: "uuid list option \<Rightarrow> uuid list \<Rightarrow> bool" where
  "node_in_scope scope_node_ids soldier_path_ids =
     (case scope_node_ids of None \<Rightarrow> True
      | Some ns \<Rightarrow> list_ex (\<lambda>n. n \<in> set soldier_path_ids) ns)"

record SoldierInput =
  s_id :: uuid
  s_enrolled_at :: date
  s_cumulative_score :: decimal
  s_active_days :: int
  s_hierarchy_node_id :: "uuid option"
  s_unit_join_date :: "date option"
  s_path_ids :: "uuid list"
  s_approved_constraint_dates :: "(date \<times> date) list"
  s_exempted_duty_type_ids :: "uuid set"
  s_exempted_duty_location_ids :: "uuid set"
  s_weapon_ineligible_duty_block_ids :: "uuid set"
  s_future_ineligible_duty_block_ids :: "uuid set"
  s_effort_offset :: int
  s_effort_per_milli :: int

record DutyBlock =
  d_id :: uuid
  d_duty_type_id :: uuid
  d_duty_location_id :: uuid
  d_start_date :: date
  d_end_date :: date
  d_score_per_day :: decimal
  d_is_reserve :: bool
  d_eligible_node_ids :: "uuid list option"
  d_start_time :: clock
  d_end_time :: clock
  d_node_quotas :: "(uuid, int) dict option"
  d_rest_hours :: int
  d_required_range_type :: "string option"
  d_requirements :: "(string, py_value) dict"

record ExistingAssignment =
  e_soldier_id :: uuid
  e_duty_type_id :: uuid
  e_start_date :: date
  e_end_date :: date
  e_is_reserve :: bool
  e_rest_hours :: int
  e_rest_effective_end_date :: "date option"
  e_rest_effective_end_time :: clock

record SolverSettings =
  T_cap :: int
  Wt :: int
  R_cap :: int
  Wr :: int
  alpha :: decimal
  time_limit_seconds :: int
  seed :: "int option"
  reserve_hierarchy_weight :: decimal
  effort_resolution :: int
  effort_range_min :: int
  effort_range_max :: int
  relax_r_ceiling :: int
  relax_t_ceiling :: int
  batching_enabled :: bool
  batch_window_days :: int
  batch_time_limit_seconds :: int
  decomposition :: string
  round_soldier_count :: int
  interleaved_batch_size :: int
  num_workers :: int
  tiebreak_mode :: string
  tiebreak_time_limit_seconds :: int
  auto_relax_node_quotas :: bool
  enforce_weapon_qualification :: bool

text \<open>The defaults of the dataclass.\<close>

definition default_settings :: SolverSettings where
  "default_settings = \<lparr>T_cap = 8, Wt = 14, R_cap = 15, Wr = 28, alpha = 1,
     time_limit_seconds = 60, seed = None, reserve_hierarchy_weight = 1 / 2,
     effort_resolution = 20000, effort_range_min = 0, effort_range_max = 0,
     relax_r_ceiling = 20, relax_t_ceiling = 10, batching_enabled = True,
     batch_window_days = 28, batch_time_limit_seconds = 120,
     decomposition = ''interleaved'', round_soldier_count = 20,
     interleaved_batch_size = 50, num_workers = 1, tiebreak_mode = ''range'',
     tiebreak_time_limit_seconds = 20, auto_relax_node_quotas = False,
     enforce_weapon_qualification = True\<rparr>"

text \<open>Labels \<open>R\<rightarrow>k\<close> and \<open>T\<rightarrow>k\<close> of the relaxation ladder.\<close>

datatype relax_label = R_to int | T_to int

text \<open>The reasons of \<open>availability.py\<close>, each a string literal of the code.\<close>

datatype blocker = Duty_type_exemption | Duty_location_exemption | Personal_constraint
  | Hierarchy_scope | Range_qualification | Weapon_qualification
  | Military_driving_license | Duty_requirements | Schedule_conflict

record BatchShiftFill =
  f_shift_id :: "uuid option"
  f_required_count :: int
  f_assigned_count :: int
  f_eligible_count :: int
  f_available_count :: int
  f_blocker_counts :: "(blocker, int) dict"

record SaturationCluster =
  c_date_from :: date
  c_date_to :: date
  c_shift_ids :: "uuid list"
  c_eligible_pool_size :: int
  c_free_count :: int
  c_competing_duty_types :: "(uuid \<times> int) list"

datatype outcome = OPTIMAL | FEASIBLE | INFEASIBLE | CANCELLED

record BatchResult =
  b_batch_index :: int
  b_component_index :: int
  b_date_from :: date
  b_date_to :: date
  b_duty_count :: int
  b_soldier_count :: int
  b_assigned_count :: int
  b_unassigned_count :: int
  b_outcome :: outcome
  b_relaxations :: "relax_label list"
  b_shifts :: "BatchShiftFill list"
  b_saturation_clusters :: "SaturationCluster list"

record Assignment =
  a_duty_id :: uuid
  a_soldier_id :: uuid

record RelaxedQuota =
  q_duty_id :: uuid
  q_original_node_id :: uuid
  q_relaxed_node_id :: uuid
  q_count :: int

record SolverResult =
  r_assignments :: "Assignment list"
  r_status :: outcome
  r_objective_value :: "int option"
  r_seed :: int
  r_relaxed :: "relax_label list"
  r_batch_results :: "BatchResult list"
  r_relaxed_node_quotas :: "RelaxedQuota list"

record CandidateInfo =
  k_soldier_id :: uuid
  k_blocked :: bool
  k_blocking_constraints :: "string list"
  k_pre_effort_score :: "rat option"
  k_post_effort_score :: "rat option"

record AssignmentExplanation =
  x_duty_id :: uuid
  x_assigned_soldier_id :: uuid
  x_candidates :: "CandidateInfo list"
  x_tiebreaker_note :: "string option"

record ReserveLink =
  l_reserve_assignment_id :: uuid
  l_primary_assignment_id :: uuid
  l_hierarchy_distance :: int

text \<open>
  The days a duty or an existing assignment occupies: \<open>_duty_dates\<close> steps from
  \<open>start_date\<close> one day at a time while the day is before \<open>end_date\<close>.
\<close>

definition duty_dates :: "DutyBlock \<Rightarrow> date list" where
  "duty_dates d = days_from_to (d_start_date d) (d_end_date d)"

definition duty_days :: "DutyBlock \<Rightarrow> date set" where
  "duty_days d = {d_start_date d..<d_end_date d}"

definition existing_days :: "ExistingAssignment \<Rightarrow> date set" where
  "existing_days e = {e_start_date e..<e_end_date e}"

lemma set_duty_dates [simp, day_simps]: "set (duty_dates d) = duty_days d"
  by (simp add: duty_dates_def duty_days_def)

lemma mem_duty_days [day_simps]: "t \<in> duty_days d \<longleftrightarrow> d_start_date d \<le> t \<and> t < d_end_date d"
  by (auto simp: duty_days_def)

lemma mem_existing_days [day_simps]: "t \<in> existing_days e \<longleftrightarrow> e_start_date e \<le> t \<and> t < e_end_date e"
  by (auto simp: existing_days_def)

lemma finite_duty_days [simp]: "finite (duty_days d)"
  by (simp add: duty_days_def)

lemma finite_existing_days [simp]: "finite (existing_days e)"
  by (simp add: existing_days_def)

lemma duty_days_disjoint_iff:
  "duty_days d \<inter> {c..<e} = {} \<longleftrightarrow>
     \<not> (d_start_date d < e \<and> c < d_end_date d \<and> c < e \<and> d_start_date d < d_end_date d)"
  unfolding duty_days_def Int_atLeastLessThan by (auto simp: max_def min_def)

text \<open>\<open>_block_score\<close>: the score of a whole block in thousandths.\<close>

definition block_score :: "DutyBlock \<Rightarrow> int" where
  "block_score d =
     (let days = score_days (d_start_date d) (d_end_date d) (d_start_time d) (d_end_time d)
      in py_int (d_score_per_day d * of_int days * 1000))"

lemma block_score_nonneg: "0 \<le> d_score_per_day d \<Longrightarrow> 0 \<le> block_score d"
  using score_days_ge_1 [of "d_start_date d" "d_end_date d" "d_start_time d" "d_end_time d"]
  by (simp add: block_score_def py_int_nonneg)

end
