(* ===== verification/CpSat.thy ===== *)
theory CpSat
  imports DutyTypes
begin

text \<open>
  What the solver code uses of OR-tools CP-SAT, which is not part of the repository.  A
  model is data: bounded integer variables, linear constraints (some enforced by a
  literal), equalities with a maximum or minimum, one objective and hints.  The search
  itself is a parameter: \<open>cp_solve\<close> of an environment gives an answer for a model and
  may depend on a hidden world (wall clock, stall guard, other threads), which it
  changes; the cancel event (never set where the code is given none), progress callbacks,
  Python's \<open>hash\<close> and the order in which a set of identifiers is iterated are parameters
  in the same way.  \<open>cp_sound\<close> is the documented contract of an answer.  \<open>ensures\<close> is
  the program logic the solver loops are verified in: a property of the value returned,
  whatever the world does.
\<close>

section \<open>Models\<close>

text \<open>
  Variables are named by what the code creates them for: \<open>x_d{di}_s{si}\<close>,
  \<open>covered_d{di}\<close>, \<open>count_s{si}\<close>, \<open>effort_dev{i}\<close>, \<open>max_count\<close>,
  \<open>min_count\<close>, \<open>tb_max_total\<close>, \<open>tb_min_total\<close>.  The fairness objective may be
  installed twice in one model; its variables carry the number of the installation.
\<close>

datatype cp_var = X nat nat | Covered nat | Count nat | Dev nat nat
  | MaxCount nat | MinCount nat | TbMax | TbMin

type_synonym lin = "(int \<times> cp_var) list \<times> int"

definition lin_val :: "(cp_var \<Rightarrow> int) \<Rightarrow> lin \<Rightarrow> int" where
  "lin_val v e = (\<Sum>(k, x)\<leftarrow>fst e. k * v x) + snd e"

definition lvar :: "cp_var \<Rightarrow> lin" where "lvar x = ([(1, x)], 0)"
definition lconst :: "int \<Rightarrow> lin" where "lconst c = ([], c)"
definition ladd :: "lin \<Rightarrow> lin \<Rightarrow> lin" where "ladd a b = (fst a @ fst b, snd a + snd b)"
definition lscale :: "int \<Rightarrow> lin \<Rightarrow> lin" where
  "lscale k a = (map (\<lambda>(c, x). (k * c, x)) (fst a), k * snd a)"
definition lsum :: "lin list \<Rightarrow> lin" where "lsum es = foldr ladd es (lconst 0)"

lemma lin_val_lvar [simp]: "lin_val v (lvar x) = v x"
  by (simp add: lin_val_def lvar_def)

lemma lin_val_lconst [simp]: "lin_val v (lconst c) = c"
  by (simp add: lin_val_def lconst_def)

lemma lin_val_ladd [simp]: "lin_val v (ladd a b) = lin_val v a + lin_val v b"
  by (simp add: lin_val_def ladd_def)

lemma lin_val_lscale [simp]: "lin_val v (lscale k a) = k * lin_val v a"
proof -
  have "(\<Sum>(c, x)\<leftarrow>map (\<lambda>(c, x). (k * c, x)) ts. c * v x) = k * (\<Sum>(c, x)\<leftarrow>ts. c * v x)" for ts
    by (induction ts) (auto simp: algebra_simps)
  then show ?thesis by (simp add: lin_val_def lscale_def algebra_simps)
qed

lemma lin_val_lsum [simp]: "lin_val v (lsum es) = (\<Sum>e\<leftarrow>es. lin_val v e)"
  unfolding lsum_def by (induction es) auto

datatype cp_con = Le lin lin | Eq lin lin | OnlyEnforceIf cp_con cp_var
  | MaxEquality cp_var "lin list" | MinEquality cp_var "lin list"

fun holds :: "(cp_var \<Rightarrow> int) \<Rightarrow> cp_con \<Rightarrow> bool" where
  "holds v (Le a b) = (lin_val v a \<le> lin_val v b)"
| "holds v (Eq a b) = (lin_val v a = lin_val v b)"
| "holds v (OnlyEnforceIf c x) = (v x = 0 \<or> holds v c)"
| "holds v (MaxEquality x es) = (es \<noteq> [] \<and> v x = Max (set (map (lin_val v) es)))"
| "holds v (MinEquality x es) = (es \<noteq> [] \<and> v x = Min (set (map (lin_val v) es)))"

datatype objective = No_objective | Maximize lin | Minimize lin

record cp_model =
  cp_vars :: "(cp_var \<times> int \<times> int) list"
  cp_cons :: "cp_con list"
  cp_objective :: objective
  cp_hints :: "(cp_var \<times> int) list"

definition in_domain :: "(cp_var \<Rightarrow> int) \<Rightarrow> cp_var \<times> int \<times> int \<Rightarrow> bool" where
  "in_domain v d = (fst (snd d) \<le> v (fst d) \<and> v (fst d) \<le> snd (snd d))"

definition feasible :: "cp_model \<Rightarrow> (cp_var \<Rightarrow> int) \<Rightarrow> bool" where
  "feasible m v \<longleftrightarrow> list_all (in_domain v) (cp_vars m) \<and> list_all (holds v) (cp_cons m)"

fun at_least_as_good :: "objective \<Rightarrow> (cp_var \<Rightarrow> int) \<Rightarrow> (cp_var \<Rightarrow> int) \<Rightarrow> bool" where
  "at_least_as_good No_objective v u = True"
| "at_least_as_good (Maximize e) v u = (lin_val u e \<le> lin_val v e)"
| "at_least_as_good (Minimize e) v u = (lin_val v e \<le> lin_val u e)"

fun objective_value :: "objective \<Rightarrow> (cp_var \<Rightarrow> int) \<Rightarrow> int" where
  "objective_value No_objective v = 0"
| "objective_value (Maximize e) v = lin_val v e"
| "objective_value (Minimize e) v = lin_val v e"

definition add_vars :: "(cp_var \<times> int \<times> int) list \<Rightarrow> cp_model \<Rightarrow> cp_model" where
  "add_vars xs m = m\<lparr>cp_vars := cp_vars m @ xs\<rparr>"

definition add_cons :: "cp_con list \<Rightarrow> cp_model \<Rightarrow> cp_model" where
  "add_cons cs m = m\<lparr>cp_cons := cp_cons m @ cs\<rparr>"

lemma feasible_add_vars [simp]:
  "feasible (add_vars xs m) v \<longleftrightarrow> feasible m v \<and> list_all (in_domain v) xs"
  by (auto simp: feasible_def add_vars_def)

lemma feasible_add_cons [simp]:
  "feasible (add_cons cs m) v \<longleftrightarrow> feasible m v \<and> list_all (holds v) cs"
  by (auto simp: feasible_def add_cons_def)

lemma feasible_objective [simp]: "feasible (m\<lparr>cp_objective := ob\<rparr>) v = feasible m v"
  by (simp add: feasible_def)

lemma feasible_hints [simp]: "feasible (m\<lparr>cp_hints := hs\<rparr>) v = feasible m v"
  by (simp add: feasible_def)

section \<open>The solver and the rest of the environment\<close>

record cp_params =
  max_time_in_seconds :: int
  random_seed :: int
  num_search_workers :: int

datatype cp_status = Cp_optimal | Cp_feasible | Cp_infeasible | Cp_unknown | Cp_invalid

record cp_answer =
  ans_status :: cp_status
  ans_value :: "cp_var \<Rightarrow> int"
  ans_objective :: int

datatype event = Progress int int | Relax_attempt int int "relax_label option" | Swap_start

record 'w env =
  cp_solve :: "cp_model \<Rightarrow> cp_params \<Rightarrow> 'w \<Rightarrow> cp_answer \<times> 'w"
  cancel_is_set :: "'w \<Rightarrow> bool \<times> 'w"
  notify :: "event \<Rightarrow> 'w \<Rightarrow> 'w"
  py_hash :: "int \<Rightarrow> uuid \<Rightarrow> int"
  set_order :: "uuid list \<Rightarrow> uuid list"

definition solved :: "cp_status \<Rightarrow> bool" where
  "solved st \<longleftrightarrow> st = Cp_optimal \<or> st = Cp_feasible"

definition sound_answer :: "cp_model \<Rightarrow> cp_answer \<Rightarrow> bool" where
  "sound_answer m a \<longleftrightarrow>
     (solved (ans_status a) \<longrightarrow> feasible m (ans_value a)
         \<and> ans_objective a = objective_value (cp_objective m) (ans_value a))
   \<and> (ans_status a = Cp_infeasible \<longrightarrow> (\<forall>v. \<not> feasible m v))
   \<and> (ans_status a = Cp_optimal \<longrightarrow>
        (\<forall>v. feasible m v \<longrightarrow> at_least_as_good (cp_objective m) (ans_value a) v))"

definition cp_sound :: "'w env \<Rightarrow> bool" where
  "cp_sound env \<longleftrightarrow> (\<forall>m p w. sound_answer m (fst (cp_solve env m p w)))"

text \<open>Iterating a set visits each element once.\<close>

definition set_order_ok :: "'w env \<Rightarrow> bool" where
  "set_order_ok env \<longleftrightarrow> (\<forall>xs. distinct xs \<longrightarrow> mset (set_order env xs) = mset xs)"

lemma cp_sound_feasible:
  "cp_sound env \<Longrightarrow> solved (ans_status (fst (cp_solve env m p w)))
     \<Longrightarrow> feasible m (ans_value (fst (cp_solve env m p w)))"
  by (simp add: cp_sound_def sound_answer_def)

text \<open>
  A solver that can be run: it answers with a fixed valuation where that one is feasible
  and with UNKNOWN elsewhere.  It keeps the contract, so no theorem under
  \<open>cp_sound\<close> is vacuous.
\<close>

definition probe_env :: "(cp_var \<Rightarrow> int) \<Rightarrow> unit env" where
  "probe_env v = \<lparr>
     cp_solve = (\<lambda>m p w. (\<lparr>ans_status = (if feasible m v then Cp_feasible else Cp_unknown),
         ans_value = v, ans_objective = objective_value (cp_objective m) v\<rparr>, w)),
     cancel_is_set = (\<lambda>w. (False, w)), notify = (\<lambda>_ w. w), py_hash = (\<lambda>s i. int i),
     set_order = (\<lambda>xs. xs)\<rparr>"

lemma probe_env_sound: "cp_sound (probe_env v)"
  by (simp add: cp_sound_def probe_env_def sound_answer_def solved_def)

section \<open>Properties of what a computation returns\<close>

definition ensures :: "('w \<Rightarrow> 'a \<times> 'w) \<Rightarrow> ('a \<Rightarrow> bool) \<Rightarrow> bool" where
  "ensures m P \<longleftrightarrow> (\<forall>w. P (fst (m w)))"

lemma ensuresI: "(\<And>w. P (fst (m w))) \<Longrightarrow> ensures m P"
  by (simp add: ensures_def)

lemma ensuresD: "ensures m P \<Longrightarrow> P (fst (m w))"
  by (simp add: ensures_def)

lemma ensures_fst: "ensures m P \<Longrightarrow> m w = (a, w') \<Longrightarrow> P a"
  by (metis ensures_def fst_conv)

lemma ensures_weaken: "ensures m P \<Longrightarrow> (\<And>a. P a \<Longrightarrow> Q a) \<Longrightarrow> ensures m Q"
  by (simp add: ensures_def)

lemma ensures_conj: "ensures m P \<Longrightarrow> ensures m Q \<Longrightarrow> ensures m (\<lambda>a. P a \<and> Q a)"
  by (simp add: ensures_def)

lemma ensures_bind [ensures_intros]:
  assumes "ensures m P" and "\<And>a. P a \<Longrightarrow> ensures (f a) Q"
  shows "ensures (\<lambda>w. case m w of (a, w') \<Rightarrow> f a w') Q"
proof (rule ensuresI)
  fix w
  obtain a w' where "m w = (a, w')" by (cases "m w")
  then show "Q (fst (case m w of (a, w') \<Rightarrow> f a w'))"
    using assms by (auto simp: ensures_fst intro: ensuresD dest: ensures_fst)
qed

lemma ensures_return [ensures_intros]: "P a \<Longrightarrow> ensures (\<lambda>w. (a, w)) P"
  by (simp add: ensures_def)

lemma ensures_if [ensures_intros]:
  "(c \<Longrightarrow> ensures m P) \<Longrightarrow> (\<not> c \<Longrightarrow> ensures n P) \<Longrightarrow> ensures (\<lambda>w. if c then m w else n w) P"
  by (cases c) simp_all

end
