(* ===== verification/Availability.thy ===== *)
theory Availability
  imports DutyTypes
begin

text \<open>
  \<open>app/algorithm/availability.py\<close>: which soldiers may take which duty.  The set of
  blockers the code builds is a list without repetition; nothing depends on its order.
  \<open>may_serve\<close> states the eligibility rule independently of how the code collects the
  reasons, and \<open>booked\<close> the clash with an existing assignment.
\<close>

definition eligibility_blockers ::
  "SoldierInput \<Rightarrow> DutyBlock \<Rightarrow> bool \<Rightarrow> date list option \<Rightarrow> blocker list" where
  "eligibility_blockers soldier duty enforce_weapon dates_arg =
     (let dates = (case dates_arg of Some ds \<Rightarrow> ds | None \<Rightarrow> duty_dates duty) in
      remdups (
        (if d_duty_type_id duty \<in> s_exempted_duty_type_ids soldier
         then [Duty_type_exemption] else [])
      @ (if d_duty_location_id duty \<in> s_exempted_duty_location_ids soldier
         then [Duty_location_exemption] else [])
      @ (if list_ex (\<lambda>(start, stop). list_ex (\<lambda>t. start \<le> t \<and> t \<le> stop) dates)
              (s_approved_constraint_dates soldier)
         then [Personal_constraint] else [])
      @ (if \<not> node_in_scope (d_eligible_node_ids duty) (s_path_ids soldier)
         then [Hierarchy_scope] else [])
      @ (if enforce_weapon \<and> d_id duty \<in> s_weapon_ineligible_duty_block_ids soldier
         then [if truthy_str (d_required_range_type duty) then Range_qualification
               else Weapon_qualification] else [])
      @ (if d_id duty \<in> s_future_ineligible_duty_block_ids soldier
         then (let ranged = truthy_str (d_required_range_type duty);
                   driving = truthy (dict_get (d_requirements duty)
                               ''requires_military_driving_license'')
               in (if ranged then [Range_qualification] else [])
                @ (if driving then [Military_driving_license] else [])
                @ (if \<not> ranged \<and> \<not> driving then [Duty_requirements] else []))
         else [])))"

definition is_eligible :: "SoldierInput \<Rightarrow> DutyBlock \<Rightarrow> bool \<Rightarrow> bool" where
  "is_eligible soldier duty enforce_weapon =
     (eligibility_blockers soldier duty enforce_weapon None = [])"

record DutyAvailability =
  v_eligible_count :: int
  v_available_count :: int
  v_blocker_counts :: "(blocker, int) dict"

definition count_blocker :: "blocker \<Rightarrow> (blocker, int) dict \<Rightarrow> (blocker, int) dict" where
  "count_blocker b counts = dict_set counts b (dict_get_or counts b 0 + 1)"

definition has_conflict :: "ExistingAssignment list \<Rightarrow> SoldierInput \<Rightarrow> DutyBlock \<Rightarrow> bool" where
  "has_conflict existing soldier duty = list_ex (\<lambda>a. e_soldier_id a = s_id soldier
      \<and> e_start_date a < d_end_date duty \<and> d_start_date duty < e_end_date a) existing"

definition availability_step ::
  "DutyBlock \<Rightarrow> ExistingAssignment list \<Rightarrow> bool \<Rightarrow> SoldierInput
   \<Rightarrow> DutyAvailability \<Rightarrow> DutyAvailability" where
  "availability_step duty existing enforce_weapon soldier v =
     (let blockers = eligibility_blockers soldier duty enforce_weapon None in
      if blockers \<noteq> [] then
        v\<lparr>v_blocker_counts := fold count_blocker blockers (v_blocker_counts v)\<rparr>
      else
        (let v1 = v\<lparr>v_eligible_count := v_eligible_count v + 1\<rparr> in
         if has_conflict existing soldier duty then
           v1\<lparr>v_blocker_counts := count_blocker Schedule_conflict (v_blocker_counts v1)\<rparr>
         else v1\<lparr>v_available_count := v_available_count v1 + 1\<rparr>))"

definition analyze_duty_availability ::
  "SoldierInput list \<Rightarrow> DutyBlock \<Rightarrow> ExistingAssignment list \<Rightarrow> bool \<Rightarrow> DutyAvailability" where
  "analyze_duty_availability soldiers duty existing enforce_weapon =
     fold (availability_step duty existing enforce_weapon) soldiers
       \<lparr>v_eligible_count = 0, v_available_count = 0, v_blocker_counts = []\<rparr>"

section \<open>The rule the blockers implement\<close>

definition on_leave :: "SoldierInput \<Rightarrow> date \<Rightarrow> bool" where
  "on_leave s t \<longleftrightarrow> (\<exists>(a, b) \<in> set (s_approved_constraint_dates s). a \<le> t \<and> t \<le> b)"

definition may_serve :: "bool \<Rightarrow> SoldierInput \<Rightarrow> DutyBlock \<Rightarrow> bool" where
  "may_serve enforce_weapon s d \<longleftrightarrow>
     d_duty_type_id d \<notin> s_exempted_duty_type_ids s
   \<and> d_duty_location_id d \<notin> s_exempted_duty_location_ids s
   \<and> (\<forall>t \<in> duty_days d. \<not> on_leave s t)
   \<and> node_in_scope (d_eligible_node_ids d) (s_path_ids s)
   \<and> (enforce_weapon \<longrightarrow> d_id d \<notin> s_weapon_ineligible_duty_block_ids s)
   \<and> d_id d \<notin> s_future_ineligible_duty_block_ids s"

lemma on_leave_list_ex:
  "list_ex (\<lambda>(a, b). list_ex (\<lambda>t. a \<le> t \<and> t \<le> b) ts) (s_approved_constraint_dates s)
     \<longleftrightarrow> (\<exists>t \<in> set ts. on_leave s t)"
  by (auto simp: on_leave_def list_ex_iff)

lemma eligibility_blockers_Nil:
  "eligibility_blockers s d w None = [] \<longleftrightarrow> may_serve w s d"
  unfolding eligibility_blockers_def Let_def may_serve_def
  by (simp add: on_leave_list_ex)

lemma no_blockers: "may_serve w s d \<Longrightarrow> eligibility_blockers s d w None = []"
  by (simp add: eligibility_blockers_Nil)

lemma eligibility_blockers_dates:
  assumes "set ts = duty_days d"
  shows "eligibility_blockers s d w (Some ts) = eligibility_blockers s d w None"
  unfolding eligibility_blockers_def Let_def using assms
  by (simp add: on_leave_list_ex)

lemma is_eligible_iff [simp]: "is_eligible s d w \<longleftrightarrow> may_serve w s d"
  by (simp add: is_eligible_def eligibility_blockers_Nil)

lemma distinct_blockers [simp]: "distinct (eligibility_blockers s d w ts)"
  by (simp add: eligibility_blockers_def Let_def)

lemma schedule_conflict_not_blocker [simp]:
  "Schedule_conflict \<notin> set (eligibility_blockers s d w ts)"
  by (simp add: eligibility_blockers_def Let_def)

definition booked :: "ExistingAssignment list \<Rightarrow> uuid \<Rightarrow> date set" where
  "booked existing sid = (\<Union>e \<in> {e \<in> set existing. e_soldier_id e = sid}. existing_days e)"

lemma mem_booked:
  "t \<in> booked existing sid \<longleftrightarrow>
     (\<exists>e \<in> set existing. e_soldier_id e = sid \<and> e_start_date e \<le> t \<and> t < e_end_date e)"
  by (auto simp: booked_def mem_existing_days)

lemma finite_booked [simp]: "finite (booked existing sid)"
  by (auto simp: booked_def)

lemma booked_Nil [simp]: "booked [] sid = {}"
  by (simp add: booked_def)

lemma booked_append: "booked (xs @ ys) sid = booked xs sid \<union> booked ys sid"
  by (auto simp: booked_def)

lemma booked_subset: "set xs \<subseteq> set ys \<Longrightarrow> booked xs sid \<subseteq> booked ys sid"
  by (auto simp: booked_def)

lemma has_conflict_iff:
  assumes "d_start_date d < d_end_date d"
    and "\<And>e. e \<in> set existing \<Longrightarrow> e_start_date e < e_end_date e"
  shows "has_conflict existing s d \<longleftrightarrow> booked existing (s_id s) \<inter> duty_days d \<noteq> {}"
proof
  assume "has_conflict existing s d"
  then obtain e where e: "e \<in> set existing" "e_soldier_id e = s_id s"
    "e_start_date e < d_end_date d" "d_start_date d < e_end_date e"
    by (auto simp: has_conflict_def list_ex_iff)
  then have "max (e_start_date e) (d_start_date d) \<in> booked existing (s_id s) \<inter> duty_days d"
    using assms by (auto simp: mem_booked mem_duty_days)
  then show "booked existing (s_id s) \<inter> duty_days d \<noteq> {}" by blast
next
  assume "booked existing (s_id s) \<inter> duty_days d \<noteq> {}"
  then show "has_conflict existing s d"
    by (force simp: has_conflict_def list_ex_iff mem_booked mem_duty_days)
qed

section \<open>What the counters count\<close>

lemma count_blocker_get [simp]:
  "dict_get_or (count_blocker b c) b' 0 = dict_get_or c b' 0 + (if b' = b then 1 else 0)"
  by (auto simp: count_blocker_def dict_get_or_def)

lemma fold_count_blocker:
  "distinct bs \<Longrightarrow> dict_get_or (fold count_blocker bs c) b 0
      = dict_get_or c b 0 + (if b \<in> set bs then 1 else 0)"
  by (induction bs arbitrary: c) auto

definition blocks :: "bool \<Rightarrow> DutyBlock \<Rightarrow> ExistingAssignment list \<Rightarrow> blocker
    \<Rightarrow> SoldierInput \<Rightarrow> bool" where
  "blocks w d existing b s \<longleftrightarrow>
     b \<in> set (eligibility_blockers s d w None)
   \<or> b = Schedule_conflict \<and> may_serve w s d \<and> has_conflict existing s d"

lemma availability_fold:
  "v_eligible_count (fold (availability_step d ex w) ss v)
     = v_eligible_count v + int (length (filter (\<lambda>s. may_serve w s d) ss))"
  "v_available_count (fold (availability_step d ex w) ss v)
     = v_available_count v
       + int (length (filter (\<lambda>s. may_serve w s d \<and> \<not> has_conflict ex s d) ss))"
  "dict_get_or (v_blocker_counts (fold (availability_step d ex w) ss v)) b 0
     = dict_get_or (v_blocker_counts v) b 0 + int (length (filter (blocks w d ex b) ss))"
proof (induction ss arbitrary: v)
  case (Cons s ss)
  {
    case 1
    show ?case using Cons(1) by (simp add: availability_step_def Let_def eligibility_blockers_Nil)
  next
    case 2
    show ?case using Cons(2) by (simp add: availability_step_def Let_def eligibility_blockers_Nil)
  next
    case 3
    show ?case using Cons(3)
      by (cases "may_serve w s d")
        (auto simp: availability_step_def Let_def no_blockers eligibility_blockers_Nil
          blocks_def fold_count_blocker)
  }
qed simp_all

lemma analyze_eligible_count:
  "v_eligible_count (analyze_duty_availability ss d ex w)
     = int (length (filter (\<lambda>s. may_serve w s d) ss))"
  by (simp add: analyze_duty_availability_def availability_fold)

text \<open>
  The diagnosis of a duty counts what it says: the eligible soldiers are those the
  eligibility rule admits, every eligible soldier is either available or counted as a
  schedule conflict, and each reason is counted once for each soldier it blocks.
\<close>

theorem analyze_counts:
  "let v = analyze_duty_availability ss d ex w in
     v_eligible_count v = int (length (filter (\<lambda>s. may_serve w s d) ss))
   \<and> v_available_count v
       = int (length (filter (\<lambda>s. may_serve w s d \<and> \<not> has_conflict ex s d) ss))
   \<and> v_eligible_count v
       = v_available_count v + dict_get_or (v_blocker_counts v) Schedule_conflict 0
   \<and> dict_get_or (v_blocker_counts v) b 0 = int (length (filter (blocks w d ex b) ss))"
proof -
  have "length (filter (\<lambda>s. may_serve w s d) ss)
      = length (filter (\<lambda>s. may_serve w s d \<and> \<not> has_conflict ex s d) ss)
      + length (filter (blocks w d ex Schedule_conflict) ss)"
    by (induction ss) (auto simp: blocks_def)
  then show ?thesis
    by (simp add: analyze_duty_availability_def availability_fold Let_def)
      (simp add: dict_get_or_def)
qed

end
