(* ===== verification/ModelBuild.thy ===== *)
theory ModelBuild
  imports CpSat Availability
begin

text \<open>
  \<open>build_model\<close> of \<open>app/algorithm/model.py\<close>: the hard constraints of one CP-SAT
  solve, in the order the code adds them: coverage, node quotas, no overlap, rest, and
  the rolling-window caps.  The fairness half of the function is in Fairness.  Each
  block of constraints is one definition; \<open>hard_cons\<close> is their concatenation.
  \<open>legal\<close> is the specification: a set of (duty, soldier) index pairs that respects
  eligibility, one soldier per duty, no double booking, the rest time and the caps.
  \<open>hard_cons_legal\<close> shows that the choice read off any solution is legal.
\<close>

section \<open>Eligible pairs\<close>

text \<open>\<open>solver._eligible_pairs\<close>.\<close>

definition eligible_pairs ::
  "SoldierInput list \<Rightarrow> DutyBlock list \<Rightarrow> SolverSettings \<Rightarrow> (nat \<times> nat) list" where
  "eligible_pairs soldiers duties settings =
     concat (map (\<lambda>(di, d).
       let ddates = duty_dates d in
       map (\<lambda>(si, s). (di, si))
         (filter (\<lambda>(si, s). eligibility_blockers s d
             (enforce_weapon_qualification settings) (Some ddates) = []) (indexed soldiers)))
       (indexed duties))"

text \<open>The pre-filter inside \<open>build_model\<close>, and its \<open>soldier_duties[si]\<close>.\<close>

definition model_eligible ::
  "SoldierInput list \<Rightarrow> DutyBlock list \<Rightarrow> SolverSettings \<Rightarrow> (nat \<times> nat) list" where
  "model_eligible soldiers duties settings =
     concat (map (\<lambda>(di, d). concat (map (\<lambda>(si, s).
         if eligibility_blockers s d (enforce_weapon_qualification settings)
              (Some (duty_dates d)) \<noteq> [] then [] else [(di, si)]) (indexed soldiers)))
       (indexed duties))"

definition soldier_duties :: "(nat \<times> nat) list \<Rightarrow> nat \<Rightarrow> nat list" where
  "soldier_duties eligible si = map fst (filter (\<lambda>p. snd p = si) eligible)"

definition duty_soldiers :: "(nat \<times> nat) list \<Rightarrow> nat \<Rightarrow> nat list" where
  "duty_soldiers eligible di = map snd (filter (\<lambda>p. fst p = di) eligible)"

lemma blockers_some [simp]:
  "eligibility_blockers s d w (Some (duty_dates d)) = [] \<longleftrightarrow> may_serve w s d"
  by (simp add: eligibility_blockers_dates eligibility_blockers_Nil)

lemma mem_eligible_pairs:
  "(di, si) \<in> set (eligible_pairs ss ds st) \<longleftrightarrow>
     di < length ds \<and> si < length ss
     \<and> may_serve (enforce_weapon_qualification st) (ss ! si) (ds ! di)"
  unfolding eligible_pairs_def by (auto simp: set_indexed Let_def image_iff)

lemma model_eligible_eq: "model_eligible ss ds st = eligible_pairs ss ds st"
proof -
  have "concat (map (\<lambda>(si, s). if P si s then [] else [(di, si)]) xs)
      = map (\<lambda>(si, s). (di, si)) (filter (\<lambda>(si, s). \<not> P si s) xs)"
    for P :: "nat \<Rightarrow> SoldierInput \<Rightarrow> bool" and di :: nat and xs
    by (induction xs) auto
  then show ?thesis by (simp add: model_eligible_def eligible_pairs_def Let_def)
qed

lemma distinct_index_pairs:
  assumes "distinct (map fst xs)" and "distinct (map fst ys)"
  shows "distinct (concat (map (\<lambda>(i, d). map (\<lambda>(j, s). (i, j)) (filter (P i d) ys)) xs))"
  using assms(1)
proof (induction xs)
  case (Cons x xs)
  obtain i d where x: "x = (i, d)" by (cases x)
  have "distinct (map fst (filter (P i d) ys))"
    using assms(2) by (simp add: distinct_map_filter)
  then have "distinct (map (\<lambda>(j, s). (i, j)) (filter (P i d) ys))"
    by (auto simp: distinct_map inj_on_def)
  with Cons x show ?case by force
qed simp

lemma distinct_eligible_pairs [simp]: "distinct (eligible_pairs ss ds st)"
  unfolding eligible_pairs_def Let_def
  using distinct_index_pairs [of "indexed ds" "indexed ss"
      "\<lambda>di d (si, s). eligibility_blockers s d (enforce_weapon_qualification st)
                        (Some (duty_dates d)) = []"]
  by (simp add: case_prod_unfold)

lemma mem_soldier_duties [simp]: "di \<in> set (soldier_duties el si) \<longleftrightarrow> (di, si) \<in> set el"
  by (force simp: soldier_duties_def)

lemma mem_duty_soldiers [simp]: "si \<in> set (duty_soldiers el di) \<longleftrightarrow> (di, si) \<in> set el"
  by (force simp: duty_soldiers_def)

lemma distinct_soldier_duties [simp]: "distinct el \<Longrightarrow> distinct (soldier_duties el si)"
  by (auto simp: soldier_duties_def distinct_map inj_on_def)

lemma distinct_duty_soldiers [simp]: "distinct el \<Longrightarrow> distinct (duty_soldiers el di)"
  by (auto simp: duty_soldiers_def distinct_map inj_on_def)

section \<open>Coverage and node quotas\<close>

datatype coverage = Hard | Soft

definition decision_vars :: "(nat \<times> nat) list \<Rightarrow> (cp_var \<times> int \<times> int) list" where
  "decision_vars eligible = map (\<lambda>(di, si). (X di si, 0, 1)) eligible"

definition vars_for_duty :: "(nat \<times> nat) list \<Rightarrow> nat \<Rightarrow> lin list" where
  "vars_for_duty eligible di = map (\<lambda>si. lvar (X di si)) (duty_soldiers eligible di)"

definition coverage_cons :: "coverage \<Rightarrow> DutyBlock list \<Rightarrow> (nat \<times> nat) list \<Rightarrow> cp_con list" where
  "coverage_cons cov duties eligible =
     concat (map (\<lambda>di. let vs = vars_for_duty eligible di in
        if vs = [] then []
        else if cov = Soft then [Le (lsum vs) (lconst 1)]
        else [Eq (lsum vs) (lconst 1)]) [0..<length duties])"

definition quotas_of :: "DutyBlock \<Rightarrow> (uuid, int) dict" where
  "quotas_of d = (case d_node_quotas d of None \<Rightarrow> [] | Some q \<Rightarrow> q)"

definition quota_reified :: "coverage \<Rightarrow> (nat \<times> nat) list \<Rightarrow> nat \<times> DutyBlock \<Rightarrow> bool" where
  "quota_reified cov eligible e \<longleftrightarrow>
     cov = Soft \<and> quotas_of (snd e) \<noteq> [] \<and> vars_for_duty eligible (fst e) \<noteq> []"

definition quota_vars ::
  "coverage \<Rightarrow> DutyBlock list \<Rightarrow> (nat \<times> nat) list \<Rightarrow> (cp_var \<times> int \<times> int) list" where
  "quota_vars cov duties eligible =
     map (\<lambda>(di, d). (Covered di, 0, 1)) (filter (quota_reified cov eligible) (indexed duties))"

definition quota_cons :: "coverage \<Rightarrow> SoldierInput list \<Rightarrow> DutyBlock list
    \<Rightarrow> (nat \<times> nat) list \<Rightarrow> cp_con list" where
  "quota_cons cov soldiers duties eligible =
     concat (map (\<lambda>(di, d).
       if quotas_of d = [] then []
       else
         (if quota_reified cov eligible (di, d)
          then [Eq (lsum (vars_for_duty eligible di)) (lvar (Covered di))] else [])
       @ concat (map (\<lambda>(node_id, count).
           let matching = filter (\<lambda>si. node_id \<in> set (s_path_ids (soldiers ! si)))
                            (duty_soldiers eligible di);
               constr = Eq (lsum (map (\<lambda>si. lvar (X di si)) matching)) (lconst count)
           in if matching = [] then []
              else if quota_reified cov eligible (di, d) then [OnlyEnforceIf constr (Covered di)]
              else [constr]) (quotas_of d)))
       (indexed duties))"

lemma vars_for_duty_nonempty: "(di, si) \<in> set el \<Longrightarrow> vars_for_duty el di \<noteq> []"
  using mem_duty_soldiers [of si el di] by (force simp: vars_for_duty_def)

section \<open>No overlap\<close>

definition existing_dates_by_soldier :: "ExistingAssignment list \<Rightarrow> uuid \<Rightarrow> date list" where
  "existing_dates_by_soldier existing soldier_id =
     remdups (concat (map (\<lambda>ea. days_from_to (e_start_date ea) (e_end_date ea))
       (filter (\<lambda>ea. e_soldier_id ea = soldier_id) existing)))"

definition existing_real :: "ExistingAssignment list \<Rightarrow> ExistingAssignment list" where
  "existing_real existing = filter (\<lambda>e. \<not> e_is_reserve e) existing"

definition all_duty_dates :: "DutyBlock list \<Rightarrow> date list" where
  "all_duty_dates duties = sort (remdups (concat (map duty_dates duties)))"

definition overlap_cons :: "SoldierInput list \<Rightarrow> DutyBlock list \<Rightarrow> ExistingAssignment list
    \<Rightarrow> (nat \<times> nat) list \<Rightarrow> cp_con list" where
  "overlap_cons soldiers duties existing eligible =
     concat (map (\<lambda>(si, s).
       let existing_dates = existing_dates_by_soldier existing (s_id s) in
       concat (map (\<lambda>t.
         let day_vars = map (\<lambda>di. lvar (X di si))
               (filter (\<lambda>di. t \<in> set (duty_dates (duties ! di))) (soldier_duties eligible si))
         in if day_vars = [] then []
            else if t \<in> set existing_dates then [Eq (lsum day_vars) (lconst 0)]
            else [Le (lsum day_vars) (lconst 1)]) (all_duty_dates duties)))
       (indexed soldiers))"

section \<open>Rest\<close>

definition rest_existing_cons :: "DutyBlock list \<Rightarrow> ExistingAssignment list \<Rightarrow> nat
    \<Rightarrow> SoldierInput \<Rightarrow> nat list \<Rightarrow> cp_con list" where
  "rest_existing_cons duties existing si s si_duties =
     concat (map (\<lambda>ea.
       case e_rest_effective_end_date ea of
         None \<Rightarrow> []
       | Some end_date \<Rightarrow>
           if e_soldier_id ea \<noteq> s_id s then []
           else
             (let prior_end_dt = combine_date_time end_date (e_rest_effective_end_time ea) in
              map (\<lambda>di. Eq (lvar (X di si)) (lconst 0))
                (filter (\<lambda>di. rest_violated prior_end_dt (d_start_date (duties ! di))
                    (d_start_time (duties ! di)) (e_rest_hours ea)) si_duties))) existing)"

fun rest_pair_cons :: "DutyBlock list \<Rightarrow> nat \<Rightarrow> nat list \<Rightarrow> cp_con list" where
  "rest_pair_cons duties si [] = []"
| "rest_pair_cons duties si (di_a # rest) =
     (let d_a = duties ! di_a in
      if d_rest_hours d_a \<le> 0 then []
      else
        (let end_day_a = last_duty_day (d_start_date d_a) (d_end_date d_a);
             prior_end_dt = combine_date_time end_day_a (d_end_time d_a);
             lookahead_days = ceil_div (d_rest_hours d_a) 24 + 1
         in map (\<lambda>di_b. Le (ladd (lvar (X di_a si)) (lvar (X di_b si))) (lconst 1))
              (filter (\<lambda>di_b. rest_violated prior_end_dt (d_start_date (duties ! di_b))
                                (d_start_time (duties ! di_b)) (d_rest_hours d_a))
                (takeWhile (\<lambda>di_b. \<not> d_start_date (duties ! di_b) > end_day_a + lookahead_days)
                  rest))))
     @ rest_pair_cons duties si rest"

definition rest_cons :: "SoldierInput list \<Rightarrow> DutyBlock list \<Rightarrow> ExistingAssignment list
    \<Rightarrow> (nat \<times> nat) list \<Rightarrow> cp_con list" where
  "rest_cons soldiers duties existing eligible =
     concat (map (\<lambda>(si, s).
       let si_duties = soldier_duties eligible si in
       rest_existing_cons duties existing si s si_duties
     @ rest_pair_cons duties si (sort_key (\<lambda>di. d_start_date (duties ! di)) si_duties))
       (indexed soldiers))"

section \<open>Rolling-window caps\<close>

text \<open>
  One window of \<open>W\<close> days starting at \<open>ws\<close>: the duties are sorted by start, the
  existing days are sorted; \<open>only_real\<close> skips reserve duties (the T cap).
\<close>

definition window_con :: "bool \<Rightarrow> int \<Rightarrow> int \<Rightarrow> DutyBlock list \<Rightarrow> nat \<Rightarrow> nat list \<Rightarrow> date list
    \<Rightarrow> date \<Rightarrow> cp_con list" where
  "window_con only_real cap W duties si duties_sorted sorted_existing ws =
     (let we = ws + (W - 1);
          window_end_excl = we + 1;
          existing_fixed = int (bisect_right sorted_existing we)
                         - int (bisect_left sorted_existing ws);
          starts_sorted = map (\<lambda>di. d_start_date (duties ! di)) duties_sorted;
          ends_sorted = map (\<lambda>di. d_end_date (duties ! di)) duties_sorted;
          right = bisect_right starts_sorted we;
          weighted = concat (map (\<lambda>i.
            if ends_sorted ! i < ws then []
            else
              (let di = duties_sorted ! i in
               if only_real \<and> d_is_reserve (duties ! di) then []
               else
                 (let overlap = min (ends_sorted ! i) window_end_excl - max (starts_sorted ! i) ws
                  in if overlap > 0 then [(overlap, X di si)] else []))) [0..<right])
      in if weighted \<noteq> [] \<or> existing_fixed \<noteq> 0 then
           (let headroom = cap - existing_fixed in
            if headroom \<le> 0 then
              (if weighted \<noteq> [] then [Eq (lsum (map (\<lambda>(w, x). lvar x) weighted)) (lconst 0)] else [])
            else [Le (lsum (map (\<lambda>(w, x). lscale w (lvar x)) weighted)) (lconst headroom)])
         else [])"

definition relevant_dates :: "DutyBlock list \<Rightarrow> ExistingAssignment list \<Rightarrow> SoldierInput
    \<Rightarrow> nat list \<Rightarrow> date list" where
  "relevant_dates duties existing s si_duties =
     existing_dates_by_soldier existing (s_id s)
     @ concat (map (\<lambda>di. [d_start_date (duties ! di), d_end_date (duties ! di)]) si_duties)"

definition soldier_density_cons :: "DutyBlock list \<Rightarrow> ExistingAssignment list
    \<Rightarrow> SolverSettings \<Rightarrow> (nat \<times> nat) list \<Rightarrow> nat \<Rightarrow> SoldierInput \<Rightarrow> cp_con list" where
  "soldier_density_cons duties existing settings eligible si s =
     (let si_duties = soldier_duties eligible si;
          existing_all = existing_dates_by_soldier existing (s_id s);
          existing_rl = existing_dates_by_soldier (existing_real existing) (s_id s);
          duties_sorted = sort_key (\<lambda>di. d_start_date (duties ! di)) si_duties;
          all_relevant = relevant_dates duties existing s si_duties
      in if all_relevant = [] then []
         else
           (let starts = [Min (set all_relevant)..Max (set all_relevant)] in
            concat (map (window_con True (T_cap settings) (Wt settings) duties si
                           duties_sorted (sort existing_rl)) starts)
          @ concat (map (window_con False (R_cap settings) (Wr settings) duties si
                           duties_sorted (sort existing_all)) starts)))"

definition density_cons :: "SoldierInput list \<Rightarrow> DutyBlock list \<Rightarrow> ExistingAssignment list
    \<Rightarrow> SolverSettings \<Rightarrow> (nat \<times> nat) list \<Rightarrow> cp_con list" where
  "density_cons soldiers duties existing settings eligible =
     concat (map (\<lambda>(si, s). soldier_density_cons duties existing settings eligible si s)
       (indexed soldiers))"

definition hard_cons :: "coverage \<Rightarrow> SoldierInput list \<Rightarrow> DutyBlock list \<Rightarrow> ExistingAssignment list
    \<Rightarrow> SolverSettings \<Rightarrow> (nat \<times> nat) list \<Rightarrow> cp_con list" where
  "hard_cons cov soldiers duties existing settings eligible =
     coverage_cons cov duties eligible
   @ quota_cons cov soldiers duties eligible
   @ overlap_cons soldiers duties existing eligible
   @ rest_cons soldiers duties existing eligible
   @ density_cons soldiers duties existing settings eligible"

section \<open>The specification\<close>

definition window :: "date \<Rightarrow> int \<Rightarrow> date set" where
  "window ws W = {ws..<ws + W}"

definition served :: "DutyBlock list \<Rightarrow> (nat \<times> nat) set \<Rightarrow> bool \<Rightarrow> nat \<Rightarrow> date set" where
  "served ds A only_real si =
     (\<Union>di \<in> {di. (di, si) \<in> A \<and> (only_real \<longrightarrow> \<not> d_is_reserve (ds ! di))}. duty_days (ds ! di))"

definition eligible_choice where
  "eligible_choice st ss ds A \<longleftrightarrow> (\<forall>(di, si) \<in> A. di < length ds \<and> si < length ss
     \<and> may_serve (enforce_weapon_qualification st) (ss ! si) (ds ! di))"

definition one_per_duty :: "(nat \<times> nat) set \<Rightarrow> bool" where
  "one_per_duty A \<longleftrightarrow> (\<forall>di s1 s2. (di, s1) \<in> A \<longrightarrow> (di, s2) \<in> A \<longrightarrow> s1 = s2)"

definition no_double_booking where
  "no_double_booking ss ds ex A \<longleftrightarrow> (\<forall>(di, si) \<in> A.
      duty_days (ds ! di) \<inter> booked ex (s_id (ss ! si)) = {}
    \<and> (\<forall>dj. (dj, si) \<in> A \<longrightarrow> dj \<noteq> di \<longrightarrow> duty_days (ds ! di) \<inter> duty_days (ds ! dj) = {}))"

definition rest_end :: "DutyBlock \<Rightarrow> moment" where
  "rest_end d = combine_date_time (last_duty_day (d_start_date d) (d_end_date d)) (d_end_time d)"

definition rested where
  "rested ss ds ex A \<longleftrightarrow> (\<forall>(di, si) \<in> A.
      (\<forall>e \<in> set ex. \<forall>end_date. e_soldier_id e = s_id (ss ! si)
         \<longrightarrow> e_rest_effective_end_date e = Some end_date
         \<longrightarrow> \<not> rest_violated (combine_date_time end_date (e_rest_effective_end_time e))
                (d_start_date (ds ! di)) (d_start_time (ds ! di)) (e_rest_hours e))
    \<and> (\<forall>dj. (dj, si) \<in> A \<longrightarrow> d_start_date (ds ! di) < d_start_date (ds ! dj)
         \<longrightarrow> \<not> rest_violated (rest_end (ds ! di))
                (d_start_date (ds ! dj)) (d_start_time (ds ! dj)) (d_rest_hours (ds ! di))))"

definition cap_kept where
  "cap_kept only_real cap W ss ds ex A \<longleftrightarrow> (\<forall>si < length ss. \<forall>ws.
      window ws W \<inter> served ds A only_real si \<noteq> {}
      \<longrightarrow> int (card (window ws W \<inter> (served ds A only_real si
               \<union> booked (if only_real then existing_real ex else ex) (s_id (ss ! si))))) \<le> cap)"

definition legal :: "SolverSettings \<Rightarrow> SoldierInput list \<Rightarrow> DutyBlock list
    \<Rightarrow> ExistingAssignment list \<Rightarrow> (nat \<times> nat) set \<Rightarrow> bool" where
  "legal st ss ds ex A \<longleftrightarrow> eligible_choice st ss ds A \<and> one_per_duty A
     \<and> no_double_booking ss ds ex A \<and> rested ss ds ex A
     \<and> cap_kept True (T_cap st) (Wt st) ss ds ex A
     \<and> cap_kept False (R_cap st) (Wr st) ss ds ex A"

text \<open>The choice the code reads off a solution: the pairs with \<open>solver.Value(v)\<close>.\<close>

definition chosen :: "(cp_var \<Rightarrow> int) \<Rightarrow> (nat \<times> nat) list \<Rightarrow> (nat \<times> nat) list" where
  "chosen v eligible = filter (\<lambda>(di, si). v (X di si) \<noteq> 0) eligible"

definition binary :: "(cp_var \<Rightarrow> int) \<Rightarrow> (nat \<times> nat) list \<Rightarrow> bool" where
  "binary v eligible \<longleftrightarrow> (\<forall>(di, si) \<in> set eligible. v (X di si) = 0 \<or> v (X di si) = 1)"

lemma binary_decision_vars: "list_all (in_domain v) (decision_vars el) \<longleftrightarrow> binary v el"
  by (force simp: binary_def decision_vars_def in_domain_def list_all_iff)

lemma mem_chosen [simp]: "(di, si) \<in> set (chosen v el) \<longleftrightarrow> (di, si) \<in> set el \<and> v (X di si) \<noteq> 0"
  by (simp add: chosen_def)

lemma binaryD: "binary v el \<Longrightarrow> (di, si) \<in> set el \<Longrightarrow> v (X di si) = 0 \<or> v (X di si) = 1"
  by (auto simp: binary_def)

section \<open>From constraints to the specification\<close>

lemma set_existing_dates [simp]: "set (existing_dates_by_soldier ex sid) = booked ex sid"
  by (auto simp: existing_dates_by_soldier_def booked_def existing_days_def)

lemma distinct_existing_dates [simp]: "distinct (existing_dates_by_soldier ex sid)"
  by (simp add: existing_dates_by_soldier_def)

lemma set_all_duty_dates [simp]: "set (all_duty_dates ds) = (\<Union>d \<in> set ds. duty_days d)"
  by (simp add: all_duty_dates_def)

lemma unique_of_sum:
  fixes f :: "'a \<Rightarrow> int"
  assumes "distinct xs" "\<forall>x \<in> set xs. f x = 0 \<or> f x = 1" "(\<Sum>x\<leftarrow>xs. f x) \<le> 1"
    and "x \<in> set xs" "y \<in> set xs" "f x \<noteq> 0" "f y \<noteq> 0"
  shows "x = y"
  using assms sum_01_le_one [of "set xs" f x y] by (auto simp: sum_list_distinct_set)

lemma coverage_one_per_duty:
  assumes "list_all (holds v) (coverage_cons cov ds el)" "binary v el" "distinct el"
    and "\<forall>(di, si) \<in> set el. di < length ds"
  shows "one_per_duty (set (chosen v el))"
  unfolding one_per_duty_def
proof (intro allI impI)
  fix di s1 s2 assume c: "(di, s1) \<in> set (chosen v el)" "(di, s2) \<in> set (chosen v el)"
  let ?xs = "duty_soldiers el di"
  have "vars_for_duty el di \<noteq> []" and di: "di \<in> set [0..<length ds]"
    using c assms(4) vars_for_duty_nonempty by auto
  then have "(\<Sum>s\<leftarrow>?xs. v (X di s)) \<le> 1"
    using assms(1) by (fastforce simp: coverage_cons_def list_all_iff vars_for_duty_def comp_def
        Let_def split: if_splits)
  then show "s1 = s2"
    using c assms(2,3) by (intro unique_of_sum [of ?xs "\<lambda>s. v (X di s)"]) (auto dest: binaryD)
qed

lemma coverage_hard:
  assumes "list_all (holds v) (coverage_cons Hard ds el)" "(di, si) \<in> set el" "di < length ds"
  shows "\<exists>s. (di, s) \<in> set (chosen v el)"
proof (rule ccontr)
  assume none: "\<nexists>s. (di, s) \<in> set (chosen v el)"
  have ne: "vars_for_duty el di \<noteq> []"
    using assms(2) by (rule vars_for_duty_nonempty)
  have "(\<Sum>s\<leftarrow>duty_soldiers el di. v (X di s)) = 1"
    using assms(1,3) ne by (force simp: coverage_cons_def list_all_iff vars_for_duty_def comp_def Let_def)
  moreover have "(\<Sum>s\<leftarrow>duty_soldiers el di. v (X di s)) = (\<Sum>s\<leftarrow>duty_soldiers el di. 0)"
    using none by (intro arg_cong [of _ _ sum_list] map_cong) auto
  ultimately show False by simp
qed

lemma overlap_no_double_booking:
  assumes "list_all (holds v) (overlap_cons ss ds ex el)" "binary v el" "distinct el"
    and el: "\<forall>(di, si) \<in> set el. di < length ds \<and> si < length ss"
  shows "no_double_booking ss ds ex (set (chosen v el))"
proof -
  have key: "t \<notin> booked ex (s_id (ss ! si)) \<and> (\<forall>dj. (dj, si) \<in> set (chosen v el)
        \<longrightarrow> t \<in> duty_days (ds ! dj) \<longrightarrow> dj = di)"
    if c: "(di, si) \<in> set (chosen v el)" and t: "t \<in> duty_days (ds ! di)" for di si t
  proof -
    let ?ds = "filter (\<lambda>di. t \<in> duty_days (ds ! di)) (soldier_duties el si)"
    have di: "di \<in> set ?ds" and si: "si < length ss" and "di < length ds"
      using c t el by auto
    then have ts: "t \<in> set (all_duty_dates ds)" using t by auto
    have "?ds \<noteq> []" using di by (metis empty_iff list.set(1))
    moreover from list_all_concat_mapD [OF list_all_concat_mapD
        [OF assms(1) [unfolded overlap_cons_def], of "(si, ss ! si)", simplified Let_def prod.case] ts]
    have "list_all (holds v) (if map (\<lambda>di. lvar (X di si)) ?ds = [] then []
        else if t \<in> booked ex (s_id (ss ! si))
             then [Eq (lsum (map (\<lambda>di. lvar (X di si)) ?ds)) (lconst 0)]
             else [Le (lsum (map (\<lambda>di. lvar (X di si)) ?ds)) (lconst 1)])"
      using si by (simp cong: if_cong)
    ultimately have s: "(t \<in> booked ex (s_id (ss ! si)) \<longrightarrow> (\<Sum>d\<leftarrow>?ds. v (X d si)) = 0)
        \<and> (t \<notin> booked ex (s_id (ss ! si)) \<longrightarrow> (\<Sum>d\<leftarrow>?ds. v (X d si)) \<le> 1)"
      by (simp add: comp_def split: if_splits)
    have b: "\<forall>d \<in> set ?ds. v (X d si) = 0 \<or> v (X d si) = 1" using assms(2) by (auto dest: binaryD)
    have "t \<notin> booked ex (s_id (ss ! si))"
    proof
      assume "t \<in> booked ex (s_id (ss ! si))"
      then have "(\<Sum>d\<leftarrow>?ds. v (X d si)) = 0" using s by simp
      then have "v (X di si) = 0"
        using sum_list_01_eq_0_iff [of ?ds "\<lambda>d. v (X d si)"] b di by force
      then show False using c by simp
    qed
    moreover have "dj = di" if "(dj, si) \<in> set (chosen v el)" "t \<in> duty_days (ds ! dj)" for dj
      using unique_of_sum [of ?ds "\<lambda>d. v (X d si)" dj di] b s calculation that c di assms(3) by auto
    ultimately show ?thesis by blast
  qed
  show ?thesis unfolding no_double_booking_def using key by (fastforce split: prod.splits)
qed

end
