(* ===== verification/ModelSound.thy ===== *)
theory ModelSound
  imports ModelBuild
begin

text \<open>
  The constraints of ModelBuild imply its specification: rest and rolling windows, then
  \<open>hard_cons_legal\<close>, which every solver procedure uses.
\<close>

section \<open>Rest\<close>

lemma rest_beyond_lookahead:
  assumes "valid_clock (d_end_time a)" "valid_clock (d_start_time b)"
    and "d_start_date b > last_duty_day (d_start_date a) (d_end_date a) + (ceil_div (d_rest_hours a) 24 + 1)"
  shows "\<not> rest_violated (rest_end a) (d_start_date b) (d_start_time b) (d_rest_hours a)"
proof -
  have "d_rest_hours a \<le> ceil_div (d_rest_hours a) 24 * 24" by (rule ceil_div_ge) simp
  then have "d_rest_hours a * 60 \<le> ceil_div (d_rest_hours a) 24 * (24 * 60)" by simp
  moreover have "(last_duty_day (d_start_date a) (d_end_date a) + ceil_div (d_rest_hours a) 24 + 2)
      * (24 * 60) \<le> d_start_date b * (24 * 60)"
    using assms(3) by (intro mult_right_mono) auto
  ultimately show ?thesis
    using valid_clock_bounds [OF assms(1)] valid_clock_bounds [OF assms(2)]
    by (simp add: rest_violated_def rest_end_def combine_date_time_def algebra_simps)
qed

lemma rest_pair_cons_rested:
  assumes "list_all (holds v) (rest_pair_cons ds si xs)"
    and "sorted (map (\<lambda>di. d_start_date (ds ! di)) xs)"
    and "a \<in> set xs" "b \<in> set xs" "d_start_date (ds ! a) < d_start_date (ds ! b)"
    and "valid_clock (d_end_time (ds ! a))" "valid_clock (d_start_time (ds ! b))"
    and "rest_violated (rest_end (ds ! a)) (d_start_date (ds ! b)) (d_start_time (ds ! b))
           (d_rest_hours (ds ! a))"
  shows "v (X a si) + v (X b si) \<le> 1"
  using assms
proof (induction xs)
  case (Cons x xs)
  show ?case
  proof (cases "a = x")
    case True
    let ?limit = "last_duty_day (d_start_date (ds ! a)) (d_end_date (ds ! a))
                  + (ceil_div (d_rest_hours (ds ! a)) 24 + 1)"
    have b: "b \<in> set xs" using Cons.prems True by auto
    have near: "\<not> d_start_date (ds ! b) > ?limit"
      using rest_beyond_lookahead [of "ds ! a" "ds ! b"] Cons.prems by blast
    have pos: "\<not> d_rest_hours (ds ! a) \<le> 0"
      using Cons.prems(8) by (auto simp: rest_violated_def)
    have "takeWhile (\<lambda>d. \<not> d_start_date (ds ! d) > ?limit) xs
        = filter (\<lambda>d. \<not> d_start_date (ds ! d) > ?limit) xs"
      using Cons.prems(2) by (intro takeWhile_key_sorted) simp
    then have "b \<in> set (takeWhile (\<lambda>d. \<not> d_start_date (ds ! d) > ?limit) xs)"
      using b near by simp
    then show ?thesis
      using Cons.prems(1,8) True pos
      by (simp add: list_all_iff Let_def rest_end_def ball_Un)
  next
    case False
    then have "a \<in> set xs" using Cons.prems by simp
    moreover have "b \<noteq> x"
      using Cons.prems(2,5) calculation by (auto simp: not_less)
    ultimately show ?thesis using Cons by auto
  qed
qed simp

definition clocks_ok :: "DutyBlock list \<Rightarrow> bool" where
  "clocks_ok ds \<longleftrightarrow> list_all (\<lambda>d. valid_clock (d_start_time d) \<and> valid_clock (d_end_time d)) ds"

lemma rest_cons_rested:
  assumes cons: "list_all (holds v) (rest_cons ss ds ex el)" and bin: "binary v el"
    and el: "\<forall>(di, si) \<in> set el. di < length ds \<and> si < length ss" and "clocks_ok ds"
  shows "rested ss ds ex (set (chosen v el))"
proof -
  have part: "list_all (holds v) (rest_existing_cons ds ex si (ss ! si) (soldier_duties el si))
      \<and> list_all (holds v) (rest_pair_cons ds si
            (sort_key (\<lambda>di. d_start_date (ds ! di)) (soldier_duties el si)))"
    if "si < length ss" for si
    using list_all_concat_mapD [OF cons [unfolded rest_cons_def], of "(si, ss ! si)"] that
    by (simp add: Let_def)
  have "\<not> rest_violated (combine_date_time t (e_rest_effective_end_time e))
           (d_start_date (ds ! di)) (d_start_time (ds ! di)) (e_rest_hours e)"
    if c: "(di, si) \<in> set (chosen v el)" and e: "e \<in> set ex" "e_soldier_id e = s_id (ss ! si)"
       "e_rest_effective_end_date e = Some t" for di si e t
  proof
    assume viol: "rest_violated (combine_date_time t (e_rest_effective_end_time e))
           (d_start_date (ds ! di)) (d_start_time (ds ! di)) (e_rest_hours e)"
    have "si < length ss" using c el by auto
    from list_all_concat_mapD [OF part [OF this, THEN conjunct1, unfolded rest_existing_cons_def] e(1)]
    have "v (X di si) = 0" using e viol c by (auto simp: list_all_iff Let_def)
    with c show False by simp
  qed
  moreover have "\<not> rest_violated (rest_end (ds ! di)) (d_start_date (ds ! dj))
        (d_start_time (ds ! dj)) (d_rest_hours (ds ! di))"
    if c: "(di, si) \<in> set (chosen v el)" "(dj, si) \<in> set (chosen v el)"
       and lt: "d_start_date (ds ! di) < d_start_date (ds ! dj)" for di dj si
  proof
    assume viol: "rest_violated (rest_end (ds ! di)) (d_start_date (ds ! dj))
        (d_start_time (ds ! dj)) (d_rest_hours (ds ! di))"
    have ij: "si < length ss" "di < length ds" "dj < length ds" using c el by auto
    have clocks: "valid_clock (d_end_time (ds ! di))" "valid_clock (d_start_time (ds ! dj))"
      using assms(4) ij by (auto simp: clocks_ok_def list_all_length)
    have "v (X di si) + v (X dj si) \<le> 1"
      by (rule rest_pair_cons_rested [OF part [OF ij(1), THEN conjunct2] _ _ _ lt clocks viol])
        (use c in auto)
    then show False using c binaryD [OF bin, of di si] binaryD [OF bin, of dj si] by auto
  qed
  ultimately show ?thesis unfolding rested_def by blast
qed

section \<open>Rolling windows\<close>

definition overlap_days :: "DutyBlock \<Rightarrow> date \<Rightarrow> int \<Rightarrow> int" where
  "overlap_days d ws W = int (card (window ws W \<inter> duty_days d))"

lemma overlap_days_eq:
  "overlap_days d ws W = max 0 (min (d_end_date d) (ws + W) - max (d_start_date d) ws)"
proof -
  have "window ws W \<inter> duty_days d = {d_start_date d..<d_end_date d} \<inter> {ws..<ws + W}"
    by (auto simp: window_def duty_days_def)
  then have "overlap_days d ws W = int (nat (min (d_end_date d) (ws + W) - max (d_start_date d) ws))"
    by (simp add: overlap_days_def card_days_overlap)
  then show ?thesis unfolding int_nat_eq by (simp only: max_def)
qed

text \<open>The weighted variables of a window, as a list over the sorted duties.\<close>

definition weigh :: "bool \<Rightarrow> int \<Rightarrow> date \<Rightarrow> DutyBlock list \<Rightarrow> nat \<Rightarrow> nat \<Rightarrow> (int \<times> cp_var) list" where
  "weigh only_real W ws ds si di =
     (if (only_real \<and> d_is_reserve (ds ! di)) \<or> overlap_days (ds ! di) ws W = 0 then []
      else [(overlap_days (ds ! di) ws W, X di si)])"

lemma map_upt_nth: "r \<le> length xs \<Longrightarrow> map (\<lambda>i. f (xs ! i)) [0..<r] = map f (take r xs)"
  by (intro nth_equalityI) auto

lemma window_con_weighted:
  fixes ds :: "DutyBlock list"
  defines "st \<equiv> \<lambda>di. d_start_date (ds ! di)" and "en \<equiv> \<lambda>di. d_end_date (ds ! di)"
  assumes "sorted (map st xs)"
  shows "concat (map (\<lambda>i. if map en xs ! i < ws then []
            else let di = xs ! i in
              if only_real \<and> d_is_reserve (ds ! di) then []
              else let overlap = min (map en xs ! i) (ws + (W - 1) + 1) - max (map st xs ! i) ws
                   in if overlap > 0 then [(overlap, X di si)] else [])
            [0..<bisect_right (map st xs) (ws + (W - 1))])
       = concat (map (weigh only_real W ws ds si) xs)"
proof -
  let ?r = "bisect_right (map st xs) (ws + (W - 1))"
  have r: "?r \<le> length xs" using bisect_right_le_length [of "map st xs"] by simp
  have g: "(if en di < ws then [] else if only_real \<and> d_is_reserve (ds ! di) then []
        else let overlap = min (en di) (ws + (W - 1) + 1) - max (st di) ws
             in if overlap > 0 then [(overlap, X di si)] else [])
      = weigh only_real W ws ds si di" for di
    by (auto simp: weigh_def overlap_days_eq st_def en_def Let_def)
  have "concat (map (\<lambda>i. if map en xs ! i < ws then []
            else let di = xs ! i in
              if only_real \<and> d_is_reserve (ds ! di) then []
              else let overlap = min (map en xs ! i) (ws + (W - 1) + 1) - max (map st xs ! i) ws
                   in if overlap > 0 then [(overlap, X di si)] else []) [0..<?r])
      = concat (map (\<lambda>i. weigh only_real W ws ds si (xs ! i)) [0..<?r])"
  proof (intro arg_cong [of _ _ concat] map_cong refl)
    fix i assume "i \<in> set [0..<?r]"
    then have "i < length xs" using r by simp
    then show "(if map en xs ! i < ws then []
            else let di = xs ! i in
              if only_real \<and> d_is_reserve (ds ! di) then []
              else let overlap = min (map en xs ! i) (ws + (W - 1) + 1) - max (map st xs ! i) ws
                   in if overlap > 0 then [(overlap, X di si)] else [])
        = weigh only_real W ws ds si (xs ! i)"
      unfolding g [symmetric] by (simp only: Let_def nth_map)
  qed
  also have "\<dots> = concat (map (weigh only_real W ws ds si) (take ?r xs))"
    by (simp add: map_upt_nth [OF r])
  also have "\<dots> = concat (map (weigh only_real W ws ds si) (take ?r xs @ drop ?r xs))"
  proof -
    have "weigh only_real W ws ds si di = []" if late: "di \<in> set (drop ?r xs)" for di
    proof -
      obtain j where j: "j < length xs - ?r" "di = drop ?r xs ! j"
        using late unfolding in_set_conv_nth length_drop by blast
      define i where "i = ?r + j"
      have i: "i < length xs" "?r \<le> i" "di = xs ! i"
        using j r by (simp_all add: i_def)
      then have "st di > ws + (W - 1)"
        using nth_bisect_right [OF assms(3), of i "ws + (W - 1)"] by simp
      then show ?thesis by (simp add: weigh_def overlap_days_eq st_def)
    qed
    then have "concat (map (weigh only_real W ws ds si) (drop ?r xs)) = []" by simp
    then show ?thesis unfolding map_append concat_append by simp
  qed
  finally show ?thesis by simp
qed

lemma window_con_eq:
  assumes "sorted (map (\<lambda>di. d_start_date (ds ! di)) xs)" "sorted es" "distinct es" "0 < W"
  shows "window_con only_real cap W ds si xs es ws =
    (let weighted = concat (map (weigh only_real W ws ds si) xs);
         fixed = int (card (window ws W \<inter> set es))
     in if weighted \<noteq> [] \<or> fixed \<noteq> 0 then
          (if cap - fixed \<le> 0 then
            (if weighted \<noteq> [] then [Eq (lsum (map (\<lambda>(w, x). lvar x) weighted)) (lconst 0)] else [])
           else [Le (lsum (map (\<lambda>(w, x). lscale w (lvar x)) weighted)) (lconst (cap - fixed))])
        else [])"
proof -
  have "int (bisect_right es (ws + (W - 1))) - int (bisect_left es ws)
      = int (length (filter (\<lambda>t. ws \<le> t \<and> t \<le> ws + (W - 1)) es))"
    using assms(2,4) by (intro bisect_count) auto
  also have "\<dots> = int (card (window ws W \<inter> set es))"
    unfolding card_filter_distinct [OF assms(3)]
    by (intro arg_cong [of _ _ "\<lambda>A. int (card A)"]) (auto simp: window_def)
  finally have f: "int (bisect_right es (ws + (W - 1))) - int (bisect_left es ws)
      = int (card (window ws W \<inter> set es))" .
  show ?thesis
    unfolding window_con_def
    by (simp only: Let_def f window_con_weighted [OF assms(1), unfolded Let_def])
qed

lemma weigh_mem:
  "(w, y) \<in> set (concat (map (weigh only_real W ws ds si) xs)) \<longleftrightarrow>
     (\<exists>di \<in> set xs. \<not> (only_real \<and> d_is_reserve (ds ! di)) \<and> overlap_days (ds ! di) ws W \<noteq> 0
        \<and> w = overlap_days (ds ! di) ws W \<and> y = X di si)"
  by (auto simp: weigh_def)

lemma weigh_sum:
  "(\<Sum>(w, y)\<leftarrow>concat (map (weigh only_real W ws ds si) xs). w * v y)
     = (\<Sum>di\<leftarrow>xs. (if only_real \<and> d_is_reserve (ds ! di) then 0
                   else overlap_days (ds ! di) ws W) * v (X di si))"
  by (induction xs) (auto simp: weigh_def)

lemma card_served:
  assumes "distinct xs" and xs: "\<And>di. di \<in> set xs \<longleftrightarrow> (di, si) \<in> set el" and "binary v el"
    and disj: "\<And>di dj. (di, si) \<in> A \<Longrightarrow> (dj, si) \<in> A \<Longrightarrow> di \<noteq> dj
                 \<Longrightarrow> duty_days (ds ! di) \<inter> duty_days (ds ! dj) = {}"
    and A: "A = set (chosen v el)"
  shows "int (card (window ws W \<inter> served ds A only_real si))
     = (\<Sum>di\<leftarrow>xs. (if only_real \<and> d_is_reserve (ds ! di) then 0
                   else overlap_days (ds ! di) ws W) * v (X di si))"
proof -
  let ?f = "\<lambda>di. (if only_real \<and> d_is_reserve (ds ! di) then 0
                   else overlap_days (ds ! di) ws W) * v (X di si)"
  let ?D = "{di \<in> set xs. v (X di si) \<noteq> 0 \<and> (only_real \<longrightarrow> \<not> d_is_reserve (ds ! di))}"
  have D: "?D = {di. (di, si) \<in> A \<and> (only_real \<longrightarrow> \<not> d_is_reserve (ds ! di))}"
    by (auto simp: A xs)
  have "window ws W \<inter> served ds A only_real si = (\<Union>di \<in> ?D. window ws W \<inter> duty_days (ds ! di))"
    unfolding D served_def by auto
  moreover have "card (\<Union>di \<in> ?D. window ws W \<inter> duty_days (ds ! di))
      = (\<Sum>di \<in> ?D. card (window ws W \<inter> duty_days (ds ! di)))"
  proof (intro card_UN_disjoint ballI impI)
    fix di dj assume "di \<in> ?D" "dj \<in> ?D" "di \<noteq> dj"
    then have "duty_days (ds ! di) \<inter> duty_days (ds ! dj) = {}" using disj D by blast
    then show "window ws W \<inter> duty_days (ds ! di) \<inter> (window ws W \<inter> duty_days (ds ! dj)) = {}"
      by blast
  qed auto
  moreover have "int (\<Sum>di \<in> ?D. card (window ws W \<inter> duty_days (ds ! di))) = (\<Sum>di \<in> ?D. ?f di)"
    unfolding of_nat_sum
    using assms(3) xs by (intro sum.cong) (auto simp: overlap_days_def dest: binaryD)
  moreover have "(\<Sum>di \<in> ?D. ?f di) = (\<Sum>di \<in> set xs. ?f di)"
    by (rule sum.mono_neutral_left) auto
  ultimately show ?thesis using sum_list_distinct_set [OF assms(1), of ?f] by simp
qed

lemma window_con_kept:
  assumes "list_all (holds v) (window_con only_real cap W ds si xs es ws)"
    and "sorted (map (\<lambda>di. d_start_date (ds ! di)) xs)" "sorted es" "distinct es" "0 < W"
    and "distinct xs" and xs: "\<And>di. di \<in> set xs \<longleftrightarrow> (di, si) \<in> set el" and bin: "binary v el"
    and disj: "\<And>di dj. (di, si) \<in> A \<Longrightarrow> (dj, si) \<in> A \<Longrightarrow> di \<noteq> dj
                 \<Longrightarrow> duty_days (ds ! di) \<inter> duty_days (ds ! dj) = {}"
    and A: "A = set (chosen v el)"
    and ne: "window ws W \<inter> served ds A only_real si \<noteq> {}"
  shows "int (card (window ws W \<inter> (served ds A only_real si \<union> set es))) \<le> cap"
proof -
  let ?wt = "concat (map (weigh only_real W ws ds si) xs)"
  let ?F = "int (card (window ws W \<inter> set es))"
  obtain di where di: "(di, si) \<in> A" "only_real \<longrightarrow> \<not> d_is_reserve (ds ! di)"
      "window ws W \<inter> duty_days (ds ! di) \<noteq> {}"
    using ne by (auto simp: served_def)
  then have "overlap_days (ds ! di) ws W \<noteq> 0" by (simp add: overlap_days_def)
  then have mem: "(overlap_days (ds ! di) ws W, X di si) \<in> set ?wt"
    using di xs unfolding weigh_mem A by auto
  then have wne: "?wt \<noteq> []" by (metis empty_iff list.set(1))
  have head: "\<not> cap - ?F \<le> 0"
  proof
    assume "cap - ?F \<le> 0"
    then have "(\<Sum>p\<leftarrow>?wt. v (snd p)) = 0"
      using assms(1) wne unfolding window_con_eq [OF assms(2-5)] Let_def
      by (simp add: comp_def case_prod_beta)
    moreover have "0 \<le> v (snd p)" if p: "p \<in> set ?wt" for p
    proof -
      obtain d where "d \<in> set xs" "snd p = X d si"
        using p weigh_mem [of "fst p" "snd p"] by (metis prod.collapse)
      then show ?thesis using binaryD [OF bin, of d si] xs by auto
    qed
    ultimately have all0: "\<forall>p \<in> set ?wt. v (snd p) = 0"
      using sum_list_01_eq_0_iff [of ?wt "\<lambda>p. v (snd p)"] by blast
    have "v (X di si) = 0" using bspec [OF all0 mem] by simp
    then show False using di(1) by (simp add: A)
  qed
  then have "(\<Sum>p\<leftarrow>?wt. fst p * v (snd p)) \<le> cap - ?F"
    using assms(1) wne unfolding window_con_eq [OF assms(2-5)] Let_def
    by (simp add: comp_def case_prod_beta)
  then have "(\<Sum>(w, y)\<leftarrow>?wt. w * v y) \<le> cap - ?F" by (simp only: case_prod_unfold)
  then have "int (card (window ws W \<inter> served ds A only_real si)) + ?F \<le> cap"
    unfolding weigh_sum
    by (subst card_served [where xs = xs and el = el and v = v])
      (use assms(6) xs bin disj A in auto)
  moreover have "card (window ws W \<inter> (served ds A only_real si \<union> set es))
      \<le> card (window ws W \<inter> served ds A only_real si) + card (window ws W \<inter> set es)"
    unfolding Int_Un_distrib by (rule card_Un_le)
  ultimately show ?thesis by linarith
qed

text \<open>Windows outside the range the code scans hold no more than one inside it.\<close>

lemma window_extend:
  assumes days: "S \<union> E \<subseteq> {lo..hi}" and "0 < W"
    and inside: "\<And>ws. lo \<le> ws \<Longrightarrow> ws \<le> hi \<Longrightarrow> window ws W \<inter> S \<noteq> {}
                  \<Longrightarrow> int (card (window ws W \<inter> (S \<union> E))) \<le> cap"
    and ne: "window ws W \<inter> S \<noteq> {}"
  shows "int (card (window ws W \<inter> (S \<union> E))) \<le> cap"
proof -
  obtain t where t: "t \<in> window ws W" "t \<in> S" using ne by blast
  then have ws: "ws \<le> hi" using days by (auto simp: window_def)
  show ?thesis
  proof (cases "lo \<le> ws")
    case True
    then show ?thesis using inside ws ne by blast
  next
    case False
    have lo: "lo \<le> t" "t \<le> hi" using t days by auto
    then have sub: "window ws W \<inter> (S \<union> E) \<subseteq> window lo W \<inter> (S \<union> E)"
      using days False by (auto simp: window_def)
    then have "window lo W \<inter> S \<noteq> {}" using t by blast
    then have "int (card (window lo W \<inter> (S \<union> E))) \<le> cap" using inside [of lo] lo by simp
    moreover have "card (window ws W \<inter> (S \<union> E)) \<le> card (window lo W \<inter> (S \<union> E))"
      by (rule card_mono [OF _ sub]) (simp add: window_def)
    ultimately show ?thesis by linarith
  qed
qed

lemma density_cap_kept:
  assumes cons: "list_all (holds v) (density_cons ss ds ex st el)" and bin: "binary v el"
    and "distinct el" and A: "A = set (chosen v el)" and nd: "no_double_booking ss ds ex A"
    and W: "0 < Wt st" "0 < Wr st"
  shows "cap_kept True (T_cap st) (Wt st) ss ds ex A \<and> cap_kept False (R_cap st) (Wr st) ss ds ex A"
proof -
  have "int (card (window ws (if rl then Wt st else Wr st) \<inter> (served ds A rl si
           \<union> booked (if rl then existing_real ex else ex) (s_id (ss ! si)))))
         \<le> (if rl then T_cap st else R_cap st)"
    if si: "si < length ss" and ne: "window ws (if rl then Wt st else Wr st) \<inter> served ds A rl si \<noteq> {}"
    for rl si ws
  proof -
    let ?W = "if rl then Wt st else Wr st" and ?cap = "if rl then T_cap st else R_cap st"
    let ?sid = "s_id (ss ! si)"
    let ?ex = "if rl then existing_real ex else ex"
    let ?xs = "sort_key (\<lambda>di. d_start_date (ds ! di)) (soldier_duties el si)"
    let ?es = "sort (existing_dates_by_soldier ?ex ?sid)"
    let ?rel = "relevant_dates ds ex (ss ! si) (soldier_duties el si)"
    obtain di where di: "(di, si) \<in> A" using ne by (auto simp: served_def)
    then have di_el: "di \<in> set (soldier_duties el si)" by (simp add: A)
    then have rel: "?rel \<noteq> []" by (cases "soldier_duties el si") (auto simp: relevant_dates_def)
    have "list_all (holds v) (soldier_density_cons ds ex st el si (ss ! si))"
      using list_all_concat_mapD [OF cons [unfolded density_cons_def], of "(si, ss ! si)"] si by simp
    then have both: "list_all (holds v) (window_con True (T_cap st) (Wt st) ds si ?xs
            (sort (existing_dates_by_soldier (existing_real ex) ?sid)) ws)
        \<and> list_all (holds v) (window_con False (R_cap st) (Wr st) ds si ?xs
            (sort (existing_dates_by_soldier ex ?sid)) ws)"
      if "Min (set ?rel) \<le> ws" "ws \<le> Max (set ?rel)" for ws
      using that rel unfolding soldier_density_cons_def Let_def
      by (simp only: if_False list_all_append list_all_concat_map set_upto atLeastAtMost_iff Ball_def)
    have scan: "list_all (holds v) (window_con rl ?cap ?W ds si ?xs ?es ws)"
      if "Min (set ?rel) \<le> ws" "ws \<le> Max (set ?rel)" for ws
      using both [OF that] by (cases rl) simp_all
    have disj: "duty_days (ds ! i) \<inter> duty_days (ds ! j) = {}"
      if "(i, si) \<in> A" "(j, si) \<in> A" "i \<noteq> j" for i j
      using nd that unfolding no_double_booking_def by fast
    have days: "served ds A rl si \<union> booked ?ex ?sid \<subseteq> {Min (set ?rel)..Max (set ?rel)}"
    proof
      fix t assume "t \<in> served ds A rl si \<union> booked ?ex ?sid"
      then consider i where "(i, si) \<in> set el" "d_start_date (ds ! i) \<le> t" "t < d_end_date (ds ! i)"
        | "t \<in> booked ex ?sid"
        using booked_subset [of "existing_real ex" ex ?sid]
        by (auto simp: served_def A mem_duty_days existing_real_def split: if_splits)
      then show "t \<in> {Min (set ?rel)..Max (set ?rel)}"
      proof cases
        case 1
        then have "d_start_date (ds ! i) \<in> set ?rel" "d_end_date (ds ! i) \<in> set ?rel"
          unfolding relevant_dates_def by force+
        then have "Min (set ?rel) \<le> d_start_date (ds ! i)" "d_end_date (ds ! i) \<le> Max (set ?rel)"
          by (simp_all only: Min_le Max_ge finite_set)
        with 1 show ?thesis by simp
      next
        case 2
        then have "t \<in> set ?rel" by (simp add: relevant_dates_def)
        then show ?thesis by (simp only: Min_le Max_ge finite_set atLeastAtMost_iff)
      qed
    qed
    have "booked ?ex ?sid = set ?es" by simp
    show ?thesis
      by (rule window_extend [OF days _ _ ne])
        (use W window_con_kept [OF scan, of _ el A] assms(3) bin disj A in \<open>auto simp: sorted_sort_key\<close>)
  qed
  from this [where rl = True] this [where rl = False] show ?thesis
    unfolding cap_kept_def by simp
qed

text \<open>
  The constraints and the domains of the decision variables imply the specification.
\<close>

lemma hard_cons_legal:
  assumes el: "el = eligible_pairs ss ds st" and bin: "list_all (in_domain v) (decision_vars el)"
    and cons: "list_all (holds v) (hard_cons cov ss ds ex st el)"
    and W: "0 < Wt st" "0 < Wr st" and "clocks_ok ds"
  shows "legal st ss ds ex (set (chosen v el))"
proof -
  have b: "binary v el" using bin by (simp add: binary_decision_vars)
  have idx: "\<forall>(di, si) \<in> set el. di < length ds \<and> si < length ss"
    by (auto simp: el mem_eligible_pairs)
  have parts: "list_all (holds v) (coverage_cons cov ds el)"
    "list_all (holds v) (overlap_cons ss ds ex el)" "list_all (holds v) (rest_cons ss ds ex el)"
    "list_all (holds v) (density_cons ss ds ex st el)"
    using cons by (simp_all add: hard_cons_def)
  have dist: "distinct el" by (simp add: el)
  have nd: "no_double_booking ss ds ex (set (chosen v el))"
    by (rule overlap_no_double_booking [OF parts(2) b dist idx])
  have "one_per_duty (set (chosen v el))"
    by (rule coverage_one_per_duty [OF parts(1) b dist]) (use idx in auto)
  moreover have "eligible_choice st ss ds (set (chosen v el))"
    by (auto simp: eligible_choice_def el mem_eligible_pairs)
  ultimately show ?thesis
    using nd rest_cons_rested [OF parts(3) b idx assms(6)]
      density_cap_kept [OF parts(4) b dist refl nd W]
    by (simp add: legal_def)
qed

section \<open>From the specification to the constraints\<close>

text \<open>What the quota constraints ask of a choice.\<close>

definition quota_matching :: "SoldierInput list \<Rightarrow> (nat \<times> nat) list \<Rightarrow> nat \<Rightarrow> uuid \<Rightarrow> nat list" where
  "quota_matching ss el di n = filter (\<lambda>si. n \<in> set (s_path_ids (ss ! si))) (duty_soldiers el di)"

definition quotas_met where
  "quotas_met cov ss ds el A \<longleftrightarrow> (\<forall>di < length ds. \<forall>(n, c) \<in> set (quotas_of (ds ! di)).
      quota_matching ss el di n \<noteq> [] \<longrightarrow> (cov = Soft \<longrightarrow> (\<exists>si. (di, si) \<in> A))
      \<longrightarrow> int (card {si. (di, si) \<in> A \<and> n \<in> set (s_path_ids (ss ! si))}) = c)"

definition all_covered :: "(nat \<times> nat) list \<Rightarrow> (nat \<times> nat) set \<Rightarrow> bool" where
  "all_covered el A \<longleftrightarrow> (\<forall>(di, si) \<in> set el. \<exists>s. (di, s) \<in> A)"

text \<open>
  The valuation of the decision variables, of \<open>covered\<close> and of the counts that a choice
  gives; \<open>oth\<close> values the variables of the objective.
\<close>

definition choice_val :: "(cp_var \<Rightarrow> int) \<Rightarrow> (nat \<times> nat) list \<Rightarrow> (nat \<times> nat) set \<Rightarrow> cp_var \<Rightarrow> int" where
  "choice_val oth el A y = (case y of
       X di si \<Rightarrow> (if (di, si) \<in> A then 1 else 0)
     | Covered di \<Rightarrow> (if \<exists>si. (di, si) \<in> A then 1 else 0)
     | Count si \<Rightarrow> (\<Sum>di\<leftarrow>soldier_duties el si. if (di, si) \<in> A then 1 else 0)
     | _ \<Rightarrow> oth y)"

lemma choice_val_X [simp]: "choice_val oth el A (X di si) = (if (di, si) \<in> A then 1 else 0)"
  by (simp add: choice_val_def)

lemma chosen_choice_val: "A \<subseteq> set el \<Longrightarrow> set (chosen (choice_val oth el A) el) = A"
  by (auto simp: chosen_def)

lemma binary_choice_val: "binary (choice_val oth el A) el"
  by (simp add: binary_def)

lemma sum_choice:
  assumes "distinct xs"
  shows "(\<Sum>x\<leftarrow>xs. if P x then 1 else (0::int)) = int (card {x \<in> set xs. P x})"
  using assms by (simp add: card_filter_distinct [symmetric] length_filter_sum)

lemma card_unique: "x \<in> S \<Longrightarrow> (\<And>y. y \<in> S \<Longrightarrow> y = x) \<Longrightarrow> card S = 1"
  by (metis card_1_singleton_iff is_singletonI' is_singleton_altdef One_nat_def equals0D)

lemma duty_sum:
  assumes "one_per_duty A" "A \<subseteq> set el" "distinct el"
  shows "(\<Sum>si\<leftarrow>duty_soldiers el di. choice_val oth el A (X di si)) = choice_val oth el A (Covered di)"
proof -
  have "(\<Sum>si\<leftarrow>duty_soldiers el di. choice_val oth el A (X di si))
      = int (card {si \<in> set (duty_soldiers el di). (di, si) \<in> A})"
    using assms(3) by (simp add: sum_choice)
  also have "{si \<in> set (duty_soldiers el di). (di, si) \<in> A} = {si. (di, si) \<in> A}"
    using assms(2) by auto
  also have "int (card {si. (di, si) \<in> A}) = choice_val oth el A (Covered di)"
  proof (cases "\<exists>si. (di, si) \<in> A")
    case True
    then obtain si where "(di, si) \<in> A" ..
    then have "card {si. (di, si) \<in> A} = 1"
      using assms(1) by (intro card_unique [of si]) (auto simp: one_per_duty_def)
    with True show ?thesis by (simp add: choice_val_def)
  qed (simp add: choice_val_def)
  finally show ?thesis .
qed

lemma choice_coverage_cons:
  assumes "one_per_duty A" "A \<subseteq> set el" "distinct el" "cov = Hard \<longrightarrow> all_covered el A"
  shows "list_all (holds (choice_val oth el A)) (coverage_cons cov ds el)"
proof -
  have "(\<Sum>si\<leftarrow>duty_soldiers el di. choice_val oth el A (X di si)) \<le> 1" for di
    by (subst duty_sum [OF assms(1-3)]) (simp add: choice_val_def)
  moreover have "(\<Sum>si\<leftarrow>duty_soldiers el di. choice_val oth el A (X di si)) = 1"
    if vs: "vars_for_duty el di \<noteq> []" and hard: "cov = Hard" for di
  proof -
    obtain si where "si \<in> set (duty_soldiers el di)"
      using vs by (cases "duty_soldiers el di") (auto simp: vars_for_duty_def)
    then have "\<exists>s. (di, s) \<in> A" using assms(4) hard by (auto simp: all_covered_def)
    then show ?thesis by (subst duty_sum [OF assms(1-3)]) (simp add: choice_val_def)
  qed
  moreover have "cov = Hard" if "cov \<noteq> Soft" using that by (cases cov) auto
  ultimately show ?thesis
    unfolding coverage_cons_def list_all_concat_map Let_def
    by (auto simp: vars_for_duty_def comp_def)
qed

lemma choice_quota_vars: "list_all (in_domain (choice_val oth el A)) (quota_vars cov ds el)"
  by (auto simp: quota_vars_def list_all_iff in_domain_def choice_val_def)

lemma choice_quota_cons:
  assumes A: "one_per_duty A" "A \<subseteq> set el" "distinct el" and met: "quotas_met cov ss ds el A"
  shows "list_all (holds (choice_val oth el A)) (quota_cons cov ss ds el)"
proof -
  let ?v = "choice_val oth el A"
  have sum: "(\<Sum>si\<leftarrow>quota_matching ss el di n. ?v (X di si))
      = int (card {si. (di, si) \<in> A \<and> n \<in> set (s_path_ids (ss ! si))})" for di n
  proof -
    have "(\<Sum>si\<leftarrow>quota_matching ss el di n. ?v (X di si))
        = int (card {si \<in> set (quota_matching ss el di n). (di, si) \<in> A})"
      using A(3) by (simp add: sum_choice quota_matching_def)
    also have "{si \<in> set (quota_matching ss el di n). (di, si) \<in> A}
        = {si. (di, si) \<in> A \<and> n \<in> set (s_path_ids (ss ! si))}"
      using A(2) by (auto simp: quota_matching_def)
    finally show ?thesis .
  qed
  have one: "holds ?v (if quota_reified cov el (di, ds ! di)
        then OnlyEnforceIf (Eq (lsum (map (\<lambda>si. lvar (X di si)) (quota_matching ss el di n))) (lconst c))
               (Covered di)
        else Eq (lsum (map (\<lambda>si. lvar (X di si)) (quota_matching ss el di n))) (lconst c))"
    if d: "di < length ds" and q: "(n, c) \<in> set (quotas_of (ds ! di))"
      and ne: "quota_matching ss el di n \<noteq> []" for di n c
  proof (cases "cov = Soft \<and> \<not> (\<exists>si. (di, si) \<in> A)")
    case True
    have "vars_for_duty el di \<noteq> []"
      using ne by (auto simp: vars_for_duty_def quota_matching_def filter_empty_conv)
    then have "quota_reified cov el (di, ds ! di)"
      using True q by (auto simp: quota_reified_def)
    then show ?thesis using True by (simp add: choice_val_def)
  next
    case False
    then have "int (card {si. (di, si) \<in> A \<and> n \<in> set (s_path_ids (ss ! si))}) = c"
      using met d q ne unfolding quotas_met_def by fastforce
    then show ?thesis using sum by (simp add: comp_def)
  qed
  have part: "list_all (holds ?v) (if quotas_of d = [] then [] else
        (if quota_reified cov el (di, d)
         then [Eq (lsum (vars_for_duty el di)) (lvar (Covered di))] else [])
      @ concat (map (\<lambda>(node_id, count).
           let matching = filter (\<lambda>si. node_id \<in> set (s_path_ids (ss ! si))) (duty_soldiers el di);
               constr = Eq (lsum (map (\<lambda>si. lvar (X di si)) matching)) (lconst count)
           in if matching = [] then []
              else if quota_reified cov el (di, d) then [OnlyEnforceIf constr (Covered di)]
              else [constr]) (quotas_of d)))"
    if e: "di < length ds" "d = ds ! di" for di d
  proof -
    have "holds ?v (Eq (lsum (vars_for_duty el di)) (lvar (Covered di)))"
      using duty_sum [OF A] by (simp add: vars_for_duty_def comp_def)
    moreover have "list_all (holds ?v) (case p of (n, c) \<Rightarrow>
           let matching = filter (\<lambda>si. n \<in> set (s_path_ids (ss ! si))) (duty_soldiers el di);
               constr = Eq (lsum (map (\<lambda>si. lvar (X di si)) matching)) (lconst c)
           in if matching = [] then []
              else if quota_reified cov el (di, d) then [OnlyEnforceIf constr (Covered di)]
              else [constr])" if "p \<in> set (quotas_of d)" for p
      using one [of di "fst p" "snd p"] e that
      unfolding quota_matching_def Let_def by (cases p) (auto split: if_splits)
    ultimately show ?thesis by (simp add: list_all_concat_map)
  qed
  show ?thesis
    unfolding quota_cons_def list_all_concat_map
    using part by (auto simp: set_indexed)
qed

lemma choice_overlap_cons:
  assumes nd: "no_double_booking ss ds ex A" and A: "A \<subseteq> set el" "distinct el"
  shows "list_all (holds (choice_val oth el A)) (overlap_cons ss ds ex el)"
proof -
  let ?v = "choice_val oth el A"
  let ?ds = "\<lambda>si t. filter (\<lambda>di. t \<in> duty_days (ds ! di)) (soldier_duties el si)"
  have bounds: "0 \<le> (\<Sum>di\<leftarrow>?ds si t. ?v (X di si))
      \<and> (\<Sum>di\<leftarrow>?ds si t. ?v (X di si)) \<le> (if t \<in> booked ex (s_id (ss ! si)) then 0 else 1)"
    for t si
  proof -
    let ?S = "{di. (di, si) \<in> A \<and> t \<in> duty_days (ds ! di)}"
    have "{di \<in> set (?ds si t). (di, si) \<in> A} = ?S" using A(1) by auto
    then have s: "(\<Sum>di\<leftarrow>?ds si t. ?v (X di si)) = int (card ?S)"
      using A(2) sum_choice [of "?ds si t" "\<lambda>di. (di, si) \<in> A"] by simp
    have "int (card ?S) \<le> (if t \<in> booked ex (s_id (ss ! si)) then 0 else 1)"
    proof (cases "?S = {}")
      case True
      then have "card ?S = 0" by (simp only: card.empty)
      then show ?thesis by simp
    next
      case False
      then obtain di where di: "(di, si) \<in> A" "t \<in> duty_days (ds ! di)" by auto
      have u: "dj = di" if "dj \<in> ?S" for dj
        using nd di that unfolding no_double_booking_def by fast
      have "di \<in> ?S" using di by simp
      then have "card ?S = 1" by (rule card_unique) (rule u)
      moreover have "t \<notin> booked ex (s_id (ss ! si))"
        using nd di unfolding no_double_booking_def by fast
      ultimately show ?thesis by simp
    qed
    then show ?thesis unfolding s by simp
  qed
  have "list_all (holds ?v) (let day_vars = map (\<lambda>di. lvar (X di si)) (?ds si t)
         in if day_vars = [] then []
            else if t \<in> booked ex (s_id (ss ! si)) then [Eq (lsum day_vars) (lconst 0)]
            else [Le (lsum day_vars) (lconst 1)])" for si t
    using bounds [of si t] by (auto simp: Let_def comp_def)
  then show ?thesis
    unfolding overlap_cons_def list_all_concat_map
    by (auto simp: set_indexed Let_def list_all_concat_map cong: if_cong)
qed

end
