(* ===== verification/Fairness.thy ===== *)
theory Fairness
  imports ModelSound
begin

text \<open>
  The fairness half of \<open>model.py\<close>: effort in count space, the L1 objective
  (\<open>build_fairness_objective\<close>), the second-stage tie-break
  (\<open>apply_tiebreak_objective\<close>) and \<open>build_model\<close> itself, assembled from the
  constraints of ModelBuild and the terms defined here.  The lemmas bound the terms and
  show that every solution is a legal choice; that the objective half never rejects a
  schedule is proved in ModelComplete.
\<close>

section \<open>Effort in count space\<close>

record EffortRange =
  range_size :: int
  range_min :: int

definition effort_range :: "SoldierInput list \<Rightarrow> DutyBlock list \<Rightarrow> SolverSettings \<Rightarrow> EffortRange" where
  "effort_range soldiers duties settings =
     (let size0 = effort_range_max settings - effort_range_min settings in
      if size0 \<le> 0 then
        (let active = filter (\<lambda>s. s_effort_per_milli s > 0) soldiers in
         if active \<noteq> [] then
           (let total_bs = (\<Sum>d\<leftarrow>duties. block_score d);
                rmin = Min (set (map s_effort_offset active));
                rmax = Max (set (map s_effort_offset active))
                       + Max (set (map s_effort_per_milli active)) * total_bs
            in \<lparr>range_size = max 1 (rmax - rmin), range_min = rmin\<rparr>)
         else \<lparr>range_size = size0, range_min = effort_range_min settings\<rparr>)
      else \<lparr>range_size = size0, range_min = effort_range_min settings\<rparr>)"

definition count_off :: "EffortRange \<Rightarrow> int \<Rightarrow> SoldierInput \<Rightarrow> int" where
  "count_off r resolution s =
     (if range_size r > 0
      then max 0 (min resolution ((s_effort_offset s - range_min r) * resolution div range_size r))
      else 0)"

definition weight :: "EffortRange \<Rightarrow> int \<Rightarrow> SoldierInput \<Rightarrow> int \<Rightarrow> int" where
  "weight r resolution s score_milli =
     (if range_size r > 0
      then max 1 (s_effort_per_milli s * score_milli * resolution div range_size r)
      else 1)"

definition total_ub_of :: "EffortRange \<Rightarrow> int \<Rightarrow> DutyBlock list \<Rightarrow> int" where
  "total_ub_of r resolution duties =
     (if range_size r > 0 then 2 * resolution + int (length duties) + 1
      else int (length duties) + 1)"

record FairnessTerms =
  eligible_total_exprs :: "lin list"
  eligible_offsets :: "int list"
  total_new_weight :: int
  prior_terms :: "lin list"
  count_vars :: "cp_var list"
  total_ub :: int
  dev_terms :: "cp_var list"

text \<open>The soldiers that can receive a duty, in order.\<close>

definition participants :: "SoldierInput list \<Rightarrow> (nat \<times> nat) list \<Rightarrow> nat list" where
  "participants soldiers eligible =
     filter (\<lambda>si. soldier_duties eligible si \<noteq> []) [0..<length soldiers]"

definition total_expr :: "EffortRange \<Rightarrow> int \<Rightarrow> SoldierInput list \<Rightarrow> DutyBlock list
    \<Rightarrow> (nat \<times> nat) list \<Rightarrow> nat \<Rightarrow> lin" where
  "total_expr r resolution soldiers duties eligible si =
     ladd (lconst (count_off r resolution (soldiers ! si)))
       (lsum (map (\<lambda>di. lscale (weight r resolution (soldiers ! si) (block_score (duties ! di)))
                         (lvar (X di si))) (soldier_duties eligible si)))"

definition duty_new_weight :: "EffortRange \<Rightarrow> int \<Rightarrow> SoldierInput list \<Rightarrow> DutyBlock list
    \<Rightarrow> (nat \<times> nat) list \<Rightarrow> nat \<Rightarrow> int" where
  "duty_new_weight r resolution soldiers duties eligible di =
     (let per_millis = map (\<lambda>si. s_effort_per_milli (soldiers ! si)) (duty_soldiers eligible di);
          pm = (if per_millis \<noteq> [] then sum_list per_millis div int (length per_millis) else 0);
          bs = block_score (duties ! di)
      in if range_size r > 0 then max 1 (pm * bs * resolution div range_size r) else 1)"

definition fairness_terms :: "SoldierInput list \<Rightarrow> DutyBlock list \<Rightarrow> SolverSettings
    \<Rightarrow> (nat \<times> nat) list \<Rightarrow> FairnessTerms" where
  "fairness_terms soldiers duties settings eligible =
     (let r = effort_range soldiers duties settings;
          resolution = effort_resolution settings;
          ps = participants soldiers eligible;
          offset = (\<lambda>si. count_off r resolution (soldiers ! si))
      in \<lparr>eligible_total_exprs = map (total_expr r resolution soldiers duties eligible) ps,
          eligible_offsets = map offset ps,
          total_new_weight = (\<Sum>di\<leftarrow>[0..<length duties].
              duty_new_weight r resolution soldiers duties eligible di),
          prior_terms = map (\<lambda>si. lscale (offset si) (lvar (Count si)))
              (filter (\<lambda>si. offset si \<noteq> 0) ps),
          count_vars = map Count ps,
          total_ub = total_ub_of r resolution duties,
          dev_terms = []\<rparr>)"

definition count_domains :: "SoldierInput list \<Rightarrow> (nat \<times> nat) list \<Rightarrow> (cp_var \<times> int \<times> int) list" where
  "count_domains soldiers eligible =
     map (\<lambda>si. (Count si, 0, int (length (soldier_duties eligible si)))) (participants soldiers eligible)"

definition count_cons :: "SoldierInput list \<Rightarrow> (nat \<times> nat) list \<Rightarrow> cp_con list" where
  "count_cons soldiers eligible =
     map (\<lambda>si. Eq (lvar (Count si))
                (lsum (map (\<lambda>di. lvar (X di si)) (soldier_duties eligible si))))
       (participants soldiers eligible)"

section \<open>The objectives\<close>

type_synonym reserve_dists = "(nat \<times> nat, int) dict"

text \<open>\<open>gamma_int * dist * var\<close> for every decision variable of a reserve block.\<close>

definition reserve_dist_terms :: "DutyBlock list \<Rightarrow> SolverSettings \<Rightarrow> reserve_dists option
    \<Rightarrow> (nat \<times> nat) list \<Rightarrow> lin list" where
  "reserve_dist_terms duties settings reserve_dist eligible =
     (case reserve_dist of None \<Rightarrow> []
      | Some rd \<Rightarrow>
          (let gamma_int = py_int (reserve_hierarchy_weight settings * 1000) in
           map (\<lambda>(di, si). lscale (gamma_int * dict_get_or rd (di, si) 10)
                             (lvar (X di si)))
             (filter (\<lambda>(di, si). d_is_reserve (duties ! di)) eligible)))"

definition l1_w :: int where "l1_w = 100000000000"
definition prior_w :: int where "prior_w = 1000000"
definition count_w :: int where "count_w = 100000"
definition spread_w :: int where "spread_w = 1000000000"

definition mu_const_of :: "FairnessTerms \<Rightarrow> int" where
  "mu_const_of terms = (sum_list (eligible_offsets terms) + total_new_weight terms)
                       div int (length (eligible_total_exprs terms))"

text \<open>
  \<open>g\<close> numbers the installation, so that a second one creates fresh variables as
  \<open>NewIntVar\<close> does.
\<close>

definition build_fairness_objective :: "nat \<Rightarrow> cp_model \<Rightarrow> (nat \<times> nat) list \<Rightarrow> DutyBlock list
    \<Rightarrow> SolverSettings \<Rightarrow> reserve_dists option \<Rightarrow> FairnessTerms \<Rightarrow> cp_model \<times> FairnessTerms" where
  "build_fairness_objective g model eligible duties settings reserve_dist terms =
     (let dist_terms = reserve_dist_terms duties settings reserve_dist eligible;
          alpha_int = py_int (alpha settings * 1000);
          dist_term = lsum dist_terms;
          totals = eligible_total_exprs terms
      in if totals \<noteq> [] \<and> alpha_int > 0 then
           (let mu = lconst (mu_const_of terms);
                devs = map (Dev g) [0..<length totals];
                dev_domains = map (\<lambda>dv. (dv, 0, total_ub terms)) devs;
                dev_cons = concat (map (\<lambda>(i, total).
                    [Le (ladd total (lscale (-1) mu)) (lvar (Dev g i)),
                     Le (ladd mu (lscale (-1) total)) (lvar (Dev g i))]) (indexed totals));
                l1_term = lsum (map lvar devs);
                prior_term = lsum (prior_terms terms);
                many = length (count_vars terms) > 1;
                spread_domains = (if many
                  then [(MaxCount g, 0, int (length duties)), (MinCount g, 0, int (length duties))]
                  else []);
                spread_cons = (if many
                  then [MaxEquality (MaxCount g) (map lvar (count_vars terms)),
                        MinEquality (MinCount g) (map lvar (count_vars terms))] else []);
                count_spread = (if many
                  then ladd (lvar (MaxCount g)) (lscale (-1) (lvar (MinCount g))) else lconst 0);
                objective = ladd (lscale (- l1_w) l1_term)
                              (ladd (lscale (- prior_w) prior_term)
                                (ladd (lscale (- count_w) count_spread) (lscale (-1) dist_term)))
            in ((add_cons (dev_cons @ spread_cons) (add_vars (dev_domains @ spread_domains) model))
                  \<lparr>cp_objective := Maximize objective\<rparr>,
                terms\<lparr>dev_terms := devs\<rparr>))
         else (model\<lparr>cp_objective := Minimize (if dist_terms \<noteq> [] then dist_term else lconst 0)\<rparr>,
               terms))"

definition apply_tiebreak_objective :: "cp_model \<Rightarrow> (nat \<times> nat) list \<Rightarrow> DutyBlock list
    \<Rightarrow> SolverSettings \<Rightarrow> reserve_dists option \<Rightarrow> FairnessTerms \<Rightarrow> int \<Rightarrow> cp_model" where
  "apply_tiebreak_objective model eligible duties settings reserve_dist terms achieved_l1 =
     (let pinned = (if dev_terms terms \<noteq> []
            then add_cons [Le (lsum (map lvar (dev_terms terms))) (lconst achieved_l1)] model
            else model);
          totals = eligible_total_exprs terms;
          dist_terms = reserve_dist_terms duties settings reserve_dist eligible;
          dist_term = lsum dist_terms
      in if length totals \<le> 1 then
           pinned\<lparr>cp_objective := Minimize (if dist_terms \<noteq> [] then dist_term else lconst 0)\<rparr>
         else
           (let ub = total_ub terms;
                spread = ladd (lvar TbMax) (lscale (-1) (lvar TbMin))
            in (add_cons [MaxEquality TbMax totals, MinEquality TbMin totals]
                  (add_vars [(TbMax, 0, ub), (TbMin, 0, ub)] pinned))
                 \<lparr>cp_objective := Maximize (ladd (lscale (- spread_w) spread) (lscale (-1) dist_term))\<rparr>))"

section \<open>The whole model\<close>

text \<open>
  The decision variables, \<open>hard_cons\<close>, the count variables, and the objective.  The
  code adds the counting constraints between rest and the caps; the order of the
  constraints of a model means nothing.
\<close>

definition base_model :: "coverage \<Rightarrow> SoldierInput list \<Rightarrow> DutyBlock list
    \<Rightarrow> ExistingAssignment list \<Rightarrow> SolverSettings \<Rightarrow> (nat \<times> nat) list \<Rightarrow> cp_model" where
  "base_model cov soldiers duties existing settings eligible =
     \<lparr>cp_vars = decision_vars eligible @ quota_vars cov duties eligible
                @ count_domains soldiers eligible,
      cp_cons = hard_cons cov soldiers duties existing settings eligible
                @ count_cons soldiers eligible,
      cp_objective = No_objective, cp_hints = []\<rparr>"

definition build_model :: "coverage \<Rightarrow> SoldierInput list \<Rightarrow> DutyBlock list
    \<Rightarrow> ExistingAssignment list \<Rightarrow> SolverSettings \<Rightarrow> reserve_dists option
    \<Rightarrow> cp_model \<times> (nat \<times> nat) list \<times> FairnessTerms" where
  "build_model cov soldiers duties existing settings reserve_dist =
     (let eligible = model_eligible soldiers duties settings;
          terms = fairness_terms soldiers duties settings eligible;
          (model, terms') = build_fairness_objective 0
             (base_model cov soldiers duties existing settings eligible)
             eligible duties settings reserve_dist terms
      in (model, eligible, terms'))"

lemma build_model_eligible:
  "fst (snd (build_model cov ss ds ex st rd)) = eligible_pairs ss ds st"
  by (simp add: build_model_def Let_def model_eligible_eq split: prod.split)

lemma feasible_objective_base:
  "feasible (fst (build_fairness_objective g m el ds st rd t)) v \<Longrightarrow> feasible m v"
  by (auto simp: build_fairness_objective_def Let_def split: if_splits)

lemma feasible_tiebreak_base:
  "feasible (apply_tiebreak_objective m el ds st rd t k) v \<Longrightarrow> feasible m v"
  by (auto simp: apply_tiebreak_objective_def Let_def split: if_splits)

lemma feasible_base_parts:
  "feasible (base_model cov ss ds ex st el) v \<longleftrightarrow>
     list_all (in_domain v) (decision_vars el) \<and> list_all (in_domain v) (quota_vars cov ds el)
   \<and> list_all (in_domain v) (count_domains ss el)
   \<and> list_all (holds v) (hard_cons cov ss ds ex st el) \<and> list_all (holds v) (count_cons ss el)"
  by (auto simp: feasible_def base_model_def)

lemma build_model_base:
  assumes "feasible (fst (build_model cov ss ds ex st rd)) v"
  shows "feasible (base_model cov ss ds ex st (eligible_pairs ss ds st)) v"
proof -
  let ?el = "eligible_pairs ss ds st"
  have "fst (build_model cov ss ds ex st rd) = fst (build_fairness_objective 0
      (base_model cov ss ds ex st ?el) ?el ds st rd (fairness_terms ss ds st ?el))"
    by (simp add: build_model_def Let_def model_eligible_eq split: prod.split)
  with assms show ?thesis using feasible_objective_base by metis
qed

end
