(* ===== verification/Samples.thy ===== *)
theory Samples
  imports Availability
begin

text \<open>
  One small concrete input the witnesses share: soldiers that may take any duty, and a duty
  of two days.
\<close>

definition sample_soldier :: "uuid \<Rightarrow> SoldierInput" where
  "sample_soldier i = \<lparr>s_id = i, s_enrolled_at = 0, s_cumulative_score = 0, s_active_days = 0,
     s_hierarchy_node_id = Some 1, s_unit_join_date = None, s_path_ids = [1],
     s_approved_constraint_dates = [], s_exempted_duty_type_ids = {},
     s_exempted_duty_location_ids = {}, s_weapon_ineligible_duty_block_ids = {},
     s_future_ineligible_duty_block_ids = {}, s_effort_offset = 0, s_effort_per_milli = 1\<rparr>"

definition sample_duty :: "uuid \<Rightarrow> date \<Rightarrow> date \<Rightarrow> DutyBlock" where
  "sample_duty i a b = \<lparr>d_id = i, d_duty_type_id = 7, d_duty_location_id = 3,
     d_start_date = a, d_end_date = b, d_score_per_day = 1, d_is_reserve = False,
     d_eligible_node_ids = None, d_start_time = (0, 0), d_end_time = (23, 59),
     d_node_quotas = None, d_rest_hours = 0, d_required_range_type = None, d_requirements = []\<rparr>"

lemma sample_days [simp]:
  "days_from_to 0 2 = [0, 1]" "days_from_to 2 4 = [2, 3]" "days_from_to 0 1 = [0]"
  by (simp_all add: days_from_to_def upto_rec1)

lemma sample_ids [simp]:
  "s_id (sample_soldier i) = i" "d_id (sample_duty j a b) = j"
  "duty_days (sample_duty j a b) = {a..<b}" "d_is_reserve (sample_duty j a b) = False"
  "d_start_date (sample_duty j a b) = a" "d_end_date (sample_duty j a b) = b"
  by (simp_all add: sample_soldier_def sample_duty_def duty_days_def)

lemma sample_may_serve [simp]: "may_serve w (sample_soldier i) (sample_duty j a b)"
  by (simp add: may_serve_def sample_soldier_def sample_duty_def on_leave_def node_in_scope_def)

lemma sample_clocks [simp]:
  "valid_clock (d_start_time (sample_duty j a b))" "valid_clock (d_end_time (sample_duty j a b))"
  by (simp_all add: sample_duty_def valid_clock_def)

end
