(* ===== verification/ModelComplete.thy ===== *)
theory ModelComplete
  imports Fairness Samples
begin

text \<open>
  The converse of \<open>hard_cons_legal\<close>: every legal choice that covers what the mode asks
  and meets the node quotas satisfies the constraints, so the model loses no schedule
  (\<open>build_model_exact\<close>), also not through the variables of the fairness objective.
\<close>

section \<open>Rest and caps hold of a legal choice\<close>

definition dates_ok :: "DutyBlock list \<Rightarrow> bool" where
  "dates_ok ds \<longleftrightarrow> list_all (\<lambda>d. d_start_date d < d_end_date d) ds"

lemma rest_pair_mem:
  assumes "c \<in> set (rest_pair_cons ds si xs)" and "sorted (map (\<lambda>di. d_start_date (ds ! di)) xs)"
    and "distinct xs"
  shows "\<exists>a b. a \<in> set xs \<and> b \<in> set xs \<and> a \<noteq> b \<and> d_start_date (ds ! a) \<le> d_start_date (ds ! b)
     \<and> rest_violated (rest_end (ds ! a)) (d_start_date (ds ! b)) (d_start_time (ds ! b))
         (d_rest_hours (ds ! a))
     \<and> c = Le (ladd (lvar (X a si)) (lvar (X b si))) (lconst 1)"
  using assms
proof (induction xs)
  case (Cons x xs)
  show ?case
  proof (cases "c \<in> set (rest_pair_cons ds si xs)")
    case True then show ?thesis using Cons by fastforce
  next
    case False
    then obtain b where "b \<in> set xs" "rest_violated (rest_end (ds ! x)) (d_start_date (ds ! b))
         (d_start_time (ds ! b)) (d_rest_hours (ds ! x))"
      "c = Le (ladd (lvar (X x si)) (lvar (X b si))) (lconst 1)"
      using Cons.prems(1) by (auto simp: Let_def rest_end_def split: if_splits dest!: set_takeWhileD)
    then show ?thesis using Cons.prems(2,3) by (intro exI [of _ x] exI [of _ b]) auto
  qed
qed simp

lemma choice_rest_cons:
  assumes r: "rested ss ds ex A" and nd: "no_double_booking ss ds ex A" and "dates_ok ds"
    and A: "A \<subseteq> set el" "distinct el" and idx: "\<forall>(di, si) \<in> set el. di < length ds \<and> si < length ss"
  shows "list_all (holds (choice_val oth el A)) (rest_cons ss ds ex el)"
proof -
  let ?v = "choice_val oth el A"
  have e: "list_all (holds ?v) (rest_existing_cons ds ex si (ss ! si) (soldier_duties el si))" for si
  proof -
    have "(di, si) \<notin> A" if "ea \<in> set ex" "Some t = e_rest_effective_end_date ea"
        "e_soldier_id ea = s_id (ss ! si)"
        "rest_violated (combine_date_time t (e_rest_effective_end_time ea)) (d_start_date (ds ! di))
           (d_start_time (ds ! di)) (e_rest_hours ea)" for ea t di
      using r that(1,3,4) that(2) [symmetric] unfolding rested_def by blast
    then show ?thesis
      unfolding rest_existing_cons_def list_all_concat_map
      by (auto simp: Let_def list_all_iff split: option.split)
  qed
  have p: "list_all (holds ?v) (rest_pair_cons ds si
      (sort_key (\<lambda>di. d_start_date (ds ! di)) (soldier_duties el si)))" for si
  proof -
    let ?xs = "sort_key (\<lambda>di. d_start_date (ds ! di)) (soldier_duties el si)"
    have "holds ?v c" if c: "c \<in> set (rest_pair_cons ds si ?xs)" for c
    proof -
      obtain a b where ab: "a \<in> set ?xs" "b \<in> set ?xs" "a \<noteq> b"
        "d_start_date (ds ! a) \<le> d_start_date (ds ! b)"
        "rest_violated (rest_end (ds ! a)) (d_start_date (ds ! b)) (d_start_time (ds ! b))
           (d_rest_hours (ds ! a))"
        "c = Le (ladd (lvar (X a si)) (lvar (X b si))) (lconst 1)"
        using rest_pair_mem [OF c] A(2) by auto
      have "\<not> ((a, si) \<in> A \<and> (b, si) \<in> A)"
      proof
        assume both: "(a, si) \<in> A \<and> (b, si) \<in> A"
        have "\<not> d_start_date (ds ! a) < d_start_date (ds ! b)"
          using r both ab(5) unfolding rested_def by blast
        then have "d_start_date (ds ! a) = d_start_date (ds ! b)" using ab(4) by simp
        moreover have "d_start_date (ds ! a) < d_end_date (ds ! a)" "d_start_date (ds ! b) < d_end_date (ds ! b)"
          using ab(1,2) idx \<open>dates_ok ds\<close> by (auto simp: dates_ok_def list_all_length)
        ultimately have "d_start_date (ds ! a) \<in> duty_days (ds ! a) \<inter> duty_days (ds ! b)"
          unfolding duty_days_def by (simp only: Int_iff atLeastLessThan_iff insert_iff) auto
        moreover have "duty_days (ds ! a) \<inter> duty_days (ds ! b) = {}"
          using nd both ab(3) unfolding no_double_booking_def by blast
        ultimately show False by blast
      qed
      then show ?thesis by (auto simp: ab(6))
    qed
    then show ?thesis by (simp add: list_all_iff)
  qed
  show ?thesis unfolding rest_cons_def list_all_concat_map using e p by (auto simp: set_indexed Let_def)
qed

lemma choice_window_con:
  assumes "sorted (map (\<lambda>di. d_start_date (ds ! di)) xs)" "sorted es" "distinct es" "0 < W" "distinct xs"
    and xs: "\<And>di. di \<in> set xs \<longleftrightarrow> (di, si) \<in> set el" and A: "A \<subseteq> set el"
    and disj: "\<And>di dj. (di, si) \<in> A \<Longrightarrow> (dj, si) \<in> A \<Longrightarrow> di \<noteq> dj
                 \<Longrightarrow> duty_days (ds ! di) \<inter> duty_days (ds ! dj) = {}"
    and free: "served ds A only_real si \<inter> set es = {}"
    and cap: "window ws W \<inter> served ds A only_real si \<noteq> {}
       \<Longrightarrow> int (card (window ws W \<inter> (served ds A only_real si \<union> set es))) \<le> cap"
  shows "list_all (holds (choice_val oth el A)) (window_con only_real cap W ds si xs es ws)"
proof -
  let ?v = "choice_val oth el A"
  let ?wt = "concat (map (weigh only_real W ws ds si) xs)"
  let ?F = "int (card (window ws W \<inter> set es))" and ?S = "window ws W \<inter> served ds A only_real si"
  have sum: "(\<Sum>(w, y)\<leftarrow>?wt. w * ?v y) = int (card ?S)"
    unfolding weigh_sum
    using card_served [OF assms(5) xs binary_choice_val disj chosen_choice_val [OF A, symmetric]] by simp
  have fin: "finite ?S" by (simp add: window_def)
  show ?thesis
  proof (cases "?S = {}")
    case True
    have z: "?v (snd p) = 0" if p: "p \<in> set ?wt" for p
    proof -
      obtain d where d: "\<not> (only_real \<and> d_is_reserve (ds ! d))" "overlap_days (ds ! d) ws W \<noteq> 0"
        "snd p = X d si"
        using p weigh_mem [of "fst p" "snd p"] by (metis prod.collapse)
      have "(d, si) \<notin> A"
      proof
        assume "(d, si) \<in> A"
        then have "duty_days (ds ! d) \<subseteq> served ds A only_real si" using d(1) by (auto simp: served_def)
        then have "window ws W \<inter> duty_days (ds ! d) = {}" using True by blast
        then show False using d(2) by (simp only: overlap_days_def card.empty of_nat_0)
      qed
      then show ?thesis by (simp add: d(3))
    qed
    then have "(\<Sum>p\<leftarrow>?wt. ?v (snd p)) = 0" by (subst sum_list_01_eq_0_iff) (auto simp only:)
    moreover have "(\<Sum>p\<leftarrow>?wt. fst p * ?v (snd p)) = 0"
      using sum True by (simp add: case_prod_unfold)
    ultimately show ?thesis
      unfolding window_con_eq [OF assms(1-4)] Let_def by (auto simp: comp_def case_prod_beta)
  next
    case False
    have "card (window ws W \<inter> (served ds A only_real si \<union> set es))
        = card ?S + card (window ws W \<inter> set es)"
      unfolding Int_Un_distrib by (rule card_Un_disjoint) (use free in \<open>auto simp: window_def\<close>)
    then have le: "int (card ?S) + ?F \<le> cap" using cap [OF False] by simp
    moreover have "0 < card ?S" using False fin by (simp only: card_gt_0_iff) simp
    ultimately have "\<not> cap - ?F \<le> 0" by linarith
    moreover have "(\<Sum>p\<leftarrow>?wt. fst p * ?v (snd p)) \<le> cap - ?F"
      using sum le by (simp add: case_prod_unfold)
    ultimately show ?thesis
      unfolding window_con_eq [OF assms(1-4)] Let_def by (simp add: comp_def case_prod_beta)
  qed
qed

lemma choice_density_cons:
  assumes nd: "no_double_booking ss ds ex A" and A: "A \<subseteq> set el" "distinct el"
    and W: "0 < Wt st" "0 < Wr st"
    and T: "cap_kept True (T_cap st) (Wt st) ss ds ex A" and R: "cap_kept False (R_cap st) (Wr st) ss ds ex A"
  shows "list_all (holds (choice_val oth el A)) (density_cons ss ds ex st el)"
proof -
  let ?v = "choice_val oth el A"
  have one: "list_all (holds ?v) (window_con rl cap W ds si
      (sort_key (\<lambda>di. d_start_date (ds ! di)) (soldier_duties el si))
      (sort (existing_dates_by_soldier (if rl then existing_real ex else ex) (s_id (ss ! si)))) ws)"
    if si: "si < length ss" and kept: "cap_kept rl cap W ss ds ex A" and "0 < W" for rl cap W si ws
  proof (rule choice_window_con)
    let ?E = "if rl then existing_real ex else ex"
    have E: "set (sort (existing_dates_by_soldier ?E (s_id (ss ! si)))) = booked ?E (s_id (ss ! si))" by simp
    show "served ds A rl si \<inter> set (sort (existing_dates_by_soldier ?E (s_id (ss ! si)))) = {}"
    proof -
      have "duty_days (ds ! di) \<inter> booked ex (s_id (ss ! si)) = {}" if "(di, si) \<in> A" for di
        using nd that unfolding no_double_booking_def by blast
      moreover have "booked ?E (s_id (ss ! si)) \<subseteq> booked ex (s_id (ss ! si))"
        by (rule booked_subset) (auto simp: existing_real_def)
      ultimately show ?thesis unfolding E served_def by blast
    qed
    show "int (card (window ws W \<inter> (served ds A rl si \<union>
        set (sort (existing_dates_by_soldier ?E (s_id (ss ! si))))))) \<le> cap"
      if "window ws W \<inter> served ds A rl si \<noteq> {}"
      using kept si that unfolding E cap_kept_def by blast
    show "duty_days (ds ! di) \<inter> duty_days (ds ! dj) = {}"
      if "(di, si) \<in> A" "(dj, si) \<in> A" "di \<noteq> dj" for di dj
      using nd that unfolding no_double_booking_def by blast
  qed (use A \<open>0 < W\<close> in \<open>auto simp: existing_dates_by_soldier_def\<close>)
  have "list_all (holds ?v) (soldier_density_cons ds ex st el si (ss ! si))" if "si < length ss" for si
    using one [OF that T W(1)] one [OF that R W(2)]
    unfolding soldier_density_cons_def Let_def by (simp add: list_all_concat_map)
  then show ?thesis unfolding density_cons_def list_all_concat_map by (auto simp: set_indexed)
qed

section \<open>The base model accepts exactly the legal choices\<close>

lemma quota_cons_met:
  assumes bin: "binary v el" and "distinct el" and idx: "\<forall>(di, si) \<in> set el. di < length ds \<and> si < length ss"
    and cons: "list_all (holds v) (quota_cons cov ss ds el)"
  shows "quotas_met cov ss ds el (set (chosen v el))"
  unfolding quotas_met_def
proof clarify
  fix di n c
  let ?A = "set (chosen v el)" and ?d = "ds ! di"
  assume di: "di < length ds" and q: "(n, c) \<in> set (quotas_of ?d)" and m: "quota_matching ss el di n \<noteq> []"
    and soft: "cov = Soft \<longrightarrow> (\<exists>si. (di, si) \<in> ?A)"
  have ne: "quotas_of ?d \<noteq> []" using q by auto
  let ?sum = "\<Sum>si\<leftarrow>quota_matching ss el di n. v (X di si)"
  let ?cons = "Eq (lsum (map (\<lambda>si. lvar (X di si)) (quota_matching ss el di n))) (lconst c)"
  have part: "list_all (holds v)
        ((if quota_reified cov el (di, ?d)
         then [Eq (lsum (vars_for_duty el di)) (lvar (Covered di))] else [])
      @ concat (map (\<lambda>(node_id, count).
           let matching = filter (\<lambda>si. node_id \<in> set (s_path_ids (ss ! si))) (duty_soldiers el di);
               constr = Eq (lsum (map (\<lambda>si. lvar (X di si)) matching)) (lconst count)
           in if matching = [] then []
              else if quota_reified cov el (di, ?d) then [OnlyEnforceIf constr (Covered di)]
              else [constr]) (quotas_of ?d)))"
    using list_all_concat_mapD [OF cons [unfolded quota_cons_def], of "(di, ?d)"] di ne by simp
  have c: "holds v (if quota_reified cov el (di, ?d) then OnlyEnforceIf ?cons (Covered di) else ?cons)"
    using list_all_concat_mapD [OF part [THEN list_all_append [THEN iffD1], THEN conjunct2] q] m
    unfolding quota_matching_def by (simp add: Let_def split: if_splits)
  have sum: "?sum = c"
  proof (cases "quota_reified cov el (di, ?d)")
    case True
    then have "cov = Soft" by (simp add: quota_reified_def)
    with soft obtain si where si: "(di, si) \<in> set el" "v (X di si) \<noteq> 0" by auto
    have "v (Covered di) = (\<Sum>s\<leftarrow>duty_soldiers el di. v (X di s))"
      using part True by (simp add: vars_for_duty_def comp_def)
    moreover have "(\<Sum>s\<leftarrow>duty_soldiers el di. v (X di s)) \<noteq> 0"
    proof
      assume "(\<Sum>s\<leftarrow>duty_soldiers el di. v (X di s)) = 0"
      moreover have "0 \<le> v (X di s)" if "s \<in> set (duty_soldiers el di)" for s
        using that binaryD [OF bin, of di s] by auto
      ultimately have "\<forall>s \<in> set (duty_soldiers el di). v (X di s) = 0"
        by (subst (asm) sum_list_01_eq_0_iff) auto
      with si show False by simp
    qed
    ultimately show ?thesis using c True by (simp add: comp_def)
  next
    case False then show ?thesis using c by (simp add: comp_def)
  qed
  have "?sum = (\<Sum>si\<leftarrow>quota_matching ss el di n. if (di, si) \<in> ?A then 1 else 0)"
    by (intro arg_cong [of _ _ sum_list] map_cong refl)
      (use binaryD [OF bin, of di] in \<open>auto simp: quota_matching_def\<close>)
  also have "\<dots> = int (card {si \<in> set (quota_matching ss el di n). (di, si) \<in> ?A})"
    using \<open>distinct el\<close> by (intro sum_choice) (simp add: quota_matching_def)
  also have "{si \<in> set (quota_matching ss el di n). (di, si) \<in> ?A}
      = {si. (di, si) \<in> ?A \<and> n \<in> set (s_path_ids (ss ! si))}"
    by (auto simp: quota_matching_def)
  finally show "int (card {si. (di, si) \<in> ?A \<and> n \<in> set (s_path_ids (ss ! si))}) = c" using sum by simp
qed

lemma coverage_cons_covered:
  assumes cons: "list_all (holds v) (coverage_cons Hard ds el)"
    and idx: "\<forall>(di, si) \<in> set el. di < length ds \<and> si < length ss"
  shows "all_covered el (set (chosen v el))"
  unfolding all_covered_def
proof clarify
  fix di si assume m: "(di, si) \<in> set el"
  have di: "di \<in> set [0..<length ds]" using idx m by auto
  have "(\<Sum>s\<leftarrow>duty_soldiers el di. v (X di s)) = 1"
    using list_all_concat_mapD [OF cons [unfolded coverage_cons_def] di] vars_for_duty_nonempty [OF m]
    by (simp add: Let_def vars_for_duty_def comp_def)
  then have "\<exists>s \<in> set (duty_soldiers el di). v (X di s) \<noteq> 0"
    by (metis (mono_tags, lifting) map_eq_conv sum_list_0 zero_neq_one)
  then show "\<exists>s. (di, s) \<in> set (chosen v el)" by auto
qed

lemma choice_counts:
  "list_all (in_domain (choice_val oth el A)) (count_domains ss el)"
  "list_all (holds (choice_val oth el A)) (count_cons ss el)"
proof -
  have "(\<Sum>di\<leftarrow>xs. if P di then 1 else 0) \<le> int (length xs)
      \<and> 0 \<le> (\<Sum>di\<leftarrow>xs. if P di then 1 else (0::int))" for P and xs :: "nat list"
    by (induction xs) auto
  then show "list_all (in_domain (choice_val oth el A)) (count_domains ss el)"
    by (auto simp: count_domains_def list_all_iff in_domain_def choice_val_def)
  show "list_all (holds (choice_val oth el A)) (count_cons ss el)"
    by (auto simp: count_cons_def list_all_iff choice_val_def comp_def)
qed

definition acceptable :: "coverage \<Rightarrow> SolverSettings \<Rightarrow> SoldierInput list \<Rightarrow> DutyBlock list
    \<Rightarrow> ExistingAssignment list \<Rightarrow> (nat \<times> nat) set \<Rightarrow> bool" where
  "acceptable cov st ss ds ex A \<longleftrightarrow> legal st ss ds ex A
     \<and> (cov = Hard \<longrightarrow> all_covered (eligible_pairs ss ds st) A)
     \<and> quotas_met cov ss ds (eligible_pairs ss ds st) A"

lemma acceptable_base:
  assumes ok: "acceptable cov st ss ds ex A" and "dates_ok ds" and W: "0 < Wt st" "0 < Wr st"
  shows "feasible (base_model cov ss ds ex st (eligible_pairs ss ds st))
           (choice_val oth (eligible_pairs ss ds st) A)"
proof -
  let ?el = "eligible_pairs ss ds st"
  have idx: "\<forall>(di, si) \<in> set ?el. di < length ds \<and> si < length ss" by (auto simp: mem_eligible_pairs)
  have l: "legal st ss ds ex A" using ok by (simp add: acceptable_def)
  have A: "A \<subseteq> set ?el" using l by (auto simp: legal_def eligible_choice_def mem_eligible_pairs)
  have parts: "one_per_duty A" "no_double_booking ss ds ex A" "rested ss ds ex A"
    "cap_kept True (T_cap st) (Wt st) ss ds ex A" "cap_kept False (R_cap st) (Wr st) ss ds ex A"
    using l by (simp_all add: legal_def)
  show ?thesis
    unfolding feasible_base_parts hard_cons_def
    using choice_coverage_cons [OF parts(1) A distinct_eligible_pairs, of cov]
      choice_quota_vars choice_counts
      choice_quota_cons [OF parts(1) A distinct_eligible_pairs, of cov]
      choice_overlap_cons [OF parts(2) A distinct_eligible_pairs]
      choice_rest_cons [OF parts(3,2) \<open>dates_ok ds\<close> A distinct_eligible_pairs idx]
      choice_density_cons [OF parts(2) A distinct_eligible_pairs W parts(4,5)] ok
    by (simp add: acceptable_def binary_decision_vars binary_choice_val)
qed

lemma base_acceptable:
  assumes f: "feasible (base_model cov ss ds ex st (eligible_pairs ss ds st)) v"
    and W: "0 < Wt st" "0 < Wr st" and "clocks_ok ds"
  shows "acceptable cov st ss ds ex (set (chosen v (eligible_pairs ss ds st)))"
proof -
  let ?el = "eligible_pairs ss ds st"
  have idx: "\<forall>(di, si) \<in> set ?el. di < length ds \<and> si < length ss" by (auto simp: mem_eligible_pairs)
  have p: "list_all (in_domain v) (decision_vars ?el)" "list_all (holds v) (hard_cons cov ss ds ex st ?el)"
    using f by (simp_all add: feasible_base_parts)
  then have q: "list_all (holds v) (quota_cons cov ss ds ?el)" "list_all (holds v) (coverage_cons cov ds ?el)"
    by (simp_all add: hard_cons_def)
  have "legal st ss ds ex (set (chosen v ?el))"
    by (rule hard_cons_legal [OF refl p W \<open>clocks_ok ds\<close>])
  moreover have "quotas_met cov ss ds ?el (set (chosen v ?el))"
    by (rule quota_cons_met [OF _ distinct_eligible_pairs idx q(1)])
      (use p(1) in \<open>simp add: binary_decision_vars\<close>)
  moreover have "cov = Hard \<longrightarrow> all_covered ?el (set (chosen v ?el))"
    using coverage_cons_covered [OF _ idx] q(2) by auto
  ultimately show ?thesis by (simp add: acceptable_def)
qed

section \<open>The objective half never rejects a choice\<close>

definition efforts_ok :: "SolverSettings \<Rightarrow> SoldierInput list \<Rightarrow> DutyBlock list \<Rightarrow> bool" where
  "efforts_ok st ss ds \<longleftrightarrow> 0 \<le> effort_resolution st
     \<and> list_all (\<lambda>d. 0 \<le> d_score_per_day d) ds \<and> list_all (\<lambda>s. 0 \<le> s_effort_per_milli s) ss
     \<and> list_all (\<lambda>s. effort_range_max st \<le> effort_range_min st
          \<or> s_effort_per_milli s * (\<Sum>d\<leftarrow>ds. block_score d) \<le> effort_range_max st - effort_range_min st) ss"

lemma range_covers:
  assumes ok: "efforts_ok st ss ds" and s: "s \<in> set ss" and pos: "0 < range_size (effort_range ss ds st)"
  shows "s_effort_per_milli s * (\<Sum>d\<leftarrow>ds. block_score d) \<le> range_size (effort_range ss ds st)"
proof (cases "effort_range_max st - effort_range_min st \<le> 0")
  case False
  then show ?thesis using ok s by (auto simp: efforts_ok_def list_all_iff effort_range_def Let_def)
next
  case True
  let ?act = "filter (\<lambda>s. s_effort_per_milli s > 0) ss" and ?T = "\<Sum>d\<leftarrow>ds. block_score d"
  have T: "0 \<le> ?T"
    using ok by (intro sum_list_nonneg) (auto simp: efforts_ok_def list_all_iff intro: block_score_nonneg)
  have act: "?act \<noteq> []" using True pos by (auto simp: effort_range_def Let_def split: if_splits)
  let ?rmax = "Max (set (map s_effort_offset ?act)) + Max (set (map s_effort_per_milli ?act)) * ?T"
  have size: "range_size (effort_range ss ds st) = max 1 (?rmax - Min (set (map s_effort_offset ?act)))"
    using True act by (simp add: effort_range_def Let_def)
  have "Min (set (map s_effort_offset ?act)) \<le> s_effort_offset (hd ?act)"
    by (rule Min_le) (use act in \<open>auto simp del: set_filter filter_set\<close>)
  also have "\<dots> \<le> Max (set (map s_effort_offset ?act))"
    by (rule Max_ge) (use act in \<open>auto simp del: set_filter filter_set\<close>)
  finally have "Max (set (map s_effort_per_milli ?act)) * ?T \<le> range_size (effort_range ss ds st)"
    unfolding size by simp
  moreover have "s_effort_per_milli s * ?T \<le> Max (set (map s_effort_per_milli ?act)) * ?T"
  proof (cases "0 < s_effort_per_milli s")
    case True
    then have "s_effort_per_milli s \<le> Max (set (map s_effort_per_milli ?act))"
      using s by (intro Max_ge) auto
    then show ?thesis using T by (rule mult_right_mono)
  next
    case False
    then have "s_effort_per_milli s = 0" using ok s by (fastforce simp: efforts_ok_def list_all_iff)
    moreover have "0 \<le> Max (set (map s_effort_per_milli ?act))"
    proof -
      have "hd ?act \<in> set ?act" using act by (rule hd_in_set)
      then have "0 < s_effort_per_milli (hd ?act)"
        "s_effort_per_milli (hd ?act) \<le> Max (set (map s_effort_per_milli ?act))" by auto
      then show ?thesis by linarith
    qed
    ultimately show ?thesis using T by simp
  qed
  ultimately show ?thesis by linarith
qed

lemma sum_scaled_le:
  fixes bs :: "nat \<Rightarrow> int"
  assumes "0 < R" "0 \<le> K" "0 \<le> p" "\<And>i. i \<in> set xs \<Longrightarrow> 0 \<le> bs i"
  shows "(\<Sum>i\<leftarrow>xs. max 1 (p * bs i * K div R)) \<le> int (length xs) + p * (\<Sum>i\<leftarrow>xs. bs i) * K div R"
  using assms(4)
proof (induction xs)
  case (Cons x xs)
  have nn: "0 \<le> p * bs x * K div R" using assms(1-3) Cons.prems by (simp add: pos_imp_zdiv_nonneg_iff)
  have "p * bs x * K div R + p * (\<Sum>i\<leftarrow>xs. bs i) * K div R \<le> (p * bs x * K + p * (\<Sum>i\<leftarrow>xs. bs i) * K) div R"
    using assms(1) by (simp add: div_add1_eq [of "p * bs x * K" "p * (\<Sum>i\<leftarrow>xs. bs i) * K"]
        pos_imp_zdiv_nonneg_iff)
  moreover have "max 1 (p * bs x * K div R) \<le> 1 + p * bs x * K div R" using nn by simp
  ultimately show ?case using Cons by (simp add: algebra_simps)
qed simp

lemma sum_list_mono_dup:
  fixes f :: "nat \<Rightarrow> int"
  assumes "distinct xs" "set xs \<subseteq> {..<n}" "\<And>i. i < n \<Longrightarrow> 0 \<le> f i"
  shows "(\<Sum>i\<leftarrow>xs. f i) \<le> (\<Sum>i\<leftarrow>[0..<n]. f i)"
proof -
  have "(\<Sum>i\<leftarrow>xs. f i) = sum f (set xs)" by (rule sum_list_distinct_set [OF assms(1)])
  also have "\<dots> \<le> sum f {..<n}" using assms(2,3) by (intro sum_mono2) auto
  also have "\<dots> = (\<Sum>i\<leftarrow>[0..<n]. f i)" by (simp add: sum_list_distinct_set lessThan_atLeast0)
  finally show ?thesis .
qed

lemma div_le_bound: "0 < R \<Longrightarrow> 0 \<le> K \<Longrightarrow> t \<le> R \<Longrightarrow> t * K div R \<le> (K::int)"
  by (metis mult.commute mult_right_mono nonzero_mult_div_cancel_left order_less_irrefl zdiv_mono1)

lemma sum_upt_nth: "(\<Sum>i\<leftarrow>[0..<length xs]. f (xs ! i)) = (\<Sum>x\<leftarrow>xs. (f x :: int))"
  by (metis map_nth map_map [unfolded comp_def])

text \<open>A weighted sum over some of the duties, each counted at most once.\<close>

lemma weights_bound:
  assumes R: "0 < R" and K: "0 \<le> K" and p: "0 \<le> p" "p * (\<Sum>d\<leftarrow>ds. block_score d) \<le> R"
    and sc: "list_all (\<lambda>d. 0 \<le> d_score_per_day d) ds"
    and xs: "distinct xs" "set xs \<subseteq> {..<length ds}"
  shows "(\<Sum>i\<leftarrow>xs. max 1 (p * block_score (ds ! i) * K div R)) \<le> int (length ds) + K"
proof -
  have bs: "0 \<le> block_score (ds ! i)" if "i < length ds" for i
    using sc that by (auto simp: list_all_length intro: block_score_nonneg)
  have "(\<Sum>i\<leftarrow>xs. max 1 (p * block_score (ds ! i) * K div R))
      \<le> (\<Sum>i\<leftarrow>[0..<length ds]. max 1 (p * block_score (ds ! i) * K div R))"
    by (rule sum_list_mono_dup [OF xs]) simp
  also have "\<dots> \<le> int (length [0..<length ds]) + p * (\<Sum>i\<leftarrow>[0..<length ds]. block_score (ds ! i)) * K div R"
    by (rule sum_scaled_le [OF R K p(1)]) (use bs in auto)
  also have "\<dots> \<le> int (length ds) + K"
    using div_le_bound [OF R K p(2)] by (simp add: sum_upt_nth)
  finally show ?thesis .
qed

lemma weight_le_new:
  assumes "efforts_ok st ss ds" "s \<in> set ss" and xs: "distinct xs" "set xs \<subseteq> {..<length ds}"
  defines "r \<equiv> effort_range ss ds st" and "K \<equiv> effort_resolution st"
  shows "count_off r K s + (\<Sum>di\<leftarrow>xs. weight r K s (block_score (ds ! di)) * (if P di then 1 else 0))
     \<le> total_ub_of r K ds - 1"
    and "0 \<le> count_off r K s" and "count_off r K s \<le> (if 0 < range_size r then K else 0)"
proof -
  have K: "0 \<le> K" using assms(1) by (simp add: efforts_ok_def K_def)
  show off: "0 \<le> count_off r K s" "count_off r K s \<le> (if 0 < range_size r then K else 0)"
    using K by (auto simp: count_off_def)
  have w: "0 \<le> weight r K s k" for k by (auto simp: weight_def intro: max.coboundedI1)
  have "(\<Sum>di\<leftarrow>xs. weight r K s (block_score (ds ! di)) * (if P di then 1 else 0))
      \<le> (\<Sum>di\<leftarrow>xs. weight r K s (block_score (ds ! di)))"
    using w by (intro sum_list_mono) simp
  also have "\<dots> \<le> int (length ds) + (if 0 < range_size r then K else 0)"
  proof (cases "0 < range_size r")
    case True
    have "(\<Sum>di\<leftarrow>xs. max 1 (s_effort_per_milli s * block_score (ds ! di) * K div range_size r))
        \<le> int (length ds) + K"
      using range_covers [OF assms(1,2)] True assms(1,2)
      by (intro weights_bound [OF True K _ _ _ xs]) (auto simp: efforts_ok_def list_all_iff r_def)
    with True show ?thesis by (simp add: weight_def)
  next
    case False
    have "length xs = card (set xs)" using xs(1) by (simp add: distinct_card)
    also have "\<dots> \<le> card {..<length ds}" by (rule card_mono) (use xs(2) in auto)
    finally show ?thesis using False by (simp add: weight_def sum_list_triv)
  qed
  finally show "count_off r K s + (\<Sum>di\<leftarrow>xs. weight r K s (block_score (ds ! di)) * (if P di then 1 else 0))
     \<le> total_ub_of r K ds - 1"
    using off(2) by (simp add: total_ub_of_def split: if_splits)
qed

lemma total_expr_val:
  "lin_val (choice_val oth el A) (total_expr r K ss ds el si) = count_off r K (ss ! si)
     + (\<Sum>di\<leftarrow>soldier_duties el si. weight r K (ss ! si) (block_score (ds ! di)) * (if (di, si) \<in> A then 1 else 0))"
  by (simp add: total_expr_def comp_def)

lemma soldier_duties_bound:
  assumes "el = eligible_pairs ss ds st"
  shows "distinct (soldier_duties el si) \<and> set (soldier_duties el si) \<subseteq> {..<length ds}"
  using assms by (auto simp: mem_eligible_pairs)

lemma total_bounds:
  assumes ok: "efforts_ok st ss ds" and si: "si < length ss" and el: "el = eligible_pairs ss ds st"
  defines "r \<equiv> effort_range ss ds st" and "K \<equiv> effort_resolution st"
  shows "0 \<le> lin_val (choice_val oth el A) (total_expr r K ss ds el si)
     \<and> lin_val (choice_val oth el A) (total_expr r K ss ds el si) \<le> total_ub_of r K ds - 1"
proof -
  have "0 \<le> (\<Sum>di\<leftarrow>soldier_duties el si. weight r K (ss ! si) (block_score (ds ! di)) * (if (di, si) \<in> A then 1 else 0))"
    by (intro sum_list_nonneg) (auto simp: weight_def)
  then show ?thesis
    using weight_le_new(1) [OF ok nth_mem [OF si], where xs = "soldier_duties el si"
          and P = "\<lambda>di. (di, si) \<in> A"]
      weight_le_new(2) [OF ok nth_mem [OF si], where xs = "soldier_duties el si"]
      soldier_duties_bound [OF el, of si]
    unfolding total_expr_val r_def K_def by auto
qed

lemma new_weight_bounds:
  assumes ok: "efforts_ok st ss ds" and el: "el = eligible_pairs ss ds st"
  defines "r \<equiv> effort_range ss ds st" and "K \<equiv> effort_resolution st"
  shows "0 \<le> (\<Sum>di\<leftarrow>[0..<length ds]. duty_new_weight r K ss ds el di)
     \<and> (\<Sum>di\<leftarrow>[0..<length ds]. duty_new_weight r K ss ds el di)
         \<le> int (length ds) + (if 0 < range_size r then K else 0)"
proof -
  have K: "0 \<le> K" using ok by (simp add: efforts_ok_def K_def)
  have lo: "0 \<le> (\<Sum>di\<leftarrow>[0..<length ds]. duty_new_weight r K ss ds el di)"
    by (intro sum_list_nonneg) (auto simp: duty_new_weight_def Let_def)
  show ?thesis
  proof (cases "0 < range_size r \<and> ss \<noteq> []")
    case True
    let ?P = "Max (set (map s_effort_per_milli ss))" and ?T = "\<Sum>d\<leftarrow>ds. block_score d"
    have R: "0 < range_size r" using True by simp
    have "?P \<in> set (map s_effort_per_milli ss)" by (rule Max_in) (use True in auto)
    then obtain s where s: "s \<in> set ss" "?P = s_effort_per_milli s" by auto
    have P: "0 \<le> ?P" "?P * ?T \<le> range_size r"
      using ok s range_covers [OF ok s(1)] R by (auto simp: efforts_ok_def list_all_iff r_def)
    have le: "duty_new_weight r K ss ds el di \<le> max 1 (?P * block_score (ds ! di) * K div range_size r)"
      if di: "di < length ds" for di
    proof -
      let ?pms = "map (\<lambda>si. s_effort_per_milli (ss ! si)) (duty_soldiers el di)"
      let ?pm = "if ?pms \<noteq> [] then sum_list ?pms div int (length ?pms) else 0"
      have each: "x \<le> ?P" if "x \<in> set ?pms" for x
        using that el by (auto simp: mem_eligible_pairs intro!: Max_ge)
      have "sum_list xs \<le> int (length xs) * ?P" if "\<And>x. x \<in> set xs \<Longrightarrow> x \<le> ?P" for xs
        using that
      proof (induction xs)
        case (Cons a xs)
        have "a \<le> ?P" by (rule Cons.prems) simp
        moreover have "sum_list xs \<le> int (length xs) * ?P" by (rule Cons.IH) (use Cons.prems in simp)
        ultimately show ?case by (simp add: algebra_simps)
      qed simp
      from this [of ?pms] have "sum_list ?pms \<le> int (length ?pms) * ?P" using each by blast
      then have "sum_list ?pms div int (length ?pms) \<le> ?P" if "?pms \<noteq> []"
        using that by (metis length_greater_0_conv nonzero_mult_div_cancel_left of_nat_0_less_iff
            order_less_irrefl zdiv_mono1)
      then have "?pm \<le> ?P" using P(1) by auto
      moreover have "0 \<le> block_score (ds ! di) * K"
        using ok di K by (intro mult_nonneg_nonneg block_score_nonneg) (auto simp: efforts_ok_def list_all_length)
      ultimately have "?pm * (block_score (ds ! di) * K) \<le> ?P * (block_score (ds ! di) * K)"
        by (rule mult_right_mono)
      then have "?pm * block_score (ds ! di) * K div range_size r
          \<le> ?P * block_score (ds ! di) * K div range_size r"
        using R by (intro zdiv_mono1) (auto simp: mult.assoc)
      then show ?thesis using R unfolding duty_new_weight_def Let_def by auto
    qed
    have "(\<Sum>di\<leftarrow>[0..<length ds]. duty_new_weight r K ss ds el di)
        \<le> (\<Sum>di\<leftarrow>[0..<length ds]. max 1 (?P * block_score (ds ! di) * K div range_size r))"
      by (intro sum_list_mono) (use le in auto)
    also have "\<dots> \<le> int (length ds) + K"
      by (intro weights_bound [OF R K P]) (use ok in \<open>auto simp: efforts_ok_def\<close>)
    finally show ?thesis using lo R by simp
  next
    case False
    have "duty_new_weight r K ss ds el di = 1" for di
    proof (cases "0 < range_size r")
      case True
      then have "duty_soldiers el di = []" using False el
        by (auto simp: duty_soldiers_def filter_empty_conv mem_eligible_pairs)
      then show ?thesis by (simp add: duty_new_weight_def Let_def)
    qed (simp add: duty_new_weight_def Let_def)
    then show ?thesis using lo K by (simp add: sum_list_triv)
  qed
qed

lemma mu_bounds:
  assumes ok: "efforts_ok st ss ds" and el: "el = eligible_pairs ss ds st"
    and ne: "eligible_total_exprs (fairness_terms ss ds st el) \<noteq> []"
  shows "0 \<le> mu_const_of (fairness_terms ss ds st el)
     \<and> mu_const_of (fairness_terms ss ds st el) \<le> total_ub (fairness_terms ss ds st el) - 1"
proof -
  let ?r = "effort_range ss ds st" and ?K = "effort_resolution st"
  let ?t = "fairness_terms ss ds st el" and ?L = "int (length (participants ss el))"
  let ?B = "if 0 < range_size ?r then ?K else 0"
  have L: "1 \<le> ?L" using ne by (simp add: fairness_terms_def Let_def flip: length_greater_0_conv)
  have K: "0 \<le> ?K" using ok by (simp add: efforts_ok_def)
  have off: "0 \<le> count_off ?r ?K s \<and> count_off ?r ?K s \<le> ?B" for s
    using K by (auto simp: count_off_def)
  have "0 \<le> sum_list (map (\<lambda>si. count_off ?r ?K (ss ! si)) xs)
      \<and> sum_list (map (\<lambda>si. count_off ?r ?K (ss ! si)) xs) \<le> int (length xs) * ?B" for xs
  proof (induction xs)
    case (Cons x xs)
    then show ?case using off [of "ss ! x"] by (simp add: algebra_simps)
  qed simp
  from this [of "participants ss el"]
  have o: "0 \<le> sum_list (eligible_offsets ?t)" "sum_list (eligible_offsets ?t) \<le> ?L * ?B"
    by (simp_all add: fairness_terms_def Let_def)
  have w: "0 \<le> total_new_weight ?t" "total_new_weight ?t \<le> int (length ds) + ?B"
    using new_weight_bounds [OF ok el] by (simp_all add: fairness_terms_def Let_def)
  have len: "int (length (eligible_total_exprs ?t)) = ?L" by (simp add: fairness_terms_def Let_def)
  have "mu_const_of ?t \<le> ?L * (?B + (int (length ds) + ?B)) div ?L"
  proof -
    have "int (length ds) + ?B \<le> ?L * (int (length ds) + ?B)"
      using L K by (auto simp: mult_le_cancel_right1)
    then have "sum_list (eligible_offsets ?t) + total_new_weight ?t \<le> ?L * (?B + (int (length ds) + ?B))"
      using o w unfolding distrib_left [of ?L ?B] by linarith
    then show ?thesis unfolding mu_const_of_def len using L by (intro zdiv_mono1) auto
  qed
  also have "\<dots> = ?B + (int (length ds) + ?B)"
    by (rule nonzero_mult_div_cancel_left) (use L in linarith)
  also have "\<dots> \<le> total_ub ?t - 1"
    by (simp add: fairness_terms_def Let_def total_ub_of_def)
  finally have "mu_const_of ?t \<le> total_ub ?t - 1" .
  moreover have "0 \<le> mu_const_of ?t"
    unfolding mu_const_of_def len using o w L by (subst pos_imp_zdiv_nonneg_iff) linarith+
  ultimately show ?thesis by simp
qed

text \<open>The variables of the objective take the values their defining constraints ask for.\<close>

definition objective_val :: "(cp_var \<Rightarrow> int) \<Rightarrow> int \<Rightarrow> lin list \<Rightarrow> cp_var list \<Rightarrow> cp_var \<Rightarrow> int" where
  "objective_val u mu totals counts y = (case y of
       Dev g i \<Rightarrow> \<bar>lin_val u (totals ! i) - mu\<bar>
     | MaxCount g \<Rightarrow> Max (u ` set counts)
     | MinCount g \<Rightarrow> Min (u ` set counts)
     | TbMax \<Rightarrow> Max (lin_val u ` set totals)
     | TbMin \<Rightarrow> Min (lin_val u ` set totals)
     | _ \<Rightarrow> 0)"

definition full_val :: "SolverSettings \<Rightarrow> SoldierInput list \<Rightarrow> DutyBlock list \<Rightarrow> (nat \<times> nat) set
    \<Rightarrow> cp_var \<Rightarrow> int" where
  "full_val st ss ds A =
     (let el = eligible_pairs ss ds st; t = fairness_terms ss ds st el
      in choice_val (objective_val (choice_val (\<lambda>_. 0) el A) (mu_const_of t)
           (eligible_total_exprs t) (count_vars t)) el A)"

lemma terms_of:
  assumes "el = eligible_pairs ss ds st"
  shows "eligible_total_exprs (fairness_terms ss ds st el)
      = map (total_expr (effort_range ss ds st) (effort_resolution st) ss ds el) (participants ss el)"
    and "count_vars (fairness_terms ss ds st el) = map Count (participants ss el)"
    and "total_ub (fairness_terms ss ds st el) = total_ub_of (effort_range ss ds st) (effort_resolution st) ds"
  by (simp_all add: fairness_terms_def Let_def)

lemma full_val_totals:
  assumes "el = eligible_pairs ss ds st" and "t \<in> set (eligible_total_exprs (fairness_terms ss ds st el))"
  shows "lin_val (full_val st ss ds A) t = lin_val (choice_val (\<lambda>_. 0) el A) t"
  using assms by (auto simp: terms_of full_val_def Let_def total_expr_val)

lemma full_val_totals_bounds:
  assumes "efforts_ok st ss ds" "el = eligible_pairs ss ds st"
    and "t \<in> set (eligible_total_exprs (fairness_terms ss ds st el))"
  shows "0 \<le> lin_val (full_val st ss ds A) t
     \<and> lin_val (full_val st ss ds A) t \<le> total_ub (fairness_terms ss ds st el) - 1"
proof -
  obtain si where "si < length ss" "t = total_expr (effort_range ss ds st) (effort_resolution st) ss ds el si"
    using assms(2,3) by (auto simp: terms_of participants_def)
  then show ?thesis
    unfolding full_val_totals [OF assms(2,3)] terms_of(3) [OF assms(2)]
    using total_bounds [OF assms(1) _ assms(2)] by simp
qed

lemma full_val_counts:
  assumes "el = eligible_pairs ss ds st" and "x \<in> set (count_vars (fairness_terms ss ds st el))"
  shows "full_val st ss ds A x = choice_val (\<lambda>_. 0) el A x
     \<and> 0 \<le> choice_val (\<lambda>_. 0) el A x \<and> choice_val (\<lambda>_. 0) el A x \<le> int (length ds)"
proof -
  obtain si where si: "x = Count si" using assms by (auto simp: terms_of)
  have "(\<Sum>di\<leftarrow>xs. if P di then 1 else 0) \<le> int (length xs)
      \<and> 0 \<le> (\<Sum>di\<leftarrow>xs. if P di then 1 else (0::int))" for P and xs :: "nat list"
    by (induction xs) auto
  moreover have "length (soldier_duties el si) \<le> length ds"
  proof -
    have "length (soldier_duties el si) = card (set (soldier_duties el si))"
      using soldier_duties_bound [OF assms(1), of si] by (simp add: distinct_card)
    also have "\<dots> \<le> card {..<length ds}"
      by (rule card_mono) (use soldier_duties_bound [OF assms(1), of si] in auto)
    finally show ?thesis by simp
  qed
  ultimately show ?thesis using assms(1) unfolding si full_val_def Let_def choice_val_def
    by (simp add: order_trans [of _ "int (length (soldier_duties el si))"])
qed

lemma full_val_objective:
  assumes ok: "efforts_ok st ss ds" and el: "el = eligible_pairs ss ds st"
    and base: "feasible m (full_val st ss ds A)"
  shows "feasible (fst (build_fairness_objective g m el ds st rd (fairness_terms ss ds st el)))
           (full_val st ss ds A)"
proof (cases "eligible_total_exprs (fairness_terms ss ds st el) \<noteq> [] \<and> py_int (alpha st * 1000) > 0")
  case False
  then show ?thesis using base by (auto simp: build_fairness_objective_def Let_def)
next
  case True
  let ?t = "fairness_terms ss ds st el" and ?v = "full_val st ss ds A"
  let ?ts = "eligible_total_exprs ?t" and ?mu = "mu_const_of ?t" and ?cs = "count_vars ?t"
  have dev: "?v (Dev g i) = \<bar>lin_val ?v (?ts ! i) - ?mu\<bar>" if "i < length ?ts" for i
    using full_val_totals [OF el nth_mem [OF that]] el
    by (simp add: full_val_def Let_def choice_val_def objective_val_def)
  have mu: "0 \<le> ?mu \<and> ?mu \<le> total_ub ?t - 1" by (rule mu_bounds [OF ok el]) (use True in simp)
  have dom: "list_all (in_domain ?v) (map (\<lambda>dv. (dv, 0, total_ub ?t)) (map (Dev g) [0..<length ?ts]))"
  proof -
    have "in_domain ?v (Dev g i, 0, total_ub ?t)" if "i < length ?ts" for i
      using full_val_totals_bounds [OF ok el nth_mem [OF that], of A] mu dev [OF that]
      by (auto simp: in_domain_def)
    then show ?thesis by (simp add: list_all_iff)
  qed
  have devc: "list_all (holds ?v) (concat (map (\<lambda>(i, total).
      [Le (ladd total (lscale (-1) (lconst ?mu))) (lvar (Dev g i)),
       Le (ladd (lconst ?mu) (lscale (-1) total)) (lvar (Dev g i))]) (indexed ?ts)))"
    unfolding list_all_concat_map by (auto simp: set_indexed dev)
  have cnt: "?v ` set ?cs = choice_val (\<lambda>_. 0) el A ` set ?cs"
    by (rule image_cong) (use full_val_counts [OF el] in auto)
  have mx: "?v (MaxCount g) = Max (?v ` set ?cs)" "?v (MinCount g) = Min (?v ` set ?cs)"
    unfolding cnt using el by (simp_all add: full_val_def Let_def choice_val_def [of _ _ _ "MaxCount g"]
        choice_val_def [of _ _ _ "MinCount g"] objective_val_def)
  have in_n: "0 \<le> ?v (MaxCount g) \<and> ?v (MaxCount g) \<le> int (length ds)
      \<and> 0 \<le> ?v (MinCount g) \<and> ?v (MinCount g) \<le> int (length ds)" if "?cs \<noteq> []"
  proof -
    have "Max (?v ` set ?cs) \<in> ?v ` set ?cs" "Min (?v ` set ?cs) \<in> ?v ` set ?cs"
      using that by (auto intro!: Max_in Min_in)
    then show ?thesis unfolding mx using full_val_counts [OF el] by auto
  qed
  show ?thesis
  proof (cases "length ?cs > 1")
    case len: True
    then have ne: "?cs \<noteq> []" by auto
    have spread: "holds ?v (MaxEquality (MaxCount g) (map lvar ?cs))"
      "holds ?v (MinEquality (MinCount g) (map lvar ?cs))"
      using ne mx by (simp_all add: image_image)
    show ?thesis using True len dom devc spread in_n [OF ne] base
      unfolding build_fairness_objective_def Let_def
      by (simp add: in_domain_def)
  next
    case len: False
    show ?thesis using True len dom devc base
      unfolding build_fairness_objective_def Let_def by simp
  qed
qed

lemma full_val_tiebreak:
  assumes ok: "efforts_ok st ss ds" and el: "el = eligible_pairs ss ds st"
    and base: "feasible m (full_val st ss ds A)"
    and dev: "dev_terms t \<noteq> [] \<Longrightarrow> (\<Sum>dv\<leftarrow>dev_terms t. full_val st ss ds A dv) \<le> achieved"
    and t: "eligible_total_exprs t = eligible_total_exprs (fairness_terms ss ds st el)"
      "total_ub t = total_ub (fairness_terms ss ds st el)"
  shows "feasible (apply_tiebreak_objective m el ds st rd t achieved) (full_val st ss ds A)"
proof -
  let ?v = "full_val st ss ds A" and ?ts = "eligible_total_exprs (fairness_terms ss ds st el)"
  have tot: "lin_val ?v ` set ?ts = lin_val (choice_val (\<lambda>_. 0) el A) ` set ?ts"
    by (rule image_cong) (use full_val_totals [OF el] in auto)
  have mx: "?v TbMax = Max (lin_val ?v ` set ?ts)" "?v TbMin = Min (lin_val ?v ` set ?ts)"
    unfolding tot using el by (simp_all add: full_val_def Let_def choice_val_def [of _ _ _ TbMax]
        choice_val_def [of _ _ _ TbMin] objective_val_def)
  have in_n: "0 \<le> ?v TbMax \<and> ?v TbMax \<le> total_ub t \<and> 0 \<le> ?v TbMin \<and> ?v TbMin \<le> total_ub t" if "?ts \<noteq> []"
  proof -
    have "Max (lin_val ?v ` set ?ts) \<in> lin_val ?v ` set ?ts" "Min (lin_val ?v ` set ?ts) \<in> lin_val ?v ` set ?ts"
      using that by (auto intro!: Max_in Min_in)
    moreover have "0 \<le> x \<and> x \<le> total_ub (fairness_terms ss ds st el)" if x: "x \<in> lin_val ?v ` set ?ts" for x
    proof -
      from x obtain e where "e \<in> set ?ts" "x = lin_val ?v e" by auto
      then show ?thesis using full_val_totals_bounds [OF ok el, of e A] by simp
    qed
    ultimately show ?thesis unfolding mx t by blast
  qed
  have pin: "holds ?v (Le (lsum (map lvar (dev_terms t))) (lconst achieved))" if "dev_terms t \<noteq> []"
    using dev [OF that] by (simp add: comp_def)
  show ?thesis
  proof (cases "length ?ts \<le> 1")
    case True
    then show ?thesis using base pin by (auto simp: apply_tiebreak_objective_def Let_def t)
  next
    case False
    then have ne: "?ts \<noteq> []" by auto
    then show ?thesis using False base pin in_n [OF ne] mx
      by (auto simp: apply_tiebreak_objective_def Let_def in_domain_def t)
  qed
qed

text \<open>
  C1. The constraint model is exact: the choices of (duty, soldier) pairs read off the
  solutions of the model \<open>build_model\<close> returns are exactly the acceptable ones, those
  that are legal (eligible soldiers, at most one per duty, no double booking with other
  duties or existing assignments, rest times kept, rolling-window caps kept in every
  window), cover every duty that has an eligible soldier when coverage is hard, and meet
  every node quota that some eligible soldier matches.  No constraint is too weak and none
  too strong, and the variables of the fairness objective never exclude a schedule.
\<close>

theorem build_model_exact:
  assumes "dates_ok ds" and "clocks_ok ds" and "efforts_ok st ss ds" and "0 < Wt st" "0 < Wr st"
  shows "(\<exists>v. feasible (fst (build_model cov ss ds ex st rd)) v
            \<and> set (chosen v (fst (snd (build_model cov ss ds ex st rd)))) = A)
     \<longleftrightarrow> acceptable cov st ss ds ex A"
proof
  assume "\<exists>v. feasible (fst (build_model cov ss ds ex st rd)) v
            \<and> set (chosen v (fst (snd (build_model cov ss ds ex st rd)))) = A"
  then show "acceptable cov st ss ds ex A"
    using base_acceptable [OF build_model_base assms(4,5,2)] by (auto simp: build_model_eligible)
next
  assume ok: "acceptable cov st ss ds ex A"
  let ?el = "eligible_pairs ss ds st"
  have A: "A \<subseteq> set ?el"
    using ok by (auto simp: acceptable_def legal_def eligible_choice_def mem_eligible_pairs)
  have "feasible (base_model cov ss ds ex st ?el) (full_val st ss ds A)"
    unfolding full_val_def Let_def by (rule acceptable_base [OF ok assms(1,4,5)])
  from full_val_objective [OF assms(3) refl this, of 0 rd]
  have "feasible (fst (build_model cov ss ds ex st rd)) (full_val st ss ds A)"
    by (simp add: build_model_def Let_def model_eligible_eq case_prod_unfold)
  moreover have "set (chosen (full_val st ss ds A) ?el) = A"
    unfolding full_val_def Let_def by (rule chosen_choice_val [OF A])
  ultimately show "\<exists>v. feasible (fst (build_model cov ss ds ex st rd)) v
            \<and> set (chosen v (fst (snd (build_model cov ss ds ex st rd)))) = A"
    by (auto simp: build_model_eligible)
qed

section \<open>A concrete input\<close>

abbreviation one_soldier_in :: "SoldierInput list" where "one_soldier_in \<equiv> [sample_soldier 4]"
abbreviation one_duty_in :: "DutyBlock list" where "one_duty_in \<equiv> [sample_duty 10 0 2]"

lemma sample_pairs: "(di, si) \<in> set (eligible_pairs one_soldier_in one_duty_in st) \<longleftrightarrow> di = 0 \<and> si = 0"
  by (auto simp: mem_eligible_pairs)

lemma sample_inputs: "dates_ok one_duty_in" "clocks_ok one_duty_in"
  "efforts_ok default_settings one_soldier_in one_duty_in"
  by (simp_all add: dates_ok_def clocks_ok_def efforts_ok_def default_settings_def)
    (simp_all add: sample_duty_def sample_soldier_def)

lemma sample_cap: "2 \<le> c \<Longrightarrow> cap_kept r c W one_soldier_in one_duty_in [] {(0, 0)}"
proof -
  assume c: "2 \<le> c"
  have "card (window ws W \<inter> {0..<2::int}) \<le> card {0..<2::int}" for ws by (rule card_mono) auto
  then have "int (card (window ws W \<inter> {0..<2})) \<le> c" for ws using c by (simp add: order_trans [of _ 2])
  moreover have "served one_duty_in {(0, 0)} r 0 = {0..<2}" by (auto simp: served_def)
  ultimately show ?thesis by (simp add: cap_kept_def existing_real_def)
qed

lemma sample_acceptable: "acceptable cov default_settings one_soldier_in one_duty_in [] {(0, 0)}"
proof -
  have "legal default_settings one_soldier_in one_duty_in [] {(0, 0)}"
    by (simp add: legal_def eligible_choice_def one_per_duty_def no_double_booking_def rested_def
        sample_cap default_settings_def)
  moreover have "all_covered (eligible_pairs one_soldier_in one_duty_in default_settings) {(0, 0)}"
    by (auto simp: all_covered_def sample_pairs)
  moreover have "quotas_met cov one_soldier_in one_duty_in
      (eligible_pairs one_soldier_in one_duty_in default_settings) {(0, 0)}"
    by (simp add: quotas_met_def quotas_of_def sample_duty_def)
  ultimately show ?thesis by (simp add: acceptable_def)
qed

lemma build_model_exact_witness:
  "\<exists>v. feasible (fst (build_model Hard one_soldier_in one_duty_in [] default_settings None)) v
     \<and> set (chosen v (fst (snd (build_model Hard one_soldier_in one_duty_in [] default_settings None))))
         = {(0, 0)}"
  by (rule build_model_exact [THEN iffD2])
    (use sample_inputs sample_acceptable in \<open>simp_all add: default_settings_def\<close>)

end
