(* ===== verification/UnionFind.thy ===== *)
theory UnionFind
  imports Availability
begin

text \<open>
  The union-find the code writes twice, in \<open>solver._connected_components\<close> and in
  \<open>saturation._cluster_by_date_overlap\<close>: a list of parents, \<open>find\<close> with path halving
  in a while loop, \<open>union\<close> without ranks.  \<open>uf_find\<close> is a loop that might not end, so
  it returns \<open>None\<close> then; \<open>uf_ok\<close> (some rank grows along every link) is what makes it
  end.  The locale \<open>disjoint_sets\<close> is the contract the two clients rely on and holds
  their shared argument: after the unions of a list of edges, grouping by the
  representative gives the classes of the equivalence the edges generate.
\<close>

section \<open>Equivalence closures\<close>

definition eqc :: "('a \<times> 'a) set \<Rightarrow> ('a \<times> 'a) set" where
  "eqc R = (R \<union> R\<inverse>)\<^sup>*"

lemma eqc_refl [simp, intro]: "(x, x) \<in> eqc R"
  by (simp add: eqc_def)

lemma eqc_sym: "(x, y) \<in> eqc R \<Longrightarrow> (y, x) \<in> eqc R"
  unfolding eqc_def by (metis converse_Un converse_converse rtrancl_converseI sup_commute)

lemma eqc_trans: "(x, y) \<in> eqc R \<Longrightarrow> (y, z) \<in> eqc R \<Longrightarrow> (x, z) \<in> eqc R"
  unfolding eqc_def by (rule rtrancl_trans)

lemma eqc_base: "e \<in> R \<Longrightarrow> e \<in> eqc R"
  unfolding eqc_def by (cases e) auto

lemma eqc_least:
  assumes "R \<subseteq> eqc S"
  shows "eqc R \<subseteq> eqc S"
proof
  fix p assume "p \<in> eqc R"
  then obtain x y where p: "p = (x, y)" and "(x, y) \<in> (R \<union> R\<inverse>)\<^sup>*"
    by (cases p) (auto simp: eqc_def)
  from this(2) have "(x, y) \<in> eqc S"
  proof induction
    case (step y z)
    then have "(y, z) \<in> eqc S" using assms eqc_sym [of z y S] by auto
    with step.IH show ?case by (rule eqc_trans)
  qed simp
  then show "p \<in> eqc S" by (simp add: p)
qed

lemma eqc_mono: "R \<subseteq> S \<Longrightarrow> eqc R \<subseteq> eqc S"
  by (rule eqc_least) (auto intro: eqc_base)

lemma eqc_insert_eqc: "eqc (insert e (eqc R)) = eqc (insert e R)"
proof
  have "eqc R \<subseteq> eqc (insert e R)" by (rule eqc_mono) auto
  then show "eqc (insert e (eqc R)) \<subseteq> eqc (insert e R)"
    by (intro eqc_least) (auto intro: eqc_base)
  show "eqc (insert e R) \<subseteq> eqc (insert e (eqc R))"
    by (rule eqc_mono) (auto intro: eqc_base)
qed

lemma eqc_empty [simp]: "eqc {} = Id"
  by (simp add: eqc_def)

section \<open>Loops that may fail\<close>

fun each :: "('s \<Rightarrow> 'e \<Rightarrow> 's option) \<Rightarrow> 's \<Rightarrow> 'e list \<Rightarrow> 's option" where
  "each f s [] = Some s"
| "each f s (e # es) = (case f s e of None \<Rightarrow> None | Some s' \<Rightarrow> each f s' es)"

section \<open>The contract\<close>

text \<open>\<open>groups.setdefault(find(i), []).append(x)\<close>, with the forest \<open>find\<close> updates.\<close>

definition group_step ::
  "('p \<Rightarrow> nat \<Rightarrow> (nat \<times> 'p) option) \<Rightarrow> ('p \<times> (nat, 'x list) dict) \<Rightarrow> (nat \<times> 'x)
   \<Rightarrow> ('p \<times> (nat, 'x list) dict) option" where
  "group_step find_op s e =
     (case find_op (fst s) (fst e) of None \<Rightarrow> None
      | Some (r, p) \<Rightarrow> Some (p, dict_append (snd s) r (snd e)))"

locale disjoint_sets =
  fixes find_op :: "'p \<Rightarrow> nat \<Rightarrow> (nat \<times> 'p) option"
    and union_op :: "'p \<Rightarrow> nat \<Rightarrow> nat \<Rightarrow> 'p option"
    and ok :: "'p \<Rightarrow> bool"
    and nodes :: "'p \<Rightarrow> nat"
    and rep :: "'p \<Rightarrow> nat \<Rightarrow> nat"
    and same :: "'p \<Rightarrow> (nat \<times> nat) set"
  assumes find_law: "ok p \<Longrightarrow> x < nodes p \<Longrightarrow>
      \<exists>p'. find_op p x = Some (rep p x, p') \<and> ok p' \<and> nodes p' = nodes p
         \<and> (\<forall>y < nodes p. rep p' y = rep p y)"
    and union_law: "ok p \<Longrightarrow> a < nodes p \<Longrightarrow> b < nodes p \<Longrightarrow>
      \<exists>p'. union_op p a b = Some p' \<and> ok p' \<and> nodes p' = nodes p
         \<and> same p' = eqc (insert (a, b) (same p))"
    and rep_law: "ok p \<Longrightarrow> x < nodes p \<Longrightarrow> y < nodes p \<Longrightarrow>
      rep p x = rep p y \<longleftrightarrow> (x, y) \<in> same p"
    and same_eqc: "eqc (same p) = same p"
begin

lemma union_all:
  assumes "ok p" and "set es \<subseteq> {..<nodes p} \<times> {..<nodes p}"
  shows "\<exists>p'. each (\<lambda>p e. union_op p (fst e) (snd e)) p es = Some p' \<and> ok p'
           \<and> nodes p' = nodes p \<and> same p' = eqc (set es \<union> same p)"
  using assms
proof (induction es arbitrary: p)
  case Nil
  then show ?case using same_eqc by simp
next
  case (Cons e es)
  then obtain a b where e: "e = (a, b)" and ab: "a < nodes p" "b < nodes p" by (cases e) auto
  obtain p1 where p1: "union_op p a b = Some p1" "ok p1" "nodes p1 = nodes p"
    "same p1 = eqc (insert e (same p))"
    using union_law [OF Cons.prems(1) ab] by (auto simp: e)
  then obtain p2 where p2: "each (\<lambda>p e. union_op p (fst e) (snd e)) p1 es = Some p2"
      "ok p2" "nodes p2 = nodes p" "same p2 = eqc (set es \<union> same p1)"
    using Cons.IH [of p1] Cons.prems(2) by auto
  have "eqc (set es \<union> eqc (insert e (same p))) = eqc (set (e # es) \<union> same p)"
  proof
    have "eqc (insert e (same p)) \<subseteq> eqc (set (e # es) \<union> same p)" by (rule eqc_mono) auto
    then show "eqc (set es \<union> eqc (insert e (same p))) \<subseteq> eqc (set (e # es) \<union> same p)"
      by (intro eqc_least) (auto intro: eqc_base)
    show "eqc (set (e # es) \<union> same p) \<subseteq> eqc (set es \<union> eqc (insert e (same p)))"
      by (rule eqc_mono) (auto intro: eqc_base)
  qed
  then show ?case using p1 p2 e by auto
qed

lemma group_all:
  assumes "ok p" and "fst ` set xs \<subseteq> {..<nodes p}"
  shows "\<exists>p'. each (group_step find_op) (p, d) xs
             = Some (p', fold (\<lambda>x d. dict_append d (rep p (fst x)) (snd x)) xs d)
           \<and> ok p' \<and> nodes p' = nodes p \<and> (\<forall>y < nodes p. rep p' y = rep p y)"
  using assms
proof (induction xs arbitrary: p d)
  case (Cons x xs)
  then obtain p1 where p1: "find_op p (fst x) = Some (rep p (fst x), p1)" "ok p1"
    "nodes p1 = nodes p" "\<forall>y < nodes p. rep p1 y = rep p y"
    using find_law [of p "fst x"] by auto
  then obtain p2 where p2: "each (group_step find_op) (p1, dict_append d (rep p (fst x)) (snd x)) xs
       = Some (p2, fold (\<lambda>x d. dict_append d (rep p1 (fst x)) (snd x)) xs
                     (dict_append d (rep p (fst x)) (snd x)))"
      "ok p2" "nodes p2 = nodes p1" "\<forall>y < nodes p1. rep p2 y = rep p1 y"
    using Cons.IH [of p1 "dict_append d (rep p (fst x)) (snd x)"] Cons.prems by auto
  have "fold (\<lambda>x d. dict_append d (rep p1 (fst x)) (snd x)) xs d'
      = fold (\<lambda>x d. dict_append d (rep p (fst x)) (snd x)) xs d'" for d'
    using Cons.prems p1 by (intro fold_cong) auto
  moreover have "each (group_step find_op) (p, d) (x # xs)
      = each (group_step find_op) (p1, dict_append d (rep p (fst x)) (snd x)) xs"
    using p1(1) by (simp add: group_step_def)
  ultimately show ?case using p1 p2 by simp
qed auto

end

section \<open>The implementation\<close>

partial_function (option) uf_find :: "nat list \<Rightarrow> nat \<Rightarrow> (nat \<times> nat list) option" where
  "uf_find parent x =
     (if parent ! x \<noteq> x
      then (let parent' = parent[x := parent ! (parent ! x)] in uf_find parent' (parent' ! x))
      else Some (x, parent))"

definition uf_union :: "nat list \<Rightarrow> nat \<Rightarrow> nat \<Rightarrow> nat list option" where
  "uf_union parent a b =
     (case uf_find parent a of None \<Rightarrow> None
      | Some (ra, p1) \<Rightarrow>
          (case uf_find p1 b of None \<Rightarrow> None
           | Some (rb, p2) \<Rightarrow> Some (if ra \<noteq> rb then p2[ra := rb] else p2)))"

definition ranked :: "(nat \<Rightarrow> nat) \<Rightarrow> nat list \<Rightarrow> bool" where
  "ranked rk p \<longleftrightarrow> (\<forall>i < length p. p ! i < length p \<and> (p ! i \<noteq> i \<longrightarrow> rk i < rk (p ! i)))"

definition uf_ok :: "nat list \<Rightarrow> bool" where
  "uf_ok p \<longleftrightarrow> (\<exists>rk. ranked rk p)"

definition links :: "nat list \<Rightarrow> (nat \<times> nat) set" where
  "links p = {(i, p ! i) | i. i < length p}"

definition uf_same :: "nat list \<Rightarrow> (nat \<times> nat) set" where
  "uf_same p = eqc (links p)"

definition uf_root :: "nat list \<Rightarrow> nat \<Rightarrow> nat" where
  "uf_root p x = (case uf_find p x of None \<Rightarrow> x | Some (r, _) \<Rightarrow> r)"

lemma uf_ok_init: "uf_ok [0..<n]"
  by (auto simp: uf_ok_def ranked_def)

lemma uf_same_init [simp]: "uf_same [0..<n] = Id"
proof -
  have "links [0..<n] \<subseteq> eqc {}" by (auto simp: links_def)
  then have "eqc (links [0..<n]) \<subseteq> Id" using eqc_least [of _ "{}"] by simp
  then show ?thesis unfolding uf_same_def by (auto intro: eqc_refl)
qed

lemma links_update:
  assumes "x < length p"
  shows "links (p[x := y]) = links p - {(x, p ! x)} \<union> {(x, y)}"
  using assms by (auto simp: links_def nth_list_update split: if_splits)

text \<open>Path halving replaces a link by the composition of two, so no class changes.\<close>

lemma halving_same:
  assumes "x < length p" "p ! x < length p"
  shows "uf_same (p[x := p ! (p ! x)]) = uf_same p"
proof (cases "p ! x = x")
  case True
  then have "p[x := p ! (p ! x)] = p[x := p ! x]" by simp
  then show ?thesis by (simp only: list_update_id)
next
  case False
  let ?y = "p ! x" and ?q = "p[x := p ! (p ! x)]"
  have xy: "(x, ?y) \<in> links p" and yz: "(?y, p ! ?y) \<in> links p"
    using assms unfolding links_def by blast+
  have q: "links ?q = links p - {(x, ?y)} \<union> {(x, p ! ?y)}"
    by (rule links_update) fact
  have "(x, p ! ?y) \<in> eqc (links p)"
    by (rule eqc_trans [OF eqc_base [OF xy] eqc_base [OF yz]])
  then have 1: "links ?q \<subseteq> eqc (links p)"
    unfolding q using eqc_base [of _ "links p"] by blast
  have yz': "(?y, p ! ?y) \<in> links ?q" and xz': "(x, p ! ?y) \<in> links ?q"
    unfolding q using yz False by blast+
  have "(x, ?y) \<in> eqc (links ?q)"
    by (rule eqc_trans [OF eqc_base [OF xz'] eqc_sym [OF eqc_base [OF yz']]])
  then have 2: "links p \<subseteq> eqc (links ?q)"
    using q eqc_base [of _ "links ?q"] by blast
  show ?thesis unfolding uf_same_def by (rule subset_antisym [OF eqc_least [OF 1] eqc_least [OF 2]])
qed

lemma halving_ranked:
  assumes "ranked rk p" "x < length p"
  shows "ranked rk (p[x := p ! (p ! x)])"
proof -
  have y: "p ! x < length p" using assms by (simp add: ranked_def)
  have "p ! (p ! x) \<noteq> x \<Longrightarrow> rk x < rk (p ! (p ! x))"
  proof (cases "p ! x = x")
    case False
    assume "p ! (p ! x) \<noteq> x"
    have "rk x < rk (p ! x)" using assms False by (simp add: ranked_def)
    moreover have "rk (p ! x) \<le> rk (p ! (p ! x))"
      using assms(1) y by (cases "p ! (p ! x) = p ! x") (auto simp: ranked_def intro: less_imp_le)
    ultimately show ?thesis by simp
  qed simp
  moreover have "p ! (p ! x) < length p" using assms y by (simp add: ranked_def)
  ultimately show ?thesis using assms by (auto simp: ranked_def nth_list_update)
qed

lemma halving_roots:
  assumes "ranked rk p" "x < length p" "p ! x \<noteq> x" "i < length p"
  shows "p[x := p ! (p ! x)] ! i = i \<longleftrightarrow> p ! i = i"
proof (cases "i = x")
  case True
  have y: "p ! x < length p" using assms by (simp add: ranked_def)
  have "rk x < rk (p ! x)" using assms by (simp add: ranked_def)
  moreover have "rk (p ! x) \<le> rk (p ! (p ! x))"
    using assms(1) y by (cases "p ! (p ! x) = p ! x") (auto simp: ranked_def intro: less_imp_le)
  ultimately have "p ! (p ! x) \<noteq> x" by auto
  then show ?thesis using assms True by simp
qed (use assms in simp)

lemma uf_find_correct:
  assumes "ranked rk p" "x < length p"
  shows "\<exists>r p'. uf_find p x = Some (r, p') \<and> ranked rk p' \<and> length p' = length p
           \<and> uf_same p' = uf_same p \<and> r < length p \<and> p' ! r = r \<and> (x, r) \<in> uf_same p
           \<and> (\<forall>i < length p. p' ! i = i \<longleftrightarrow> p ! i = i)"
  using assms
proof (induction "Max (rk ` {..<length p}) - rk x" arbitrary: p x rule: less_induct)
  case less
  show ?case
  proof (cases "p ! x = x")
    case True
    then show ?thesis using less.prems by (auto simp: uf_find.simps uf_same_def)
  next
    case False
    let ?p = "p[x := p ! (p ! x)]"
    let ?y = "p ! (p ! x)"
    have y: "p ! x < length p" using less.prems by (simp add: ranked_def)
    then have z: "?y < length p" using less.prems by (simp add: ranked_def)
    have rk: "rk x < rk ?y"
      using less.prems False y
      by (metis halving_ranked halving_roots length_list_update nth_list_update_eq ranked_def)
    have "rk ?y \<le> Max (rk ` {..<length p})" using z by (intro Max_ge) auto
    with rk have "Max (rk ` {..<length ?p}) - rk ?y < Max (rk ` {..<length p}) - rk x" by simp
    from less.hyps [OF this halving_ranked [OF less.prems]] z
    obtain r p' where IH: "uf_find ?p ?y = Some (r, p')" "ranked rk p'" "length p' = length p"
      "uf_same p' = uf_same ?p" "r < length p" "p' ! r = r" "(?y, r) \<in> uf_same ?p"
      "\<forall>i < length p. p' ! i = i \<longleftrightarrow> ?p ! i = i" by auto
    have same: "uf_same ?p = uf_same p" by (rule halving_same) (use less.prems y in auto)
    have "(x, ?y) \<in> uf_same p"
      using less.prems(2) y unfolding uf_same_def links_def
      by (blast intro: eqc_trans eqc_base)
    then have "(x, r) \<in> uf_same p"
      using IH(7) unfolding same unfolding uf_same_def by (rule eqc_trans)
    moreover have "uf_find p x = Some (r, p')"
      using False IH(1) less.prems(2) by (subst uf_find.simps) (simp add: Let_def)
    ultimately show ?thesis
      using IH same halving_roots [OF less.prems False] by auto
  qed
qed

text \<open>A class has one root: links are functional, so two members of a class meet above.\<close>

lemma class_meet:
  assumes "(x, y) \<in> uf_same p"
  shows "\<exists>z. (x, z) \<in> (links p)\<^sup>* \<and> (y, z) \<in> (links p)\<^sup>*"
  using assms unfolding uf_same_def eqc_def
proof induction
  case (step y y')
  then obtain z where z: "(x, z) \<in> (links p)\<^sup>*" "(y, z) \<in> (links p)\<^sup>*" by blast
  from step.hyps(2) show ?case
  proof
    assume l: "(y, y') \<in> links p"
    from z(2) show ?thesis
    proof (cases rule: converse_rtranclE)
      case base
      with z(1) l show ?thesis by (blast intro: rtrancl_into_rtrancl)
    next
      case (step w)
      with l have "w = y'" by (auto simp: links_def)
      with step z(1) show ?thesis by blast
    qed
  next
    assume "(y, y') \<in> (links p)\<inverse>"
    with z show ?thesis by (blast intro: converse_rtrancl_into_rtrancl)
  qed
qed blast

lemma root_stays: "(r, z) \<in> (links p)\<^sup>* \<Longrightarrow> p ! r = r \<Longrightarrow> z = r"
  by (induction rule: rtrancl_induct) (auto simp: links_def)

lemma root_unique: "(r, r') \<in> uf_same p \<Longrightarrow> p ! r = r \<Longrightarrow> p ! r' = r' \<Longrightarrow> r = r'"
  using class_meet root_stays by metis

lemma uf_root_props:
  assumes "ranked rk p" "x < length p"
  shows "uf_root p x < length p" "p ! uf_root p x = uf_root p x" "(x, uf_root p x) \<in> uf_same p"
  using uf_find_correct [OF assms] by (auto simp: uf_root_def)

lemma uf_root_eqI:
  assumes "ranked rk p" "x < length p" "(x, r) \<in> uf_same p" "p ! r = r"
  shows "uf_root p x = r"
proof (rule root_unique)
  show "(uf_root p x, r) \<in> uf_same p"
    using uf_root_props(3) [OF assms(1,2)] assms(3) unfolding uf_same_def
    by (meson eqc_sym eqc_trans)
qed (use uf_root_props [OF assms(1,2)] assms in auto)

lemma uf_find_law:
  assumes "uf_ok p" "x < length p"
  shows "\<exists>p'. uf_find p x = Some (uf_root p x, p') \<and> uf_ok p' \<and> length p' = length p
           \<and> uf_same p' = uf_same p \<and> (\<forall>y < length p. uf_root p' y = uf_root p y)"
proof -
  obtain rk where rk: "ranked rk p" using assms(1) by (auto simp: uf_ok_def)
  obtain r p' where f: "uf_find p x = Some (r, p')" "ranked rk p'" "length p' = length p"
      "uf_same p' = uf_same p" "\<forall>i < length p. p' ! i = i \<longleftrightarrow> p ! i = i"
    using uf_find_correct [OF rk assms(2)] by auto
  have "uf_root p' y = uf_root p y" if "y < length p" for y
    using uf_root_props [OF rk that] f that by (intro uf_root_eqI [OF f(2)]) auto
  then show ?thesis using f by (auto simp: uf_ok_def uf_root_def)
qed

lemma uf_rep_law:
  assumes "uf_ok p" "x < length p" "y < length p"
  shows "uf_root p x = uf_root p y \<longleftrightarrow> (x, y) \<in> uf_same p"
proof -
  obtain rk where rk: "ranked rk p" using assms(1) by (auto simp: uf_ok_def)
  note rx = uf_root_props [OF rk assms(2)] and ry = uf_root_props [OF rk assms(3)]
  show ?thesis
  proof
    assume "uf_root p x = uf_root p y"
    then show "(x, y) \<in> uf_same p"
      using rx(3) ry(3) unfolding uf_same_def by (metis eqc_sym eqc_trans)
  next
    assume "(x, y) \<in> uf_same p"
    then have "(x, uf_root p y) \<in> uf_same p"
      using ry(3) unfolding uf_same_def by (rule eqc_trans)
    then show "uf_root p x = uf_root p y" by (rule uf_root_eqI [OF rk assms(2) _ ry(2)])
  qed
qed

lemma link_roots:
  assumes "ranked rk p" "ra < length p" "rb < length p" "ra \<noteq> rb" "p ! ra = ra" "p ! rb = rb"
  shows "uf_ok (p[ra := rb])" and "uf_same (p[ra := rb]) = eqc (insert (ra, rb) (uf_same p))"
proof -
  let ?rk = "rk(rb := Suc (rk rb + rk ra))"
  have "ranked ?rk (p[ra := rb])"
    unfolding ranked_def
  proof (intro allI impI)
    fix i assume i: "i < length (p[ra := rb])"
    then have "p ! i < length p" "p ! i \<noteq> i \<Longrightarrow> rk i < rk (p ! i)"
      using assms(1) by (simp_all add: ranked_def)
    then show "p[ra := rb] ! i < length (p[ra := rb])
        \<and> (p[ra := rb] ! i \<noteq> i \<longrightarrow> ?rk i < ?rk (p[ra := rb] ! i))"
      using assms i by (cases "i = ra"; cases "i = rb"; cases "p ! i = rb")
        (auto simp: nth_list_update)
  qed
  then show "uf_ok (p[ra := rb])" by (auto simp: uf_ok_def)
  have l: "links (p[ra := rb]) = links p - {(ra, ra)} \<union> {(ra, rb)}"
    using links_update [of ra p rb] assms by simp
  have 1: "links (p[ra := rb]) \<subseteq> eqc (insert (ra, rb) (links p))"
    unfolding l using eqc_base [of _ "insert (ra, rb) (links p)"] by blast
  have 2: "insert (ra, rb) (links p) \<subseteq> eqc (links (p[ra := rb]))"
    unfolding l using eqc_base [of _ "links p - {(ra, ra)} \<union> {(ra, rb)}"] eqc_refl by blast
  have "eqc (links (p[ra := rb])) = eqc (insert (ra, rb) (links p))"
    by (rule subset_antisym [OF eqc_least [OF 1] eqc_least [OF 2]])
  then show "uf_same (p[ra := rb]) = eqc (insert (ra, rb) (uf_same p))"
    unfolding uf_same_def eqc_insert_eqc .
qed

lemma eqc_insert_cong:
  assumes "(a, a') \<in> eqc R" "(b, b') \<in> eqc R"
  shows "eqc (insert (a', b') R) = eqc (insert (a, b) R)"
proof -
  have *: "eqc (insert (c', d') R) \<subseteq> eqc (insert (c, d) R)"
    if "(c, c') \<in> eqc R" "(d, d') \<in> eqc R" for c c' d d'
  proof (rule eqc_least)
    have "eqc R \<subseteq> eqc (insert (c, d) R)" by (rule eqc_mono) auto
    moreover have "(c, d) \<in> eqc (insert (c, d) R)" by (rule eqc_base) simp
    ultimately have "(c', d') \<in> eqc (insert (c, d) R)"
      using that by (meson eqc_sym eqc_trans subsetD)
    then show "insert (c', d') R \<subseteq> eqc (insert (c, d) R)" by (auto intro: eqc_base)
  qed
  show ?thesis using * [OF assms] * [OF eqc_sym eqc_sym, OF assms] by blast
qed

lemma eqc_insert_absorb:
  assumes "(a, b) \<in> eqc R"
  shows "eqc (insert (a, b) R) = eqc R"
proof
  show "eqc (insert (a, b) R) \<subseteq> eqc R"
    by (rule eqc_least) (use assms in \<open>auto intro: eqc_base\<close>)
qed (rule eqc_mono, auto)

lemma eqc_uf_same: "eqc (uf_same p) = uf_same p"
  unfolding uf_same_def using eqc_least [of "eqc (links p)" "links p"]
  by (auto intro: eqc_base)

lemma uf_union_law:
  assumes "uf_ok p" "a < length p" "b < length p"
  shows "\<exists>p'. uf_union p a b = Some p' \<and> uf_ok p' \<and> length p' = length p
           \<and> uf_same p' = eqc (insert (a, b) (uf_same p))"
proof -
  obtain rk where rk: "ranked rk p" using assms(1) by (auto simp: uf_ok_def)
  obtain ra p1 where p1: "uf_find p a = Some (ra, p1)" "ranked rk p1" "length p1 = length p"
      "uf_same p1 = uf_same p" "ra < length p" "p1 ! ra = ra" "(a, ra) \<in> uf_same p"
    using uf_find_correct [OF rk assms(2)] by auto
  obtain rb p2 where p2: "uf_find p1 b = Some (rb, p2)" "ranked rk p2" "length p2 = length p"
      "uf_same p2 = uf_same p" "rb < length p" "p2 ! rb = rb" "(b, rb) \<in> uf_same p"
      "\<forall>i < length p. p2 ! i = i \<longleftrightarrow> p1 ! i = i"
    using uf_find_correct [OF p1(2), of b] assms(3) p1 by auto
  have in_eqc: "(a, ra) \<in> eqc (uf_same p)" "(b, rb) \<in> eqc (uf_same p)"
    using p1(7) p2(7) by (simp_all add: eqc_uf_same)
  note cong = eqc_insert_cong [OF in_eqc]
  show ?thesis
  proof (cases "ra = rb")
    case True
    then have "(ra, rb) \<in> eqc (uf_same p)" by simp
    then have "eqc (insert (a, b) (uf_same p)) = uf_same p"
      using cong eqc_insert_absorb eqc_uf_same by metis
    then show ?thesis using True p1 p2 by (auto simp: uf_union_def uf_ok_def)
  next
    case False
    have "p2 ! ra = ra" using p1 p2 by simp
    with False show ?thesis
      using link_roots [OF p2(2), of ra rb] p1 p2 cong by (auto simp: uf_union_def)
  qed
qed

interpretation uf: disjoint_sets uf_find uf_union uf_ok length uf_root uf_same
proof unfold_locales
  fix p x assume "uf_ok p" "x < length p"
  then show "\<exists>p'. uf_find p x = Some (uf_root p x, p') \<and> uf_ok p' \<and> length p' = length p
      \<and> (\<forall>y < length p. uf_root p' y = uf_root p y)"
    using uf_find_law by metis
qed (use uf_union_law uf_rep_law eqc_uf_same in auto)

section \<open>Clusters of overlapping duties\<close>

definition date_ranges_overlap :: "date \<Rightarrow> date \<Rightarrow> date \<Rightarrow> date \<Rightarrow> bool" where
  "date_ranges_overlap a_start a_end b_start b_end = (a_start < b_end \<and> b_start < a_end)"

definition overlap_edges :: "DutyBlock list \<Rightarrow> (nat \<times> nat) list" where
  "overlap_edges duties = filter (\<lambda>(i, j).
      date_ranges_overlap (d_start_date (duties ! i)) (d_end_date (duties ! i))
        (d_start_date (duties ! j)) (d_end_date (duties ! j))) (all_pairs (length duties))"

definition cluster_by_date_overlap :: "DutyBlock list \<Rightarrow> DutyBlock list list option" where
  "cluster_by_date_overlap duties =
     (case each (\<lambda>p e. uf_union p (fst e) (snd e)) [0..<length duties] (overlap_edges duties) of
        None \<Rightarrow> None
      | Some parent \<Rightarrow>
          (case each (group_step uf_find) (parent, []) (indexed duties) of
             None \<Rightarrow> None
           | Some (_, groups) \<Rightarrow> Some (map snd groups)))"

section \<open>Connected components of the eligibility graph\<close>

text \<open>Duty \<open>i\<close> is node \<open>i\<close>, soldier \<open>j\<close> is node \<open>n_duties + j\<close>.\<close>

definition connected_components ::
  "nat \<Rightarrow> nat \<Rightarrow> (nat \<times> nat) list \<Rightarrow> (nat list \<times> nat list) list option" where
  "connected_components n_duties n_soldiers pairs =
     (case each (\<lambda>p e. uf_union p (fst e) (n_duties + snd e)) [0..<n_duties + n_soldiers] pairs of
        None \<Rightarrow> None
      | Some parent \<Rightarrow>
          (case each (group_step uf_find) (parent, []) (map (\<lambda>di. (di, di)) [0..<n_duties]) of
             None \<Rightarrow> None
           | Some (parent1, duty_groups) \<Rightarrow>
              (case each (group_step uf_find) (parent1, [])
                      (map (\<lambda>si. (n_duties + si, si)) [0..<n_soldiers]) of
                 None \<Rightarrow> None
               | Some (_, soldier_groups) \<Rightarrow>
                   Some (map (\<lambda>(root, dids). (dids, dict_get_or soldier_groups root []))
                             duty_groups))))"

lemma each_map: "each f s (map g es) = each (\<lambda>s e. f s (g e)) s es"
  by (induction es arbitrary: s) (auto split: option.splits)

text \<open>The relation whose classes are the components.\<close>

definition linked :: "nat \<Rightarrow> (nat \<times> nat) list \<Rightarrow> (nat \<times> nat) set" where
  "linked n_duties pairs = eqc ((\<lambda>(di, si). (di, n_duties + si)) ` set pairs)"

lemma connected_components_eq:
  assumes "set pairs \<subseteq> {..<n} \<times> {..<m}"
  shows "\<exists>p. uf_ok p \<and> length p = n + m \<and> uf_same p = linked n pairs
    \<and> connected_components n m pairs = Some (map (\<lambda>(root, dids).
        (dids, filter (\<lambda>si. uf_root p (n + si) = root) [0..<m])) (group_by (uf_root p) [0..<n]))"
proof -
  let ?es = "map (\<lambda>(di, si). (di, n + si)) pairs"
  have "set ?es \<subseteq> {..<length [0..<n + m]} \<times> {..<length [0..<n + m]}"
    using assms by fastforce
  from uf.union_all [OF uf_ok_init this] obtain p where
    p: "each (\<lambda>p e. uf_union p (fst e) (snd e)) [0..<n + m] ?es = Some p" "uf_ok p"
      "length p = n + m" "uf_same p = eqc (set ?es \<union> Id)"
    by auto
  have u: "each (\<lambda>p e. uf_union p (fst e) (n + snd e)) [0..<n + m] pairs = Some p"
    using p(1) by (simp add: each_map case_prod_beta)
  have "eqc (set ?es \<union> Id) = linked n pairs"
  proof
    show "eqc (set ?es \<union> Id) \<subseteq> linked n pairs"
      unfolding linked_def by (rule eqc_least) (auto intro: eqc_base)
    show "linked n pairs \<subseteq> eqc (set ?es \<union> Id)"
      unfolding linked_def by (rule eqc_mono) auto
  qed
  then have same: "uf_same p = linked n pairs" using p(4) by simp
  have "fst ` set (map (\<lambda>di. (di, di)) [0..<n]) \<subseteq> {..<length p}" using p(3) by auto
  from uf.group_all [OF p(2) this, of "[]"] obtain p1 where
    p1: "each (group_step uf_find) (p, []) (map (\<lambda>di. (di, di)) [0..<n])
          = Some (p1, group_by (uf_root p) [0..<n])" "uf_ok p1" "length p1 = length p"
        "\<forall>y < length p. uf_root p1 y = uf_root p y"
    by (auto simp: group_by_def fold_map comp_def)
  have "fst ` set (map (\<lambda>si. (n + si, si)) [0..<m]) \<subseteq> {..<length p1}" using p(3) p1(3) by auto
  from uf.group_all [OF p1(2) this, of "[]"] obtain p2 where
    p2: "each (group_step uf_find) (p1, []) (map (\<lambda>si. (n + si, si)) [0..<m])
          = Some (p2, group_by (\<lambda>si. uf_root p1 (n + si)) [0..<m])"
    by (auto simp: group_by_def fold_map comp_def)
  have f: "filter (\<lambda>si. uf_root p1 (n + si) = r) [0..<m]
      = filter (\<lambda>si. uf_root p (n + si) = r) [0..<m]" for r
    using p1(4) p(3) by (intro filter_cong) auto
  show ?thesis
    using p(2,3) same
    by (intro exI [of _ p]) (simp add: connected_components_def u p1(1) p2 f)
qed

definition is_component ::
  "nat \<Rightarrow> nat \<Rightarrow> (nat \<times> nat) list \<Rightarrow> nat list \<times> nat list \<Rightarrow> bool" where
  "is_component n m pairs c \<longleftrightarrow> fst c \<noteq> []
     \<and> (\<forall>i \<in> set (fst c). set (fst c) = {j. j < n \<and> (i, j) \<in> linked n pairs}
                        \<and> set (snd c) = {s. s < m \<and> (i, n + s) \<in> linked n pairs})"

lemma components_wf:
  assumes "set pairs \<subseteq> {..<n} \<times> {..<m}"
  shows "\<exists>comps. connected_components n m pairs = Some comps
    \<and> mset (concat (map fst comps)) = mset [0..<n]
    \<and> list_all (\<lambda>c. distinct (snd c) \<and> list_all (\<lambda>i. i < m) (snd c)) comps"
proof -
  obtain p where
    c: "connected_components n m pairs = Some (map (\<lambda>(root, dids).
        (dids, filter (\<lambda>si. uf_root p (n + si) = root) [0..<m])) (group_by (uf_root p) [0..<n]))"
    using connected_components_eq [OF assms] by auto
  then show ?thesis by (auto simp: comp_def case_prod_beta group_by_mset list_all_iff)
qed

text \<open>
  C12. The decomposition of a run is exact: it always succeeds, its components partition
  the duties, and two duties, or a duty and a soldier, are in one component precisely when
  a chain of eligible pairs joins them.  So solving the components apart loses no eligible
  pair.
\<close>

theorem components_partition:
  assumes "set pairs \<subseteq> {..<n} \<times> {..<m}"
  shows "\<exists>comps. connected_components n m pairs = Some comps
    \<and> mset (concat (map fst comps)) = mset [0..<n]
    \<and> list_all (is_component n m pairs) comps"
proof -
  obtain p where p: "uf_ok p" "length p = n + m" "uf_same p = linked n pairs"
    and c: "connected_components n m pairs = Some (map (\<lambda>(root, dids).
        (dids, filter (\<lambda>si. uf_root p (n + si) = root) [0..<m])) (group_by (uf_root p) [0..<n]))"
    using connected_components_eq [OF assms] by auto
  have "is_component n m pairs (ds, filter (\<lambda>si. uf_root p (n + si) = r) [0..<m])"
    if g: "(r, ds) \<in> set (group_by (uf_root p) [0..<n])" for r ds
  proof -
    have ds: "ds = filter (\<lambda>j. uf_root p j = r) [0..<n]" "ds \<noteq> []"
      using group_by_mem [OF g] by auto
    have "set ds = {j. j < n \<and> (i, j) \<in> linked n pairs}
        \<and> set (filter (\<lambda>si. uf_root p (n + si) = r) [0..<m])
            = {s. s < m \<and> (i, n + s) \<in> linked n pairs}" if "i \<in> set ds" for i
    proof -
      have i: "i < n" "uf_root p i = r" using that ds by auto
      have "uf_root p x = r \<longleftrightarrow> (i, x) \<in> linked n pairs" if "x < n + m" for x
        using uf.rep_law [OF p(1), of i x] i that by (auto simp: p(2,3))
      then show ?thesis unfolding ds(1) by (simp add: set_eq_iff cong: conj_cong)
    qed
    then show ?thesis using ds(2) by (simp add: is_component_def)
  qed
  then show ?thesis
    by (auto simp: c comp_def case_prod_beta group_by_mset list_all_iff)
qed

theorem components_partition_witness:
  "set [(0, 0), (1, 0), (2, 1)] \<subseteq> {..<4::nat} \<times> {..<2::nat}
   \<and> (\<exists>comps. connected_components 4 2 [(0, 0), (1, 0), (2, 1)] = Some comps
        \<and> mset (concat (map fst comps)) = mset [0..<4])"
proof -
  have h: "set [(0, 0), (1, 0), (2, 1)] \<subseteq> {..<4::nat} \<times> {..<2::nat}" by simp
  from h components_partition [OF h] show ?thesis by blast
qed

lemma cluster_eq:
  "\<exists>p. uf_ok p \<and> length p = length duties \<and> uf_same p = eqc (set (overlap_edges duties))
    \<and> cluster_by_date_overlap duties
        = Some (map snd (fold (\<lambda>x d. dict_append d (uf_root p (fst x)) (snd x)) (indexed duties) []))"
proof -
  have "set (overlap_edges duties) \<subseteq> {..<length [0..<length duties]} \<times> {..<length [0..<length duties]}"
    by (auto simp: overlap_edges_def)
  from uf.union_all [OF uf_ok_init this] obtain p where
    p: "each (\<lambda>p e. uf_union p (fst e) (snd e)) [0..<length duties] (overlap_edges duties) = Some p"
      "uf_ok p" "length p = length duties" "uf_same p = eqc (set (overlap_edges duties) \<union> Id)"
    by auto
  have "eqc (set (overlap_edges duties) \<union> Id) = eqc (set (overlap_edges duties))"
  proof
    show "eqc (set (overlap_edges duties) \<union> Id) \<subseteq> eqc (set (overlap_edges duties))"
      by (rule eqc_least) (auto intro: eqc_base)
  qed (rule eqc_mono, auto)
  moreover have "fst ` set (indexed duties) \<subseteq> {..<length p}" using p(3) by (auto simp: set_indexed)
  ultimately show ?thesis
    using uf.group_all [OF p(2), of "indexed duties" "[]"] p
    by (auto simp: cluster_by_date_overlap_def)
qed

end
