(* ===== verification/Saturation.thy ===== *)
theory Saturation
  imports UnionFind
begin

text \<open>
  \<open>app/algorithm/saturation.py\<close>: why duties stay unassigned.  The left-over duties are
  clustered by overlapping dates (UnionFind), and each cluster counts its eligible
  soldiers, the free ones among them, and the duty types the busy ones are committed to.
  A failing \<open>duty_by_id[a.duty_id]\<close> (KeyError) is None.
\<close>

section \<open>One cluster\<close>

type_synonym commitment = "date \<times> date \<times> uuid"

definition saturation_eligible :: "SoldierInput \<Rightarrow> DutyBlock \<Rightarrow> bool" where
  "saturation_eligible soldier duty = is_eligible soldier duty True"

definition counter_add :: "uuid \<Rightarrow> (uuid, int) dict \<Rightarrow> (uuid, int) dict" where
  "counter_add k c = dict_set c k (dict_get_or c k 0 + 1)"

definition busy_types :: "(uuid, commitment list) dict \<Rightarrow> date \<Rightarrow> date \<Rightarrow> uuid \<Rightarrow> uuid list" where
  "busy_types commitments_by_soldier date_from date_to sid =
     map (\<lambda>(start, fin, ty). ty)
       (filter (\<lambda>(start, fin, ty). date_ranges_overlap start fin date_from date_to)
         (dict_get_or commitments_by_soldier sid []))"

definition cluster_step :: "DutyBlock list \<Rightarrow> (uuid, commitment list) dict \<Rightarrow> date \<Rightarrow> date
    \<Rightarrow> SoldierInput \<Rightarrow> int \<times> int \<times> (uuid, int) dict \<Rightarrow> int \<times> int \<times> (uuid, int) dict" where
  "cluster_step cluster_duties commitments_by_soldier date_from date_to soldier acc =
     (case acc of (eligible_total, free_count, competing) \<Rightarrow>
        if \<not> list_ex (saturation_eligible soldier) cluster_duties then acc
        else
          (let busy = busy_types commitments_by_soldier date_from date_to (s_id soldier)
           in if busy \<noteq> []
              then (eligible_total + 1, free_count, fold counter_add busy competing)
              else (eligible_total + 1, free_count + 1, competing)))"

definition analyze_cluster :: "DutyBlock list \<Rightarrow> SoldierInput list
    \<Rightarrow> (uuid, commitment list) dict \<Rightarrow> SaturationCluster" where
  "analyze_cluster cluster_duties full_pool commitments_by_soldier =
     (let date_from = Min (set (map d_start_date cluster_duties));
          date_to = Max (set (map d_end_date cluster_duties));
          (eligible_total, free_count, competing) =
            fold (cluster_step cluster_duties commitments_by_soldier date_from date_to)
              full_pool (0, 0, [])
      in \<lparr>c_date_from = date_from, c_date_to = date_to,
          c_shift_ids = map d_id cluster_duties,
          c_eligible_pool_size = eligible_total, c_free_count = free_count,
          c_competing_duty_types = sort_key (\<lambda>kv. - snd kv) competing\<rparr>)"

section \<open>All clusters\<close>

text \<open>\<open>duty_by_id = {d.id: d for d in duties}\<close>: a later duty replaces an earlier one.\<close>

definition duty_by_id :: "DutyBlock list \<Rightarrow> uuid \<Rightarrow> DutyBlock option" where
  "duty_by_id duties i = dict_get (fold (\<lambda>d m. dict_set m (d_id d) d) duties []) i"

definition existing_commitment ::
  "ExistingAssignment \<Rightarrow> (uuid, commitment list) dict \<Rightarrow> (uuid, commitment list) dict" where
  "existing_commitment e m =
     dict_append m (e_soldier_id e) (e_start_date e, e_end_date e, e_duty_type_id e)"

definition assignment_commitment :: "(uuid \<Rightarrow> DutyBlock option)
    \<Rightarrow> (uuid, commitment list) dict \<Rightarrow> Assignment \<Rightarrow> (uuid, commitment list) dict option" where
  "assignment_commitment by_id m a =
     (case by_id (a_duty_id a) of None \<Rightarrow> None
      | Some d \<Rightarrow> Some (dict_append m (a_soldier_id a)
                         (d_start_date d, d_end_date d, d_duty_type_id d)))"

definition analyze_saturation :: "DutyBlock list \<Rightarrow> SoldierInput list \<Rightarrow> Assignment list
    \<Rightarrow> ExistingAssignment list \<Rightarrow> (uuid \<Rightarrow> DutyBlock option) \<Rightarrow> SaturationCluster list option" where
  "analyze_saturation unassigned full_pool all_assignments existing by_id =
     (if unassigned = [] then Some []
      else
        (case each (assignment_commitment by_id) (fold existing_commitment existing [])
                all_assignments of
           None \<Rightarrow> None
         | Some commitments \<Rightarrow>
             (case cluster_by_date_overlap unassigned of
                None \<Rightarrow> None
              | Some clusters \<Rightarrow>
                  Some (map (\<lambda>c. analyze_cluster c full_pool commitments) clusters))))"

section \<open>Lookups\<close>

lemma find_snoc:
  "find P (xs @ [x]) = (case find P xs of Some y \<Rightarrow> Some y | None \<Rightarrow> if P x then Some x else None)"
  by (induction xs) auto

lemma duty_by_id_fold:
  "dict_get (fold (\<lambda>d m. dict_set m (d_id d) d) ds m) i
     = (case find (\<lambda>d. d_id d = i) (rev ds) of Some d \<Rightarrow> Some d | None \<Rightarrow> dict_get m i)"
proof (induction ds arbitrary: m)
  case (Cons d ds)
  then show ?case by (auto simp: find_snoc split: option.splits)
qed simp

lemma duty_by_id_eq: "duty_by_id ds i = find (\<lambda>d. d_id d = i) (rev ds)"
  by (simp add: duty_by_id_def duty_by_id_fold split: option.split)

lemma duty_by_id_Some: "duty_by_id ds i = Some d \<Longrightarrow> d \<in> set ds \<and> d_id d = i"
  unfolding duty_by_id_eq find_Some_iff by (metis length_rev nth_mem set_rev)

lemma duty_by_id_total: "i \<in> d_id ` set ds \<Longrightarrow> \<exists>d. duty_by_id ds i = Some d"
  unfolding duty_by_id_eq using find_None_iff [of "\<lambda>d. d_id d = i" "rev ds"]
  by (cases "find (\<lambda>d. d_id d = i) (rev ds)") auto

lemma duty_by_id_distinct:
  assumes "distinct (map d_id ds)" "d \<in> set ds"
  shows "duty_by_id ds (d_id d) = Some d"
  using duty_by_id_total [of "d_id d" ds] duty_by_id_Some [of ds "d_id d"] assms
  by (metis distinct_map image_eqI inj_onD)

lemma each_total:
  assumes "\<And>s e. e \<in> set es \<Longrightarrow> \<exists>s'. f s e = Some s'"
  shows "\<exists>s'. each f s es = Some s'"
  using assms
proof (induction es arbitrary: s)
  case (Cons e es)
  obtain s1 where "f s e = Some s1" using Cons(2) by fastforce
  with Cons show ?case by simp
qed simp

lemma analyze_saturation_total:
  assumes "a_duty_id ` set as \<subseteq> d_id ` set ds"
  shows "\<exists>cs. analyze_saturation un pool as ex (duty_by_id ds) = Some cs"
proof -
  have "\<exists>m. each (assignment_commitment (duty_by_id ds)) (fold existing_commitment ex []) as = Some m"
  proof (rule each_total)
    fix m a assume "a \<in> set as"
    then have "a_duty_id a \<in> d_id ` set ds" using assms by auto
    from duty_by_id_total [OF this]
    show "\<exists>m'. assignment_commitment (duty_by_id ds) m a = Some m'"
      by (auto simp: assignment_commitment_def)
  qed
  then show ?thesis using cluster_eq [of un] by (auto simp: analyze_saturation_def)
qed

section \<open>What a cluster counts\<close>

definition engaged :: "DutyBlock list \<Rightarrow> (uuid, commitment list) dict \<Rightarrow> SoldierInput \<Rightarrow> bool" where
  "engaged c m s \<longleftrightarrow> busy_types m (Min (set (map d_start_date c)))
       (Max (set (map d_end_date c))) (s_id s) \<noteq> []"

lemma counter_fold:
  "dict_get_or (fold counter_add ks c) k 0 = dict_get_or c k 0 + int (count_list ks k)"
proof (induction ks arbitrary: c)
  case (Cons a ks)
  have "dict_get_or (counter_add a c) k 0 = dict_get_or c k 0 + (if k = a then 1 else 0)"
    by (auto simp: counter_add_def dict_get_or_def)
  with Cons show ?case by simp
qed simp

lemma counter_distinct: "distinct (map fst c) \<Longrightarrow> distinct (map fst (fold counter_add ks c))"
  by (induction ks arbitrary: c) (auto simp: counter_add_def)

lemma cluster_fold:
  "\<exists>competing'. fold (cluster_step c m f t) ss (n, k, competing)
     = (n + int (length (filter (\<lambda>s. list_ex (saturation_eligible s) c) ss)),
        k + int (length (filter (\<lambda>s. list_ex (saturation_eligible s) c
                                   \<and> busy_types m f t (s_id s) = []) ss)), competing')
   \<and> (\<forall>ty. dict_get_or competing' ty 0 = dict_get_or competing ty 0
        + (\<Sum>s\<leftarrow>filter (\<lambda>s. list_ex (saturation_eligible s) c) ss.
             int (count_list (busy_types m f t (s_id s)) ty)))
   \<and> (distinct (map fst competing) \<longrightarrow> distinct (map fst competing'))"
proof (induction ss arbitrary: n k competing)
  case (Cons s ss)
  show ?case
  proof (cases "list_ex (saturation_eligible s) c")
    case False
    then show ?thesis using Cons [of n k competing] by (simp add: cluster_step_def)
  next
    case True
    show ?thesis
    proof (cases "busy_types m f t (s_id s) = []")
      case free: True
      then show ?thesis using True Cons [of "n + 1" "k + 1" competing]
        by (simp add: cluster_step_def Let_def algebra_simps)
    next
      case busy: False
      then show ?thesis
        using True Cons [of "n + 1" k "fold counter_add (busy_types m f t (s_id s)) competing"]
          counter_fold [of "busy_types m f t (s_id s)" competing] counter_distinct
        by (auto simp: cluster_step_def Let_def algebra_simps)
    qed
  qed
qed simp

section \<open>Properties\<close>

text \<open>
  A cluster reports the number of soldiers eligible for one of its duties, splits
  them into the free and the engaged, and counts a competing duty type once for every
  overlapping commitment of an eligible soldier, the most frequent first.
\<close>

theorem cluster_counts:
  "let r = analyze_cluster c pool m;
       able = filter (\<lambda>s. list_ex (may_serve True s) c) pool
   in c_eligible_pool_size r = int (length able)
    \<and> c_free_count r = int (length (filter (\<lambda>s. \<not> engaged c m s) able))
    \<and> sorted (map (\<lambda>kv. - snd kv) (c_competing_duty_types r))
    \<and> (\<forall>ty. dict_get_or (c_competing_duty_types r) ty 0
         = (\<Sum>s\<leftarrow>able. int (count_list (busy_types m (c_date_from r) (c_date_to r) (s_id s)) ty)))"
proof -
  let ?f = "Min (set (map d_start_date c))" and ?t = "Max (set (map d_end_date c))"
  obtain competing where
    fold: "fold (cluster_step c m ?f ?t) pool (0, 0, [])
       = (int (length (filter (\<lambda>s. list_ex (saturation_eligible s) c) pool)),
          int (length (filter (\<lambda>s. list_ex (saturation_eligible s) c
                                 \<and> busy_types m ?f ?t (s_id s) = []) pool)), competing)"
    and cnt: "\<forall>ty. dict_get_or competing ty 0
          = (\<Sum>s\<leftarrow>filter (\<lambda>s. list_ex (saturation_eligible s) c) pool.
               int (count_list (busy_types m ?f ?t (s_id s)) ty))"
    and dist: "distinct (map fst competing)"
    using cluster_fold [of c m ?f ?t pool 0 0 "[]"] by (auto simp: dict_get_or_def)
  have el: "saturation_eligible s = may_serve True s" for s
    by (intro ext) (simp add: saturation_eligible_def)
  have "map_of (sort_key (\<lambda>kv. - snd kv) competing) = map_of competing"
    using dist by (subst map_of_inject_set) (auto simp: distinct_map)
  then have "dict_get_or (sort_key (\<lambda>kv. - snd kv) competing) ty 0 = dict_get_or competing ty 0" for ty
    by (simp add: dict_get_or_def dict_get_def)
  then show ?thesis
    using cnt unfolding analyze_cluster_def fold Let_def prod.case el
    by (simp add: engaged_def filter_filter conj_commute)
qed

end
