(* ===== verification/Schedule.thy ===== *)
theory Schedule
  imports ModelSound Saturation Samples
begin

text \<open>
  The specification of a schedule, over duties and soldiers instead of the indices of one
  model, and the state the batch loops of \<open>solver.py\<close> carry from one solve to the next:
  the assignments already made become \<open>ExistingAssignment\<close>s and add to the effort of
  their soldiers.  \<open>schedule_extend\<close> is why batching is sound: a schedule made on top
  of the carried bookings of another joins with it.
\<close>

section \<open>Schedules\<close>

definition able :: "bool \<Rightarrow> SoldierInput list \<Rightarrow> uuid \<Rightarrow> DutyBlock \<Rightarrow> bool" where
  "able w ss sid d \<longleftrightarrow> (\<exists>s \<in> set ss. s_id s = sid \<and> may_serve w s d)"

definition placed :: "DutyBlock list \<Rightarrow> Assignment list \<Rightarrow> (DutyBlock \<times> uuid) set" where
  "placed ds as = {(d, a_soldier_id a) | d a. d \<in> set ds \<and> a \<in> set as \<and> a_duty_id a = d_id d}"

definition worked :: "bool \<Rightarrow> (DutyBlock \<times> uuid) set \<Rightarrow> uuid \<Rightarrow> date set" where
  "worked only_real P sid =
     (\<Union>d \<in> {d. (d, sid) \<in> P \<and> (only_real \<longrightarrow> \<not> d_is_reserve d)}. duty_days d)"

definition existing_for :: "bool \<Rightarrow> ExistingAssignment list \<Rightarrow> ExistingAssignment list" where
  "existing_for only_real ex = (if only_real then existing_real ex else ex)"

definition loads_ok :: "bool \<Rightarrow> int \<Rightarrow> int \<Rightarrow> ExistingAssignment list
    \<Rightarrow> (DutyBlock \<times> uuid) set \<Rightarrow> bool" where
  "loads_ok only_real cap W ex P \<longleftrightarrow> (\<forall>sid ws. window ws W \<inter> worked only_real P sid \<noteq> {}
     \<longrightarrow> int (card (window ws W \<inter> (worked only_real P sid
            \<union> booked (existing_for only_real ex) sid))) \<le> cap)"

definition clash_free :: "ExistingAssignment list \<Rightarrow> (DutyBlock \<times> uuid) set \<Rightarrow> bool" where
  "clash_free ex P \<longleftrightarrow> (\<forall>(d, sid) \<in> P. duty_days d \<inter> booked ex sid = {}
     \<and> (\<forall>d'. (d', sid) \<in> P \<longrightarrow> d' \<noteq> d \<longrightarrow> duty_days d \<inter> duty_days d' = {}))"

definition one_soldier :: "(DutyBlock \<times> uuid) set \<Rightarrow> bool" where
  "one_soldier P \<longleftrightarrow> (\<forall>d a b. (d, a) \<in> P \<longrightarrow> (d, b) \<in> P \<longrightarrow> a = b)"

definition schedule_ok :: "int \<Rightarrow> int \<Rightarrow> SolverSettings \<Rightarrow> SoldierInput list \<Rightarrow> DutyBlock list
    \<Rightarrow> ExistingAssignment list \<Rightarrow> (DutyBlock \<times> uuid) set \<Rightarrow> bool" where
  "schedule_ok Tc Rc st ss ds ex P \<longleftrightarrow>
     (\<forall>(d, sid) \<in> P. d \<in> set ds \<and> able (enforce_weapon_qualification st) ss sid d)
   \<and> one_soldier P \<and> clash_free ex P
   \<and> loads_ok True Tc (Wt st) ex P \<and> loads_ok False Rc (Wr st) ex P"

lemma worked_Un [simp]: "worked r (P \<union> Q) sid = worked r P sid \<union> worked r Q sid"
  by (auto simp: worked_def)

lemma worked_empty [simp]: "worked r {} sid = {}"
  by (simp add: worked_def)

lemma schedule_ok_empty [simp]: "schedule_ok Tc Rc st ss ds ex {}"
  by (simp add: schedule_ok_def one_soldier_def clash_free_def loads_ok_def)

lemma schedule_ok_mono:
  assumes "schedule_ok Tc Rc st ss ds ex P" "Tc \<le> Tc'" "Rc \<le> Rc'"
  shows "schedule_ok Tc' Rc' st ss ds ex P"
proof -
  have "loads_ok r c' W ex P" if "loads_ok r c W ex P" "c \<le> c'" for r c c' W
    using that unfolding loads_ok_def by (meson order_trans)
  with assms show ?thesis by (auto simp: schedule_ok_def)
qed

lemma able_subset: "able w ss sid d \<Longrightarrow> set ss \<subseteq> set ss' \<Longrightarrow> able w ss' sid d"
  by (auto simp: able_def)

section \<open>Joining schedules\<close>

text \<open>\<open>carry\<close> books the days of \<open>ex\<close> and those worked in \<open>P\<close>.\<close>

definition carries :: "ExistingAssignment list \<Rightarrow> (DutyBlock \<times> uuid) set
    \<Rightarrow> ExistingAssignment list \<Rightarrow> bool" where
  "carries ex P carry \<longleftrightarrow> (\<forall>r sid. booked (existing_for r carry) sid
      = booked (existing_for r ex) sid \<union> worked r P sid)"

lemma carriesD: "carries ex P carry \<Longrightarrow> booked carry sid = booked ex sid \<union> worked False P sid"
  unfolding carries_def existing_for_def by (erule allE [of _ False]) simp

lemma carries_refl [simp]: "carries ex {} ex"
  by (simp add: carries_def)

lemma carries_trans: "carries ex P c \<Longrightarrow> carries c Q c' \<Longrightarrow> carries ex (P \<union> Q) c'"
  by (auto simp: carries_def)

lemma schedule_extend:
  assumes P: "schedule_ok Tc Rc st ss ds ex P" and c: "carries ex P carry"
    and Q: "schedule_ok Tc Rc st ss ds carry Q" and disj: "fst ` P \<inter> fst ` Q = {}"
  shows "schedule_ok Tc Rc st ss ds ex (P \<union> Q)"
proof -
  have "one_soldier (P \<union> Q)"
    unfolding one_soldier_def
  proof (intro allI impI)
    fix d a b assume m: "(d, a) \<in> P \<union> Q" "(d, b) \<in> P \<union> Q"
    have "\<not> (d \<in> fst ` P \<and> d \<in> fst ` Q)" using disj by blast
    then have "(d, a) \<in> P \<and> (d, b) \<in> P \<or> (d, a) \<in> Q \<and> (d, b) \<in> Q"
      using m by (auto simp: image_iff)
    then show "a = b" using P Q unfolding schedule_ok_def one_soldier_def by blast
  qed
  moreover have "clash_free ex (P \<union> Q)"
  proof -
    have cross: "duty_days d \<inter> duty_days d' = {}" if "(d, sid) \<in> Q" "(d', sid) \<in> P" for d d' sid
    proof -
      have "duty_days d' \<subseteq> worked False P sid" using that by (auto simp: worked_def)
      moreover have "duty_days d \<inter> booked carry sid = {}"
        using Q that by (auto simp: schedule_ok_def clash_free_def)
      ultimately show ?thesis using carriesD [OF c] by blast
    qed
    have "duty_days d \<inter> booked ex sid = {}" if "(d, sid) \<in> P \<union> Q" for d sid
      using P Q that carriesD [OF c, of sid] by (fastforce simp: schedule_ok_def clash_free_def)
    moreover have "duty_days d \<inter> duty_days d' = {}"
      if "(d, sid) \<in> P \<union> Q" "(d', sid) \<in> P \<union> Q" "d' \<noteq> d" for d d' sid
      using P Q that cross [of d sid d'] cross [of d' sid d]
      unfolding schedule_ok_def clash_free_def by blast
    ultimately show ?thesis unfolding clash_free_def by blast
  qed
  moreover have "loads_ok r c W ex (P \<union> Q)"
    if "loads_ok r c W ex P" "loads_ok r c W carry Q" for r c W
  proof -
    have "int (card (window ws W \<inter> (worked r (P \<union> Q) sid \<union> booked (existing_for r ex) sid))) \<le> c"
      if ne: "window ws W \<inter> worked r (P \<union> Q) sid \<noteq> {}" for ws sid
    proof (cases "window ws W \<inter> worked r Q sid = {}")
      case True
      then have "window ws W \<inter> (worked r (P \<union> Q) sid \<union> booked (existing_for r ex) sid)
          = window ws W \<inter> (worked r P sid \<union> booked (existing_for r ex) sid)" by auto
      moreover have "window ws W \<inter> worked r P sid \<noteq> {}" using True ne by auto
      ultimately show ?thesis using \<open>loads_ok r c W ex P\<close> by (simp add: loads_ok_def)
    next
      case False
      have "worked r (P \<union> Q) sid \<union> booked (existing_for r ex) sid
          = worked r Q sid \<union> booked (existing_for r carry) sid"
        using \<open>carries ex P carry\<close> by (auto simp: carries_def)
      then show ?thesis using \<open>loads_ok r c W carry Q\<close> False by (simp add: loads_ok_def)
    qed
    then show ?thesis by (simp add: loads_ok_def)
  qed
  ultimately show ?thesis using P Q unfolding schedule_ok_def by blast
qed

section \<open>From the choice of a model\<close>

definition choice_placed :: "SoldierInput list \<Rightarrow> DutyBlock list \<Rightarrow> (nat \<times> nat) set
    \<Rightarrow> (DutyBlock \<times> uuid) set" where
  "choice_placed ss ds A = (\<lambda>(di, si). (ds ! di, s_id (ss ! si))) ` A"

lemma index_by_key: "distinct (map f xs) \<Longrightarrow> i < length xs \<Longrightarrow> j < length xs
    \<Longrightarrow> f (xs ! i) = f (xs ! j) \<Longrightarrow> i = j"
  by (metis length_map nth_eq_iff_index_eq nth_map)

lemma legal_schedule:
  assumes legal: "legal st ss ds ex A" and ids: "distinct (map d_id ds)" "distinct (map s_id ss)"
  shows "schedule_ok (T_cap st) (R_cap st) st ss ds ex (choice_placed ss ds A)"
proof -
  let ?P = "choice_placed ss ds A"
  have idx: "di < length ds \<and> si < length ss
      \<and> may_serve (enforce_weapon_qualification st) (ss ! si) (ds ! di)" if "(di, si) \<in> A" for di si
    using legal that by (auto simp: legal_def eligible_choice_def)
  have mem: "(ds ! di, sid) \<in> ?P \<longleftrightarrow> (\<exists>si. (di, si) \<in> A \<and> sid = s_id (ss ! si))"
    if "di < length ds" for di sid
  proof
    assume "(ds ! di, sid) \<in> ?P"
    then obtain dj si where j: "(dj, si) \<in> A" "ds ! di = ds ! dj" "sid = s_id (ss ! si)"
      by (auto simp: choice_placed_def)
    then have "di = dj" using index_by_key [OF ids(1) that, of dj] idx by auto
    with j show "\<exists>si. (di, si) \<in> A \<and> sid = s_id (ss ! si)" by auto
  qed (force simp: choice_placed_def)
  have P: "\<exists>di si. (di, si) \<in> A \<and> d = ds ! di \<and> sid = s_id (ss ! si)" if "(d, sid) \<in> ?P" for d sid
    using that by (auto simp: choice_placed_def)
  have same: "sj = si" if "(di, si) \<in> A" "(dj, sj) \<in> A" "s_id (ss ! sj) = s_id (ss ! si)" for di dj si sj
    using index_by_key [OF ids(2), of sj si] idx that by auto
  have worked: "worked r ?P (s_id (ss ! si)) = served ds A r si" if "si < length ss" for r si
  proof -
    have "(d, s_id (ss ! si)) \<in> ?P \<longleftrightarrow> (\<exists>di. (di, si) \<in> A \<and> d = ds ! di)" for d
    proof
      assume "(d, s_id (ss ! si)) \<in> ?P"
      from P [OF this] obtain di sj where j: "(di, sj) \<in> A" "d = ds ! di" "s_id (ss ! si) = s_id (ss ! sj)"
        by blast
      then have "si = sj" using index_by_key [OF ids(2) that, of sj] idx by blast
      with j show "\<exists>di. (di, si) \<in> A \<and> d = ds ! di" by blast
    qed (force simp: choice_placed_def)
    then show ?thesis by (auto simp: worked_def served_def)
  qed
  have "one_soldier ?P"
    unfolding one_soldier_def
  proof (intro allI impI)
    fix d a b assume "(d, a) \<in> ?P" "(d, b) \<in> ?P"
    moreover from P [OF this(1)] obtain di where "d = ds ! di" "di < length ds" using idx by blast
    ultimately obtain sa sb where "(di, sa) \<in> A" "a = s_id (ss ! sa)" "(di, sb) \<in> A" "b = s_id (ss ! sb)"
      using mem by blast
    moreover have "sa = sb"
      using legal calculation(1,3) unfolding legal_def one_per_duty_def by blast
    ultimately show "a = b" by simp
  qed
  moreover have "clash_free ex ?P"
    unfolding clash_free_def
  proof (clarify, intro conjI allI impI)
    fix d sid assume m: "(d, sid) \<in> ?P"
    from P [OF m] obtain di si where i: "(di, si) \<in> A" "d = ds ! di" "sid = s_id (ss ! si)" by blast
    have nd: "duty_days (ds ! di) \<inter> booked ex (s_id (ss ! si)) = {}
        \<and> (\<forall>dj. (dj, si) \<in> A \<longrightarrow> dj \<noteq> di \<longrightarrow> duty_days (ds ! di) \<inter> duty_days (ds ! dj) = {})"
      using legal i(1) unfolding legal_def no_double_booking_def by fast
    then show "duty_days d \<inter> booked ex sid = {}" using i by simp
    fix d' assume "(d', sid) \<in> ?P" "d' \<noteq> d"
    from P [OF this(1)] obtain dj sj where j: "(dj, sj) \<in> A" "d' = ds ! dj" "sid = s_id (ss ! sj)"
      by blast
    have "sj = si" by (rule same [OF i(1) j(1)]) (simp only: i(3) [symmetric] j(3) [symmetric])
    moreover have "dj \<noteq> di" using i(2) j(2) \<open>d' \<noteq> d\<close> by blast
    ultimately have "duty_days (ds ! di) \<inter> duty_days (ds ! dj) = {}" using nd j(1) by blast
    then show "duty_days d \<inter> duty_days d' = {}" by (simp only: i(2) j(2))
  qed
  moreover have "loads_ok r cap W ex ?P" if "cap_kept r cap W ss ds ex A" for r cap W
    unfolding loads_ok_def
  proof (intro allI impI)
    fix sid ws assume ne: "window ws W \<inter> worked r ?P sid \<noteq> {}"
    then obtain d where "(d, sid) \<in> ?P" by (auto simp: worked_def)
    from P [OF this] obtain si where "sid = s_id (ss ! si)" "si < length ss" using idx by blast
    then show "int (card (window ws W \<inter> (worked r ?P sid \<union> booked (existing_for r ex) sid))) \<le> cap"
      using that ne worked by (simp add: cap_kept_def existing_for_def)
  qed
  moreover have "d \<in> set ds \<and> able (enforce_weapon_qualification st) ss sid d"
    if "(d, sid) \<in> ?P" for d sid
    using P [OF that] idx by (fastforce simp: able_def)
  ultimately show ?thesis using legal by (auto simp: schedule_ok_def legal_def)
qed

lemma placed_choice:
  assumes "\<And>di si. (di, si) \<in> A \<Longrightarrow> di < length ds" "distinct (map d_id ds)"
    and "set as = (\<lambda>(di, si). \<lparr>a_duty_id = d_id (ds ! di), a_soldier_id = s_id (ss ! si)\<rparr>) ` A"
  shows "placed ds as = choice_placed ss ds A"
proof -
  have key: "d = ds ! di" if "d \<in> set ds" "(di, si) \<in> A" "d_id (ds ! di) = d_id d" for d di si
    using that assms(1,2) by (metis distinct_map inj_onD nth_mem)
  have "p \<in> placed ds as \<longleftrightarrow> p \<in> choice_placed ss ds A" for p
  proof
    assume "p \<in> placed ds as"
    then obtain d di si where "d \<in> set ds" "(di, si) \<in> A" "d_id (ds ! di) = d_id d"
        "p = (d, s_id (ss ! si))"
      by (auto simp: placed_def assms(3))
    with key show "p \<in> choice_placed ss ds A" by (force simp: choice_placed_def)
  next
    assume "p \<in> choice_placed ss ds A"
    then obtain di si where i: "(di, si) \<in> A" "p = (ds ! di, s_id (ss ! si))"
      by (auto simp: choice_placed_def)
    then have "ds ! di \<in> set ds" using assms(1) by simp
    with i show "p \<in> placed ds as" by (force simp: placed_def assms(3))
  qed
  then show ?thesis by blast
qed

section \<open>A concrete schedule\<close>

definition sample_assignment :: Assignment where
  "sample_assignment = \<lparr>a_duty_id = 10, a_soldier_id = 4\<rparr>"

lemma sample_placed: "placed [sample_duty 10 0 2] [sample_assignment] = {(sample_duty 10 0 2, 4)}"
  by (auto simp: placed_def sample_assignment_def)

lemma sample_loads: "2 \<le> c \<Longrightarrow> loads_ok r c W [] {(sample_duty 10 0 2, 4)}"
proof -
  assume c: "2 \<le> c"
  have "worked r {(sample_duty 10 0 2, 4)} sid \<subseteq> {0..<2}" for sid by (auto simp: worked_def)
  then have "card (window ws W \<inter> worked r {(sample_duty 10 0 2, 4)} sid) \<le> card {0..<2::int}" for ws sid
    by (intro card_mono) auto
  then have "int (card (window ws W \<inter> worked r {(sample_duty 10 0 2, 4)} sid)) \<le> c" for ws sid
    using c by (simp add: order_trans [of _ 2])
  moreover have "existing_for r [] = []" by (simp add: existing_for_def existing_real_def)
  ultimately show ?thesis by (simp add: loads_ok_def)
qed

lemma sample_schedule:
  "schedule_ok 8 15 default_settings [sample_soldier 4] [sample_duty 10 0 2] []
     (placed [sample_duty 10 0 2] [sample_assignment])"
  by (auto simp: sample_placed schedule_ok_def able_def one_soldier_def clash_free_def intro: sample_loads)

end
