(* ===== verification/Relax.thy ===== *)
theory Relax
  imports DutyTypes
begin

text \<open>
  The relaxation ladder of \<open>solver.py\<close>: \<open>_relax_step\<close> loosens the caps in place and
  names the step, \<open>_ladder_positions\<close> lists every position up to the ceilings, and
  \<open>max_attempts\<close> is the number the relaxation chain announces to the progress
  callback.  A step is a value here: the label and the changed settings, or None.  The
  lemmas bound every position by the ceilings, show that the caps only grow, count the
  positions, and keep \<open>T \<le> R\<close> where the ceilings allow it.
\<close>

definition relax_step :: "SolverSettings \<Rightarrow> (relax_label \<times> SolverSettings) option" where
  "relax_step current =
     (if R_cap current < relax_r_ceiling current then
        (let k = min (relax_r_ceiling current) (R_cap current + 2)
         in Some (R_to k, current\<lparr>R_cap := k\<rparr>))
      else if T_cap current < relax_t_ceiling current then
        (let k = min (relax_t_ceiling current) (T_cap current + 2)
         in Some (T_to k, current\<lparr>T_cap := k\<rparr>))
      else None)"

definition relax_gap :: "SolverSettings \<Rightarrow> nat" where
  "relax_gap s = nat (relax_r_ceiling s - R_cap s) + nat (relax_t_ceiling s - T_cap s)"

lemma relax_step_gap: "relax_step s = Some (l, s') \<Longrightarrow> relax_gap s' < relax_gap s"
  by (auto simp: relax_step_def relax_gap_def Let_def split: if_splits)

function ladder_from :: "SolverSettings \<Rightarrow> relax_label list
    \<Rightarrow> (relax_label list \<times> SolverSettings) list" where
  "ladder_from current labels =
     (case relax_step current of
        None \<Rightarrow> []
      | Some (label, next) \<Rightarrow> (labels @ [label], next) # ladder_from next (labels @ [label]))"
  by pat_completeness auto
termination
  by (relation "measure (\<lambda>(s, _). relax_gap s)") (auto dest: relax_step_gap)

declare ladder_from.simps [simp del]

definition ladder_positions :: "SolverSettings \<Rightarrow> (relax_label list \<times> SolverSettings) list" where
  "ladder_positions settings = ladder_from settings []"

definition max_attempts :: "SolverSettings \<Rightarrow> int" where
  "max_attempts settings =
     1 + ceil_div (max 0 (relax_r_ceiling settings - R_cap settings)) 2
       + ceil_div (max 0 (relax_t_ceiling settings - T_cap settings)) 2"

section \<open>What a step changes\<close>

text \<open>Settings that agree up to the two caps, with caps between the base and the ceilings.\<close>

definition same_but_caps :: "SolverSettings \<Rightarrow> SolverSettings \<Rightarrow> bool" where
  "same_but_caps s s' \<longleftrightarrow> s' = s\<lparr>T_cap := T_cap s', R_cap := R_cap s'\<rparr>"

definition relaxes :: "SolverSettings \<Rightarrow> SolverSettings \<Rightarrow> bool" where
  "relaxes s s' \<longleftrightarrow> same_but_caps s s'
     \<and> R_cap s \<le> R_cap s' \<and> R_cap s' \<le> max (R_cap s) (relax_r_ceiling s)
     \<and> T_cap s \<le> T_cap s' \<and> T_cap s' \<le> max (T_cap s) (relax_t_ceiling s)"

lemma same_but_caps_fields:
  assumes "same_but_caps s s'"
  shows "Wt s' = Wt s" "Wr s' = Wr s" "relax_r_ceiling s' = relax_r_ceiling s"
    "relax_t_ceiling s' = relax_t_ceiling s"
    "enforce_weapon_qualification s' = enforce_weapon_qualification s"
proof -
  obtain t r where "s' = s\<lparr>T_cap := t, R_cap := r\<rparr>"
    by (rule that) (rule assms [unfolded same_but_caps_def])
  then show "Wt s' = Wt s" "Wr s' = Wr s" "relax_r_ceiling s' = relax_r_ceiling s"
    "relax_t_ceiling s' = relax_t_ceiling s"
    "enforce_weapon_qualification s' = enforce_weapon_qualification s" by simp_all
qed

lemma same_but_caps_iff:
  "same_but_caps s s' \<longleftrightarrow> (\<exists>t r. s' = s\<lparr>T_cap := t, R_cap := r\<rparr>)"
proof
  assume "same_but_caps s s'"
  then show "\<exists>t r. s' = s\<lparr>T_cap := t, R_cap := r\<rparr>" unfolding same_but_caps_def by (intro exI)
qed (auto simp: same_but_caps_def)

lemma relaxes_refl [simp]: "relaxes s s"
  by (simp add: relaxes_def same_but_caps_def)

lemma relaxes_same: "relaxes s s' \<Longrightarrow> same_but_caps s s'"
  by (simp add: relaxes_def)

lemma relaxes_trans:
  assumes "relaxes a b" "relaxes b c"
  shows "relaxes a c"
proof -
  have "same_but_caps a c"
  proof -
    obtain t r where b: "b = a\<lparr>T_cap := t, R_cap := r\<rparr>"
      using assms(1) by (auto simp: relaxes_def same_but_caps_iff)
    obtain t' r' where "c = b\<lparr>T_cap := t', R_cap := r'\<rparr>"
      using assms(2) by (auto simp: relaxes_def same_but_caps_iff)
    then have "c = a\<lparr>T_cap := t', R_cap := r'\<rparr>" by (simp add: b)
    then show ?thesis unfolding same_but_caps_iff by blast
  qed
  moreover have "relax_r_ceiling b = relax_r_ceiling a" "relax_t_ceiling b = relax_t_ceiling a"
    using assms(1) by (simp_all add: relaxes_def same_but_caps_fields)
  ultimately show ?thesis using assms by (auto simp: relaxes_def)
qed

lemma relax_step_relaxes: "relax_step s = Some (l, s') \<Longrightarrow> relaxes s s'"
  by (auto simp: relax_step_def relaxes_def same_but_caps_def Let_def split: if_splits)

lemma relax_step_None:
  "relax_step s = None \<longleftrightarrow> relax_r_ceiling s \<le> R_cap s \<and> relax_t_ceiling s \<le> T_cap s"
  by (auto simp: relax_step_def Let_def)

lemma relax_step_attempts:
  assumes "relax_step s = Some (l, s')"
  shows "max_attempts s = max_attempts s' + 1"
proof -
  have hop: "ceil_div (max 0 (c - v)) 2 = ceil_div (max 0 (c - min c (v + 2))) 2 + 1"
    if "v < c" for c v :: int
    using that by (auto simp: ceil_div_def max_def min_def)
  show ?thesis
    using assms hop [of "R_cap s" "relax_r_ceiling s"] hop [of "T_cap s" "relax_t_ceiling s"]
    by (auto simp: relax_step_def max_attempts_def Let_def split: if_splits)
qed

lemma max_attempts_None: "relax_step s = None \<Longrightarrow> max_attempts s = 1"
  by (simp add: relax_step_None max_attempts_def ceil_div_def)

section \<open>The whole ladder\<close>

lemma ladder_length:
  "int (length (ladder_from s ls)) = max_attempts s - 1"
proof (induction s ls rule: ladder_from.induct)
  case (1 s ls)
  show ?case
  proof (cases "relax_step s")
    case None
    then show ?thesis by (simp add: ladder_from.simps max_attempts_None)
  next
    case (Some p)
    obtain l s' where p: "p = (l, s')" by (cases p)
    then have "int (length (ladder_from s' (ls @ [l]))) = max_attempts s' - 1"
      using 1 Some by blast
    then show ?thesis
      using relax_step_attempts [of s l s'] Some p by (simp add: ladder_from.simps [of s])
  qed
qed

lemma ladder_mem:
  "(labels, s') \<in> set (ladder_from s ls) \<Longrightarrow>
     relaxes s s' \<and> (\<exists>more. labels = ls @ more \<and> more \<noteq> [])"
proof (induction s ls arbitrary: labels s' rule: ladder_from.induct)
  case (1 s ls)
  obtain l s1 where step: "relax_step s = Some (l, s1)"
    using 1(2) by (cases "relax_step s") (auto simp: ladder_from.simps [of s])
  then have cases: "(labels, s') = (ls @ [l], s1) \<or> (labels, s') \<in> set (ladder_from s1 (ls @ [l]))"
    using 1(2) by (simp add: ladder_from.simps [of s])
  show ?case
  proof (cases "(labels, s') = (ls @ [l], s1)")
    case True
    then show ?thesis using relax_step_relaxes [OF step] by auto
  next
    case False
    then have "relaxes s1 s' \<and> (\<exists>more. labels = (ls @ [l]) @ more \<and> more \<noteq> [])"
      using cases 1(1) [OF step refl] by blast
    then show ?thesis using relaxes_trans [OF relax_step_relaxes [OF step]] by auto
  qed
qed

lemma ladder_last:
  "ladder_from s ls \<noteq> [] \<Longrightarrow> relax_step (snd (last (ladder_from s ls))) = None"
proof (induction s ls rule: ladder_from.induct)
  case (1 s ls)
  obtain l s1 where step: "relax_step s = Some (l, s1)"
    using 1(2) by (cases "relax_step s") (auto simp: ladder_from.simps [of s])
  show ?case
  proof (cases "ladder_from s1 (ls @ [l]) = []")
    case True
    then have "relax_step s1 = None"
      by (cases "relax_step s1") (auto simp: ladder_from.simps [of s1])
    with True show ?thesis using step by (simp add: ladder_from.simps [of s])
  next
    case False
    then show ?thesis using 1(1) [OF step refl] step by (simp add: ladder_from.simps [of s])
  qed
qed

text \<open>\<open>T \<le> R\<close> along the ladder.\<close>

lemma relax_step_order:
  assumes "relax_step s = Some (l, s')" "T_cap s \<le> R_cap s"
    and "relax_t_ceiling s \<le> max (R_cap s) (relax_r_ceiling s)"
  shows "T_cap s' \<le> R_cap s'"
  using assms by (auto simp: relax_step_def Let_def split: if_splits)

lemma relaxes_ceiling: "relaxes s s' \<Longrightarrow> relax_t_ceiling s \<le> max (R_cap s) (relax_r_ceiling s)
    \<Longrightarrow> relax_t_ceiling s' \<le> max (R_cap s') (relax_r_ceiling s')"
  by (auto simp: relaxes_def same_but_caps_fields)

lemma ladder_order:
  assumes "T_cap s \<le> R_cap s" "relax_t_ceiling s \<le> max (R_cap s) (relax_r_ceiling s)"
    and "(labels, s') \<in> set (ladder_from s ls)"
  shows "T_cap s' \<le> R_cap s'"
  using assms
proof (induction s ls arbitrary: labels s' rule: ladder_from.induct)
  case (1 s ls)
  obtain l s1 where step: "relax_step s = Some (l, s1)"
    using 1(4) by (cases "relax_step s") (auto simp: ladder_from.simps [of s])
  have "T_cap s1 \<le> R_cap s1" "relax_t_ceiling s1 \<le> max (R_cap s1) (relax_r_ceiling s1)"
    using relax_step_order [OF step 1(2,3)] relaxes_ceiling [OF relax_step_relaxes [OF step] 1(3)]
    by simp_all
  then show ?case
    using 1(1) [OF step refl] 1(4) step by (auto simp: ladder_from.simps [of s])
qed

section \<open>Properties\<close>

text \<open>
  \<open>_ladder_positions\<close> ends, and has one position for every attempt after the first
  that the chain announces as \<open>max_attempts\<close>; every position is a relaxation of the
  base settings that never passes the ceilings, and the last one cannot be relaxed
  further.
\<close>

theorem ladder_bounded:
  "int (length (ladder_positions settings)) = max_attempts settings - 1
   \<and> list_all (\<lambda>(labels, s). relaxes settings s \<and> labels \<noteq> []) (ladder_positions settings)
   \<and> (ladder_positions settings = [] \<or> relax_step (snd (last (ladder_positions settings))) = None)"
  unfolding ladder_positions_def list_all_iff
proof (intro conjI)
  show "ladder_from settings [] = [] \<or> relax_step (snd (last (ladder_from settings []))) = None"
    using ladder_last [of settings "[]"] by (cases "ladder_from settings [] = []") simp_all
qed (use ladder_length [of settings "[]"] ladder_mem [of _ _ settings "[]"] in auto)

text \<open>
  The invariant the comment in \<open>_infeasibility_relaxation_chain\<close> claims: when the
  base has \<open>T \<le> R\<close> and the T ceiling lies below the R ceiling (or below the base R),
  \<open>T \<le> R\<close> holds at every position of the ladder.
\<close>

theorem ladder_keeps_order:
  assumes "T_cap settings \<le> R_cap settings"
    and "relax_t_ceiling settings \<le> max (R_cap settings) (relax_r_ceiling settings)"
  shows "list_all (\<lambda>(labels, s). T_cap s \<le> R_cap s) (ladder_positions settings)"
  using ladder_order [OF assms] by (auto simp: ladder_positions_def list_all_iff)

lemma ladder_keeps_order_witness:
  "list_all (\<lambda>(labels, s). T_cap s \<le> R_cap s) (ladder_positions default_settings)"
  by (rule ladder_keeps_order) (simp_all add: default_settings_def)

end
