(* ===== verification/Attempts.thy ===== *)
theory Attempts
  imports Fairness Relax
begin

text \<open>
  The procedures of \<open>solver.py\<close> that call CP-SAT on one problem: the two-stage solve
  \<open>_solve_with_settings\<close>, the two-stage \<open>_solve_soft_coverage\<close> and the
  \<open>_infeasibility_relaxation_chain\<close>.  Each takes the world and returns its result with
  the world after it.  A cancel event that is None is an environment whose
  \<open>cancel_is_set\<close> never answers True.  The termination of the chain is that of the
  relaxation ladder, so no fuel is needed.
\<close>

section \<open>Solving with given settings\<close>

definition DEFAULT_SOLVER_SEED :: int where
  "DEFAULT_SOLVER_SEED = 42"

definition seed_of :: "SolverSettings \<Rightarrow> int" where
  "seed_of settings = (case seed settings of Some s \<Rightarrow> s | None \<Rightarrow> DEFAULT_SOLVER_SEED)"

definition params_of :: "SolverSettings \<Rightarrow> cp_params" where
  "params_of settings = \<lparr>max_time_in_seconds = time_limit_seconds settings,
     random_seed = seed_of settings, num_search_workers = num_workers settings\<rparr>"

definition solve_with_settings :: "'w env \<Rightarrow> SoldierInput list \<Rightarrow> DutyBlock list
    \<Rightarrow> ExistingAssignment list \<Rightarrow> SolverSettings \<Rightarrow> reserve_dists option
    \<Rightarrow> 'w \<Rightarrow> ((nat \<times> nat) list \<times> cp_answer) \<times> 'w" where
  "solve_with_settings env soldiers duties existing settings reserve_dist w =
     (case build_model Hard soldiers duties existing settings reserve_dist of (model, x, terms) \<Rightarrow>
      (case cp_solve env model (params_of settings) w of (a, w1) \<Rightarrow>
        if tiebreak_mode settings = ''off'' \<or> dev_terms terms = [] then ((x, a), w1)
        else if \<not> solved (ans_status a) then ((x, a), w1)
        else
          (case cancel_is_set env w1 of (cancelled, w2) \<Rightarrow>
             if cancelled then ((x, a), w2)
             else
               (let achieved_l1 = (\<Sum>dv\<leftarrow>dev_terms terms. ans_value a dv);
                    hinted = model\<lparr>cp_hints := map (\<lambda>(di, si). (X di si, ans_value a (X di si))) x\<rparr>;
                    model2 = apply_tiebreak_objective hinted x duties settings reserve_dist
                               terms achieved_l1;
                    params2 = (params_of settings)
                      \<lparr>max_time_in_seconds := tiebreak_time_limit_seconds settings\<rparr>
                in (case cp_solve env model2 params2 w2 of (a2, w3) \<Rightarrow>
                      if solved (ans_status a2) then ((x, a2), w3) else ((x, a), w3))))))"

text \<open>\<open>[Assignment(...) for (di, si), v in x.items() if solver.Value(v)]\<close>.\<close>

definition assignments_of :: "SoldierInput list \<Rightarrow> DutyBlock list \<Rightarrow> (nat \<times> nat) list
    \<Rightarrow> cp_answer \<Rightarrow> Assignment list" where
  "assignments_of soldiers duties x a =
     map (\<lambda>(di, si). \<lparr>a_duty_id = d_id (duties ! di), a_soldier_id = s_id (soldiers ! si)\<rparr>)
       (chosen (ans_value a) x)"

definition plain_result :: "SolverSettings \<Rightarrow> Assignment list \<Rightarrow> outcome
    \<Rightarrow> relax_label list \<Rightarrow> SolverResult" where
  "plain_result settings assignments status relaxed =
     \<lparr>r_assignments = assignments, r_status = status, r_objective_value = None,
      r_seed = seed_of settings, r_relaxed = relaxed, r_batch_results = [],
      r_relaxed_node_quotas = []\<rparr>"

section \<open>Soft coverage\<close>

definition solve_soft_coverage :: "'w env \<Rightarrow> SoldierInput list \<Rightarrow> DutyBlock list
    \<Rightarrow> ExistingAssignment list \<Rightarrow> SolverSettings \<Rightarrow> reserve_dists option
    \<Rightarrow> 'w \<Rightarrow> SolverResult \<times> 'w" where
  "solve_soft_coverage env soldiers duties existing settings reserve_dist w =
     (case build_model Soft soldiers duties existing settings reserve_dist of (model, x, terms) \<Rightarrow>
      (let covered = lsum (map (\<lambda>(di, si). lvar (X di si)) x);
           model1 = model\<lparr>cp_objective := Maximize covered\<rparr>
       in (case cp_solve env model1 (params_of settings) w of (st1, w1) \<Rightarrow>
          (case cancel_is_set env w1 of (cancelled, w2) \<Rightarrow>
             if cancelled then (plain_result settings [] CANCELLED [], w2)
             else if \<not> solved (ans_status st1) then (plain_result settings [] FEASIBLE [], w2)
             else
               (let best = ans_objective st1;
                    stage1_assignments = assignments_of soldiers duties x st1;
                    model2 = (if x \<noteq> [] then add_cons [Le (lconst best) covered] model1 else model1);
                    model3 = fst (build_fairness_objective 1 model2 x duties settings
                                    reserve_dist terms)
                in (case cp_solve env model3 (params_of settings) w2 of (st2, w3) \<Rightarrow>
                   (case cancel_is_set env w3 of (cancelled2, w4) \<Rightarrow>
                      if cancelled2 then (plain_result settings [] CANCELLED [], w4)
                      else
                        (let assignments = (if solved (ans_status st2)
                               then assignments_of soldiers duties x st2
                               else stage1_assignments)
                         in (plain_result settings (sort_key a_duty_id assignments) FEASIBLE [],
                             w4)))))))))"

section \<open>The relaxation chain\<close>

fun status_name :: "cp_status \<Rightarrow> outcome" where
  "status_name Cp_optimal = OPTIMAL"
| "status_name Cp_feasible = FEASIBLE"
| "status_name _ = INFEASIBLE"

text \<open>
  One attempt.  The callback gets the number of the attempt, \<open>max_attempts\<close> and the last
  label (None is the label for the base).  A status that is neither OPTIMAL, FEASIBLE nor
  INFEASIBLE is a cancellation only when the event says so.
\<close>

definition chain_attempt :: "'w env \<Rightarrow> SoldierInput list \<Rightarrow> DutyBlock list
    \<Rightarrow> ExistingAssignment list \<Rightarrow> reserve_dists option \<Rightarrow> int \<Rightarrow> SolverSettings
    \<Rightarrow> relax_label list \<Rightarrow> int \<Rightarrow> 'w \<Rightarrow> (((nat \<times> nat) list \<times> cp_answer) \<times> bool) \<times> 'w" where
  "chain_attempt env soldiers duties existing reserve_dist attempts_max current relaxed attempt w =
     (let w0 = notify env (Relax_attempt attempt attempts_max
                 (if relaxed = [] then None else Some (last relaxed))) w
      in (case solve_with_settings env soldiers duties existing current reserve_dist w0 of
            ((x, a), w1) \<Rightarrow>
              if \<not> solved (ans_status a) \<and> ans_status a \<noteq> Cp_infeasible then
                (case cancel_is_set env w1 of (cancelled, w2) \<Rightarrow> (((x, a), cancelled), w2))
              else (((x, a), False), w1)))"

function chain_loop :: "'w env \<Rightarrow> SoldierInput list \<Rightarrow> DutyBlock list
    \<Rightarrow> ExistingAssignment list \<Rightarrow> reserve_dists option \<Rightarrow> int \<Rightarrow> SolverSettings
    \<Rightarrow> relax_label list \<Rightarrow> int \<Rightarrow> 'w \<Rightarrow> SolverResult \<times> 'w" where
  "chain_loop env soldiers duties existing reserve_dist attempts_max current relaxed attempt w =
     (case chain_attempt env soldiers duties existing reserve_dist attempts_max current relaxed attempt w of
        (((x, a), cancelled), w1) \<Rightarrow>
          if cancelled then (plain_result current [] CANCELLED relaxed, w1)
          else if \<not> solved (ans_status a) then
            (case relax_step current of
               Some (label, next) \<Rightarrow>
                 chain_loop env soldiers duties existing reserve_dist attempts_max next
                   (relaxed @ [label]) (attempt + 1) w1
             | None \<Rightarrow> (plain_result current [] INFEASIBLE relaxed, w1))
          else
            ((plain_result current (sort_key a_duty_id (assignments_of soldiers duties x a))
                (status_name (ans_status a)) relaxed)
               \<lparr>r_objective_value := Some (ans_objective a)\<rparr>, w1))"
  by pat_completeness auto
termination
  by (relation "measure (\<lambda>(_, _, _, _, _, _, s, _, _, _). relax_gap s)") (auto dest: relax_step_gap)

declare chain_loop.simps [simp del]

definition infeasibility_relaxation_chain :: "'w env \<Rightarrow> SoldierInput list \<Rightarrow> DutyBlock list
    \<Rightarrow> ExistingAssignment list \<Rightarrow> SolverSettings \<Rightarrow> reserve_dists option
    \<Rightarrow> 'w \<Rightarrow> SolverResult \<times> 'w" where
  "infeasibility_relaxation_chain env soldiers duties existing settings reserve_dist w =
     chain_loop env soldiers duties existing reserve_dist (max_attempts settings) settings [] 1 w"

end
