(* ===== verification/Carry.thy ===== *)
theory Carry
  imports Schedule Attempts
begin

text \<open>
  The state the batch loops share: the bookings so far (\<open>carry_existing\<close>) and the
  working copies of the soldiers, whose effort grows with every duty.  \<open>batch_solver\<close>
  is the contract of one solve; what the loops need is proved from it once, and the
  procedures of Attempts are shown to be batch solvers.
\<close>

section \<open>Feeding assignments forward\<close>

definition booking :: "Assignment \<Rightarrow> DutyBlock \<Rightarrow> ExistingAssignment" where
  "booking a d = \<lparr>e_soldier_id = a_soldier_id a, e_duty_type_id = d_duty_type_id d,
     e_start_date = d_start_date d, e_end_date = d_end_date d, e_is_reserve = d_is_reserve d,
     e_rest_hours = 0, e_rest_effective_end_date = None, e_rest_effective_end_time = (23, 59)\<rparr>"

text \<open>\<open>soldier_by_id\<close> holds references into \<open>work\<close>; here it gives the index.\<close>

definition soldier_index_by_id :: "SoldierInput list \<Rightarrow> uuid \<Rightarrow> nat option" where
  "soldier_index_by_id work i =
     dict_get (fold (\<lambda>(k, s) m. dict_set m (s_id s) k) (indexed work) []) i"

definition add_effort :: "SoldierInput list \<Rightarrow> nat \<Rightarrow> DutyBlock \<Rightarrow> SoldierInput list" where
  "add_effort work k d =
     work[k := (work ! k)\<lparr>s_effort_offset := s_effort_offset (work ! k)
                             + s_effort_per_milli (work ! k) * block_score d\<rparr>]"

definition absorb_one :: "DutyBlock list \<Rightarrow> ExistingAssignment list \<times> SoldierInput list
    \<Rightarrow> Assignment \<Rightarrow> (ExistingAssignment list \<times> SoldierInput list) option" where
  "absorb_one duties st a =
     (case st of (carry, work) \<Rightarrow>
       (case duty_by_id duties (a_duty_id a) of None \<Rightarrow> None
        | Some d \<Rightarrow>
           (case soldier_index_by_id work (a_soldier_id a) of None \<Rightarrow> None
            | Some k \<Rightarrow> Some (carry @ [booking a d], add_effort work k d))))"

definition absorb :: "DutyBlock list \<Rightarrow> ExistingAssignment list \<times> SoldierInput list
    \<Rightarrow> Assignment list \<Rightarrow> (ExistingAssignment list \<times> SoldierInput list) option" where
  "absorb duties st as = each (absorb_one duties) st as"

section \<open>Soldiers up to effort\<close>

definition same_but_effort :: "SoldierInput list \<Rightarrow> SoldierInput list \<Rightarrow> bool" where
  "same_but_effort ss work \<longleftrightarrow>
     list_all2 (\<lambda>s s'. s' = s\<lparr>s_effort_offset := s_effort_offset s'\<rparr>) ss work"

lemma same_but_effort_refl [simp]: "same_but_effort ss ss"
  by (simp add: same_but_effort_def list_all2_same)

lemma effort_copy:
  "(s'::SoldierInput) = s\<lparr>s_effort_offset := s_effort_offset s'\<rparr> \<longleftrightarrow> (\<exists>e. s' = s\<lparr>s_effort_offset := e\<rparr>)"
proof
  assume "\<exists>e. s' = s\<lparr>s_effort_offset := e\<rparr>"
  then obtain e where e: "s' = s\<lparr>s_effort_offset := e\<rparr>" ..
  show "s' = s\<lparr>s_effort_offset := s_effort_offset s'\<rparr>" by (subst (2) e) (simp add: e)
qed (rule exI)

lemma same_but_effort_length: "same_but_effort ss work \<Longrightarrow> length work = length ss"
  by (simp add: same_but_effort_def list_all2_lengthD)

lemma same_but_effort_nth:
  assumes "same_but_effort ss work" "i < length ss"
  obtains e where "work ! i = (ss ! i)\<lparr>s_effort_offset := e\<rparr>"
  using assms effort_copy unfolding same_but_effort_def list_all2_conv_all_nth by blast

lemma same_but_effort_id:
  "same_but_effort ss work \<Longrightarrow> i < length ss \<Longrightarrow> s_id (work ! i) = s_id (ss ! i)"
  by (metis same_but_effort_nth SoldierInput.select_convs(1) SoldierInput.surjective
      SoldierInput.update_convs(13))

lemma same_but_effort_ids:
  assumes "same_but_effort ss work"
  shows "map s_id work = map s_id ss"
  using same_but_effort_length [OF assms] same_but_effort_id [OF assms]
  by (intro nth_equalityI) simp_all

lemma may_serve_effort [simp]: "may_serve w (s\<lparr>s_effort_offset := e\<rparr>) d = may_serve w s d"
  by (simp add: may_serve_def on_leave_def)

lemma same_but_effort_serve:
  "same_but_effort ss work \<Longrightarrow> i < length ss \<Longrightarrow> may_serve w (work ! i) d = may_serve w (ss ! i) d"
  by (metis same_but_effort_nth may_serve_effort)

lemma same_but_effort_able:
  assumes "same_but_effort ss work"
  shows "able w work sid d \<longleftrightarrow> able w ss sid d"
  unfolding able_def
  using same_but_effort_length [OF assms] same_but_effort_id [OF assms] same_but_effort_serve [OF assms]
  by (metis in_set_conv_nth)

lemma same_but_effort_add:
  assumes "same_but_effort ss work"
  shows "same_but_effort ss (add_effort work k d)"
proof -
  have "\<exists>e. add_effort work k d ! i = (ss ! i)\<lparr>s_effort_offset := e\<rparr>"
    if i: "i < length ss" for i
  proof -
    obtain e where e: "work ! i = (ss ! i)\<lparr>s_effort_offset := e\<rparr>"
      by (rule same_but_effort_nth [OF assms i])
    have len: "i < length work" using i assms by (simp add: same_but_effort_length)
    show ?thesis
    proof (cases "i = k")
      case True
      then have "add_effort work k d ! i = (work ! i)\<lparr>s_effort_offset := s_effort_offset (work ! k)
          + s_effort_per_milli (work ! k) * block_score d\<rparr>"
        using len by (simp add: add_effort_def)
      then show ?thesis unfolding e by auto
    next
      case False
      then have "add_effort work k d ! i = work ! i" by (simp add: add_effort_def)
      then show ?thesis unfolding e by blast
    qed
  qed
  moreover have "length (add_effort work k d) = length ss"
    using assms by (simp add: add_effort_def same_but_effort_length)
  ultimately show ?thesis
    unfolding same_but_effort_def list_all2_conv_all_nth using effort_copy by metis
qed

lemma same_but_effort_map:
  "same_but_effort ss work \<Longrightarrow> list_all (\<lambda>i. i < length ss) is
     \<Longrightarrow> map (\<lambda>i. s_id (work ! i)) is = map (\<lambda>i. s_id (ss ! i)) is"
  by (auto simp: list_all_iff same_but_effort_id)

section \<open>Absorbing keeps the books\<close>

lemma soldier_index_fold:
  "fst ` set (fold (\<lambda>(k, s) m. dict_set m (s_id s) k) xs m) = fst ` set m \<union> (s_id \<circ> snd) ` set xs"
  by (induction xs arbitrary: m) (simp_all add: case_prod_beta insert_commute Un_commute)

lemma soldier_index_total: "i \<in> s_id ` set work \<Longrightarrow> \<exists>k. soldier_index_by_id work i = Some k"
proof -
  assume "i \<in> s_id ` set work"
  then have "i \<in> (s_id \<circ> snd) ` set (indexed work)"
    by (force simp: set_indexed in_set_conv_nth image_iff)
  then have "i \<in> fst ` set (fold (\<lambda>(k, s) m. dict_set m (s_id s) k) (indexed work) [])"
    by (simp add: soldier_index_fold)
  then show ?thesis
    unfolding soldier_index_by_id_def dict_get_def by (force simp: weak_map_of_SomeI)
qed

lemma carries_booking:
  assumes "distinct (map d_id ds)" "duty_by_id ds (a_duty_id a) = Some d"
  shows "carries carry (placed ds [a]) (carry @ [booking a d])"
proof -
  have d: "d \<in> set ds" "d_id d = a_duty_id a" using duty_by_id_Some [OF assms(2)] by simp_all
  have "d' = d" if "d' \<in> set ds" "a_duty_id a = d_id d'" for d'
    using that d assms(1) unfolding distinct_map by (metis inj_onD)
  then have p: "placed ds [a] = {(d, a_soldier_id a)}"
    using d(1) d(2) [symmetric] unfolding placed_def by fastforce
  have "booked (existing_for r (carry @ [booking a d])) sid
      = booked (existing_for r carry) sid \<union> booked (existing_for r [booking a d]) sid" for r sid
    by (auto simp: existing_for_def existing_real_def booked_append)
  moreover have "booked (existing_for r [booking a d]) sid = worked r (placed ds [a]) sid" for r sid
    by (auto simp: p worked_def booked_def existing_for_def existing_real_def booking_def
        existing_days_def duty_days_def)
  ultimately show ?thesis by (simp add: carries_def)
qed

lemma placed_Nil [simp]: "placed ds [] = {}"
  by (simp add: placed_def)

lemma placed_append: "placed ds (as @ bs) = placed ds as \<union> placed ds bs"
  by (auto simp: placed_def)

lemma placed_Cons: "placed ds (a # as) = placed ds [a] \<union> placed ds as"
  using placed_append [of ds "[a]" as] by simp

lemma absorb_carries:
  assumes "distinct (map d_id ds)" "a_duty_id ` set as \<subseteq> d_id ` set ds"
    and "same_but_effort ss work" "a_soldier_id ` set as \<subseteq> s_id ` set ss"
  shows "\<exists>carry' work'. absorb ds (carry, work) as = Some (carry', work')
    \<and> carries carry (placed ds as) carry' \<and> same_but_effort ss work'"
  using assms
proof (induction as arbitrary: carry work)
  case (Cons a as)
  obtain d where d: "duty_by_id ds (a_duty_id a) = Some d"
    using Cons.prems(2) duty_by_id_total [of "a_duty_id a" ds] by auto
  have "s_id ` set work = s_id ` set ss"
    using same_but_effort_ids [OF Cons.prems(3)] by (metis set_map)
  then obtain k where k: "soldier_index_by_id work (a_soldier_id a) = Some k"
    using Cons.prems(4) soldier_index_total [of "a_soldier_id a" work] by auto
  have rest: "a_duty_id ` set as \<subseteq> d_id ` set ds" "a_soldier_id ` set as \<subseteq> s_id ` set ss"
    using Cons.prems(2,4) by simp_all
  obtain carry' work' where
    r: "absorb ds (carry @ [booking a d], add_effort work k d) as = Some (carry', work')"
      "carries (carry @ [booking a d]) (placed ds as) carry'" "same_but_effort ss work'"
    using Cons.IH [OF Cons.prems(1) rest(1) same_but_effort_add [OF Cons.prems(3)] rest(2)] by blast
  have "carries carry (placed ds [a] \<union> placed ds as) carry'"
    using carries_trans [OF carries_booking [OF Cons.prems(1) d] r(2)] .
  with r show ?case
    unfolding placed_Cons [of ds a as] by (simp add: absorb_def absorb_one_def d k)
qed (simp add: absorb_def)

end
