(* ===== verification/Contracts.thy ===== *)
theory Contracts
  imports Carry
begin

text \<open>
  The contract of one solve, as the locale \<open>batch_solver\<close>, with what the loops of
  Solver use of it, and its interpretations: the relaxation chain and soft coverage.
\<close>

section \<open>The contract\<close>

definition problem_ok :: "SolverSettings \<Rightarrow> SoldierInput list \<Rightarrow> DutyBlock list \<Rightarrow> bool" where
  "problem_ok st ss ds \<longleftrightarrow> distinct (map s_id ss) \<and> distinct (map d_id ds) \<and> clocks_ok ds
     \<and> 0 < Wt st \<and> 0 < Wr st"

definition T_limit :: "SolverSettings \<Rightarrow> int" where
  "T_limit st = max (T_cap st) (relax_t_ceiling st)"

definition R_limit :: "SolverSettings \<Rightarrow> int" where
  "R_limit st = max (R_cap st) (relax_r_ceiling st)"

definition names_ok :: "SoldierInput list \<Rightarrow> DutyBlock list \<Rightarrow> Assignment list \<Rightarrow> bool" where
  "names_ok ss ds as \<longleftrightarrow> a_duty_id ` set as \<subseteq> d_id ` set ds
     \<and> a_soldier_id ` set as \<subseteq> s_id ` set ss \<and> distinct (map a_duty_id as)"

definition assignments_ok :: "SolverSettings \<Rightarrow> SoldierInput list \<Rightarrow> DutyBlock list
    \<Rightarrow> ExistingAssignment list \<Rightarrow> Assignment list \<Rightarrow> bool" where
  "assignments_ok st ss ds ex as \<longleftrightarrow> names_ok ss ds as
     \<and> schedule_ok (T_limit st) (R_limit st) st ss ds ex (placed ds as)"

lemma assignments_ok_Nil [simp]: "assignments_ok st ss ds ex []"
  by (simp add: assignments_ok_def names_ok_def)

definition tightens :: "SolverSettings \<Rightarrow> SolverSettings \<Rightarrow> bool" where
  "tightens st st' \<longleftrightarrow> Wt st' = Wt st \<and> Wr st' = Wr st
     \<and> enforce_weapon_qualification st' = enforce_weapon_qualification st
     \<and> T_limit st' \<le> T_limit st \<and> R_limit st' \<le> R_limit st"

lemma assignments_ok_tightens:
  "tightens st st' \<Longrightarrow> assignments_ok st' ss ds ex as \<Longrightarrow> assignments_ok st ss ds ex as"
  unfolding tightens_def assignments_ok_def
  using schedule_ok_mono [of "T_limit st'" "R_limit st'" st ss ds ex "placed ds as"]
  by (auto simp: schedule_ok_def)

lemma tightens_refl [simp]: "tightens st st"
  by (simp add: tightens_def)

lemma relaxes_tightens: "relaxes st st' \<Longrightarrow> tightens st st'"
  by (auto simp: relaxes_def tightens_def same_but_caps_fields T_limit_def R_limit_def)

lemma problem_ok_tightens: "tightens st st' \<Longrightarrow> problem_ok st' ss ds = problem_ok st ss ds"
  by (simp add: tightens_def problem_ok_def)

text \<open>What a run that may raise promises: it does not, and its assignments are a schedule.\<close>

definition run_spec :: "SolverSettings \<Rightarrow> SoldierInput list \<Rightarrow> DutyBlock list
    \<Rightarrow> ExistingAssignment list \<Rightarrow> SolverResult option \<Rightarrow> bool" where
  "run_spec st ss ds ex r = (case r of None \<Rightarrow> False
     | Some res \<Rightarrow> assignments_ok st ss ds ex (r_assignments res))"

locale batch_solver =
  fixes run :: "'w env \<Rightarrow> SoldierInput list \<Rightarrow> DutyBlock list \<Rightarrow> ExistingAssignment list
    \<Rightarrow> SolverSettings \<Rightarrow> reserve_dists option \<Rightarrow> 'w \<Rightarrow> SolverResult \<times> 'w"
  assumes run_ok: "cp_sound env \<Longrightarrow> problem_ok st ss ds
    \<Longrightarrow> ensures (run env ss ds ex st rd) (\<lambda>r. assignments_ok st ss ds ex (r_assignments r))"

section \<open>Carried state\<close>

text \<open>
  \<open>carry_ok\<close>: the assignments \<open>as\<close> so far are a schedule of the whole problem,
  \<open>carry\<close> books them and \<open>work\<close> are the soldiers with more effort.
\<close>

definition carry_ok :: "SolverSettings \<Rightarrow> SoldierInput list \<Rightarrow> DutyBlock list
    \<Rightarrow> ExistingAssignment list \<Rightarrow> Assignment list
    \<Rightarrow> ExistingAssignment list \<times> SoldierInput list \<Rightarrow> bool" where
  "carry_ok st ss ds ex as c \<longleftrightarrow> assignments_ok st ss ds ex as
     \<and> carries ex (placed ds as) (fst c) \<and> same_but_effort ss (snd c)"

lemma carry_ok_start: "carry_ok st ss ds ex [] (ex, ss)"
  by (simp add: carry_ok_def)

lemma placed_sub:
  assumes "set sub \<subseteq> set ds" "distinct (map d_id ds)" "a_duty_id ` set as \<subseteq> d_id ` set sub"
  shows "placed sub as = placed ds as"
proof -
  have "d \<in> set sub" if "d \<in> set ds" "a \<in> set as" "a_duty_id a = d_id d" for d a
  proof -
    obtain d' where "d' \<in> set sub" "a_duty_id a = d_id d'" using assms(3) \<open>a \<in> set as\<close> by auto
    then have "d' = d"
      using that assms(1,2) unfolding distinct_map by (metis inj_onD subsetD)
    then show ?thesis using \<open>d' \<in> set sub\<close> by simp
  qed
  with assms(1) have "d \<in> set sub \<and> a \<in> set as \<and> a_duty_id a = d_id d
      \<longleftrightarrow> d \<in> set ds \<and> a \<in> set as \<and> a_duty_id a = d_id d" for d a
    by blast
  then show ?thesis by (simp add: placed_def)
qed

lemma schedule_ok_sub:
  assumes "schedule_ok Tc Rc st sub_s sub_d ex P" "set sub_d \<subseteq> set ds"
    and "\<And>sid d. able (enforce_weapon_qualification st) sub_s sid d
           \<Longrightarrow> able (enforce_weapon_qualification st) ss sid d"
  shows "schedule_ok Tc Rc st ss ds ex P"
  using assms unfolding schedule_ok_def by (auto split: prod.splits)

lemma problem_ok_sub:
  assumes "problem_ok st ss ds" "same_but_effort ss work" "distinct is" "list_all (\<lambda>i. i < length ss) is"
    and "set sub \<subseteq> set ds" "distinct (map d_id sub)"
  shows "problem_ok st (map (\<lambda>i. work ! i) is) sub"
proof -
  have s: "map s_id (map (\<lambda>i. work ! i) is) = map (\<lambda>i. map s_id ss ! i) is"
    using assms(2,4) by (auto simp: list_all_iff same_but_effort_id)
  have d: "distinct (map (\<lambda>i. map s_id ss ! i) is)"
    using assms(1,3,4) unfolding problem_ok_def distinct_map [of _ "is"]
    by (auto simp: inj_on_def list_all_iff dest: index_by_key)
  show ?thesis
    using assms(1,5,6) d unfolding problem_ok_def s by (auto simp: clocks_ok_def list_all_iff)
qed

lemma able_sub:
  assumes "same_but_effort ss work" "list_all (\<lambda>i. i < length ss) is"
    and "able w (map (\<lambda>i. work ! i) is) sid d"
  shows "able w ss sid d"
proof -
  have "set (map (\<lambda>i. work ! i) is) \<subseteq> set work"
    using assms(1,2) by (auto simp: list_all_iff same_but_effort_length)
  with assms(3) have "able w work sid d" by (rule able_subset)
  then show ?thesis by (simp only: same_but_effort_able [OF assms(1)])
qed

lemma carry_ok_extend:
  assumes c: "carry_ok st ss ds ex as (carry, work)" and prob: "problem_ok st ss ds"
    and idx: "list_all (\<lambda>i. i < length ss) is"
    and sub: "set sub \<subseteq> set ds" "a_duty_id ` set as \<inter> d_id ` set sub = {}"
    and new: "assignments_ok st (map (\<lambda>i. work ! i) is) sub carry new"
  shows "\<exists>c'. absorb ds (carry, work) new = Some c' \<and> carry_ok st ss ds ex (as @ new) c'"
proof -
  have eff: "same_but_effort ss work" and ids: "distinct (map d_id ds)"
    using c prob by (simp_all add: carry_ok_def problem_ok_def)
  have "set (map (\<lambda>i. work ! i) is) \<subseteq> set work"
    using eff idx by (auto simp: list_all_iff same_but_effort_length)
  then have "s_id ` set (map (\<lambda>i. work ! i) is) \<subseteq> s_id ` set ss"
    using arg_cong [OF same_but_effort_ids [OF eff], of set] unfolding set_map [of s_id]
    by blast
  then have soldiers: "a_soldier_id ` set new \<subseteq> s_id ` set ss"
    using new unfolding assignments_ok_def names_ok_def by blast
  have new_sub: "a_duty_id ` set new \<subseteq> d_id ` set sub" "distinct (map a_duty_id new)"
    using new by (simp_all add: assignments_ok_def names_ok_def)
  then have duties: "a_duty_id ` set new \<subseteq> d_id ` set ds" using sub(1) by blast
  have p: "placed sub new = placed ds new" by (rule placed_sub [OF sub(1) ids new_sub(1)])
  have "schedule_ok (T_limit st) (R_limit st) st ss ds carry (placed ds new)"
    using new able_sub [OF eff idx] sub(1) unfolding assignments_ok_def p
    by (blast intro: schedule_ok_sub)
  moreover have "fst ` placed ds as \<inter> fst ` placed ds new = {}"
  proof -
    have "d_id d \<in> a_duty_id ` set as" if "d \<in> fst ` placed ds as" for d
      using that by (auto simp: placed_def image_iff dest: sym)
    moreover have "d_id d \<in> d_id ` set sub" if "d \<in> fst ` placed ds new" for d
      using that new_sub(1) by (auto simp: placed_def image_iff dest: sym)
    ultimately show ?thesis using sub(2) by blast
  qed
  ultimately have sched: "schedule_ok (T_limit st) (R_limit st) st ss ds ex (placed ds (as @ new))"
    using c schedule_extend unfolding placed_append carry_ok_def assignments_ok_def by fastforce
  have "a_duty_id ` set as \<inter> a_duty_id ` set new = {}" using sub(2) new_sub(1) by blast
  then have "names_ok ss ds (as @ new)"
    using c soldiers duties new_sub(2)
    unfolding carry_ok_def assignments_ok_def names_ok_def by (simp add: image_Un)
  moreover obtain carry' work' where "absorb ds (carry, work) new = Some (carry', work')"
      "carries carry (placed ds new) carry'" "same_but_effort ss work'"
    using absorb_carries [OF ids duties eff soldiers] by blast
  moreover have "carries ex (placed ds (as @ new)) carry'"
    using c calculation(3) carries_trans unfolding placed_append carry_ok_def by auto
  ultimately show ?thesis using sched by (auto simp: carry_ok_def assignments_ok_def)
qed

context batch_solver begin

text \<open>One batch over the carried state.\<close>

lemma run_batch:
  assumes "cp_sound env" "carry_ok st ss ds ex as (carry, work)" "problem_ok st ss ds"
    and "distinct is" "list_all (\<lambda>i. i < length ss) is"
    and "set sub \<subseteq> set ds" "distinct (map d_id sub)" "a_duty_id ` set as \<inter> d_id ` set sub = {}"
    and "tightens st st'"
  shows "ensures (run env (map (\<lambda>i. work ! i) is) sub carry st' rd)
    (\<lambda>r. a_duty_id ` set (r_assignments r) \<subseteq> d_id ` set sub
       \<and> (\<exists>c'. absorb ds (carry, work) (r_assignments r) = Some c'
            \<and> carry_ok st ss ds ex (as @ r_assignments r) c'))"
proof (rule ensures_weaken)
  have "problem_ok st (map (\<lambda>i. work ! i) is) sub"
    using problem_ok_sub [OF assms(3) _ assms(4-7)] assms(2) by (simp add: carry_ok_def)
  then have prob: "problem_ok st' (map (\<lambda>i. work ! i) is) sub"
    using problem_ok_tightens [OF assms(9)] by blast
  show "ensures (run env (map (\<lambda>i. work ! i) is) sub carry st' rd)
      (\<lambda>r. assignments_ok st' (map (\<lambda>i. work ! i) is) sub carry (r_assignments r))"
    by (rule run_ok [OF assms(1) prob])
  fix r assume "assignments_ok st' (map (\<lambda>i. work ! i) is) sub carry (r_assignments r)"
  then have ok: "assignments_ok st (map (\<lambda>i. work ! i) is) sub carry (r_assignments r)"
    by (rule assignments_ok_tightens [OF assms(9)])
  then show "a_duty_id ` set (r_assignments r) \<subseteq> d_id ` set sub
       \<and> (\<exists>c'. absorb ds (carry, work) (r_assignments r) = Some c'
            \<and> carry_ok st ss ds ex (as @ r_assignments r) c')"
    using carry_ok_extend [OF assms(2,3,5,6,8) ok]
    by (simp add: assignments_ok_def names_ok_def)
qed

end

section \<open>Reading a solution\<close>

lemma solution_ok:
  assumes f: "feasible (base_model cov ss ds ex st (eligible_pairs ss ds st)) (ans_value a)"
    and prob: "problem_ok st ss ds"
    and perm: "mset as = mset (assignments_of ss ds (eligible_pairs ss ds st) a)"
  shows "names_ok ss ds as" "schedule_ok (T_cap st) (R_cap st) st ss ds ex (placed ds as)"
proof -
  let ?el = "eligible_pairs ss ds st"
  let ?A = "set (chosen (ans_value a) ?el)"
  let ?f = "\<lambda>(di, si). \<lparr>a_duty_id = d_id (ds ! di), a_soldier_id = s_id (ss ! si)\<rparr>"
  have legal: "legal st ss ds ex ?A"
    using f prob by (intro hard_cons_legal) (auto simp: feasible_base_parts problem_ok_def)
  have idx: "di < length ds \<and> si < length ss" if "(di, si) \<in> ?A" for di si
    using that by (simp add: mem_eligible_pairs)
  have set: "set as = ?f ` ?A"
    using arg_cong [OF perm, of set_mset] by (simp add: assignments_of_def)
  have "placed ds as = choice_placed ss ds ?A"
    by (rule placed_choice) (use idx prob set in \<open>auto simp: problem_ok_def\<close>)
  then show "schedule_ok (T_cap st) (R_cap st) st ss ds ex (placed ds as)"
    using legal_schedule [OF legal] prob by (simp add: problem_ok_def)
  have "distinct (map (\<lambda>p. d_id (ds ! fst p)) (chosen (ans_value a) ?el))"
  proof -
    have "inj_on (\<lambda>p. d_id (ds ! fst p)) ?A"
    proof (rule inj_onI)
      fix p q assume "p \<in> ?A" "q \<in> ?A" and eq: "d_id (ds ! fst p) = d_id (ds ! fst q)"
      then have m: "(fst p, snd p) \<in> ?A" "(fst q, snd q) \<in> ?A" by simp_all
      have "fst p = fst q"
        by (rule index_by_key [OF _ _ _ eq])
          (use prob idx [OF m(1)] idx [OF m(2)] in \<open>simp_all add: problem_ok_def\<close>)
      moreover have "snd p = snd q"
        using legal m calculation unfolding legal_def one_per_duty_def by metis
      ultimately show "p = q" by (rule prod_eqI)
    qed
    then show ?thesis by (simp add: distinct_map chosen_def)
  qed
  then have "distinct (map a_duty_id (assignments_of ss ds ?el a))"
    by (simp add: assignments_of_def comp_def case_prod_beta)
  then have "distinct (map a_duty_id as)"
    using perm by (metis mset_eq_imp_distinct_iff mset_map)
  then show "names_ok ss ds as"
    using idx unfolding names_ok_def set by fastforce
qed

lemma cap_limits: "T_cap st \<le> T_limit st" "R_cap st \<le> R_limit st"
  by (simp_all add: T_limit_def R_limit_def)

lemma solution_assignments:
  assumes "feasible (base_model cov ss ds ex st (eligible_pairs ss ds st)) (ans_value a)"
    and "problem_ok st ss ds"
    and "mset as = mset (assignments_of ss ds (eligible_pairs ss ds st) a)"
  shows "assignments_ok st ss ds ex as"
  using solution_ok [OF assms] schedule_ok_mono [OF _ cap_limits] by (simp add: assignments_ok_def)

section \<open>The solves\<close>

text \<open>What \<open>_solve_with_settings\<close> returns.\<close>

definition solve_spec :: "SoldierInput list \<Rightarrow> DutyBlock list \<Rightarrow> ExistingAssignment list
    \<Rightarrow> SolverSettings \<Rightarrow> reserve_dists option \<Rightarrow> (nat \<times> nat) list \<times> cp_answer \<Rightarrow> bool" where
  "solve_spec ss ds ex st rd p \<longleftrightarrow> fst p = eligible_pairs ss ds st
     \<and> (solved (ans_status (snd p)) \<longrightarrow> feasible (base_model Hard ss ds ex st (fst p)) (ans_value (snd p)))
     \<and> (ans_status (snd p) = Cp_infeasible \<longrightarrow> (\<forall>v. \<not> feasible (fst (build_model Hard ss ds ex st rd)) v))"

lemma cp_solve_spec:
  "cp_sound env \<Longrightarrow> ensures (cp_solve env m p) (sound_answer m)"
  by (simp add: cp_sound_def ensures_def)

lemma sound_infeasible: "sound_answer m a \<Longrightarrow> ans_status a = Cp_infeasible \<Longrightarrow> \<not> feasible m v"
  by (simp add: sound_answer_def)

lemma sound_feasible: "sound_answer m a \<Longrightarrow> solved (ans_status a) \<Longrightarrow> feasible m (ans_value a)"
  by (simp add: sound_answer_def)

lemma build_model_cases:
  obtains model terms where "build_model cov ss ds ex st rd = (model, eligible_pairs ss ds st, terms)"
  using build_model_eligible [of cov ss ds ex st rd] by (metis prod.collapse)

lemma solve_with_settings_spec:
  assumes "cp_sound env"
  shows "ensures (solve_with_settings env ss ds ex st rd) (solve_spec ss ds ex st rd)"
proof -
  obtain model terms where b: "build_model Hard ss ds ex st rd = (model, eligible_pairs ss ds st, terms)"
    by (rule build_model_cases)
  have base: "feasible (base_model Hard ss ds ex st (eligible_pairs ss ds st)) v"
    if "feasible model v" for v using build_model_base [of Hard ss ds ex st rd v] that b by simp
  have first: "solve_spec ss ds ex st rd (eligible_pairs ss ds st, a)" if "sound_answer model a" for a
    using that base by (auto simp: solve_spec_def b sound_infeasible dest: sound_feasible)
  have second: "solve_spec ss ds ex st rd (eligible_pairs ss ds st, a)"
    if "sound_answer (apply_tiebreak_objective (model\<lparr>cp_hints := h\<rparr>) el ds st rd terms k) a"
      "solved (ans_status a)" for a h el k
  proof -
    have "feasible model (ans_value a)"
      using feasible_tiebreak_base [OF sound_feasible [OF that]] by simp
    then show ?thesis using base that(2) by (auto simp: solve_spec_def solved_def)
  qed
  show ?thesis
    unfolding solve_with_settings_def b prod.case Let_def
  proof (rule ensures_bind [OF cp_solve_spec [OF assms]])
    fix a assume a: "sound_answer model a"
    note ret = ensures_return [of "solve_spec ss ds ex st rd", OF first [OF a]]
    show "ensures (\<lambda>w1. if tiebreak_mode st = ''off'' \<or> dev_terms terms = []
        then ((eligible_pairs ss ds st, a), w1)
        else if \<not> solved (ans_status a) then ((eligible_pairs ss ds st, a), w1)
        else case cancel_is_set env w1 of (cancelled, w2) \<Rightarrow>
          if cancelled then ((eligible_pairs ss ds st, a), w2)
          else case cp_solve env
            (apply_tiebreak_objective
              (model\<lparr>cp_hints := map (\<lambda>(di, si). (X di si, ans_value a (X di si)))
                 (eligible_pairs ss ds st)\<rparr>)
              (eligible_pairs ss ds st) ds st rd terms (\<Sum>dv\<leftarrow>dev_terms terms. ans_value a dv))
            (params_of st\<lparr>max_time_in_seconds := tiebreak_time_limit_seconds st\<rparr>) w2 of
            (a2, w3) \<Rightarrow> if solved (ans_status a2) then ((eligible_pairs ss ds st, a2), w3)
              else ((eligible_pairs ss ds st, a), w3)) (solve_spec ss ds ex st rd)"
      by (intro ensures_if ret ensures_bind [of "cancel_is_set env" "\<lambda>_. True"]
          ensures_bind [OF cp_solve_spec [OF assms]] ensures_return second)
        (simp_all add: ensures_def)
  qed
qed

lemma soft_ok:
  assumes "cp_sound env" and prob: "problem_ok st ss ds"
  shows "ensures (solve_soft_coverage env ss ds ex st rd) (\<lambda>r. assignments_ok st ss ds ex (r_assignments r))"
proof -
  let ?el = "eligible_pairs ss ds st"
  let ?P = "\<lambda>r. assignments_ok st ss ds ex (r_assignments r)"
  let ?covered = "lsum (map (\<lambda>(di, si). lvar (X di si)) ?el)"
  obtain model terms where b: "build_model Soft ss ds ex st rd = (model, ?el, terms)"
    by (rule build_model_cases)
  let ?m1 = "model\<lparr>cp_objective := Maximize ?covered\<rparr>"
  have base: "feasible (base_model Soft ss ds ex st ?el) v" if "feasible model v" for v
    using build_model_base [of Soft ss ds ex st rd v] that b by simp
  have none: "?P (plain_result st [] status relaxed)" for status relaxed
    by (simp add: plain_result_def)
  have some: "?P (plain_result st (sort_key a_duty_id (assignments_of ss ds ?el a)) status relaxed)"
    if "feasible model (ans_value a)" for a status relaxed
    using solution_assignments [OF base [OF that] prob] by (simp add: plain_result_def)
  have cancel: "ensures (cancel_is_set env) (\<lambda>_. True)" by (simp add: ensures_def)
  have second: "feasible model (ans_value a)"
    if "sound_answer (fst (build_fairness_objective 1
          (if ?el \<noteq> [] then add_cons [Le (lconst k) ?covered] ?m1 else ?m1) ?el ds st rd terms)) a"
      "solved (ans_status a)" for a k
    using feasible_objective_base [OF sound_feasible [OF that]] by (simp split: if_splits)
  show ?thesis
    unfolding solve_soft_coverage_def b prod.case Let_def
  proof (intro ensures_bind [OF cp_solve_spec [OF assms(1)]] ensures_bind [OF cancel] ensures_if
      ensures_return none, goal_cases)
    case (1 a1 c1 a2 c2)
    have "feasible model (ans_value a1)"
      using sound_feasible [OF 1(1)] 1(4) by simp
    then show ?case using second [OF 1(5)] by (auto intro: some)
  qed
qed

text \<open>Hard coverage: every duty somebody may serve is assigned.\<close>

definition covers :: "bool \<Rightarrow> SoldierInput list \<Rightarrow> DutyBlock list \<Rightarrow> Assignment list \<Rightarrow> bool" where
  "covers w ss ds as \<longleftrightarrow> (\<forall>d \<in> set ds. (\<exists>s \<in> set ss. may_serve w s d) \<longrightarrow> d_id d \<in> a_duty_id ` set as)"

definition succeeded :: "SolverResult \<Rightarrow> bool" where
  "succeeded r \<longleftrightarrow> r_status r = OPTIMAL \<or> r_status r = FEASIBLE"

lemma solution_covers:
  assumes "feasible (base_model Hard ss ds ex st (eligible_pairs ss ds st)) (ans_value a)"
  shows "covers (enforce_weapon_qualification st) ss ds (assignments_of ss ds (eligible_pairs ss ds st) a)"
  unfolding covers_def
proof (intro ballI impI)
  let ?el = "eligible_pairs ss ds st"
  fix d assume "d \<in> set ds" "\<exists>s \<in> set ss. may_serve (enforce_weapon_qualification st) s d"
  then obtain di si where i: "di < length ds" "d = ds ! di" "(di, si) \<in> set ?el"
    by (auto simp: in_set_conv_nth [of _ ds] in_set_conv_nth [of _ ss] mem_eligible_pairs)
  have "list_all (holds (ans_value a)) (coverage_cons Hard ds ?el)"
    using assms by (simp add: feasible_base_parts hard_cons_def)
  from coverage_hard [OF this i(3,1)] obtain s where "(di, s) \<in> set (chosen (ans_value a) ?el)" ..
  then have "\<lparr>a_duty_id = d_id d, a_soldier_id = s_id (ss ! s)\<rparr> \<in> set (assignments_of ss ds ?el a)"
    unfolding assignments_of_def i(2) by force
  then show "d_id d \<in> a_duty_id ` set (assignments_of ss ds ?el a)" by force
qed

locale covering_solver = batch_solver +
  assumes run_covers: "cp_sound env \<Longrightarrow> ensures (run env ss ds ex st rd)
    (\<lambda>r. succeeded r \<longrightarrow> covers (enforce_weapon_qualification st) ss ds (r_assignments r))"

context covering_solver begin

lemma run_complete:
  assumes "cp_sound env" "problem_ok st ss ds"
    and "\<forall>d \<in> set ds. \<exists>s \<in> set ss. may_serve (enforce_weapon_qualification st) s d"
  shows "ensures (run env ss ds ex st rd)
    (\<lambda>r. succeeded r \<longrightarrow> length (r_assignments r) = length ds)"
proof (rule ensures_weaken [OF ensures_conj [OF run_ok [OF assms(1,2)] run_covers [OF assms(1)]]])
  fix r assume r: "assignments_ok st ss ds ex (r_assignments r)
    \<and> (succeeded r \<longrightarrow> covers (enforce_weapon_qualification st) ss ds (r_assignments r))"
  have len: "length (r_assignments r) = card (a_duty_id ` set (r_assignments r))"
    using r distinct_card [of "map a_duty_id (r_assignments r)"]
    by (simp add: assignments_ok_def names_ok_def)
  have "length ds = card (d_id ` set ds)"
    using assms(2) distinct_card [of "map d_id ds"] by (simp add: problem_ok_def)
  moreover have "a_duty_id ` set (r_assignments r) = d_id ` set ds" if "succeeded r"
    using r that assms(3) unfolding assignments_ok_def names_ok_def covers_def by auto
  ultimately show "succeeded r \<longrightarrow> length (r_assignments r) = length ds" using len by simp
qed

end

text \<open>The relaxation chain.\<close>

definition chain_spec :: "SolverSettings \<Rightarrow> SoldierInput list \<Rightarrow> DutyBlock list
    \<Rightarrow> ExistingAssignment list \<Rightarrow> SolverResult \<Rightarrow> bool" where
  "chain_spec st ss ds ex r \<longleftrightarrow>
     (problem_ok st ss ds \<longrightarrow> assignments_ok st ss ds ex (r_assignments r))
   \<and> (succeeded r \<longrightarrow> covers (enforce_weapon_qualification st) ss ds (r_assignments r))
   \<and> (\<not> succeeded r \<longrightarrow> r_assignments r = [])"

lemma chain_attempt_spec:
  assumes "cp_sound env"
  shows "ensures (chain_attempt env ss ds ex rd m st labels k) (\<lambda>p. solve_spec ss ds ex st rd (fst p))"
proof (rule ensuresI)
  fix w
  let ?w0 = "notify env (Relax_attempt k m (if labels = [] then None else Some (last labels))) w"
  obtain x a w1 where s: "solve_with_settings env ss ds ex st rd ?w0 = ((x, a), w1)"
    by (metis prod.collapse)
  then have "solve_spec ss ds ex st rd (x, a)"
    using ensures_fst [OF solve_with_settings_spec [OF assms] s] by simp
  then show "solve_spec ss ds ex st rd (fst (fst (chain_attempt env ss ds ex rd m st labels k w)))"
    by (simp add: chain_attempt_def Let_def s split: prod.split)
qed

lemma chain_success:
  assumes spec: "solve_spec ss ds ex st' rd (x, a)" and "solved (ans_status a)" "relaxes st st'"
  shows "chain_spec st ss ds ex
    ((plain_result st' (sort_key a_duty_id (assignments_of ss ds x a)) (status_name (ans_status a)) labels)
       \<lparr>r_objective_value := v\<rparr>)"
proof -
  have x: "x = eligible_pairs ss ds st'"
    and f: "feasible (base_model Hard ss ds ex st' (eligible_pairs ss ds st')) (ans_value a)"
    using assms(1,2) by (auto simp: solve_spec_def)
  have w: "enforce_weapon_qualification st' = enforce_weapon_qualification st"
    using assms(3) by (simp add: relaxes_def same_but_caps_fields)
  have t: "tightens st st'" by (rule relaxes_tightens [OF assms(3)])
  have "assignments_ok st ss ds ex (sort_key a_duty_id (assignments_of ss ds x a))"
    if "problem_ok st ss ds"
    unfolding x
    by (rule assignments_ok_tightens [OF t solution_assignments [OF f]])
      (use that problem_ok_tightens [OF t] in auto)
  moreover have "covers (enforce_weapon_qualification st) ss ds (sort_key a_duty_id (assignments_of ss ds x a))"
    using solution_covers [OF f] by (simp add: covers_def x w)
  moreover have "status_name (ans_status a) = OPTIMAL \<or> status_name (ans_status a) = FEASIBLE"
    using assms(2) by (auto simp: solved_def)
  ultimately show ?thesis by (simp add: chain_spec_def plain_result_def succeeded_def)
qed

lemma chain_loop_spec:
  assumes "cp_sound env" "relaxes st st'"
  shows "chain_spec st ss ds ex (fst (chain_loop env ss ds ex rd m st' labels k w))"
  using assms
proof (induction env ss ds ex rd m st' labels k w rule: chain_loop.induct)
  case (1 env ss ds ex rd m st' labels k w)
  obtain x a c w1 where s: "chain_attempt env ss ds ex rd m st' labels k w = (((x, a), c), w1)"
    by (metis prod.collapse)
  have spec: "solve_spec ss ds ex st' rd (x, a)"
    using ensures_fst [OF chain_attempt_spec [OF 1(2)] s] by simp
  have fail: "chain_spec st ss ds ex (plain_result st' [] o' labels)" if "o' \<noteq> OPTIMAL" "o' \<noteq> FEASIBLE" for o'
    using that by (simp add: chain_spec_def plain_result_def succeeded_def)
  show ?case
  proof (cases "\<not> c \<and> \<not> solved (ans_status a)")
    case False
    then show ?thesis
      using chain_success [OF spec _ 1(3)] fail
      by (subst chain_loop.simps) (auto simp: s)
  next
    case True
    show ?thesis
    proof (cases "relax_step st'")
      case None
      then show ?thesis using True fail by (subst chain_loop.simps) (simp add: s)
    next
      case (Some p)
      obtain l st2 where p: "p = (l, st2)" by (cases p)
      have step: "relax_step st' = Some (l, st2)" using Some p by simp
      have "relaxes st st2" by (rule relaxes_trans [OF 1(3) relax_step_relaxes [OF step]])
      then have "chain_spec st ss ds ex
          (fst (chain_loop env ss ds ex rd m st2 (labels @ [l]) (k + 1) w1))"
        using 1(1) [OF s [symmetric] refl refl] 1(2) True step by simp
      then show ?thesis using True step by (subst chain_loop.simps) (simp add: s)
    qed
  qed
qed

lemma chain_spec_ensures:
  "cp_sound env \<Longrightarrow> ensures (infeasibility_relaxation_chain env ss ds ex st rd) (chain_spec st ss ds ex)"
  unfolding infeasibility_relaxation_chain_def
  by (intro ensuresI chain_loop_spec) simp_all

interpretation soft: batch_solver solve_soft_coverage
  by unfold_locales (rule soft_ok)

interpretation chain: covering_solver infeasibility_relaxation_chain
  by unfold_locales (rule ensures_weaken [OF chain_spec_ensures], simp_all add: chain_spec_def)+

end
