(* ===== verification/Optimal.thy ===== *)
theory Optimal
  imports ModelComplete Contracts
begin

text \<open>
  What the solves decide, on top of the exactness of the model: a hard solve succeeds
  exactly when an acceptable choice exists, the relaxation chain stops at the first rung of
  the ladder that has one, and the soft-coverage solve assigns as many duties as any
  schedule can.  The search may answer UNKNOWN, so these hold of runs in which it does
  not: \<open>conclusive\<close> and the status of the first stage say so of the models at hand.
\<close>

section \<open>Settings along the ladder\<close>

lemma same_caps_efforts: "same_but_caps st st' \<Longrightarrow> efforts_ok st' ss ds = efforts_ok st ss ds"
  by (auto simp: same_but_caps_iff efforts_ok_def)

lemma same_caps_pairs: "same_but_caps st st' \<Longrightarrow> eligible_pairs ss ds st' = eligible_pairs ss ds st"
  by (auto simp: same_but_caps_iff eligible_pairs_def)

lemma same_caps_terms: "same_but_caps st st' \<Longrightarrow> fairness_terms ss ds st' el = fairness_terms ss ds st el"
  by (auto simp: same_but_caps_iff fairness_terms_def effort_range_def Let_def)

lemma same_caps_val: "same_but_caps st st' \<Longrightarrow> full_val st' ss ds A = full_val st ss ds A"
  by (simp add: full_val_def same_caps_pairs same_caps_terms)

lemma acceptable_relaxes:
  assumes "acceptable cov st ss ds ex A" "relaxes st st'"
  shows "acceptable cov st' ss ds ex A"
proof -
  have s: "same_but_caps st st'" using assms(2) by (rule relaxes_same)
  have f: "Wt st' = Wt st" "Wr st' = Wr st"
    "enforce_weapon_qualification st' = enforce_weapon_qualification st"
    using same_but_caps_fields [OF s] by simp_all
  have "cap_kept r c' W ss ds ex A" if "cap_kept r c W ss ds ex A" "c \<le> c'" for r c c' W
    using that unfolding cap_kept_def by (meson order_trans)
  moreover have "T_cap st \<le> T_cap st'" "R_cap st \<le> R_cap st'" using assms(2) by (auto simp: relaxes_def)
  ultimately show ?thesis
    using assms(1) same_caps_pairs [OF s]
    by (auto simp: acceptable_def legal_def f eligible_choice_def)
qed

definition inputs_ok :: "SolverSettings \<Rightarrow> SoldierInput list \<Rightarrow> DutyBlock list \<Rightarrow> bool" where
  "inputs_ok st ss ds \<longleftrightarrow> dates_ok ds \<and> clocks_ok ds \<and> efforts_ok st ss ds \<and> 0 < Wt st \<and> 0 < Wr st"

lemma inputs_ok_relaxes: "relaxes st st' \<Longrightarrow> inputs_ok st' ss ds = inputs_ok st ss ds"
  using same_but_caps_fields [OF relaxes_same] same_caps_efforts [OF relaxes_same]
  by (simp add: inputs_ok_def)

section \<open>One hard solve\<close>

definition satisfiable :: "SolverSettings \<Rightarrow> SoldierInput list \<Rightarrow> DutyBlock list
    \<Rightarrow> ExistingAssignment list \<Rightarrow> bool" where
  "satisfiable st ss ds ex \<longleftrightarrow> (\<exists>A. acceptable Hard st ss ds ex A)"

lemma satisfiable_relaxes: "satisfiable st ss ds ex \<Longrightarrow> relaxes st st' \<Longrightarrow> satisfiable st' ss ds ex"
  using acceptable_relaxes unfolding satisfiable_def by blast

lemma satisfiable_iff:
  assumes "inputs_ok st ss ds"
  shows "satisfiable st ss ds ex \<longleftrightarrow> (\<exists>v. feasible (fst (build_model Hard ss ds ex st rd)) v)"
  using build_model_exact [of ds st ss Hard ex rd] assms
  unfolding satisfiable_def inputs_ok_def by blast

definition conclusive :: "'w env \<Rightarrow> SoldierInput list \<Rightarrow> DutyBlock list \<Rightarrow> ExistingAssignment list
    \<Rightarrow> reserve_dists option \<Rightarrow> SolverSettings \<Rightarrow> bool" where
  "conclusive env ss ds ex rd st \<longleftrightarrow> (\<forall>w. let s = ans_status
       (fst (cp_solve env (fst (build_model Hard ss ds ex st rd)) (params_of st) w))
     in solved s \<or> s = Cp_infeasible)"

lemma solve_status:
  fixes env :: "'w env"
  assumes "cp_sound env" "inputs_ok st ss ds" "conclusive env ss ds ex rd st"
  shows "let s = ans_status (snd (fst (solve_with_settings env ss ds ex st rd w)))
    in (solved s \<longleftrightarrow> satisfiable st ss ds ex) \<and> (\<not> solved s \<longrightarrow> s = Cp_infeasible)"
proof -
  obtain model terms where b: "build_model Hard ss ds ex st rd = (model, eligible_pairs ss ds st, terms)"
    by (rule build_model_cases)
  obtain a w1 where s: "cp_solve env model (params_of st) w = (a, w1)" by (metis prod.collapse)
  have snd: "sound_answer model a" using ensures_fst [OF cp_solve_spec [OF assms(1)] s] .
  have "solved (ans_status a) \<or> ans_status a = Cp_infeasible"
    using assms(3) s by (auto simp: conclusive_def b Let_def dest: spec [of _ w])
  moreover have sat: "satisfiable st ss ds ex \<longleftrightarrow> (\<exists>v. feasible model v)"
    using satisfiable_iff [OF assms(2), of ex rd] b by simp
  ultimately have first: "(solved (ans_status a) \<longleftrightarrow> satisfiable st ss ds ex)
      \<and> (\<not> solved (ans_status a) \<longrightarrow> ans_status a = Cp_infeasible)"
    using snd sound_feasible [OF snd] sound_infeasible [OF snd] by (auto simp: solved_def)
  let ?s = "ans_status (snd (fst (solve_with_settings env ss ds ex st rd w)))"
  have "?s = ans_status a \<or> solved (ans_status a) \<and> solved ?s"
    by (auto simp: solve_with_settings_def b s Let_def split: prod.split)
  then show ?thesis using first by (auto simp: Let_def)
qed

section \<open>The chain stops at the first satisfiable rung\<close>

definition rungs :: "SolverSettings \<Rightarrow> relax_label list \<Rightarrow> (relax_label list \<times> SolverSettings) list" where
  "rungs st labels = (labels, st) # ladder_from st labels"

definition first_rung :: "SoldierInput list \<Rightarrow> DutyBlock list \<Rightarrow> ExistingAssignment list
    \<Rightarrow> (relax_label list \<times> SolverSettings) list \<Rightarrow> relax_label list option" where
  "first_rung ss ds ex xs = map_option fst (find (\<lambda>p. satisfiable (snd p) ss ds ex) xs)"

definition reports :: "relax_label list option \<Rightarrow> SolverResult \<Rightarrow> bool" where
  "reports k r = (case k of Some labels \<Rightarrow> succeeded r \<and> r_relaxed r = labels
                  | None \<Rightarrow> r_status r = INFEASIBLE)"

lemma chain_loop_first:
  fixes env :: "'w env"
  assumes "cp_sound env" "inputs_ok st ss ds" "\<And>st'. relaxes st st' \<Longrightarrow> conclusive env ss ds ex rd st'"
  shows "reports (first_rung ss ds ex (rungs st labels))
     (fst (chain_loop env ss ds ex rd m st labels k w))"
  using assms
proof (induction env ss ds ex rd m st labels k w rule: chain_loop.induct)
  case (1 env ss ds ex rd m st labels k w)
  obtain x a c w1 where s: "chain_attempt env ss ds ex rd m st labels k w = (((x, a), c), w1)"
    by (metis prod.collapse)
  obtain x' a' w' where sw: "solve_with_settings env ss ds ex st rd
      (notify env (Relax_attempt k m (if labels = [] then None else Some (last labels))) w) = ((x', a'), w')"
    by (metis prod.collapse)
  have st: "(solved (ans_status a') \<longleftrightarrow> satisfiable st ss ds ex)
      \<and> (\<not> solved (ans_status a') \<longrightarrow> ans_status a' = Cp_infeasible)"
    using solve_status [OF 1(2,3) 1(4) [OF relaxes_refl],
      of "notify env (Relax_attempt k m (if labels = [] then None else Some (last labels))) w"]
    by (simp add: sw Let_def)
  then have eq: "a = a'" "\<not> c"
    using s unfolding chain_attempt_def Let_def sw by (auto split: if_splits prod.splits)
  show ?case
  proof (cases "satisfiable st ss ds ex")
    case True
    then have ok: "solved (ans_status a)" using st eq by simp
    then have "status_name (ans_status a) = OPTIMAL \<or> status_name (ans_status a) = FEASIBLE"
      by (auto simp: solved_def)
    then show ?thesis using True ok eq(2)
      by (subst chain_loop.simps)
        (simp add: s first_rung_def rungs_def reports_def succeeded_def plain_result_def)
  next
    case False
    then have bad: "\<not> solved (ans_status a)" using st eq by simp
    show ?thesis
    proof (cases "relax_step st")
      case None
      then show ?thesis using False bad eq(2)
        by (subst chain_loop.simps)
          (simp add: s first_rung_def rungs_def reports_def plain_result_def ladder_from.simps [of st])
    next
      case (Some p)
      obtain l st2 where step: "relax_step st = Some (l, st2)" using Some by (cases p) simp
      have rl: "relaxes st st2" by (rule relax_step_relaxes [OF step])
      have "reports (first_rung ss ds ex (rungs st2 (labels @ [l])))
          (fst (chain_loop env ss ds ex rd m st2 (labels @ [l]) (k + 1) w1))"
        using 1(1) [OF s [symmetric] refl refl] eq(2) bad step
          1(2,3) inputs_ok_relaxes [OF rl] 1(4) [OF relaxes_trans [OF rl]] by simp
      then show ?thesis using False bad eq(2) step
        by (subst chain_loop.simps)
          (simp add: s first_rung_def rungs_def ladder_from.simps [of st])
    qed
  qed
qed

text \<open>
  C6. The relaxation chain reports the least relaxation that helps: on inputs in order and when
  the search is conclusive on every rung, the chain succeeds exactly if some rung of the ladder
  has an acceptable choice, the labels it reports are those of the first such rung, and otherwise
  it answers INFEASIBLE.  An acceptable choice covers every duty that some soldier is eligible
  for, once each, meets the node quotas that some eligible soldier matches, and keeps rest,
  overlaps and the caps of the rung; a duty nobody is eligible for stays open and does not make
  the chain fail.
\<close>

theorem chain_first_rung:
  fixes env :: "'w env"
  assumes "cp_sound env" "inputs_ok st ss ds"
    and "\<And>st'. relaxes st st' \<Longrightarrow> conclusive env ss ds ex rd st'"
  shows "reports (first_rung ss ds ex (([], st) # ladder_positions st))
     (fst (infeasibility_relaxation_chain env ss ds ex st rd w))"
  using chain_loop_first [OF assms, of "[]"]
  by (simp add: infeasibility_relaxation_chain_def rungs_def ladder_positions_def)

section \<open>Soft coverage is maximal\<close>

definition coverage_expr :: "(nat \<times> nat) list \<Rightarrow> lin" where
  "coverage_expr x = lsum (map (\<lambda>(di, si). lvar (X di si)) x)"

definition coverage_model :: "SoldierInput list \<Rightarrow> DutyBlock list \<Rightarrow> ExistingAssignment list
    \<Rightarrow> SolverSettings \<Rightarrow> reserve_dists option \<Rightarrow> cp_model" where
  "coverage_model ss ds ex st rd = (fst (build_model Soft ss ds ex st rd))
     \<lparr>cp_objective := Maximize (coverage_expr (eligible_pairs ss ds st))\<rparr>"

lemma coverage_card:
  assumes "binary v el" "distinct el"
  shows "lin_val v (coverage_expr el) = int (length (chosen v el))"
proof -
  have "(\<Sum>p\<leftarrow>xs. v (X (fst p) (snd p))) = int (length (chosen v xs))" if "binary v xs" for xs
    using that by (induction xs) (auto simp: chosen_def binary_def)
  from this [OF assms(1)] show ?thesis by (simp add: coverage_expr_def comp_def case_prod_beta)
qed

lemma build_model_binary:
  "feasible (fst (build_model cov ss ds ex st rd)) v \<Longrightarrow> binary v (eligible_pairs ss ds st)"
  using build_model_base [of cov ss ds ex st rd v] by (simp add: feasible_base_parts binary_decision_vars)

lemma acceptable_model:
  assumes "acceptable cov st ss ds ex A" "inputs_ok st ss ds"
  shows "\<exists>v. feasible (fst (build_model cov ss ds ex st rd)) v
     \<and> set (chosen v (eligible_pairs ss ds st)) = A"
  using build_model_exact [of ds st ss cov ex rd A] assms
  by (simp add: inputs_ok_def build_model_eligible)

text \<open>
  C7. The soft-coverage solve leaves no duty unassigned that a schedule could cover: when
  its first stage is solved to optimality and the run is not cancelled, it assigns at least
  as many duties as any acceptable choice, whatever the second stage answers.
\<close>

theorem soft_coverage_maximal:
  fixes env :: "'w env"
  assumes "cp_sound env" "inputs_ok st ss ds" "\<forall>w. \<not> fst (cancel_is_set env w)"
    and opt: "ans_status (fst (cp_solve env (coverage_model ss ds ex st rd) (params_of st) w)) = Cp_optimal"
    and A: "acceptable Soft st ss ds ex A"
  shows "card A \<le> length (r_assignments (fst (solve_soft_coverage env ss ds ex st rd w)))"
proof -
  let ?el = "eligible_pairs ss ds st"
  obtain model terms where b: "build_model Soft ss ds ex st rd = (model, ?el, terms)"
    by (rule build_model_cases)
  let ?m1 = "model\<lparr>cp_objective := Maximize (coverage_expr ?el)\<rparr>"
  have m1: "coverage_model ss ds ex st rd = ?m1" by (simp add: coverage_model_def b)
  obtain a1 w1 where s1: "cp_solve env ?m1 (params_of st) w = (a1, w1)" by (metis prod.collapse)
  have sound1: "sound_answer ?m1 a1" using ensures_fst [OF cp_solve_spec [OF assms(1)] s1] .
  have st1: "ans_status a1 = Cp_optimal" using opt s1 by (simp add: m1)
  have f1: "feasible model (ans_value a1)" using sound_feasible [OF sound1] st1 by (simp add: solved_def)
  have bin: "binary v ?el" if "feasible model v" for v
    using build_model_binary [of Soft ss ds ex st rd v] that b by simp
  have best: "ans_objective a1 = lin_val (ans_value a1) (coverage_expr ?el)"
    using sound1 st1 by (simp add: sound_answer_def solved_def)
  obtain v where v: "feasible model v" "set (chosen v ?el) = A"
    using acceptable_model [OF A assms(2), of rd] b by auto
  have dist: "distinct (chosen v ?el)" by (simp add: chosen_def)
  have "card A = length (chosen v ?el)" using v(2) distinct_card [OF dist] by simp
  also have "int \<dots> \<le> ans_objective a1"
    using sound1 st1 v(1) unfolding best coverage_card [OF bin [OF v(1)] distinct_eligible_pairs, symmetric]
    by (simp add: sound_answer_def)
  finally have le: "int (card A) \<le> ans_objective a1" .
  have len: "length (assignments_of ss ds ?el a) = length (chosen (ans_value a) ?el)" for a
    by (simp add: assignments_of_def)
  have first: "int (card A) \<le> int (length (assignments_of ss ds ?el a1))"
    using le unfolding best coverage_card [OF bin [OF f1] distinct_eligible_pairs] len .
  obtain c w2 where c: "cancel_is_set env w1 = (c, w2)" "\<not> c" using assms(3) by (metis prod.collapse fst_conv)
  let ?m2 = "if ?el \<noteq> [] then add_cons [Le (lconst (ans_objective a1)) (coverage_expr ?el)] ?m1 else ?m1"
  let ?m3 = "fst (build_fairness_objective 1 ?m2 ?el ds st rd terms)"
  obtain a2 w3 where s2: "cp_solve env ?m3 (params_of st) w2 = (a2, w3)" by (metis prod.collapse)
  have sound2: "sound_answer ?m3 a2" using ensures_fst [OF cp_solve_spec [OF assms(1)] s2] .
  have second: "int (card A) \<le> int (length (assignments_of ss ds ?el a2))" if "solved (ans_status a2)"
  proof -
    have f: "feasible ?m2 (ans_value a2)" using feasible_objective_base [OF sound_feasible [OF sound2 that]] .
    then have fm: "feasible model (ans_value a2)" by (simp split: if_splits)
    show ?thesis
    proof (cases "?el = []")
      case True
      then have "A = {}" using v(2) by (simp add: chosen_def)
      then show ?thesis by simp
    next
      case False
      then have "ans_objective a1 \<le> lin_val (ans_value a2) (coverage_expr ?el)" using f by simp
      then show ?thesis
        using le unfolding coverage_card [OF bin [OF fm] distinct_eligible_pairs] len by linarith
    qed
  qed
  obtain c' w4 where c': "cancel_is_set env w3 = (c', w4)" "\<not> c'"
    using assms(3) by (metis prod.collapse fst_conv)
  have "int (card A) \<le> int (length (r_assignments (fst (solve_soft_coverage env ss ds ex st rd w))))"
    using first second c c' st1 s1 s2
    unfolding solve_soft_coverage_def b prod.case Let_def coverage_expr_def [symmetric]
    by (simp add: solved_def plain_result_def)
  then show ?thesis by simp
qed

section \<open>The concrete input\<close>

lemma sample_inputs_ok: "inputs_ok default_settings one_soldier_in one_duty_in"
  using sample_inputs by (simp add: inputs_ok_def default_settings_def)

abbreviation sample_val :: "cp_var \<Rightarrow> int" where
  "sample_val \<equiv> full_val default_settings one_soldier_in one_duty_in {(0, 0)}"

lemma acceptable_feasible:
  assumes "acceptable cov st ss ds ex A" "inputs_ok st ss ds"
  shows "feasible (fst (build_model cov ss ds ex st rd)) (full_val st ss ds A)"
proof -
  have "feasible (base_model cov ss ds ex st (eligible_pairs ss ds st)) (full_val st ss ds A)"
    unfolding full_val_def Let_def
    by (rule acceptable_base [OF assms(1)]) (use assms(2) in \<open>simp_all add: inputs_ok_def\<close>)
  from full_val_objective [OF _ refl this, of 0 rd] show ?thesis
    using assms(2) by (simp add: build_model_def Let_def model_eligible_eq case_prod_unfold inputs_ok_def)
qed

lemma sample_conclusive:
  "relaxes default_settings st' \<Longrightarrow> conclusive (probe_env sample_val) one_soldier_in one_duty_in [] None st'"
  using acceptable_feasible [OF acceptable_relaxes [OF sample_acceptable], of st' Hard None]
    inputs_ok_relaxes [of default_settings st' one_soldier_in one_duty_in] sample_inputs_ok
    same_caps_val [OF relaxes_same, of default_settings st' one_soldier_in one_duty_in "{(0, 0)}"]
  by (simp add: conclusive_def probe_env_def solved_def)

lemma chain_first_rung_witness:
  "reports (first_rung one_soldier_in one_duty_in [] (([], default_settings) # ladder_positions default_settings))
     (fst (infeasibility_relaxation_chain (probe_env sample_val) one_soldier_in one_duty_in []
        default_settings None ()))"
  by (rule chain_first_rung [OF probe_env_sound sample_inputs_ok sample_conclusive])

text \<open>A solver that knows the optimum of the first coverage model.\<close>

definition optimal_env :: "cp_model \<Rightarrow> (cp_var \<Rightarrow> int) \<Rightarrow> unit env" where
  "optimal_env m0 v = (probe_env v)\<lparr>cp_solve := (\<lambda>m p w. (\<lparr>ans_status =
       (if m = m0 then Cp_optimal else if feasible m v then Cp_feasible else Cp_unknown),
     ans_value = v, ans_objective = objective_value (cp_objective m) v\<rparr>, w))\<rparr>"

lemma optimal_env_sound:
  assumes "feasible m0 v" "\<And>u. feasible m0 u \<Longrightarrow> at_least_as_good (cp_objective m0) v u"
  shows "cp_sound (optimal_env m0 v)"
  using assms by (simp add: cp_sound_def optimal_env_def sound_answer_def solved_def)

lemma soft_coverage_maximal_witness:
  "card {(0::nat, 0::nat)} \<le> length (r_assignments (fst (solve_soft_coverage
      (optimal_env (coverage_model one_soldier_in one_duty_in [] default_settings None) sample_val)
      one_soldier_in one_duty_in [] default_settings None ())))"
proof (rule soft_coverage_maximal)
  let ?m = "coverage_model one_soldier_in one_duty_in [] default_settings None"
  let ?el = "eligible_pairs one_soldier_in one_duty_in default_settings"
  have el: "set ?el = {(0, 0)}" using sample_pairs by auto
  have bin: "binary v ?el" if "feasible ?m v" for v
    using that build_model_binary [of Soft one_soldier_in one_duty_in "[]" default_settings None v]
    by (simp add: coverage_model_def)
  have f: "feasible ?m sample_val"
    using acceptable_feasible [OF sample_acceptable sample_inputs_ok] by (simp add: coverage_model_def)
  have best: "at_least_as_good (cp_objective ?m) sample_val u" if u: "feasible ?m u" for u
  proof -
    have "length (chosen u ?el) = card (set (chosen u ?el))"
      by (rule distinct_card [symmetric]) (simp add: chosen_def)
    also have "\<dots> \<le> card (set ?el)" by (rule card_mono) (auto simp: chosen_def)
    finally have "length (chosen u ?el) \<le> 1" by (simp add: el)
    moreover have "length (chosen sample_val ?el) = 1"
    proof -
      have "set (chosen sample_val ?el) = {(0, 0)}"
        unfolding full_val_def Let_def by (rule chosen_choice_val) (simp add: el)
      then show ?thesis using distinct_card [of "chosen sample_val ?el"] by (simp add: chosen_def)
    qed
    ultimately show ?thesis
      using coverage_card [OF bin [OF u] distinct_eligible_pairs] coverage_card [OF bin [OF f] distinct_eligible_pairs]
      by (simp add: coverage_model_def)
  qed
  show "cp_sound (optimal_env ?m sample_val)" by (rule optimal_env_sound [OF f best])
qed (use sample_inputs_ok sample_acceptable in \<open>simp_all add: optimal_env_def probe_env_def\<close>)

end
