(* ===== verification/Batching.thy ===== *)
theory Batching
  imports DutyTypes
begin

text \<open>
  How \<open>solver.py\<close> cuts the duties of one component into batches:
  \<open>_interleaved_duty_batches\<close> sorts them and deals them round-robin,
  \<open>_calendar_window_batches\<close> cuts the sorted list into calendar windows.  Both are
  shown to neither lose nor repeat a duty; the first to balance the batches, the second
  to keep the order and the width of a window.
\<close>

section \<open>Interleaved batches\<close>

text \<open>
  \<open>batches[i % n].append(di)\<close> for the \<open>i\<close>-th sorted duty.  The sort key of the code
  is a tuple; \<open>str\<close> of a UUID orders like its number.  A target of 0 raises
  ZeroDivisionError, which is None here.
\<close>

definition batch_key :: "DutyBlock list \<Rightarrow> nat \<Rightarrow> date \<times> rat \<times> uuid" where
  "batch_key duties di = (d_start_date (duties ! di), - d_score_per_day (duties ! di),
                          d_duty_type_id (duties ! di))"

definition key_le :: "date \<times> rat \<times> uuid \<Rightarrow> date \<times> rat \<times> uuid \<Rightarrow> bool" where
  "key_le a b \<longleftrightarrow> fst a < fst b \<or> fst a = fst b
     \<and> (fst (snd a) < fst (snd b) \<or> fst (snd a) = fst (snd b) \<and> snd (snd a) \<le> snd (snd b))"

fun insert_by :: "('a \<Rightarrow> 'a \<Rightarrow> bool) \<Rightarrow> 'a \<Rightarrow> 'a list \<Rightarrow> 'a list" where
  "insert_by le x [] = [x]"
| "insert_by le x (y # ys) = (if le x y then x # y # ys else y # insert_by le x ys)"

text \<open>Python's \<open>sorted\<close> is stable: an element goes before its equals on its right.\<close>

definition sort_by :: "('a \<Rightarrow> 'a \<Rightarrow> bool) \<Rightarrow> 'a list \<Rightarrow> 'a list" where
  "sort_by le xs = foldr (insert_by le) xs []"

definition deal :: "nat \<Rightarrow> 'a list \<Rightarrow> 'a list list" where
  "deal n xs = fold (\<lambda>(i, x) batches. batches[i mod n := batches ! (i mod n) @ [x]])
                    (indexed xs) (replicate n [])"

definition interleaved_duty_batches ::
  "nat list \<Rightarrow> DutyBlock list \<Rightarrow> int \<Rightarrow> nat list list option" where
  "interleaved_duty_batches duty_idxs duties target_batch_size =
     (if duty_idxs = [] then Some []
      else if target_batch_size = 0 then None
      else
        (let sorted_idxs = sort_by (\<lambda>a b. key_le (batch_key duties a) (batch_key duties b)) duty_idxs;
             n = max 1 ((int (length sorted_idxs) + target_batch_size - 1) div target_batch_size)
         in Some (filter (\<lambda>b. b \<noteq> []) (deal (nat n) sorted_idxs))))"

section \<open>Calendar windows\<close>

fun calendar_windows :: "DutyBlock list \<Rightarrow> int \<Rightarrow> date \<Rightarrow> nat list \<Rightarrow> nat list \<Rightarrow> nat list list" where
  "calendar_windows duties window_days window_start cur [] = (if cur \<noteq> [] then [cur] else [])"
| "calendar_windows duties window_days window_start cur (di # rest) =
     (let d = duties ! di in
      if d_start_date d - window_start \<ge> window_days then
        (if cur \<noteq> [] then [cur] else [])
        @ calendar_windows duties window_days (d_start_date d) [di] rest
      else calendar_windows duties window_days window_start (cur @ [di]) rest)"

definition calendar_window_batches :: "nat list \<Rightarrow> DutyBlock list \<Rightarrow> int \<Rightarrow> nat list list" where
  "calendar_window_batches duty_idxs_sorted duties window_days =
     (case duty_idxs_sorted of [] \<Rightarrow> []
      | first # _ \<Rightarrow> calendar_windows duties window_days (d_start_date (duties ! first)) []
                     duty_idxs_sorted)"

section \<open>Sorting\<close>

lemma mset_insert_by [simp]: "mset (insert_by le x ys) = add_mset x (mset ys)"
  by (induction ys) auto

lemma mset_sort_by [simp]: "mset (sort_by le xs) = mset xs"
  by (induction xs) (auto simp: sort_by_def)

lemma set_sort_by [simp]: "set (sort_by le xs) = set xs"
  using mset_sort_by [of le xs] by (metis set_mset_mset)

lemma length_sort_by [simp]: "length (sort_by le xs) = length xs"
  using mset_sort_by [of le xs] by (metis size_mset)

lemma sorted_wrt_insert_by:
  assumes "\<And>a b. le a b \<or> le b a" "\<And>a b c. le a b \<Longrightarrow> le b c \<Longrightarrow> le a c"
  shows "sorted_wrt le ys \<Longrightarrow> sorted_wrt le (insert_by le x ys)"
proof (induction ys)
  case (Cons y ys)
  have "set (insert_by le x ys) = insert x (set ys)"
    by (metis mset_insert_by set_mset_add_mset_insert set_mset_mset)
  then show ?case using Cons assms by auto
qed simp

lemma sorted_wrt_sort_by:
  assumes "\<And>a b. le a b \<or> le b a" "\<And>a b c. le a b \<Longrightarrow> le b c \<Longrightarrow> le a c"
  shows "sorted_wrt le (sort_by le xs)"
  by (induction xs) (simp_all add: sort_by_def sorted_wrt_insert_by [OF assms])

lemma key_le_total: "key_le a b \<or> key_le b a"
  by (auto simp: key_le_def)

lemma key_le_trans: "key_le a b \<Longrightarrow> key_le b c \<Longrightarrow> key_le a c"
  by (auto simp: key_le_def)

section \<open>Dealing\<close>

lemma deal_snoc:
  "deal n (xs @ [x]) = (deal n xs)[length xs mod n := deal n xs ! (length xs mod n) @ [x]]"
  by (simp add: deal_def indexed_def)

lemma length_deal [simp]: "length (deal n xs) = n"
  by (induction xs rule: rev_induct) (simp_all add: deal_snoc, simp add: deal_def indexed_def)

lemma mset_concat_update:
  assumes "k < length bs"
  shows "mset (concat (bs[k := bs ! k @ [x]])) = add_mset x (mset (concat bs))"
proof -
  have bs: "bs = take k bs @ bs ! k # drop (Suc k) bs" using assms by (rule id_take_nth_drop)
  show ?thesis
    by (subst (1) upd_conv_take_nth_drop [OF assms], subst (3) bs) simp
qed

lemma mset_deal: "0 < n \<Longrightarrow> mset (concat (deal n xs)) = mset xs"
proof (induction xs rule: rev_induct)
  case Nil
  then show ?case by (simp add: deal_def indexed_def)
next
  case (snoc x xs)
  then show ?case by (simp add: deal_snoc mset_concat_update)
qed

text \<open>Batch \<open>k\<close> holds the positions congruent to \<open>k\<close>.\<close>

lemma deal_length_nth:
  assumes "k < n"
  shows "length (deal n xs ! k) = (length xs + n - 1 - k) div n"
proof (induction xs rule: rev_induct)
  case Nil
  then show ?case using assms by (simp add: deal_def indexed_def)
next
  case (snoc x xs)
  define m where "m = length xs + (n - 1 - k)"
  have pos: "length xs + n - 1 - k = m" "length (xs @ [x]) + n - 1 - k = Suc m"
    using assms by (simp_all add: m_def)
  have "Suc m mod n = 0 \<longleftrightarrow> length xs mod n = k"
  proof -
    define q r where "q = length xs div n" and "r = length xs mod n"
    have L: "length xs = q * n + r" and r: "r < n" using assms by (simp_all add: q_def r_def)
    have m: "Suc m = q * n + (r + (n - k))" using assms L by (simp add: m_def)
    have "(r + (n - k)) mod n = (if r < k then r + (n - k) else r - k)"
    proof (cases "r < k")
      case False
      then have "r + (n - k) = n + (r - k)" using assms by linarith
      then have "(r + (n - k)) mod n = (n + (r - k)) mod n" by (simp only:)
      also have "\<dots> = r - k" using r by simp
      finally show ?thesis using False by simp
    qed (use assms in simp)
    moreover have "Suc m mod n = (r + (n - k)) mod n" unfolding m by (rule mod_mult_self3)
    ultimately show ?thesis using assms r unfolding r_def [symmetric] by (simp split: if_splits)
  qed
  then have step: "Suc m div n = m div n + (if length xs mod n = k then 1 else 0)"
    by (simp add: div_Suc)
  show ?case
    unfolding pos using snoc [unfolded pos] assms step
    by (simp add: deal_snoc nth_list_update)
qed

lemma deal_balanced:
  assumes "i < n" "j < n"
  shows "length (deal n xs ! i) \<le> length (deal n xs ! j) + 1"
proof -
  define a where "a = length xs + n - 1 - j"
  have "(length xs + n - 1 - i) div n \<le> (a + n) div n"
    using assms by (intro div_le_mono) (auto simp: a_def)
  also have "\<dots> = a div n + 1" using assms by simp
  finally show ?thesis using assms by (simp add: deal_length_nth a_def)
qed

lemma deal_bounded:
  assumes "i < n" "length xs \<le> n * m"
  shows "length (deal n xs ! i) \<le> m"
proof -
  have "(length xs + n - 1 - i) div n < Suc m"
    using assms by (intro div_less_iff_less_mult [THEN iffD2]) (auto simp: algebra_simps)
  then show ?thesis using assms by (simp add: deal_length_nth)
qed

lemma concat_filter_nonempty: "concat (filter (\<lambda>b. b \<noteq> []) bs) = concat bs"
  by (induction bs) auto

section \<open>Windows\<close>

lemma calendar_windows_concat: "concat (calendar_windows ds W ws cur xs) = cur @ xs"
  by (induction ds W ws cur xs rule: calendar_windows.induct) (auto simp: Let_def)

lemma calendar_windows_nonempty: "[] \<notin> set (calendar_windows ds W ws cur xs)"
proof (induction ds W ws cur xs rule: calendar_windows.induct)
  case (2 duties W ws cur di rest)
  then show ?case by (cases "d_start_date (duties ! di) - ws \<ge> W") (auto simp: Let_def)
qed auto

lemma calendar_windows_span:
  assumes "sorted (map (\<lambda>di. d_start_date (ds ! di)) (cur @ xs))"
    and "\<forall>di \<in> set cur. ws \<le> d_start_date (ds ! di) \<and> d_start_date (ds ! di) < ws + W"
    and "\<forall>di \<in> set xs. ws \<le> d_start_date (ds ! di)" "0 < W"
    and "b \<in> set (calendar_windows ds W ws cur xs)" "i \<in> set b" "j \<in> set b"
  shows "d_start_date (ds ! j) < d_start_date (ds ! i) + W"
  using assms
proof (induction ds W ws cur xs rule: calendar_windows.induct)
  case (1 duties W ws cur)
  then have "b = cur" by (simp split: if_splits)
  then have "ws \<le> d_start_date (duties ! i)" "d_start_date (duties ! j) < ws + W"
    using 1 by auto
  then show ?case by linarith
next
  case (2 duties W ws cur di rest)
  show ?case
  proof (cases "d_start_date (duties ! di) - ws \<ge> W")
    case True
    then consider "b = cur" | "b \<in> set (calendar_windows duties W (d_start_date (duties ! di)) [di] rest)"
      using 2(7) by (auto simp: Let_def split: if_splits)
    then show ?thesis
    proof cases
      case 1
      then have "ws \<le> d_start_date (duties ! i)" "d_start_date (duties ! j) < ws + W"
        using 2 by auto
      then show ?thesis by linarith
    next
      case b: 2
      have late: "sorted (map (\<lambda>di. d_start_date (duties ! di)) (di # rest))"
        using 2(3) by (simp only: map_append sorted_append)
      show ?thesis
        by (rule 2(1) [OF refl True _ _ _ 2(6) b 2(8,9)]) (use late 2(6) in simp_all)
    qed
  next
    case False
    show ?thesis
      by (rule 2(2) [OF refl False _ _ _ 2(6) _ 2(8,9)]) (use 2 False in \<open>auto simp: Let_def\<close>)
  qed
qed

section \<open>Interleaved batches are dealt lists\<close>

lemma interleaved_deal:
  assumes "interleaved_duty_batches idxs duties target = Some bs"
  obtains n where "0 < n" "0 < target \<longrightarrow> length idxs \<le> n * nat target"
    and "bs = filter (\<lambda>b. b \<noteq> [])
           (deal n (sort_by (\<lambda>a b. key_le (batch_key duties a) (batch_key duties b)) idxs))"
proof -
  define n where "n = nat (max 1 ((int (length idxs) + target - 1) div target))"
  have "length idxs \<le> n * nat target" if "0 < target"
  proof -
    have "int (length idxs) + target - 1
        = target * ((int (length idxs) + target - 1) div target)
          + (int (length idxs) + target - 1) mod target" by simp
    moreover have "(int (length idxs) + target - 1) mod target < target" using that by simp
    moreover have "target * ((int (length idxs) + target - 1) div target) \<le> target * int n"
      using that by (intro mult_left_mono) (auto simp: n_def)
    ultimately have "int (length idxs) \<le> target * int n" by linarith
    also have "\<dots> = int (n * nat target)" using that by (simp add: mult.commute)
    finally show ?thesis by linarith
  qed
  moreover have "bs = filter (\<lambda>b. b \<noteq> [])
      (deal n (sort_by (\<lambda>a b. key_le (batch_key duties a) (batch_key duties b)) idxs))"
  proof (cases "idxs = []")
    case True
    have "x = []" if "x \<in> set (deal n ([]::nat list))" for x
      using that by (simp add: deal_def indexed_def)
    then show ?thesis using True assms
      by (auto simp: interleaved_duty_batches_def sort_by_def filter_empty_conv)
  next
    case False
    then show ?thesis using assms
      by (simp add: interleaved_duty_batches_def n_def Let_def split: if_splits)
  qed
  ultimately show ?thesis by (intro that [of n]) (simp_all add: n_def)
qed

lemma interleaved_mset:
  "interleaved_duty_batches idxs ds target = Some bs \<Longrightarrow> mset (concat bs) = mset idxs"
  by (erule interleaved_deal) (simp add: concat_filter_nonempty mset_deal)

lemma interleaved_nonempty:
  "interleaved_duty_batches idxs ds target = Some bs \<Longrightarrow> b \<in> set bs \<Longrightarrow> b \<noteq> []"
  by (erule interleaved_deal) auto

lemma interleaved_Some: "target \<noteq> 0 \<Longrightarrow> \<exists>bs. interleaved_duty_batches idxs ds target = Some bs"
  by (auto simp: interleaved_duty_batches_def Let_def)

text \<open>Two batches come from one dealing.\<close>

lemma interleaved_balanced:
  assumes "interleaved_duty_batches idxs ds target = Some bs" "b \<in> set bs" "c \<in> set bs"
  shows "length b \<le> length c + 1"
proof (rule interleaved_deal [OF assms(1)])
  fix n let ?xs = "sort_by (\<lambda>a b. key_le (batch_key ds a) (batch_key ds b)) idxs"
  assume bs: "bs = filter (\<lambda>b. b \<noteq> []) (deal n ?xs)"
  obtain i j where "i < n" "b = deal n ?xs ! i" "j < n" "c = deal n ?xs ! j"
    using assms(2,3) unfolding bs by (auto simp: in_set_conv_nth)
  then show ?thesis using deal_balanced by blast
qed

lemma interleaved_size:
  assumes "0 < target" "interleaved_duty_batches idxs ds target = Some bs" "b \<in> set bs"
  shows "int (length b) \<le> target"
proof (rule interleaved_deal [OF assms(2)])
  fix n let ?xs = "sort_by (\<lambda>a b. key_le (batch_key ds a) (batch_key ds b)) idxs"
  assume bs: "bs = filter (\<lambda>b. b \<noteq> []) (deal n ?xs)"
    and len: "0 < target \<longrightarrow> length idxs \<le> n * nat target"
  obtain i where "i < n" "b = deal n ?xs ! i"
    using assms(3) unfolding bs by (auto simp: in_set_conv_nth)
  then have "length b \<le> nat target"
    using deal_bounded [of i n ?xs "nat target"] len assms(1) by simp
  then show ?thesis using assms(1) by linarith
qed

section \<open>Properties\<close>

text \<open>
  The interleaved batches hold every duty of the component exactly once; for a
  positive target no batch is larger than the target and two batches differ in size by
  at most one.
\<close>

theorem interleaved_batches_partition:
  assumes "0 < target"
  shows "\<exists>bs. interleaved_duty_batches duty_idxs duties target = Some bs
     \<and> mset (concat bs) = mset duty_idxs
     \<and> list_all (\<lambda>b. b \<noteq> [] \<and> int (length b) \<le> target
          \<and> list_all (\<lambda>c. length b \<le> length c + 1) bs) bs"
proof -
  obtain bs where bs: "interleaved_duty_batches duty_idxs duties target = Some bs"
    using interleaved_Some [of target] assms by blast
  then show ?thesis
    unfolding list_all_iff
    using interleaved_mset [OF bs] interleaved_nonempty [OF bs] interleaved_balanced [OF bs]
      interleaved_size [OF assms bs] by blast
qed

lemma interleaved_batches_partition_witness:
  "\<exists>bs. interleaved_duty_batches [0, 1, 2] [] 2 = Some bs \<and> mset (concat bs) = {#0, 1, 2#}"
  using interleaved_batches_partition [of 2 "[0, 1, 2]" "[]"] by auto

text \<open>
  Cutting the sorted duties into calendar windows keeps them all in order, opens no
  empty window, and two duties of one window start less than \<open>batch_window_days\<close> apart.
\<close>

theorem calendar_batches_windows:
  assumes "sorted (map (\<lambda>di. d_start_date (duties ! di)) duty_idxs)" and "0 < window_days"
  shows "concat (calendar_window_batches duty_idxs duties window_days) = duty_idxs
     \<and> list_all (\<lambda>b. b \<noteq> [] \<and> list_all (\<lambda>i. list_all (\<lambda>j.
          d_start_date (duties ! j) < d_start_date (duties ! i) + window_days) b) b)
        (calendar_window_batches duty_idxs duties window_days)"
proof (cases duty_idxs)
  case (Cons di rest)
  let ?bs = "calendar_windows duties window_days (d_start_date (duties ! di)) [] duty_idxs"
  have bs: "calendar_window_batches duty_idxs duties window_days = ?bs"
    by (simp only: calendar_window_batches_def Cons list.case)
  have "d_start_date (duties ! j) < d_start_date (duties ! i) + window_days"
    if "b \<in> set ?bs" "i \<in> set b" "j \<in> set b" for b i j
    by (rule calendar_windows_span [OF _ _ _ assms(2) that]) (use assms(1) Cons in auto)
  then show ?thesis
    using calendar_windows_concat [of duties window_days "d_start_date (duties ! di)" "[]" duty_idxs]
      calendar_windows_nonempty [of duties window_days "d_start_date (duties ! di)" "[]" duty_idxs]
    unfolding bs list_all_iff append_Nil by blast
qed (simp add: calendar_window_batches_def)

definition day_duty :: "nat \<Rightarrow> DutyBlock" where
  "day_duty n = \<lparr>d_id = n, d_duty_type_id = 0, d_duty_location_id = 0, d_start_date = int n,
     d_end_date = int n + 1, d_score_per_day = 1, d_is_reserve = False,
     d_eligible_node_ids = None, d_start_time = (0, 0), d_end_time = (0, 0),
     d_node_quotas = None, d_rest_hours = 0, d_required_range_type = None,
     d_requirements = []\<rparr>"

lemma calendar_batches_windows_witness:
  "calendar_window_batches [0, 1, 2] (map day_duty [0, 1, 4]) 3 = [[0, 1], [2]]
   \<and> concat (calendar_window_batches [0, 1, 2] (map day_duty [0, 1, 4]) 3) = [0, 1, 2]"
proof -
  have "sorted (map (\<lambda>di. d_start_date (map day_duty [0, 1, 4] ! di)) [0, 1, 2])"
    by (simp add: day_duty_def)
  from calendar_batches_windows [OF this, of 3] show ?thesis
    by (simp add: calendar_window_batches_def day_duty_def)
qed

end
