(* ===== verification/Interleaved.thy ===== *)
theory Interleaved
  imports Contracts Batching
begin

text \<open>
  \<open>_interleaved_solve\<close> of \<open>solver.py\<close>: plan, batch loop, and the second attempt at a
  component's left-over duties.  One plan entry is (component, its soldiers, batch).
  The state of the loop is a record; a step continues with a state, returns a result (a
  cancellation), or raises (a failed lookup, or a batch size of 0).
\<close>

section \<open>The loop state\<close>

record loop_state =
  lp_all :: "Assignment list"
  lp_relaxed :: "relax_label list"
  lp_batches :: "BatchResult list"
  lp_carry :: "ExistingAssignment list"
  lp_work :: "SoldierInput list"
  lp_residual :: "(nat, DutyBlock list) dict"
  lp_done :: int

datatype flow = Next loop_state | Return SolverResult | Raise

type_synonym plan_entry = "nat \<times> nat list \<times> nat list"

definition start_state :: "SoldierInput list \<Rightarrow> ExistingAssignment list \<Rightarrow> loop_state" where
  "start_state soldiers existing = \<lparr>lp_all = [], lp_relaxed = [], lp_batches = [],
     lp_carry = existing, lp_work = soldiers, lp_residual = [], lp_done = 0\<rparr>"

definition cancelled_result :: "int \<Rightarrow> loop_state \<Rightarrow> SolverResult" where
  "cancelled_result sd s = \<lparr>r_assignments = lp_all s, r_status = CANCELLED,
     r_objective_value = None, r_seed = sd, r_relaxed = lp_relaxed s,
     r_batch_results = lp_batches s, r_relaxed_node_quotas = []\<rparr>"

definition finished_result :: "SolverSettings \<Rightarrow> DutyBlock list \<Rightarrow> loop_state \<Rightarrow> SolverResult" where
  "finished_result settings duties s =
     (let assigned_ids = remdups (map a_duty_id (lp_all s));
          status = (if length assigned_ids = length duties then OPTIMAL else FEASIBLE)
      in \<lparr>r_assignments = sort_key a_duty_id (lp_all s),
          r_status = (if lp_all s = [] \<and> duties \<noteq> [] then INFEASIBLE else status),
          r_objective_value = None, r_seed = seed_of settings, r_relaxed = lp_relaxed s,
          r_batch_results = lp_batches s, r_relaxed_node_quotas = []\<rparr>)"

definition batch_settings :: "SolverSettings \<Rightarrow> SolverSettings" where
  "batch_settings settings = settings\<lparr>time_limit_seconds := batch_time_limit_seconds settings\<rparr>"

text \<open>\<open>_reserve_for_batch\<close>: global indices to the indices of the sub-problem.\<close>

definition reserve_for_batch :: "reserve_dists option \<Rightarrow> nat list \<Rightarrow> nat list
    \<Rightarrow> reserve_dists option" where
  "reserve_for_batch reserve_dist batch_idxs soldier_idxs =
     (case reserve_dist of None \<Rightarrow> None
      | Some rd \<Rightarrow> Some (concat (map (\<lambda>(local_di, gdi). concat (map (\<lambda>(local_si, gsi).
            case dict_get rd (gdi, gsi) of None \<Rightarrow> []
            | Some v \<Rightarrow> [((local_di, local_si), v)]) (indexed soldier_idxs)))
          (indexed batch_idxs))))"

section \<open>Recording a batch\<close>

definition shift_fill :: "SoldierInput list \<Rightarrow> ExistingAssignment list \<Rightarrow> bool \<Rightarrow> uuid list
    \<Rightarrow> DutyBlock \<Rightarrow> BatchShiftFill" where
  "shift_fill pool existing enforce_weapon assigned_duty_ids d =
     (let availability = analyze_duty_availability pool d existing enforce_weapon
      in \<lparr>f_shift_id = Some (d_id d), f_required_count = 1,
          f_assigned_count = (if d_id d \<in> set assigned_duty_ids then 1 else 0),
          f_eligible_count = v_eligible_count availability,
          f_available_count = v_available_count availability,
          f_blocker_counts = v_blocker_counts availability\<rparr>)"

definition batch_report :: "nat \<Rightarrow> nat \<Rightarrow> SoldierInput list \<Rightarrow> DutyBlock list
    \<Rightarrow> ExistingAssignment list \<Rightarrow> bool \<Rightarrow> Assignment list \<Rightarrow> int \<Rightarrow> outcome
    \<Rightarrow> relax_label list \<Rightarrow> SaturationCluster list \<Rightarrow> BatchResult" where
  "batch_report index comp_idx pool batch_duties carry enforce_weapon assignments missing status
       relaxations clusters =
     \<lparr>b_batch_index = int index, b_component_index = int comp_idx,
      b_date_from = Min (set (map d_start_date batch_duties)),
      b_date_to = Max (set (map d_end_date batch_duties)),
      b_duty_count = int (length batch_duties), b_soldier_count = int (length pool),
      b_assigned_count = int (length assignments),
      b_unassigned_count = missing,
      b_outcome = status, b_relaxations = relaxations,
      b_shifts = map (shift_fill pool carry enforce_weapon (map a_duty_id assignments)) batch_duties,
      b_saturation_clusters = clusters\<rparr>"

definition left_over :: "DutyBlock list \<Rightarrow> Assignment list \<Rightarrow> DutyBlock list" where
  "left_over batch_duties assignments =
     filter (\<lambda>d. d_id d \<notin> set (map a_duty_id assignments)) batch_duties"

text \<open>
  Everything the loop does with a finished solve: extend the result lists, diagnose the
  duties left over, report the batch, carry the assignments forward.  The residual list
  and the progress counter belong to the ordinary batches only.
\<close>

definition record_batch :: "DutyBlock list \<Rightarrow> bool \<Rightarrow> nat \<Rightarrow> nat \<Rightarrow> SoldierInput list
    \<Rightarrow> DutyBlock list \<Rightarrow> SolverResult \<Rightarrow> int \<Rightarrow> loop_state \<Rightarrow> loop_state option" where
  "record_batch duties enforce_weapon index comp_idx pool batch_duties res missing s =
     (let all = lp_all s @ r_assignments res;
          unassigned = left_over batch_duties (r_assignments res)
      in (case (if unassigned \<noteq> []
                then analyze_saturation unassigned pool all (lp_carry s) (duty_by_id duties)
                else Some []) of
            None \<Rightarrow> None
          | Some clusters \<Rightarrow>
             (case absorb duties (lp_carry s, lp_work s) (r_assignments res) of
                None \<Rightarrow> None
              | Some (carry, work) \<Rightarrow> Some (s\<lparr>lp_all := all,
                  lp_relaxed := lp_relaxed s @ r_relaxed res,
                  lp_batches := lp_batches s @ [batch_report index comp_idx pool batch_duties
                    (lp_carry s) enforce_weapon (r_assignments res) missing (r_status res)
                    (r_relaxed res) clusters],
                  lp_carry := carry, lp_work := work\<rparr>))))"

section \<open>One batch\<close>

definition solve_batch :: "'w env \<Rightarrow> SoldierInput list \<Rightarrow> DutyBlock list
    \<Rightarrow> ExistingAssignment list \<Rightarrow> SolverSettings \<Rightarrow> reserve_dists option
    \<Rightarrow> 'w \<Rightarrow> SolverResult \<times> 'w" where
  "solve_batch env sub_soldiers sub_duties carry settings sub_rd w =
     (case infeasibility_relaxation_chain env sub_soldiers sub_duties carry settings sub_rd w of
        (res, w1) \<Rightarrow>
          if r_status res = INFEASIBLE
          then solve_soft_coverage env sub_soldiers sub_duties carry settings sub_rd w1
          else (res, w1))"

definition extend_residual :: "bool \<Rightarrow> nat \<Rightarrow> SoldierInput list \<Rightarrow> DutyBlock list
    \<Rightarrow> ExistingAssignment list \<Rightarrow> (nat, DutyBlock list) dict \<Rightarrow> (nat, DutyBlock list) dict" where
  "extend_residual enforce_weapon comp_idx pool unassigned carry residual =
     dict_set residual comp_idx (dict_get_or residual comp_idx []
       @ filter (\<lambda>d. v_eligible_count (analyze_duty_availability pool d carry enforce_weapon) > 0)
           unassigned)"

definition main_batch :: "'w env \<Rightarrow> DutyBlock list \<Rightarrow> SolverSettings \<Rightarrow> reserve_dists option
    \<Rightarrow> int \<Rightarrow> nat \<Rightarrow> plan_entry \<Rightarrow> loop_state \<Rightarrow> 'w \<Rightarrow> flow \<times> 'w" where
  "main_batch env duties settings reserve_dist total_duties index entry s w =
     (case entry of (comp_idx, soldier_idxs, batch) \<Rightarrow>
      (case cancel_is_set env w of (cancelled, w1) \<Rightarrow>
        if cancelled then (Return (cancelled_result (seed_of settings) s), w1)
        else
          (let sub_soldiers = map (\<lambda>si. lp_work s ! si) soldier_idxs;
               sub_duties = map (\<lambda>di. duties ! di) batch;
               sub_rd = reserve_for_batch reserve_dist batch soldier_idxs;
               weapon = enforce_weapon_qualification settings
           in (case solve_batch env sub_soldiers sub_duties (lp_carry s)
                      (batch_settings settings) sub_rd w1 of
                 (res, w2) \<Rightarrow>
                   if r_status res = CANCELLED
                   then (Return (cancelled_result (r_seed res) s), w2)
                   else
                     (case record_batch duties weapon index comp_idx sub_soldiers sub_duties res
                             (int (length batch) - int (length (r_assignments res))) s of
                        None \<Rightarrow> (Raise, w2)
                      | Some s1 \<Rightarrow>
                         (let finished = lp_done s + int (length batch)
                          in (Next (s1\<lparr>lp_residual := extend_residual weapon comp_idx sub_soldiers
                                   (left_over sub_duties (r_assignments res)) (lp_carry s)
                                   (lp_residual s),
                                lp_done := finished\<rparr>),
                              notify env (Progress finished total_duties) w2)))))))"

text \<open>\<open>duty_index_by_id = {d.id: i for i, d in enumerate(duties)}\<close>.\<close>

definition duty_index_by_id :: "DutyBlock list \<Rightarrow> uuid \<Rightarrow> nat option" where
  "duty_index_by_id duties i =
     dict_get (fold (\<lambda>(k, d) m. dict_set m (d_id d) k) (indexed duties) []) i"

definition residual_batch :: "'w env \<Rightarrow> DutyBlock list \<Rightarrow> SolverSettings \<Rightarrow> reserve_dists option
    \<Rightarrow> nat \<Rightarrow> nat list \<Rightarrow> DutyBlock list \<Rightarrow> loop_state \<Rightarrow> 'w \<Rightarrow> flow \<times> 'w" where
  "residual_batch env duties settings reserve_dist comp_idx soldier_idxs residual s w =
     (case cancel_is_set env w of (cancelled, w1) \<Rightarrow>
        if cancelled then (Return (cancelled_result (seed_of settings) s), w1)
        else
          (case each (\<lambda>is d. case duty_index_by_id duties (d_id d) of None \<Rightarrow> None
                       | Some k \<Rightarrow> Some (is @ [k])) [] residual of
             None \<Rightarrow> (Raise, w1)
           | Some residual_duty_indices \<Rightarrow>
              (let sub_soldiers = map (\<lambda>si. lp_work s ! si) soldier_idxs;
                   sub_rd = reserve_for_batch reserve_dist residual_duty_indices soldier_idxs
               in (case solve_batch env sub_soldiers residual (lp_carry s)
                          (batch_settings settings) sub_rd w1 of
                     (res, w2) \<Rightarrow>
                       if r_status res = CANCELLED
                       then (Return (cancelled_result (r_seed res) s), w2)
                       else
                         (case record_batch duties (enforce_weapon_qualification settings)
                                 (length (lp_batches s)) comp_idx sub_soldiers residual res
                                 (int (length (left_over residual (r_assignments res)))) s of
                            None \<Rightarrow> (Raise, w2)
                          | Some s1 \<Rightarrow> (Next s1, w2))))))"

section \<open>The loop\<close>

definition pop_residual :: "nat \<Rightarrow> loop_state \<Rightarrow> loop_state" where
  "pop_residual comp_idx s = s\<lparr>lp_residual := filter (\<lambda>(k, v). k \<noteq> comp_idx) (lp_residual s)\<rparr>"

definition interleaved_step :: "'w env \<Rightarrow> DutyBlock list \<Rightarrow> SolverSettings
    \<Rightarrow> reserve_dists option \<Rightarrow> int \<Rightarrow> nat \<Rightarrow> plan_entry \<Rightarrow> plan_entry list \<Rightarrow> loop_state
    \<Rightarrow> 'w \<Rightarrow> flow \<times> 'w" where
  "interleaved_step env duties settings reserve_dist total_duties index entry rest s w =
     (case main_batch env duties settings reserve_dist total_duties index entry s w of
        (Next s1, w1) \<Rightarrow>
          (let comp_idx = fst entry;
               is_last_component_batch = (rest = [] \<or> fst (hd rest) \<noteq> comp_idx)
           in if is_last_component_batch then
                (let residual = dict_get_or (lp_residual s1) comp_idx [];
                     s2 = pop_residual comp_idx s1
                 in if residual \<noteq> []
                    then residual_batch env duties settings reserve_dist comp_idx
                           (fst (snd entry)) residual s2 w1
                    else (Next s2, w1))
              else (Next s1, w1))
      | (out, w1) \<Rightarrow> (out, w1))"

fun interleaved_loop :: "'w env \<Rightarrow> DutyBlock list \<Rightarrow> SolverSettings \<Rightarrow> reserve_dists option
    \<Rightarrow> int \<Rightarrow> nat \<Rightarrow> plan_entry list \<Rightarrow> loop_state \<Rightarrow> 'w \<Rightarrow> flow \<times> 'w" where
  "interleaved_loop env duties settings reserve_dist total_duties index [] s w = (Next s, w)"
| "interleaved_loop env duties settings reserve_dist total_duties index (entry # rest) s w =
     (case interleaved_step env duties settings reserve_dist total_duties index entry rest s w of
        (Next s1, w1) \<Rightarrow>
          interleaved_loop env duties settings reserve_dist total_duties (index + 1) rest s1 w1
      | (out, w1) \<Rightarrow> (out, w1))"

fun interleaved_plan :: "DutyBlock list \<Rightarrow> int \<Rightarrow> nat \<Rightarrow> (nat list \<times> nat list) list
    \<Rightarrow> plan_entry list option" where
  "interleaved_plan duties batch_size comp_idx [] = Some []"
| "interleaved_plan duties batch_size comp_idx ((duty_idxs, soldier_idxs) # comps) =
     (case (if soldier_idxs = [] then Some []
            else interleaved_duty_batches duty_idxs duties batch_size) of
        None \<Rightarrow> None
      | Some batches \<Rightarrow>
         (case interleaved_plan duties batch_size (comp_idx + 1) comps of
            None \<Rightarrow> None
          | Some plan \<Rightarrow> Some (map (\<lambda>batch. (comp_idx, soldier_idxs, batch)) batches @ plan)))"

definition planned_duties :: "plan_entry list \<Rightarrow> int" where
  "planned_duties plan = (\<Sum>(c, ss, batch)\<leftarrow>plan. int (length batch))"

text \<open>The value a finished flow stands for; None is an exception.\<close>

fun flow_result :: "SolverSettings \<Rightarrow> DutyBlock list \<Rightarrow> flow \<Rightarrow> SolverResult option" where
  "flow_result settings duties (Next s) = Some (finished_result settings duties s)"
| "flow_result settings duties (Return r) = Some r"
| "flow_result settings duties Raise = None"

definition interleaved_solve :: "'w env \<Rightarrow> SoldierInput list \<Rightarrow> DutyBlock list
    \<Rightarrow> ExistingAssignment list \<Rightarrow> SolverSettings \<Rightarrow> reserve_dists option
    \<Rightarrow> 'w \<Rightarrow> SolverResult option \<times> 'w" where
  "interleaved_solve env soldiers duties existing settings reserve_dist w =
     (case connected_components (length duties) (length soldiers)
             (eligible_pairs soldiers duties settings) of
        None \<Rightarrow> (None, w)
      | Some components \<Rightarrow>
         (case interleaved_plan duties (interleaved_batch_size settings) 0 components of
            None \<Rightarrow> (None, w)
          | Some plan \<Rightarrow>
             (let total_duties = planned_duties plan;
                  w0 = notify env (Progress 0 total_duties) w
              in (case interleaved_loop env duties settings reserve_dist total_duties 0 plan
                         (start_state soldiers existing) w0 of
                    (out, w1) \<Rightarrow> (flow_result settings duties out, w1)))))"

end
