(* ===== verification/InterleavedSound.thy ===== *)
theory InterleavedSound
  imports Interleaved
begin

text \<open>
  \<open>_interleaved_solve\<close> returns a schedule.  The invariant \<open>loop_ok\<close> says that the
  carried state is one of Contracts and that the duties still to be planned or kept as
  residual are distinct and unassigned; every step keeps it, so the loop never raises and
  never assigns a duty twice.
\<close>

section \<open>One solve of a batch\<close>

lemma solve_batch_ok:
  assumes "cp_sound env" "problem_ok st ss ds"
  shows "ensures (solve_batch env ss ds ex st rd) (\<lambda>r. assignments_ok st ss ds ex (r_assignments r))"
  unfolding solve_batch_def
  by (intro ensures_bind [OF chain.run_ok [OF assms]] ensures_if soft.run_ok [OF assms]
      ensures_return)

interpretation batch: batch_solver solve_batch
  by unfold_locales (rule solve_batch_ok)

section \<open>Lists of identifiers\<close>

lemma mset_dict_extend:
  "mset (concat (map snd (dict_set d k (dict_get_or d k [] @ xs)))) = mset (concat (map snd d)) + mset xs"
proof (induction d)
  case (Cons p d)
  obtain k' v where "p = (k', v)" by (cases p)
  with Cons show ?case by (simp add: dict_get_or_def dict_get_def)
qed (simp add: dict_get_or_def)

lemma mset_dict_pop:
  assumes "distinct (map fst d)"
  shows "mset (concat (map snd d))
    = mset (dict_get_or d k []) + mset (concat (map snd (filter (\<lambda>(k', v). k' \<noteq> k) d)))"
  using assms
proof (induction d)
  case (Cons p d)
  obtain k' v where p: "p = (k', v)" by (cases p)
  show ?case
  proof (cases "k' = k")
    case True
    then have "filter (\<lambda>(k', v). k' \<noteq> k) d = d"
      using Cons(2) p by (auto simp: filter_id_conv image_iff)
    with True show ?thesis by (simp add: p dict_get_or_def dict_get_def)
  next
    case False
    with Cons show ?thesis by (simp add: p dict_get_or_def dict_get_def)
  qed
qed (simp add: dict_get_or_def)

section \<open>The invariant\<close>

definition residual_duties :: "loop_state \<Rightarrow> DutyBlock list" where
  "residual_duties s = concat (map snd (lp_residual s))"

definition planned :: "plan_entry list \<Rightarrow> nat list" where
  "planned entries = concat (map (\<lambda>(c, ss, b). b) entries)"

definition pending :: "DutyBlock list \<Rightarrow> plan_entry list \<Rightarrow> loop_state \<Rightarrow> DutyBlock list" where
  "pending ds entries s = residual_duties s @ map (\<lambda>di. ds ! di) (planned entries)"

definition entry_ok :: "nat \<Rightarrow> nat \<Rightarrow> plan_entry \<Rightarrow> bool" where
  "entry_ok n m e = (case e of (c, sis, b) \<Rightarrow> distinct sis \<and> list_all (\<lambda>i. i < m) sis \<and> list_all (\<lambda>i. i < n) b)"

definition loop_ok :: "SolverSettings \<Rightarrow> SoldierInput list \<Rightarrow> DutyBlock list
    \<Rightarrow> ExistingAssignment list \<Rightarrow> plan_entry list \<Rightarrow> loop_state \<Rightarrow> bool" where
  "loop_ok st ss ds ex entries s \<longleftrightarrow>
     carry_ok st ss ds ex (lp_all s) (lp_carry s, lp_work s)
   \<and> distinct (map d_id (pending ds entries s)) \<and> set (pending ds entries s) \<subseteq> set ds
   \<and> a_duty_id ` set (lp_all s) \<inter> d_id ` set (pending ds entries s) = {}
   \<and> distinct (map fst (lp_residual s))"

fun flow_ok :: "SolverSettings \<Rightarrow> SoldierInput list \<Rightarrow> DutyBlock list
    \<Rightarrow> ExistingAssignment list \<Rightarrow> plan_entry list \<Rightarrow> flow \<Rightarrow> bool" where
  "flow_ok st ss ds ex entries (Next s) = loop_ok st ss ds ex entries s"
| "flow_ok st ss ds ex entries (Return r) = assignments_ok st ss ds ex (r_assignments r)"
| "flow_ok st ss ds ex entries Raise = False"

lemma record_batch_ok:
  assumes "absorb ds (lp_carry s, lp_work s) (r_assignments res) = Some c"
    and "carry_ok st ss ds ex (lp_all s @ r_assignments res) c"
  shows "\<exists>s1. record_batch ds w i ci pool sub res k s = Some s1
    \<and> lp_all s1 = lp_all s @ r_assignments res \<and> (lp_carry s1, lp_work s1) = c
    \<and> lp_residual s1 = lp_residual s"
proof -
  have "a_duty_id ` set (lp_all s @ r_assignments res) \<subseteq> d_id ` set ds"
    using assms(2) by (simp add: carry_ok_def assignments_ok_def names_ok_def)
  note sat = analyze_saturation_total [OF this]
  let ?un = "left_over sub (r_assignments res)"
  obtain cs where cs: "(if ?un \<noteq> [] then analyze_saturation ?un pool (lp_all s @ r_assignments res)
      (lp_carry s) (duty_by_id ds) else Some []) = Some cs"
    using sat [of ?un pool "lp_carry s"] by (cases "?un = []") auto
  show ?thesis
    using assms(1) by (cases c) (simp add: record_batch_def Let_def cs)
qed

lemma left_over_ids:
  "d_id ` set (left_over sub as) = d_id ` set sub - a_duty_id ` set as"
  by (auto simp: left_over_def)

text \<open>An ordinary batch.\<close>

lemma batch_settings_tightens: "tightens st (batch_settings st)"
  by (simp add: tightens_def batch_settings_def T_limit_def R_limit_def)

lemma cancelled_ok: "loop_ok st ss ds ex es s \<Longrightarrow> assignments_ok st ss ds ex (r_assignments (cancelled_result k s))"
  by (simp add: loop_ok_def carry_ok_def cancelled_result_def)

lemma pending_after:
  assumes ok: "distinct (map d_id (pending ds ((ci, sis, b) # rest) s))"
      "set (pending ds ((ci, sis, b) # rest) s) \<subseteq> set ds"
      "a_duty_id ` set (lp_all s) \<inter> d_id ` set (pending ds ((ci, sis, b) # rest) s) = {}"
    and new: "a_duty_id ` set as \<subseteq> d_id ` set (map (\<lambda>di. ds ! di) b)"
    and s1: "lp_all s1 = lp_all s @ as"
      "lp_residual s1 = extend_residual w ci pool (left_over (map (\<lambda>di. ds ! di) b) as) carry
         (lp_residual s)"
  shows "distinct (map d_id (pending ds rest s1)) \<and> set (pending ds rest s1) \<subseteq> set ds
    \<and> a_duty_id ` set (lp_all s1) \<inter> d_id ` set (pending ds rest s1) = {}"
proof -
  let ?sub = "map (\<lambda>di. ds ! di) b"
  let ?keep = "filter (\<lambda>d. v_eligible_count (analyze_duty_availability pool d carry w) > 0)
    (left_over ?sub as)"
  let ?others = "residual_duties s @ map (\<lambda>di. ds ! di) (planned rest)"
  have before: "mset (pending ds ((ci, sis, b) # rest) s) = mset ?others + mset ?sub"
    by (simp add: pending_def planned_def)
  have after: "mset (pending ds rest s1) = mset ?others + mset ?keep"
    by (simp add: pending_def residual_duties_def s1 extend_residual_def mset_dict_extend)
  have keep: "mset ?keep \<subseteq># mset ?sub"
    unfolding left_over_def filter_filter mset_filter by (rule multiset_filter_subset)
  then have "mset (map d_id (pending ds rest s1)) \<subseteq># mset (map d_id (pending ds ((ci, sis, b) # rest) s))"
    unfolding mset_map before after by (intro image_mset_subseteq_mono subset_mset.add_left_mono)
  then have d: "distinct (map d_id (pending ds rest s1))" using ok(1) by (rule distinct_submset [rotated])
  have set_after: "set (pending ds rest s1) = set ?others \<union> set ?keep"
    using arg_cong [OF after, of set_mset] by simp
  have set_before: "set (pending ds ((ci, sis, b) # rest) s) = set ?others \<union> set ?sub"
    using arg_cong [OF before, of set_mset] by simp
  have sub: "set ?keep \<subseteq> set ?sub" using set_mset_mono [OF keep] by simp
  have "mset (map d_id (?others @ ?sub)) = mset (map d_id (pending ds ((ci, sis, b) # rest) s))"
    by (simp only: mset_map mset_append before)
  from mset_eq_imp_distinct_iff [OF this] have "distinct (map d_id (?others @ ?sub))" using ok(1) by blast
  then have "set (map d_id ?others) \<inter> set (map d_id ?sub) = {}"
    unfolding map_append [of d_id ?others] distinct_append by blast
  then have "d_id ` set ?others \<inter> d_id ` set ?sub = {}" unfolding set_map [of d_id] .
  moreover have "d_id ` set ?keep \<inter> a_duty_id ` set as = {}" by (auto simp: left_over_def)
  moreover have "A \<inter> (Q \<union> S) = {} \<Longrightarrow> N \<subseteq> S \<Longrightarrow> K \<subseteq> S \<Longrightarrow> Q \<inter> S = {} \<Longrightarrow> K \<inter> N = {}
      \<Longrightarrow> (A \<union> N) \<inter> (Q \<union> K) = {}" for A Q S N K :: "uuid set" by blast
  ultimately have "a_duty_id ` set (lp_all s1) \<inter> d_id ` set (pending ds rest s1) = {}"
    using ok(3) new image_mono [OF sub, of d_id]
    unfolding set_after set_before s1 set_append [of "lp_all s"] image_Un by (simp only: image_Un)
  with d show ?thesis using ok(2) sub unfolding set_after set_before by blast
qed

text \<open>What a step may use of the invariant, and how a step without residual keeps it.\<close>

lemma loop_head:
  assumes "loop_ok st ss ds ex ((ci, sis, b) # rest) s"
  shows "carry_ok st ss ds ex (lp_all s) (lp_carry s, lp_work s)"
    and "set (map (\<lambda>di. ds ! di) b) \<subseteq> set ds" and "distinct (map d_id (map (\<lambda>di. ds ! di) b))"
    and "a_duty_id ` set (lp_all s) \<inter> d_id ` set (map (\<lambda>di. ds ! di) b) = {}"
proof -
  let ?p = "pending ds ((ci, sis, b) # rest) s" and ?sub = "map (\<lambda>di. ds ! di) b"
  have sub: "set ?sub \<subseteq> set ?p" by (auto simp: pending_def planned_def)
  show "carry_ok st ss ds ex (lp_all s) (lp_carry s, lp_work s)" using assms by (simp add: loop_ok_def)
  show "set ?sub \<subseteq> set ds" using sub assms unfolding loop_ok_def by blast
  show "distinct (map d_id ?sub)" using assms by (simp add: loop_ok_def pending_def planned_def)
  show "a_duty_id ` set (lp_all s) \<inter> d_id ` set ?sub = {}"
    using sub assms unfolding loop_ok_def by blast
qed

lemma loop_next:
  assumes ok: "loop_ok st ss ds ex ((ci, sis, b) # rest) s"
    and new: "a_duty_id ` set as \<subseteq> d_id ` set (map (\<lambda>di. ds ! di) b)"
      "lp_all s1 = lp_all s @ as" "carry_ok st ss ds ex (lp_all s @ as) (lp_carry s1, lp_work s1)"
      "lp_residual s1 = lp_residual s"
  shows "loop_ok st ss ds ex rest s1"
proof -
  let ?p = "pending ds ((ci, sis, b) # rest) s" and ?sub = "map (\<lambda>di. ds ! di) b"
  let ?others = "pending ds rest s1"
  have m: "mset ?p = mset (?sub @ ?others)"
    using new(4) by (simp add: pending_def planned_def residual_duties_def)
  then have "mset (map d_id (?sub @ ?others)) = mset (map d_id ?p)" by (simp only: mset_map)
  from mset_eq_imp_distinct_iff [OF this] have "distinct (map d_id (?sub @ ?others))"
    using ok unfolding loop_ok_def by blast
  then have dist: "distinct (map d_id ?others)" "set (map d_id ?sub) \<inter> set (map d_id ?others) = {}"
    unfolding map_append [of d_id ?sub] distinct_append by blast+
  have set: "set ?p = set ?sub \<union> set ?others" using arg_cong [OF m, of set_mset] by simp
  have "a_duty_id ` set as \<inter> d_id ` set ?others = {}"
    using new(1) dist(2) unfolding set_map [of d_id] by blast
  moreover have "a_duty_id ` set (lp_all s) \<inter> d_id ` set ?others = {}"
    using ok set unfolding loop_ok_def by blast
  ultimately have "a_duty_id ` set (lp_all s1) \<inter> d_id ` set ?others = {}"
    unfolding new(2) set_append image_Un by (simp add: Int_Un_distrib2)
  moreover have "set ?others \<subseteq> set ds" using ok set unfolding loop_ok_def by blast
  ultimately show ?thesis using ok new dist(1) by (simp add: loop_ok_def)
qed

lemma main_batch_ok:
  assumes env: "cp_sound env" and prob: "problem_ok st ss ds"
    and entry: "entry_ok (length ds) (length ss) e" and ok: "loop_ok st ss ds ex (e # rest) s"
  shows "ensures (main_batch env ds st rd n i e s) (flow_ok st ss ds ex rest)"
proof -
  obtain ci sis b where e: "e = (ci, sis, b)" by (cases e)
  let ?sub = "map (\<lambda>di. ds ! di) b" and ?pool = "map (\<lambda>si. lp_work s ! si) sis"
  let ?w = "enforce_weapon_qualification st"
  have pend: "distinct (map d_id (pending ds ((ci, sis, b) # rest) s))"
      "set (pending ds ((ci, sis, b) # rest) s) \<subseteq> set ds"
      "a_duty_id ` set (lp_all s) \<inter> d_id ` set (pending ds ((ci, sis, b) # rest) s) = {}"
    and keys: "distinct (map fst (lp_residual s))"
    using ok unfolding loop_ok_def e by blast+
  note head = loop_head [OF ok [unfolded e]]
  have idx: "distinct sis" "list_all (\<lambda>i. i < length ss) sis"
    using entry by (simp_all add: entry_ok_def e)
  note run = batch.run_batch [OF env head(1) prob idx head(2-4) batch_settings_tightens]
  have stop: "flow_ok st ss ds ex rest (Return (cancelled_result k s))" for k
    using cancelled_ok [OF ok] by simp
  have go: "\<exists>s1. record_batch ds ?w i ci ?pool ?sub r k s = Some s1
      \<and> flow_ok st ss ds ex rest (Next (s1\<lparr>lp_residual := extend_residual ?w ci ?pool
            (left_over ?sub (r_assignments r)) (lp_carry s) (lp_residual s), lp_done := f\<rparr>))"
    if r: "a_duty_id ` set (r_assignments r) \<subseteq> d_id ` set ?sub
       \<and> (\<exists>c'. absorb ds (lp_carry s, lp_work s) (r_assignments r) = Some c'
            \<and> carry_ok st ss ds ex (lp_all s @ r_assignments r) c')" for r k f
  proof -
    obtain c where c: "absorb ds (lp_carry s, lp_work s) (r_assignments r) = Some c"
        "carry_ok st ss ds ex (lp_all s @ r_assignments r) c" using r by blast
    obtain s1 where s1: "record_batch ds ?w i ci ?pool ?sub r k s = Some s1"
        "lp_all s1 = lp_all s @ r_assignments r" "(lp_carry s1, lp_work s1) = c"
      using record_batch_ok [OF c] by blast
    let ?s = "s1\<lparr>lp_residual := extend_residual ?w ci ?pool
            (left_over ?sub (r_assignments r)) (lp_carry s) (lp_residual s), lp_done := f\<rparr>"
    have "distinct (map d_id (pending ds rest ?s)) \<and> set (pending ds rest ?s) \<subseteq> set ds
        \<and> a_duty_id ` set (lp_all ?s) \<inter> d_id ` set (pending ds rest ?s) = {}"
      by (rule pending_after [OF pend]) (use r s1 in auto)
    moreover have "distinct (map fst (lp_residual ?s))" using keys by (simp add: extend_residual_def)
    ultimately have "flow_ok st ss ds ex rest (Next ?s)"
      using c(2) s1 by (simp add: loop_ok_def)
    with s1(1) show ?thesis by blast
  qed
  show ?thesis
    unfolding main_batch_def e prod.case Let_def
  proof (intro ensures_bind [of "cancel_is_set env" "\<lambda>_. True"] ensures_bind [OF run] ensures_if
      ensures_return stop, goal_cases)
    case (2 c r)
    then show ?case
      using go [of r "int (length b) - int (length (r_assignments r))" "lp_done s + int (length b)"]
      by (auto simp: ensures_def)
  qed (simp_all add: ensures_def)
qed

section \<open>The second attempt\<close>

lemma duty_index_total: "i \<in> d_id ` set ds \<Longrightarrow> \<exists>k. duty_index_by_id ds i = Some k"
proof -
  have keys: "fst ` set (fold (\<lambda>(k, d) m. dict_set m (d_id d) k) xs m) = fst ` set m \<union> (d_id \<circ> snd) ` set xs"
    for xs :: "(nat \<times> DutyBlock) list" and m
    by (induction xs arbitrary: m) (simp_all add: case_prod_beta insert_commute Un_commute)
  assume "i \<in> d_id ` set ds"
  then have "i \<in> (d_id \<circ> snd) ` set (indexed ds)"
    by (force simp: set_indexed in_set_conv_nth image_iff)
  then have "i \<in> fst ` set (fold (\<lambda>(k, d) m. dict_set m (d_id d) k) (indexed ds) [])"
    unfolding keys by blast
  then show ?thesis
    unfolding duty_index_by_id_def dict_get_def by (metis map_of_eq_None_iff option.exhaust)
qed

lemma residual_batch_ok:
  assumes env: "cp_sound env" and prob: "problem_ok st ss ds"
    and idx: "distinct sis" "list_all (\<lambda>i. i < length ss) sis"
    and ok: "loop_ok st ss ds ex rest s"
    and res: "set residual \<subseteq> set ds" "distinct (map d_id residual)"
      "a_duty_id ` set (lp_all s) \<inter> d_id ` set residual = {}"
      "d_id ` set residual \<inter> d_id ` set (pending ds rest s) = {}"
  shows "ensures (residual_batch env ds st rd ci sis residual s) (flow_ok st ss ds ex rest)"
proof -
  let ?pool = "map (\<lambda>si. lp_work s ! si) sis" and ?w = "enforce_weapon_qualification st"
  have carry: "carry_ok st ss ds ex (lp_all s) (lp_carry s, lp_work s)"
    using ok by (simp add: loop_ok_def)
  note run = batch.run_batch [OF env carry prob idx res(1-3) batch_settings_tightens]
  have stop: "flow_ok st ss ds ex rest (Return (cancelled_result k s))" for k
    using cancelled_ok [OF ok] by simp
  have "\<exists>ks. each (\<lambda>is d. case duty_index_by_id ds (d_id d) of None \<Rightarrow> None
                       | Some k \<Rightarrow> Some (is @ [k])) [] residual = Some ks"
  proof (rule each_total)
    fix ks d assume "d \<in> set residual"
    then have "d_id d \<in> d_id ` set ds" using res(1) by auto
    from duty_index_total [OF this]
    show "\<exists>s'. (case duty_index_by_id ds (d_id d) of None \<Rightarrow> None | Some k \<Rightarrow> Some (ks @ [k])) = Some s'"
      by auto
  qed
  then obtain ks where ks: "each (\<lambda>is d. case duty_index_by_id ds (d_id d) of None \<Rightarrow> None
                       | Some k \<Rightarrow> Some (is @ [k])) [] residual = Some ks" ..
  have go: "\<exists>s1. record_batch ds ?w i ci ?pool residual r k s = Some s1
      \<and> flow_ok st ss ds ex rest (Next s1)"
    if r: "a_duty_id ` set (r_assignments r) \<subseteq> d_id ` set residual
       \<and> (\<exists>c'. absorb ds (lp_carry s, lp_work s) (r_assignments r) = Some c'
            \<and> carry_ok st ss ds ex (lp_all s @ r_assignments r) c')" for r k i
  proof -
    obtain c where c: "absorb ds (lp_carry s, lp_work s) (r_assignments r) = Some c"
        "carry_ok st ss ds ex (lp_all s @ r_assignments r) c" using r by blast
    obtain s1 where s1: "record_batch ds ?w i ci ?pool residual r k s = Some s1"
        "lp_all s1 = lp_all s @ r_assignments r" "(lp_carry s1, lp_work s1) = c"
        "lp_residual s1 = lp_residual s"
      using record_batch_ok [OF c] by blast
    have "pending ds rest s1 = pending ds rest s" using s1(4) by (simp add: pending_def residual_duties_def)
    moreover have "a_duty_id ` set (lp_all s1) \<inter> d_id ` set (pending ds rest s) = {}"
    proof -
      have "a_duty_id ` set (lp_all s) \<inter> d_id ` set (pending ds rest s) = {}"
        using ok by (simp add: loop_ok_def)
      moreover have "a_duty_id ` set (r_assignments r) \<inter> d_id ` set (pending ds rest s) = {}"
        using r res(4) by blast
      ultimately show ?thesis unfolding s1(2) set_append image_Un by blast
    qed
    ultimately have "flow_ok st ss ds ex rest (Next s1)"
      using ok c(2) s1 by (simp add: loop_ok_def)
    with s1(1) show ?thesis by blast
  qed
  show ?thesis
    unfolding residual_batch_def ks option.case Let_def
  proof (intro ensures_bind [of "cancel_is_set env" "\<lambda>_. True"] ensures_bind [OF run] ensures_if
      ensures_return stop, goal_cases)
    case (2 c r)
    then show ?case
      using go [of r "length (lp_batches s)" "int (length (left_over residual (r_assignments r)))"]
      by (auto simp: ensures_def)
  qed (simp_all add: ensures_def)
qed

section \<open>The loop\<close>

lemma pop_residual_ok:
  fixes ci :: nat
  assumes "loop_ok st ss ds ex rest s"
  defines "r \<equiv> dict_get_or (lp_residual s) ci []"
  shows "loop_ok st ss ds ex rest (pop_residual ci s)"
    and "set r \<subseteq> set ds" "distinct (map d_id r)" "a_duty_id ` set (lp_all s) \<inter> d_id ` set r = {}"
    and "d_id ` set r \<inter> d_id ` set (pending ds rest (pop_residual ci s)) = {}"
proof -
  let ?p = "pending ds rest s" and ?q = "pending ds rest (pop_residual ci s)"
  have ok: "distinct (map d_id ?p)" "set ?p \<subseteq> set ds" "a_duty_id ` set (lp_all s) \<inter> d_id ` set ?p = {}"
    "distinct (map fst (lp_residual s))"
    using assms(1) unfolding loop_ok_def by blast+
  have m: "mset ?p = mset (r @ ?q)"
    using mset_dict_pop [OF ok(4), of ci]
    by (simp add: pending_def residual_duties_def pop_residual_def r_def)
  then have "mset (map d_id ?p) = mset (map d_id (r @ ?q))" by (simp only: mset_map)
  from mset_eq_imp_distinct_iff [OF this] have "distinct (map d_id (r @ ?q))" using ok(1) by blast
  then have d: "distinct (map d_id r)" "distinct (map d_id ?q)" "d_id ` set r \<inter> d_id ` set ?q = {}"
    by auto
  have set: "set ?p = set r \<union> set ?q" using arg_cong [OF m, of set_mset] by simp
  show "set r \<subseteq> set ds" "distinct (map d_id r)" "a_duty_id ` set (lp_all s) \<inter> d_id ` set r = {}"
    "d_id ` set r \<inter> d_id ` set ?q = {}"
    using ok(2,3) d set by blast+
  have "distinct (map fst (lp_residual (pop_residual ci s)))"
    using ok(4) by (simp add: pop_residual_def distinct_map_filter)
  moreover have "carry_ok st ss ds ex (lp_all (pop_residual ci s))
      (lp_carry (pop_residual ci s), lp_work (pop_residual ci s))"
    using assms(1) by (simp add: loop_ok_def pop_residual_def)
  moreover have "lp_all (pop_residual ci s) = lp_all s" by (simp add: pop_residual_def)
  ultimately show "loop_ok st ss ds ex rest (pop_residual ci s)"
    using ok(2,3) d set unfolding loop_ok_def by auto
qed

lemma flow_bind:
  assumes "ensures m (flow_ok st ss ds ex es)"
    and "\<And>s. loop_ok st ss ds ex es s \<Longrightarrow> ensures (f s) (flow_ok st ss ds ex es')"
  shows "ensures (\<lambda>w. case m w of (Next s, w1) \<Rightarrow> f s w1 | (out, w1) \<Rightarrow> (out, w1)) (flow_ok st ss ds ex es')"
proof (rule ensuresI)
  fix w
  obtain fl w1 where m: "m w = (fl, w1)" by (cases "m w")
  have ok: "flow_ok st ss ds ex es fl" by (rule ensures_fst [OF assms(1) m])
  show "flow_ok st ss ds ex es' (fst (case m w of (Next s, w1) \<Rightarrow> f s w1 | (out, w1) \<Rightarrow> (out, w1)))"
    using ok assms(2) m by (cases fl) (auto simp: ensures_def)
qed

lemma interleaved_step_ok:
  assumes env: "cp_sound env" and prob: "problem_ok st ss ds"
    and entry: "entry_ok (length ds) (length ss) e" and ok: "loop_ok st ss ds ex (e # rest) s"
  shows "ensures (interleaved_step env ds st rd n i e rest s) (flow_ok st ss ds ex rest)"
  unfolding interleaved_step_def Let_def
proof (rule flow_bind [OF main_batch_ok [OF env prob entry ok]])
  fix s1 assume s1: "loop_ok st ss ds ex rest s1"
  note pop = pop_residual_ok [OF s1, of "fst e"]
  have idx: "distinct (fst (snd e))" "list_all (\<lambda>i. i < length ss) (fst (snd e))"
    using entry by (auto simp: entry_ok_def)
  have "a_duty_id ` set (lp_all (pop_residual (fst e) s1))
      \<inter> d_id ` set (dict_get_or (lp_residual s1) (fst e) []) = {}"
    using pop(4) by (simp add: pop_residual_def)
  note res = residual_batch_ok [OF env prob idx pop(1-3) this pop(5)]
  show "ensures (\<lambda>w1. if rest = [] \<or> fst (hd rest) \<noteq> fst e
      then if dict_get_or (lp_residual s1) (fst e) [] \<noteq> []
           then residual_batch env ds st rd (fst e) (fst (snd e))
                  (dict_get_or (lp_residual s1) (fst e) []) (pop_residual (fst e) s1) w1
           else (Next (pop_residual (fst e) s1), w1)
      else (Next s1, w1)) (flow_ok st ss ds ex rest)"
    by (intro ensures_if res ensures_return) (simp_all add: pop(1) s1)
qed

lemma interleaved_loop_ok:
  assumes "cp_sound env" "problem_ok st ss ds"
    and "list_all (entry_ok (length ds) (length ss)) es" "loop_ok st ss ds ex es s"
  shows "ensures (interleaved_loop env ds st rd n i es s) (flow_ok st ss ds ex [])"
  using assms(3,4)
proof (induction es arbitrary: i s)
  case Nil
  then show ?case by (simp add: ensures_def)
next
  case (Cons e es)
  have "ensures (interleaved_loop env ds st rd n (i + 1) es s1) (flow_ok st ss ds ex [])"
    if "loop_ok st ss ds ex es s1" for s1
    using Cons that by simp
  from flow_bind [OF interleaved_step_ok [OF assms(1,2) _ Cons(3)] this] Cons(2)
  show ?case by (simp add: interleaved_loop.simps(2) [abs_def])
qed

section \<open>The plan\<close>

lemma interleaved_plan_ok:
  assumes "batch_size \<noteq> 0" "list_all (\<lambda>c. distinct (snd c) \<and> list_all (\<lambda>i. i < m) (snd c)) comps"
    and "list_all (\<lambda>c. list_all (\<lambda>i. i < n) (fst c)) comps"
  shows "\<exists>plan. interleaved_plan ds batch_size k comps = Some plan \<and> list_all (entry_ok n m) plan
    \<and> mset (planned plan) \<subseteq># mset (concat (map fst comps))"
  using assms(2,3)
proof (induction comps arbitrary: k)
  case (Cons c comps)
  obtain dis sis where c: "c = (dis, sis)" by (cases c)
  obtain plan where plan: "interleaved_plan ds batch_size (k + 1) comps = Some plan"
      "list_all (entry_ok n m) plan" "mset (planned plan) \<subseteq># mset (concat (map fst comps))"
    using Cons.IH [of "k + 1"] Cons.prems by auto
  show ?case
  proof (cases "sis = []")
    case True
    have "mset (planned plan) \<subseteq># mset dis + mset (concat (map fst comps))"
      using plan(3) by (simp add: subset_mset.add_increasing)
    then show ?thesis using True plan c by simp
  next
    case False
    obtain bs where bs: "interleaved_duty_batches dis ds batch_size = Some bs"
      using interleaved_Some [OF assms(1)] by blast
    have m: "mset (concat bs) = mset dis" by (rule interleaved_mset [OF bs])
    have "i < n" if "b \<in> set bs" "i \<in> set b" for b i
    proof -
      have "i \<in> set (concat bs)" using that by auto
      then have "i \<in> set dis" using m by (metis set_mset_mset)
      then show ?thesis using Cons.prems(2) c by (simp add: list_all_iff)
    qed
    then have "list_all (entry_ok n m) (map (\<lambda>b. (k, sis, b)) bs)"
      using Cons.prems(1) c by (simp add: entry_ok_def list_all_iff)
    moreover have "planned (map (\<lambda>b. (k, sis, b)) bs @ plan) = concat bs @ planned plan"
      by (simp add: planned_def comp_def)
    moreover have "mset (concat bs @ planned plan) \<subseteq># mset dis + mset (concat (map fst comps))"
      using m plan(3) by simp
    ultimately show ?thesis using False plan bs c by simp
  qed
qed (simp add: planned_def)

section \<open>The whole run\<close>

lemma flow_result_spec:
  assumes "flow_ok st ss ds ex [] fl"
  shows "run_spec st ss ds ex (flow_result st ds fl)"
proof -
  have "assignments_ok st ss ds ex (sort_key a_duty_id as)" if "assignments_ok st ss ds ex as" for as
    using that by (simp add: assignments_ok_def names_ok_def placed_def distinct_map)
  with assms show ?thesis
    by (cases fl) (auto simp: run_spec_def finished_result_def Let_def loop_ok_def carry_ok_def)
qed

lemma loop_ok_start:
  assumes "problem_ok st ss ds" "list_all (entry_ok (length ds) m) plan"
    and "distinct (planned plan)"
  shows "loop_ok st ss ds ex plan (start_state ss ex)"
proof -
  have lt: "i < length ds" if "i \<in> set (planned plan)" for i
    using that assms(2) by (force simp: planned_def list_all_iff entry_ok_def)
  have "distinct (map (\<lambda>i. d_id (ds ! i)) (planned plan))"
    using assms(1,3) lt index_by_key [of d_id ds]
    by (auto simp: distinct_map inj_on_def problem_ok_def)
  then show ?thesis
    using lt by (auto simp: loop_ok_def start_state_def carry_ok_start pending_def
        residual_duties_def comp_def)
qed

lemma eligible_pairs_bounds:
  "set (eligible_pairs ss ds st) \<subseteq> {..<length ds} \<times> {..<length ss}"
  by (auto simp: mem_eligible_pairs)

lemma components_bounds:
  obtains comps where
    "connected_components (length ds) (length ss) (eligible_pairs ss ds st) = Some comps"
    "mset (concat (map fst comps)) = mset [0..<length ds]"
    "list_all (\<lambda>c. distinct (snd c) \<and> list_all (\<lambda>i. i < length ss) (snd c)) comps"
    "list_all (\<lambda>c. list_all (\<lambda>i. i < length ds) (fst c)) comps"
proof -
  obtain comps where c: "connected_components (length ds) (length ss) (eligible_pairs ss ds st) = Some comps"
      "mset (concat (map fst comps)) = mset [0..<length ds]"
      "list_all (\<lambda>c. distinct (snd c) \<and> list_all (\<lambda>i. i < length ss) (snd c)) comps"
    using components_wf [OF eligible_pairs_bounds] by blast
  have "set (concat (map fst comps)) = {0..<length ds}"
    using arg_cong [OF c(2), of set_mset] by (simp only: set_mset_mset set_upt)
  then have "list_all (\<lambda>c. list_all (\<lambda>i. i < length ds) (fst c)) comps"
    by (fastforce simp: list_all_iff)
  with c show ?thesis by (rule that)
qed

lemma interleaved_solve_ok:
  assumes "cp_sound env" "problem_ok st ss ds" "interleaved_batch_size st \<noteq> 0"
  shows "ensures (interleaved_solve env ss ds ex st rd) (run_spec st ss ds ex)"
proof -
  obtain comps where c: "connected_components (length ds) (length ss) (eligible_pairs ss ds st) = Some comps"
      "mset (concat (map fst comps)) = mset [0..<length ds]"
      "list_all (\<lambda>c. distinct (snd c) \<and> list_all (\<lambda>i. i < length ss) (snd c)) comps"
      "list_all (\<lambda>c. list_all (\<lambda>i. i < length ds) (fst c)) comps"
    by (rule components_bounds)
  from interleaved_plan_ok [OF assms(3) c(3,4)] obtain plan where
    plan: "interleaved_plan ds (interleaved_batch_size st) 0 comps = Some plan"
      "list_all (entry_ok (length ds) (length ss)) plan"
      "mset (planned plan) \<subseteq># mset (concat (map fst comps))" by blast
  have "distinct (planned plan)"
    by (rule distinct_submset [of "[0..<length ds]"]) (use plan(3) c(2) in simp_all)
  note loop = interleaved_loop_ok [OF assms(1,2) plan(2) loop_ok_start [OF assms(2) plan(2) this]]
  show ?thesis
  proof (rule ensuresI)
    fix w
    let ?n = "planned_duties plan"
    let ?r = "interleaved_loop env ds st rd ?n 0 plan (start_state ss ex) (notify env (Progress 0 ?n) w)"
    obtain fl w1 where r: "?r = (fl, w1)" by (cases ?r)
    have "flow_ok st ss ds ex [] fl" by (rule ensures_fst [OF loop r])
    then show "run_spec st ss ds ex (fst (interleaved_solve env ss ds ex st rd w))"
      using flow_result_spec by (simp add: interleaved_solve_def c(1) plan(1) Let_def r)
  qed
qed

end
