(* ===== verification/Rounds.thy ===== *)
theory Rounds
  imports InterleavedSound
begin

text \<open>
  \<open>_effort_round_solve\<close> and what it is made of: one complete attempt at a component
  (\<open>_solve_component_once\<close>: a hard solve, then rounds of soldiers by effort, then the
  whole pool), a retry with doubled budgets (\<open>_probe_with_retry\<close>), and the binary
  search of the relaxation ladder (\<open>_search_relaxation_ladder\<close>).  An exception is None.
\<close>

section \<open>One attempt at a component\<close>

record comp_state =
  cs_carry :: "ExistingAssignment list"
  cs_pool :: "SoldierInput list"
  cs_residual :: "DutyBlock list"
  cs_assigned :: "Assignment list"

text \<open>\<open>_absorb_local\<close>.\<close>

definition absorb_local :: "DutyBlock list \<Rightarrow> Assignment list \<Rightarrow> comp_state \<Rightarrow> comp_state option" where
  "absorb_local component_duties assignments s =
     (case absorb component_duties (cs_carry s, cs_pool s) assignments of
        None \<Rightarrow> None
      | Some (carry, pool) \<Rightarrow> Some \<lparr>cs_carry = carry, cs_pool = pool,
          cs_residual = left_over (cs_residual s) assignments,
          cs_assigned = cs_assigned s @ assignments\<rparr>)"

type_synonym remap_fn = "SoldierInput list \<Rightarrow> DutyBlock list \<Rightarrow> reserve_dists option"

datatype comp_flow = Go comp_state | Stop SolverResult | Fail

text \<open>One soft-coverage pass of a group, given by the indices of its soldiers.\<close>

definition soft_pass :: "'w env \<Rightarrow> DutyBlock list \<Rightarrow> SolverSettings \<Rightarrow> remap_fn \<Rightarrow> nat list
    \<Rightarrow> comp_state \<Rightarrow> 'w \<Rightarrow> comp_flow \<times> 'w" where
  "soft_pass env component_duties base_settings remap_rd idxs s w =
     (let grp = map (\<lambda>i. cs_pool s ! i) idxs
      in (case solve_soft_coverage env grp (cs_residual s) (cs_carry s) base_settings
                 (remap_rd grp (cs_residual s)) w of
            (res, w1) \<Rightarrow>
              if r_status res = CANCELLED
              then (Stop (plain_result base_settings [] CANCELLED []), w1)
              else (case absorb_local component_duties (r_assignments res) s of
                      None \<Rightarrow> (Fail, w1) | Some s1 \<Rightarrow> (Go s1, w1))))"

fun rounds :: "'w env \<Rightarrow> DutyBlock list \<Rightarrow> SolverSettings \<Rightarrow> remap_fn \<Rightarrow> nat list list
    \<Rightarrow> comp_state \<Rightarrow> 'w \<Rightarrow> comp_flow \<times> 'w" where
  "rounds env component_duties base_settings remap_rd [] s w = (Go s, w)"
| "rounds env component_duties base_settings remap_rd (grp # grps) s w =
     (if cs_residual s = [] then (Go s, w)
      else
        (case soft_pass env component_duties base_settings remap_rd grp s w of
           (Go s1, w1) \<Rightarrow> rounds env component_duties base_settings remap_rd grps s1 w1
         | (out, w1) \<Rightarrow> (out, w1)))"

text \<open>\<open>xs[gi:gi + k] for gi in range(0, len(xs), k)\<close>, for a positive \<open>k\<close>.\<close>

function chunks :: "nat \<Rightarrow> 'a list \<Rightarrow> 'a list list" where
  "chunks k xs = (if xs = [] \<or> k = 0 then [] else take k xs # chunks k (drop k xs))"
  by pat_completeness auto
termination by (relation "measure (\<lambda>(k, xs). length xs)") auto

declare chunks.simps [simp del]

text \<open>\<open>sorted(pool, key=lambda s: (s.effort_offset, hash((seed, s.id))))\<close>, as indices.\<close>

definition group_order :: "'w env \<Rightarrow> int \<Rightarrow> SoldierInput list \<Rightarrow> nat list" where
  "group_order env sd pool =
     sort_by (\<lambda>i j. s_effort_offset (pool ! i) < s_effort_offset (pool ! j)
        \<or> s_effort_offset (pool ! i) = s_effort_offset (pool ! j)
          \<and> py_hash env sd (s_id (pool ! i)) \<le> py_hash env sd (s_id (pool ! j)))
       [0..<length pool]"

definition component_status :: "DutyBlock list \<Rightarrow> comp_state \<Rightarrow> outcome" where
  "component_status component_duties s =
     (if cs_assigned s = [] then (if component_duties \<noteq> [] then INFEASIBLE else OPTIMAL)
      else if cs_residual s \<noteq> [] then FEASIBLE else OPTIMAL)"

text \<open>Phases 1 and 2, after the hard solve found nothing.\<close>

definition soft_phases :: "'w env \<Rightarrow> DutyBlock list \<Rightarrow> SolverSettings \<Rightarrow> remap_fn
    \<Rightarrow> comp_state \<Rightarrow> 'w \<Rightarrow> comp_flow \<times> 'w" where
  "soft_phases env component_duties settings remap_rd s w =
     (let base_settings = batch_settings settings;
          group_pool = group_order env (seed_of settings) (cs_pool s);
          rsc = nat (max 1 (round_soldier_count settings))
      in (case rounds env component_duties base_settings remap_rd (chunks rsc group_pool) s w of
            (Go s1, w1) \<Rightarrow>
              if cs_residual s1 \<noteq> []
              then soft_pass env component_duties base_settings remap_rd
                     [0..<length (cs_pool s1)] s1 w1
              else (Go s1, w1)
          | (out, w1) \<Rightarrow> (out, w1)))"

definition solve_component_once :: "'w env \<Rightarrow> SoldierInput list \<Rightarrow> DutyBlock list
    \<Rightarrow> ExistingAssignment list \<Rightarrow> SolverSettings \<Rightarrow> remap_fn
    \<Rightarrow> 'w \<Rightarrow> SolverResult option \<times> 'w" where
  "solve_component_once env full_pool component_duties carry settings remap_rd w =
     (let s0 = \<lparr>cs_carry = carry, cs_pool = full_pool, cs_residual = component_duties,
                cs_assigned = []\<rparr>
      in (case solve_with_settings env full_pool component_duties carry settings
                 (remap_rd full_pool component_duties) w of
            ((x0, a0), w1) \<Rightarrow>
         (case cancel_is_set env w1 of (cancelled, w2) \<Rightarrow>
            if cancelled then (Some (plain_result settings [] CANCELLED []), w2)
            else if solved (ans_status a0) then
              (case absorb_local component_duties (assignments_of full_pool component_duties x0 a0) s0 of
                 None \<Rightarrow> (None, w2)
               | Some s1 \<Rightarrow> (Some (plain_result settings (cs_assigned s1) OPTIMAL []), w2))
            else
              (case soft_phases env component_duties settings remap_rd s0 w2 of
                 (Go s1, w3) \<Rightarrow>
                   (Some (plain_result settings (cs_assigned s1)
                            (component_status component_duties s1) []), w3)
               | (Stop r, w3) \<Rightarrow> (Some r, w3)
               | (Fail, w3) \<Rightarrow> (None, w3)))))"

section \<open>Probing the ladder\<close>

definition extended_settings :: "SolverSettings \<Rightarrow> SolverSettings" where
  "extended_settings settings = settings
     \<lparr>time_limit_seconds := time_limit_seconds settings * 2,
      batch_time_limit_seconds := batch_time_limit_seconds settings * 2\<rparr>"

definition probe_with_retry :: "'w env \<Rightarrow> SoldierInput list \<Rightarrow> DutyBlock list
    \<Rightarrow> ExistingAssignment list \<Rightarrow> SolverSettings \<Rightarrow> remap_fn
    \<Rightarrow> 'w \<Rightarrow> SolverResult option \<times> 'w" where
  "probe_with_retry env full_pool component_duties carry settings remap_rd w =
     (case solve_component_once env full_pool component_duties carry settings remap_rd w of
        (None, w1) \<Rightarrow> (None, w1)
      | (Some result, w1) \<Rightarrow>
          if r_status result = CANCELLED
             \<or> length (r_assignments result) = length component_duties
          then (Some result, w1)
          else
            (case solve_component_once env full_pool component_duties carry
                    (extended_settings settings) remap_rd w1 of
               (None, w2) \<Rightarrow> (None, w2)
             | (Some retry, w2) \<Rightarrow>
                 if r_status retry = CANCELLED then (Some retry, w2)
                 else if length (r_assignments retry) > length (r_assignments result)
                      then (Some retry, w2) else (Some result, w2)))"

definition better :: "DutyBlock list \<Rightarrow> SolverResult \<Rightarrow> SolverResult \<Rightarrow> SolverResult" where
  "better component_duties a b =
     (if length (r_assignments a) = length component_duties then a
      else if length (r_assignments b) = length component_duties then b
      else if length (r_assignments a) \<ge> length (r_assignments b) then a else b)"

text \<open>
  The binary search over the positions below the top; \<open>chosen_pos\<close> is the cheapest position
  seen that covers everything, with its labels.
\<close>

function ladder_search :: "'w env \<Rightarrow> SoldierInput list \<Rightarrow> DutyBlock list
    \<Rightarrow> ExistingAssignment list \<Rightarrow> remap_fn \<Rightarrow> (relax_label list \<times> SolverSettings) list
    \<Rightarrow> int \<Rightarrow> int \<Rightarrow> SolverResult \<times> relax_label list
    \<Rightarrow> 'w \<Rightarrow> (SolverResult \<times> relax_label list) option \<times> 'w" where
  "ladder_search env full_pool component_duties carry remap_rd ladder lo hi chosen_pos w =
     (if lo \<le> hi then
        (let mid = (lo + hi) div 2; (labels, mid_settings) = ladder ! nat mid
         in (case probe_with_retry env full_pool component_duties carry mid_settings remap_rd w of
               (None, w1) \<Rightarrow> (None, w1)
             | (Some mid_result, w1) \<Rightarrow>
                 if r_status mid_result = CANCELLED then (Some (mid_result, []), w1)
                 else if length (r_assignments mid_result) = length component_duties
                 then ladder_search env full_pool component_duties carry remap_rd ladder
                        lo (mid - 1) (mid_result, labels) w1
                 else ladder_search env full_pool component_duties carry remap_rd ladder
                        (mid + 1) hi chosen_pos w1))
      else (Some chosen_pos, w))"
  by pat_completeness auto
termination
  by (relation "measure (\<lambda>(_, _, _, _, _, _, lo, hi, _, _). nat (hi - lo + 1))") auto

declare ladder_search.simps [simp del]

definition search_relaxation_ladder :: "'w env \<Rightarrow> SoldierInput list \<Rightarrow> DutyBlock list
    \<Rightarrow> ExistingAssignment list \<Rightarrow> SolverSettings \<Rightarrow> remap_fn
    \<Rightarrow> 'w \<Rightarrow> (SolverResult \<times> relax_label list) option \<times> 'w" where
  "search_relaxation_ladder env full_pool component_duties carry settings remap_rd w =
     (case probe_with_retry env full_pool component_duties carry settings remap_rd w of
        (None, w1) \<Rightarrow> (None, w1)
      | (Some base_result, w1) \<Rightarrow>
          (let ladder = ladder_positions settings
           in if r_status base_result = CANCELLED then (Some (base_result, []), w1)
              else if length (r_assignments base_result) = length component_duties
              then (Some (base_result, []), w1)
              else if ladder = [] then (Some (base_result, []), w1)
              else
                (case last ladder of (top_labels, top_settings) \<Rightarrow>
                 (case probe_with_retry env full_pool component_duties carry top_settings remap_rd w1 of
                    (None, w2) \<Rightarrow> (None, w2)
                  | (Some top_result, w2) \<Rightarrow>
                      if r_status top_result = CANCELLED then (Some (top_result, []), w2)
                      else if length (r_assignments top_result) < length component_duties
                      then (Some (better component_duties base_result top_result, top_labels), w2)
                      else ladder_search env full_pool component_duties carry remap_rd ladder
                             0 (int (length ladder) - 2) (top_result, top_labels) w2))))"

section \<open>The components in turn\<close>

definition effort_remap_rd :: "SoldierInput list \<Rightarrow> DutyBlock list \<Rightarrow> reserve_dists option \<Rightarrow> remap_fn" where
  "effort_remap_rd work duties reserve_dist sub_soldiers sub_duties =
     (case reserve_dist of None \<Rightarrow> None
      | Some rd \<Rightarrow>
          (let out = concat (map (\<lambda>(local_di, d).
                 case duty_index_by_id duties (d_id d) of None \<Rightarrow> []
                 | Some gdi \<Rightarrow> concat (map (\<lambda>(local_si, s).
                     case soldier_index_by_id work (s_id s) of None \<Rightarrow> []
                     | Some gsi \<Rightarrow> (case dict_get rd (gdi, gsi) of None \<Rightarrow> []
                                   | Some v \<Rightarrow> [((local_di, local_si), v)]))
                   (indexed sub_soldiers))) (indexed sub_duties))
           in if out = [] then None else Some out))"

text \<open>Duties with no eligible soldier: reported and left unassigned.\<close>

definition orphan_component :: "'w env \<Rightarrow> SolverSettings \<Rightarrow> int \<Rightarrow> nat \<Rightarrow> DutyBlock list
    \<Rightarrow> loop_state \<Rightarrow> 'w \<Rightarrow> flow \<times> 'w" where
  "orphan_component env settings total_duties comp_idx component_duties s w =
     (let report = (batch_report (length (lp_batches s)) comp_idx (lp_work s) component_duties
            (lp_carry s) (enforce_weapon_qualification settings) []
            (int (length component_duties)) INFEASIBLE [] [])\<lparr>b_soldier_count := 0\<rparr>;
          finished = lp_done s + int (length component_duties)
      in (Next (s\<lparr>lp_batches := lp_batches s @ (if component_duties \<noteq> [] then [report] else []),
                  lp_done := finished\<rparr>),
          notify env (Progress finished total_duties) w))"

definition effort_outcome :: "nat \<Rightarrow> nat \<Rightarrow> outcome" where
  "effort_outcome assigned_here total_here =
     (if assigned_here = 0 \<and> total_here > 0 then INFEASIBLE
      else if assigned_here < total_here then FEASIBLE else OPTIMAL)"

text \<open>
  Recording a component: unlike \<open>record_batch\<close>, the assignments are carried before the
  diagnosis, which therefore sees them twice.
\<close>

definition record_component :: "DutyBlock list \<Rightarrow> bool \<Rightarrow> nat \<Rightarrow> nat list \<Rightarrow> DutyBlock list
    \<Rightarrow> Assignment list \<Rightarrow> relax_label list \<Rightarrow> loop_state \<Rightarrow> loop_state option" where
  "record_component duties enforce_weapon comp_idx soldier_idxs component_duties assignments
       component_relaxed s =
     (case absorb duties (lp_carry s, lp_work s) assignments of
        None \<Rightarrow> None
      | Some (carry, work) \<Rightarrow>
          (let all = lp_all s @ assignments;
               full_pool = map (\<lambda>si. work ! si) soldier_idxs;
               still_unassigned = left_over component_duties assignments;
               total_here = length component_duties
           in (case (if still_unassigned \<noteq> []
                     then analyze_saturation still_unassigned full_pool all carry (duty_by_id duties)
                     else Some []) of
                 None \<Rightarrow> None
               | Some clusters \<Rightarrow> Some (s\<lparr>lp_all := all,
                   lp_relaxed := lp_relaxed s @ component_relaxed,
                   lp_batches := lp_batches s @ [batch_report (length (lp_batches s)) comp_idx
                     full_pool component_duties carry enforce_weapon assignments
                     (int total_here - int (length assignments))
                     (effort_outcome (length assignments) total_here) component_relaxed clusters],
                   lp_carry := carry, lp_work := work\<rparr>))))"

definition effort_step :: "'w env \<Rightarrow> SoldierInput list \<Rightarrow> DutyBlock list \<Rightarrow> SolverSettings
    \<Rightarrow> reserve_dists option \<Rightarrow> int \<Rightarrow> nat \<Rightarrow> nat list \<times> nat list \<Rightarrow> loop_state
    \<Rightarrow> 'w \<Rightarrow> flow \<times> 'w" where
  "effort_step env soldiers duties settings reserve_dist total_duties comp_idx component s w =
     (case component of (duty_idxs, soldier_idxs) \<Rightarrow>
      (case cancel_is_set env w of (cancelled, w1) \<Rightarrow>
        if cancelled then (Return (cancelled_result (seed_of settings) s), w1)
        else
          (let component_duties = map (\<lambda>di. duties ! di) duty_idxs;
               full_pool = map (\<lambda>si. lp_work s ! si) soldier_idxs
           in if soldier_idxs = []
              then orphan_component env settings total_duties comp_idx component_duties s w1
              else
                (case search_relaxation_ladder env full_pool component_duties (lp_carry s) settings
                        (effort_remap_rd soldiers duties reserve_dist) w1 of
                   (None, w2) \<Rightarrow> (Raise, w2)
                 | (Some (component_result, component_relaxed), w2) \<Rightarrow>
                     if r_status component_result = CANCELLED
                     then (Return (cancelled_result (seed_of settings) s), w2)
                     else
                       (case record_component duties (enforce_weapon_qualification settings) comp_idx
                               soldier_idxs component_duties (r_assignments component_result)
                               component_relaxed s of
                          None \<Rightarrow> (Raise, w2)
                        | Some s1 \<Rightarrow>
                           (let finished = lp_done s + int (length duty_idxs)
                            in (Next (s1\<lparr>lp_done := finished\<rparr>),
                                notify env (Progress finished total_duties) w2)))))))"

fun effort_loop :: "'w env \<Rightarrow> SoldierInput list \<Rightarrow> DutyBlock list \<Rightarrow> SolverSettings
    \<Rightarrow> reserve_dists option \<Rightarrow> int \<Rightarrow> nat \<Rightarrow> (nat list \<times> nat list) list \<Rightarrow> loop_state
    \<Rightarrow> 'w \<Rightarrow> flow \<times> 'w" where
  "effort_loop env soldiers duties settings reserve_dist total_duties comp_idx [] s w = (Next s, w)"
| "effort_loop env soldiers duties settings reserve_dist total_duties comp_idx (component # components) s w =
     (case effort_step env soldiers duties settings reserve_dist total_duties comp_idx component s w of
        (Next s1, w1) \<Rightarrow>
          effort_loop env soldiers duties settings reserve_dist total_duties (comp_idx + 1) components s1 w1
      | (out, w1) \<Rightarrow> (out, w1))"

definition effort_round_solve :: "'w env \<Rightarrow> SoldierInput list \<Rightarrow> DutyBlock list
    \<Rightarrow> ExistingAssignment list \<Rightarrow> SolverSettings \<Rightarrow> reserve_dists option
    \<Rightarrow> 'w \<Rightarrow> SolverResult option \<times> 'w" where
  "effort_round_solve env soldiers duties existing settings reserve_dist w =
     (case connected_components (length duties) (length soldiers)
             (eligible_pairs soldiers duties settings) of
        None \<Rightarrow> (None, w)
      | Some components \<Rightarrow>
          (let total_duties = (\<Sum>(dids, sids)\<leftarrow>components. int (length dids));
               w0 = notify env (Progress 0 total_duties) w
           in (case effort_loop env soldiers duties settings reserve_dist total_duties 0 components
                      (start_state soldiers existing) w0 of
                 (out, w1) \<Rightarrow> (flow_result settings duties out, w1))))"

end
