(* ===== verification/LadderSearch.thy ===== *)
theory LadderSearch
  imports Rounds
begin

text \<open>
  The binary search of \<open>_search_relaxation_ladder\<close> against a linear scan.  A probe is
  described by what it decides, whatever the world: \<open>probes env ... st c\<close> says that
  trying the settings \<open>st\<close> returns a result that is not a cancellation and assigns every
  duty exactly if \<open>c\<close>.
\<close>

definition probes :: "'w env \<Rightarrow> SoldierInput list \<Rightarrow> DutyBlock list \<Rightarrow> ExistingAssignment list
    \<Rightarrow> remap_fn \<Rightarrow> SolverSettings \<Rightarrow> bool \<Rightarrow> bool" where
  "probes env pool ds carry remap st c \<longleftrightarrow> (\<forall>w. \<exists>r w'.
     probe_with_retry env pool ds carry st remap w = (Some r, w') \<and> r_status r \<noteq> CANCELLED
     \<and> length (r_assignments r) \<le> length ds \<and> (length (r_assignments r) = length ds \<longleftrightarrow> c))"

lemma probesE:
  assumes "probes env pool ds carry remap st c"
  obtains r w' where "probe_with_retry env pool ds carry st remap w = (Some r, w')"
    "r_status r \<noteq> CANCELLED" "length (r_assignments r) = length ds \<longleftrightarrow> c"
    "length (r_assignments r) \<le> length ds"
  using assms unfolding probes_def by blast

text \<open>Once a position covers, so do the later ones.\<close>

definition upward :: "('a \<Rightarrow> bool) \<Rightarrow> 'a list \<Rightarrow> bool" where
  "upward c xs \<longleftrightarrow> (\<forall>i j. i \<le> j \<longrightarrow> j < length xs \<longrightarrow> c (xs ! i) \<longrightarrow> c (xs ! j))"

lemma find_first:
  assumes "k < length xs" "c (xs ! k)" "\<And>i. i < k \<Longrightarrow> \<not> c (xs ! i)"
  shows "find c xs = Some (xs ! k)"
  using assms by (auto simp: find_Some_iff)

lemma ladder_search_first:
  fixes env :: "'w env"
  assumes "\<And>p. p \<in> set ladder \<Longrightarrow> probes env pool ds carry remap (snd p) (c p)" "upward c ladder"
    and "0 \<le> lo" "lo \<le> hi + 1" "nat (hi + 1) < length ladder" "c (ladder ! nat (hi + 1))"
    and "\<And>i. i < nat lo \<Longrightarrow> \<not> c (ladder ! i)" "snd chosen_pos = fst (ladder ! nat (hi + 1))"
    and "length (r_assignments (fst chosen_pos)) = length ds"
  shows "\<exists>r p w'. ladder_search env pool ds carry remap ladder lo hi chosen_pos w = (Some (r, fst p), w')
     \<and> find c ladder = Some p \<and> length (r_assignments r) = length ds"
  using assms
proof (induction env pool ds carry remap ladder lo hi chosen_pos w rule: ladder_search.induct)
  case (1 env pool ds carry remap ladder lo hi chosen_pos w)
  show ?case
  proof (cases "lo \<le> hi")
    case False
    then have "lo = hi + 1" using 1(6) by simp
    then have "find c ladder = Some (ladder ! nat lo)"
      using 1(7,8,9) by (intro find_first) auto
    then show ?thesis using False \<open>lo = hi + 1\<close> 1(10,11)
      by (subst ladder_search.simps) (cases chosen_pos, auto intro: prod.collapse [symmetric])
  next
    case True
    let ?mid = "(lo + hi) div 2"
    have mid: "lo \<le> ?mid" "?mid \<le> hi" using True by auto
    then have nmid: "nat ?mid < length ladder" using 1(5,7) by auto
    obtain labels st where st: "ladder ! nat ?mid = (labels, st)" by (cases "ladder ! nat ?mid")
    have "probes env pool ds carry remap st (c (ladder ! nat ?mid))"
      using 1(3) [OF nth_mem [OF nmid]] st by simp
    then obtain r w1 where r: "probe_with_retry env pool ds carry st remap w = (Some r, w1)"
      "r_status r \<noteq> CANCELLED" "length (r_assignments r) = length ds \<longleftrightarrow> c (ladder ! nat ?mid)"
      by (rule probesE)
    show ?thesis
    proof (cases "c (ladder ! nat ?mid)")
      case hit: True
      have "\<exists>r' p w'. ladder_search env pool ds carry remap ladder lo (?mid - 1) (r, labels) w1
          = (Some (r', fst p), w') \<and> find c ladder = Some p \<and> length (r_assignments r') = length ds"
        by (rule 1(1) [OF True refl refl st [symmetric] r(1) [symmetric] refl r(2)])
          (use r(3) hit st mid 1(3-5,9) nmid in auto)
      then show ?thesis using True r hit st by (subst ladder_search.simps) (simp add: Let_def)
    next
      case miss: False
      have "\<not> c (ladder ! i)" if "i < nat (?mid + 1)" for i
      proof
        assume "c (ladder ! i)"
        moreover have "i \<le> nat ?mid" using that mid 1(5) by linarith
        ultimately show False using 1(4) nmid miss unfolding upward_def by blast
      qed
      then have "\<exists>r' p w'. ladder_search env pool ds carry remap ladder (?mid + 1) hi chosen_pos w1
          = (Some (r', fst p), w') \<and> find c ladder = Some p \<and> length (r_assignments r') = length ds"
        by (intro 1(2) [OF True refl refl st [symmetric] r(1) [symmetric] refl r(2)])
          (use r(3) miss mid 1(3-8,10,11) in auto)
      then show ?thesis using True r miss st by (subst ladder_search.simps) (simp add: Let_def)
    qed
  qed
qed

text \<open>
  C11. The binary search of the ladder agrees with a linear scan: when every probe assigns at
  most all duties and decides (whatever the world) whether its position covers the component, and looser positions
  cover whatever tighter ones do, the labels reported are none if the base covers, those of
  the first covering position otherwise, and those of the top if no position covers.
\<close>

theorem ladder_search_linear:
  fixes env :: "'w env"
  assumes base: "probes env pool ds carry remap st (c ([], st))"
    and pos: "\<And>p. p \<in> set (ladder_positions st) \<Longrightarrow> probes env pool ds carry remap (snd p) (c p)"
    and up: "upward c (ladder_positions st)"
  shows "\<exists>r w'. search_relaxation_ladder env pool ds carry st remap w = (Some (r,
       if c ([], st) \<or> ladder_positions st = [] then []
       else (case find c (ladder_positions st) of Some p \<Rightarrow> fst p
             | None \<Rightarrow> fst (last (ladder_positions st)))), w')"
proof -
  let ?l = "ladder_positions st"
  obtain r w1 where r: "probe_with_retry env pool ds carry st remap w = (Some r, w1)"
    "r_status r \<noteq> CANCELLED" "length (r_assignments r) = length ds \<longleftrightarrow> c ([], st)"
    by (rule probesE [OF base])
  show ?thesis
  proof (cases "c ([], st) \<or> ?l = []")
    case True
    then show ?thesis using r by (auto simp: search_relaxation_ladder_def Let_def)
  next
    case False
    obtain labels top where top: "last ?l = (labels, top)" by (cases "last ?l")
    have m: "(labels, top) \<in> set ?l" using False top by (metis last_in_set)
    obtain q w2 where q: "probe_with_retry env pool ds carry top remap w1 = (Some q, w2)"
      "r_status q \<noteq> CANCELLED" "length (r_assignments q) = length ds \<longleftrightarrow> c (labels, top)"
      "length (r_assignments q) \<le> length ds"
      using pos [OF m] by (auto elim: probesE [where w = w1])
    have "nat (int (length ?l) - 2 + 1) = length ?l - 1" by simp
    then have lst: "?l ! nat (int (length ?l) - 2 + 1) = (labels, top)"
      using False top by (simp add: last_conv_nth)
    show ?thesis
    proof (cases "c (labels, top)")
      case cov: True
      have "\<exists>r' p w'. ladder_search env pool ds carry remap ?l 0 (int (length ?l) - 2) (q, labels) w2
          = (Some (r', fst p), w') \<and> find c ?l = Some p \<and> length (r_assignments r') = length ds"
        by (rule ladder_search_first [OF pos up]) (use False q cov lst in \<open>auto simp: nat_less_iff\<close>)
      then show ?thesis using False r q cov top
        by (auto simp: search_relaxation_ladder_def Let_def)
    next
      case unc: False
      have none: "find c ?l = None"
      proof -
        have "\<not> c p" if mem: "p \<in> set ?l" for p
        proof
          assume "c p"
          then obtain i where "i < length ?l" "c (?l ! i)" using mem by (auto simp: in_set_conv_nth)
          then have "c (?l ! (length ?l - 1))" 
            using up [unfolded upward_def, rule_format, of i "length ?l - 1"] by simp
          then show False using unc top False by (simp add: last_conv_nth)
        qed
        then show ?thesis by (simp add: find_None_iff)
      qed
      have "length (r_assignments q) < length ds" using q(3,4) unc by simp
      then show ?thesis using False r q unc top none
        by (auto simp: search_relaxation_ladder_def Let_def)
    qed
  qed
qed

section \<open>A concrete search\<close>

text \<open>With no soldiers every model is empty, so every probe answers and covers nothing.\<close>

lemma empty_pool_probe:
  "probes (probe_env (\<lambda>_. 0)) [] [sample_duty 10 0 2] [] (\<lambda>_ _. None) st False"
proof -
  let ?d = "sample_duty 10 0 2"
  have el: "eligible_pairs [] [?d] st = []" for st by (simp add: eligible_pairs_def indexed_def)
  have m: "build_model Hard [] [?d] [] st None
      = (let t = fairness_terms [] [?d] st [] in
           ((base_model Hard [] [?d] [] st [])\<lparr>cp_objective := Minimize (lconst 0)\<rparr>, [], t))" for st
    by (simp add: build_model_def model_eligible_eq el build_fairness_objective_def fairness_terms_def
        participants_def reserve_dist_terms_def Let_def)
  have f: "feasible (base_model Hard [] [?d] [] st []) (\<lambda>_. 0)" for st
    by (simp add: feasible_def base_model_def decision_vars_def quota_vars_def count_domains_def
        participants_def hard_cons_def coverage_cons_def quota_cons_def overlap_cons_def rest_cons_def
        density_cons_def count_cons_def vars_for_duty_def duty_soldiers_def indexed_def quotas_of_def
        sample_duty_def quota_reified_def)
  have s: "solve_with_settings (probe_env (\<lambda>_. 0)) [] [?d] [] st None w
      = (([], \<lparr>ans_status = Cp_feasible, ans_value = (\<lambda>_. 0), ans_objective = 0\<rparr>), w)" for st w
    using f [of st]
    by (simp add: solve_with_settings_def m Let_def probe_env_def fairness_terms_def)
  have c: "solve_component_once (probe_env (\<lambda>_. 0)) [] [?d] [] st (\<lambda>_ _. None) w
      = (Some (plain_result st [] OPTIMAL []), w)" for st w
  proof -
    have "cancel_is_set (probe_env (\<lambda>_. 0)) w = (False, w)" by (simp add: probe_env_def)
    then show ?thesis
      by (simp add: solve_component_once_def s Let_def solved_def assignments_of_def
          chosen_def absorb_local_def absorb_def)
  qed
  show ?thesis by (simp add: probes_def probe_with_retry_def c plain_result_def)
qed

lemma ladder_search_linear_witness:
  "\<exists>r w'. search_relaxation_ladder (probe_env (\<lambda>_. 0)) [] [sample_duty 10 0 2] [] default_settings
       (\<lambda>_ _. None) () = (Some (r,
       if False \<or> ladder_positions default_settings = [] then []
       else (case find (\<lambda>_. False) (ladder_positions default_settings) of Some p \<Rightarrow> fst p
             | None \<Rightarrow> fst (last (ladder_positions default_settings)))), w')"
  by (rule ladder_search_linear [where c = "\<lambda>_. False"])
    (simp_all add: empty_pool_probe upward_def)

end
