(* ===== verification/Explain.thy ===== *)
theory Explain
  imports Contracts
begin

text \<open>
  \<open>app/algorithm/explain.py\<close>: for every primary assignment, the list of all soldiers
  with the reasons that block each of them and the effort before and after.  Its overlap
  test searches two sorted arrays instead of scanning; the lemmas show that on the
  assignments of a schedule the search finds exactly the overlapping duties.  Floats are
  exact rationals.  A failed \<open>duty_map\<close> lookup is None.
\<close>

section \<open>Tables\<close>

record ExplanationData =
  p_per_assignment :: "AssignmentExplanation list"
  p_global_metrics_before :: "(string, py_value) dict"
  p_global_metrics_after :: "(string, py_value) dict"
  p_algorithm_version :: string
  p_solver_seed :: int

type_synonym duty_table = "(uuid, (uuid \<times> DutyBlock) list) dict"

definition add_duty :: "(uuid \<Rightarrow> DutyBlock option) \<Rightarrow> duty_table \<Rightarrow> Assignment \<Rightarrow> duty_table option" where
  "add_duty duty_map m a2 =
     (case duty_map (a_duty_id a2) of None \<Rightarrow> None
      | Some d \<Rightarrow> Some (dict_append m (a_soldier_id a2) (a_duty_id a2, d)))"

definition assigned_duties :: "(uuid \<Rightarrow> DutyBlock option) \<Rightarrow> Assignment list \<Rightarrow> duty_table option" where
  "assigned_duties duty_map assignments =
     map_option (map (\<lambda>(sid, l). (sid, sort_key (\<lambda>item. d_start_date (snd item)) l)))
       (each (add_duty duty_map) [] assignments)"

section \<open>One candidate\<close>

definition overlap_window :: "(uuid \<times> DutyBlock) list \<Rightarrow> DutyBlock \<Rightarrow> (uuid \<times> DutyBlock) list" where
  "overlap_window l duty =
     (let lo = bisect_right (map (\<lambda>item. d_end_date (snd item)) l) (d_start_date duty);
          hi = bisect_left (map (\<lambda>item. d_start_date (snd item)) l) (d_end_date duty)
      in drop lo (take hi l))"

definition overlap_blocked :: "duty_table \<Rightarrow> DutyBlock \<Rightarrow> uuid \<Rightarrow> uuid \<Rightarrow> bool" where
  "overlap_blocked table duty duty_id sid =
     (case dict_get table sid of None \<Rightarrow> False
      | Some l \<Rightarrow> list_ex (\<lambda>item. fst item \<noteq> duty_id) (overlap_window l duty))"

definition blocking :: "duty_table \<Rightarrow> DutyBlock \<Rightarrow> uuid \<Rightarrow> SoldierInput \<Rightarrow> string list" where
  "blocking table duty duty_id s =
     (if d_duty_type_id duty \<in> s_exempted_duty_type_ids s then [''exemption''] else [])
   @ (if d_id duty \<in> s_weapon_ineligible_duty_block_ids s then [''weapon_ineligible''] else [])
   @ (if list_ex (\<lambda>(cs, ce). cs < d_end_date duty \<and> ce \<ge> d_start_date duty)
           (s_approved_constraint_dates s) then [''personal_constraint''] else [])
   @ (if overlap_blocked table duty duty_id (s_id s) then [''overlap''] else [])"

definition pre_effort :: "SoldierInput \<Rightarrow> rat" where
  "pre_effort s = max 0 (of_int (s_effort_offset s) / of_int EFFORT_SCALE)"

definition post_effort :: "DutyBlock \<Rightarrow> SoldierInput \<Rightarrow> rat" where
  "post_effort duty s =
     (let block_milli = py_int (d_score_per_day duty
                          * of_int (d_end_date duty - d_start_date duty) * 1000);
          post_milli = s_effort_offset s + s_effort_per_milli s * block_milli
      in max 0 (of_int post_milli / of_int EFFORT_SCALE))"

definition candidate_info :: "duty_table \<Rightarrow> DutyBlock \<Rightarrow> uuid \<Rightarrow> SoldierInput \<Rightarrow> CandidateInfo" where
  "candidate_info table duty duty_id s =
     (let b = blocking table duty duty_id s
      in \<lparr>k_soldier_id = s_id s, k_blocked = 0 < length b, k_blocking_constraints = b,
          k_pre_effort_score = Some (pre_effort s),
          k_post_effort_score = (if 0 < length b then None else Some (post_effort duty s))\<rparr>)"

section \<open>All explanations\<close>

definition explain_assignment :: "SoldierInput list \<Rightarrow> (uuid \<Rightarrow> DutyBlock option) \<Rightarrow> duty_table
    \<Rightarrow> AssignmentExplanation list \<Rightarrow> Assignment \<Rightarrow> AssignmentExplanation list option" where
  "explain_assignment soldiers duty_map table per a =
     (case duty_map (a_duty_id a) of None \<Rightarrow> None
      | Some duty \<Rightarrow>
          if d_is_reserve duty then Some per
          else
            (let candidates = map (candidate_info table duty (a_duty_id a)) soldiers;
                 unblocked = length (filter (\<lambda>c. \<not> k_blocked c) candidates)
             in Some (per @ [\<lparr>x_duty_id = a_duty_id a, x_assigned_soldier_id = a_soldier_id a,
                    x_candidates = candidates,
                    x_tiebreaker_note = (if unblocked \<le> 1 then None
                                         else Some ''lowest_post_effort_score'')\<rparr>])))"

definition build_explanations :: "SoldierInput list \<Rightarrow> DutyBlock list \<Rightarrow> Assignment list
    \<Rightarrow> (string, py_value) dict \<Rightarrow> (string, py_value) dict \<Rightarrow> int \<Rightarrow> ExplanationData option" where
  "build_explanations soldiers duties assignments global_before global_after solver_seed =
     (case assigned_duties (duty_by_id duties) assignments of None \<Rightarrow> None
      | Some table \<Rightarrow>
          (case each (explain_assignment soldiers (duty_by_id duties) table) [] assignments of
             None \<Rightarrow> None
           | Some per \<Rightarrow> Some \<lparr>p_per_assignment = per, p_global_metrics_before = global_before,
                p_global_metrics_after = global_after, p_algorithm_version = ''cp-sat-1.0'',
                p_solver_seed = solver_seed\<rparr>))"

section \<open>The window is the set of overlapping duties\<close>

definition apart :: "(uuid \<times> DutyBlock) list \<Rightarrow> bool" where
  "apart l \<longleftrightarrow> (\<forall>i < length l. \<forall>j < length l. i \<noteq> j \<longrightarrow>
     d_end_date (snd (l ! i)) \<le> d_start_date (snd (l ! j))
   \<or> d_end_date (snd (l ! j)) \<le> d_start_date (snd (l ! i)))"

lemma apart_sorted_ends:
  assumes "apart l" "sorted (map (\<lambda>x. d_start_date (snd x)) l)"
    and "\<And>x. x \<in> set l \<Longrightarrow> d_start_date (snd x) < d_end_date (snd x)"
  shows "sorted (map (\<lambda>x. d_end_date (snd x)) l)"
  unfolding sorted_iff_nth_mono_less
proof (intro allI impI)
  fix i j assume "i < j" "j < length (map (\<lambda>x. d_end_date (snd x)) l)"
  then have ij: "i < length l" "j < length l" "i \<noteq> j" "i \<le> j" by auto
  have "d_start_date (snd (l ! i)) \<le> d_start_date (snd (l ! j))"
    using sorted_nth_mono [OF assms(2) ij(4)] ij by simp
  moreover have "d_start_date (snd (l ! i)) < d_end_date (snd (l ! i))"
    "d_start_date (snd (l ! j)) < d_end_date (snd (l ! j))" using assms(3) ij by auto
  moreover have "d_end_date (snd (l ! i)) \<le> d_start_date (snd (l ! j))
      \<or> d_end_date (snd (l ! j)) \<le> d_start_date (snd (l ! i))"
    using assms(1) ij unfolding apart_def by blast
  ultimately show "map (\<lambda>x. d_end_date (snd x)) l ! i \<le> map (\<lambda>x. d_end_date (snd x)) l ! j"
    using ij by auto
qed

lemma set_drop_take: "set (drop lo (take hi l)) = {l ! i | i. lo \<le> i \<and> i < hi \<and> i < length l}"
proof
  show "set (drop lo (take hi l)) \<subseteq> {l ! i | i. lo \<le> i \<and> i < hi \<and> i < length l}"
  proof
    fix x assume "x \<in> set (drop lo (take hi l))"
    then obtain k where "k < length (drop lo (take hi l))" "x = drop lo (take hi l) ! k"
      by (metis in_set_conv_nth)
    then show "x \<in> {l ! i | i. lo \<le> i \<and> i < hi \<and> i < length l}"
      by (intro CollectI exI [of _ "lo + k"]) (auto simp: less_diff_conv add.commute)
  qed
  show "{l ! i | i. lo \<le> i \<and> i < hi \<and> i < length l} \<subseteq> set (drop lo (take hi l))"
  proof clarify
    fix i assume i: "lo \<le> i" "i < hi" "i < length l"
    then have "drop lo (take hi l) ! (i - lo) = l ! i" by simp
    moreover have "i - lo < length (drop lo (take hi l))" using i by simp
    ultimately show "l ! i \<in> set (drop lo (take hi l))" by (metis nth_mem)
  qed
qed

lemma overlap_window_set:
  assumes "apart l" "sorted (map (\<lambda>x. d_start_date (snd x)) l)"
    and "\<And>x. x \<in> set l \<Longrightarrow> d_start_date (snd x) < d_end_date (snd x)"
  shows "set (overlap_window l duty) = {x \<in> set l. d_start_date (snd x) < d_end_date duty
                                            \<and> d_start_date duty < d_end_date (snd x)}"
proof -
  let ?es = "map (\<lambda>x. d_end_date (snd x)) l" and ?ss = "map (\<lambda>x. d_start_date (snd x)) l"
  have "sorted ?es" using assms by (rule apart_sorted_ends)
  then have "bisect_right ?es (d_start_date duty) \<le> i \<longleftrightarrow> d_start_date duty < d_end_date (snd (l ! i))"
    if "i < length l" for i
    using nth_bisect_right [of ?es i "d_start_date duty"] that by auto
  moreover have "i < bisect_left ?ss (d_end_date duty) \<longleftrightarrow> d_start_date (snd (l ! i)) < d_end_date duty"
    if "i < length l" for i
    using nth_bisect_left [OF assms(2), of i "d_end_date duty"] that by auto
  ultimately show ?thesis
    unfolding overlap_window_def Let_def set_drop_take
    by (auto simp: in_set_conv_nth) (metis snd_conv)
qed

section \<open>The table of a schedule\<close>

lemma add_duty_each:
  assumes "a_duty_id ` set as \<subseteq> d_id ` set ds"
  shows "\<exists>m'. each (add_duty (duty_by_id ds)) m as = Some m'
     \<and> (\<forall>sid. dict_get_or m' sid [] = dict_get_or m sid []
          @ map (\<lambda>a. (a_duty_id a, the (duty_by_id ds (a_duty_id a))))
              (filter (\<lambda>a. a_soldier_id a = sid) as))"
  using assms
proof (induction as arbitrary: m)
  case (Cons a as)
  obtain d where "duty_by_id ds (a_duty_id a) = Some d"
    using duty_by_id_total [of "a_duty_id a" ds] Cons.prems by auto
  then show ?case
    using Cons.IH [of "dict_append m (a_soldier_id a) (a_duty_id a, d)"] Cons.prems
    by (auto simp: add_duty_def)
qed simp

definition duties_of :: "DutyBlock list \<Rightarrow> Assignment list \<Rightarrow> uuid \<Rightarrow> (uuid \<times> DutyBlock) list" where
  "duties_of ds as sid = sort_key (\<lambda>x. d_start_date (snd x))
     (map (\<lambda>a. (a_duty_id a, the (duty_by_id ds (a_duty_id a))))
        (filter (\<lambda>a. a_soldier_id a = sid) as))"

lemma dict_get_map_val: "dict_get (map (\<lambda>(k, v). (k, f v)) m) k = map_option f (dict_get m k)"
  by (induction m) (auto simp: dict_get_def)

lemma assigned_duties_table:
  assumes "a_duty_id ` set as \<subseteq> d_id ` set ds"
  shows "\<exists>t. assigned_duties (duty_by_id ds) as = Some t \<and> (\<forall>sid. dict_get_or t sid [] = duties_of ds as sid)"
proof -
  from add_duty_each [OF assms, of "[]"] obtain m where m: "each (add_duty (duty_by_id ds)) [] as = Some m"
    "\<And>sid. dict_get_or m sid [] = map (\<lambda>a. (a_duty_id a, the (duty_by_id ds (a_duty_id a))))
              (filter (\<lambda>a. a_soldier_id a = sid) as)"
    by (auto simp: dict_get_or_def)
  have "dict_get_or (map (\<lambda>(sid, l). (sid, sort_key (\<lambda>x. d_start_date (snd x)) l)) m) sid []
      = duties_of ds as sid" for sid
    using m(2) [of sid] unfolding duties_of_def dict_get_or_def dict_get_map_val
    by (cases "dict_get m sid") auto
  with m(1) show ?thesis by (auto simp: assigned_duties_def)
qed

definition schedule_table_ok :: "DutyBlock list \<Rightarrow> Assignment list \<Rightarrow> bool" where
  "schedule_table_ok ds as \<longleftrightarrow> distinct (map d_id ds) \<and> distinct (map a_duty_id as)
     \<and> a_duty_id ` set as \<subseteq> d_id ` set ds
     \<and> list_all (\<lambda>d. d_start_date d < d_end_date d) ds"

lemma duties_of_mem:
  assumes "schedule_table_ok ds as"
  shows "x \<in> set (duties_of ds as sid) \<longleftrightarrow> (snd x, sid) \<in> placed ds as \<and> fst x = d_id (snd x)"
proof -
  have look: "the (duty_by_id ds (d_id d)) = d" if "d \<in> set ds" for d
    using duty_by_id_distinct [of ds d] assms that by (simp add: schedule_table_ok_def)
  show ?thesis
  proof
    assume "x \<in> set (duties_of ds as sid)"
    then obtain a where a: "a \<in> set as" "a_soldier_id a = sid"
      "x = (a_duty_id a, the (duty_by_id ds (a_duty_id a)))" by (auto simp: duties_of_def)
    moreover obtain d where "d \<in> set ds" "a_duty_id a = d_id d"
      using assms a(1) by (auto simp: schedule_table_ok_def)
    ultimately show "(snd x, sid) \<in> placed ds as \<and> fst x = d_id (snd x)"
      by (auto simp: placed_def look)
  next
    assume "(snd x, sid) \<in> placed ds as \<and> fst x = d_id (snd x)"
    then obtain a where "snd x \<in> set ds" "a \<in> set as" "a_duty_id a = d_id (snd x)" "a_soldier_id a = sid"
      "fst x = d_id (snd x)" by (auto simp: placed_def)
    then show "x \<in> set (duties_of ds as sid)"
      unfolding duties_of_def by (cases x) (auto simp: look intro!: image_eqI [of _ _ a])
  qed
qed

lemma duties_of_distinct:
  assumes "schedule_table_ok ds as"
  shows "distinct (map fst (duties_of ds as sid))"
proof -
  have "distinct (map a_duty_id (filter (\<lambda>a. a_soldier_id a = sid) as))"
    using assms by (simp add: schedule_table_ok_def distinct_map_filter)
  moreover have "mset (map fst (duties_of ds as sid))
      = mset (map a_duty_id (filter (\<lambda>a. a_soldier_id a = sid) as))"
    by (simp add: duties_of_def image_mset.compositionality comp_def flip: mset_map)
      (simp add: image_mset.compositionality comp_def)
  ultimately show ?thesis by (metis mset_eq_imp_distinct_iff)
qed

lemma duties_of_apart:
  assumes t: "schedule_table_ok ds as" and c: "clash_free ex (placed ds as)"
  shows "apart (duties_of ds as sid)"
  unfolding apart_def
proof (intro allI impI)
  let ?l = "duties_of ds as sid"
  fix i j assume ij: "i < length ?l" "j < length ?l" "i \<noteq> j"
  have m: "(snd (?l ! k), sid) \<in> placed ds as \<and> fst (?l ! k) = d_id (snd (?l ! k))"
    if "k < length ?l" for k using duties_of_mem [OF t, of "?l ! k" sid] that by simp
  have "map fst ?l ! i \<noteq> map fst ?l ! j"
    using nth_eq_iff_index_eq [OF duties_of_distinct [OF t, of sid], of i j] ij by simp
  then have "snd (?l ! i) \<noteq> snd (?l ! j)" using m ij by auto
  then have "duty_days (snd (?l ! i)) \<inter> duty_days (snd (?l ! j)) = {}"
    using c m [OF ij(1)] m [OF ij(2)] unfolding clash_free_def by fast
  moreover have "d_start_date (snd (?l ! k)) < d_end_date (snd (?l ! k))" if "k < length ?l" for k
    using t m [OF that] by (auto simp: schedule_table_ok_def list_all_iff placed_def)
  ultimately show "d_end_date (snd (?l ! i)) \<le> d_start_date (snd (?l ! j))
      \<or> d_end_date (snd (?l ! j)) \<le> d_start_date (snd (?l ! i))"
    using ij by (auto simp: duty_days_def)
qed

definition other_duty :: "DutyBlock list \<Rightarrow> Assignment list \<Rightarrow> uuid \<Rightarrow> DutyBlock \<Rightarrow> bool" where
  "other_duty ds as sid duty \<longleftrightarrow> list_ex (\<lambda>a. list_ex (\<lambda>d. a_soldier_id a = sid \<and> a_duty_id a = d_id d
     \<and> d_id d \<noteq> d_id duty \<and> d_start_date d < d_end_date duty \<and> d_start_date duty < d_end_date d) ds) as"

lemma overlap_blocked_iff:
  assumes t: "schedule_table_ok ds as" and c: "clash_free ex (placed ds as)"
    and tab: "\<And>sid. dict_get_or table sid [] = duties_of ds as sid"
  shows "overlap_blocked table duty (d_id duty) sid \<longleftrightarrow> other_duty ds as sid duty"
proof -
  let ?l = "duties_of ds as sid"
  have "overlap_window [] duty = []" by (simp add: overlap_window_def)
  then have "overlap_blocked table duty (d_id duty) sid
      \<longleftrightarrow> list_ex (\<lambda>item. fst item \<noteq> d_id duty) (overlap_window ?l duty)"
    using tab [of sid] by (auto simp: overlap_blocked_def dict_get_or_def split: option.splits)
  moreover have "set (overlap_window ?l duty) = {x \<in> set ?l. d_start_date (snd x) < d_end_date duty
                                            \<and> d_start_date duty < d_end_date (snd x)}"
  proof (rule overlap_window_set [OF duties_of_apart [OF t c]])
    show "sorted (map (\<lambda>x. d_start_date (snd x)) ?l)" by (simp add: duties_of_def)
    fix x assume "x \<in> set ?l"
    then show "d_start_date (snd x) < d_end_date (snd x)"
      using t duties_of_mem [OF t] by (auto simp: schedule_table_ok_def list_all_iff placed_def)
  qed
  ultimately show ?thesis
    by (force simp: list_ex_iff duties_of_mem [OF t] other_duty_def placed_def)
qed

section \<open>The explanations\<close>

lemma explain_each:
  assumes "a_duty_id ` set as \<subseteq> d_id ` set ds"
  shows "each (explain_assignment ss (duty_by_id ds) table) per as = Some (per @
     map (\<lambda>a. let duty = the (duty_by_id ds (a_duty_id a));
                 cs = map (candidate_info table duty (a_duty_id a)) ss
              in \<lparr>x_duty_id = a_duty_id a, x_assigned_soldier_id = a_soldier_id a, x_candidates = cs,
                  x_tiebreaker_note = (if length (filter (\<lambda>c. \<not> k_blocked c) cs) \<le> 1 then None
                                       else Some ''lowest_post_effort_score'')\<rparr>)
       (filter (\<lambda>a. \<not> d_is_reserve (the (duty_by_id ds (a_duty_id a)))) as))"
  using assms
proof (induction as arbitrary: per)
  case (Cons a as)
  obtain d where d: "duty_by_id ds (a_duty_id a) = Some d"
    using duty_by_id_total [of "a_duty_id a" ds] Cons.prems by auto
  define per' where "per' = (if d_is_reserve d then per
    else per @ [let duty = d; cs = map (candidate_info table duty (a_duty_id a)) ss
              in \<lparr>x_duty_id = a_duty_id a, x_assigned_soldier_id = a_soldier_id a, x_candidates = cs,
                  x_tiebreaker_note = (if length (filter (\<lambda>c. \<not> k_blocked c) cs) \<le> 1 then None
                                       else Some ''lowest_post_effort_score'')\<rparr>])"
  have "explain_assignment ss (duty_by_id ds) table per a = Some per'"
    by (simp add: explain_assignment_def d per'_def Let_def)
  moreover have "each (explain_assignment ss (duty_by_id ds) table) per' as = Some (per' @
     map (\<lambda>a. let duty = the (duty_by_id ds (a_duty_id a));
                 cs = map (candidate_info table duty (a_duty_id a)) ss
              in \<lparr>x_duty_id = a_duty_id a, x_assigned_soldier_id = a_soldier_id a, x_candidates = cs,
                  x_tiebreaker_note = (if length (filter (\<lambda>c. \<not> k_blocked c) cs) \<le> 1 then None
                                       else Some ''lowest_post_effort_score'')\<rparr>)
       (filter (\<lambda>a. \<not> d_is_reserve (the (duty_by_id ds (a_duty_id a)))) as))"
    using Cons.prems by (intro Cons.IH) simp
  ultimately show ?case by (simp add: d per'_def)
qed simp

definition explains :: "SoldierInput list \<Rightarrow> DutyBlock list \<Rightarrow> Assignment list
    \<Rightarrow> Assignment \<Rightarrow> AssignmentExplanation \<Rightarrow> bool" where
  "explains ss ds as a x \<longleftrightarrow> x_duty_id x = a_duty_id a \<and> x_assigned_soldier_id x = a_soldier_id a
     \<and> map k_soldier_id (x_candidates x) = map s_id ss
     \<and> list_all2 (\<lambda>s c. (''overlap'' \<in> set (k_blocking_constraints c)
             \<longleftrightarrow> other_duty ds as (s_id s) (the (duty_by_id ds (a_duty_id a))))
         \<and> (k_blocked c \<longleftrightarrow> k_blocking_constraints c \<noteq> [])
         \<and> (k_post_effort_score c = None \<longleftrightarrow> k_blocked c)) ss (x_candidates x)"

text \<open>
  C39. On the assignments of a schedule the explanations are complete and their overlap
  reason is exact: there is one explanation for each primary assignment, in order, with one
  candidate for each soldier; a candidate is blocked by an overlap exactly when the soldier
  holds another duty of the schedule whose days meet those of the explained one, which the
  code finds by two binary searches; and exactly the unblocked candidates have an effort
  after the duty.
\<close>

theorem explanations_exact:
  assumes t: "schedule_table_ok ds as" and c: "clash_free ex (placed ds as)"
  shows "\<exists>x. build_explanations ss ds as before after sd = Some x
     \<and> list_all2 (explains ss ds as)
         (filter (\<lambda>a. \<not> d_is_reserve (the (duty_by_id ds (a_duty_id a)))) as) (p_per_assignment x)"
proof -
  have sub: "a_duty_id ` set as \<subseteq> d_id ` set ds" using t by (simp add: schedule_table_ok_def)
  obtain table where table: "assigned_duties (duty_by_id ds) as = Some table"
    "\<And>sid. dict_get_or table sid [] = duties_of ds as sid"
    using assigned_duties_table [OF sub] by blast
  let ?d = "\<lambda>a. the (duty_by_id ds (a_duty_id a))"
  let ?cs = "\<lambda>a. map (candidate_info table (?d a) (a_duty_id a)) ss"
  let ?x = "\<lambda>a. \<lparr>x_duty_id = a_duty_id a, x_assigned_soldier_id = a_soldier_id a, x_candidates = ?cs a,
      x_tiebreaker_note = (if length (filter (\<lambda>c. \<not> k_blocked c) (?cs a)) \<le> 1 then None
                           else Some ''lowest_post_effort_score'')\<rparr>"
  have "explains ss ds as a (?x a)" if "a \<in> set as" for a
  proof -
    have id: "d_id (?d a) = a_duty_id a"
      using duty_by_id_total [of "a_duty_id a" ds] duty_by_id_Some [of ds "a_duty_id a"] sub that by force
    have "''overlap'' \<in> set (blocking table (?d a) (a_duty_id a) s) \<longleftrightarrow> other_duty ds as (s_id s) (?d a)" for s
      using overlap_blocked_iff [OF t c table(2), of "?d a" "s_id s"] unfolding id
      by (simp add: blocking_def)
    then show ?thesis
      by (simp add: explains_def list_all2_map2 list_all2_same candidate_info_def Let_def comp_def)
  qed
  then have "list_all2 (explains ss ds as) (filter (\<lambda>a. \<not> d_is_reserve (?d a)) as)
      (map ?x (filter (\<lambda>a. \<not> d_is_reserve (?d a)) as))"
    by (simp add: list_all2_map2 list_all2_same)
  moreover have "build_explanations ss ds as before after sd = Some
     \<lparr>p_per_assignment = map ?x (filter (\<lambda>a. \<not> d_is_reserve (?d a)) as), p_global_metrics_before = before,
      p_global_metrics_after = after, p_algorithm_version = ''cp-sat-1.0'', p_solver_seed = sd\<rparr>"
    unfolding build_explanations_def table(1) option.case explain_each [OF sub] by (simp add: Let_def)
  ultimately show ?thesis by auto
qed

text \<open>
  The chosen soldier is never shown as blocked: in a legal schedule made with the weapon
  qualification enforced, the assigned soldier of a duty has no blocking reason in its
  explanation.
\<close>

theorem explain_chosen_unblocked:
  assumes t: "schedule_table_ok ds as" and s: "schedule_ok Tc Rc st ss ds ex (placed ds as)"
    and w: "enforce_weapon_qualification st" and ids: "distinct (map s_id ss)"
    and tab: "assigned_duties (duty_by_id ds) as = Some table"
    and a: "a \<in> set as" "duty_by_id ds (a_duty_id a) = Some d" "si \<in> set ss" "s_id si = a_soldier_id a"
    and leave: "list_all (\<lambda>(cs, ce). cs \<le> ce) (s_approved_constraint_dates si)"
  shows "blocking table d (a_duty_id a) si = []"
proof -
  have sub: "a_duty_id ` set as \<subseteq> d_id ` set ds" using t by (simp add: schedule_table_ok_def)
  have d: "d \<in> set ds" "d_id d = a_duty_id a" using duty_by_id_Some [OF a(2)] by auto
  have m: "(d, s_id si) \<in> placed ds as" using a d by (auto simp: placed_def)
  then have "able True ss (s_id si) d" using s w by (auto simp: schedule_ok_def)
  then have may: "may_serve True si d"
    using ids a(3) by (auto simp: able_def distinct_map inj_on_def)
  have "d_start_date d < d_end_date d" using t d by (auto simp: schedule_table_ok_def list_all_iff)
  moreover have "\<not> (cs < d_end_date d \<and> d_start_date d \<le> ce)"
    if "(cs, ce) \<in> set (s_approved_constraint_dates si)" for cs ce
  proof
    assume o: "cs < d_end_date d \<and> d_start_date d \<le> ce"
    have "cs \<le> ce" using leave that by (auto simp: list_all_iff)
    then have "max cs (d_start_date d) \<in> duty_days d" "cs \<le> max cs (d_start_date d)"
      "max cs (d_start_date d) \<le> ce"
      using o \<open>d_start_date d < d_end_date d\<close> by (auto simp: duty_days_def)
    then show False using may that unfolding may_serve_def on_leave_def by blast
  qed
  moreover have "\<not> overlap_blocked table d (d_id d) (s_id si)"
  proof -
    have c: "clash_free ex (placed ds as)" using s by (simp add: schedule_ok_def)
    obtain table' where "assigned_duties (duty_by_id ds) as = Some table'"
      "\<And>sid. dict_get_or table' sid [] = duties_of ds as sid"
      using assigned_duties_table [OF sub] by blast
    then have tb: "dict_get_or table sid [] = duties_of ds as sid" for sid using tab by simp
    have "\<not> other_duty ds as (s_id si) d"
    proof
      assume "other_duty ds as (s_id si) d"
      then obtain b e where e: "b \<in> set as" "e \<in> set ds" "a_soldier_id b = s_id si" "a_duty_id b = d_id e"
        "d_id e \<noteq> d_id d" "d_start_date e < d_end_date d" "d_start_date d < d_end_date e"
        by (auto simp: other_duty_def list_ex_iff)
      then have "(e, s_id si) \<in> placed ds as" by (force simp: placed_def)
      with m e(5) c have "duty_days d \<inter> duty_days e = {}" unfolding clash_free_def by blast
      moreover have "max (d_start_date d) (d_start_date e) \<in> duty_days d \<inter> duty_days e"
        using e t d by (auto simp: duty_days_def schedule_table_ok_def list_all_iff)
      ultimately show False by blast
    qed
    then show ?thesis by (simp add: overlap_blocked_iff [OF t c tb])
  qed
  ultimately show ?thesis
    using may by (auto simp: blocking_def may_serve_def list_ex_iff d(2))
qed

section \<open>Witnesses\<close>

lemma sample_table_ok: "schedule_table_ok [sample_duty 10 0 2] [sample_assignment]"
  by (simp add: schedule_table_ok_def sample_assignment_def)

lemma explanations_exact_witness:
  "\<exists>x. build_explanations [sample_soldier 4] [sample_duty 10 0 2] [sample_assignment] [] [] 42 = Some x
     \<and> list_all2 (explains [sample_soldier 4] [sample_duty 10 0 2] [sample_assignment])
         (filter (\<lambda>a. \<not> d_is_reserve (the (duty_by_id [sample_duty 10 0 2] (a_duty_id a)))) [sample_assignment])
         (p_per_assignment x)"
  by (rule explanations_exact [OF sample_table_ok, of "[]"]) (use sample_schedule in \<open>simp add: schedule_ok_def\<close>)

lemma explain_chosen_unblocked_witness:
  "blocking [(4, [(10, sample_duty 10 0 2)])] (sample_duty 10 0 2) (a_duty_id sample_assignment)
     (sample_soldier 4) = []"
proof (rule explain_chosen_unblocked [OF sample_table_ok sample_schedule])
  show "assigned_duties (duty_by_id [sample_duty 10 0 2]) [sample_assignment]
      = Some [(4, [(10, sample_duty 10 0 2)])]"
    by (simp add: assigned_duties_def add_duty_def duty_by_id_def sample_assignment_def dict_append_def
        dict_get_or_def dict_get_def)
qed (simp_all add: default_settings_def duty_by_id_def sample_assignment_def dict_get_def sample_soldier_def)

end
