(* ===== verification/Diagnose.thy ===== *)
theory Diagnose
  imports Samples
begin

text \<open>
  \<open>app/algorithm/diagnose.py\<close>: why a request cannot be satisfied.  A reason is a value
  that carries the numbers its Hebrew sentence prints; the name of a duty type is the one
  the caller knows or, failing that, the identifier.  The lemmas show exactly what is reported, what an empty
  diagnosis guarantees, and that the closed end of the day count raises a false alarm.
\<close>

section \<open>Reasons\<close>

datatype TypeName = Known string | Bare uuid

datatype reason =
  No_one_on TypeName date
| No_one_on_dates TypeName int "date list"
| Main_blockers TypeName "string option" "(blocker \<times> int) list"
| Short_pool TypeName int int
| Overloaded_day date int int int

definition type_name :: "(uuid, string) dict \<Rightarrow> uuid \<Rightarrow> TypeName" where
  "type_name duty_type_names dt_id =
     (case dict_get duty_type_names dt_id of None \<Rightarrow> Bare dt_id | Some n \<Rightarrow> Known n)"

definition soldier_blocked_on :: "SoldierInput \<Rightarrow> date \<Rightarrow> bool" where
  "soldier_blocked_on s day =
     list_ex (\<lambda>(cs, ce). cs \<le> day \<and> day \<le> ce) (s_approved_constraint_dates s)"

definition existing_on :: "ExistingAssignment list \<Rightarrow> uuid \<Rightarrow> date \<Rightarrow> bool" where
  "existing_on existing sid day =
     list_ex (\<lambda>ea. e_soldier_id ea = sid
        \<and> day \<in> set (days_from_to (e_start_date ea) (e_end_date ea))) existing"

definition eligible_for_block :: "ExistingAssignment list \<Rightarrow> SoldierInput \<Rightarrow> DutyBlock \<Rightarrow> bool" where
  "eligible_for_block existing s d =
     (if eligibility_blockers s d True None \<noteq> [] then False
      else if list_ex (soldier_blocked_on s) (duty_dates d) then False
      else \<not> list_ex (existing_on existing (s_id s)) (duty_dates d))"

section \<open>Check 1: a duty no soldier is available for\<close>

record zero_tables =
  z_types :: "(uuid, date list) dict"
  z_blockers :: "(uuid, (blocker, int) dict) dict"
  z_representative :: "(uuid, DutyBlock) dict"

definition counter_update :: "(blocker, int) dict \<Rightarrow> (blocker, int) dict \<Rightarrow> (blocker, int) dict" where
  "counter_update c extra = fold (\<lambda>(b, n) c. dict_set c b (dict_get_or c b 0 + n)) extra c"

definition dict_setdefault :: "('k, 'v) dict \<Rightarrow> 'k \<Rightarrow> 'v \<Rightarrow> ('k, 'v) dict" where
  "dict_setdefault m k v = (if dict_get m k = None then dict_set m k v else m)"

definition zero_step :: "SoldierInput list \<Rightarrow> ExistingAssignment list \<Rightarrow> DutyBlock
    \<Rightarrow> zero_tables \<Rightarrow> zero_tables" where
  "zero_step soldiers existing d z =
     (let z1 = z\<lparr>z_representative := dict_setdefault (z_representative z) (d_duty_type_id d) d\<rparr>;
          v = analyze_duty_availability soldiers d existing True
      in if v_available_count v = 0
         then z1\<lparr>z_types := dict_append (z_types z1) (d_duty_type_id d) (d_start_date d),
                 z_blockers := dict_set (z_blockers z1) (d_duty_type_id d)
                   (counter_update (dict_get_or (z_blockers z1) (d_duty_type_id d) [])
                     (v_blocker_counts v))\<rparr>
         else z1)"

definition zero_tables_of :: "SoldierInput list \<Rightarrow> DutyBlock list \<Rightarrow> ExistingAssignment list
    \<Rightarrow> zero_tables" where
  "zero_tables_of soldiers duties existing =
     fold (zero_step soldiers existing) duties
       \<lparr>z_types = [], z_blockers = [], z_representative = []\<rparr>"

definition zero_reasons :: "(uuid, string) dict \<Rightarrow> zero_tables \<Rightarrow> uuid \<times> date list \<Rightarrow> reason list" where
  "zero_reasons duty_type_names z entry =
     (case entry of (dt_id, bad_dates) \<Rightarrow>
       (let dt_name = type_name duty_type_names dt_id;
            blockers = dict_get_or (z_blockers z) dt_id []
        in (if length bad_dates = 1 then [No_one_on dt_name (hd bad_dates)]
            else [No_one_on_dates dt_name (int (length bad_dates)) (take 3 (sort bad_dates))])
           @ (case dict_get (z_representative z) dt_id of
                Some representative \<Rightarrow>
                  (if blockers \<noteq> []
                   then [Main_blockers dt_name (d_required_range_type representative)
                          (sort_key (\<lambda>bn. - snd bn) blockers)]
                   else [])
              | None \<Rightarrow> [])))"

section \<open>Check 2: a type needs more soldiers at once than it has\<close>

definition all_days :: "DutyBlock list \<Rightarrow> date list" where
  "all_days ds = remdups (concat (map duty_dates ds))"

text \<open>The day count closes the interval at \<open>end_date\<close>, which the duty does not cover.\<close>

definition concurrent_on :: "DutyBlock list \<Rightarrow> date \<Rightarrow> int" where
  "concurrent_on ds day = int (length (filter (\<lambda>d. d_start_date d \<le> day \<and> day \<le> d_end_date d) ds))"

definition max_concurrent :: "DutyBlock list \<Rightarrow> int" where
  "max_concurrent ds =
     (if all_days ds = [] then 0 else Max (set (map (concurrent_on ds) (all_days ds))))"

definition pool_reasons :: "SoldierInput list \<Rightarrow> ExistingAssignment list \<Rightarrow> (uuid, string) dict
    \<Rightarrow> zero_tables \<Rightarrow> uuid \<times> DutyBlock list \<Rightarrow> reason list" where
  "pool_reasons soldiers existing duty_type_names z entry =
     (case entry of (dt_id, dt_blocks) \<Rightarrow>
       if dict_get (z_types z) dt_id \<noteq> None then []
       else
         (let pool = filter (\<lambda>s. list_ex (eligible_for_block existing s) dt_blocks) soldiers;
              pool_size = int (length pool)
          in if pool_size < max_concurrent dt_blocks
             then [Short_pool (type_name duty_type_names dt_id) (max_concurrent dt_blocks) pool_size]
             else []))"

section \<open>Check 3: a day with more duties than free soldiers\<close>

definition free_on :: "SoldierInput list \<Rightarrow> ExistingAssignment list \<Rightarrow> date \<Rightarrow> int" where
  "free_on soldiers existing day =
     int (length (filter (\<lambda>s. \<not> existing_on existing (s_id s) day) soldiers))"

definition overload_reasons :: "SoldierInput list \<Rightarrow> DutyBlock list \<Rightarrow> ExistingAssignment list
    \<Rightarrow> reason list" where
  "overload_reasons soldiers duties existing =
     (case find (\<lambda>day. concurrent_on duties day > free_on soldiers existing day)
             (sort (all_days duties)) of
        None \<Rightarrow> []
      | Some day \<Rightarrow> [Overloaded_day day (concurrent_on duties day) (free_on soldiers existing day)
                      (int (length soldiers))])"

definition diagnose_infeasibility :: "SoldierInput list \<Rightarrow> DutyBlock list
    \<Rightarrow> ExistingAssignment list \<Rightarrow> (uuid, string) dict \<Rightarrow> reason list" where
  "diagnose_infeasibility soldiers duties existing duty_type_names =
     (let z = zero_tables_of soldiers duties existing
      in concat (map (zero_reasons duty_type_names z) (z_types z))
       @ concat (map (pool_reasons soldiers existing duty_type_names z)
                   (group_by d_duty_type_id duties))
       @ overload_reasons soldiers duties existing)"

section \<open>What the diagnosis says\<close>

lemma soldier_blocked_on_iff: "soldier_blocked_on s t \<longleftrightarrow> on_leave s t"
  by (auto simp: soldier_blocked_on_def on_leave_def list_ex_iff)

lemma existing_on_iff: "existing_on ex sid t \<longleftrightarrow> t \<in> booked ex sid"
  by (auto simp: existing_on_def list_ex_iff mem_booked)

text \<open>The second look at personal constraints is redundant.\<close>

lemma eligible_for_block_iff:
  "eligible_for_block ex s d \<longleftrightarrow> may_serve True s d \<and> booked ex (s_id s) \<inter> duty_days d = {}"
  by (auto simp: eligible_for_block_def eligibility_blockers_Nil list_ex_iff soldier_blocked_on_iff
      existing_on_iff may_serve_def)

definition nobody_available :: "SoldierInput list \<Rightarrow> ExistingAssignment list \<Rightarrow> DutyBlock \<Rightarrow> bool" where
  "nobody_available ss ex d \<longleftrightarrow>
     \<not> list_ex (\<lambda>s. may_serve True s d \<and> \<not> has_conflict ex s d) ss"

lemma available_count_0:
  "v_available_count (analyze_duty_availability ss d ex True) = 0 \<longleftrightarrow> nobody_available ss ex d"
  by (simp add: analyze_duty_availability_def availability_fold nobody_available_def
      list_ex_iff filter_empty_conv)

lemma zero_types_fold:
  "dict_get_or (z_types (fold (zero_step ss ex) ds z)) t []
     = dict_get_or (z_types z) t []
       @ map d_start_date (filter (\<lambda>d. d_duty_type_id d = t \<and> nobody_available ss ex d) ds)"
  by (induction ds arbitrary: z) (auto simp: zero_step_def Let_def available_count_0)

lemma zero_types_distinct:
  "distinct (map fst (z_types z)) \<Longrightarrow> distinct (map fst (z_types (fold (zero_step ss ex) ds z)))"
  by (induction ds arbitrary: z) (auto simp: zero_step_def Let_def)

lemma zero_types_keys:
  "fst ` set (z_types (fold (zero_step ss ex) ds z)) = fst ` set (z_types z)
     \<union> d_duty_type_id ` {d \<in> set ds. nobody_available ss ex d}"
proof (induction ds arbitrary: z)
  case (Cons d ds)
  have "fst ` set (z_types (zero_step ss ex d z)) = fst ` set (z_types z)
      \<union> d_duty_type_id ` {e. e = d \<and> nobody_available ss ex e}"
    by (auto simp: zero_step_def Let_def available_count_0)
  with Cons show ?case by auto
qed simp

lemma zero_types_entry:
  assumes "nobody_available ss ex d" "d \<in> set ds"
  shows "(d_duty_type_id d, map d_start_date
      (filter (\<lambda>e. d_duty_type_id e = d_duty_type_id d \<and> nobody_available ss ex e) ds))
    \<in> set (z_types (zero_tables_of ss ds ex))"
proof -
  let ?m = "z_types (zero_tables_of ss ds ex)" and ?t = "d_duty_type_id d"
  have "?t \<in> fst ` set ?m"
    using assms by (simp add: zero_tables_of_def zero_types_keys)
  then have "dict_get ?m ?t \<noteq> None" by (simp add: dict_get_def map_of_eq_None_iff)
  then obtain xs where xs: "dict_get ?m ?t = Some xs" by blast
  moreover have "xs = map d_start_date
      (filter (\<lambda>e. d_duty_type_id e = ?t \<and> nobody_available ss ex e) ds)"
    using zero_types_fold [of ss ex ds "\<lparr>z_types = [], z_blockers = [], z_representative = []\<rparr>" ?t] xs
    by (simp add: zero_tables_of_def dict_get_or_def)
  moreover have "distinct (map fst ?m)" by (simp add: zero_tables_of_def zero_types_distinct)
  ultimately show ?thesis by (simp add: dict_get_Some_iff)
qed

lemma concurrent_ge:
  "int (length (filter (\<lambda>d. t \<in> duty_days d) ds)) \<le> concurrent_on ds t"
  unfolding concurrent_on_def by (induction ds) (auto simp: mem_duty_days)

section \<open>Exactly what is reported\<close>

fun is_no_one :: "reason \<Rightarrow> bool" where
  "is_no_one (No_one_on _ _) = True"
| "is_no_one (No_one_on_dates _ _ _) = True"
| "is_no_one _ = False"

fun is_short_pool :: "reason \<Rightarrow> bool" where
  "is_short_pool (Short_pool _ _ _) = True"
| "is_short_pool _ = False"

fun is_overloaded :: "reason \<Rightarrow> bool" where
  "is_overloaded (Overloaded_day _ _ _ _) = True"
| "is_overloaded _ = False"

text \<open>The start dates of the duties of a type that no soldier can serve, and their report.\<close>

definition unserved :: "SoldierInput list \<Rightarrow> DutyBlock list \<Rightarrow> ExistingAssignment list \<Rightarrow> uuid \<Rightarrow> date list" where
  "unserved ss ds ex t = map d_start_date (filter (\<lambda>d. d_duty_type_id d = t \<and> nobody_available ss ex d) ds)"

definition no_one_report :: "TypeName \<Rightarrow> date list \<Rightarrow> reason" where
  "no_one_report name dates =
     (if length dates = 1 then No_one_on name (hd dates)
      else No_one_on_dates name (int (length dates)) (take 3 (sort dates)))"

text \<open>The soldiers who can serve some duty of the type, and the types with too few of them.\<close>

definition pool_size :: "SoldierInput list \<Rightarrow> DutyBlock list \<Rightarrow> ExistingAssignment list \<Rightarrow> uuid \<Rightarrow> int" where
  "pool_size ss ds ex t = int (length (filter (\<lambda>s. list_ex (\<lambda>d. d_duty_type_id d = t
     \<and> may_serve True s d \<and> booked ex (s_id s) \<inter> duty_days d = {}) ds) ss))"

definition peak :: "DutyBlock list \<Rightarrow> uuid \<Rightarrow> int" where
  "peak ds t = max_concurrent (filter (\<lambda>d. d_duty_type_id d = t) ds)"

definition overloaded_days :: "SoldierInput list \<Rightarrow> DutyBlock list \<Rightarrow> ExistingAssignment list \<Rightarrow> date set" where
  "overloaded_days ss ds ex = {t \<in> \<Union>(duty_days ` set ds). free_on ss ex t < concurrent_on ds t}"

lemma no_zero_reason [simp]:
  "filter is_no_one (zero_reasons names z (t, dates)) = [no_one_report (type_name names t) dates]"
  "filter is_short_pool (zero_reasons names z x) = []" "filter is_overloaded (zero_reasons names z x) = []"
  by (cases x; auto simp: zero_reasons_def no_one_report_def Let_def split: option.split)+

lemma no_pool_reason [simp]:
  "filter is_no_one (pool_reasons ss ex names z x) = []" "filter is_overloaded (pool_reasons ss ex names z x) = []"
  "filter is_short_pool (pool_reasons ss ex names z x) = pool_reasons ss ex names z x"
  by (cases x; simp add: pool_reasons_def Let_def)+

lemma no_overload_reason [simp]:
  "filter is_no_one (overload_reasons ss ds ex) = []" "filter is_short_pool (overload_reasons ss ds ex) = []"
  "filter is_overloaded (overload_reasons ss ds ex) = overload_reasons ss ds ex"
  by (simp_all add: overload_reasons_def split: option.split)

lemma filter_none: "(\<And>x. filter P (f x) = []) \<Longrightarrow> concat (map (filter P \<circ> f) xs) = []"
  by (induction xs) simp_all

lemma zero_types_exact:
  "set (z_types (zero_tables_of ss ds ex))
     = (\<lambda>t. (t, unserved ss ds ex t)) ` d_duty_type_id ` {d \<in> set ds. nobody_available ss ex d}"
    (is "?A = ?B")
proof
  let ?z = "\<lparr>z_types = [], z_blockers = [], z_representative = []\<rparr>"
  have d: "distinct (map fst (z_types (zero_tables_of ss ds ex)))"
    by (simp add: zero_tables_of_def zero_types_distinct)
  show "?A \<subseteq> ?B"
  proof
    fix x assume x: "x \<in> ?A"
    then have "fst x \<in> fst ` ?A" by (rule imageI)
    also have "\<dots> = d_duty_type_id ` {d \<in> set ds. nobody_available ss ex d}"
      unfolding zero_tables_of_def zero_types_keys by simp
    finally have type: "fst x \<in> d_duty_type_id ` {d \<in> set ds. nobody_available ss ex d}" .
    have "dict_get (z_types (zero_tables_of ss ds ex)) (fst x) = Some (snd x)"
      unfolding dict_get_Some_iff [OF d] using x by simp
    then have "snd x = dict_get_or (z_types (zero_tables_of ss ds ex)) (fst x) []"
      by (simp only: dict_get_or_def option.case)
    also have "\<dots> = unserved ss ds ex (fst x)"
      unfolding zero_tables_of_def zero_types_fold unserved_def by (simp add: dict_get_or_def dict_get_def)
    finally have "snd x = unserved ss ds ex (fst x)" .
    then have "x = (fst x, unserved ss ds ex (fst x))" by (simp add: prod_eq_iff)
    then show "x \<in> ?B" using type by (rule image_eqI)
  qed
qed (auto simp: unserved_def intro: zero_types_entry)

lemma zero_types_unique: "distinct (map fst (z_types (zero_tables_of ss ds ex)))"
  by (simp add: zero_tables_of_def zero_types_distinct)

lemma diagnosed_no_one:
  "filter is_no_one (diagnose_infeasibility ss ds ex names)
     = map (\<lambda>(t, dates). no_one_report (type_name names t) dates) (z_types (zero_tables_of ss ds ex))"
proof -
  have "concat (map (filter is_no_one \<circ> zero_reasons names z) xs)
      = map (\<lambda>(t, dates). no_one_report (type_name names t) dates) xs" for z xs
    by (induction xs) auto
  then show ?thesis
    by (simp add: diagnose_infeasibility_def Let_def filter_concat filter_none)
qed

lemma diagnosed_overload:
  "filter is_overloaded (diagnose_infeasibility ss ds ex names) = overload_reasons ss ds ex"
  by (simp add: diagnose_infeasibility_def Let_def filter_concat filter_none)

lemma find_found: "find P xs = Some x \<Longrightarrow> x \<in> set xs \<and> P x"
  by (auto simp: find_Some_iff)

lemma find_sorted:
  assumes "sorted xs" "find P xs = Some x"
  shows "x = Min {y \<in> set xs. P y}"
  using assms
proof (induction xs)
  case (Cons y ys)
  show ?case
  proof (cases "P y")
    case True
    then have "Min {z \<in> set (y # ys). P z} = y" using Cons.prems(1) by (intro Min_eqI) auto
    then show ?thesis using True Cons.prems(2) by simp
  next
    case False
    then have "{z \<in> set (y # ys). P z} = {z \<in> set ys. P z}" by auto
    then show ?thesis using False Cons by simp
  qed
qed simp

lemma overload_exact:
  "overload_reasons ss ds ex = (if overloaded_days ss ds ex = {} then []
     else [Overloaded_day (Min (overloaded_days ss ds ex)) (concurrent_on ds (Min (overloaded_days ss ds ex)))
       (free_on ss ex (Min (overloaded_days ss ds ex))) (int (length ss))])"
proof -
  have days: "overloaded_days ss ds ex = {t \<in> set (sort (all_days ds)). concurrent_on ds t > free_on ss ex t}"
    by (auto simp: overloaded_days_def all_days_def)
  show ?thesis
  proof (cases "find (\<lambda>day. concurrent_on ds day > free_on ss ex day) (sort (all_days ds))")
    case None
    then have "overloaded_days ss ds ex = {}" unfolding days by (auto simp: find_None_iff)
    then show ?thesis using None by (simp add: overload_reasons_def)
  next
    case (Some day)
    have "day = Min (overloaded_days ss ds ex)" unfolding days by (rule find_sorted [OF sorted_sort Some])
    moreover have "day \<in> overloaded_days ss ds ex" unfolding days using find_found [OF Some] by blast
    ultimately show ?thesis using Some by (auto simp: overload_reasons_def)
  qed
qed

lemma diagnosed_short:
  "set (filter is_short_pool (diagnose_infeasibility ss ds ex names))
    = (\<lambda>t. Short_pool (type_name names t) (peak ds t) (pool_size ss ds ex t))
        ` {t \<in> d_duty_type_id ` set ds. unserved ss ds ex t = [] \<and> pool_size ss ds ex t < peak ds t}"
proof -
  let ?z = "zero_tables_of ss ds ex"
  have z: "dict_get (z_types ?z) t = None \<longleftrightarrow> unserved ss ds ex t = []" for t
    using zero_types_exact [of ss ds ex]
    by (auto simp: dict_get_def map_of_eq_None_iff image_image unserved_def filter_empty_conv)
  have g: "set (group_by d_duty_type_id ds)
      = (\<lambda>t. (t, filter (\<lambda>d. d_duty_type_id d = t) ds)) ` d_duty_type_id ` set ds"
  proof (intro set_eqI iffI)
    fix x assume "x \<in> (\<lambda>t. (t, filter (\<lambda>d. d_duty_type_id d = t) ds)) ` d_duty_type_id ` set ds"
    then obtain t where t: "x = (t, filter (\<lambda>d. d_duty_type_id d = t) ds)" "t \<in> d_duty_type_id ` set ds"
      by auto
    have "t \<in> fst ` set (group_by d_duty_type_id ds)" using t(2) by (simp only: group_by_keys)
    then obtain p where "p \<in> set (group_by d_duty_type_id ds)" "t = fst p" by blast
    then have m: "(t, snd p) \<in> set (group_by d_duty_type_id ds)" by simp
    then show "x \<in> set (group_by d_duty_type_id ds)" unfolding t(1) group_by_mem(1) [OF m] .
  next
    fix x assume x: "x \<in> set (group_by d_duty_type_id ds)"
    then have type: "fst x \<in> d_duty_type_id ` set ds" using group_by_keys [of d_duty_type_id ds] by blast
    have "x = (fst x, filter (\<lambda>d. d_duty_type_id d = fst x) ds)"
      using group_by_mem(1) [of "fst x" "snd x" d_duty_type_id ds] x by (simp add: prod_eq_iff)
    then show "x \<in> (\<lambda>t. (t, filter (\<lambda>d. d_duty_type_id d = t) ds)) ` d_duty_type_id ` set ds"
      using type by (rule image_eqI)
  qed
  have pool: "set (pool_reasons ss ex names ?z (t, filter (\<lambda>d. d_duty_type_id d = t) ds))
      = (if unserved ss ds ex t = [] \<and> pool_size ss ds ex t < peak ds t
         then {Short_pool (type_name names t) (peak ds t) (pool_size ss ds ex t)} else {})" for t
  proof -
    have "list_ex (eligible_for_block ex s) (filter (\<lambda>d. d_duty_type_id d = t) ds)
        = list_ex (\<lambda>d. d_duty_type_id d = t \<and> may_serve True s d \<and> booked ex (s_id s) \<inter> duty_days d = {}) ds" for s
      by (auto simp: list_ex_iff eligible_for_block_iff)
    then show ?thesis by (simp add: pool_reasons_def Let_def z peak_def pool_size_def)
  qed
  have "filter is_short_pool (diagnose_infeasibility ss ds ex names)
      = concat (map (pool_reasons ss ex names ?z) (group_by d_duty_type_id ds))"
    by (simp add: diagnose_infeasibility_def Let_def filter_concat filter_none comp_def)
  then show ?thesis by (simp add: g image_image pool) auto
qed

lemma diagnosed_nothing:
  assumes e: "diagnose_infeasibility ss ds ex names = []"
  shows "list_all (\<lambda>d. \<not> nobody_available ss ex d) ds"
    and "int (length (filter (\<lambda>d. t \<in> duty_days d) ds)) \<le> free_on ss ex t"
proof -
  have "z_types (zero_tables_of ss ds ex) = []" using diagnosed_no_one [of ss ds ex names] e by simp
  then show "list_all (\<lambda>d. \<not> nobody_available ss ex d) ds"
    using zero_types_exact [of ss ds ex] by (auto simp: list_all_iff)
  have "overloaded_days ss ds ex = {}"
    using diagnosed_overload [of ss ds ex names] e by (auto simp: overload_exact split: if_splits)
  then have "concurrent_on ds t \<le> free_on ss ex t" if "t \<in> \<Union>(duty_days ` set ds)"
    using that by (force simp: overloaded_days_def)
  moreover have "filter (\<lambda>d. t \<in> duty_days d) ds = []" if "t \<notin> \<Union>(duty_days ` set ds)"
    using that by (auto simp: filter_empty_conv)
  ultimately show "int (length (filter (\<lambda>d. t \<in> duty_days d) ds)) \<le> free_on ss ex t"
    using concurrent_ge [of t ds] by (cases "t \<in> \<Union>(duty_days ` set ds)") (force simp: free_on_def)+
qed

text \<open>
  C40. The diagnosis is exact.  It reports once each type with a duty that no soldier can serve:
  by the start date when there is one such duty, else by their number and the three earliest
  start dates.  It reports each other type of which, on some day, more duties count than there
  are soldiers who can serve one of them, with the two numbers.  It reports at most one overloaded
  day, the earliest on which a duty runs and more duties count than soldiers are free, with the
  two numbers and that of all soldiers.  Both counts take a duty on the days it runs and on its
  exclusive end date (lemma \<open>diagnose_false_alarm\<close>).  So an empty
  diagnosis means that every duty has an available soldier and no day needs more soldiers than
  are free.  The sentence on the main blockers of a type is not covered.
\<close>

theorem diagnose_complete:
  "set (filter is_no_one (diagnose_infeasibility ss ds ex names))
      = (\<lambda>t. no_one_report (type_name names t) (unserved ss ds ex t))
          ` d_duty_type_id ` {d \<in> set ds. nobody_available ss ex d}
   \<and> length (filter is_no_one (diagnose_infeasibility ss ds ex names))
      = card (d_duty_type_id ` {d \<in> set ds. nobody_available ss ex d})
   \<and> set (filter is_short_pool (diagnose_infeasibility ss ds ex names))
      = (\<lambda>t. Short_pool (type_name names t) (peak ds t) (pool_size ss ds ex t))
          ` {t \<in> d_duty_type_id ` set ds. unserved ss ds ex t = [] \<and> pool_size ss ds ex t < peak ds t}
   \<and> filter is_overloaded (diagnose_infeasibility ss ds ex names)
      = (if overloaded_days ss ds ex = {} then []
         else [Overloaded_day (Min (overloaded_days ss ds ex)) (concurrent_on ds (Min (overloaded_days ss ds ex)))
           (free_on ss ex (Min (overloaded_days ss ds ex))) (int (length ss))])
   \<and> (diagnose_infeasibility ss ds ex names = [] \<longrightarrow> list_all (\<lambda>d. \<not> nobody_available ss ex d) ds
      \<and> (\<forall>t. int (length (filter (\<lambda>d. t \<in> duty_days d) ds)) \<le> free_on ss ex t))"
proof -
  let ?T = "d_duty_type_id ` {d \<in> set ds. nobody_available ss ex d}" and ?z = "z_types (zero_tables_of ss ds ex)"
  have "length ?z = card (set ?z)" using zero_types_unique by (metis distinct_card distinct_map)
  also have "\<dots> = card ?T" unfolding zero_types_exact by (rule card_image) (simp add: inj_on_def)
  finally have "length ?z = card ?T" .
  then show ?thesis
    using diagnosed_nothing [of ss ds ex names] diagnosed_short [of ss ds ex names]
    by (simp add: diagnosed_no_one diagnosed_overload overload_exact zero_types_exact image_image)
qed

text \<open>A closed instance with an empty diagnosis.\<close>

theorem diagnose_complete_witness:
  "list_all (\<lambda>d. \<not> nobody_available [sample_soldier 1] [] d) [sample_duty 10 0 2]
   \<and> (\<forall>t. int (length (filter (\<lambda>d. t \<in> duty_days d) [sample_duty 10 0 2]))
         \<le> free_on [sample_soldier 1] [] t)"
proof -
  have "diagnose_infeasibility [sample_soldier 1] [sample_duty 10 0 2] [] [] = []"
    by (simp add: diagnose_infeasibility_def Let_def zero_tables_of_def zero_step_def
        available_count_0 nobody_available_def may_serve_def has_conflict_def sample_soldier_def
        sample_duty_def on_leave_def node_in_scope_def group_by_def dict_append_def dict_get_or_def
        pool_reasons_def max_concurrent_def all_days_def duty_dates_def concurrent_on_def
        eligible_for_block_iff booked_def overload_reasons_def free_on_def existing_on_def dict_get_def)
  then show ?thesis using diagnose_complete [of "[sample_soldier 1]" "[sample_duty 10 0 2]" "[]" "[]"] by argo
qed

text \<open>
  The closed interval of the day count.  Two duties of one type, the second starting on the
  exclusive end date of the first, and one soldier who may take both: the duties do not
  overlap, yet the diagnosis asks for two soldiers at once.
\<close>

lemma diagnose_false_alarm:
  "duty_days (sample_duty 10 0 2) \<inter> duty_days (sample_duty 11 2 4) = {}
   \<and> eligible_for_block [] (sample_soldier 1) (sample_duty 10 0 2)
   \<and> eligible_for_block [] (sample_soldier 1) (sample_duty 11 2 4)
   \<and> diagnose_infeasibility [sample_soldier 1] [sample_duty 10 0 2, sample_duty 11 2 4] [] []
       = [Short_pool (Bare 7) 2 1, Overloaded_day 2 2 1 1]"
  by (simp add: diagnose_infeasibility_def Let_def zero_tables_of_def zero_step_def
        available_count_0 nobody_available_def may_serve_def has_conflict_def sample_soldier_def
        sample_duty_def on_leave_def node_in_scope_def group_by_def dict_append_def dict_get_or_def
        pool_reasons_def max_concurrent_def all_days_def duty_dates_def concurrent_on_def type_name_def
        eligible_for_block_iff booked_def overload_reasons_def free_on_def existing_on_def dict_get_def
        duty_days_def)

end
