(* ===== verification/Calendar.thy ===== *)
theory Calendar
  imports InterleavedSound
begin

text \<open>
  \<open>_decomposed_solve\<close>: the components' duties in calendar windows, one relaxation
  chain per window, no soft coverage and no second attempt.  The loop state is that of
  Interleaved; its residual stays empty.
\<close>

definition date_key :: "DutyBlock list \<Rightarrow> nat \<Rightarrow> date \<times> uuid" where
  "date_key duties di = (d_start_date (duties ! di), d_id (duties ! di))"

definition date_key_le :: "date \<times> uuid \<Rightarrow> date \<times> uuid \<Rightarrow> bool" where
  "date_key_le a b \<longleftrightarrow> fst a < fst b \<or> fst a = fst b \<and> snd a \<le> snd b"

fun calendar_plan :: "DutyBlock list \<Rightarrow> int \<Rightarrow> nat \<Rightarrow> (nat list \<times> nat list) list
    \<Rightarrow> plan_entry list" where
  "calendar_plan duties window_days comp_idx [] = []"
| "calendar_plan duties window_days comp_idx ((duty_idxs, soldier_idxs) # comps) =
     (if soldier_idxs = [] then []
      else map (\<lambda>batch. (comp_idx, soldier_idxs, batch))
             (calendar_window_batches
               (sort_by (\<lambda>a b. date_key_le (date_key duties a) (date_key duties b)) duty_idxs)
               duties window_days))
     @ calendar_plan duties window_days (comp_idx + 1) comps"

definition calendar_step :: "'w env \<Rightarrow> DutyBlock list \<Rightarrow> SolverSettings \<Rightarrow> reserve_dists option
    \<Rightarrow> int \<Rightarrow> nat \<Rightarrow> plan_entry \<Rightarrow> loop_state \<Rightarrow> 'w \<Rightarrow> flow \<times> 'w" where
  "calendar_step env duties settings reserve_dist total_duties index entry s w =
     (case entry of (comp_idx, soldier_idxs, batch) \<Rightarrow>
      (case cancel_is_set env w of (cancelled, w1) \<Rightarrow>
        if cancelled then (Return (cancelled_result (seed_of settings) s), w1)
        else
          (let sub_soldiers = map (\<lambda>si. lp_work s ! si) soldier_idxs;
               sub_duties = map (\<lambda>di. duties ! di) batch;
               sub_rd = reserve_for_batch reserve_dist batch soldier_idxs
           in (case infeasibility_relaxation_chain env sub_soldiers sub_duties (lp_carry s)
                      (batch_settings settings) sub_rd w1 of
                 (res, w2) \<Rightarrow>
                   if r_status res = CANCELLED
                   then (Return (cancelled_result (r_seed res) s), w2)
                   else
                     (case absorb duties (lp_carry s, lp_work s) (r_assignments res) of
                        None \<Rightarrow> (Raise, w2)
                      | Some (carry, work) \<Rightarrow>
                         (let finished = lp_done s + int (length batch)
                          in (Next (s\<lparr>lp_all := lp_all s @ r_assignments res,
                                lp_relaxed := lp_relaxed s @ r_relaxed res,
                                lp_batches := lp_batches s @ [batch_report index comp_idx
                                  sub_soldiers sub_duties (lp_carry s)
                                  (enforce_weapon_qualification settings) (r_assignments res)
                                  (int (length batch) - int (length (r_assignments res)))
                                  (r_status res) (r_relaxed res) []],
                                lp_carry := carry, lp_work := work, lp_done := finished\<rparr>),
                              notify env (Progress finished total_duties) w2)))))))"

fun calendar_loop :: "'w env \<Rightarrow> DutyBlock list \<Rightarrow> SolverSettings \<Rightarrow> reserve_dists option
    \<Rightarrow> int \<Rightarrow> nat \<Rightarrow> plan_entry list \<Rightarrow> loop_state \<Rightarrow> 'w \<Rightarrow> flow \<times> 'w" where
  "calendar_loop env duties settings reserve_dist total_duties index [] s w = (Next s, w)"
| "calendar_loop env duties settings reserve_dist total_duties index (entry # rest) s w =
     (case calendar_step env duties settings reserve_dist total_duties index entry s w of
        (Next s1, w1) \<Rightarrow>
          calendar_loop env duties settings reserve_dist total_duties (index + 1) rest s1 w1
      | (out, w1) \<Rightarrow> (out, w1))"

definition decomposed_solve :: "'w env \<Rightarrow> SoldierInput list \<Rightarrow> DutyBlock list
    \<Rightarrow> ExistingAssignment list \<Rightarrow> SolverSettings \<Rightarrow> reserve_dists option
    \<Rightarrow> 'w \<Rightarrow> SolverResult option \<times> 'w" where
  "decomposed_solve env soldiers duties existing settings reserve_dist w =
     (case connected_components (length duties) (length soldiers)
             (eligible_pairs soldiers duties settings) of
        None \<Rightarrow> (None, w)
      | Some components \<Rightarrow>
          (let plan = calendar_plan duties (batch_window_days settings) 0 components;
               total_duties = planned_duties plan;
               w0 = notify env (Progress 0 total_duties) w
           in (case calendar_loop env duties settings reserve_dist total_duties 0 plan
                      (start_state soldiers existing) w0 of
                 (out, w1) \<Rightarrow> (flow_result settings duties out, w1))))"

section \<open>The plan\<close>

lemma planned_append: "planned (xs @ ys) = planned xs @ planned ys"
  by (simp add: planned_def)

lemma calendar_batches_concat: "concat (calendar_window_batches xs ds k) = xs"
  by (cases xs) (simp_all only: calendar_window_batches_def calendar_windows_concat list.case
      concat.simps append_Nil)

lemma calendar_plan_ok:
  assumes "list_all (\<lambda>c. distinct (snd c) \<and> list_all (\<lambda>i. i < m) (snd c)) comps"
    and "list_all (\<lambda>c. list_all (\<lambda>i. i < n) (fst c)) comps"
  shows "list_all (entry_ok n m) (calendar_plan ds window_days k comps)
    \<and> mset (planned (calendar_plan ds window_days k comps)) \<subseteq># mset (concat (map fst comps))"
  using assms
proof (induction comps arbitrary: k)
  case (Cons c comps)
  obtain dis sis where c: "c = (dis, sis)" by (cases c)
  note IH = Cons.IH [of "k + 1"]
  have plan: "list_all (entry_ok n m) (calendar_plan ds window_days (k + 1) comps)"
      "mset (planned (calendar_plan ds window_days (k + 1) comps)) \<subseteq># mset (concat (map fst comps))"
    using IH Cons.prems by auto
  let ?xs = "sort_by (\<lambda>a b. date_key_le (date_key ds a) (date_key ds b)) dis"
  let ?bs = "calendar_window_batches ?xs ds window_days"
  have cc: "concat ?bs = ?xs" by (rule calendar_batches_concat)
  have "i < n" if "b \<in> set ?bs" "i \<in> set b" for b i
  proof -
    have "i \<in> set (concat ?bs)" using that unfolding set_concat by blast
    then show ?thesis using Cons.prems(2) c unfolding cc by (simp add: list_all_iff)
  qed
  then have e: "list_all (entry_ok n m) (map (\<lambda>b. (k, sis, b)) ?bs)"
    using Cons.prems(1) c by (simp add: entry_ok_def list_all_iff)
  have "planned (map (\<lambda>b. (k, sis, b)) ?bs) = concat ?bs" by (simp add: planned_def comp_def)
  then have p: "mset (planned (map (\<lambda>b. (k, sis, b)) ?bs)) = mset dis" by (simp only: cc mset_sort_by)
  show ?case
    using plan e p unfolding c calendar_plan.simps
    by (cases "sis = []") (simp_all add: planned_append planned_def [of "[]"] subset_mset.add_increasing)
qed (simp add: planned_def)

section \<open>The loop\<close>

lemma calendar_step_ok:
  assumes env: "cp_sound env" and prob: "problem_ok st ss ds"
    and entry: "entry_ok (length ds) (length ss) e" and ok: "loop_ok st ss ds ex (e # rest) s"
  shows "ensures (calendar_step env ds st rd n i e s) (flow_ok st ss ds ex rest)"
proof -
  obtain ci sis b where e: "e = (ci, sis, b)" by (cases e)
  note head = loop_head [OF ok [unfolded e]]
  have idx: "distinct sis" "list_all (\<lambda>i. i < length ss) sis"
    using entry by (simp_all add: entry_ok_def e)
  note run = chain.run_batch [OF env head(1) prob idx head(2-4) batch_settings_tightens]
  have stop: "flow_ok st ss ds ex rest (Return (cancelled_result k s))" for k
    using cancelled_ok [OF ok] by simp
  have go: "flow_ok st ss ds ex rest (Next (s\<lparr>lp_all := lp_all s @ r_assignments r, lp_relaxed := l,
        lp_batches := bs, lp_carry := fst c, lp_work := snd c, lp_done := f\<rparr>))"
    if "a_duty_id ` set (r_assignments r) \<subseteq> d_id ` set (map (\<lambda>di. ds ! di) b)"
       "carry_ok st ss ds ex (lp_all s @ r_assignments r) c" for r c l bs f
    using loop_next [OF ok [unfolded e] that(1)] that(2) by simp
  show ?thesis
    unfolding calendar_step_def e prod.case Let_def
  proof (intro ensures_bind [of "cancel_is_set env" "\<lambda>_. True"] ensures_bind [OF run] ensures_if
      ensures_return stop, goal_cases)
    case (2 c r)
    then show ?case using go [of r] by (auto simp: ensures_def)
  qed (simp_all add: ensures_def)
qed

lemma calendar_loop_ok:
  assumes "cp_sound env" "problem_ok st ss ds"
    and "list_all (entry_ok (length ds) (length ss)) es" "loop_ok st ss ds ex es s"
  shows "ensures (calendar_loop env ds st rd n i es s) (flow_ok st ss ds ex [])"
  using assms(3,4)
proof (induction es arbitrary: i s)
  case Nil
  then show ?case by (simp add: ensures_def)
next
  case (Cons e es)
  have "ensures (calendar_loop env ds st rd n (i + 1) es s1) (flow_ok st ss ds ex [])"
    if "loop_ok st ss ds ex es s1" for s1
    using Cons that by simp
  from flow_bind [OF calendar_step_ok [OF assms(1,2) _ Cons(3)] this] Cons(2)
  show ?case by (simp add: calendar_loop.simps(2) [abs_def])
qed

lemma decomposed_solve_ok:
  assumes "cp_sound env" "problem_ok st ss ds"
  shows "ensures (decomposed_solve env ss ds ex st rd) (run_spec st ss ds ex)"
proof -
  obtain comps where c: "connected_components (length ds) (length ss) (eligible_pairs ss ds st) = Some comps"
      "mset (concat (map fst comps)) = mset [0..<length ds]"
      "list_all (\<lambda>c. distinct (snd c) \<and> list_all (\<lambda>i. i < length ss) (snd c)) comps"
      "list_all (\<lambda>c. list_all (\<lambda>i. i < length ds) (fst c)) comps"
    by (rule components_bounds)
  let ?plan = "calendar_plan ds (batch_window_days st) 0 comps" and ?n = "planned_duties"
  have plan: "list_all (entry_ok (length ds) (length ss)) ?plan"
      "mset (planned ?plan) \<subseteq># mset (concat (map fst comps))"
    using calendar_plan_ok [OF c(3,4)] by blast+
  have "distinct (planned ?plan)"
    by (rule distinct_submset [of "[0..<length ds]"]) (use plan(2) c(2) in simp_all)
  note loop = calendar_loop_ok [OF assms plan(1) loop_ok_start [OF assms(2) plan(1) this]]
  show ?thesis
  proof (rule ensuresI)
    fix w
    let ?r = "calendar_loop env ds st rd (planned_duties ?plan) 0 ?plan (start_state ss ex)
      (notify env (Progress 0 (planned_duties ?plan)) w)"
    obtain fl w1 where r: "?r = (fl, w1)" by (cases ?r)
    have "flow_ok st ss ds ex [] fl" by (rule ensures_fst [OF loop r])
    then show "run_spec st ss ds ex (fst (decomposed_solve env ss ds ex st rd w))"
      using flow_result_spec by (simp add: decomposed_solve_def c(1) Let_def r)
  qed
qed

end
