(* ===== verification/RoundsSound.thy ===== *)
theory RoundsSound
  imports Rounds
begin

text \<open>
  \<open>_effort_round_solve\<close> returns a schedule: the attempt at a component keeps the carried
  state of Contracts, the ladder search only returns the result of some attempt within
  the ceilings, and the loop over the components keeps the invariant of InterleavedSound.
  What the binary search finds is the subject of LadderSearch.
\<close>

section \<open>One attempt\<close>

definition comp_ok :: "SolverSettings \<Rightarrow> SoldierInput list \<Rightarrow> DutyBlock list
    \<Rightarrow> ExistingAssignment list \<Rightarrow> comp_state \<Rightarrow> bool" where
  "comp_ok st pool ds carry s \<longleftrightarrow>
     carry_ok st pool ds carry (cs_assigned s) (cs_carry s, cs_pool s)
   \<and> set (cs_residual s) \<subseteq> set ds \<and> distinct (map d_id (cs_residual s))
   \<and> a_duty_id ` set (cs_assigned s) \<inter> d_id ` set (cs_residual s) = {}"

fun comp_flow_ok :: "SolverSettings \<Rightarrow> SoldierInput list \<Rightarrow> DutyBlock list
    \<Rightarrow> ExistingAssignment list \<Rightarrow> comp_flow \<Rightarrow> bool" where
  "comp_flow_ok st pool ds carry (Go s) = comp_ok st pool ds carry s"
| "comp_flow_ok st pool ds carry (Stop r) = (r_assignments r = [])"
| "comp_flow_ok st pool ds carry Fail = False"

lemma distinct_left_over: "distinct (map d_id ds) \<Longrightarrow> distinct (map d_id (left_over ds as))"
  by (simp add: left_over_def distinct_map_filter)

lemma absorb_local_ok:
  assumes ok: "comp_ok st pool ds carry s"
    and new: "a_duty_id ` set as \<subseteq> d_id ` set (cs_residual s)"
      "absorb ds (cs_carry s, cs_pool s) as = Some c"
      "carry_ok st pool ds carry (cs_assigned s @ as) c"
  shows "\<exists>s1. absorb_local ds as s = Some s1 \<and> comp_ok st pool ds carry s1
    \<and> cs_assigned s1 = cs_assigned s @ as"
proof -
  have "set (left_over (cs_residual s) as) \<subseteq> set (cs_residual s)" by (auto simp: left_over_def)
  moreover have "(A \<union> N) \<inter> (R - N) = {}" if "A \<inter> R = {}" for A N R :: "uuid set" using that by blast
  ultimately show ?thesis
    using ok new distinct_left_over
    by (cases c) (auto simp: absorb_local_def comp_ok_def left_over_ids image_Un)
qed

lemma soft_pass_ok:
  assumes env: "cp_sound env" and prob: "problem_ok st pool ds" and t: "tightens st st'"
    and idx: "distinct sis" "list_all (\<lambda>i. i < length pool) sis" and ok: "comp_ok st pool ds carry s"
  shows "ensures (soft_pass env ds st' remap sis s) (comp_flow_ok st pool ds carry)"
proof -
  have c: "carry_ok st pool ds carry (cs_assigned s) (cs_carry s, cs_pool s)"
    and res: "set (cs_residual s) \<subseteq> set ds" "distinct (map d_id (cs_residual s))"
      "a_duty_id ` set (cs_assigned s) \<inter> d_id ` set (cs_residual s) = {}"
    using ok by (simp_all add: comp_ok_def)
  note run = soft.run_batch [OF env c prob idx res t]
  have stop: "comp_flow_ok st pool ds carry (Stop (plain_result st' [] CANCELLED []))"
    by (simp add: plain_result_def)
  show ?thesis
    unfolding soft_pass_def Let_def
  proof (intro ensures_bind [OF run] ensures_if ensures_return stop, goal_cases)
    case (1 r)
    then obtain c' where "a_duty_id ` set (r_assignments r) \<subseteq> d_id ` set (cs_residual s)"
      "absorb ds (cs_carry s, cs_pool s) (r_assignments r) = Some c'"
      "carry_ok st pool ds carry (cs_assigned s @ r_assignments r) c'" by blast
    from absorb_local_ok [OF ok this] show ?case by (auto simp: ensures_def)
  qed
qed

lemma comp_flow_bind:
  assumes "ensures m (comp_flow_ok st pool ds carry)"
    and "\<And>s. comp_ok st pool ds carry s \<Longrightarrow> ensures (f s) (comp_flow_ok st pool ds carry)"
  shows "ensures (\<lambda>w. case m w of (Go s, w1) \<Rightarrow> f s w1 | (out, w1) \<Rightarrow> (out, w1))
    (comp_flow_ok st pool ds carry)"
proof (rule ensuresI)
  fix w
  obtain fl w1 where m: "m w = (fl, w1)" by (cases "m w")
  have ok: "comp_flow_ok st pool ds carry fl" by (rule ensures_fst [OF assms(1) m])
  show "comp_flow_ok st pool ds carry (fst (case m w of (Go s, w1) \<Rightarrow> f s w1 | (out, w1) \<Rightarrow> (out, w1)))"
    using ok assms(2) m by (cases fl) (auto simp: ensures_def)
qed

lemma rounds_ok:
  assumes "cp_sound env" "problem_ok st pool ds" "tightens st st'"
    and "list_all (\<lambda>g. distinct g \<and> list_all (\<lambda>i. i < length pool) g) gs" "comp_ok st pool ds carry s"
  shows "ensures (rounds env ds st' remap gs s) (comp_flow_ok st pool ds carry)"
  using assms(4,5)
proof (induction gs arbitrary: s)
  case Nil
  then show ?case by (simp add: ensures_def)
next
  case (Cons g gs)
  have "ensures (soft_pass env ds st' remap g s) (comp_flow_ok st pool ds carry)"
    using Cons.prems by (intro soft_pass_ok [OF assms(1-3)]) auto
  from comp_flow_bind [OF this Cons.IH] Cons.prems
  have "ensures (\<lambda>w. case soft_pass env ds st' remap g s w of (Go s1, w1) \<Rightarrow> rounds env ds st' remap gs s1 w1
      | (out, w1) \<Rightarrow> (out, w1)) (comp_flow_ok st pool ds carry)" by simp
  moreover have "ensures (\<lambda>w. (Go s, w)) (comp_flow_ok st pool ds carry)"
    using Cons.prems by (simp add: ensures_def)
  ultimately show ?case unfolding rounds.simps(2) [abs_def] by (intro ensures_if)
qed

lemma chunks_subset: "g \<in> set (chunks k xs) \<Longrightarrow> set g \<subseteq> set xs \<and> (distinct xs \<longrightarrow> distinct g)"
proof (induction k xs rule: chunks.induct)
  case (1 k xs)
  then have g: "\<not> (xs = [] \<or> k = 0)" "g = take k xs \<or> g \<in> set (chunks k (drop k xs))"
    by (auto simp: chunks.simps [of k xs] split: if_splits)
  then show ?case
    using 1(1) by (auto dest: in_set_takeD in_set_dropD)
qed

lemma group_order_ok: "set (group_order env k pool) = {..<length pool}" "distinct (group_order env k pool)"
proof -
  have m: "mset (group_order env k pool) = mset [0..<length pool]"
    by (simp only: group_order_def mset_sort_by)
  from arg_cong [OF m, of set_mset] show "set (group_order env k pool) = {..<length pool}"
    by (auto simp: atLeast0LessThan)
  show "distinct (group_order env k pool)"
    using mset_eq_imp_distinct_iff [OF m] by simp
qed

lemma soft_phases_ok:
  assumes "cp_sound env" "problem_ok st pool ds" "comp_ok st pool ds carry s"
  shows "ensures (soft_phases env ds st remap s) (comp_flow_ok st pool ds carry)"
proof -
  have len: "length (cs_pool s1) = length pool" if "comp_ok st pool ds carry s1" for s1
    using that by (simp add: comp_ok_def carry_ok_def same_but_effort_length)
  have gs: "list_all (\<lambda>g. distinct g \<and> list_all (\<lambda>i. i < length pool) g)
      (chunks k (group_order env (seed_of st) (cs_pool s)))" for k
    unfolding list_all_iff
    using chunks_subset group_order_ok [of env "seed_of st" "cs_pool s"] len [OF assms(3)] by fastforce
  show ?thesis
    unfolding soft_phases_def Let_def
  proof (rule comp_flow_bind [OF rounds_ok [OF assms(1,2) batch_settings_tightens gs assms(3)]])
    fix s1 assume s1: "comp_ok st pool ds carry s1"
    have "ensures (soft_pass env ds (batch_settings st) remap [0..<length (cs_pool s1)] s1)
        (comp_flow_ok st pool ds carry)"
      by (rule soft_pass_ok [OF assms(1,2) batch_settings_tightens _ _ s1])
        (simp_all add: len [OF s1] list_all_iff)
    then show "ensures (\<lambda>w1. if cs_residual s1 \<noteq> []
        then soft_pass env ds (batch_settings st) remap [0..<length (cs_pool s1)] s1 w1
        else (Go s1, w1)) (comp_flow_ok st pool ds carry)"
      by (intro ensures_if ensures_return) (simp_all add: s1)
  qed
qed

lemma solve_component_once_ok:
  assumes env: "cp_sound env" and prob: "problem_ok st pool ds"
  shows "ensures (solve_component_once env pool ds carry st remap) (run_spec st pool ds carry)"
proof -
  let ?s0 = "\<lparr>cs_carry = carry, cs_pool = pool, cs_residual = ds, cs_assigned = []\<rparr>"
  have s0: "comp_ok st pool ds carry ?s0"
    using prob by (simp add: comp_ok_def carry_ok_start problem_ok_def)
  have none: "run_spec st pool ds carry (Some (plain_result st [] o' ls))" for o' ls
    by (simp add: run_spec_def plain_result_def)
  have phase0: "\<exists>s1. absorb_local ds (assignments_of pool ds x a) ?s0 = Some s1
      \<and> run_spec st pool ds carry (Some (plain_result st (cs_assigned s1) o' ls))"
    if "solve_spec pool ds carry st rd (x, a)" "solved (ans_status a)" for x a rd o' ls
  proof -
    let ?as = "assignments_of pool ds x a"
    have "assignments_ok st pool ds carry ?as"
      by (rule solution_assignments [OF _ prob])
        (use that in \<open>auto simp: solve_spec_def\<close>)
    moreover have "map (\<lambda>i. pool ! i) [0..<length pool] = pool" by (rule map_nth)
    ultimately obtain c where c: "absorb ds (carry, pool) ?as = Some c"
        "carry_ok st pool ds carry ([] @ ?as) c" "a_duty_id ` set ?as \<subseteq> d_id ` set ds"
      using carry_ok_extend [OF carry_ok_start prob, of "[0..<length pool]" ds carry ?as]
      by (auto simp: list_all_iff assignments_ok_def names_ok_def)
    with absorb_local_ok [OF s0, of ?as c] obtain s1 where
      "absorb_local ds ?as ?s0 = Some s1" "cs_assigned s1 = ?as" by auto
    then show ?thesis using c(2) by (simp add: run_spec_def plain_result_def carry_ok_def)
  qed
  have cancel: "ensures (cancel_is_set env) (\<lambda>_. True)" by (simp add: ensures_def)
  show ?thesis
    unfolding solve_component_once_def Let_def
  proof (rule ensuresI)
    fix w
    obtain x a w1 where s: "solve_with_settings env pool ds carry st (remap pool ds) w = ((x, a), w1)"
      by (metis prod.collapse)
    note spec = ensures_fst [OF solve_with_settings_spec [OF env] s]
    obtain c w2 where c: "cancel_is_set env w1 = (c, w2)" by (cases "cancel_is_set env w1")
    obtain fl w3 where p: "soft_phases env ds st remap ?s0 w2 = (fl, w3)"
      by (cases "soft_phases env ds st remap ?s0 w2")
    have fl: "comp_flow_ok st pool ds carry fl"
      by (rule ensures_fst [OF soft_phases_ok [OF env prob s0] p])
    show "run_spec st pool ds carry
       (fst (case solve_with_settings env pool ds carry st (remap pool ds) w of
            ((x0, a0), w1) \<Rightarrow>
         (case cancel_is_set env w1 of (cancelled, w2) \<Rightarrow>
            if cancelled then (Some (plain_result st [] CANCELLED []), w2)
            else if solved (ans_status a0) then
              (case absorb_local ds (assignments_of pool ds x0 a0) ?s0 of
                 None \<Rightarrow> (None, w2)
               | Some s1 \<Rightarrow> (Some (plain_result st (cs_assigned s1) OPTIMAL []), w2))
            else
              (case soft_phases env ds st remap ?s0 w2 of
                 (Go s1, w3) \<Rightarrow>
                   (Some (plain_result st (cs_assigned s1) (component_status ds s1) []), w3)
               | (Stop r, w3) \<Rightarrow> (Some r, w3)
               | (Fail, w3) \<Rightarrow> (None, w3)))))"
    proof (cases "\<not> c \<and> solved (ans_status a)")
      case True
      with phase0 [OF spec, of OPTIMAL "[]"] show ?thesis by (auto simp: s c)
    next
      case False
      have "run_spec st pool ds carry (fst (case fl of
                 Go s1 \<Rightarrow> (Some (plain_result st (cs_assigned s1) (component_status ds s1) []), w3)
               | Stop r \<Rightarrow> (Some r, w3) | Fail \<Rightarrow> (None, w3)))"
        using fl by (cases fl) (auto simp: run_spec_def plain_result_def comp_ok_def carry_ok_def)
      then show ?thesis using False none by (cases fl) (auto simp: s c p)
    qed
  qed
qed

section \<open>The ladder\<close>

lemma run_spec_tightens:
  "tightens st st' \<Longrightarrow> run_spec st' ss ds ex r \<Longrightarrow> run_spec st ss ds ex r"
  by (auto simp: run_spec_def assignments_ok_tightens split: option.splits)

lemma extended_tightens: "tightens st (extended_settings st)"
  by (simp add: tightens_def extended_settings_def T_limit_def R_limit_def)

lemma probe_with_retry_ok:
  assumes env: "cp_sound env" and prob: "problem_ok st pool ds"
  shows "ensures (probe_with_retry env pool ds carry st remap) (run_spec st pool ds carry)"
proof (rule ensuresI)
  fix w
  have prob2: "problem_ok (extended_settings st) pool ds"
    using prob problem_ok_tightens [OF extended_tightens] by blast
  obtain r w1 where r: "solve_component_once env pool ds carry st remap w = (r, w1)"
    by (cases "solve_component_once env pool ds carry st remap w")
  note ok1 = ensures_fst [OF solve_component_once_ok [OF env prob] r]
  obtain q w2 where q: "solve_component_once env pool ds carry (extended_settings st) remap w1 = (q, w2)"
    by (cases "solve_component_once env pool ds carry (extended_settings st) remap w1")
  note ok2 = run_spec_tightens [OF extended_tightens
      ensures_fst [OF solve_component_once_ok [OF env prob2] q]]
  show "run_spec st pool ds carry (fst (probe_with_retry env pool ds carry st remap w))"
    using ok1 ok2 by (cases r; cases q) (auto simp: probe_with_retry_def r q run_spec_def)
qed

text \<open>The result of the search: not an exception, and a schedule within the limits.\<close>

definition search_spec :: "SolverSettings \<Rightarrow> SoldierInput list \<Rightarrow> DutyBlock list
    \<Rightarrow> ExistingAssignment list \<Rightarrow> (SolverResult \<times> relax_label list) option \<Rightarrow> bool" where
  "search_spec st pool ds carry r = run_spec st pool ds carry (map_option fst r)"

lemma ladder_search_ok:
  assumes env: "cp_sound env" and prob: "problem_ok st pool ds"
    and lad: "list_all (\<lambda>(labels, s). tightens st s) ladder"
    and "0 \<le> lo" "hi < int (length ladder)" "run_spec st pool ds carry (Some (fst best))"
  shows "search_spec st pool ds carry (fst (ladder_search env pool ds carry remap ladder lo hi best w))"
  using assms
proof (induction env pool ds carry remap ladder lo hi best w rule: ladder_search.induct)
  case (1 env pool ds carry remap ladder lo hi best w)
  show ?case
  proof (cases "lo \<le> hi")
    case False
    then show ?thesis using 1(8) by (subst ladder_search.simps) (simp add: search_spec_def)
  next
    case True
    let ?mid = "(lo + hi) div 2"
    obtain labels st' where mid: "ladder ! nat ?mid = (labels, st')" by (cases "ladder ! nat ?mid")
    have range: "0 \<le> ?mid" "?mid \<le> hi" "lo \<le> ?mid" using True 1(6) by auto
    then have "(labels, st') \<in> set ladder"
      using 1(7) mid by (metis nat_less_iff nth_mem le_less_trans)
    then have t: "tightens st st'" using 1(5) by (auto simp: list_all_iff)
    obtain r w1 where r: "probe_with_retry env pool ds carry st' remap w = (r, w1)"
      by (cases "probe_with_retry env pool ds carry st' remap w")
    have "problem_ok st' pool ds" using 1(4) problem_ok_tightens [OF t] by blast
    from run_spec_tightens [OF t ensures_fst [OF probe_with_retry_ok [OF 1(3) this] r]]
    obtain res where res: "r = Some res" "run_spec st pool ds carry (Some res)"
      by (cases r) (auto simp: run_spec_def)
    have p: "probe_with_retry env pool ds carry st' remap w = (Some res, w1)" using r res(1) by simp
    show ?thesis
    proof (cases "r_status res = CANCELLED")
      case c: True
      then show ?thesis using True res(2) mid p by (subst ladder_search.simps) (simp add: search_spec_def Let_def)
    next
      case c: False
      show ?thesis
      proof (cases "length (r_assignments res) = length ds")
        case full: True
        have "search_spec st pool ds carry (fst (ladder_search env pool ds carry remap ladder lo
            (?mid - 1) (res, labels) w1))"
          by (rule 1(1) [OF True refl refl mid [symmetric] p [symmetric] refl c full 1(3-6)])
            (use range 1(7) res(2) in auto)
        then show ?thesis using True c full mid p by (subst ladder_search.simps) (simp add: Let_def)
      next
        case part: False
        have "search_spec st pool ds carry (fst (ladder_search env pool ds carry remap ladder
            (?mid + 1) hi best w1))"
          by (rule 1(2) [OF True refl refl mid [symmetric] p [symmetric] refl c part 1(3-5)])
            (use range 1(7,8) in auto)
        then show ?thesis using True c part mid p by (subst ladder_search.simps) (simp add: Let_def)
      qed
    qed
  qed
qed

lemma ladder_tightens: "list_all (\<lambda>(labels, s). tightens st s) (ladder_positions st)"
  using ladder_mem [of _ _ st "[]"] relaxes_tightens
  by (fastforce simp: ladder_positions_def list_all_iff)

lemma search_ladder_ok:
  assumes env: "cp_sound env" and prob: "problem_ok st pool ds"
  shows "ensures (search_relaxation_ladder env pool ds carry st remap) (search_spec st pool ds carry)"
proof (rule ensuresI)
  fix w
  let ?ladder = "ladder_positions st"
  obtain r w1 where "probe_with_retry env pool ds carry st remap w = (r, w1)"
    by (cases "probe_with_retry env pool ds carry st remap w")
  with ensures_fst [OF probe_with_retry_ok [OF env prob] this] obtain base where
    base: "probe_with_retry env pool ds carry st remap w = (Some base, w1)"
      "run_spec st pool ds carry (Some base)" by (cases r) (auto simp: run_spec_def)
  show "search_spec st pool ds carry (fst (search_relaxation_ladder env pool ds carry st remap w))"
  proof (cases "r_status base = CANCELLED \<or> length (r_assignments base) = length ds \<or> ?ladder = []")
    case True
    then show ?thesis using base by (auto simp: search_relaxation_ladder_def search_spec_def Let_def)
  next
    case False
    obtain labels top where top: "last ?ladder = (labels, top)" by (cases "last ?ladder")
    have "(labels, top) \<in> set ?ladder" using False top by (metis last_in_set)
    then have t: "tightens st top" using ladder_tightens by (auto simp: list_all_iff)
    have prob2: "problem_ok top pool ds" using prob problem_ok_tightens [OF t] by blast
    obtain q w2 where "probe_with_retry env pool ds carry top remap w1 = (q, w2)"
      by (cases "probe_with_retry env pool ds carry top remap w1")
    with run_spec_tightens [OF t ensures_fst [OF probe_with_retry_ok [OF env prob2] this]]
    obtain res where res: "probe_with_retry env pool ds carry top remap w1 = (Some res, w2)"
        "run_spec st pool ds carry (Some res)" by (cases q) (auto simp: run_spec_def)
    have "search_spec st pool ds carry (fst (ladder_search env pool ds carry remap ?ladder
        0 (int (length ?ladder) - 2) (res, labels) w2))"
      by (rule ladder_search_ok [OF env prob ladder_tightens]) (use res(2) in auto)
    then show ?thesis
      using False base res top
      by (auto simp: search_relaxation_ladder_def search_spec_def better_def run_spec_def Let_def)
  qed
qed

section \<open>The components in turn\<close>

definition component_entry :: "nat list \<times> nat list \<Rightarrow> plan_entry" where
  "component_entry c = (0, snd c, fst c)"

lemma record_component_ok:
  assumes "absorb ds (lp_carry s, lp_work s) as = Some c" "carry_ok st ss ds ex (lp_all s @ as) c"
  shows "\<exists>s1. record_component ds w ci sids sub as ls s = Some s1
    \<and> lp_all s1 = lp_all s @ as \<and> (lp_carry s1, lp_work s1) = c \<and> lp_residual s1 = lp_residual s"
proof -
  obtain carry work where cw: "c = (carry, work)" by (cases c)
  have "a_duty_id ` set (lp_all s @ as) \<subseteq> d_id ` set ds"
    using assms(2) by (simp add: carry_ok_def assignments_ok_def names_ok_def)
  note sat = analyze_saturation_total [OF this]
  let ?un = "left_over sub as" and ?pool = "map (\<lambda>si. work ! si) sids"
  obtain cs where cs: "(if ?un \<noteq> [] then analyze_saturation ?un ?pool (lp_all s @ as) carry
      (duty_by_id ds) else Some []) = Some cs"
    using sat [of ?un ?pool carry] by (cases "?un = []") auto
  show ?thesis
    using assms(1) by (simp add: record_component_def Let_def cw cs)
qed

lemma effort_step_ok:
  assumes env: "cp_sound env" and prob: "problem_ok st ss ds"
    and entry: "entry_ok (length ds) (length ss) (component_entry e)"
    and ok: "loop_ok st ss ds ex (component_entry e # rest) s"
  shows "ensures (effort_step env ss ds st rd n i e s) (flow_ok st ss ds ex rest)"
proof -
  obtain b sis where e: "e = (b, sis)" by (cases e)
  let ?sub = "map (\<lambda>di. ds ! di) b" and ?pool = "map (\<lambda>si. lp_work s ! si) sis"
  have ok': "loop_ok st ss ds ex ((0, sis, b) # rest) s"
    using ok by (simp add: e component_entry_def)
  note head = loop_head [OF ok']
  have idx: "distinct sis" "list_all (\<lambda>i. i < length ss) sis"
    using entry by (simp_all add: entry_ok_def e component_entry_def)
  have prob_sub: "problem_ok st ?pool ?sub"
    using problem_ok_sub [OF prob _ idx head(2,3)] head(1) by (simp add: carry_ok_def)
  have stop: "flow_ok st ss ds ex rest (Return (cancelled_result k s))" for k
    using cancelled_ok [OF ok] by simp
  have go: "\<exists>s1. record_component ds w i sis ?sub (r_assignments r) ls s = Some s1
      \<and> flow_ok st ss ds ex rest (Next (s1\<lparr>lp_done := f\<rparr>))"
    if r: "assignments_ok st ?pool ?sub (lp_carry s) (r_assignments r)" for r w ls f
  proof -
    obtain c where c: "absorb ds (lp_carry s, lp_work s) (r_assignments r) = Some c"
        "carry_ok st ss ds ex (lp_all s @ r_assignments r) c"
      using carry_ok_extend [OF head(1) prob idx(2) head(2,4) r] by blast
    obtain s1 where s1: "record_component ds w i sis ?sub (r_assignments r) ls s = Some s1"
        "lp_all s1 = lp_all s @ r_assignments r" "(lp_carry s1, lp_work s1) = c"
        "lp_residual s1 = lp_residual s"
      using record_component_ok [OF c] by blast
    have "flow_ok st ss ds ex rest (Next (s1\<lparr>lp_done := f\<rparr>))"
      using loop_next [OF ok', of "r_assignments r"] r c(2) s1
      by (simp add: assignments_ok_def names_ok_def)
    with s1(1) show ?thesis by blast
  qed
  have orphan: "ensures (orphan_component env st n i ?sub s) (flow_ok st ss ds ex rest)"
    using loop_next [OF ok', of "[]"] head(1)
    by (simp add: orphan_component_def Let_def ensures_def)
  have found: "ensures (\<lambda>w. case search_relaxation_ladder env ?pool ?sub (lp_carry s) st
               (effort_remap_rd ss ds rd) w of
             (None, w2) \<Rightarrow> (Raise, w2)
           | (Some (component_result, component_relaxed), w2) \<Rightarrow>
               if r_status component_result = CANCELLED
               then (Return (cancelled_result (seed_of st) s), w2)
               else (case record_component ds (enforce_weapon_qualification st) i sis ?sub
                        (r_assignments component_result) component_relaxed s of
                       None \<Rightarrow> (Raise, w2)
                     | Some s1 \<Rightarrow> (Next (s1\<lparr>lp_done := lp_done s + int (length b)\<rparr>),
                         notify env (Progress (lp_done s + int (length b)) n) w2)))
        (flow_ok st ss ds ex rest)" (is "ensures ?found _")
  proof (rule ensuresI)
    fix w
    obtain q w2 where q: "search_relaxation_ladder env ?pool ?sub (lp_carry s) st
           (effort_remap_rd ss ds rd) w = (q, w2)" by (metis prod.collapse)
    from ensures_fst [OF search_ladder_ok [OF env prob_sub] q]
    obtain r ls where r: "q = Some (r, ls)" "assignments_ok st ?pool ?sub (lp_carry s) (r_assignments r)"
      by (cases q) (auto simp: search_spec_def run_spec_def)
    then show "flow_ok st ss ds ex rest (fst (?found w))"
      using stop go [OF r(2), of "enforce_weapon_qualification st" ls "lp_done s + int (length b)"]
      by (auto simp: q)
  qed
  show ?thesis
    unfolding effort_step_def e prod.case Let_def
    by (rule ensures_bind [of "cancel_is_set env" "\<lambda>_. True"])
      (simp add: ensures_def, intro ensures_if ensures_return stop orphan found)
qed

lemma effort_loop_ok:
  assumes "cp_sound env" "problem_ok st ss ds"
    and "list_all (entry_ok (length ds) (length ss)) (map component_entry es)"
    and "loop_ok st ss ds ex (map component_entry es) s"
  shows "ensures (effort_loop env ss ds st rd n i es s) (flow_ok st ss ds ex [])"
  using assms(3,4)
proof (induction es arbitrary: i s)
  case Nil
  then show ?case by (simp add: ensures_def)
next
  case (Cons e es)
  have "ensures (effort_loop env ss ds st rd n (i + 1) es s1) (flow_ok st ss ds ex [])"
    if "loop_ok st ss ds ex (map component_entry es) s1" for s1
    using Cons that by simp
  moreover have "ensures (effort_step env ss ds st rd n i e s) (flow_ok st ss ds ex (map component_entry es))"
    using Cons.prems by (intro effort_step_ok [OF assms(1,2)]) simp_all
  ultimately show ?case unfolding effort_loop.simps(2) [abs_def] by (intro flow_bind)
qed

lemma effort_round_solve_ok:
  assumes "cp_sound env" "problem_ok st ss ds"
  shows "ensures (effort_round_solve env ss ds ex st rd) (run_spec st ss ds ex)"
proof -
  obtain comps where c: "connected_components (length ds) (length ss) (eligible_pairs ss ds st) = Some comps"
      "mset (concat (map fst comps)) = mset [0..<length ds]"
      "list_all (\<lambda>c. distinct (snd c) \<and> list_all (\<lambda>i. i < length ss) (snd c)) comps"
      "list_all (\<lambda>c. list_all (\<lambda>i. i < length ds) (fst c)) comps"
    by (rule components_bounds)
  let ?es = "map component_entry comps" and ?n = "\<Sum>(dids, sids)\<leftarrow>comps. int (length dids)"
  have e: "list_all (entry_ok (length ds) (length ss)) ?es"
    using c(3,4) by (simp add: list_all_iff entry_ok_def component_entry_def)
  have "planned ?es = concat (map fst comps)" by (simp add: planned_def component_entry_def comp_def)
  then have "distinct (planned ?es)"
    using mset_eq_imp_distinct_iff [OF c(2)] by simp
  note loop = effort_loop_ok [OF assms e loop_ok_start [OF assms(2) e this]]
  show ?thesis
  proof (rule ensuresI)
    fix w
    let ?r = "effort_loop env ss ds st rd ?n 0 comps (start_state ss ex) (notify env (Progress 0 ?n) w)"
    obtain fl w1 where r: "?r = (fl, w1)" by (cases ?r)
    have "flow_ok st ss ds ex [] fl" by (rule ensures_fst [OF loop r])
    then show "run_spec st ss ds ex (fst (effort_round_solve env ss ds ex st rd w))"
      using flow_result_spec by (simp add: effort_round_solve_def c(1) Let_def r)
  qed
qed

end
