(* ===== verification/SwapPass.thy ===== *)
theory SwapPass
  imports Contracts
begin

text \<open>
  \<open>_swap_pass\<close> of \<open>solver.py\<close>: after the solve, move one duty at a time from a soldier
  with more effort than the mean to one with less, the first move that helps.  Its maps
  from soldiers are functions here; a Python set whose order matters is a list with the
  order the environment gives it.  The mean is a float in the code and a rational here,
  so what the lemmas say of it is exact arithmetic.  A failed lookup is None.
\<close>

section \<open>Tables\<close>

definition constraint_dates :: "SoldierInput \<Rightarrow> date list" where
  "constraint_dates s = concat (map (\<lambda>(cs, ce). [cs..ce]) (s_approved_constraint_dates s))"

definition swap_eligible :: "SolverSettings \<Rightarrow> DutyBlock \<Rightarrow> SoldierInput \<Rightarrow> bool" where
  "swap_eligible settings d s =
     (if d_duty_type_id d \<in> s_exempted_duty_type_ids s then False
      else if list_ex (\<lambda>t. t \<in> set (constraint_dates s)) (duty_dates d) then False
      else if (case (d_eligible_node_ids d, s_hierarchy_node_id s) of
                 (Some ns, Some n) \<Rightarrow> n \<notin> set ns | _ \<Rightarrow> False) then False
      else if enforce_weapon_qualification settings
              \<and> d_id d \<in> s_weapon_ineligible_duty_block_ids s then False
      else if d_id d \<in> s_future_ineligible_duty_block_ids s then False
      else True)"

definition eligible_for :: "SolverSettings \<Rightarrow> SoldierInput list \<Rightarrow> DutyBlock \<Rightarrow> uuid list" where
  "eligible_for settings soldiers d =
     remdups (map s_id (filter (swap_eligible settings d) soldiers))"

record swap_state =
  w_assigned :: "(uuid, uuid) dict"
  w_duties :: "uuid \<Rightarrow> uuid list"
  w_all_set :: "uuid \<Rightarrow> date set"
  w_all_sorted :: "uuid \<Rightarrow> date list"
  w_real_sorted :: "uuid \<Rightarrow> date list"
  w_efforts :: "(uuid, int) dict"
  w_total :: int

text \<open>\<open>soldier_duties[s.id].add(duty)\<close> over the assignments.\<close>

definition soldier_duty_ids :: "Assignment list \<Rightarrow> uuid \<Rightarrow> uuid list" where
  "soldier_duty_ids assignments sid =
     remdups (map a_duty_id (filter (\<lambda>a. a_soldier_id a = sid) assignments))"

text \<open>\<open>_build_date_sets\<close>: the days of one soldier, all or only the real ones.\<close>

definition build_date_set :: "bool \<Rightarrow> DutyBlock list \<Rightarrow> ExistingAssignment list
    \<Rightarrow> uuid list \<Rightarrow> uuid \<Rightarrow> date list" where
  "build_date_set only_real duties existing dids sid =
     sort (remdups (
       concat (map (\<lambda>ea. days_from_to (e_start_date ea) (e_end_date ea))
         (filter (\<lambda>ea. e_soldier_id ea = sid \<and> (only_real \<longrightarrow> \<not> e_is_reserve ea)) existing))
     @ concat (map (\<lambda>did. case duty_by_id duties did of None \<Rightarrow> []
           | Some d \<Rightarrow> if only_real \<and> d_is_reserve d then [] else duty_dates d) dids)))"

definition score_of :: "DutyBlock list \<Rightarrow> uuid \<Rightarrow> int" where
  "score_of duties did = (case duty_by_id duties did of None \<Rightarrow> 0 | Some d \<Rightarrow> block_score d)"

definition initial_effort :: "DutyBlock list \<Rightarrow> Assignment list \<Rightarrow> SoldierInput \<Rightarrow> int" where
  "initial_effort duties assignments s =
     s_effort_offset s
     + (\<Sum>did\<leftarrow>soldier_duty_ids assignments (s_id s). s_effort_per_milli s * score_of duties did)"

definition swap_start :: "SoldierInput list \<Rightarrow> DutyBlock list \<Rightarrow> ExistingAssignment list
    \<Rightarrow> Assignment list \<Rightarrow> swap_state" where
  "swap_start soldiers duties existing assignments =
     (let dids = soldier_duty_ids assignments;
          all = (\<lambda>sid. build_date_set False duties existing (dids sid) sid)
      in \<lparr>w_assigned = fold (\<lambda>a m. dict_set m (a_duty_id a) (a_soldier_id a)) assignments [],
          w_duties = dids, w_all_set = (\<lambda>sid. set (all sid)), w_all_sorted = all,
          w_real_sorted = (\<lambda>sid. build_date_set True duties existing (dids sid) sid),
          w_efforts = fold (\<lambda>s m. dict_set m (s_id s) (initial_effort duties assignments s)) soldiers [],
          w_total = (\<Sum>s\<leftarrow>soldiers. initial_effort duties assignments s)\<rparr>)"

section \<open>May a soldier receive a duty\<close>

definition count_in :: "date list \<Rightarrow> date \<Rightarrow> date \<Rightarrow> int" where
  "count_in lst ws we = int (bisect_right lst we) - int (bisect_left lst ws)"

definition windows_free :: "date list \<Rightarrow> int \<Rightarrow> int \<Rightarrow> date \<Rightarrow> date \<Rightarrow> bool" where
  "windows_free lst W cap d_start d_last =
     list_all (\<lambda>ws. \<not> count_in lst ws (ws + (W - 1)) + 1 > cap) [d_start - (W - 1)..d_last]"

definition can_receive :: "SolverSettings \<Rightarrow> swap_state \<Rightarrow> uuid \<Rightarrow> DutyBlock \<Rightarrow> bool" where
  "can_receive settings st sid duty =
     (let ddates = duty_dates duty
      in if ddates = [] then True
         else if list_ex (\<lambda>t. t \<in> w_all_set st sid) ddates then False
         else (d_is_reserve duty \<or> windows_free (w_real_sorted st sid) (Wt settings) (T_cap settings)
                                    (hd ddates) (last ddates))
            \<and> windows_free (w_all_sorted st sid) (Wr settings) (R_cap settings)
                (hd ddates) (last ddates))"

section \<open>One transfer\<close>

definition effort_of :: "swap_state \<Rightarrow> uuid \<Rightarrow> int" where
  "effort_of st sid = dict_get_or (w_efforts st) sid 0"

definition per_milli_of :: "SoldierInput list \<Rightarrow> uuid \<Rightarrow> int" where
  "per_milli_of soldiers sid =
     (case find (\<lambda>s. s_id s = sid) (rev soldiers) of None \<Rightarrow> 0 | Some s \<Rightarrow> s_effort_per_milli s)"

definition mean_effort :: "SoldierInput list \<Rightarrow> swap_state \<Rightarrow> rat" where
  "mean_effort soldiers st = of_int (w_total st) / of_nat (length soldiers)"

definition transfer_delta :: "rat \<Rightarrow> int \<Rightarrow> int \<Rightarrow> int \<Rightarrow> int \<Rightarrow> rat" where
  "transfer_delta mean_e eff_a eff_b eff_a_after eff_b_after =
     \<bar>of_int eff_a - mean_e\<bar> + \<bar>of_int eff_b - mean_e\<bar>
     - \<bar>of_int eff_a_after - mean_e\<bar> - \<bar>of_int eff_b_after - mean_e\<bar>"

text \<open>The moves of one iteration, in the order the three nested loops try them.\<close>

definition donors :: "SoldierInput list \<Rightarrow> swap_state \<Rightarrow> (uuid \<times> int) list" where
  "donors soldiers st =
     sort_key (\<lambda>x. - snd x)
       (filter (\<lambda>(sid, eff). of_int eff > mean_effort soldiers st) (w_efforts st))"

definition recipients :: "'w env \<Rightarrow> SolverSettings \<Rightarrow> SoldierInput list \<Rightarrow> swap_state \<Rightarrow> uuid
    \<Rightarrow> int \<Rightarrow> DutyBlock \<Rightarrow> uuid list" where
  "recipients env settings soldiers st from_sid eff_a duty =
     sort_key (effort_of st)
       (filter (\<lambda>sid. sid \<noteq> from_sid \<and> effort_of st sid < eff_a)
         (set_order env (eligible_for settings soldiers duty)))"

definition moves :: "'w env \<Rightarrow> SolverSettings \<Rightarrow> SoldierInput list \<Rightarrow> DutyBlock list
    \<Rightarrow> swap_state \<Rightarrow> (uuid \<times> DutyBlock \<times> uuid) list" where
  "moves env settings soldiers duties st =
     concat (map (\<lambda>(from_sid, eff_a).
       concat (map (\<lambda>did. case duty_by_id duties did of None \<Rightarrow> []
          | Some duty \<Rightarrow> map (\<lambda>to_sid. (from_sid, duty, to_sid))
                           (recipients env settings soldiers st from_sid eff_a duty))
         (sort_key (\<lambda>did. - score_of duties did) (set_order env (w_duties st from_sid)))))
       (donors soldiers st))"

definition improving :: "SolverSettings \<Rightarrow> SoldierInput list \<Rightarrow> swap_state
    \<Rightarrow> uuid \<times> DutyBlock \<times> uuid \<Rightarrow> bool" where
  "improving settings soldiers st mv =
     (case mv of (from_sid, duty, to_sid) \<Rightarrow>
       can_receive settings st to_sid duty
     \<and> \<not> transfer_delta (mean_effort soldiers st) (effort_of st from_sid) (effort_of st to_sid)
           (effort_of st from_sid - per_milli_of soldiers from_sid * block_score duty)
           (effort_of st to_sid + per_milli_of soldiers to_sid * block_score duty) \<le> 0)"

definition transfer :: "SoldierInput list \<Rightarrow> uuid \<times> DutyBlock \<times> uuid \<Rightarrow> swap_state \<Rightarrow> swap_state" where
  "transfer soldiers mv st =
     (case mv of (from_sid, duty, to_sid) \<Rightarrow>
       (let ddates = duty_dates duty; score = block_score duty;
            pm_a = per_milli_of soldiers from_sid; pm_b = per_milli_of soldiers to_sid;
            left = w_all_set st from_sid - set ddates
        in st\<lparr>w_assigned := dict_set (w_assigned st) (d_id duty) to_sid,
              w_duties := (w_duties st)
                (from_sid := filter (\<lambda>did. did \<noteq> d_id duty) (w_duties st from_sid),
                 to_sid := (if d_id duty \<in> set (w_duties st to_sid) then w_duties st to_sid
                            else w_duties st to_sid @ [d_id duty])),
              w_all_set := (w_all_set st)
                (from_sid := left, to_sid := w_all_set st to_sid \<union> set ddates),
              w_all_sorted := (w_all_sorted st)
                (from_sid := sorted_list_of_set left,
                 to_sid := fold insort ddates (w_all_sorted st to_sid)),
              w_real_sorted := (if d_is_reserve duty then w_real_sorted st
                else (w_real_sorted st)
                  (from_sid := sort (remdups (filter (\<lambda>t. t \<notin> set ddates) (w_real_sorted st from_sid))),
                   to_sid := fold insort ddates (w_real_sorted st to_sid))),
              w_efforts := dict_set (dict_set (w_efforts st) from_sid
                               (effort_of st from_sid - pm_a * score)) to_sid
                               (effort_of st to_sid + pm_b * score),
              w_total := w_total st + (pm_b - pm_a) * score\<rparr>))"

section \<open>The pass\<close>

fun swap_loop :: "'w env \<Rightarrow> SolverSettings \<Rightarrow> SoldierInput list \<Rightarrow> DutyBlock list \<Rightarrow> nat
    \<Rightarrow> swap_state \<Rightarrow> swap_state" where
  "swap_loop env settings soldiers duties 0 st = st"
| "swap_loop env settings soldiers duties (Suc n) st =
     (case find (improving settings soldiers st) (moves env settings soldiers duties st) of
        None \<Rightarrow> st
      | Some mv \<Rightarrow> swap_loop env settings soldiers duties n (transfer soldiers mv st))"

definition swap_pass :: "'w env \<Rightarrow> SoldierInput list \<Rightarrow> DutyBlock list \<Rightarrow> ExistingAssignment list
    \<Rightarrow> Assignment list \<Rightarrow> SolverSettings \<Rightarrow> Assignment list option" where
  "swap_pass env soldiers duties existing assignments settings =
     (if length assignments < 2 \<or> length soldiers < 2 then Some assignments
      else if list_ex (\<lambda>a. a_soldier_id a \<notin> set (map s_id soldiers)
                         \<or> a_duty_id a \<notin> set (map d_id duties)) assignments then None
      else
        (let st = swap_loop env settings soldiers duties (3 * length soldiers)
                    (swap_start soldiers duties existing assignments)
         in Some (map (\<lambda>(did, sid). \<lparr>a_duty_id = did, a_soldier_id = sid\<rparr>) (w_assigned st))))"

end
