(* ===== verification/SwapSound.thy ===== *)
theory SwapSound
  imports SwapPass
begin

text \<open>
  What the swap pass keeps and what it improves.  \<open>swap_ok\<close> says that the tables
  describe one assignment of the duties and that it is free of clashes; a transfer keeps
  it.  With equal effort rates every transfer brings the efforts closer to their mean.
\<close>

section \<open>Dictionaries that are updated in place\<close>

lemma map_fst_dict_set: "k \<in> fst ` set d \<Longrightarrow> map fst (dict_set d k v) = map fst d"
  by (induction d k v rule: dict_set.induct) auto

lemma dict_get_key: "dict_get d k = Some v \<Longrightarrow> k \<in> fst ` set d"
  unfolding dict_get_def by (metis map_of_eq_None_iff option.distinct(1))

lemma snd_dict_set: "snd ` set (dict_set d k v) \<subseteq> insert v (snd ` set d)"
  by (induction d k v rule: dict_set.induct) auto

lemma dict_get_mem: "distinct (map fst d) \<Longrightarrow> (k, v) \<in> set d \<longleftrightarrow> dict_get d k = Some v"
  by (simp add: dict_get_def)

lemma fold_dict_set_keys:
  assumes "distinct (map f xs)" "fst ` set m \<inter> f ` set xs = {}"
  shows "fold (\<lambda>x m. dict_set m (f x) (g x)) xs m = m @ map (\<lambda>x. (f x, g x)) xs"
  using assms
proof (induction xs arbitrary: m)
  case (Cons x xs)
  have "k \<notin> fst ` set m \<Longrightarrow> dict_set m k v = m @ [(k, v)]" for k v
    by (induction m k v rule: dict_set.induct) auto
  with Cons show ?case by auto
qed simp

section \<open>The invariant\<close>

definition holding :: "DutyBlock list \<Rightarrow> swap_state \<Rightarrow> (DutyBlock \<times> uuid) set" where
  "holding ds st = {(d, sid). d \<in> set ds \<and> dict_get (w_assigned st) (d_id d) = Some sid}"

text \<open>What both eligibility rules, that of the solver and that of the pass, ask for.\<close>

definition basic_ok :: "bool \<Rightarrow> SoldierInput \<Rightarrow> DutyBlock \<Rightarrow> bool" where
  "basic_ok w s d \<longleftrightarrow> d_duty_type_id d \<notin> s_exempted_duty_type_ids s
     \<and> (\<forall>t \<in> duty_days d. \<not> on_leave s t)
     \<and> (w \<longrightarrow> d_id d \<notin> s_weapon_ineligible_duty_block_ids s)
     \<and> d_id d \<notin> s_future_ineligible_duty_block_ids s"

definition basic_placed :: "bool \<Rightarrow> SoldierInput list \<Rightarrow> (DutyBlock \<times> uuid) set \<Rightarrow> bool" where
  "basic_placed w ss P \<longleftrightarrow> (\<forall>(d, sid) \<in> P. \<exists>s \<in> set ss. s_id s = sid \<and> basic_ok w s d)"

lemma may_serve_basic: "may_serve w s d \<Longrightarrow> basic_ok w s d"
  by (simp add: may_serve_def basic_ok_def)

lemma set_constraint_dates: "t \<in> set (constraint_dates s) \<longleftrightarrow> on_leave s t"
  by (auto simp: constraint_dates_def on_leave_def)

lemma swap_eligible_basic: "swap_eligible st d s \<Longrightarrow> basic_ok (enforce_weapon_qualification st) s d"
  by (auto simp: swap_eligible_def basic_ok_def list_ex_iff set_constraint_dates split: if_splits)

definition swap_ok :: "bool \<Rightarrow> SoldierInput list \<Rightarrow> DutyBlock list \<Rightarrow> ExistingAssignment list
    \<Rightarrow> uuid list \<Rightarrow> swap_state \<Rightarrow> bool" where
  "swap_ok w ss ds ex keys st \<longleftrightarrow>
     map fst (w_assigned st) = keys \<and> snd ` set (w_assigned st) \<subseteq> s_id ` set ss
   \<and> (\<forall>sid did. did \<in> set (w_duties st sid) \<longleftrightarrow> dict_get (w_assigned st) did = Some sid)
   \<and> (\<forall>sid. w_all_set st sid = booked ex sid \<union> worked False (holding ds st) sid)
   \<and> clash_free ex (holding ds st) \<and> basic_placed w ss (holding ds st)"

lemma worked_holding:
  "t \<in> worked False (holding ds st) sid \<longleftrightarrow>
     (\<exists>d \<in> set ds. dict_get (w_assigned st) (d_id d) = Some sid \<and> t \<in> duty_days d)"
  by (auto simp: worked_def holding_def)

lemma one_soldier_holding: "one_soldier (holding ds st)"
  by (auto simp: one_soldier_def holding_def)

section \<open>A transfer\<close>

lemma moves_mem:
  assumes "(from_sid, duty, to_sid) \<in> set (moves env settings ss ds st)" "set_order_ok env"
    and "\<And>sid. distinct (w_duties st sid)"
  shows "duty \<in> set ds" "d_id duty \<in> set (w_duties st from_sid)" "to_sid \<noteq> from_sid"
    and "\<exists>s \<in> set ss. s_id s = to_sid \<and> swap_eligible settings duty s"
proof -
  have ord: "set (set_order env xs) = set xs" if "distinct xs" for xs
    using assms(2) that unfolding set_order_ok_def by (metis set_mset_mset)
  obtain did eff_a where m: "did \<in> set (set_order env (w_duties st from_sid))"
      "duty_by_id ds did = Some duty"
      "to_sid \<in> set (recipients env settings ss st from_sid eff_a duty)"
    using assms(1) by (auto simp: moves_def split: option.splits)
  show "duty \<in> set ds" using duty_by_id_Some [OF m(2)] by simp
  show "d_id duty \<in> set (w_duties st from_sid)"
    using m(1) duty_by_id_Some [OF m(2)] ord [OF assms(3)] by simp
  show "to_sid \<noteq> from_sid" using m(3) by (simp add: recipients_def)
  show "\<exists>s \<in> set ss. s_id s = to_sid \<and> swap_eligible settings duty s"
    using m(3) ord [of "eligible_for settings ss duty"]
    by (auto simp: recipients_def eligible_for_def)
qed

lemma holding_transfer:
  assumes "distinct (map d_id ds)" "duty \<in> set ds"
  shows "holding ds (transfer ss (a, duty, b) st)
    = {p \<in> holding ds st. fst p \<noteq> duty} \<union> {(duty, b)}"
proof -
  have "d = duty" if "d \<in> set ds" "d_id d = d_id duty" for d
    using that assms unfolding distinct_map by (metis inj_onD)
  then show ?thesis
    using assms(2) by (auto simp: holding_def transfer_def Let_def split: if_splits)
qed

lemma can_receive_free:
  assumes "can_receive settings st sid duty"
  shows "duty_days duty \<inter> w_all_set st sid = {}"
proof (cases "duty_dates duty = []")
  case True
  then have "duty_days duty = {}" by (metis list.set(1) set_duty_dates)
  then show ?thesis by simp
next
  case False
  then have "\<not> list_ex (\<lambda>t. t \<in> w_all_set st sid) (duty_dates duty)"
    using assms by (auto simp: can_receive_def Let_def split: if_splits)
  then show ?thesis by (auto simp: list_ex_iff)
qed

lemma transfer_clash_free:
  assumes "clash_free ex P" "(duty, a) \<in> P" "duty_days duty \<inter> (booked ex b \<union> worked False P b) = {}"
  shows "clash_free ex ({p \<in> P. fst p \<noteq> duty} \<union> {(duty, b)})"
proof -
  have "duty_days duty \<inter> duty_days d = {}" if "(d, b) \<in> P" for d
    using that assms(3) by (auto simp: worked_def)
  moreover have "duty_days d \<inter> booked ex s = {}" if "(d, s) \<in> P" for d s
    using assms(1) that unfolding clash_free_def by fast
  moreover have "duty_days d \<inter> duty_days d' = {}" if "(d, s) \<in> P" "(d', s) \<in> P" "d' \<noteq> d" for d d' s
    using assms(1) that unfolding clash_free_def by fast
  ultimately show ?thesis
    using assms(3) unfolding clash_free_def by (simp add: Int_commute) blast
qed

lemma worked_remove:
  assumes "clash_free ex P" "(duty, a) \<in> P" "a \<noteq> b" "one_soldier P"
  shows "worked False ({p \<in> P. fst p \<noteq> duty} \<union> {(duty, b)}) sid
    = (if sid = a then worked False P a - duty_days duty
       else if sid = b then worked False P b \<union> duty_days duty else worked False P sid)"
proof -
  have other: "(duty, s) \<notin> P" if "s \<noteq> a" for s using assms(2,4) that by (auto simp: one_soldier_def)
  have "duty_days duty \<inter> duty_days d = {}" if "(d, a) \<in> P" "d \<noteq> duty" for d
    using assms(1,2) that by (fastforce simp: clash_free_def)
  then have "worked False ({p \<in> P. fst p \<noteq> duty} \<union> {(duty, b)}) a = worked False P a - duty_days duty"
    using assms(3) by (fastforce simp: worked_def)
  moreover have "worked False ({p \<in> P. fst p \<noteq> duty} \<union> {(duty, b)}) b = worked False P b \<union> duty_days duty"
    using other [of b] assms(3) by (auto simp: worked_def)
  moreover have "worked False ({p \<in> P. fst p \<noteq> duty} \<union> {(duty, b)}) s = worked False P s"
    if "s \<noteq> a" "s \<noteq> b" for s
    using other [OF that(1)] that by (auto simp: worked_def)
  ultimately show ?thesis using assms(3) by auto
qed

lemma transfer_ok:
  assumes ok: "swap_ok w ss ds ex keys st" and ids: "distinct (map d_id ds)"
    and mv: "duty \<in> set ds" "d_id duty \<in> set (w_duties st a)" "b \<noteq> a"
      "\<exists>s \<in> set ss. s_id s = b \<and> swap_eligible settings duty s"
    and free: "duty_days duty \<inter> w_all_set st b = {}"
    and w: "w = enforce_weapon_qualification settings"
  shows "swap_ok w ss ds ex keys (transfer ss (a, duty, b) st)"
proof -
  let ?P = "holding ds st" and ?t = "transfer ss (a, duty, b) st"
  have held: "dict_get (w_assigned st) (d_id duty) = Some a"
    and all: "\<And>sid. w_all_set st sid = booked ex sid \<union> worked False ?P sid"
    and clash: "clash_free ex ?P" and basic: "basic_placed w ss ?P"
    using ok mv(2) by (auto simp: swap_ok_def)
  have p: "(duty, a) \<in> ?P" using held mv(1) by (simp add: holding_def)
  note h = holding_transfer [OF ids mv(1), of ss a b st]
  have "clash_free ex (holding ds ?t)"
    unfolding h by (rule transfer_clash_free [OF clash p]) (use free all in simp)
  moreover have "basic_placed w ss (holding ds ?t)"
    using basic mv(4) swap_eligible_basic unfolding h w by (fastforce simp: basic_placed_def)
  moreover have "w_all_set ?t sid = booked ex sid \<union> worked False (holding ds ?t) sid" for sid
  proof -
    have "duty_days duty \<inter> booked ex a = {}" using clash p by (auto simp: clash_free_def)
    then show ?thesis
      unfolding h worked_remove [OF clash p mv(3) [symmetric] one_soldier_holding]
      using mv(3) all by (auto simp: transfer_def Let_def)
  qed
  moreover have "did \<in> set (w_duties ?t sid) \<longleftrightarrow> dict_get (w_assigned ?t) did = Some sid" for sid did
    using ok mv(3) held unfolding swap_ok_def by (auto simp: transfer_def Let_def)
  moreover have "map fst (w_assigned ?t) = keys"
    using ok map_fst_dict_set [OF dict_get_key [OF held]]
    by (simp add: swap_ok_def transfer_def Let_def)
  moreover have "snd ` set (w_assigned ?t) \<subseteq> s_id ` set ss"
    using ok mv(4) snd_dict_set [of "w_assigned st" "d_id duty" b]
    by (auto simp: swap_ok_def transfer_def Let_def)
  ultimately show ?thesis by (simp add: swap_ok_def)
qed

lemma transfer_distinct:
  assumes "\<And>sid. distinct (w_duties st sid)"
  shows "distinct (w_duties (transfer ss mv st) sid)"
  using assms by (cases mv) (simp add: transfer_def Let_def)

lemma swap_loop_ok:
  assumes "swap_ok w ss ds ex keys st" "distinct (map d_id ds)" "set_order_ok env"
    and "\<And>sid. distinct (w_duties st sid)" "w = enforce_weapon_qualification settings"
  shows "swap_ok w ss ds ex keys (swap_loop env settings ss ds n st)"
  using assms
proof (induction n arbitrary: st)
  case (Suc n)
  show ?case
  proof (cases "find (improving settings ss st) (moves env settings ss ds st)")
    case (Some mv)
    obtain a duty b where mv: "mv = (a, duty, b)" by (cases mv)
    have "(a, duty, b) \<in> set (moves env settings ss ds st)" and imp: "improving settings ss st (a, duty, b)"
      using Some by (auto simp: find_Some_iff mv)
    note m = moves_mem [OF this(1) Suc.prems(3,4)]
    have "can_receive settings st b duty" using imp by (simp add: improving_def)
    from transfer_ok [OF Suc.prems(1,2) m can_receive_free [OF this] Suc.prems(5)]
    have "swap_ok w ss ds ex keys (transfer ss mv st)" by (simp only: mv)
    then show ?thesis
      using Suc.IH [OF _ Suc.prems(2,3) transfer_distinct [OF Suc.prems(4)] Suc.prems(5)] Some by simp
  qed (use Suc.prems in simp)
qed simp

section \<open>The whole pass\<close>

lemma set_build_date_set:
  "set (build_date_set False ds ex dids sid)
     = booked ex sid \<union> (\<Union>did \<in> set dids. case duty_by_id ds did of None \<Rightarrow> {} | Some d \<Rightarrow> duty_days d)"
proof -
  have "set (case duty_by_id ds did of None \<Rightarrow> [] | Some d \<Rightarrow> duty_dates d)
      = (case duty_by_id ds did of None \<Rightarrow> {} | Some d \<Rightarrow> duty_days d)" for did
    by (simp split: option.split)
  then show ?thesis
    by (auto simp: build_date_set_def booked_def existing_days_def)
qed

lemma start_assigned:
  "distinct (map a_duty_id as) \<Longrightarrow>
     w_assigned (swap_start ss ds ex as) = map (\<lambda>a. (a_duty_id a, a_soldier_id a)) as"
  by (simp add: swap_start_def Let_def fold_dict_set_keys)

lemma start_get:
  assumes "distinct (map a_duty_id as)"
  shows "dict_get (w_assigned (swap_start ss ds ex as)) did = Some sid
    \<longleftrightarrow> (\<exists>a \<in> set as. a_duty_id a = did \<and> a_soldier_id a = sid)"
proof -
  have "distinct (map fst (w_assigned (swap_start ss ds ex as)))"
    using assms by (simp add: start_assigned comp_def)
  from dict_get_mem [OF this, of did sid] show ?thesis
    unfolding start_assigned [OF assms] by (simp add: image_iff) metis
qed

lemma duty_by_id_days:
  assumes "distinct (map d_id ds)"
  shows "t \<in> (case duty_by_id ds did of None \<Rightarrow> {} | Some d \<Rightarrow> duty_days d)
    \<longleftrightarrow> (\<exists>d \<in> set ds. d_id d = did \<and> t \<in> duty_days d)"
proof (cases "duty_by_id ds did")
  case None
  then have "did \<notin> d_id ` set ds" using duty_by_id_total [of did ds] by auto
  with None show ?thesis by auto
next
  case (Some e)
  then have e: "e \<in> set ds" "d_id e = did" using duty_by_id_Some by blast+
  moreover have "d = e" if "d \<in> set ds" "d_id d = did" for d
    using duty_by_id_distinct [OF assms that(1)] Some by (simp add: that(2))
  ultimately have "(\<exists>d \<in> set ds. d_id d = did \<and> t \<in> duty_days d) \<longleftrightarrow> t \<in> duty_days e" by blast
  then show ?thesis by (simp only: Some option.case)
qed

lemma start_ok:
  assumes "distinct (map d_id ds)" "names_ok ss ds as" "clash_free ex (placed ds as)"
    and "basic_placed w ss (placed ds as)"
  shows "swap_ok w ss ds ex (map a_duty_id as) (swap_start ss ds ex as)"
proof -
  let ?st = "swap_start ss ds ex as"
  have dist: "distinct (map a_duty_id as)" using assms(2) by (simp add: names_ok_def)
  have h: "holding ds ?st = placed ds as"
    unfolding holding_def placed_def start_get [OF dist] by auto
  have dids: "did \<in> set (w_duties ?st sid) \<longleftrightarrow> (\<exists>a \<in> set as. a_duty_id a = did \<and> a_soldier_id a = sid)"
    for did sid by (auto simp: swap_start_def Let_def soldier_duty_ids_def)
  have "(\<Union>did \<in> set (w_duties ?st sid). case duty_by_id ds did of None \<Rightarrow> {} | Some d \<Rightarrow> duty_days d)
      = worked False (placed ds as) sid" for sid
  proof -
    have "t \<in> (\<Union>did \<in> set (w_duties ?st sid). case duty_by_id ds did of None \<Rightarrow> {} | Some d \<Rightarrow> duty_days d)
        \<longleftrightarrow> (\<exists>a \<in> set as. \<exists>d \<in> set ds. a_soldier_id a = sid \<and> d_id d = a_duty_id a \<and> t \<in> duty_days d)" for t
      unfolding UN_iff dids duty_by_id_days [OF assms(1)] Bex_def by blast
    moreover have "t \<in> worked False (placed ds as) sid
        \<longleftrightarrow> (\<exists>a \<in> set as. \<exists>d \<in> set ds. a_soldier_id a = sid \<and> d_id d = a_duty_id a \<and> t \<in> duty_days d)" for t
    proof -
      have "(d, sid) \<in> placed ds as \<longleftrightarrow> (\<exists>a \<in> set as. d \<in> set ds \<and> a_soldier_id a = sid \<and> d_id d = a_duty_id a)"
        for d by (auto simp: placed_def)
      then show ?thesis unfolding worked_def by auto
    qed
    ultimately show ?thesis by (intro set_eqI) (simp only:)
  qed
  then have "w_all_set ?st sid = booked ex sid \<union> worked False (placed ds as) sid" for sid
    by (simp add: swap_start_def Let_def set_build_date_set)
  moreover have "did \<in> set (w_duties ?st sid) \<longleftrightarrow> dict_get (w_assigned ?st) did = Some sid" for sid did
    unfolding dids start_get [OF dist] ..
  moreover have "map fst (w_assigned ?st) = map a_duty_id as" "snd ` set (w_assigned ?st) \<subseteq> s_id ` set ss"
    using assms(2) unfolding start_assigned [OF dist] by (auto simp: names_ok_def comp_def)
  ultimately show ?thesis using assms(3,4) unfolding swap_ok_def h by blast
qed

text \<open>
  What holds of the assignments after the pass, given that it held before: \<open>basic_ok\<close> leaves out
  the location exemptions and the hierarchy scope of \<open>may_serve\<close>, which \<open>_swap_pass\<close> does not keep.
\<close>

definition swap_spec :: "bool \<Rightarrow> SoldierInput list \<Rightarrow> DutyBlock list \<Rightarrow> ExistingAssignment list
    \<Rightarrow> Assignment list \<Rightarrow> bool" where
  "swap_spec w ss ds ex as \<longleftrightarrow> names_ok ss ds as \<and> one_soldier (placed ds as)
     \<and> clash_free ex (placed ds as) \<and> basic_placed w ss (placed ds as)"

lemma assignments_ok_swap_spec:
  "assignments_ok st ss ds ex as \<Longrightarrow> swap_spec (enforce_weapon_qualification st) ss ds ex as"
  unfolding assignments_ok_def schedule_ok_def swap_spec_def basic_placed_def able_def
  using may_serve_basic by (auto split: prod.splits) fastforce

lemma swap_pass_ok:
  assumes ids: "distinct (map d_id ds)" and env: "set_order_ok env"
    and spec: "swap_spec (enforce_weapon_qualification settings) ss ds ex as"
  shows "\<exists>as'. swap_pass env ss ds ex as settings = Some as' \<and> map a_duty_id as' = map a_duty_id as
    \<and> swap_spec (enforce_weapon_qualification settings) ss ds ex as'"
proof (cases "length as < 2 \<or> length ss < 2")
  case True
  then show ?thesis using spec by (auto simp: swap_pass_def)
next
  case False
  let ?w = "enforce_weapon_qualification settings"
  let ?st = "swap_loop env settings ss ds (3 * length ss) (swap_start ss ds ex as)"
  let ?as = "map (\<lambda>(did, sid). \<lparr>a_duty_id = did, a_soldier_id = sid\<rparr>) (w_assigned ?st)"
  have names: "names_ok ss ds as" using spec by (simp add: swap_spec_def)
  then have "\<not> list_ex (\<lambda>a. a_soldier_id a \<notin> set (map s_id ss) \<or> a_duty_id a \<notin> set (map d_id ds)) as"
    by (auto simp: list_ex_iff names_ok_def)
  then have run: "swap_pass env ss ds ex as settings = Some ?as"
    using False by (simp add: swap_pass_def Let_def)
  have "swap_ok ?w ss ds ex (map a_duty_id as) (swap_start ss ds ex as)"
    by (rule start_ok [OF ids names]) (use spec in \<open>simp_all add: swap_spec_def\<close>)
  then have ok: "swap_ok ?w ss ds ex (map a_duty_id as) ?st"
    by (rule swap_loop_ok [OF _ ids env _ refl])
      (simp add: swap_start_def Let_def soldier_duty_ids_def)
  have keys: "map a_duty_id ?as = map a_duty_id as"
    using ok by (simp add: swap_ok_def comp_def case_prod_beta)
  have dist: "distinct (map fst (w_assigned ?st))"
    using ok names by (simp add: swap_ok_def names_ok_def)
  have p: "placed ds ?as = holding ds ?st"
    using dict_get_mem [OF dist] by (auto simp: placed_def holding_def) force
  have "a_duty_id ` set ?as = a_duty_id ` set as"
    using arg_cong [OF keys, of set] unfolding set_map [of a_duty_id] .
  moreover have "a_soldier_id ` set ?as = snd ` set (w_assigned ?st)" by force
  ultimately have "names_ok ss ds ?as"
    using ok names keys unfolding swap_ok_def names_ok_def by simp
  then have "swap_spec ?w ss ds ex ?as"
    using ok one_soldier_holding unfolding swap_spec_def p swap_ok_def by simp
  with run keys show ?thesis by blast
qed

section \<open>Fairness\<close>

text \<open>The L1 distance of the efforts from their mean, which the pass means to reduce.\<close>

definition spread :: "SoldierInput list \<Rightarrow> swap_state \<Rightarrow> rat" where
  "spread ss st = (\<Sum>(sid, eff)\<leftarrow>w_efforts st. \<bar>of_int eff - mean_effort ss st\<bar>)"

lemma sum_dict_set:
  fixes f :: "'v \<Rightarrow> 'a::ab_group_add"
  assumes "distinct (map fst d)" "dict_get d k = Some v0"
  shows "(\<Sum>(k', v)\<leftarrow>dict_set d k v. f v) = (\<Sum>(k', v)\<leftarrow>d. f v) - f v0 + f v"
  using assms
proof (induction d k v rule: dict_set.induct)
  case (2 k' v' d k v)
  then show ?case by (auto simp: dict_get_def algebra_simps)
qed (simp add: dict_get_def)

definition uniform_rate :: "SoldierInput list \<Rightarrow> int \<Rightarrow> bool" where
  "uniform_rate ss p \<longleftrightarrow> list_all (\<lambda>s. s_effort_per_milli s = p) ss"

lemma per_milli_uniform: "uniform_rate ss p \<Longrightarrow> sid \<in> s_id ` set ss \<Longrightarrow> per_milli_of ss sid = p"
proof -
  assume u: "uniform_rate ss p" and "sid \<in> s_id ` set ss"
  then have "find (\<lambda>s. s_id s = sid) (rev ss) \<noteq> None" by (auto simp: find_None_iff)
  then obtain s where f: "find (\<lambda>s. s_id s = sid) (rev ss) = Some s" by blast
  then have "s \<in> set ss" unfolding find_Some_iff by (metis length_rev nth_mem set_rev)
  then show ?thesis using u f by (simp add: per_milli_of_def uniform_rate_def list_all_iff)
qed

definition balances_ok :: "SoldierInput list \<Rightarrow> swap_state \<Rightarrow> bool" where
  "balances_ok ss st \<longleftrightarrow> distinct (map fst (w_efforts st)) \<and> fst ` set (w_efforts st) = s_id ` set ss"

lemma transfer_spread:
  assumes ok: "balances_ok ss st" and u: "uniform_rate ss p"
    and ab: "a \<in> s_id ` set ss" "b \<in> s_id ` set ss" "b \<noteq> a"
    and imp: "improving settings ss st (a, duty, b)"
  shows "spread ss (transfer ss (a, duty, b) st) < spread ss st \<and> balances_ok ss (transfer ss (a, duty, b) st)"
proof -
  let ?m = "mean_effort ss st" and ?f = "\<lambda>e::int. \<bar>of_int e - mean_effort ss st\<bar>"
  let ?x = "effort_of st a - p * block_score duty" and ?y = "effort_of st b + p * block_score duty"
  let ?t = "transfer ss (a, duty, b) st"
  have pm: "per_milli_of ss a = p" "per_milli_of ss b = p" using per_milli_uniform [OF u] ab by simp_all
  have e: "w_efforts ?t = dict_set (dict_set (w_efforts st) a ?x) b ?y"
    by (simp add: transfer_def Let_def pm)
  have "w_total ?t = w_total st" by (simp add: transfer_def Let_def pm)
  then have m: "mean_effort ss ?t = ?m" by (simp add: mean_effort_def)
  have keys: "distinct (map fst (w_efforts st))" "a \<in> fst ` set (w_efforts st)" "b \<in> fst ` set (w_efforts st)"
    using ok ab unfolding balances_ok_def by simp_all
  have get: "dict_get (w_efforts st) k = Some (effort_of st k)" if "k \<in> fst ` set (w_efforts st)" for k
    using that unfolding effort_of_def dict_get_or_def dict_get_def
    by (cases "map_of (w_efforts st) k") (simp_all add: map_of_eq_None_iff)
  have "dict_get (dict_set (w_efforts st) a ?x) b = Some (effort_of st b)"
    using get [OF keys(3)] ab(3) by simp
  then have "(\<Sum>(k, v)\<leftarrow>w_efforts ?t. ?f v) = (\<Sum>(k, v)\<leftarrow>w_efforts st. ?f v)
      - ?f (effort_of st a) + ?f ?x - ?f (effort_of st b) + ?f ?y"
    unfolding e using keys(1) get [OF keys(2)] by (simp add: sum_dict_set [of _ _ _ ?f])
  moreover have "0 < ?f (effort_of st a) + ?f (effort_of st b) - ?f ?x - ?f ?y"
    using imp by (simp add: improving_def transfer_delta_def pm)
  ultimately have "spread ss ?t < spread ss st" by (simp add: spread_def m)
  moreover have "balances_ok ss ?t" using ok ab unfolding balances_ok_def e by (auto simp: insert_absorb)
  ultimately show ?thesis ..
qed

lemma moves_donor:
  assumes "(a, duty, b) \<in> set (moves env settings ss ds st)"
  shows "a \<in> fst ` set (w_efforts st)"
  using assms by (force simp: moves_def donors_def)

lemma swap_loop_spread:
  assumes "balances_ok ss st" "uniform_rate ss p" "set_order_ok env" "\<And>sid. distinct (w_duties st sid)"
  shows "spread ss (swap_loop env settings ss ds n st) \<le> spread ss st"
  using assms
proof (induction n arbitrary: st)
  case (Suc n)
  show ?case
  proof (cases "find (improving settings ss st) (moves env settings ss ds st)")
    case (Some mv)
    obtain a duty b where mv: "mv = (a, duty, b)" by (cases mv)
    have mem: "(a, duty, b) \<in> set (moves env settings ss ds st)"
      and imp: "improving settings ss st (a, duty, b)"
      using Some by (auto simp: find_Some_iff mv)
    note m = moves_mem [OF mem Suc.prems(3,4)]
    have "a \<in> s_id ` set ss" using moves_donor [OF mem] Suc.prems(1) by (simp add: balances_ok_def)
    moreover have "b \<in> s_id ` set ss" using m(4) by auto
    ultimately have t: "spread ss (transfer ss mv st) < spread ss st" "balances_ok ss (transfer ss mv st)"
      using transfer_spread [OF Suc.prems(1,2) _ _ m(3) imp] by (simp_all add: mv)
    have "spread ss (swap_loop env settings ss ds n (transfer ss mv st)) \<le> spread ss (transfer ss mv st)"
      by (rule Suc.IH [OF t(2) Suc.prems(2,3) transfer_distinct [OF Suc.prems(4)]])
    then show ?thesis using t(1) Some by simp
  qed simp
qed simp

lemma start_balances_ok: "distinct (map s_id ss) \<Longrightarrow> balances_ok ss (swap_start ss ds ex as)"
  by (simp add: balances_ok_def swap_start_def Let_def fold_dict_set_keys comp_def image_image)

end
