(* ===== verification/Solver.thy ===== *)
theory Solver
  imports Calendar RoundsSound SwapSound
begin

text \<open>
  The entry point \<open>solve\<close> of \<open>solver.py\<close> with the relaxation of node quotas: choose a
  decomposition, retry the unfilled duties with quotas one level up, swap.
\<close>

section \<open>Quota relaxation\<close>

type_synonym quotas = "(uuid, int) dict"

definition relax_quota_step :: "(uuid, uuid) dict \<Rightarrow> uuid \<Rightarrow> uuid \<times> int
    \<Rightarrow> quotas \<times> RelaxedQuota list \<Rightarrow> quotas \<times> RelaxedQuota list" where
  "relax_quota_step node_parents did entry acc =
     (case (entry, acc) of ((node_id, amount), (new_quotas, logged)) \<Rightarrow>
       (case dict_get node_parents node_id of
          None \<Rightarrow> (dict_set new_quotas node_id amount, logged)
        | Some parent_id \<Rightarrow>
            (dict_set new_quotas parent_id (dict_get_or new_quotas parent_id 0 + amount),
             logged @ [\<lparr>q_duty_id = did, q_original_node_id = node_id,
                     q_relaxed_node_id = parent_id, q_count = amount\<rparr>])))"

definition relax_duty_quotas :: "(uuid, uuid) dict \<Rightarrow> uuid list \<Rightarrow> DutyBlock
    \<Rightarrow> DutyBlock \<times> RelaxedQuota list" where
  "relax_duty_quotas node_parents unsatisfiable d =
     (if d_id d \<notin> set unsatisfiable \<or> quotas_of d = [] then (d, [])
      else (case fold (relax_quota_step node_parents (d_id d)) (quotas_of d) ([], []) of
              (new_quotas, logged) \<Rightarrow> (d\<lparr>d_node_quotas := Some new_quotas\<rparr>, logged)))"

definition relax_unsatisfiable_quotas :: "DutyBlock list \<Rightarrow> (uuid, uuid) dict \<Rightarrow> uuid list
    \<Rightarrow> DutyBlock list \<times> RelaxedQuota list" where
  "relax_unsatisfiable_quotas duties node_parents unsatisfiable =
     (map (\<lambda>d. fst (relax_duty_quotas node_parents unsatisfiable d)) duties,
      concat (map (\<lambda>d. snd (relax_duty_quotas node_parents unsatisfiable d)) duties))"

text \<open>
  The unfilled duties are a set in the code, so the retry takes them in the order the
  environment gives; \<open>reserve_dist\<close> is passed on with the indices of the full list.
\<close>

definition unfilled_ids :: "DutyBlock list \<Rightarrow> Assignment list \<Rightarrow> uuid list" where
  "unfilled_ids duties assignments =
     remdups (map d_id (filter (\<lambda>d. d_id d \<notin> set (map a_duty_id assignments)
                                  \<and> quotas_of d \<noteq> []) duties))"

definition auto_relax_node_quotas_retry :: "'w env \<Rightarrow> SoldierInput list \<Rightarrow> DutyBlock list
    \<Rightarrow> ExistingAssignment list \<Rightarrow> SolverSettings \<Rightarrow> SolverResult \<Rightarrow> (uuid, uuid) dict
    \<Rightarrow> reserve_dists option \<Rightarrow> 'w \<Rightarrow> SolverResult option \<times> 'w" where
  "auto_relax_node_quotas_retry env soldiers duties existing settings result node_parents
       reserve_dist w =
     (let unfilled = unfilled_ids duties (r_assignments result)
      in if unfilled = [] then (Some result, w)
         else
           (case relax_unsatisfiable_quotas duties node_parents unfilled of
              (relaxed_duties, relaxed_log) \<Rightarrow>
              if relaxed_log = [] then (Some result, w)
              else
                (case (each (\<lambda>ds did. case duty_by_id relaxed_duties did of None \<Rightarrow> None
                               | Some d \<Rightarrow> Some (ds @ [d])) [] (set_order env unfilled),
                       each (\<lambda>c a. case duty_by_id duties (a_duty_id a) of None \<Rightarrow> None
                               | Some d \<Rightarrow> Some (c @ [booking a d])) existing (r_assignments result)) of
                   (Some retry_duties, Some carry_existing) \<Rightarrow>
                     (case solve_soft_coverage env soldiers retry_duties carry_existing settings
                             reserve_dist w of
                        (retry_result, w1) \<Rightarrow>
                          if r_status retry_result = CANCELLED \<or> r_assignments retry_result = []
                          then (Some result, w1)
                          else
                            (let new_assignments = sort_key a_duty_id
                                   (r_assignments result @ r_assignments retry_result);
                                 assigned_total = remdups (map a_duty_id new_assignments);
                                 status = (if length assigned_total = length duties
                                           then OPTIMAL else FEASIBLE)
                             in (Some (result\<lparr>r_assignments := new_assignments, r_status := status,
                                   r_relaxed_node_quotas :=
                                     r_relaxed_node_quotas result @ relaxed_log\<rparr>), w1)))
                 | _ \<Rightarrow> (None, w))))"

section \<open>The entry point\<close>

definition solve_decomposed :: "'w env \<Rightarrow> SoldierInput list \<Rightarrow> DutyBlock list
    \<Rightarrow> ExistingAssignment list \<Rightarrow> SolverSettings \<Rightarrow> reserve_dists option
    \<Rightarrow> 'w \<Rightarrow> SolverResult option \<times> 'w" where
  "solve_decomposed env soldiers duties existing settings reserve_dist w =
     (if decomposition settings = ''interleaved'' \<and> batching_enabled settings
      then interleaved_solve env soldiers duties existing settings reserve_dist w
      else if decomposition settings = ''effort_rounds'' \<and> batching_enabled settings
      then effort_round_solve env soldiers duties existing settings reserve_dist w
      else if decomposition settings = ''calendar'' \<and> batching_enabled settings
      then decomposed_solve env soldiers duties existing settings reserve_dist w
      else
        (let total_duties = int (length duties);
             w0 = notify env (Progress 0 total_duties) w
         in (case infeasibility_relaxation_chain env soldiers duties existing settings
                    reserve_dist w0 of
               (result, w1) \<Rightarrow> (Some result, notify env (Progress total_duties total_duties) w1))))"

definition solve :: "'w env \<Rightarrow> SoldierInput list \<Rightarrow> DutyBlock list
    \<Rightarrow> ExistingAssignment list \<Rightarrow> SolverSettings \<Rightarrow> reserve_dists option
    \<Rightarrow> (uuid, uuid) dict option \<Rightarrow> 'w \<Rightarrow> SolverResult option \<times> 'w" where
  "solve env soldiers duties existing settings reserve_dist node_parents w =
     (case solve_decomposed env soldiers duties existing settings reserve_dist w of
        (None, w1) \<Rightarrow> (None, w1)
      | (Some result, w1) \<Rightarrow>
         (case (let parents = (case node_parents of None \<Rightarrow> [] | Some p \<Rightarrow> p)
                in if auto_relax_node_quotas settings \<and> parents \<noteq> [] \<and> succeeded result
                   then auto_relax_node_quotas_retry env soldiers duties existing settings result
                          parents reserve_dist w1
                   else (Some result, w1)) of
            (None, w2) \<Rightarrow> (None, w2)
          | (Some relaxed_result, w2) \<Rightarrow>
              if succeeded relaxed_result \<and> r_assignments relaxed_result \<noteq> [] then
                (let w3 = notify env Swap_start w2
                 in (case swap_pass env soldiers duties existing
                            (r_assignments relaxed_result) settings of
                       None \<Rightarrow> (None, w3)
                     | Some swapped \<Rightarrow>
                         (Some (relaxed_result\<lparr>r_assignments := swapped\<rparr>), w3)))
              else (Some relaxed_result, w2)))"

section \<open>Relaxing quotas changes nothing else\<close>

definition same_but_quota :: "DutyBlock \<Rightarrow> DutyBlock \<Rightarrow> bool" where
  "same_but_quota d d' \<longleftrightarrow> (\<exists>q. d' = d\<lparr>d_node_quotas := q\<rparr>)"

lemma same_but_quota_refl [simp]: "same_but_quota d d"
  unfolding same_but_quota_def by (rule exI [of _ "d_node_quotas d"]) simp

lemma same_but_quota_fields:
  assumes "same_but_quota d d'"
  shows "d_id d' = d_id d" "duty_days d' = duty_days d" "d_is_reserve d' = d_is_reserve d"
    "may_serve w s d' = may_serve w s d" "d_start_time d' = d_start_time d" "d_end_time d' = d_end_time d"
  using assms by (auto simp: same_but_quota_def duty_days_def may_serve_def)

lemma relax_duty_same: "same_but_quota d (fst (relax_duty_quotas ps un d))"
  by (auto simp: relax_duty_quotas_def same_but_quota_def split: prod.split intro: exI [of _ "d_node_quotas d"])

lemma relaxed_ids [simp]: "d_id (fst (relax_duty_quotas ps un d)) = d_id d"
  using same_but_quota_fields(1) [OF relax_duty_same] .

text \<open>A schedule of relaxed duties is one of the duties themselves.\<close>

lemma schedule_ok_quota:
  assumes ok: "schedule_ok Tc Rc st ss ds' ex (placed ds' as)"
    and same: "\<And>d'. d' \<in> set ds' \<Longrightarrow> \<exists>d \<in> set ds. same_but_quota d d'"
    and ids: "distinct (map d_id ds)" "distinct (map d_id ds')" "a_duty_id ` set as \<subseteq> d_id ` set ds'"
  shows "schedule_ok Tc Rc st ss ds ex (placed ds as)"
proof -
  have orig: "\<exists>d'. (d', sid) \<in> placed ds' as \<and> same_but_quota d d'"
    if m: "(d, sid) \<in> placed ds as" for d sid
  proof -
    obtain a where a: "a \<in> set as" "a_duty_id a = d_id d" "sid = a_soldier_id a" "d \<in> set ds"
      using m by (auto simp: placed_def)
    then obtain d' where d': "d' \<in> set ds'" "d_id d' = d_id d" using ids(3) by (metis imageE image_eqI subsetD)
    then obtain e where e: "e \<in> set ds" "same_but_quota e d'" using same by blast
    then have "d_id e = d_id d" using same_but_quota_fields(1) [OF e(2)] d'(2) by simp
    then have "e = d" using e(1) a(4) ids(1) unfolding distinct_map by (metis inj_onD)
    moreover have "(d', sid) \<in> placed ds' as"
      unfolding placed_def using a(1,2,3) d' by force
    ultimately show ?thesis using e(2) by blast
  qed
  have forth: "\<exists>d. (d, sid) \<in> placed ds as \<and> same_but_quota d d'" if "(d', sid) \<in> placed ds' as" for d' sid
    using that same same_but_quota_fields(1) unfolding placed_def by fastforce
  have worked: "worked r (placed ds as) sid = worked r (placed ds' as) sid" for r sid
  proof -
    have "t \<in> worked r (placed ds' as) sid" if "(d, sid) \<in> placed ds as" "t \<in> duty_days d"
        "r \<longrightarrow> \<not> d_is_reserve d" for t d
      using orig [OF that(1)] that(2,3) by (auto simp: worked_def same_but_quota_fields)
    moreover have "t \<in> worked r (placed ds as) sid" if "(d', sid) \<in> placed ds' as" "t \<in> duty_days d'"
        "r \<longrightarrow> \<not> d_is_reserve d'" for t d'
      using forth [OF that(1)] that(2,3) by (auto simp: worked_def same_but_quota_fields)
    ultimately show ?thesis unfolding worked_def by blast
  qed
  have "one_soldier (placed ds as)"
    unfolding one_soldier_def
  proof (intro allI impI)
    fix d a b assume "(d, a) \<in> placed ds as" "(d, b) \<in> placed ds as"
    with orig obtain d1 d2 where d: "(d1, a) \<in> placed ds' as" "same_but_quota d d1"
        "(d2, b) \<in> placed ds' as" "same_but_quota d d2" by meson
    then have "d_id d1 = d_id d2" by (simp add: same_but_quota_fields)
    then have "d1 = d2" using d ids(2) unfolding placed_def distinct_map by (auto dest: inj_onD)
    with d ok show "a = b" unfolding schedule_ok_def one_soldier_def by blast
  qed
  moreover have "clash_free ex (placed ds as)"
  proof -
    have "duty_days d \<inter> booked ex sid = {}" if "(d, sid) \<in> placed ds as" for d sid
      using orig [OF that] ok unfolding schedule_ok_def clash_free_def
      by (fastforce simp: same_but_quota_fields)
    moreover have "duty_days d \<inter> duty_days e = {}"
      if m: "(d, sid) \<in> placed ds as" "(e, sid) \<in> placed ds as" "e \<noteq> d" for d e sid
    proof -
      obtain d' e' where d: "(d', sid) \<in> placed ds' as" "same_but_quota d d'"
          "(e', sid) \<in> placed ds' as" "same_but_quota e e'"
        using orig m(1,2) by meson
      have "d_id d \<noteq> d_id e" using m ids(1) unfolding placed_def distinct_map by (auto dest: inj_onD)
      then have "e' \<noteq> d'" using same_but_quota_fields(1) [OF d(2)] same_but_quota_fields(1) [OF d(4)] by auto
      then have "duty_days d' \<inter> duty_days e' = {}"
        using ok d unfolding schedule_ok_def clash_free_def by fast
      then show ?thesis using d by (simp add: same_but_quota_fields)
    qed
    ultimately show ?thesis unfolding clash_free_def by blast
  qed
  moreover have "loads_ok r c W ex (placed ds as)" if "loads_ok r c W ex (placed ds' as)" for r c W
    using that unfolding loads_ok_def worked .
  moreover have "d \<in> set ds \<and> able (enforce_weapon_qualification st) ss sid d"
    if m: "(d, sid) \<in> placed ds as" for d sid
  proof -
    obtain d' where d': "(d', sid) \<in> placed ds' as" "same_but_quota d d'" using orig [OF m] by blast
    then have "able (enforce_weapon_qualification st) ss sid d'" using ok unfolding schedule_ok_def by auto
    then show ?thesis using m d'(2) by (auto simp: able_def same_but_quota_fields placed_def)
  qed
  ultimately show ?thesis using ok by (auto simp: schedule_ok_def)
qed

section \<open>The retry keeps the schedule\<close>

lemma each_lookup:
  "each (\<lambda>acc e. case f e of None \<Rightarrow> None | Some x \<Rightarrow> Some (acc @ [g e x])) acc es
     = (if list_all (\<lambda>e. f e \<noteq> None) es then Some (acc @ map (\<lambda>e. g e (the (f e))) es) else None)"
  by (induction es arbitrary: acc) (auto split: option.splits)

lemma carries_bookings:
  assumes "distinct (map d_id ds)" "\<And>a. a \<in> set as \<Longrightarrow> duty_by_id ds (a_duty_id a) = Some (f a)"
  shows "carries ex (placed ds as) (ex @ map (\<lambda>a. booking a (f a)) as)"
  using assms(2)
proof (induction as arbitrary: ex)
  case (Cons a as)
  have c: "carries ex (placed ds [a]) (ex @ [booking a (f a)])"
    by (rule carries_booking [OF assms(1)]) (simp add: Cons.prems)
  have "carries (ex @ [booking a (f a)]) (placed ds as)
      ((ex @ [booking a (f a)]) @ map (\<lambda>a. booking a (f a)) as)"
    using Cons.prems by (intro Cons.IH) simp
  from carries_trans [OF c this] show ?case by (simp add: placed_Cons [of ds a as])
qed simp

lemma retry_extend:
  assumes ok: "assignments_ok st ss ds ex as" and prob: "problem_ok st ss ds"
    and c: "carries ex (placed ds as) carry"
    and sub: "\<And>d'. d' \<in> set sub \<Longrightarrow> \<exists>d \<in> set ds. same_but_quota d d'" "distinct (map d_id sub)"
    and fresh: "a_duty_id ` set as \<inter> d_id ` set sub = {}"
    and new: "assignments_ok st ss sub carry bs"
  shows "assignments_ok st ss ds ex (as @ bs)"
proof -
  have ids: "distinct (map d_id ds)" using prob by (simp add: problem_ok_def)
  have names: "a_duty_id ` set bs \<subseteq> d_id ` set sub" "a_soldier_id ` set bs \<subseteq> s_id ` set ss"
      "distinct (map a_duty_id bs)"
    using new by (simp_all add: assignments_ok_def names_ok_def)
  have "d_id ` set sub \<subseteq> d_id ` set ds" using sub(1) same_but_quota_fields(1) by fastforce
  then have in_ds: "a_duty_id ` set bs \<subseteq> d_id ` set ds" using names(1) by blast
  have "schedule_ok (T_limit st) (R_limit st) st ss ds carry (placed ds bs)"
    by (rule schedule_ok_quota [OF _ sub(1) ids sub(2) names(1)])
      (use new in \<open>simp_all add: assignments_ok_def\<close>)
  moreover have "fst ` placed ds as \<inter> fst ` placed ds bs = {}"
  proof -
    have "d_id d \<in> a_duty_id ` set as" if "d \<in> fst ` placed ds as" for d
      using that by (auto simp: placed_def image_iff dest: sym)
    moreover have "d_id d \<in> d_id ` set sub" if "d \<in> fst ` placed ds bs" for d
      using that names(1) by (auto simp: placed_def image_iff dest: sym)
    ultimately show ?thesis using fresh by blast
  qed
  ultimately have "schedule_ok (T_limit st) (R_limit st) st ss ds ex (placed ds (as @ bs))"
    using ok schedule_extend [OF _ c] unfolding placed_append assignments_ok_def by blast
  moreover have "a_duty_id ` set as \<inter> a_duty_id ` set bs = {}" using fresh names(1) by blast
  ultimately show ?thesis
    using ok names in_ds unfolding assignments_ok_def names_ok_def by (simp add: image_Un)
qed

lemma assignments_ok_perm:
  assumes "mset bs = mset as" "assignments_ok st ss ds ex as"
  shows "assignments_ok st ss ds ex bs"
proof -
  have s: "set bs = set as" using assms(1) by (metis set_mset_mset)
  have "mset (map a_duty_id bs) = mset (map a_duty_id as)" using assms(1) by simp
  from mset_eq_imp_distinct_iff [OF this] show ?thesis
    using assms(2) by (simp add: assignments_ok_def names_ok_def placed_def s)
qed

lemma retry_duties_ok:
  fixes as :: "Assignment list" and ds :: "DutyBlock list" and ps :: "(uuid, uuid) dict"
  assumes prob: "problem_ok st ss ds" and env: "set_order_ok env"
  defines "un \<equiv> unfilled_ids ds as"
    and "relaxed \<equiv> map (\<lambda>d. fst (relax_duty_quotas ps (unfilled_ids ds as) d)) ds"
  shows "\<exists>sub. each (\<lambda>ds did. case duty_by_id relaxed did of None \<Rightarrow> None
        | Some d \<Rightarrow> Some (ds @ [d])) [] (set_order env un) = Some sub
    \<and> distinct (map d_id sub) \<and> a_duty_id ` set as \<inter> d_id ` set sub = {}
    \<and> (\<forall>d' \<in> set sub. \<exists>d \<in> set ds. same_but_quota d d')"
proof -
  have m: "mset (set_order env un) = mset un" using env by (simp add: set_order_ok_def un_def unfilled_ids_def)
  have un: "set (set_order env un) = set un" "distinct (set_order env un)"
    using arg_cong [OF m, of set_mset] mset_eq_imp_distinct_iff [OF m] by (simp_all add: un_def unfilled_ids_def)
  have ids: "map d_id relaxed = map d_id ds" by (simp add: relaxed_def)
  have found: "\<exists>d. duty_by_id relaxed did = Some d \<and> d_id d = did \<and> d \<in> set relaxed"
    if "did \<in> set un" for did
  proof -
    have "did \<in> d_id ` set relaxed"
      using that arg_cong [OF ids, of set] by (auto simp: un_def unfilled_ids_def)
    then show ?thesis using duty_by_id_total duty_by_id_Some by blast
  qed
  let ?sub = "map (\<lambda>did. the (duty_by_id relaxed did)) (set_order env un)"
  have e: "each (\<lambda>ds did. case duty_by_id relaxed did of None \<Rightarrow> None
        | Some d \<Rightarrow> Some (ds @ [d])) [] (set_order env un) = Some ?sub"
    using each_lookup [where f = "duty_by_id relaxed" and g = "\<lambda>_ d. d" and acc = "[]" and es = "set_order env un"] found un(1)
    by (fastforce simp: list_all_iff)
  have "map d_id ?sub = set_order env un"
    unfolding map_map comp_def using found un(1) by (intro map_idI) fastforce
  moreover have "a_duty_id ` set as \<inter> set un = {}" unfolding un_def unfilled_ids_def by force
  moreover have "\<exists>d \<in> set ds. same_but_quota d d'" if "d' \<in> set ?sub" for d'
  proof -
    have "d' \<in> set relaxed" using that found un(1) by fastforce
    then show ?thesis using relax_duty_same by (auto simp: relaxed_def)
  qed
  moreover have "d_id ` set ?sub = set un" using arg_cong [OF calculation(1), of set] un(1) unfolding set_map [of d_id] by blast
  ultimately show ?thesis using e un(2) by (intro exI [of _ ?sub]) auto
qed

lemma auto_relax_ok:
  assumes env: "cp_sound env" "set_order_ok env" and prob: "problem_ok st ss ds"
    and ok: "assignments_ok st ss ds ex (r_assignments res)"
  shows "ensures (auto_relax_node_quotas_retry env ss ds ex st res ps rd) (run_spec st ss ds ex)"
proof (rule ensuresI)
  fix w
  let ?as = "r_assignments res" and ?un = "unfilled_ids ds (r_assignments res)"
  let ?relaxed = "map (\<lambda>d. fst (relax_duty_quotas ps ?un d)) ds"
  obtain sub where sub: "each (\<lambda>ds did. case duty_by_id ?relaxed did of None \<Rightarrow> None
        | Some d \<Rightarrow> Some (ds @ [d])) [] (set_order env ?un) = Some sub"
      "distinct (map d_id sub)" "a_duty_id ` set ?as \<inter> d_id ` set sub = {}"
      "\<forall>d' \<in> set sub. \<exists>d \<in> set ds. same_but_quota d d'"
    using retry_duties_ok [OF prob env(2)] by blast
  have ids: "distinct (map d_id ds)" using prob by (simp add: problem_ok_def)
  have found: "duty_by_id ds (a_duty_id a) = Some (the (duty_by_id ds (a_duty_id a)))" if "a \<in> set ?as" for a
    using duty_by_id_total [of "a_duty_id a" ds] ok that by (auto simp: assignments_ok_def names_ok_def)
  let ?carry = "ex @ map (\<lambda>a. booking a (the (duty_by_id ds (a_duty_id a)))) ?as"
  have carry: "each (\<lambda>c a. case duty_by_id ds (a_duty_id a) of None \<Rightarrow> None
        | Some d \<Rightarrow> Some (c @ [booking a d])) ex ?as = Some ?carry"
    using each_lookup [where f = "\<lambda>a. duty_by_id ds (a_duty_id a)" and g = booking and acc = ex and es = ?as] found
    by (fastforce simp: list_all_iff)
  have c: "carries ex (placed ds ?as) ?carry" by (rule carries_bookings [OF ids found])
  have "problem_ok st ss sub"
    using prob sub(2,4) same_but_quota_fields(5,6)
    by (fastforce simp: problem_ok_def clocks_ok_def list_all_iff)
  from soft.run_ok [OF env(1) this]
  have soft: "ensures (solve_soft_coverage env ss sub ?carry st rd)
      (\<lambda>r. assignments_ok st ss sub ?carry (r_assignments r))" .
  obtain r w1 where r: "solve_soft_coverage env ss sub ?carry st rd w = (r, w1)"
    by (cases "solve_soft_coverage env ss sub ?carry st rd w")
  have "assignments_ok st ss ds ex (?as @ r_assignments r)"
    by (rule retry_extend [OF ok prob c _ sub(2,3) ensures_fst [OF soft r]]) (use sub(4) in blast)
  then have "assignments_ok st ss ds ex (sort_key a_duty_id (?as @ r_assignments r))"
    by (rule assignments_ok_perm [rotated]) simp
  then show "run_spec st ss ds ex (fst (auto_relax_node_quotas_retry env ss ds ex st res ps rd w))"
    using ok by (simp add: auto_relax_node_quotas_retry_def relax_unsatisfiable_quotas_def
        run_spec_def Let_def sub(1) carry r)
qed

section \<open>The whole run\<close>

lemma solve_decomposed_ok:
  assumes "cp_sound env" "problem_ok st ss ds" "interleaved_batch_size st \<noteq> 0"
  shows "ensures (solve_decomposed env ss ds ex st rd) (run_spec st ss ds ex)"
proof -
  have "ensures (\<lambda>w. case infeasibility_relaxation_chain env ss ds ex st rd (f w) of
      (result, w1) \<Rightarrow> (Some result, g w1)) (run_spec st ss ds ex)" for f g :: "'a \<Rightarrow> 'a"
  proof (rule ensuresI)
    fix w
    obtain r w1 where r: "infeasibility_relaxation_chain env ss ds ex st rd (f w) = (r, w1)"
      by (cases "infeasibility_relaxation_chain env ss ds ex st rd (f w)")
    with ensures_fst [OF chain.run_ok [OF assms(1,2)] r]
    show "run_spec st ss ds ex (fst (case infeasibility_relaxation_chain env ss ds ex st rd (f w) of
      (result, w1) \<Rightarrow> (Some result, g w1)))" by (simp add: run_spec_def)
  qed
  then show ?thesis
    unfolding solve_decomposed_def Let_def
    by (intro ensures_if interleaved_solve_ok effort_round_solve_ok decomposed_solve_ok assms)
qed

text \<open>What holds of the assignments \<open>solve\<close> returns, swapped or not.\<close>

definition solve_spec_final :: "SolverSettings \<Rightarrow> SoldierInput list \<Rightarrow> DutyBlock list
    \<Rightarrow> ExistingAssignment list \<Rightarrow> SolverResult option \<Rightarrow> bool" where
  "solve_spec_final st ss ds ex r = (case r of None \<Rightarrow> False
     | Some res \<Rightarrow> swap_spec (enforce_weapon_qualification st) ss ds ex (r_assignments res))"

lemma run_spec_final: "run_spec st ss ds ex r \<Longrightarrow> solve_spec_final st ss ds ex r"
  using assignments_ok_swap_spec by (auto simp: run_spec_def solve_spec_final_def split: option.splits)

lemma solve_ok:
  assumes env: "cp_sound env" "set_order_ok env" and prob: "problem_ok st ss ds"
    and "interleaved_batch_size st \<noteq> 0"
  shows "ensures (solve env ss ds ex st rd parents) (solve_spec_final st ss ds ex)"
proof (rule ensuresI)
  fix w
  obtain q w1 where "solve_decomposed env ss ds ex st rd w = (q, w1)"
    by (cases "solve_decomposed env ss ds ex st rd w")
  with ensures_fst [OF solve_decomposed_ok [OF env(1) prob assms(4)] this] obtain res where
    res: "solve_decomposed env ss ds ex st rd w = (Some res, w1)"
      "assignments_ok st ss ds ex (r_assignments res)" by (cases q) (auto simp: run_spec_def)
  let ?p = "case parents of None \<Rightarrow> [] | Some p \<Rightarrow> p"
  let ?retry = "if auto_relax_node_quotas st \<and> ?p \<noteq> [] \<and> succeeded res
      then auto_relax_node_quotas_retry env ss ds ex st res ?p rd w1 else (Some res, w1)"
  obtain q2 w2 where q2: "?retry = (q2, w2)" by (cases ?retry)
  have "run_spec st ss ds ex q2"
    using ensures_fst [OF auto_relax_ok [OF env prob res(2)]] q2 res(2)
    by (auto simp: run_spec_def split: if_splits)
  then obtain res2 where res2: "q2 = Some res2" "assignments_ok st ss ds ex (r_assignments res2)"
    by (cases q2) (auto simp: run_spec_def)
  have spec: "swap_spec (enforce_weapon_qualification st) ss ds ex (r_assignments res2)"
    by (rule assignments_ok_swap_spec [OF res2(2)])
  moreover obtain as where "swap_pass env ss ds ex (r_assignments res2) st = Some as"
      "swap_spec (enforce_weapon_qualification st) ss ds ex as"
    using swap_pass_ok [OF _ env(2) spec] prob by (auto simp: problem_ok_def)
  ultimately show "solve_spec_final st ss ds ex (fst (solve env ss ds ex st rd parents w))"
    unfolding solve_def res(1) prod.case option.case Let_def q2 res2(1)
    by (simp add: solve_spec_final_def)
qed

end
