(* ===== verification/Civil.thy ===== *)
theory Civil
  imports Prelude
begin

text \<open>
  Dates of the civil calendar.  A date is its proleptic Gregorian ordinal, as
  \<open>date.toordinal\<close> counts it; \<open>year_of\<close>, \<open>month_of\<close> and \<open>day_of\<close> read its fields,
  \<open>civil\<close> is the constructor \<open>date(y, m, d)\<close>, and \<open>add_months\<close> adds
  months and clips the day to the length of the month, a concrete instance of the month
  arithmetic the services take from \<open>dateutil\<close>.
  Python's limits on the year (1 to 9999) are not modelled.
\<close>

section \<open>Fields and constructor\<close>

definition leap :: "int \<Rightarrow> bool" where
  "leap y \<longleftrightarrow> y mod 4 = 0 \<and> (y mod 100 \<noteq> 0 \<or> y mod 400 = 0)"

definition days_in_month :: "int \<Rightarrow> nat \<Rightarrow> int" where
  "days_in_month y m =
     (if m = 2 then (if leap y then 29 else 28) else if m \<in> {4, 6, 9, 11} then 30 else 31)"

definition days_before_year :: "int \<Rightarrow> int" where
  "days_before_year y = (y - 1) * 365 + (y - 1) div 4 - (y - 1) div 100 + (y - 1) div 400"

definition days_before_month :: "int \<Rightarrow> nat \<Rightarrow> int" where
  "days_before_month y m = sum_list (map (days_in_month y) [1..<m])"

definition civil :: "int \<Rightarrow> nat \<Rightarrow> int \<Rightarrow> date" where
  "civil y m d = days_before_year y + days_before_month y m + d"

definition year_of :: "date \<Rightarrow> int" where
  "year_of n =
     (let y = 400 * (n - 1) div 146097 + 1
      in if days_before_year (y + 1) < n then y + 1
         else if n \<le> days_before_year y then y - 1 else y)"

fun month_at :: "int \<Rightarrow> int \<Rightarrow> nat \<Rightarrow> nat" where
  "month_at y r m = (if m \<le> 1 \<or> days_before_month y m < r then m else month_at y r (m - 1))"

declare month_at.simps [simp del]

definition month_of :: "date \<Rightarrow> nat" where
  "month_of n = month_at (year_of n) (n - days_before_year (year_of n)) 12"

definition day_of :: "date \<Rightarrow> int" where
  "day_of n = n - days_before_year (year_of n) - days_before_month (year_of n) (month_of n)"

definition add_months :: "date \<Rightarrow> int \<Rightarrow> date" where
  "add_months n k =
     (let i = 12 * year_of n + int (month_of n) - 1 + k; y = i div 12; m = nat (i mod 12) + 1
      in civil y m (min (day_of n) (days_in_month y m)))"

section \<open>Years and months\<close>

lemma days_in_month_bounds: "28 \<le> days_in_month y m" "days_in_month y m \<le> 31"
  by (simp_all add: days_in_month_def)

lemma days_before_month_Suc [simp]:
  "days_before_month y (Suc 0) = 0"
  "1 \<le> m \<Longrightarrow> days_before_month y (Suc m) = days_before_month y m + days_in_month y m"
  by (simp_all add: days_before_month_def)

lemma days_in_year: "days_before_month y 13 = (if leap y then 366 else 365)"
  by (simp add: days_before_month_def days_in_month_def upt_rec)

lemma div_step:
  assumes "0 < (k :: int)"
  shows "z div k = (z - 1) div k + (if z mod k = 0 then 1 else 0)"
proof -
  define q r where "q = (z - 1) div k" and "r = (z - 1) mod k"
  have z: "z = k * q + (r + 1)" using mult_div_mod_eq [of k "z - 1"] by (simp add: q_def r_def)
  have r: "0 \<le> r" "r < k" using assms by (simp_all add: r_def)
  show ?thesis
  proof (cases "r + 1 = k")
    case True
    then have "z = k * (q + 1)" using z by (simp add: algebra_simps)
    then have "z div k = q + 1" "z mod k = 0" using assms by simp_all
    then show ?thesis unfolding q_def by simp
  next
    case False
    then have "z div k = q" "z mod k = r + 1"
      using r int_div_pos_eq [OF z] int_mod_pos_eq [OF z] by simp_all
    then show ?thesis using r by (simp add: q_def)
  qed
qed

lemma days_before_year_Suc: "days_before_year (y + 1) = days_before_year y + days_before_month y 13"
proof -
  define a b c :: int where "a = (if y mod 4 = 0 then 1 else 0)"
    and "b = (if y mod 100 = 0 then 1 else 0)" and "c = (if y mod 400 = 0 then 1 else 0)"
  have d: "y div 4 = (y - 1) div 4 + a" "y div 100 = (y - 1) div 100 + b"
    "y div 400 = (y - 1) div 400 + c" unfolding a_def b_def c_def by (rule div_step; simp)+
  have q: "y mod 400 = 0 \<Longrightarrow> y mod 100 = 0" "y mod 100 = 0 \<Longrightarrow> y mod 4 = 0"
    using dvd_trans [of 100 400 y] dvd_trans [of 4 100 y] by (simp_all add: dvd_eq_mod_eq_0)
  have "a - b + c = (if leap y then 1 else 0)"
    using q unfolding a_def b_def c_def leap_def
    by (cases "y mod 4 = 0"; cases "y mod 100 = 0"; cases "y mod 400 = 0") simp_all
  moreover have "days_before_year (y + 1) = days_before_year y + 365 + (a - b + c)"
    unfolding days_before_year_def add_diff_cancel_right' d by simp
  ultimately show ?thesis by (simp add: days_in_year)
qed

lemma days_before_year_less: "days_before_year y < days_before_year (y + 1)"
  by (simp add: days_before_year_Suc days_in_year)

lemma int_div_bounds:
  assumes "0 < (k :: int)"
  shows "k * (z div k) \<le> z" "z < k * (z div k) + k"
  using assms mult_div_mod_eq [of k z] pos_mod_sign [of k z] pos_mod_bound [of k z] by linarith+

lemma days_before_year_bounds:
  "146097 * (y - 1) - 699 \<le> 400 * days_before_year y"
  "400 * days_before_year y \<le> 146097 * (y - 1) + 396"
proof -
  have "4 * ((y - 1) div 4) \<le> y - 1" "y - 1 < 4 * ((y - 1) div 4) + 4"
    "100 * ((y - 1) div 100) \<le> y - 1" "y - 1 < 100 * ((y - 1) div 100) + 100"
    "400 * ((y - 1) div 400) \<le> y - 1" "y - 1 < 400 * ((y - 1) div 400) + 400"
    by (rule int_div_bounds; simp)+
  moreover define p q r z where "p = (y - 1) div 4" and "q = (y - 1) div 100"
    and "r = (y - 1) div 400" and "z = y - 1"
  ultimately have d: "4 * p \<le> z" "z < 4 * p + 4" "100 * q \<le> z" "z < 100 * q + 100"
    "400 * r \<le> z" "z < 400 * r + 400" by simp_all
  have e: "days_before_year y = z * 365 + p - q + r"
    by (simp add: days_before_year_def p_def q_def r_def z_def)
  have "z \<le> 4 * p + 3" "z \<le> 400 * r + 399" "z \<le> 100 * q + 99" using d by simp_all
  note d = this d
  have "146097 * z - 699 \<le> 400 * days_before_year y" using d unfolding e by simp
  then show "146097 * (y - 1) - 699 \<le> 400 * days_before_year y" by (simp add: z_def)
  have "400 * days_before_year y \<le> 146097 * z + 396" using d unfolding e by simp
  then show "400 * days_before_year y \<le> 146097 * (y - 1) + 396" by (simp add: z_def)
qed

lemma year_spec: "days_before_year (year_of n) < n \<and> n \<le> days_before_year (year_of n + 1)"
proof -
  define y where "y = 400 * (n - 1) div 146097 + 1"
  have "146097 * (400 * (n - 1) div 146097) \<le> 400 * (n - 1)"
    "400 * (n - 1) < 146097 * (400 * (n - 1) div 146097) + 146097"
    by (rule int_div_bounds; simp)+
  then have "146097 * (y - 1) \<le> 400 * (n - 1)" "400 * (n - 1) < 146097 * y"
    unfolding y_def by simp_all
  then have "days_before_year (y - 1) < n" "n \<le> days_before_year (y + 2)"
    using days_before_year_bounds [of "y - 1"] days_before_year_bounds [of "y + 2"] by simp_all
  moreover have "year_of n = (if days_before_year (y + 1) < n then y + 1
      else if n \<le> days_before_year y then y - 1 else y)"
    by (simp only: year_of_def Let_def y_def)
  ultimately show ?thesis by (auto simp: add.assoc)
qed

lemma month_at_spec:
  "m \<le> 12 \<Longrightarrow> 1 \<le> m \<Longrightarrow> 0 < r \<Longrightarrow> r \<le> days_before_month y (Suc m)
   \<Longrightarrow> let k = month_at y r m in 1 \<le> k \<and> k \<le> m \<and> days_before_month y k < r \<and> r \<le> days_before_month y (Suc k)"
proof (induction m)
  case (Suc m)
  show ?case
  proof (cases "m = 0 \<or> days_before_month y (Suc m) < r")
    case True
    then have "month_at y r (Suc m) = Suc m" by (subst month_at.simps) (simp del: days_before_month_Suc)
    then show ?thesis using Suc.prems True by (auto simp: Let_def simp del: days_before_month_Suc(2))
  next
    case False
    then have "month_at y r (Suc m) = month_at y r m"
      by (subst month_at.simps) (simp del: days_before_month_Suc)
    then show ?thesis using Suc False by (auto simp: Let_def simp del: days_before_month_Suc)
  qed
qed simp

lemma month_spec:
  defines "r \<equiv> \<lambda>n. n - days_before_year (year_of n)"
  shows "1 \<le> month_of n \<and> month_of n \<le> 12 \<and> days_before_month (year_of n) (month_of n) < r n
    \<and> r n \<le> days_before_month (year_of n) (Suc (month_of n))"
proof -
  have "0 < r n" "r n \<le> days_before_month (year_of n) (Suc 12)"
    using year_spec [of n] by (simp_all add: r_def days_before_year_Suc del: days_before_month_Suc)
  then show ?thesis using month_at_spec [of 12 "r n" "year_of n"]
    by (simp add: month_of_def r_def Let_def del: days_before_month_Suc)
qed

section \<open>Months as intervals of days\<close>

text \<open>The first day of the month with index \<open>i\<close>; index 0 is January of year 0.\<close>

definition month_start :: "int \<Rightarrow> date" where
  "month_start i = civil (i div 12) (nat (i mod 12) + 1) 1"

definition month_index :: "date \<Rightarrow> int" where
  "month_index n = 12 * year_of n + int (month_of n) - 1"

lemma index_fields:
  assumes "1 \<le> m" "m \<le> 12"
  shows "(12 * y + int m - 1) div 12 = y" "(12 * y + int m - 1) mod 12 = int m - 1"
proof -
  have "12 * y + int m - 1 = int m - 1 + y * 12" by simp
  then show "(12 * y + int m - 1) div 12 = y" "(12 * y + int m - 1) mod 12 = int m - 1"
    using assms by (simp_all only: div_mult_self1 mod_mult_self1) (simp_all add: div_pos_pos_trivial mod_pos_pos_trivial)
qed

lemma month_start_civil: "1 \<le> m \<Longrightarrow> m \<le> 12 \<Longrightarrow> civil y m 1 = month_start (12 * y + int m - 1)"
  by (simp add: month_start_def index_fields nat_diff_distrib)

lemma month_start_Suc: "month_start (i + 1) = month_start i + days_in_month (i div 12) (nat (i mod 12) + 1)"
proof (cases "i mod 12 = 11")
  case True
  then have z: "i + 1 = 12 * (i div 12 + 1)" using mult_div_mod_eq [of 12 i] by simp
  have i: "(i + 1) div 12 = i div 12 + 1" "(i + 1) mod 12 = 0" unfolding z by simp_all
  have "days_before_month y 13 = days_before_month y 12 + days_in_month y 12" for y
    using days_before_month_Suc(2) [of 12 y] by simp
  then have "days_before_year (i div 12 + 1) = days_before_year (i div 12)
      + days_before_month (i div 12) 12 + days_in_month (i div 12) 12"
    by (simp add: days_before_year_Suc)
  then show ?thesis using True unfolding month_start_def civil_def i by simp
next
  case False
  have z: "i + 1 = 12 * (i div 12) + (i mod 12 + 1)" by simp
  have i: "(i + 1) div 12 = i div 12" "(i + 1) mod 12 = i mod 12 + 1"
    using False pos_mod_sign [of 12 i] pos_mod_bound [of 12 i]
      int_div_pos_eq [OF z] int_mod_pos_eq [OF z] by simp_all
  have "nat (i mod 12 + 1) = Suc (nat (i mod 12))" by (simp add: nat_add_distrib)
  then show ?thesis unfolding month_start_def civil_def i by simp
qed

lemma month_start_less: "month_start i < month_start (i + 1)"
  using days_in_month_bounds(1) [of "i div 12" "nat (i mod 12) + 1"] by (simp add: month_start_Suc)

lemma month_start_strict: "i < j \<Longrightarrow> month_start i < month_start j"
proof (induction j rule: int_gr_induct)
  case base
  show ?case by (rule month_start_less)
next
  case (step j)
  then show ?case using month_start_less [of j] by simp
qed

lemma month_start_mono: "i \<le> j \<Longrightarrow> month_start i \<le> month_start j"
  using month_start_strict [of i j] by (cases "i = j") auto

lemma month_index_bounds: "month_start (month_index n) \<le> n \<and> n < month_start (month_index n + 1)"
proof -
  note m = month_spec [of n]
  have "month_start (month_index n) = civil (year_of n) (month_of n) 1"
    using m by (simp add: month_index_def month_start_civil)
  moreover have "month_start (month_index n + 1)
      = civil (year_of n) (month_of n) 1 + days_in_month (year_of n) (month_of n)"
    using m calculation
    by (simp add: month_start_Suc) (simp add: month_index_def index_fields nat_diff_distrib)
  moreover have "days_before_month (year_of n) (Suc (month_of n))
      = days_before_month (year_of n) (month_of n) + days_in_month (year_of n) (month_of n)"
    using m by simp
  ultimately show ?thesis using m unfolding civil_def by linarith
qed

text \<open>A day is in month \<open>i\<close> exactly when it lies between the starts of months \<open>i\<close> and \<open>i + 1\<close>.\<close>

lemma month_index_iff: "month_index n = i \<longleftrightarrow> month_start i \<le> n \<and> n < month_start (i + 1)"
proof
  assume "month_start i \<le> n \<and> n < month_start (i + 1)"
  then have "\<not> month_index n + 1 \<le> i" "\<not> i + 1 \<le> month_index n"
    using month_index_bounds [of n] month_start_mono [of "month_index n + 1" i]
      month_start_mono [of "i + 1" "month_index n"] by auto
  then show "month_index n = i" by simp
qed (use month_index_bounds [of n] in auto)

lemma le_month_index: "i \<le> month_index n \<longleftrightarrow> month_start i \<le> n"
proof
  assume "month_start i \<le> n"
  then have "\<not> month_index n + 1 \<le> i"
    using month_index_bounds [of n] month_start_mono [of "month_index n + 1" i] by auto
  then show "i \<le> month_index n" by simp
qed (use month_index_bounds [of n] month_start_mono [of i "month_index n"] in auto)

lemma year_month_of_index:
  "year_of n = month_index n div 12" "int (month_of n) = month_index n mod 12 + 1"
  using month_spec [of n] by (simp_all add: month_index_def index_fields)

end
