(* ===== verification/Ranks.thy ===== *)
theory Ranks
  imports Civil
begin

text \<open>
  Ranks, their advancement and the requirements of duty types: the pure part of
  \<open>services/eligibility.py\<close>, \<open>services/rank_advancement.py\<close> and the projection of
  \<open>services/rank_eligibility_projection.py\<close>.  The ranks of the module's lists are the
  constructors of \<open>Rank\<close>; any other text is \<open>Other_rank\<close>.  A stored track that names no
  ladder acts as an absent one, so it is \<open>None\<close> here.  \<open>plus_months\<close> is the month arithmetic of
  \<open>dateutil\<close> (\<open>since + relativedelta(months=k)\<close>), of which nothing is assumed.
\<close>

section \<open>Ranks and tracks\<close>

datatype Rank = Turai | Rabat | Samal | Samar | Rasal | Rasar | Rasam | Rasab | Ranag
  | Kama | Sagam | Segen | Kab | Seren | Kaam | Rasan | Saal | Alam | Taal | Aluf | Rav_aluf
  | Other_rank string

definition ENLISTED_RANKS :: "Rank list" where
  "ENLISTED_RANKS = [Turai, Rabat, Samal, Samar, Rasal, Rasar, Rasam, Rasab, Ranag]"

definition OFFICER_RANKS :: "Rank list" where
  "OFFICER_RANKS = [Kama, Sagam, Segen, Kab, Seren, Kaam, Rasan, Saal, Alam, Taal, Aluf, Rav_aluf]"

definition CHOVAH_ONLY_RANKS :: "Rank list" where
  "CHOVAH_ONLY_RANKS = [Turai, Rabat, Samal, Sagam, Kama]"

definition RANKS_RASAN_AND_ABOVE :: "Rank list" where
  "RANKS_RASAN_AND_ABOVE = dropWhile (\<lambda>r. r \<noteq> Rasan) OFFICER_RANKS"

datatype ServiceType = Hova | Keva | Other_service string

definition KEVA_ONLY_TRACK_RANKS :: "Rank list" where
  "KEVA_ONLY_TRACK_RANKS =
     filter (\<lambda>r. r \<notin> set CHOVAH_ONLY_RANKS \<and> r \<noteq> Samar) ENLISTED_RANKS
     @ RANKS_RASAN_AND_ABOVE @ [Kab, Seren, Kaam]"

text \<open>The later entry of the dictionary display wins.\<close>

definition rank_track_compatibility :: "Rank \<Rightarrow> ServiceType list option" where
  "rank_track_compatibility r =
     (if r \<in> set KEVA_ONLY_TRACK_RANKS then Some [Keva]
      else if r \<in> set CHOVAH_ONLY_RANKS then Some [Hova] else None)"

datatype track_error = Rank_track_incompatible

definition validate_rank_track_compatibility :: "Rank option \<Rightarrow> bool \<Rightarrow> track_error + unit" where
  "validate_rank_track_compatibility rank is_career =
     (case rank of None \<Rightarrow> Inr ()
      | Some r \<Rightarrow> (case rank_track_compatibility r of None \<Rightarrow> Inr ()
         | Some allowed \<Rightarrow>
             if (if is_career then Keva else Hova) \<notin> set allowed then Inl Rank_track_incompatible
             else Inr ()))"

definition derive_is_career :: "Rank option \<Rightarrow> date option \<Rightarrow> date option \<Rightarrow> date \<Rightarrow> bool" where
  "derive_is_career rank mandatory_end_date discharge_date today =
     (if rank \<in> Some ` set CHOVAH_ONLY_RANKS then False
      else (case mandatory_end_date of None \<Rightarrow> False | Some e \<Rightarrow> \<not> today \<le> e))"

definition derive_bahad1_graduate :: "Rank option \<Rightarrow> bool" where
  "derive_bahad1_graduate rank =
     (if rank \<notin> Some ` set OFFICER_RANKS then False else rank \<notin> Some ` set [Kama, Kab, Kaam])"

datatype Track = Enlisted | Officer | Officer_academic

fun ladder :: "Track \<Rightarrow> Rank list" where
  "ladder Enlisted = ENLISTED_RANKS"
| "ladder Officer = [Sagam, Segen, Seren, Rasan, Saal, Alam, Taal, Aluf, Rav_aluf]"
| "ladder Officer_academic =
     [Kama, Kab, Segen, Seren, Rasan, Saal, Alam, Taal, Aluf, Rav_aluf, Kaam]"

text \<open>\<open>DEFAULT_RANK_ADVANCEMENT_INTERVALS\<close>; a rank not listed has no interval and no flag.\<close>

definition default_interval :: "Track \<Rightarrow> Rank \<Rightarrow> int option \<times> bool" where
  "default_interval track rank =
     (case map_of
        [((Enlisted, Turai), (Some 10, False)), ((Enlisted, Rabat), (Some 11, False)),
         ((Enlisted, Samal), (Some 11, True)), ((Enlisted, Samar), (Some 24, False)),
         ((Officer, Sagam), (Some 12, True)), ((Officer, Segen), (Some 36, False)),
         ((Officer, Seren), (Some 48, False)), ((Officer_academic, Kama), (Some 32, True)),
         ((Officer_academic, Segen), (Some 12, True)), ((Officer_academic, Seren), (Some 36, False))]
        (track, rank) of None \<Rightarrow> (None, False) | Some entry \<Rightarrow> entry)"

definition get_track :: "Rank \<Rightarrow> Track option \<Rightarrow> Track option" where
  "get_track rank track =
     (case track of
        Some t \<Rightarrow> if rank \<in> set (ladder t) then Some t else None
      | None \<Rightarrow>
          (let matches = filter (\<lambda>t. rank \<in> set (ladder t)) [Enlisted, Officer, Officer_academic]
           in if matches = [] then None
              else if Officer \<in> set matches then Some Officer else Some (hd matches)))"

definition resolve_track :: "Rank option \<Rightarrow> Track option \<Rightarrow> Track option" where
  "resolve_track rank stored_track =
     (case rank of None \<Rightarrow> None
      | Some r \<Rightarrow>
          (case stored_track of
             Some t \<Rightarrow> if r \<in> set (ladder t) then Some t else get_track r None
           | None \<Rightarrow> get_track r None))"

text \<open>\<open>index_of\<close> is \<open>list.index\<close>, which the callers use on members only.\<close>

definition index_of :: "'a \<Rightarrow> 'a list \<Rightarrow> nat" where
  "index_of x xs = length (takeWhile (\<lambda>y. y \<noteq> x) xs)"

definition get_next_rank :: "Rank \<Rightarrow> Track option \<Rightarrow> Rank option" where
  "get_next_rank rank track =
     (case get_track rank track of None \<Rightarrow> None
      | Some t \<Rightarrow>
          (let idx = index_of rank (ladder t)
           in if idx + 1 \<ge> length (ladder t) then None else Some (ladder t ! (idx + 1))))"

section \<open>Soldiers and intervals\<close>

record Soldier =
  so_id :: uuid
  so_gender :: "string option"
  so_is_officer :: "bool option"
  so_rank :: "Rank option"
  so_rank_track :: "Track option"
  so_next_rank_date :: "date option"
  so_next_rank_date_overridden :: bool
  so_current_rank_since :: "date option"
  so_bahad1_graduate :: bool
  so_has_license :: "bool option"
  so_license_expiry :: "date option"
  so_enlistment_date :: "date option"
  so_mandatory_end_date :: "date option"
  so_discharge_date :: "date option"
  so_left_at :: "date option"
  so_hierarchy_node_id :: "uuid option"
  so_enrolled_at :: date
  so_unit_join_date :: "date option"
  so_last_mitvahim_date :: "date option"
  so_last_alal_date :: "date option"

record RankAdvancementInterval =
  i_track :: Track
  i_rank :: Rank
  i_months_to_next :: "int option"
  i_advance_on_career_entry :: bool

type_synonym intervals = "RankAdvancementInterval list"

definition interval_row :: "intervals \<Rightarrow> Track \<Rightarrow> Rank \<Rightarrow> RankAdvancementInterval option" where
  "interval_row rows track rank = find (\<lambda>r. i_track r = track \<and> i_rank r = rank) rows"

definition get_interval_months :: "intervals \<Rightarrow> Track \<Rightarrow> Rank \<Rightarrow> int option" where
  "get_interval_months rows track rank =
     (case interval_row rows track rank of Some row \<Rightarrow> i_months_to_next row
      | None \<Rightarrow> fst (default_interval track rank))"

definition compute_next_rank_date :: "(date \<Rightarrow> int \<Rightarrow> date) \<Rightarrow> intervals \<Rightarrow> Rank \<Rightarrow> date \<Rightarrow> Track option \<Rightarrow> date option" where
  "compute_next_rank_date plus_months rows rank since track =
     (case get_track rank track of None \<Rightarrow> None
      | Some t \<Rightarrow> map_option (plus_months since) (get_interval_months rows t rank))"

fun total_months :: "intervals \<Rightarrow> Track \<Rightarrow> Rank list \<Rightarrow> int option" where
  "total_months rows t [] = Some 0"
| "total_months rows t (r # rs) =
     (case get_interval_months rows t r of None \<Rightarrow> None
      | Some months \<Rightarrow> map_option ((+) months) (total_months rows t rs))"

definition compute_initial_next_rank_date :: "(date \<Rightarrow> int \<Rightarrow> date) \<Rightarrow> intervals \<Rightarrow> Rank \<Rightarrow> date option \<Rightarrow> date \<Rightarrow> Track option
    \<Rightarrow> date option" where
  "compute_initial_next_rank_date plus_months rows rank enlistment_date fallback_since track =
     (case get_track rank track of None \<Rightarrow> None
      | Some t \<Rightarrow>
          (case enlistment_date of
             None \<Rightarrow> compute_next_rank_date plus_months rows rank fallback_since (Some t)
           | Some e \<Rightarrow> map_option (plus_months e)
               (total_months rows t (take (index_of rank (ladder t) + 1) (ladder t)))))"

definition compute_next_rank_date_for_soldier :: "(date \<Rightarrow> int \<Rightarrow> date) \<Rightarrow> intervals \<Rightarrow> date \<Rightarrow> Soldier \<Rightarrow> date option" where
  "compute_next_rank_date_for_soldier plus_months rows today s =
     (case so_rank s of None \<Rightarrow> None
      | Some rank \<Rightarrow>
          (case resolve_track (Some rank) (so_rank_track s) of None \<Rightarrow> None
           | Some track \<Rightarrow>
               (case so_current_rank_since s of
                  None \<Rightarrow> compute_initial_next_rank_date plus_months rows rank (so_enlistment_date s) today (Some track)
                | Some since \<Rightarrow>
                    if Some since = so_enlistment_date s
                    then compute_initial_next_rank_date plus_months rows rank (so_enlistment_date s) since (Some track)
                    else compute_next_rank_date plus_months rows rank since (Some track))))"

text \<open>The insert or update of one row, and the recomputation it triggers.\<close>

definition upsert_interval :: "Track \<Rightarrow> Rank \<Rightarrow> int option \<Rightarrow> bool \<Rightarrow> intervals \<Rightarrow> intervals" where
  "upsert_interval track rank months flag rows =
     (if interval_row rows track rank = None
      then rows @ [\<lparr>i_track = track, i_rank = rank, i_months_to_next = months,
                     i_advance_on_career_entry = flag\<rparr>]
      else map (\<lambda>r. if i_track r = track \<and> i_rank r = rank
                    then r\<lparr>i_months_to_next := months, i_advance_on_career_entry := flag\<rparr> else r) rows)"

definition recompute_soldier :: "(date \<Rightarrow> int \<Rightarrow> date) \<Rightarrow> intervals \<Rightarrow> date \<Rightarrow> Track \<Rightarrow> Rank \<Rightarrow> Soldier \<Rightarrow> Soldier" where
  "recompute_soldier plus_months rows today track rank s =
     (let affected = drop (index_of rank (ladder track)) (ladder track);
          cumulative = so_enlistment_date s \<noteq> None \<and>
            (so_current_rank_since s = None \<or> so_current_rank_since s = so_enlistment_date s)
      in if so_rank s \<notin> Some ` set affected \<or> so_next_rank_date_overridden s
            \<or> resolve_track (so_rank s) (so_rank_track s) \<noteq> Some track
            \<or> \<not> cumulative \<and> so_rank s \<noteq> Some rank
         then s
         else s\<lparr>so_next_rank_date := compute_next_rank_date_for_soldier plus_months rows today s\<rparr>)"

definition recompute_affected_soldiers :: "(date \<Rightarrow> int \<Rightarrow> date) \<Rightarrow> intervals \<Rightarrow> date \<Rightarrow> Track \<Rightarrow> Rank \<Rightarrow> Soldier list
    \<Rightarrow> Soldier list" where
  "recompute_affected_soldiers plus_months rows today track rank soldiers =
     (if rank \<notin> set (ladder track) then soldiers
      else map (recompute_soldier plus_months rows today track rank) soldiers)"

definition set_interval_and_recompute :: "(date \<Rightarrow> int \<Rightarrow> date) \<Rightarrow> date \<Rightarrow> Track \<Rightarrow> Rank \<Rightarrow> int option \<Rightarrow> bool
    \<Rightarrow> intervals \<times> Soldier list \<Rightarrow> intervals \<times> Soldier list" where
  "set_interval_and_recompute plus_months today track rank months flag db =
     (let rows = upsert_interval track rank months flag (fst db)
      in (rows, recompute_affected_soldiers plus_months rows today track rank (snd db)))"

definition advances_on_career_entry :: "intervals \<Rightarrow> Track \<Rightarrow> Rank \<Rightarrow> bool" where
  "advances_on_career_entry rows track rank =
     (case interval_row rows track rank of Some row \<Rightarrow> i_advance_on_career_entry row
      | None \<Rightarrow> snd (default_interval track rank))"

definition career_entry_date :: "date option \<Rightarrow> date option \<Rightarrow> date option" where
  "career_entry_date mandatory_end_date discharge_date =
     (case mandatory_end_date of None \<Rightarrow> None
      | Some e \<Rightarrow> (case discharge_date of
           Some d \<Rightarrow> if d \<le> e then None else Some (e + 1) | None \<Rightarrow> Some (e + 1)))"

definition career_entry_applies :: "date option \<Rightarrow> date option \<Rightarrow> date option \<Rightarrow> bool" where
  "career_entry_applies entry_date current_rank_since enlistment_date =
     (case (entry_date, case current_rank_since of Some d \<Rightarrow> Some d | None \<Rightarrow> enlistment_date) of
        (Some e, Some d) \<Rightarrow> d < e | _ \<Rightarrow> False)"

section \<open>Projection\<close>

text \<open>
  The cache maps track and rank to the two fields of the row.  Without a cache the row is
  read from the table, and then a rank without a row has the default interval.
\<close>

type_synonym interval_cache = "(Track \<times> Rank, int option \<times> bool) dict"

definition load_interval_cache :: "intervals \<Rightarrow> interval_cache" where
  "load_interval_cache rows =
     fold (\<lambda>r c. dict_set c (i_track r, i_rank r) (i_months_to_next r, i_advance_on_career_entry r)) rows []"

definition next_rank_date :: "(date \<Rightarrow> int \<Rightarrow> date) \<Rightarrow> intervals \<Rightarrow> interval_cache option \<Rightarrow> Rank \<Rightarrow> Track option \<Rightarrow> date
    \<Rightarrow> date option" where
  "next_rank_date plus_months rows cache rank track since =
     (case cache of
        None \<Rightarrow> compute_next_rank_date plus_months rows rank since track
      | Some c \<Rightarrow>
          (case resolve_track (Some rank) track of None \<Rightarrow> None
           | Some t \<Rightarrow>
               (case dict_get c (t, rank) of None \<Rightarrow> None
                | Some entry \<Rightarrow> map_option (plus_months since) (fst entry))))"

definition flag_lookup :: "intervals \<Rightarrow> interval_cache option \<Rightarrow> Rank \<Rightarrow> Track option \<Rightarrow> bool" where
  "flag_lookup rows cache rank track =
     (case resolve_track (Some rank) track of None \<Rightarrow> False
      | Some t \<Rightarrow>
          (case cache of
             None \<Rightarrow> advances_on_career_entry rows t rank
           | Some c \<Rightarrow> (case dict_get c (t, rank) of None \<Rightarrow> False | Some entry \<Rightarrow> snd entry)))"

record rank_walk =
  w_rank :: "Rank option"
  w_next_date :: "date option"
  w_rank_since :: "date option"
  w_consumed :: bool

text \<open>One round of the loop; \<open>None\<close> where the code breaks.\<close>

definition project_step :: "(date \<Rightarrow> int \<Rightarrow> date) \<Rightarrow> intervals \<Rightarrow> interval_cache option \<Rightarrow> Soldier \<Rightarrow> Track option
    \<Rightarrow> date \<Rightarrow> rank_walk \<Rightarrow> rank_walk option" where
  "project_step plus_months rows cache s track as_of w =
     (case w_rank w of None \<Rightarrow> None
      | Some rank \<Rightarrow>
          (case get_next_rank rank track of None \<Rightarrow> None
           | Some next_rank \<Rightarrow>
               (let entry_date = career_entry_date (so_mandatory_end_date s) (so_discharge_date s);
                    career = (case entry_date of None \<Rightarrow> False | Some e \<Rightarrow>
                      \<not> w_consumed w \<and> e \<le> as_of
                      \<and> career_entry_applies entry_date (w_rank_since w) (so_enlistment_date s)
                      \<and> (case w_next_date w of None \<Rightarrow> True | Some d \<Rightarrow> e \<le> d)
                      \<and> flag_lookup rows cache rank track);
                    effective_date = (if career then entry_date else w_next_date w)
                in (case effective_date of None \<Rightarrow> None
                    | Some d \<Rightarrow>
                        if d > as_of then None
                        else Some \<lparr>w_rank = Some next_rank,
                               w_next_date = next_rank_date plus_months rows cache next_rank track d,
                               w_rank_since = Some d, w_consumed = (w_consumed w \<or> career)\<rparr>))))"

fun run_steps :: "nat \<Rightarrow> ('s \<Rightarrow> 's option) \<Rightarrow> 's \<Rightarrow> 's" where
  "run_steps 0 step w = w"
| "run_steps (Suc n) step w = (case step w of None \<Rightarrow> w | Some w' \<Rightarrow> run_steps n step w')"

definition MAX_CHAIN_STEPS :: nat where
  "MAX_CHAIN_STEPS = 24"

record ProjectedSoldierState =
  j_rank :: "Rank option"
  j_is_career :: bool
  j_departed :: bool

definition walk_start :: "Soldier \<Rightarrow> rank_walk" where
  "walk_start s = \<lparr>w_rank = so_rank s, w_next_date = so_next_rank_date s,
     w_rank_since = so_current_rank_since s, w_consumed = False\<rparr>"

definition project_soldier_state :: "(date \<Rightarrow> int \<Rightarrow> date) \<Rightarrow> intervals \<Rightarrow> interval_cache option \<Rightarrow> Soldier \<Rightarrow> date
    \<Rightarrow> ProjectedSoldierState" where
  "project_soldier_state plus_months rows cache s as_of =
     (let track = resolve_track (so_rank s) (so_rank_track s);
          rank = w_rank (run_steps MAX_CHAIN_STEPS (project_step plus_months rows cache s track as_of) (walk_start s))
      in \<lparr>j_rank = rank,
          j_is_career = derive_is_career rank (so_mandatory_end_date s) (so_discharge_date s) as_of,
          j_departed = (case so_discharge_date s of None \<Rightarrow> False | Some d \<Rightarrow> d \<le> as_of)
            \<or> (case so_left_at s of None \<Rightarrow> False | Some d \<Rightarrow> d \<le> as_of)\<rparr>)"

section \<open>Requirements of duty types\<close>

record DutyTypeRequirements =
  v_allowed_genders :: "string list"
  v_requires_mitvahim :: bool
  v_requires_alal :: bool
  v_allowed_ranks :: "Rank list"
  v_allowed_service_types :: "ServiceType list"
  v_rank_service_types :: "(Rank, ServiceType list) dict"
  v_officers_allowed :: bool
  v_enlisted_allowed :: bool
  v_requires_bahad1 :: bool
  v_requires_license :: bool

definition inferred_service_type :: "Soldier \<Rightarrow> date \<Rightarrow> ServiceType option" where
  "inferred_service_type s today =
     (case so_mandatory_end_date s of None \<Rightarrow> None
      | Some e \<Rightarrow> Some (if today \<le> e then Hova else Keva))"

datatype ineligibility = Wrong_gender | No_mitvahim | No_alal | Wrong_rank | Wrong_service_type
  | Not_for_officers | Officers_only | Bahad1_required | License_required

definition recent :: "date option \<Rightarrow> int \<Rightarrow> date \<Rightarrow> bool" where
  "recent done_on months today = (case done_on of None \<Rightarrow> False | Some d \<Rightarrow> today - d \<le> months * 30)"

text \<open>A rank counts as set when its text is neither absent nor empty.\<close>

definition rank_set :: "Rank option \<Rightarrow> bool" where
  "rank_set rank \<longleftrightarrow> rank \<noteq> None \<and> rank \<noteq> Some (Other_rank [])"

definition active_service_types :: "DutyTypeRequirements \<Rightarrow> Rank option \<Rightarrow> ServiceType list" where
  "active_service_types reqs rank =
     (case (if rank_set rank then dict_get (v_rank_service_types reqs) (the rank) else None) of
        Some types \<Rightarrow> types | None \<Rightarrow> v_allowed_service_types reqs)"

definition ineligibility_reason :: "Soldier \<Rightarrow> DutyTypeRequirements \<Rightarrow> int \<Rightarrow> int \<Rightarrow> date
    \<Rightarrow> Rank option \<Rightarrow> ineligibility option" where
  "ineligibility_reason s reqs mitvahim_months alal_months today rank_override =
     (let rank = (if rank_override \<noteq> None then rank_override else so_rank s);
          types = active_service_types reqs rank
      in if v_allowed_genders reqs \<noteq> []
            \<and> (so_gender s = Some [] \<or> so_gender s \<notin> Some ` set (v_allowed_genders reqs))
         then Some Wrong_gender
         else if v_requires_mitvahim reqs \<and> \<not> recent (so_last_mitvahim_date s) mitvahim_months today
         then Some No_mitvahim
         else if v_requires_alal reqs \<and> \<not> recent (so_last_alal_date s) alal_months today
         then Some No_alal
         else if v_allowed_ranks reqs \<noteq> []
           \<and> (\<not> rank_set rank \<or> rank \<notin> Some ` set (v_allowed_ranks reqs))
         then Some Wrong_rank
         else if types \<noteq> [] \<and> inferred_service_type s today \<notin> Some ` set types
         then Some Wrong_service_type
         else if \<not> v_officers_allowed reqs \<and> so_is_officer s = Some True then Some Not_for_officers
         else if \<not> v_enlisted_allowed reqs \<and> so_is_officer s \<noteq> Some True then Some Officers_only
         else if v_requires_bahad1 reqs \<and> \<not> so_bahad1_graduate s then Some Bahad1_required
         else if v_requires_license reqs
           \<and> (so_has_license s \<noteq> Some True
              \<or> (case so_license_expiry s of None \<Rightarrow> False | Some d \<Rightarrow> d < today))
         then Some License_required
         else None)"

definition is_eligible_for :: "Soldier \<Rightarrow> DutyTypeRequirements \<Rightarrow> int \<Rightarrow> int \<Rightarrow> date
    \<Rightarrow> Rank option \<Rightarrow> bool" where
  "is_eligible_for s reqs mitvahim_months alal_months today rank_override =
     (ineligibility_reason s reqs mitvahim_months alal_months today rank_override = None)"

text \<open>
  The requirements column of a duty type: empty, a document that pydantic refuses, or the
  parsed requirements.
\<close>

datatype requirements = No_requirements | Invalid_requirements | Requirements DutyTypeRequirements

definition duty_type_ineligibility_reason :: "Soldier \<Rightarrow> requirements \<Rightarrow> int \<Rightarrow> int \<Rightarrow> date
    \<Rightarrow> ineligibility option" where
  "duty_type_ineligibility_reason s raw mitvahim_months alal_months today =
     (case raw of
        Requirements reqs \<Rightarrow> ineligibility_reason s reqs mitvahim_months alal_months today None
      | _ \<Rightarrow> None)"

end
