(* ===== verification/Reserve.thy ===== *)
theory Reserve
  imports DutyTypes
begin

text \<open>
  \<open>app/algorithm/reserve.py\<close>: linking every primary assignment to the closest reserve of
  its shift, and the distances the objective charges for reserve duties.  A hierarchy is a
  dictionary from a node to its parent or None; the ancestor walk ends also on a cyclic
  one.  Distances are those of the symmetric difference of ancestor sets: the lemmas show
  that they form a pseudometric, that the cache changes nothing, and that a link is
  minimal; \<open>compute_reserve_dist\<close> is shown to know two values only.
\<close>

section \<open>Ancestors\<close>

type_synonym parents = "(uuid, uuid option) dict"

definition parent_of :: "parents \<Rightarrow> uuid \<Rightarrow> uuid option" where
  "parent_of hierarchy_parent n = (case dict_get hierarchy_parent n of None \<Rightarrow> None | Some p \<Rightarrow> p)"

definition walk_measure :: "parents \<Rightarrow> uuid list \<Rightarrow> uuid option \<Rightarrow> nat" where
  "walk_measure hp path current =
     2 * card (fst ` set hp - set path) + (case current of None \<Rightarrow> 0 | Some _ \<Rightarrow> 1)"

lemma parent_of_key: "parent_of hp c \<noteq> None \<Longrightarrow> c \<in> fst ` set hp"
  unfolding parent_of_def dict_get_def
  by (cases "map_of hp c") (auto simp: map_of_eq_None_iff dest: map_of_SomeD intro: rev_image_eqI)

function walk :: "parents \<Rightarrow> uuid list \<Rightarrow> uuid option \<Rightarrow> uuid list" where
  "walk hierarchy_parent path current =
     (case current of None \<Rightarrow> path
      | Some c \<Rightarrow> if c \<in> set path then path
                  else walk hierarchy_parent (path @ [c]) (parent_of hierarchy_parent c))"
  by pat_completeness auto

termination
proof (relation "measure (\<lambda>(hp, path, current). walk_measure hp path current)")
  fix hp :: parents and path :: "uuid list" and current :: "uuid option" and c :: uuid
  assume c: "current = Some c" "c \<notin> set path"
  show "((hp, path @ [c], parent_of hp c), hp, path, current)
      \<in> measure (\<lambda>(hp, path, current). walk_measure hp path current)"
  proof (cases "c \<in> fst ` set hp")
    case True
    have "card (fst ` set hp - set (path @ [c])) < card (fst ` set hp - set path)"
      using True c(2) by (intro psubset_card_mono) auto
    then show ?thesis using c(1) by (simp add: walk_measure_def split: option.split)
  next
    case False
    then have "parent_of hp c = None" using parent_of_key by blast
    moreover have "fst ` set hp - set (path @ [c]) = fst ` set hp - set path" using False by auto
    ultimately show ?thesis using c(1) by (simp add: walk_measure_def)
  qed
qed simp

declare walk.simps [simp del]

definition node_ancestors :: "uuid \<Rightarrow> parents \<Rightarrow> uuid list" where
  "node_ancestors node_id hierarchy_parent = walk hierarchy_parent [] (Some node_id)"

definition build_ancestor_cache :: "uuid list \<Rightarrow> parents \<Rightarrow> (uuid, uuid list) dict" where
  "build_ancestor_cache nodes hierarchy_parent = map (\<lambda>n. (n, node_ancestors n hierarchy_parent)) nodes"

definition sym_diff_size :: "uuid list \<Rightarrow> uuid list \<Rightarrow> int" where
  "sym_diff_size xs ys = int (length (remdups (filter (\<lambda>x. x \<notin> set ys) xs)))
                       + int (length (remdups (filter (\<lambda>y. y \<notin> set xs) ys)))"

definition hierarchy_distance :: "uuid \<Rightarrow> uuid \<Rightarrow> parents \<Rightarrow> int" where
  "hierarchy_distance node_a node_b hierarchy_parent =
     sym_diff_size (node_ancestors node_a hierarchy_parent) (node_ancestors node_b hierarchy_parent)"

text \<open>None is a KeyError.\<close>

definition hierarchy_distance_cached :: "uuid \<Rightarrow> uuid \<Rightarrow> (uuid, uuid list) dict \<Rightarrow> int option" where
  "hierarchy_distance_cached node_a node_b ancestor_cache =
     (case (dict_get ancestor_cache node_a, dict_get ancestor_cache node_b) of
        (Some xs, Some ys) \<Rightarrow> Some (sym_diff_size xs ys) | _ \<Rightarrow> None)"

section \<open>Linking\<close>

text \<open>An assignment triple is (assignment, soldier, shift).\<close>

type_synonym shift_assignment = "uuid \<times> uuid \<times> uuid"

definition reserves_by_shift :: "shift_assignment list \<Rightarrow> (uuid, (uuid \<times> uuid) list) dict" where
  "reserves_by_shift reserve_assignments =
     fold (\<lambda>(aid, sid, shift) m. dict_append m shift (aid, sid)) reserve_assignments []"

definition candidate_distance :: "(uuid, uuid) dict \<Rightarrow> parents \<Rightarrow> (uuid, uuid list) dict
    \<Rightarrow> uuid \<Rightarrow> uuid \<Rightarrow> int option" where
  "candidate_distance soldier_node hierarchy_parent ancestor_cache p_node r_soldier_id =
     (case dict_get soldier_node r_soldier_id of
        None \<Rightarrow> Some 10
      | Some r_node \<Rightarrow>
          if dict_get ancestor_cache r_node \<noteq> None \<and> dict_get ancestor_cache p_node \<noteq> None
          then hierarchy_distance_cached p_node r_node ancestor_cache
          else Some (hierarchy_distance p_node r_node hierarchy_parent))"

fun best_candidate :: "(uuid \<Rightarrow> int option) \<Rightarrow> (uuid \<times> uuid) list \<Rightarrow> uuid option \<times> int
    \<Rightarrow> (uuid option \<times> int) option" where
  "best_candidate dist_to [] best = Some best"
| "best_candidate dist_to ((r_assign_id, r_soldier_id) # rest) best =
     (case dist_to r_soldier_id of None \<Rightarrow> None
      | Some k \<Rightarrow> best_candidate dist_to rest
          (if k < snd best then (Some r_assign_id, k) else best))"

definition link_primary :: "(uuid, (uuid \<times> uuid) list) dict \<Rightarrow> (uuid, uuid) dict \<Rightarrow> parents
    \<Rightarrow> (uuid, uuid list) dict \<Rightarrow> shift_assignment \<Rightarrow> ReserveLink list option" where
  "link_primary by_shift soldier_node hierarchy_parent ancestor_cache p =
     (case p of (p_assign_id, p_soldier_id, shift_id) \<Rightarrow>
       (case dict_get_or by_shift shift_id [] of
          [] \<Rightarrow> Some []
        | (first_assign_id, first_soldier_id) # others \<Rightarrow>
           (case dict_get soldier_node p_soldier_id of
              None \<Rightarrow> Some [\<lparr>l_reserve_assignment_id = first_assign_id,
                             l_primary_assignment_id = p_assign_id, l_hierarchy_distance = 10\<rparr>]
            | Some p_node \<Rightarrow>
               (case best_candidate (candidate_distance soldier_node hierarchy_parent ancestor_cache p_node)
                       ((first_assign_id, first_soldier_id) # others) (None, 999) of
                  None \<Rightarrow> None
                | Some (None, best_dist) \<Rightarrow> Some []
                | Some (Some best_assign_id, best_dist) \<Rightarrow>
                    Some [\<lparr>l_reserve_assignment_id = best_assign_id,
                           l_primary_assignment_id = p_assign_id,
                           l_hierarchy_distance = best_dist\<rparr>]))))"

fun collect :: "('a \<Rightarrow> 'b list option) \<Rightarrow> 'a list \<Rightarrow> 'b list option" where
  "collect f [] = Some []"
| "collect f (x # xs) =
     (case f x of None \<Rightarrow> None
      | Some ys \<Rightarrow> (case collect f xs of None \<Rightarrow> None | Some zs \<Rightarrow> Some (ys @ zs)))"

definition link_reserves :: "shift_assignment list \<Rightarrow> shift_assignment list
    \<Rightarrow> (uuid, uuid) dict \<Rightarrow> parents \<Rightarrow> ReserveLink list option" where
  "link_reserves primary_assignments reserve_assignments soldier_node hierarchy_parent =
     collect (link_primary (reserves_by_shift reserve_assignments) soldier_node hierarchy_parent
         (build_ancestor_cache (remdups (map snd soldier_node)) hierarchy_parent))
       primary_assignments"

section \<open>Distances for the objective\<close>

definition shift_primary_nodes :: "SoldierInput list \<Rightarrow> DutyBlock list \<Rightarrow> (uuid, uuid) dict
    \<Rightarrow> (uuid, uuid) dict \<Rightarrow> uuid \<Rightarrow> uuid list" where
  "shift_primary_nodes soldiers duties block_to_shift soldier_node shift_id =
     concat (map (\<lambda>d. concat (map (\<lambda>s.
         case dict_get soldier_node (s_id s) of None \<Rightarrow> [] | Some node \<Rightarrow> [node]) soldiers))
       (filter (\<lambda>d. \<not> d_is_reserve d \<and> dict_get block_to_shift (d_id d) = Some shift_id) duties))"

definition primary_nodes_of :: "SoldierInput list \<Rightarrow> DutyBlock list \<Rightarrow> (uuid, uuid) dict
    \<Rightarrow> (uuid, uuid) dict \<Rightarrow> DutyBlock \<Rightarrow> uuid list" where
  "primary_nodes_of soldiers duties block_to_shift soldier_node d =
     (case dict_get block_to_shift (d_id d) of None \<Rightarrow> []
      | Some shift_id \<Rightarrow> shift_primary_nodes soldiers duties block_to_shift soldier_node shift_id)"

definition reserve_entry :: "(uuid, uuid list) dict \<Rightarrow> (uuid, uuid) dict \<Rightarrow> uuid list
    \<Rightarrow> SoldierInput \<Rightarrow> int option" where
  "reserve_entry ancestor_cache soldier_node primary_nodes s =
     (case dict_get soldier_node (s_id s) of
        None \<Rightarrow> Some 10
      | Some s_node \<Rightarrow>
          if primary_nodes = [] then Some 10
          else
            (case collect (\<lambda>pn. map_option (\<lambda>k. [k]) (hierarchy_distance_cached s_node pn ancestor_cache))
                    (filter (\<lambda>pn. dict_get ancestor_cache pn \<noteq> None) primary_nodes) of
               None \<Rightarrow> None
             | Some ks \<Rightarrow> if ks = [] then None else Some (Min (set ks))))"

definition compute_reserve_dist :: "SoldierInput list \<Rightarrow> DutyBlock list \<Rightarrow> (uuid, uuid) dict
    \<Rightarrow> parents \<Rightarrow> (uuid, uuid) dict \<Rightarrow> ((nat \<times> nat) \<times> int) list option" where
  "compute_reserve_dist soldiers duties block_to_shift hierarchy_parent soldier_node =
     (let cache = build_ancestor_cache (remdups (map snd soldier_node)) hierarchy_parent
      in collect (\<lambda>(di, d).
           if \<not> d_is_reserve d then Some []
           else collect (\<lambda>(si, s).
                  map_option (\<lambda>k. [((di, si), k)])
                    (reserve_entry cache soldier_node
                       (primary_nodes_of soldiers duties block_to_shift soldier_node d) s))
                (indexed soldiers)) (indexed duties))"

section \<open>Ancestors are what the parent links reach\<close>

inductive ancestor :: "parents \<Rightarrow> uuid \<Rightarrow> uuid \<Rightarrow> bool" for hp where
  ancestor_self: "ancestor hp n n"
| ancestor_up: "parent_of hp n = Some p \<Longrightarrow> ancestor hp p m \<Longrightarrow> ancestor hp n m"

inductive_cases ancestorE: "ancestor hp n m"

lemma ancestor_closed:
  assumes "ancestor hp n m" "n \<in> S" "\<And>x p. x \<in> S \<Longrightarrow> parent_of hp x = Some p \<Longrightarrow> p \<in> S"
  shows "m \<in> S"
  using assms by (induction rule: ancestor.induct) auto

lemma walk_set:
  assumes "\<And>x p. x \<in> set path \<Longrightarrow> parent_of hp x = Some p \<Longrightarrow> p \<in> set path \<or> current = Some p"
  shows "set (walk hp path current) = set path \<union> {m. \<exists>c. current = Some c \<and> ancestor hp c m}"
  using assms
proof (induction hp path current rule: walk.induct)
  case (1 hp path current)
  show ?case
  proof (cases current)
    case None then show ?thesis by (simp add: walk.simps)
  next
    case (Some c)
    show ?thesis
    proof (cases "c \<in> set path")
      case True
      then have "m \<in> set path" if "ancestor hp c m" for m
        using that 1(2) Some by (intro ancestor_closed [OF that]) auto
      then show ?thesis using Some True by (auto simp: walk.simps)
    next
      case False
      have "set (walk hp (path @ [c]) (parent_of hp c))
          = set (path @ [c]) \<union> {m. \<exists>p. parent_of hp c = Some p \<and> ancestor hp p m}"
        using 1(2) Some by (intro 1(1) [OF Some False]) auto
      moreover have "{m. ancestor hp c m} = insert c {m. \<exists>p. parent_of hp c = Some p \<and> ancestor hp p m}"
        by (auto elim: ancestorE intro: ancestor_self ancestor_up)
      ultimately show ?thesis using Some False by (subst walk.simps) auto
    qed
  qed
qed

lemma walk_distinct: "distinct path \<Longrightarrow> distinct (walk hp path current)"
proof (induction hp path current rule: walk.induct)
  case (1 hp path current)
  then show ?case by (subst walk.simps) (auto split: option.split)
qed

section \<open>The distance is a pseudometric\<close>

lemma sym_diff_card:
  "sym_diff_size xs ys = int (card ((set xs - set ys) \<union> (set ys - set xs)))"
proof -
  have l: "length (remdups (filter (\<lambda>x. x \<notin> A) zs)) = card (set zs - A)" for A and zs :: "uuid list"
    by (simp add: length_remdups_card_conv set_diff_eq)
  have "card ((set xs - set ys) \<union> (set ys - set xs)) = card (set xs - set ys) + card (set ys - set xs)"
    by (rule card_Un_disjoint) auto
  then show ?thesis by (simp add: sym_diff_size_def l)
qed

lemma sym_diff_triangle: "sym_diff_size xs zs \<le> sym_diff_size xs ys + sym_diff_size ys zs"
proof -
  let ?A = "(set xs - set ys) \<union> (set ys - set xs)" and ?B = "(set ys - set zs) \<union> (set zs - set ys)"
  have "card ((set xs - set zs) \<union> (set zs - set xs)) \<le> card (?A \<union> ?B)"
    by (rule card_mono) auto
  also have "\<dots> \<le> card ?A + card ?B" by (rule card_Un_le)
  finally show ?thesis by (simp add: sym_diff_card)
qed

lemma cached_eq:
  assumes "a \<in> set nodes" "b \<in> set nodes"
  shows "hierarchy_distance_cached a b (build_ancestor_cache nodes hp) = Some (hierarchy_distance a b hp)"
proof -
  have "dict_get (build_ancestor_cache nodes hp) n = (if n \<in> set nodes then Some (node_ancestors n hp) else None)"
    for n unfolding dict_get_def build_ancestor_cache_def by (induction nodes) auto
  with assms show ?thesis by (simp add: hierarchy_distance_cached_def hierarchy_distance_def)
qed

lemma cache_get:
  "dict_get (build_ancestor_cache nodes hp) n = (if n \<in> set nodes then Some (node_ancestors n hp) else None)"
  unfolding dict_get_def build_ancestor_cache_def by (induction nodes) auto

lemma node_known: "dict_get soldier_node s = Some n \<Longrightarrow> n \<in> set (remdups (map snd soldier_node))"
  unfolding dict_get_def by (auto dest!: map_of_SomeD intro: rev_image_eqI)

lemma collect_Some:
  assumes "\<And>x. x \<in> set xs \<Longrightarrow> f x = Some (g x)"
  shows "collect f xs = Some (concat (map g xs))"
  using assms by (induction xs) auto

section \<open>Every link is a nearest one\<close>

text \<open>The distance the linker uses for a pair of soldiers, and what a link promises.\<close>

definition pair_distance :: "(uuid, uuid) dict \<Rightarrow> parents \<Rightarrow> uuid \<Rightarrow> uuid \<Rightarrow> int" where
  "pair_distance soldier_node hp p r =
     (case (dict_get soldier_node p, dict_get soldier_node r) of
        (Some p_node, Some r_node) \<Rightarrow> hierarchy_distance p_node r_node hp | _ \<Rightarrow> 10)"

definition candidates_for :: "shift_assignment list \<Rightarrow> uuid \<Rightarrow> (uuid \<times> uuid) list" where
  "candidates_for rs sh = map (\<lambda>(aid, sid, _). (aid, sid)) (filter (\<lambda>(_, _, x). x = sh) rs)"

definition nearest_link :: "shift_assignment list \<Rightarrow> (uuid, uuid) dict \<Rightarrow> parents
    \<Rightarrow> shift_assignment \<Rightarrow> ReserveLink list \<Rightarrow> bool" where
  "nearest_link rs soldier_node hp p ls =
     (case p of (paid, psid, sh) \<Rightarrow>
       (case ls of
          [] \<Rightarrow> list_all (\<lambda>(_, r). 999 \<le> pair_distance soldier_node hp psid r) (candidates_for rs sh)
        | [l] \<Rightarrow> l_primary_assignment_id l = paid
            \<and> list_ex (\<lambda>(aid, r). l_reserve_assignment_id l = aid
                  \<and> l_hierarchy_distance l = pair_distance soldier_node hp psid r) (candidates_for rs sh)
            \<and> list_all (\<lambda>(_, r). l_hierarchy_distance l \<le> pair_distance soldier_node hp psid r)
                (candidates_for rs sh)
        | _ \<Rightarrow> False))"

lemma by_shift_get: "dict_get_or (reserves_by_shift rs) sh [] = candidates_for rs sh"
proof -
  have "dict_get_or (fold (\<lambda>(aid, sid, shift) m. dict_append m shift (aid, sid)) rs m) sh []
      = dict_get_or m sh [] @ candidates_for rs sh" for m
    by (induction rs arbitrary: m) (auto simp: candidates_for_def)
  from this [of "[]"] show ?thesis by (simp add: reserves_by_shift_def dict_get_or_def dict_get_def)
qed

lemma best_candidate_spec:
  assumes f: "\<And>r. f r = Some (g r)"
  shows "\<exists>b k. best_candidate f cs (b0, k0) = Some (b, k) \<and> k \<le> k0
     \<and> (\<forall>(a, r) \<in> set cs. k \<le> g r)
     \<and> ((b, k) = (b0, k0) \<or> (\<exists>a r. (a, r) \<in> set cs \<and> b = Some a \<and> k = g r))"
proof (induction cs arbitrary: b0 k0)
  case Nil then show ?case by simp
next
  case (Cons c cs)
  obtain a r where c: "c = (a, r)" by (cases c)
  define n where "n = (if g r < k0 then (Some a, g r) else (b0, k0))"
  obtain b1 k1 where n: "n = (b1, k1)" by (cases n)
  obtain b k where ih: "best_candidate f cs (b1, k1) = Some (b, k)" "k \<le> k1"
     "\<forall>(a, r) \<in> set cs. k \<le> g r"
     "(b, k) = (b1, k1) \<or> (\<exists>a r. (a, r) \<in> set cs \<and> b = Some a \<and> k = g r)"
    using Cons.IH [of b1 k1] by blast
  have s: "best_candidate f (c # cs) (b0, k0) = Some (b, k)"
    using ih(1) n by (simp add: c n_def f)
  have k: "k1 \<le> k0" "k1 \<le> g r" "(b1, k1) = (b0, k0) \<or> (b1 = Some a \<and> k1 = g r)"
    using n by (auto simp: n_def split: if_splits)
  have w: "(b, k) = (b0, k0) \<or> (\<exists>a' r'. (a', r') \<in> set (c # cs) \<and> b = Some a' \<and> k = g r')"
    using ih(4) k(3) unfolding c by auto
  show ?case
    by (intro exI [of _ b] exI [of _ k] conjI s w) (use ih(2,3) k(1,2) c in auto)
qed

lemma candidate_distance_eq:
  assumes "dict_get soldier_node p = Some p_node"
  shows "candidate_distance soldier_node hp
      (build_ancestor_cache (remdups (map snd soldier_node)) hp) p_node r
    = Some (pair_distance soldier_node hp p r)"
  using node_known [OF assms] assms
  by (auto simp: candidate_distance_def pair_distance_def cached_eq cache_get
      simp del: set_remdups split: option.splits dest: node_known)

lemma link_primary_nearest:
  "\<exists>ls. link_primary (reserves_by_shift rs) soldier_node hp
      (build_ancestor_cache (remdups (map snd soldier_node)) hp) p = Some ls
    \<and> nearest_link rs soldier_node hp p ls"
proof -
  obtain paid psid sh where p: "p = (paid, psid, sh)" by (cases p)
  show ?thesis
  proof (cases "candidates_for rs sh")
    case Nil then show ?thesis by (simp add: p link_primary_def by_shift_get nearest_link_def)
  next
    case (Cons c cs)
    obtain a0 r0 where c: "c = (a0, r0)" by (cases c)
    show ?thesis
    proof (cases "dict_get soldier_node psid")
      case None
      then have "pair_distance soldier_node hp psid r = 10" for r by (simp add: pair_distance_def)
      with None Cons c show ?thesis
        by (simp add: p link_primary_def by_shift_get nearest_link_def list_all_iff)
    next
      case (Some p_node)
      let ?f = "candidate_distance soldier_node hp
          (build_ancestor_cache (remdups (map snd soldier_node)) hp) p_node"
      let ?g = "pair_distance soldier_node hp psid"
      obtain b k where bk: "best_candidate ?f (c # cs) (None, 999) = Some (b, k)" "k \<le> 999"
        "\<forall>(a, r) \<in> set (c # cs). k \<le> ?g r"
        "(b, k) = (None, 999) \<or> (\<exists>a r. (a, r) \<in> set (c # cs) \<and> b = Some a \<and> k = ?g r)"
        using best_candidate_spec [of ?f ?g "c # cs" None 999, OF candidate_distance_eq [OF Some]] by blast
      show ?thesis
      proof (cases b)
        case None
        then have "k = 999" using bk(4) by auto
        then show ?thesis using bk(1,3) None Some Cons
          by (auto simp: p c link_primary_def by_shift_get nearest_link_def list_all_iff)
      next
        case (Some a)
        then obtain r where "(a, r) \<in> set (c # cs)" "k = ?g r" using bk(4) by auto
        then show ?thesis using bk(1,3) Some \<open>dict_get soldier_node psid = Some p_node\<close> Cons
          by (auto simp: p c link_primary_def by_shift_get nearest_link_def list_all_iff list_ex_iff)
      qed
    qed
  qed
qed

lemma collect_pointwise:
  assumes "\<And>x. x \<in> set xs \<Longrightarrow> \<exists>ys. f x = Some ys \<and> P x ys"
  shows "\<exists>yss. collect f xs = Some (concat yss) \<and> list_all2 P xs yss"
  using assms
proof (induction xs)
  case Nil then show ?case by (intro exI [of _ "[]"]) simp
next
  case (Cons x xs)
  obtain ys where "f x = Some ys" "P x ys" using Cons.prems by auto
  moreover obtain yss where "collect f xs = Some (concat yss)" "list_all2 P xs yss"
    using Cons by auto
  ultimately show ?case by (intro exI [of _ "ys # yss"]) simp
qed

text \<open>
  Ancestor sets and distances are those of the hierarchy.  The walk ends on every
  parent table, also a cyclic one, and collects exactly the nodes the parent links reach,
  each once; the distance is the number of nodes above one of the two but not both, so it is
  zero from a node to itself, symmetric, and obeys the triangle inequality.
\<close>

theorem ancestors_and_distance:
  "set (node_ancestors n hp) = {m. ancestor hp n m} \<and> distinct (node_ancestors n hp)
   \<and> hierarchy_distance n n hp = 0
   \<and> hierarchy_distance n m hp = hierarchy_distance m n hp
   \<and> hierarchy_distance n k hp \<le> hierarchy_distance n m hp + hierarchy_distance m k hp"
proof (intro conjI)
  show "set (node_ancestors n hp) = {m. ancestor hp n m}"
    using walk_set [of "[]" hp "Some n"] by (simp add: node_ancestors_def)
  show "hierarchy_distance n m hp = hierarchy_distance m n hp"
    by (simp add: hierarchy_distance_def sym_diff_card Un_commute)
qed (simp_all add: node_ancestors_def walk_distinct hierarchy_distance_def sym_diff_card
    sym_diff_triangle [unfolded sym_diff_card])

text \<open>
  Reserve linking never fails and is optimal: the links are, primary by primary, at
  most one each; a link names a reserve of the same shift whose hierarchy distance to the
  primary is the least among all reserves of that shift (10 when either soldier has no
  node), and a primary stays without a link only when no reserve of its shift is nearer
  than the cut-off 999.
\<close>

theorem link_reserves_nearest:
  "\<exists>lss. link_reserves ps rs soldier_node hp = Some (concat lss)
     \<and> list_all2 (nearest_link rs soldier_node hp) ps lss"
  unfolding link_reserves_def by (rule collect_pointwise) (rule link_primary_nearest)

section \<open>The objective's reserve distances\<close>

lemma sym_diff_nonneg: "0 \<le> sym_diff_size xs ys"
  by (simp add: sym_diff_size_def)

lemma sym_diff_self: "sym_diff_size xs xs = 0"
  by (simp add: sym_diff_card)

lemma reserve_entry_values:
  assumes n: "\<And>n. n \<in> set pn \<Longrightarrow> n \<in> set (remdups (map snd soldier_node))"
    and own: "\<And>n. dict_get soldier_node (s_id s) = Some n \<Longrightarrow> pn \<noteq> [] \<Longrightarrow> n \<in> set pn"
  shows "reserve_entry (build_ancestor_cache (remdups (map snd soldier_node)) hp) soldier_node pn s
    = Some (if dict_get soldier_node (s_id s) = None \<or> pn = [] then 10 else 0)"
proof (cases "dict_get soldier_node (s_id s)")
  case None then show ?thesis by (simp add: reserve_entry_def)
next
  case (Some m)
  let ?cache = "build_ancestor_cache (remdups (map snd soldier_node)) hp"
  show ?thesis
  proof (cases "pn = []")
    case True then show ?thesis using Some by (simp add: reserve_entry_def)
  next
    case False
    have flt: "filter (\<lambda>x. dict_get ?cache x \<noteq> None) pn = pn"
      by (rule filter_True) (use n in \<open>auto simp: cache_get simp del: set_remdups\<close>)
    have c: "collect (\<lambda>x. map_option (\<lambda>k. [k]) (hierarchy_distance_cached m x ?cache)) pn
        = Some (concat (map (\<lambda>x. [hierarchy_distance m x hp]) pn))"
      by (rule collect_Some) (simp add: cached_eq [OF node_known [OF Some] n])
    have ks: "concat (map (\<lambda>x. [hierarchy_distance m x hp]) pn) = map (\<lambda>x. hierarchy_distance m x hp) pn"
      by simp
    have "Min (set (map (\<lambda>x. hierarchy_distance m x hp) pn)) = 0"
      by (rule Min_eqI)
        (use own [OF Some False] in \<open>auto simp: hierarchy_distance_def sym_diff_nonneg sym_diff_self
           intro!: rev_image_eqI [of m]\<close>)
    then show ?thesis using Some False unfolding reserve_entry_def Some option.case flt c by simp
  qed
qed

lemma primary_nodes_known:
  "n \<in> set (primary_nodes_of soldiers duties b2s soldier_node d) \<Longrightarrow> n \<in> set (remdups (map snd soldier_node))"
  by (auto simp: primary_nodes_of_def shift_primary_nodes_def simp del: set_remdups
      split: option.splits if_splits dest!: node_known [of soldier_node, OF sym])

lemma primary_nodes_own:
  assumes "s \<in> set soldiers" "dict_get soldier_node (s_id s) = Some n"
    and "primary_nodes_of soldiers duties b2s soldier_node d \<noteq> []"
  shows "n \<in> set (primary_nodes_of soldiers duties b2s soldier_node d)"
proof -
  let ?ds = "\<lambda>sh. filter (\<lambda>d. \<not> d_is_reserve d \<and> dict_get b2s (d_id d) = Some sh) duties"
  obtain sh where sh: "dict_get b2s (d_id d) = Some sh" "?ds sh \<noteq> []"
    using assms(3) unfolding primary_nodes_of_def shift_primary_nodes_def
    by (cases "dict_get b2s (d_id d)") (auto simp: filter_empty_conv split: option.splits)
  then have "hd (?ds sh) \<in> set (?ds sh)" by (intro hd_in_set)
  moreover have "n \<in> set (concat (map (\<lambda>s. case dict_get soldier_node (s_id s) of None \<Rightarrow> []
      | Some node \<Rightarrow> [node]) soldiers))"
    using assms(1,2) by force
  ultimately show ?thesis using sh(1)
    unfolding primary_nodes_of_def shift_primary_nodes_def set_concat set_map by auto
qed

lemma concat_singletons: "concat (map (\<lambda>x. [f x]) xs) = map f xs"
  by (induction xs) auto

lemma indexed_snd: "(i, x) \<in> set (indexed xs) \<Longrightarrow> x \<in> set xs"
  by (auto simp: indexed_def dest: set_zip_rightD)

text \<open>
  The distance table of the objective always exists and knows two values only: since
  the nodes it measures against are those of all soldiers, a reserve candidate with a node
  is at distance 0 as soon as its shift has a primary duty and a noded soldier, and every
  other candidate is at 10.
\<close>

theorem reserve_dist_two_values:
  "compute_reserve_dist soldiers duties b2s hp soldier_node =
     Some (concat (map (\<lambda>(di, d).
       if \<not> d_is_reserve d then []
       else map (\<lambda>(si, s). ((di, si),
              if dict_get soldier_node (s_id s) = None
                 \<or> primary_nodes_of soldiers duties b2s soldier_node d = [] then 10 else 0))
            (indexed soldiers)) (indexed duties)))"
proof -
  let ?cache = "build_ancestor_cache (remdups (map snd soldier_node)) hp"
  let ?pn = "primary_nodes_of soldiers duties b2s soldier_node"
  let ?v = "\<lambda>d s. if dict_get soldier_node (s_id s) = None \<or> ?pn d = [] then 10 else (0 :: int)"
  have e: "reserve_entry ?cache soldier_node (?pn d) s = Some (?v d s)"
    if "(si, s) \<in> set (indexed soldiers)" for d s si
    by (rule reserve_entry_values)
      (use primary_nodes_known primary_nodes_own [OF indexed_snd [OF that]] in blast)+
  have inner: "collect (\<lambda>(si, s). map_option (\<lambda>k. [((di, si), k)]) (reserve_entry ?cache soldier_node (?pn d) s))
       (indexed soldiers)
     = Some (map (\<lambda>(si, s). ((di, si), ?v d s)) (indexed soldiers))" for di :: nat and d
  proof -
    have "collect (\<lambda>(si, s). map_option (\<lambda>k. [((di, si), k)]) (reserve_entry ?cache soldier_node (?pn d) s))
       (indexed soldiers)
     = Some (concat (map (\<lambda>(si, s). [((di, si), ?v d s)]) (indexed soldiers)))"
      by (rule collect_Some) (use e in \<open>simp only: split_paired_all prod.case option.map\<close>)
    also have "concat (map (\<lambda>(si, s). [((di, si), ?v d s)]) (indexed soldiers))
      = map (\<lambda>(si, s). ((di, si), ?v d s)) (indexed soldiers)"
      by (simp add: concat_singletons case_prod_unfold)
    finally show ?thesis .
  qed
  show ?thesis unfolding compute_reserve_dist_def Let_def
    by (rule collect_Some) (auto simp: inner split: prod.splits)
qed

end
