(* ===== verification/Org.thy ===== *)
theory Org
  imports Reserve Batching "HOL-Library.List_Lexorder"
begin

text \<open>
  The organisation of \<open>services/hierarchy.py\<close>, \<open>services/dm_scope.py\<close>,
  \<open>services/deputies.py\<close> and \<open>auth/authz.py\<close>: level types, nodes with their
  materialized root-to-self paths, people, duty-manager scopes and deputy grants.  The
  tables the code reads and writes through its session are the fields of one record; a row
  is found by its primary key, and the identifier of a new row, which the database
  generates, is an argument.  An operation gives \<open>Inl\<close> of the exception it raises, and
  then the transaction is rolled back, or \<open>Inr\<close> of the new tables.  Text is a list of
  bytes, UTF-8 where the source has Hebrew.  An audit row keeps who, what and on which row;
  its payload, notifications of external calendars and time stamps are not modelled.
\<close>

section \<open>Tables\<close>

record HierarchyLevelType =
  t_id :: uuid
  t_key :: string
  t_label :: string
  t_rank :: int

record HierarchyNode =
  n_id :: uuid
  n_level :: string
  n_name :: string
  n_parent_id :: "uuid option"
  n_commander_id :: "uuid option"
  n_path_ids :: "uuid list"

datatype Role = Admin | Commander | Duty_manager | Plain_soldier

record Person =
  p_id :: uuid
  p_name :: string
  p_role :: Role
  p_node_id :: "uuid option"

record DutyManagerScope =
  g_id :: uuid
  g_manager_id :: uuid
  g_node_id :: uuid

datatype DeputyRole = Deputy_commander | Deputy_duty_manager

record RoleDeputy =
  y_id :: uuid
  y_principal_id :: uuid
  y_deputy_id :: uuid
  y_role :: DeputyRole
  y_start_date :: date
  y_end_date :: date

record AuditLog =
  u_actor_id :: "uuid option"
  u_action :: string
  u_entity_id :: "uuid option"

record org =
  o_levels :: "HierarchyLevelType list"
  o_nodes :: "HierarchyNode list"
  o_people :: "Person list"
  o_scopes :: "DutyManagerScope list"
  o_deputies :: "RoleDeputy list"
  o_audit :: "AuditLog list"

definition write_audit :: "uuid option \<Rightarrow> string \<Rightarrow> uuid option \<Rightarrow> org \<Rightarrow> org" where
  "write_audit actor_id action entity_id s = s\<lparr>o_audit := o_audit s @
     [\<lparr>u_actor_id = actor_id, u_action = action, u_entity_id = entity_id\<rparr>]\<rparr>"

definition node_of :: "org \<Rightarrow> uuid \<Rightarrow> HierarchyNode option" where
  "node_of s i = find (\<lambda>n. n_id n = i) (o_nodes s)"

definition person_of :: "org \<Rightarrow> uuid \<Rightarrow> Person option" where
  "person_of s i = find (\<lambda>p. p_id p = i) (o_people s)"

definition update_node :: "uuid \<Rightarrow> (HierarchyNode \<Rightarrow> HierarchyNode) \<Rightarrow> org \<Rightarrow> org" where
  "update_node i f s = s\<lparr>o_nodes := map (\<lambda>n. if n_id n = i then f n else n) (o_nodes s)\<rparr>"

definition update_person :: "uuid \<Rightarrow> (Person \<Rightarrow> Person) \<Rightarrow> org \<Rightarrow> org" where
  "update_person i f s = s\<lparr>o_people := map (\<lambda>p. if p_id p = i then f p else p) (o_people s)\<rparr>"

section \<open>Levels and distances\<close>

definition hebrew :: "nat list \<Rightarrow> string" where
  "hebrew cs = concat (map (\<lambda>c. [CHR 0xD7, char_of (0x90 + c :: nat)]) cs)"

text \<open>\<open>_SEEDED_LEVEL_LABEL_KEYS\<close>: a letter is its offset from U+05D0.\<close>

definition SEEDED_LEVEL_LABEL_KEYS :: "(string \<times> string) list" where
  "SEEDED_LEVEL_LABEL_KEYS =
     [(hebrew [0, 2, 19], ''corps''), (hebrew [14, 18, 24, 10], ''division''),
      (hebrew [9, 7, 9, 3, 4], ''unit''), (hebrew [14, 24, 11, 6], ''department''),
      (hebrew [18, 16, 19], ''branch''), (hebrew [14, 3, 5, 24], ''group''),
      (hebrew [22, 5, 5, 26], ''team''), (hebrew [7, 5, 12, 9, 4], ''squad'')]"

definition rank_of_key :: "org \<Rightarrow> string \<Rightarrow> int option" where
  "rank_of_key s key = map_option t_rank (find (\<lambda>t. t_key t = key) (o_levels s))"

definition get_level_rank :: "org \<Rightarrow> string \<Rightarrow> int option" where
  "get_level_rank s level_key =
     (case rank_of_key s level_key of Some r \<Rightarrow> Some r
      | None \<Rightarrow> (case map_of SEEDED_LEVEL_LABEL_KEYS level_key of None \<Rightarrow> None
                 | Some seeded_key \<Rightarrow> rank_of_key s seeded_key))"

definition UNREACHABLE_DISTANCE :: int where
  "UNREACHABLE_DISTANCE = 1000000"

definition node_distance :: "org \<Rightarrow> uuid option \<Rightarrow> uuid option \<Rightarrow> int" where
  "node_distance s node_a node_b =
     (case (node_a, node_b) of
        (Some i, Some j) \<Rightarrow>
          if i = j then 0
          else (case (node_of s i, node_of s j) of
                  (Some a, Some b) \<Rightarrow> sym_diff_size (n_path_ids a) (n_path_ids b)
                | _ \<Rightarrow> UNREACHABLE_DISTANCE)
      | _ \<Rightarrow> UNREACHABLE_DISTANCE)"

text \<open>
  The dictionary comprehension keeps the last row of a level; the rows come in the order
  of the table.
\<close>

definition ancestor_id_at_level :: "org \<Rightarrow> uuid \<Rightarrow> string \<Rightarrow> uuid option" where
  "ancestor_id_at_level s node_id level =
     (case node_of s node_id of None \<Rightarrow> None
      | Some node \<Rightarrow>
          map_option n_id (find (\<lambda>n. n_level n = level)
            (rev (filter (\<lambda>n. n_id n \<in> set (n_path_ids node @ [n_id node])) (o_nodes s)))))"

section \<open>Nodes\<close>

datatype org_error = Unknown_level | Parent_not_found | Child_level_must_be_below_parent
  | Node_not_found | Node_cannot_be_own_parent | Cannot_move_under_own_descendant
  | Node_level_must_be_below_new_parent | Commander_not_found
  | Cannot_delete_node_with_children | Cannot_delete_node_with_soldiers
  | Level_type_key_exists | Level_type_not_found | Cannot_delete_level_type_in_use
  | Invalid_level_for_position | Ordered_ids_mismatch
  | Reorder_would_violate_tree "(uuid \<times> uuid) list"
  | Soldier_not_found | Scope_entry_not_found
  | Invalid_date_range | Cannot_deputize_self | Principal_not_found | Deputy_not_found
  | Principal_lacks_role | Cannot_deputize_a_deputy | Already_exists | Deputy_grant_not_found
  | Integrity_error | Value_error

definition below :: "int option \<Rightarrow> int option \<Rightarrow> bool" where
  "below child_rank parent_rank =
     (case (child_rank, parent_rank) of (Some c, Some p) \<Rightarrow> p < c | _ \<Rightarrow> False)"

definition create_node :: "org \<Rightarrow> uuid \<Rightarrow> string \<Rightarrow> string \<Rightarrow> uuid option \<Rightarrow> uuid option
    \<Rightarrow> uuid option \<Rightarrow> org_error + org" where
  "create_node s new_id level name parent_id commander_id actor_id =
     (if get_level_rank s level = None then Inl Unknown_level
      else
       (case (case parent_id of None \<Rightarrow> Inr []
              | Some i \<Rightarrow>
                  (case node_of s i of None \<Rightarrow> Inl Parent_not_found
                   | Some parent \<Rightarrow>
                       if \<not> below (get_level_rank s level) (get_level_rank s (n_level parent))
                       then Inl Child_level_must_be_below_parent
                       else Inr (n_path_ids parent))) of
          Inl e \<Rightarrow> Inl e
        | Inr base \<Rightarrow>
            if (case commander_id of None \<Rightarrow> False | Some c \<Rightarrow> person_of s c = None)
            then Inl Integrity_error
            else Inr (write_audit actor_id ''hierarchy_node.create'' (Some new_id)
                   (s\<lparr>o_nodes := o_nodes s @
                      [\<lparr>n_id = new_id, n_level = level, n_name = name, n_parent_id = parent_id,
                        n_commander_id = commander_id, n_path_ids = base @ [new_id]\<rparr>]\<rparr>))))"

definition move_base :: "org \<Rightarrow> HierarchyNode \<Rightarrow> uuid option \<Rightarrow> org_error + uuid list" where
  "move_base s node new_parent_id =
     (case new_parent_id of None \<Rightarrow> Inr []
      | Some i \<Rightarrow>
          if i = n_id node then Inl Node_cannot_be_own_parent
          else (case node_of s i of None \<Rightarrow> Inl Parent_not_found
                | Some parent \<Rightarrow>
                    if n_id node \<in> set (n_path_ids parent) then Inl Cannot_move_under_own_descendant
                    else if \<not> below (get_level_rank s (n_level node)) (get_level_rank s (n_level parent))
                    then Inl Node_level_must_be_below_new_parent
                    else Inr (n_path_ids parent)))"

definition moved :: "HierarchyNode \<Rightarrow> uuid option \<Rightarrow> uuid list \<Rightarrow> HierarchyNode \<Rightarrow> HierarchyNode" where
  "moved node new_parent_id new_node_path d =
     (if n_id d = n_id node then d\<lparr>n_parent_id := new_parent_id, n_path_ids := new_node_path\<rparr>
      else if n_id node \<in> set (n_path_ids d)
      then d\<lparr>n_path_ids := new_node_path @ drop (length (n_path_ids node)) (n_path_ids d)\<rparr>
      else d)"

definition move_node :: "org \<Rightarrow> uuid \<Rightarrow> uuid option \<Rightarrow> uuid option \<Rightarrow> org_error + org" where
  "move_node s node_id new_parent_id actor_id =
     (case node_of s node_id of None \<Rightarrow> Inl Node_not_found
      | Some node \<Rightarrow>
          (case move_base s node new_parent_id of
             Inl e \<Rightarrow> Inl e
           | Inr new_base \<Rightarrow>
               Inr (write_audit actor_id ''hierarchy_node.move'' (Some node_id)
                 (s\<lparr>o_nodes := map (moved node new_parent_id (new_base @ [node_id])) (o_nodes s)\<rparr>))))"

definition rename_node :: "org \<Rightarrow> uuid \<Rightarrow> string \<Rightarrow> uuid option \<Rightarrow> org_error + org" where
  "rename_node s node_id name actor_id =
     (if node_of s node_id = None then Inl Node_not_found
      else Inr (write_audit actor_id ''hierarchy_node.rename'' (Some node_id)
             (update_node node_id (n_name_update (\<lambda>_. name)) s)))"

text \<open>
  \<open>referenced\<close> holds the nodes that rows of tables outside the model (shifts, ranges,
  transfer requests) point to; deleting one of them breaks a foreign key.
\<close>

definition delete_node :: "org \<Rightarrow> uuid set \<Rightarrow> uuid \<Rightarrow> uuid option \<Rightarrow> org_error + org" where
  "delete_node s referenced node_id actor_id =
     (if node_of s node_id = None then Inl Node_not_found
      else if list_ex (\<lambda>n. n_parent_id n = Some node_id) (o_nodes s)
      then Inl Cannot_delete_node_with_children
      else if list_ex (\<lambda>p. p_node_id p = Some node_id) (o_people s)
      then Inl Cannot_delete_node_with_soldiers
      else if node_id \<in> referenced then Inl Integrity_error
      else Inr (write_audit actor_id ''hierarchy_node.delete'' (Some node_id)
             (s\<lparr>o_nodes := filter (\<lambda>n. n_id n \<noteq> node_id) (o_nodes s),
                o_scopes := filter (\<lambda>g. g_node_id g \<noteq> node_id) (o_scopes s)\<rparr>)))"

section \<open>Level types\<close>

definition create_level_type :: "org \<Rightarrow> uuid \<Rightarrow> string \<Rightarrow> string \<Rightarrow> uuid option \<Rightarrow> org_error + org" where
  "create_level_type s new_id key label actor_id =
     (if list_ex (\<lambda>t. t_key t = key) (o_levels s) then Inl Level_type_key_exists
      else
        (let max_rank = (if o_levels s = [] then 0 else Max (set (map t_rank (o_levels s))))
         in Inr (write_audit actor_id ''hierarchy_level_type.create'' (Some new_id)
              (s\<lparr>o_levels := o_levels s @
                 [\<lparr>t_id = new_id, t_key = key, t_label = label, t_rank = max_rank + 1\<rparr>]\<rparr>))))"

definition delete_level_type :: "org \<Rightarrow> uuid \<Rightarrow> uuid option \<Rightarrow> org_error + org" where
  "delete_level_type s i actor_id =
     (case find (\<lambda>t. t_id t = i) (o_levels s) of None \<Rightarrow> Inl Level_type_not_found
      | Some level_type \<Rightarrow>
          if list_ex (\<lambda>n. n_level n = t_key level_type) (o_nodes s)
          then Inl Cannot_delete_level_type_in_use
          else Inr (write_audit actor_id ''hierarchy_level_type.delete'' (Some i)
                 (s\<lparr>o_levels := filter (\<lambda>t. t_id t \<noteq> i) (o_levels s)\<rparr>)))"

definition change_node_level :: "org \<Rightarrow> uuid \<Rightarrow> string \<Rightarrow> uuid option \<Rightarrow> org_error + org" where
  "change_node_level s node_id level actor_id =
     (case node_of s node_id of None \<Rightarrow> Inl Node_not_found
      | Some node \<Rightarrow>
          if get_level_rank s level = None then Inl Unknown_level
          else if (case n_parent_id node of None \<Rightarrow> False
                   | Some i \<Rightarrow> \<not> below (get_level_rank s level)
                       (case node_of s i of None \<Rightarrow> None
                        | Some parent \<Rightarrow> get_level_rank s (n_level parent)))
          then Inl Invalid_level_for_position
          else if list_ex (\<lambda>c. n_parent_id c = Some node_id
                     \<and> \<not> below (get_level_rank s (n_level c)) (get_level_rank s level)) (o_nodes s)
          then Inl Invalid_level_for_position
          else Inr (write_audit actor_id ''hierarchy_node.change_level'' (Some node_id)
                 (update_node node_id (n_level_update (\<lambda>_. level)) s)))"

text \<open>
  Reordering.  \<open>new_rank\<close> is \<open>new_rank_by_id\<close>; the violations name parent and child.  The
  ranks are written in two flushes, first shifted past every rank in use.
\<close>

definition new_rank :: "uuid list \<Rightarrow> uuid \<Rightarrow> int option" where
  "new_rank ordered_ids i =
     dict_get (fold (\<lambda>(k, j) m. dict_set m j (int k + 1)) (indexed ordered_ids) []) i"

definition new_rank_of_key :: "org \<Rightarrow> uuid list \<Rightarrow> string \<Rightarrow> int option" where
  "new_rank_of_key s ordered_ids key =
     (case find (\<lambda>t. t_key t = key) (rev (o_levels s)) of None \<Rightarrow> None
      | Some t \<Rightarrow> new_rank ordered_ids (t_id t))"

definition reorder_violations :: "org \<Rightarrow> uuid list \<Rightarrow> (uuid \<times> uuid) list" where
  "reorder_violations s ordered_ids =
     concat (map (\<lambda>n. case n_parent_id n of None \<Rightarrow> []
       | Some i \<Rightarrow> (case node_of s i of None \<Rightarrow> []
          | Some parent \<Rightarrow>
              (case (new_rank_of_key s ordered_ids (n_level n),
                     new_rank_of_key s ordered_ids (n_level parent)) of
                 (Some child_rank, Some parent_rank) \<Rightarrow>
                   if child_rank \<le> parent_rank then [(n_id parent, n_id n)] else []
               | _ \<Rightarrow> []))) (o_nodes s))"

definition rank_offset :: "org \<Rightarrow> int" where
  "rank_offset s = int (length (o_levels s)) + Max (set (map t_rank (o_levels s))) + 1"

definition set_rank :: "uuid list \<Rightarrow> int \<Rightarrow> HierarchyLevelType \<Rightarrow> HierarchyLevelType" where
  "set_rank ordered_ids offset t =
     (case new_rank ordered_ids (t_id t) of None \<Rightarrow> t | Some r \<Rightarrow> t\<lparr>t_rank := r + offset\<rparr>)"

definition reorder_level_types :: "org \<Rightarrow> uuid list \<Rightarrow> uuid option \<Rightarrow> org_error + org" where
  "reorder_level_types s ordered_ids actor_id =
     (if set (map t_id (o_levels s)) \<noteq> set ordered_ids
         \<or> length ordered_ids \<noteq> length (o_levels s) then Inl Ordered_ids_mismatch
      else if reorder_violations s ordered_ids \<noteq> []
      then Inl (Reorder_would_violate_tree (reorder_violations s ordered_ids))
      else if o_levels s = [] then Inl Value_error
      else
        (let s1 = s\<lparr>o_levels := map (set_rank ordered_ids (rank_offset s)) (o_levels s)\<rparr>;
             s2 = s1\<lparr>o_levels := map (set_rank ordered_ids 0) (o_levels s1)\<rparr>
         in Inr (write_audit actor_id ''hierarchy_level_type.reorder'' None s2)))"

section \<open>Roles\<close>

definition active_principal_ids :: "org \<Rightarrow> uuid \<Rightarrow> DeputyRole \<Rightarrow> date \<Rightarrow> uuid list" where
  "active_principal_ids s deputy_id role today =
     map y_principal_id (filter (\<lambda>y. y_deputy_id y = deputy_id \<and> y_role y = role
       \<and> y_start_date y \<le> today \<and> y_end_date y \<ge> today) (o_deputies s))"

definition commanded_node_ids :: "org \<Rightarrow> uuid \<Rightarrow> date \<Rightarrow> uuid list" where
  "commanded_node_ids s soldier_id today =
     map n_id (filter (\<lambda>n. case n_commander_id n of None \<Rightarrow> False
       | Some c \<Rightarrow> c = soldier_id
           \<or> c \<in> set (active_principal_ids s soldier_id Deputy_commander today)) (o_nodes s))"

definition dm_scope_node_ids :: "org \<Rightarrow> uuid \<Rightarrow> date \<Rightarrow> uuid list" where
  "dm_scope_node_ids s soldier_id today =
     map g_node_id (filter (\<lambda>g. g_manager_id g = soldier_id
       \<or> g_manager_id g \<in> set (active_principal_ids s soldier_id Deputy_duty_manager today))
       (o_scopes s))"

definition is_commander :: "org \<Rightarrow> uuid \<Rightarrow> date \<Rightarrow> bool" where
  "is_commander s soldier_id today = (commanded_node_ids s soldier_id today \<noteq> [])"

definition is_duty_manager :: "org \<Rightarrow> uuid \<Rightarrow> date \<Rightarrow> bool" where
  "is_duty_manager s soldier_id today = (dm_scope_node_ids s soldier_id today \<noteq> [])"

definition recompute_role :: "date \<Rightarrow> uuid \<Rightarrow> org \<Rightarrow> org" where
  "recompute_role today i s = update_person i (\<lambda>p.
     if p_role p = Admin then p
     else p\<lparr>p_role := (if is_commander s i today then Commander
                       else if is_duty_manager s i today then Duty_manager
                       else Plain_soldier)\<rparr>) s"

text \<open>A commander commands one node: taking over a node clears him from every other.\<close>

definition take_over :: "uuid \<Rightarrow> uuid \<Rightarrow> org \<Rightarrow> org" where
  "take_over node_id commander s =
     update_person commander (p_node_id_update (\<lambda>_. Some node_id))
       (s\<lparr>o_nodes := map (\<lambda>n. if n_commander_id n = Some commander \<and> n_id n \<noteq> node_id
                             then n\<lparr>n_commander_id := None\<rparr> else n) (o_nodes s)\<rparr>)"

definition set_commander :: "org \<Rightarrow> date \<Rightarrow> uuid \<Rightarrow> uuid option \<Rightarrow> uuid option \<Rightarrow> org_error + org" where
  "set_commander s today node_id commander_id actor_id =
     (case node_of s node_id of None \<Rightarrow> Inl Node_not_found
      | Some node \<Rightarrow>
          if (case commander_id of None \<Rightarrow> False | Some c \<Rightarrow> person_of s c = None)
          then Inl Commander_not_found
          else
            (let previous = n_commander_id node;
                 s1 = (case commander_id of None \<Rightarrow> s | Some c \<Rightarrow> take_over node_id c s);
                 s2 = update_node node_id (n_commander_id_update (\<lambda>_. commander_id)) s1;
                 s3 = (case commander_id of None \<Rightarrow> s2 | Some c \<Rightarrow> recompute_role today c s2);
                 s4 = (case previous of None \<Rightarrow> s3
                       | Some c \<Rightarrow> if previous = commander_id then s3 else recompute_role today c s3)
             in Inr (write_audit actor_id ''hierarchy_node.set_commander'' (Some node_id) s4)))"

section \<open>Scopes and deputies\<close>

definition assign_dm_scope :: "org \<Rightarrow> date \<Rightarrow> uuid \<Rightarrow> uuid \<Rightarrow> uuid \<Rightarrow> uuid option \<Rightarrow> org_error + org" where
  "assign_dm_scope s today new_id soldier_id node_id actor_id =
     (if person_of s soldier_id = None then Inl Soldier_not_found
      else if node_of s node_id = None then Inl Node_not_found
      else if list_ex (\<lambda>g. g_manager_id g = soldier_id \<and> g_node_id g = node_id) (o_scopes s) then Inr s
      else Inr (write_audit actor_id ''dm_scope.assign'' (Some new_id)
             (recompute_role today soldier_id
               (s\<lparr>o_scopes := o_scopes s @
                  [\<lparr>g_id = new_id, g_manager_id = soldier_id, g_node_id = node_id\<rparr>]\<rparr>))))"

definition remove_dm_scope :: "org \<Rightarrow> date \<Rightarrow> uuid \<Rightarrow> uuid option \<Rightarrow> org_error + org" where
  "remove_dm_scope s today entry_id actor_id =
     (case find (\<lambda>g. g_id g = entry_id) (o_scopes s) of None \<Rightarrow> Inl Scope_entry_not_found
      | Some entry \<Rightarrow> Inr (write_audit actor_id ''dm_scope.remove'' (Some entry_id)
          (recompute_role today (g_manager_id entry)
            (s\<lparr>o_scopes := filter (\<lambda>g. g_id g \<noteq> entry_id) (o_scopes s)\<rparr>))))"

definition has_ever_been_deputy :: "org \<Rightarrow> uuid \<Rightarrow> DeputyRole \<Rightarrow> bool" where
  "has_ever_been_deputy s soldier_id role =
     list_ex (\<lambda>y. y_deputy_id y = soldier_id \<and> y_role y = role) (o_deputies s)"

text \<open>The check of the role's text is the type of \<open>role\<close>.\<close>

definition create_deputy :: "org \<Rightarrow> date \<Rightarrow> uuid \<Rightarrow> uuid \<Rightarrow> uuid \<Rightarrow> DeputyRole \<Rightarrow> date \<Rightarrow> date
    \<Rightarrow> uuid option \<Rightarrow> org_error + org" where
  "create_deputy s today new_id principal_id deputy_id role start_date end_date actor_id =
     (if end_date < start_date then Inl Invalid_date_range
      else if principal_id = deputy_id then Inl Cannot_deputize_self
      else if person_of s principal_id = None then Inl Principal_not_found
      else if person_of s deputy_id = None then Inl Deputy_not_found
      else if \<not> (case role of Deputy_commander \<Rightarrow> is_commander s principal_id today
                 | Deputy_duty_manager \<Rightarrow> is_duty_manager s principal_id today)
      then Inl Principal_lacks_role
      else if has_ever_been_deputy s principal_id role then Inl Cannot_deputize_a_deputy
      else if list_ex (\<lambda>y. y_principal_id y = principal_id \<and> y_deputy_id y = deputy_id
                         \<and> y_role y = role) (o_deputies s) then Inl Already_exists
      else Inr (write_audit actor_id ''deputy.create'' (Some new_id)
             (s\<lparr>o_deputies := o_deputies s @
                [\<lparr>y_id = new_id, y_principal_id = principal_id, y_deputy_id = deputy_id,
                  y_role = role, y_start_date = start_date, y_end_date = end_date\<rparr>]\<rparr>)))"

definition revoke_deputy :: "org \<Rightarrow> uuid \<Rightarrow> uuid option \<Rightarrow> org_error + org" where
  "revoke_deputy s deputy_grant_id actor_id =
     (if \<not> list_ex (\<lambda>y. y_id y = deputy_grant_id) (o_deputies s) then Inl Deputy_grant_not_found
      else Inr (write_audit actor_id ''deputy.revoke'' (Some deputy_grant_id)
             (s\<lparr>o_deputies := filter (\<lambda>y. y_id y \<noteq> deputy_grant_id) (o_deputies s)\<rparr>)))"

section \<open>Approver chains\<close>

definition path_of_soldier :: "org \<Rightarrow> uuid \<Rightarrow> uuid list" where
  "path_of_soldier s soldier_id =
     (case person_of s soldier_id of None \<Rightarrow> []
      | Some p \<Rightarrow> (case p_node_id p of None \<Rightarrow> []
         | Some i \<Rightarrow> (case node_of s i of None \<Rightarrow> [] | Some n \<Rightarrow> n_path_ids n)))"

definition commander_at :: "org \<Rightarrow> uuid \<Rightarrow> uuid option" where
  "commander_at s i = (case node_of s i of None \<Rightarrow> None | Some n \<Rightarrow> n_commander_id n)"

definition commander_chain_for_soldier :: "org \<Rightarrow> uuid \<Rightarrow> uuid list" where
  "commander_chain_for_soldier s soldier_id =
     fold (\<lambda>i chain. case commander_at s i of None \<Rightarrow> chain
         | Some c \<Rightarrow> if c \<noteq> soldier_id \<and> c \<notin> set chain then chain @ [c] else chain)
       (rev (path_of_soldier s soldier_id)) []"

definition manager_name :: "org \<Rightarrow> uuid \<Rightarrow> string" where
  "manager_name s i = (case person_of s i of None \<Rightarrow> [] | Some p \<Rightarrow> p_name p)"

definition duty_manager_chain_for_soldier :: "org \<Rightarrow> uuid \<Rightarrow> uuid list" where
  "duty_manager_chain_for_soldier s soldier_id =
     fold (\<lambda>i chain. fold (\<lambda>dm chain. if dm \<notin> set chain then chain @ [dm] else chain)
         (sort_by (\<lambda>a b. map (of_char :: char \<Rightarrow> nat) (manager_name s a) \<le> map of_char (manager_name s b))
           (map g_manager_id (filter (\<lambda>g. g_node_id g = i) (o_scopes s)))) chain)
       (rev (path_of_soldier s soldier_id)) []"

definition scope_root_ids :: "org \<Rightarrow> uuid \<Rightarrow> date \<Rightarrow> uuid list" where
  "scope_root_ids s i today = remdups (dm_scope_node_ids s i today @ commanded_node_ids s i today)"

definition node_in_roots :: "HierarchyNode option \<Rightarrow> uuid list \<Rightarrow> bool" where
  "node_in_roots target_node roots =
     (case target_node of None \<Rightarrow> False | Some n \<Rightarrow> list_ex (\<lambda>r. r \<in> set (n_path_ids n)) roots)"

end
