(* ===== verification/Duties.thy ===== *)
theory Duties
  imports Ranks Org
begin

text \<open>
  The duty board of \<open>services/assignments.py\<close>, with \<open>services/rest.py\<close>, the reserve cap of
  \<open>services/reserves.py\<close> and \<open>check_soldier_for_assignment\<close> of \<open>services/eligibility.py\<close>:
  assignments, the overrides that hand single days to another soldier, dismissals,
  exemptions and approved personal constraints.  An operation returns the exception it
  raises or the new tables; the identifier of a new row is an argument.  The weapon
  qualification of \<open>weapon_eligibility.py\<close> is the function \<open>bd_weapon_ok\<close> of the state:
  it only sets a flag of the row; the month arithmetic of \<open>dateutil\<close> is \<open>bd_plus_months\<close>.  Notifications, score projections and calendar exports,
  which follow a write and are not read back, are left out.
\<close>

section \<open>Tables\<close>

datatype duty_status = Algorithm_draft | Published | Cancelled_duty | Algorithm_rejected

record DutyAssignment =
  da_id :: uuid
  da_soldier_id :: uuid
  da_type_id :: uuid
  da_location_id :: uuid
  da_start_date :: date
  da_end_date :: date
  da_start_time :: clock
  da_end_time :: clock
  da_status :: duty_status
  da_shift_id :: "uuid option"
  da_is_reserve :: bool
  da_called_up_from :: "date option"
  da_called_up_to :: "date option"
  da_forced_multiplier :: "decimal option"
  da_weapon_ineligible :: bool

record DutyDayOverride =
  vo_id :: uuid
  vo_assignment_id :: uuid
  vo_date :: date
  vo_soldier_id :: "uuid option"
  vo_reason :: string

record DutyDismissal =
  di_id :: uuid
  di_assignment_id :: uuid
  di_from :: date
  di_to :: date
  di_reason :: "string option"

datatype constraint_status = Pending_commander | Pending_duty_manager | Approved_constraint
  | Rejected_constraint | Cancelled_constraint

record PersonalConstraint =
  pc_id :: uuid
  pc_soldier_id :: uuid
  pc_start_date :: date
  pc_end_date :: date
  pc_reason :: string
  pc_status :: constraint_status
  pc_commander_approved_by :: "uuid option"
  pc_commander_note :: "string option"
  pc_decided_by :: "uuid option"
  pc_decision_note :: "string option"

record PersonalConstraintOverride =
  po_constraint_id :: uuid
  po_soldier_id :: uuid
  po_overridden_by :: "uuid option"
  po_assignment_id :: uuid
  po_reason :: string

record SoldierExemption =
  ex_id :: uuid
  ex_soldier_id :: uuid
  ex_type_id :: uuid
  ex_start_date :: date
  ex_end_date :: "date option"
  ex_is_medical :: bool
  ex_reason :: "string option"
  ex_granted_by :: "uuid option"
  ex_revoked_at :: "moment option"
  ex_revoked_by :: "uuid option"
  ex_revoke_reason :: "string option"

record ExemptionType =
  et_id :: uuid
  et_is_global :: bool
  et_is_medical :: bool
  et_is_commander_exemption :: bool

record DutyType =
  dt_id :: uuid
  dt_score_per_day :: decimal
  dt_active :: bool
  dt_requirements :: requirements
  dt_rest_hours :: "int option"
  dt_required_range_type :: "string option"
  dt_reserve_ratio :: decimal
  dt_reserve_minimum :: int
  dt_start_time :: "clock option"
  dt_end_time :: "clock option"

record DutyShift =
  sh_id :: uuid
  sh_type_id :: uuid
  sh_location_id :: uuid
  sh_start_date :: date
  sh_end_date :: date
  sh_start_time :: clock
  sh_end_time :: clock
  sh_required_count :: int
  sh_active :: bool
  sh_reserve_override :: "int option"
  sh_eligible_node_ids :: "uuid list option"
  sh_template_id :: "uuid option"

text \<open>Settings; \<open>None\<close> is a setting without a row, for which the code has a default.\<close>

record duty_settings =
  se_default_rest_hours :: "int option"
  se_mitvahim_months :: "int option"
  se_alal_months :: "int option"
  se_reserve_window :: "int option"
  se_reserve_max :: "int option"

record board =
  bd_soldiers :: "Soldier list"
  bd_assignments :: "DutyAssignment list"
  bd_overrides :: "DutyDayOverride list"
  bd_dismissals :: "DutyDismissal list"
  bd_constraints :: "PersonalConstraint list"
  bd_constraint_overrides :: "PersonalConstraintOverride list"
  bd_exemptions :: "SoldierExemption list"
  bd_exemption_types :: "ExemptionType list"
  bd_exempt_duty_types :: "(uuid \<times> uuid) list"
  bd_exempt_locations :: "(uuid \<times> uuid) list"
  bd_duty_types :: "DutyType list"
  bd_locations :: "uuid list"
  bd_shifts :: "DutyShift list"
  bd_intervals :: intervals
  bd_plus_months :: "date \<Rightarrow> int \<Rightarrow> date"
  bd_weapon_ok :: "uuid \<Rightarrow> string \<Rightarrow> date \<Rightarrow> bool"
  bd_settings :: duty_settings
  bd_audit :: "AuditLog list"

datatype duty_error = Bad_date_range | No_such_soldier | Duty_type_not_found | Location_not_found
  | Overlap | Insufficient_rest | Exempted | Override_reason_required | Reason_required
  | Assignment_cancelled | Same_soldier | Date_out_of_range | Bad_reason | Foreign_key

definition default :: "'a option \<Rightarrow> 'a \<Rightarrow> 'a" where
  "default setting d = (case setting of None \<Rightarrow> d | Some x \<Rightarrow> x)"

definition audit_board :: "uuid option \<Rightarrow> string \<Rightarrow> uuid \<Rightarrow> board \<Rightarrow> board" where
  "audit_board actor_id action entity_id s = s\<lparr>bd_audit := bd_audit s @
     [\<lparr>u_actor_id = actor_id, u_action = action, u_entity_id = Some entity_id\<rparr>]\<rparr>"

definition assignment_of :: "board \<Rightarrow> uuid \<Rightarrow> DutyAssignment option" where
  "assignment_of s i = find (\<lambda>a. da_id a = i) (bd_assignments s)"

definition soldier_of :: "board \<Rightarrow> uuid \<Rightarrow> Soldier option" where
  "soldier_of s i = find (\<lambda>x. so_id x = i) (bd_soldiers s)"

definition duty_type_of :: "board \<Rightarrow> uuid \<Rightarrow> DutyType option" where
  "duty_type_of s i = find (\<lambda>t. dt_id t = i) (bd_duty_types s)"

definition update_assignment :: "uuid \<Rightarrow> (DutyAssignment \<Rightarrow> DutyAssignment) \<Rightarrow> board \<Rightarrow> board" where
  "update_assignment i f s = s\<lparr>bd_assignments := map (\<lambda>a. if da_id a = i then f a else a) (bd_assignments s)\<rparr>"

text \<open>\<open>str.strip\<close> on ASCII white space.\<close>

definition is_space :: "char \<Rightarrow> bool" where
  "is_space c \<longleftrightarrow> (of_char c :: nat) \<in> {9, 10, 11, 12, 13, 28, 29, 30, 31, 32}"

definition strip :: "string \<Rightarrow> string" where
  "strip t = rev (dropWhile is_space (rev (dropWhile is_space t)))"

definition given :: "string option \<Rightarrow> bool" where
  "given reason = (case reason of None \<Rightarrow> False | Some t \<Rightarrow> strip t \<noteq> [])"

section \<open>Checks\<close>

definition live_duty :: "DutyAssignment \<Rightarrow> bool" where
  "live_duty a \<longleftrightarrow> da_status a \<noteq> Cancelled_duty"

definition in_range :: "DutyAssignment \<Rightarrow> date \<Rightarrow> date \<Rightarrow> bool" where
  "in_range a start_date end_date \<longleftrightarrow> da_start_date a < end_date \<and> da_end_date a > start_date"

definition has_overlap :: "board \<Rightarrow> uuid \<Rightarrow> date \<Rightarrow> date \<Rightarrow> uuid option \<Rightarrow> bool" where
  "has_overlap s soldier_id start_date end_date exclude_id =
     list_ex (\<lambda>a. da_soldier_id a = soldier_id \<and> live_duty a \<and> in_range a start_date end_date
       \<and> exclude_id \<noteq> Some (da_id a)) (bd_assignments s)"

definition resolve_rest_hours :: "DutyType option \<Rightarrow> int \<Rightarrow> int" where
  "resolve_rest_hours duty_type default_rest_hours =
     (case duty_type of None \<Rightarrow> default_rest_hours
      | Some t \<Rightarrow> default (dt_rest_hours t) default_rest_hours)"

definition effective_assignment_end :: "board \<Rightarrow> DutyAssignment \<Rightarrow> moment" where
  "effective_assignment_end s a =
     (let last_day = last_duty_day (da_start_date a) (da_end_date a);
          permanent = filter (\<lambda>d. di_assignment_id d = da_id a \<and> di_to d \<ge> last_day) (bd_dismissals s)
      in if permanent \<noteq> []
         then combine_date_time (Min (set (map di_from permanent))) (da_start_time a)
         else combine_date_time last_day (da_end_time a))"

definition has_insufficient_rest :: "board \<Rightarrow> uuid \<Rightarrow> uuid \<Rightarrow> date \<Rightarrow> date \<Rightarrow> clock \<Rightarrow> clock
    \<Rightarrow> uuid option \<Rightarrow> bool" where
  "has_insufficient_rest s soldier_id duty_type_id start_date end_date start_time end_time exclude_id =
     (let default_rest = default (se_default_rest_hours (bd_settings s)) 12;
          this_rest = resolve_rest_hours (duty_type_of s duty_type_id) default_rest;
          this_end = combine_date_time (last_duty_day start_date end_date) end_time
      in list_ex (\<lambda>other.
           if da_start_date other \<ge> end_date
           then rest_violated this_end (da_start_date other) (da_start_time other) this_rest
           else if da_end_date other \<le> start_date
           then rest_violated (effective_assignment_end s other) start_date start_time
             (resolve_rest_hours (duty_type_of s (da_type_id other)) default_rest)
           else False)
         (filter (\<lambda>a. da_soldier_id a = soldier_id \<and> live_duty a \<and> exclude_id \<noteq> Some (da_id a))
           (bd_assignments s)))"

definition active_exemption :: "SoldierExemption \<Rightarrow> uuid \<Rightarrow> date \<Rightarrow> date \<Rightarrow> bool" where
  "active_exemption e soldier_id start_date end_date \<longleftrightarrow> ex_soldier_id e = soldier_id
     \<and> ex_start_date e < end_date
     \<and> (case ex_end_date e of None \<Rightarrow> True | Some d \<Rightarrow> d \<ge> start_date)"

definition has_blocking_exemption :: "board \<Rightarrow> uuid \<Rightarrow> uuid \<Rightarrow> date \<Rightarrow> date \<Rightarrow> bool" where
  "has_blocking_exemption s soldier_id duty_type_id start_date end_date =
     list_ex (\<lambda>e. active_exemption e soldier_id start_date end_date
       \<and> (ex_type_id e, duty_type_id) \<in> set (bd_exempt_duty_types s)) (bd_exemptions s)"

definition approved_constraint :: "board \<Rightarrow> uuid \<Rightarrow> date \<Rightarrow> date \<Rightarrow> PersonalConstraint option" where
  "approved_constraint s soldier_id start_date end_date =
     find (\<lambda>c. pc_soldier_id c = soldier_id \<and> pc_status c = Approved_constraint
       \<and> pc_start_date c < end_date \<and> pc_end_date c \<ge> start_date) (bd_constraints s)"

definition weapon_missing :: "board \<Rightarrow> uuid \<Rightarrow> uuid \<Rightarrow> date \<Rightarrow> bool" where
  "weapon_missing s soldier_id duty_type_id as_of =
     (case duty_type_of s duty_type_id of None \<Rightarrow> False
      | Some t \<Rightarrow> (case dt_required_range_type t of None \<Rightarrow> False
         | Some range_type \<Rightarrow> \<not> bd_weapon_ok s soldier_id range_type as_of))"

text \<open>The checks \<open>create_assignment\<close> and \<open>replace_assignment\<close> share, in their order.\<close>

definition check_booking :: "board \<Rightarrow> uuid \<Rightarrow> uuid \<Rightarrow> date \<Rightarrow> date \<Rightarrow> clock \<Rightarrow> clock
    \<Rightarrow> uuid option \<Rightarrow> string option \<Rightarrow> duty_error + PersonalConstraint option" where
  "check_booking s soldier_id duty_type_id start_date end_date start_time end_time exclude_id override_reason =
     (if has_overlap s soldier_id start_date end_date exclude_id then Inl Overlap
      else if has_insufficient_rest s soldier_id duty_type_id start_date end_date start_time end_time exclude_id
      then Inl Insufficient_rest
      else if has_blocking_exemption s soldier_id duty_type_id start_date end_date then Inl Exempted
      else (let constraint = approved_constraint s soldier_id start_date end_date
            in if constraint \<noteq> None \<and> \<not> given override_reason then Inl Override_reason_required
               else Inr constraint))"

definition record_override :: "PersonalConstraint option \<Rightarrow> uuid \<Rightarrow> uuid \<Rightarrow> uuid option \<Rightarrow> string option
    \<Rightarrow> board \<Rightarrow> board" where
  "record_override constraint soldier_id reference_id actor_id override_reason s =
     (case constraint of None \<Rightarrow> s
      | Some c \<Rightarrow> s\<lparr>bd_constraint_overrides := bd_constraint_overrides s @
          [\<lparr>po_constraint_id = pc_id c, po_soldier_id = soldier_id, po_overridden_by = actor_id,
            po_assignment_id = reference_id, po_reason = strip (the override_reason)\<rparr>]\<rparr>)"

section \<open>Assignments\<close>

definition shift_times :: "board \<Rightarrow> uuid option \<Rightarrow> clock \<times> clock" where
  "shift_times s shift_id =
     (case (case shift_id of None \<Rightarrow> None | Some i \<Rightarrow> find (\<lambda>x. sh_id x = i) (bd_shifts s)) of
        None \<Rightarrow> ((0, 0), (23, 59)) | Some shift \<Rightarrow> (sh_start_time shift, sh_end_time shift))"

definition create_assignment :: "board \<Rightarrow> uuid \<Rightarrow> uuid \<Rightarrow> uuid \<Rightarrow> uuid \<Rightarrow> date \<Rightarrow> date \<Rightarrow> uuid option
    \<Rightarrow> bool \<Rightarrow> uuid option \<Rightarrow> string option \<Rightarrow> duty_error + board" where
  "create_assignment s new_id soldier_id duty_type_id location_id start_date end_date shift_id
      is_reserve actor_id override_reason =
     (if end_date \<le> start_date then Inl Bad_date_range
      else if soldier_of s soldier_id = None then Inl No_such_soldier
      else if duty_type_of s duty_type_id = None then Inl Duty_type_not_found
      else if location_id \<notin> set (bd_locations s) then Inl Location_not_found
      else (let (start_time, end_time) = shift_times s shift_id in
        (case check_booking s soldier_id duty_type_id start_date end_date start_time end_time None
                override_reason of
           Inl e \<Rightarrow> Inl e
         | Inr constraint \<Rightarrow>
             if (case shift_id of None \<Rightarrow> False | Some i \<Rightarrow> find (\<lambda>x. sh_id x = i) (bd_shifts s) = None)
             then Inl Foreign_key
             else Inr (audit_board actor_id ''assignment.create'' new_id
               (record_override constraint soldier_id new_id actor_id override_reason
                 (s\<lparr>bd_assignments := bd_assignments s @
                    [\<lparr>da_id = new_id, da_soldier_id = soldier_id, da_type_id = duty_type_id,
                      da_location_id = location_id, da_start_date = start_date, da_end_date = end_date,
                      da_start_time = start_time, da_end_time = end_time, da_status = Published,
                      da_shift_id = shift_id, da_is_reserve = is_reserve,
                      da_called_up_from = None, da_called_up_to = None, da_forced_multiplier = None,
                      da_weapon_ineligible = weapon_missing s soldier_id duty_type_id start_date\<rparr>]\<rparr>))))))"

definition cancel_assignment :: "board \<Rightarrow> DutyAssignment \<Rightarrow> string \<Rightarrow> uuid option \<Rightarrow> duty_error + board" where
  "cancel_assignment s a reason actor_id =
     (if strip reason = [] then Inl Reason_required
      else Inr (audit_board actor_id ''assignment.cancel'' (da_id a)
             (update_assignment (da_id a) (da_status_update (\<lambda>_. Cancelled_duty)) s)))"

definition replace_assignment :: "board \<Rightarrow> DutyAssignment \<Rightarrow> uuid \<Rightarrow> uuid option \<Rightarrow> string option
    \<Rightarrow> duty_error + board" where
  "replace_assignment s a replacement_soldier_id actor_id override_reason =
     (if da_status a = Cancelled_duty then Inl Assignment_cancelled
      else if replacement_soldier_id = da_soldier_id a then Inl Same_soldier
      else if soldier_of s replacement_soldier_id = None then Inl No_such_soldier
      else
        (case check_booking s replacement_soldier_id (da_type_id a) (da_start_date a) (da_end_date a)
                (da_start_time a) (da_end_time a) (Some (da_id a)) override_reason of
           Inl e \<Rightarrow> Inl e
         | Inr constraint \<Rightarrow>
             Inr (record_override constraint replacement_soldier_id (da_id a) actor_id override_reason
               (audit_board actor_id ''assignment.replace'' (da_id a)
                 (update_assignment (da_id a)
                   (\<lambda>x. x\<lparr>da_soldier_id := replacement_soldier_id,
                         da_weapon_ineligible := weapon_missing s replacement_soldier_id (da_type_id a)
                           (da_start_date a)\<rparr>) s)))))"

section \<open>Day overrides\<close>

definition covers_by_override :: "board \<Rightarrow> uuid \<Rightarrow> date \<Rightarrow> date \<Rightarrow> uuid option \<Rightarrow> bool" where
  "covers_by_override s soldier_id start_date end_date exclude_assignment_id =
     list_ex (\<lambda>v. vo_soldier_id v = Some soldier_id \<and> vo_date v \<ge> start_date \<and> vo_date v < end_date
       \<and> list_ex (\<lambda>a. da_id a = vo_assignment_id v \<and> live_duty a) (bd_assignments s)
       \<and> exclude_assignment_id \<noteq> Some (vo_assignment_id v)) (bd_overrides s)"

definition day_busy :: "board \<Rightarrow> uuid \<Rightarrow> date \<Rightarrow> uuid option \<Rightarrow> bool" where
  "day_busy s soldier_id on_date exclude_assignment_id =
     (list_ex (\<lambda>a. da_soldier_id a = soldier_id \<and> live_duty a \<and> da_start_date a \<le> on_date
        \<and> da_end_date a > on_date \<and> exclude_assignment_id \<noteq> Some (da_id a)) (bd_assignments s)
      \<or> covers_by_override s soldier_id on_date (on_date + 1) exclude_assignment_id)"

definition publish_would_double_book :: "board \<Rightarrow> DutyAssignment \<Rightarrow> bool" where
  "publish_would_double_book s a =
     (list_ex (\<lambda>b. da_soldier_id b = da_soldier_id a \<and> da_status b = Published \<and> da_id b \<noteq> da_id a
        \<and> in_range b (da_start_date a) (da_end_date a)) (bd_assignments s)
      \<or> covers_by_override s (da_soldier_id a) (da_start_date a) (da_end_date a) (Some (da_id a)))"

definition OVERRIDE_REASONS :: "string list" where
  "OVERRIDE_REASONS = [''replacement'', ''no_show_covered'', ''cancelled'', ''manual_edit'']"

definition override_on :: "board \<Rightarrow> uuid \<Rightarrow> date \<Rightarrow> DutyDayOverride option" where
  "override_on s assignment_id d = find (\<lambda>v. vo_assignment_id v = assignment_id \<and> vo_date v = d) (bd_overrides s)"

definition put_override :: "uuid \<Rightarrow> uuid \<Rightarrow> date \<Rightarrow> uuid option \<Rightarrow> string \<Rightarrow> board \<Rightarrow> board" where
  "put_override new_id assignment_id d soldier_id reason s =
     (if override_on s assignment_id d \<noteq> None
      then s\<lparr>bd_overrides := map (\<lambda>v. if vo_assignment_id v = assignment_id \<and> vo_date v = d
             then v\<lparr>vo_soldier_id := soldier_id, vo_reason := reason\<rparr> else v) (bd_overrides s)\<rparr>
      else s\<lparr>bd_overrides := bd_overrides s @ [\<lparr>vo_id = new_id, vo_assignment_id = assignment_id,
             vo_date = d, vo_soldier_id = soldier_id, vo_reason = reason\<rparr>]\<rparr>)"

definition set_day_override :: "board \<Rightarrow> uuid \<Rightarrow> DutyAssignment \<Rightarrow> date \<Rightarrow> uuid option \<Rightarrow> string
    \<Rightarrow> uuid option \<Rightarrow> duty_error + uuid \<times> board" where
  "set_day_override s new_id a d effective_soldier_id reason actor_id =
     (if \<not> (da_start_date a \<le> d \<and> d < da_end_date a) then Inl Date_out_of_range
      else if reason \<notin> set OVERRIDE_REASONS then Inl Bad_reason
      else
        (case (case effective_soldier_id of None \<Rightarrow> None
               | Some i \<Rightarrow>
                   if soldier_of s i = None then Some No_such_soldier
                   else if day_busy s i d (Some (da_id a)) then Some Overlap
                   else if has_blocking_exemption s i (da_type_id a) d d then Some Exempted
                   else None) of
           Some e \<Rightarrow> Inl e
         | None \<Rightarrow>
             (let i = (case override_on s (da_id a) d of None \<Rightarrow> new_id | Some v \<Rightarrow> vo_id v)
              in Inr (i, audit_board actor_id ''assignment.override'' i
                   (put_override new_id (da_id a) d effective_soldier_id reason s)))))"

definition clear_day_override :: "board \<Rightarrow> DutyAssignment \<Rightarrow> date \<Rightarrow> uuid option \<Rightarrow> board" where
  "clear_day_override s a d actor_id =
     (case override_on s (da_id a) d of None \<Rightarrow> s
      | Some v \<Rightarrow>
          (audit_board actor_id ''assignment.override_clear'' (vo_id v) s)
            \<lparr>bd_overrides := filter (\<lambda>x. vo_id x \<noteq> vo_id v) (bd_overrides s)\<rparr>)"

text \<open>Who serves an assignment on a day: \<open>_effective_soldier_on_date\<close> of \<open>services/swaps.py\<close>.\<close>

definition effective_soldier_on_date :: "board \<Rightarrow> DutyAssignment \<Rightarrow> date \<Rightarrow> uuid option" where
  "effective_soldier_on_date s a d =
     (case override_on s (da_id a) d of
        Some v \<Rightarrow> vo_soldier_id v
      | None \<Rightarrow>
          if list_ex (\<lambda>x. di_assignment_id x = da_id a \<and> di_from x \<le> d \<and> di_to x \<ge> d) (bd_dismissals s)
          then None else Some (da_soldier_id a))"

section \<open>Reserve cap\<close>

definition count_reserve_days_in_window :: "board \<Rightarrow> uuid \<Rightarrow> date \<Rightarrow> date \<Rightarrow> nat" where
  "count_reserve_days_in_window s soldier_id start_date end_date =
     (let W = default (se_reserve_window (bd_settings s)) 30;
          rows = filter (\<lambda>a. da_soldier_id a = soldier_id \<and> da_is_reserve a
                   \<and> da_status a \<in> {Published, Algorithm_draft}) (bd_assignments s);
          all_dates = concat (map (\<lambda>a. days_from_to (da_start_date a) (da_end_date a)) rows)
                   @ days_from_to start_date end_date;
          sorted_dates = sort (remdups all_dates)
      in foldr (\<lambda>anchor peak. max peak
           (length (filter (\<lambda>x. anchor \<le> x \<and> x \<le> anchor + (W - 1)) sorted_dates))) sorted_dates 0)"

definition check_reserve_cap :: "board \<Rightarrow> uuid \<Rightarrow> date \<Rightarrow> date \<Rightarrow> bool \<times> int \<times> int" where
  "check_reserve_cap s soldier_id start_date end_date =
     (let max_days = default (se_reserve_max (bd_settings s)) 14;
          peak = int (count_reserve_days_in_window s soldier_id start_date end_date)
      in (peak \<le> max_days, peak, max_days))"

section \<open>Eligibility for an assignment\<close>

datatype check_reason = No_assignment | No_soldier | Departed | Unfit | Exempt_duty | Exempt_location
  | Constraint_blocks | Already_assigned

definition requirements_fail :: "board \<Rightarrow> Soldier \<Rightarrow> DutyAssignment \<Rightarrow> bool" where
  "requirements_fail s x a =
     (case duty_type_of s (da_type_id a) of None \<Rightarrow> False
      | Some t \<Rightarrow>
          (case dt_requirements t of
             Requirements reqs \<Rightarrow> \<not> is_eligible_for x reqs
               (default (se_mitvahim_months (bd_settings s)) 6)
               (default (se_alal_months (bd_settings s)) 3) (da_start_date a)
               (j_rank (project_soldier_state (bd_plus_months s) (bd_intervals s) None x (da_start_date a)))
           | _ \<Rightarrow> False))"

definition exemption_blocks :: "board \<Rightarrow> DutyAssignment \<Rightarrow> SoldierExemption \<Rightarrow> check_reason option" where
  "exemption_blocks s a e =
     (if list_ex (\<lambda>t. et_id t = ex_type_id e \<and> et_is_global t) (bd_exemption_types s) then Some Exempt_duty
      else if (ex_type_id e, da_type_id a) \<in> set (bd_exempt_duty_types s) then Some Exempt_duty
      else if (ex_type_id e, da_location_id a) \<in> set (bd_exempt_locations s) then Some Exempt_location
      else None)"

definition first_block :: "board \<Rightarrow> DutyAssignment \<Rightarrow> uuid \<Rightarrow> check_reason option" where
  "first_block s a soldier_id =
     (case List.map_filter (exemption_blocks s a)
             (filter (\<lambda>e. active_exemption e soldier_id (da_start_date a) (da_end_date a)) (bd_exemptions s)) of
        [] \<Rightarrow> None | r # _ \<Rightarrow> Some r)"

definition scheduling_conflict :: "board \<Rightarrow> DutyAssignment \<Rightarrow> uuid \<Rightarrow> uuid option \<Rightarrow> bool" where
  "scheduling_conflict s a soldier_id exclude_id =
     (list_ex (\<lambda>b. da_soldier_id b = soldier_id \<and> da_status b = Published
        \<and> in_range b (da_start_date a) (da_end_date a) \<and> exclude_id \<noteq> Some (da_id b)) (bd_assignments s)
      \<or> covers_by_override s soldier_id (da_start_date a) (da_end_date a) (Some (da_id a)))"

definition check_soldier_for_assignment :: "board \<Rightarrow> uuid \<Rightarrow> uuid \<Rightarrow> uuid option \<Rightarrow> bool
    \<Rightarrow> check_reason + PersonalConstraint option" where
  "check_soldier_for_assignment s soldier_id assignment_id exclude_id allow_constraint_override =
     (case assignment_of s assignment_id of None \<Rightarrow> Inl No_assignment
      | Some a \<Rightarrow>
        (case soldier_of s soldier_id of None \<Rightarrow> Inl No_soldier
         | Some x \<Rightarrow>
            if j_departed (project_soldier_state (bd_plus_months s) (bd_intervals s) None x (da_start_date a)) then Inl Departed
            else if requirements_fail s x a then Inl Unfit
            else
              (case first_block s a soldier_id of
                 Some r \<Rightarrow> Inl r
               | None \<Rightarrow>
                   (let constraint = approved_constraint s soldier_id (da_start_date a) (da_end_date a)
                    in if constraint \<noteq> None \<and> \<not> allow_constraint_override then Inl Constraint_blocks
                       else if scheduling_conflict s a soldier_id exclude_id then Inl Already_assigned
                       else Inr constraint))))"

end
