(* ===== verification/RanksSound.thy ===== *)
theory RanksSound
  imports Ranks
begin

text \<open>
  The projection of a soldier's rank: it climbs his ladder and stops before the bound on its
  rounds, a later date never gives a lower rank, and the bulk path with its cache agrees with
  the single path once every rank has a row.
\<close>

section \<open>Ladders\<close>

lemma ladder_distinct [simp]: "distinct (ladder t)"
  by (cases t) (simp_all add: ENLISTED_RANKS_def)

lemma ladder_short: "length (ladder t) \<le> 11"
  by (cases t) (simp_all add: ENLISTED_RANKS_def)

lemma index_of_less: "x \<in> set xs \<Longrightarrow> index_of x xs < length xs"
  by (induction xs) (auto simp: index_of_def)

lemma nth_index_of: "x \<in> set xs \<Longrightarrow> xs ! index_of x xs = x"
  by (induction xs) (auto simp: index_of_def)

lemma index_of_nth: "distinct xs \<Longrightarrow> i < length xs \<Longrightarrow> index_of (xs ! i) xs = i"
proof (induction xs arbitrary: i)
  case (Cons x xs)
  then show ?case using nth_mem [of "i - 1" xs] by (cases i) (auto simp: index_of_def)
qed simp

lemma get_track_Some: "rank \<in> set (ladder t) \<Longrightarrow> get_track rank (Some t) = Some t"
  by (simp add: get_track_def)

lemma resolve_Some: "resolve_track rank stored = Some t \<Longrightarrow> \<exists>r. rank = Some r \<and> r \<in> set (ladder t)"
  by (auto simp: resolve_track_def get_track_def Let_def split: option.splits if_splits)

lemma resolve_idem: "rank \<in> set (ladder t) \<Longrightarrow> resolve_track (Some rank) (Some t) = Some t"
  by (simp add: resolve_track_def)

lemma resolve_None_next: "resolve_track (Some rank) stored = None \<Longrightarrow> get_next_rank rank None = None"
  by (auto simp: resolve_track_def get_next_rank_def split: option.splits if_splits)

lemma next_rank_up:
  assumes "get_next_rank r (Some t) = Some r'"
  shows "r \<in> set (ladder t)" "r' \<in> set (ladder t)" "index_of r' (ladder t) = index_of r (ladder t) + 1"
  using assms by (auto simp: get_next_rank_def get_track_def Let_def index_of_nth split: if_splits)

section \<open>Bounded loops\<close>

lemma run_steps_stops:
  fixes f :: "'s \<Rightarrow> nat"
  assumes down: "\<And>w w'. good w \<Longrightarrow> step w = Some w' \<Longrightarrow> good w' \<and> f w' < f w"
  shows "good w \<Longrightarrow> f w < n \<Longrightarrow> step (run_steps n step w) = None \<and> good (run_steps n step w)"
proof (induction n arbitrary: w)
  case (Suc n)
  then show ?case
  proof (cases "step w")
    case (Some w')
    then show ?thesis using Suc.IH [of w'] Suc.prems down [of w w'] by auto
  qed auto
qed simp

lemma run_steps_inv:
  assumes "\<And>w w'. good w \<Longrightarrow> step w = Some w' \<Longrightarrow> good w'"
  shows "good w \<Longrightarrow> good (run_steps n step w)"
  using assms by (induction n arbitrary: w) (auto split: option.split)

lemma run_steps_halt: "step w = None \<Longrightarrow> run_steps n step w = w"
  by (cases n) auto

lemma run_steps_add: "run_steps (m + n) step w = run_steps n step (run_steps m step w)"
  by (induction m arbitrary: w) (auto simp: run_steps_halt split: option.split)

lemma run_steps_halted:
  "step (run_steps n step w) = None \<Longrightarrow> run_steps (n + k) step w = run_steps n step w"
  by (simp add: run_steps_add run_steps_halt)

text \<open>A bolder step function runs at least as far.\<close>

lemma run_steps_within:
  assumes agree: "\<And>w w'. good w \<Longrightarrow> step w = Some w' \<Longrightarrow> step' w = Some w' \<and> good w'"
  shows "good w \<Longrightarrow> \<exists>k. run_steps n step w = run_steps k step' w"
proof (induction n arbitrary: w)
  case (Suc n)
  show ?case
  proof (cases "step w")
    case None
    then show ?thesis by (intro exI [of _ 0]) simp
  next
    case (Some w')
    then have s': "step' w = Some w'" "good w'" using agree [OF Suc.prems] by auto
    obtain k where "run_steps n step w' = run_steps k step' w'" using Suc.IH [OF s'(2)] by blast
    then show ?thesis using Some s' by (intro exI [of _ "Suc k"]) simp
  qed
qed (auto intro: exI [of _ 0])

lemma run_steps_prefix:
  assumes "\<And>w w'. good w \<Longrightarrow> step w = Some w' \<Longrightarrow> step' w = Some w' \<and> good w'"
    and "good w" "step' (run_steps n step' w) = None"
  shows "run_steps n step' w = run_steps n step' (run_steps n step w)"
proof -
  obtain k where k: "run_steps n step w = run_steps k step' w" using run_steps_within assms(1,2) by metis
  have "run_steps n step' (run_steps k step' w) = run_steps (n + k) step' w"
    by (simp add: run_steps_add [symmetric] add.commute)
  then show ?thesis using run_steps_halted [where step = step', OF assms(3)] k by simp
qed

section \<open>The walk up the ladder\<close>

definition on_ladder :: "Track \<Rightarrow> rank_walk \<Rightarrow> bool" where
  "on_ladder t w \<longleftrightarrow> (\<exists>r \<in> set (ladder t). w_rank w = Some r)"

definition rung :: "Track \<Rightarrow> Rank option \<Rightarrow> nat" where
  "rung t rank = index_of (the rank) (ladder t)"

lemma rung_less: "on_ladder t w \<Longrightarrow> rung t (w_rank w) < length (ladder t)"
  by (auto simp: on_ladder_def rung_def index_of_less)

lemma project_step_up:
  assumes "project_step plus_months rows cache s (Some t) as_of w = Some w'"
  shows "on_ladder t w \<and> on_ladder t w' \<and> rung t (w_rank w') = rung t (w_rank w) + 1"
proof -
  obtain r r' where "w_rank w = Some r" "get_next_rank r (Some t) = Some r'" "w_rank w' = Some r'"
    using assms by (auto simp: project_step_def Let_def split: option.splits if_split_asm)
  then show ?thesis using next_rank_up [of r t r'] by (simp add: on_ladder_def rung_def)
qed

lemma walk_stops:
  fixes plus_months rows cache s as_of t
  defines "step \<equiv> project_step plus_months rows cache s (Some t) as_of"
  assumes "on_ladder t w"
  shows "step (run_steps MAX_CHAIN_STEPS step w) = None
    \<and> on_ladder t (run_steps MAX_CHAIN_STEPS step w)"
proof (rule run_steps_stops [where f = "\<lambda>w. length (ladder t) - rung t (w_rank w)"])
  fix w w' assume "on_ladder t w" "step w = Some w'"
  then show "on_ladder t w' \<and> length (ladder t) - rung t (w_rank w') < length (ladder t) - rung t (w_rank w)"
    using project_step_up [of plus_months rows cache s t as_of w w'] rung_less [of t w] by (auto simp: step_def)
qed (use assms ladder_short [of t] in \<open>simp_all add: MAX_CHAIN_STEPS_def\<close>)

lemma walk_rung:
  assumes "on_ladder t w"
  shows "rung t (w_rank w) \<le> rung t (w_rank (run_steps n (project_step plus_months rows cache s (Some t) as_of) w))"
  by (rule run_steps_inv [where good = "\<lambda>v. rung t (w_rank w) \<le> rung t (w_rank v)"])
    (auto dest: project_step_up)

text \<open>
  A step that is taken by an earlier date is taken, with the same outcome, by every later
  one: the guard on the career-entry date never changes the transition.
\<close>

lemma project_step_later:
  assumes "as_of \<le> as_of'" "project_step plus_months rows cache s track as_of w = Some w'"
  shows "project_step plus_months rows cache s track as_of' w = Some w'"
  using assms by (auto simp: project_step_def Let_def split: option.splits if_split_asm)

lemma walk_later:
  assumes "as_of \<le> as_of'" "on_ladder t w"
  shows "rung t (w_rank (run_steps MAX_CHAIN_STEPS (project_step plus_months rows cache s (Some t) as_of) w))
    \<le> rung t (w_rank (run_steps MAX_CHAIN_STEPS (project_step plus_months rows cache s (Some t) as_of') w))"
proof -
  let ?run = "\<lambda>d. run_steps MAX_CHAIN_STEPS (project_step plus_months rows cache s (Some t) d)"
  have "?run as_of' w = ?run as_of' (?run as_of w)"
    by (rule run_steps_prefix [where good = "\<lambda>_. True"])
      (use project_step_later [OF assms(1)] walk_stops [OF assms(2)] in auto)
  then show ?thesis using walk_rung [of t "?run as_of w"] walk_stops [OF assms(2), of plus_months rows cache s as_of]
    by simp
qed

text \<open>
  C38. Projecting a rank.  The walk up the ladder ends by itself, never by the bound of 24
  rounds; the projected rank is on the soldier's ladder and not below his present rank; and
  for a later date it is never lower than for an earlier one.
\<close>

theorem projection_climbs:
  assumes "resolve_track (so_rank s) (so_rank_track s) = Some t" "as_of \<le> as_of'"
  shows "j_rank (project_soldier_state plus_months rows cache s as_of) \<in> Some ` set (ladder t)
    \<and> rung t (so_rank s) \<le> rung t (j_rank (project_soldier_state plus_months rows cache s as_of))
    \<and> rung t (j_rank (project_soldier_state plus_months rows cache s as_of))
      \<le> rung t (j_rank (project_soldier_state plus_months rows cache s as_of'))
    \<and> project_step plus_months rows cache s (Some t) as_of
        (run_steps MAX_CHAIN_STEPS (project_step plus_months rows cache s (Some t) as_of) (walk_start s)) = None"
proof -
  have start: "on_ladder t (walk_start s)"
    using resolve_Some [OF assms(1)] by (auto simp: on_ladder_def walk_start_def)
  show ?thesis
    using walk_stops [OF start, of plus_months rows cache s as_of] walk_later [OF assms(2) start, of plus_months rows cache s]
      walk_rung [OF start, of MAX_CHAIN_STEPS plus_months rows cache s as_of]
    by (auto simp: project_soldier_state_def assms(1) Let_def on_ladder_def walk_start_def)
qed

definition sample_private :: Soldier where
  "sample_private = \<lparr>so_id = 4, so_gender = None, so_is_officer = None,
     so_rank = Some Samal, so_rank_track = None, so_next_rank_date = None,
     so_next_rank_date_overridden = False, so_current_rank_since = Some 700000,
     so_bahad1_graduate = False, so_has_license = None, so_license_expiry = None,
     so_enlistment_date = None, so_mandatory_end_date = Some 700100, so_discharge_date = None,
     so_left_at = None, so_hierarchy_node_id = None, so_enrolled_at = 700000, so_unit_join_date = None,
     so_last_mitvahim_date = None, so_last_alal_date = None\<rparr>"

lemma sample_private_track: "resolve_track (so_rank sample_private) (so_rank_track sample_private) = Some Enlisted"
  by (simp add: sample_private_def resolve_track_def get_track_def ENLISTED_RANKS_def)

lemma projection_climbs_witness:
  "j_rank (project_soldier_state add_months [] None sample_private 700050) \<in> Some ` set (ladder Enlisted)
    \<and> rung Enlisted (so_rank sample_private)
      \<le> rung Enlisted (j_rank (project_soldier_state add_months [] None sample_private 700050))
    \<and> rung Enlisted (j_rank (project_soldier_state add_months [] None sample_private 700050))
      \<le> rung Enlisted (j_rank (project_soldier_state add_months [] None sample_private 700200))
    \<and> project_step add_months [] None sample_private (Some Enlisted) 700050
        (run_steps MAX_CHAIN_STEPS (project_step add_months [] None sample_private (Some Enlisted) 700050)
          (walk_start sample_private)) = None"
  by (rule projection_climbs [OF sample_private_track]) simp

section \<open>The cached path\<close>

lemma cache_lookup:
  "dict_get (load_interval_cache rows) (t, r)
    = map_option (\<lambda>row. (i_months_to_next row, i_advance_on_career_entry row)) (interval_row (rev rows) t r)"
proof (induction rows rule: rev_induct)
  case (snoc row rows)
  then show ?case by (auto simp: load_interval_cache_def interval_row_def)
qed (simp add: load_interval_cache_def interval_row_def)

lemma find_rev:
  assumes "distinct (map f rows)"
  shows "find (\<lambda>r. f r = k) (rev rows) = find (\<lambda>r. f r = k) rows"
proof (cases "find (\<lambda>r. f r = k) rows")
  case None
  then have "find (\<lambda>r. f r = k) (rev rows) = None" by (metis find_None_iff set_rev)
  then show ?thesis using None by simp
next
  case (Some a)
  then have a: "a \<in> set rows" "f a = k" by (auto simp: find_Some_iff)
  have unique: "b = a" if "b \<in> set rows" "f b = k" for b
    using assms a that by (auto simp: distinct_map inj_on_def)
  obtain b where b: "find (\<lambda>r. f r = k) (rev rows) = Some b"
    using a by (cases "find (\<lambda>r. f r = k) (rev rows)") (auto simp: find_None_iff)
  then obtain i where i: "i < length (rev rows)" "f (rev rows ! i) = k" "b = rev rows ! i"
    unfolding find_Some_iff by blast
  then have "b \<in> set (rev rows)" using nth_mem [OF i(1)] by simp
  then have "b \<in> set rows" "f b = k" using i by simp_all
  then show ?thesis using b Some unique by simp
qed

lemma interval_row_rev:
  assumes "distinct (map (\<lambda>r. (i_track r, i_rank r)) rows)"
  shows "interval_row (rev rows) t r = interval_row rows t r"
  using find_rev [OF assms, of "(t, r)"] by (simp add: interval_row_def)

definition all_ranks_known :: "intervals \<Rightarrow> bool" where
  "all_ranks_known rows \<longleftrightarrow> distinct (map (\<lambda>r. (i_track r, i_rank r)) rows)
     \<and> list_all (\<lambda>t. list_all (\<lambda>r. interval_row rows t r \<noteq> None) (ladder t))
         [Enlisted, Officer, Officer_academic]"

lemma known_row:
  assumes "all_ranks_known rows" "r \<in> set (ladder t)"
  obtains row where "interval_row rows t r = Some row"
    "dict_get (load_interval_cache rows) (t, r) = Some (i_months_to_next row, i_advance_on_career_entry row)"
proof -
  have "\<exists>row. interval_row rows t r = Some row"
    using assms by (cases t) (auto simp: all_ranks_known_def list_all_iff simp del: ladder.simps)
  then show ?thesis using that assms(1) by (auto simp: cache_lookup interval_row_rev all_ranks_known_def)
qed

lemma step_cached:
  assumes "all_ranks_known rows"
  shows "project_step plus_months rows (Some (load_interval_cache rows)) s (Some t) as_of w
    = project_step plus_months rows None s (Some t) as_of w"
proof (cases "\<exists>r r'. w_rank w = Some r \<and> get_next_rank r (Some t) = Some r'")
  case True
  then obtain r r' where r: "w_rank w = Some r" "get_next_rank r (Some t) = Some r'" by blast
  note on = next_rank_up [OF r(2)]
  obtain row where "interval_row rows t r = Some row"
    "dict_get (load_interval_cache rows) (t, r) = Some (i_months_to_next row, i_advance_on_career_entry row)"
    by (rule known_row [OF assms on(1)])
  moreover obtain row' where "interval_row rows t r' = Some row'"
    "dict_get (load_interval_cache rows) (t, r') = Some (i_months_to_next row', i_advance_on_career_entry row')"
    by (rule known_row [OF assms on(2)])
  ultimately have "flag_lookup rows (Some (load_interval_cache rows)) r (Some t) = flag_lookup rows None r (Some t)"
    "next_rank_date plus_months rows (Some (load_interval_cache rows)) r' (Some t) d = next_rank_date plus_months rows None r' (Some t) d" for d
    using on by (simp_all add: flag_lookup_def next_rank_date_def resolve_idem advances_on_career_entry_def
        compute_next_rank_date_def get_track_Some get_interval_months_def)
  then show ?thesis using r by (simp add: project_step_def Let_def cong: option.case_cong if_cong)
qed (auto simp: project_step_def split: option.split)

lemma step_no_track:
  assumes "resolve_track (w_rank w) stored = None"
  shows "project_step plus_months rows cache s None as_of w = None"
  using assms resolve_None_next by (auto simp: project_step_def split: option.split)

text \<open>
  Bulk and single eligibility agree.  When every rank of every ladder has its row, the
  projection that reads the advancement intervals from a preloaded cache gives the same
  rank, track and departure as the one that queries the table.
\<close>

theorem projection_cached:
  assumes "all_ranks_known rows"
  shows "project_soldier_state plus_months rows (Some (load_interval_cache rows)) s as_of
    = project_soldier_state plus_months rows None s as_of"
proof (cases "resolve_track (so_rank s) (so_rank_track s)")
  case None
  then have "w_rank (run_steps MAX_CHAIN_STEPS (project_step plus_months rows cache s None as_of) (walk_start s)) = so_rank s"
    for cache by (subst run_steps_halt) (auto intro: step_no_track simp: walk_start_def)
  then show ?thesis by (simp add: project_soldier_state_def None Let_def)
next
  case (Some t)
  have "project_step plus_months rows (Some (load_interval_cache rows)) s (Some t) as_of
      = project_step plus_months rows None s (Some t) as_of" by (rule ext) (rule step_cached [OF assms])
  then show ?thesis by (simp add: project_soldier_state_def Some)
qed

definition sample_intervals :: intervals where
  "sample_intervals = concat (map (\<lambda>t. map (\<lambda>r. \<lparr>i_track = t, i_rank = r, i_months_to_next = Some 12,
     i_advance_on_career_entry = False\<rparr>) (ladder t)) [Enlisted, Officer, Officer_academic])"

lemma projection_cached_witness:
  "project_soldier_state add_months sample_intervals (Some (load_interval_cache sample_intervals)) sample_private 700200
    = project_soldier_state add_months sample_intervals None sample_private 700200"
  by (rule projection_cached)
    (simp add: all_ranks_known_def sample_intervals_def interval_row_def ENLISTED_RANKS_def)

text \<open>
  Without the rows the two paths differ: only the single path knows the default intervals, so
  it promotes a sergeant on career entry and the bulk path does not.
\<close>

lemma cache_misses_defaults:
  "j_rank (project_soldier_state add_months [] (Some (load_interval_cache [])) sample_private 700200) = Some Samal"
  "j_rank (project_soldier_state add_months [] None sample_private 700200) \<noteq> Some Samal"
proof -
  let ?step = "\<lambda>cache. project_step add_months [] cache sample_private (Some Enlisted) 700200"
  note defs = project_step_def walk_start_def get_next_rank_def get_track_def index_of_def flag_lookup_def
    career_entry_date_def career_entry_applies_def resolve_track_def load_interval_cache_def
    interval_row_def advances_on_career_entry_def default_interval_def ENLISTED_RANKS_def
  have "?step (Some []) (walk_start sample_private) = None"
    by (simp add: defs sample_private_def dict_get_def)
  then show "j_rank (project_soldier_state add_months [] (Some (load_interval_cache [])) sample_private 700200) = Some Samal"
    by (simp add: project_soldier_state_def sample_private_track run_steps_halt load_interval_cache_def)
      (simp add: walk_start_def sample_private_def Let_def)
  obtain w where w: "?step None (walk_start sample_private) = Some w" "w_rank w = Some Samar"
    by (simp add: defs sample_private_def)
  then have on: "on_ladder Enlisted w" by (simp add: on_ladder_def ENLISTED_RANKS_def)
  have "run_steps MAX_CHAIN_STEPS (?step None) (walk_start sample_private) = run_steps 23 (?step None) w"
    using w(1) by (simp add: MAX_CHAIN_STEPS_def eval_nat_numeral)
  then have "j_rank (project_soldier_state add_months [] None sample_private 700200) = w_rank (run_steps 23 (?step None) w)"
    by (simp add: project_soldier_state_def sample_private_track Let_def)
  moreover have "rung Enlisted (Some Samal) < rung Enlisted (w_rank w)"
    unfolding w(2) by (simp add: rung_def index_of_def ENLISTED_RANKS_def)
  ultimately show "j_rank (project_soldier_state add_months [] None sample_private 700200) \<noteq> Some Samal"
    using walk_rung [OF on, of 23 add_months "[]" None sample_private 700200] by auto
qed

text \<open>
  The first day of career service is not the boundary of \<open>derive_is_career\<close>: a soldier
  discharged before his mandatory end never enters career service, yet is career after it.
\<close>

lemma career_boundary_differs:
  "career_entry_date (Some 100) (Some 90) = None" "derive_is_career (Some Segen) (Some 100) (Some 90) 101"
  by (simp_all add: career_entry_date_def derive_is_career_def CHOVAH_ONLY_RANKS_def)

end
