(* ===== verification/OrgSound.thy ===== *)
theory OrgSound
  imports Org
begin

text \<open>
  What the organisation's operations keep.  \<open>tree_ok\<close>: row identifiers are distinct and
  every node's \<open>path_ids\<close> is its parent's path with itself appended, so the nodes form a
  forest.  \<open>ranks_ok\<close>: every child's level ranks below its parent's.  The reachable
  organisations are those the operations build from one without nodes.
\<close>

named_theorems org_simps

section \<open>Lookups\<close>

lemma node_of_Some: "node_of s i = Some n \<Longrightarrow> n \<in> set (o_nodes s) \<and> n_id n = i"
  unfolding node_of_def by (auto simp: find_Some_iff)

lemma node_of_None: "node_of s i = None \<longleftrightarrow> (\<forall>n \<in> set (o_nodes s). n_id n \<noteq> i)"
  unfolding node_of_def by (auto simp: find_None_iff)

lemma find_distinct:
  "distinct (map f xs) \<Longrightarrow> x \<in> set xs \<Longrightarrow> find (\<lambda>y. f y = f x) xs = Some x"
  by (induction xs) auto

lemma find_map_same: "(\<And>x. f (g x) = f x) \<Longrightarrow>
    find (\<lambda>y. f y = i) (map g xs) = map_option g (find (\<lambda>y. f y = i) xs)"
  by (induction xs) auto

lemma node_of_mem:
  "distinct (map n_id (o_nodes s)) \<Longrightarrow> n \<in> set (o_nodes s) \<Longrightarrow> node_of s (n_id n) = Some n"
  unfolding node_of_def by (rule find_distinct)

lemma audit_simps [org_simps, simp]:
  "o_nodes (write_audit a b c s) = o_nodes s" "o_levels (write_audit a b c s) = o_levels s"
  "o_people (write_audit a b c s) = o_people s" "o_scopes (write_audit a b c s) = o_scopes s"
  "o_deputies (write_audit a b c s) = o_deputies s"
  by (simp_all add: write_audit_def)

lemma person_update_simps [org_simps, simp]:
  "o_nodes (update_person i f s) = o_nodes s" "o_levels (update_person i f s) = o_levels s"
  "o_scopes (update_person i f s) = o_scopes s" "o_deputies (update_person i f s) = o_deputies s"
  by (simp_all add: update_person_def)

lemma role_simps [org_simps, simp]:
  "o_nodes (recompute_role t i s) = o_nodes s" "o_levels (recompute_role t i s) = o_levels s"
  by (simp_all add: recompute_role_def)

lemma node_of_nodes: "o_nodes s = o_nodes s' \<Longrightarrow> node_of s = node_of s'"
  by (simp add: node_of_def fun_eq_iff)

lemma rank_of_levels: "o_levels s = o_levels s' \<Longrightarrow> get_level_rank s = get_level_rank s'"
  by (simp add: get_level_rank_def rank_of_key_def fun_eq_iff cong: option.case_cong)

section \<open>The forest\<close>

definition path_ok :: "org \<Rightarrow> HierarchyNode \<Rightarrow> bool" where
  "path_ok s n \<longleftrightarrow>
     (case n_parent_id n of None \<Rightarrow> n_path_ids n = [n_id n]
      | Some i \<Rightarrow> (case node_of s i of None \<Rightarrow> False
          | Some q \<Rightarrow> n_path_ids n = n_path_ids q @ [n_id n]))"

definition tree_ok :: "org \<Rightarrow> bool" where
  "tree_ok s \<longleftrightarrow> distinct (map n_id (o_nodes s)) \<and> list_all (path_ok s) (o_nodes s)"

lemma tree_distinct: "tree_ok s \<Longrightarrow> distinct (map n_id (o_nodes s))"
  by (simp add: tree_ok_def)

lemma tree_path: "tree_ok s \<Longrightarrow> n \<in> set (o_nodes s) \<Longrightarrow> path_ok s n"
  by (simp add: tree_ok_def list_all_iff)

lemma tree_node: "tree_ok s \<Longrightarrow> n \<in> set (o_nodes s) \<Longrightarrow> node_of s (n_id n) = Some n"
  by (simp add: tree_distinct node_of_mem)

lemma tree_cases:
  assumes "tree_ok s" "n \<in> set (o_nodes s)"
  obtains (root) "n_parent_id n = None" "n_path_ids n = [n_id n]"
  | (child) q where "n_parent_id n = Some (n_id q)" "q \<in> set (o_nodes s)"
      "node_of s (n_id q) = Some q" "n_path_ids n = n_path_ids q @ [n_id n]"
proof (cases "n_parent_id n")
  case None then show ?thesis using tree_path [OF assms] root by (simp add: path_ok_def)
next
  case (Some i)
  then obtain q where q: "node_of s i = Some q" "n_path_ids n = n_path_ids q @ [n_id n]"
    using tree_path [OF assms] by (auto simp: path_ok_def split: option.splits)
  show ?thesis using child [of q] q(2) Some node_of_Some [OF q(1)] q(1) by auto
qed

lemma path_induct [consumes 2, case_names root child]:
  assumes "tree_ok s" "n \<in> set (o_nodes s)"
    and root: "\<And>n. n \<in> set (o_nodes s) \<Longrightarrow> n_parent_id n = None \<Longrightarrow> n_path_ids n = [n_id n] \<Longrightarrow> P n"
    and child: "\<And>n q. n \<in> set (o_nodes s) \<Longrightarrow> q \<in> set (o_nodes s) \<Longrightarrow> n_parent_id n = Some (n_id q)
        \<Longrightarrow> n_path_ids n = n_path_ids q @ [n_id n] \<Longrightarrow> P q \<Longrightarrow> P n"
  shows "P n"
  using assms(2)
proof (induction "length (n_path_ids n)" arbitrary: n rule: less_induct)
  case less
  from assms(1) less.prems show ?case
  proof (cases rule: tree_cases)
    case root then show ?thesis using assms(3) less.prems by blast
  next
    case (child q)
    then show ?thesis using assms(4) [of n q] less.hyps [of q] less.prems by simp
  qed
qed

lemma path_prefix:
  assumes "tree_ok s" "n \<in> set (o_nodes s)" "m \<in> set (n_path_ids n)"
  shows "\<exists>q xs. q \<in> set (o_nodes s) \<and> n_id q = m \<and> n_path_ids n = n_path_ids q @ xs"
  using assms
proof (induction rule: path_induct)
  case (child n q) then show ?case by (metis append.assoc append_Nil2 in_set_conv_decomp
        insert_iff list.set(2) set_append Un_iff empty_iff list.set(1))
qed auto

lemma path_last: "tree_ok s \<Longrightarrow> n \<in> set (o_nodes s) \<Longrightarrow> \<exists>xs. n_path_ids n = xs @ [n_id n]"
  by (cases rule: tree_cases) auto

lemma path_self: "tree_ok s \<Longrightarrow> n \<in> set (o_nodes s) \<Longrightarrow> n_id n \<in> set (n_path_ids n)"
  using path_last by fastforce

lemma path_drop:
  assumes "tree_ok s" "n \<in> set (o_nodes s)" "q \<in> set (o_nodes s)" "n_id q \<in> set (n_path_ids n)"
  shows "n_path_ids n = n_path_ids q @ drop (length (n_path_ids q)) (n_path_ids n)"
proof -
  obtain q' xs where "q' \<in> set (o_nodes s)" "n_id q' = n_id q" "n_path_ids n = n_path_ids q' @ xs"
    using path_prefix [OF assms(1,2,4)] by blast
  moreover from this have "q' = q" using tree_node [OF assms(1)] assms(3) by (metis option.inject)
  ultimately show ?thesis by simp
qed

lemma parent_above:
  assumes "tree_ok s" "n \<in> set (o_nodes s)" "q \<in> set (o_nodes s)" "n_path_ids n = n_path_ids q @ [n_id n]"
  shows "n_id n \<notin> set (n_path_ids q)"
proof
  assume "n_id n \<in> set (n_path_ids q)"
  from path_drop [OF assms(1,3,2) this] show False
    by (metis assms(4) append.assoc append_self_conv not_Cons_self2 append_is_Nil_conv)
qed

lemma path_distinct:
  assumes "tree_ok s" "n \<in> set (o_nodes s)"
  shows "distinct (n_path_ids n)"
  using assms by (induction rule: path_induct) (auto simp: parent_above [OF assms(1)])

section \<open>Paths are the ancestors\<close>

definition parent_table :: "org \<Rightarrow> parents" where
  "parent_table s = map (\<lambda>n. (n_id n, n_parent_id n)) (o_nodes s)"

lemma parent_of_table:
  "parent_of (parent_table s) i = (case node_of s i of None \<Rightarrow> None | Some n \<Rightarrow> n_parent_id n)"
proof -
  have "map_of (map (\<lambda>n. (n_id n, n_parent_id n)) ns) i
      = map_option n_parent_id (find (\<lambda>n. n_id n = i) ns)" for ns :: "HierarchyNode list"
    by (induction ns) auto
  then show ?thesis unfolding parent_of_def parent_table_def node_of_def dict_get_def
    by (simp split: option.split)
qed

lemma path_ancestors:
  assumes "tree_ok s" "n \<in> set (o_nodes s)"
  shows "set (n_path_ids n) = {m. ancestor (parent_table s) (n_id n) m}"
  using assms
proof (induction rule: path_induct)
  case (root n)
  have "parent_of (parent_table s) (n_id n) = None"
    using root tree_node [OF assms(1)] by (simp add: parent_of_table)
  then show ?case using root by (auto intro: ancestor_self elim: ancestorE)
next
  case (child n q)
  have "parent_of (parent_table s) (n_id n) = Some (n_id q)"
    using child tree_node [OF assms(1)] by (simp add: parent_of_table)
  then show ?case using child by (auto intro: ancestor_self ancestor_up elim: ancestorE)
qed

lemma path_node_ancestors:
  assumes "tree_ok s" "n \<in> set (o_nodes s)"
  shows "set (n_path_ids n) = set (node_ancestors (n_id n) (parent_table s))"
  unfolding path_ancestors [OF assms] node_ancestors_def by (subst walk_set) simp_all

lemma sym_diff_cong: "set xs = set xs' \<Longrightarrow> set ys = set ys' \<Longrightarrow> sym_diff_size xs ys = sym_diff_size xs' ys'"
  by (simp add: sym_diff_card)

section \<open>Moving a node\<close>

lemma moved_simps [simp]:
  "n_id (moved node p path d) = n_id d" "n_level (moved node p path d) = n_level d"
  "n_commander_id (moved node p path d) = n_commander_id d"
  "n_name (moved node p path d) = n_name d"
  by (simp_all add: moved_def)

lemma moved_other: "n_id node \<notin> set (n_path_ids d) \<Longrightarrow> n_id d \<noteq> n_id node \<Longrightarrow> moved node p path d = d"
  by (simp add: moved_def)

lemma move_baseE:
  assumes "move_base s node p = Inr base"
  obtains (top) "p = None" "base = []"
  | (under) q where "p = Some (n_id q)" "q \<in> set (o_nodes s)" "node_of s (n_id q) = Some q"
      "n_id q \<noteq> n_id node" "n_id node \<notin> set (n_path_ids q)" "base = n_path_ids q"
      "below (get_level_rank s (n_level node)) (get_level_rank s (n_level q))"
proof (cases p)
  case None then show ?thesis using assms top by (simp add: move_base_def)
next
  case (Some j)
  then obtain q where "node_of s j = Some q" "j \<noteq> n_id node" "n_id node \<notin> set (n_path_ids q)"
      "base = n_path_ids q" "below (get_level_rank s (n_level node)) (get_level_rank s (n_level q))"
    using assms by (auto simp: move_base_def split: if_split_asm option.splits)
  then show ?thesis using under [of q] Some node_of_Some [of s j q] by auto
qed

lemma node_of_map:
  assumes "o_nodes s' = map f (o_nodes s)" "\<And>n. n_id (f n) = n_id n"
  shows "node_of s' i = map_option f (node_of s i)"
  unfolding node_of_def assms(1) by (rule find_map_same) (rule assms(2))

lemma move_tree:
  assumes t: "tree_ok s" and n: "node_of s i = Some node" and b: "move_base s node p = Inr base"
    and s': "o_nodes s' = map (moved node p (base @ [i])) (o_nodes s)"
  shows "tree_ok s'"
proof -
  let ?mv = "moved node p (base @ [i])"
  have node: "node \<in> set (o_nodes s)" "n_id node = i" using node_of_Some [OF n] by auto
  note look = node_of_map [OF s', of i for i, OF moved_simps(1)]
  have "path_ok s' (?mv d)" if d: "d \<in> set (o_nodes s)" for d
  proof (cases "n_id d = i")
    case True
    with b show ?thesis
    proof (cases rule: move_baseE)
      case (under q)
      then have "?mv q = q" using node by (intro moved_other) auto
      then show ?thesis using True under look [of "n_id q"] node by (simp add: path_ok_def moved_def)
    qed (simp add: path_ok_def moved_def node)
  next
    case False
    from t d show ?thesis
    proof (cases rule: tree_cases)
      case root then show ?thesis using False node by (simp add: path_ok_def moved_def)
    next
      case (child q)
      show ?thesis
      proof (cases "i \<in> set (n_path_ids q)")
        case True
        have le: "length (n_path_ids node) \<le> length (n_path_ids q)"
          using path_drop [OF t child(2) node(1)] True node(2)
          by (metis length_append le_add1)
        have "n_path_ids (?mv q) = base @ i # drop (length (n_path_ids node)) (n_path_ids q)"
        proof (cases "n_id q = i")
          case True
          then have "q = node" using n child(3) by simp
          then show ?thesis by (simp add: moved_def node)
        next
          case False then show ?thesis using True by (simp add: moved_def node)
        qed
        then show ?thesis using True False child look [of "n_id q"] node le
          by (simp add: path_ok_def moved_def)
      next
        case False
        then have "n_id q \<noteq> i" using path_self [OF t child(2)] by auto
        then have "?mv q = q" using False node by (intro moved_other) auto
        then show ?thesis using \<open>n_id d \<noteq> i\<close> False child look [of "n_id q"] node
          by (simp add: path_ok_def moved_def)
      qed
    qed
  qed
  then show ?thesis using tree_distinct [OF t] by (simp add: tree_ok_def s' list_all_iff comp_def)
qed

text \<open>Moving back restores every node.\<close>

lemma moved_back:
  assumes t: "tree_ok s" and n: "node_of s i = Some node" and d: "d \<in> set (o_nodes s)"
    and old: "n_path_ids node = old_base @ [i]"
    and node': "node' = moved node p (base @ [i]) node"
  shows "moved node' (n_parent_id node) (old_base @ [i]) (moved node p (base @ [i]) d) = d"
proof -
  have node: "node \<in> set (o_nodes s)" "n_id node = i" using node_of_Some [OF n] by auto
  have id': "n_id node' = i" and len': "length (n_path_ids node') = length base + 1"
    using node by (simp_all add: node' moved_def)
  show ?thesis
  proof (cases "n_id d = i")
    case True
    then have "d = node" using tree_node [OF t d] n by simp
    then show ?thesis using node id' old by (simp add: moved_def)
  next
    case False
    show ?thesis
    proof (cases "i \<in> set (n_path_ids d)")
      case True
      have "n_path_ids d = n_path_ids node @ drop (length (n_path_ids node)) (n_path_ids d)"
        using path_drop [OF t d node(1)] True node(2) by simp
      then show ?thesis using True False node id' len' old by (simp add: moved_def)
    next
      case no: False
      then have "moved node p (base @ [i]) d = d" using False node by (intro moved_other) auto
      moreover have "moved node' (n_parent_id node) (old_base @ [i]) d = d"
        using no False id' by (intro moved_other) auto
      ultimately show ?thesis by simp
    qed
  qed
qed

end
