(* ===== verification/OrgSteps.thy ===== *)
theory OrgSteps
  imports OrgSound
begin

text \<open>
  The invariant of the organisation over every sequence of operations, with any arguments the
  code accepts.  Two parts of it depend on them: \<open>keyed\<close>, every level given so far was a
  registered key and not one of the old Hebrew labels that \<open>get_level_rank\<close> also accepts, and
  \<open>single\<close>, no node was created for a commander who commands another one.  With \<open>keyed\<close> every
  child ranks below its parent and every level is registered; with \<open>single\<close> nobody commands
  two nodes; all else holds in any case.
\<close>

section \<open>The invariant\<close>

definition ranks_ok :: "org \<Rightarrow> bool" where
  "ranks_ok s \<longleftrightarrow> (\<forall>n \<in> set (o_nodes s). \<forall>i q. n_parent_id n = Some i \<longrightarrow> node_of s i = Some q
     \<longrightarrow> below (get_level_rank s (n_level n)) (get_level_rank s (n_level q)))"

definition levels_ok :: "org \<Rightarrow> bool" where
  "levels_ok s \<longleftrightarrow> distinct (map t_id (o_levels s)) \<and> distinct (map t_key (o_levels s))
     \<and> distinct (map t_rank (o_levels s)) \<and> (\<forall>t \<in> set (o_levels s). 0 < t_rank t)"

definition registered :: "org \<Rightarrow> bool" where
  "registered s \<longleftrightarrow> n_level ` set (o_nodes s) \<subseteq> t_key ` set (o_levels s)"

definition commands_ok :: "org \<Rightarrow> bool" where
  "commands_ok s \<longleftrightarrow> (\<forall>n \<in> set (o_nodes s). \<forall>m \<in> set (o_nodes s). n_commander_id n \<noteq> None
     \<longrightarrow> n_commander_id n = n_commander_id m \<longrightarrow> n_id n = n_id m)"

definition places_ok :: "org \<Rightarrow> bool" where
  "places_ok s \<longleftrightarrow> (\<forall>p \<in> set (o_people s). \<forall>i. p_node_id p = Some i \<longrightarrow> node_of s i \<noteq> None)
     \<and> (\<forall>g \<in> set (o_scopes s). node_of s (g_node_id g) \<noteq> None)"

definition org_ok :: "bool \<Rightarrow> bool \<Rightarrow> org \<Rightarrow> bool" where
  "org_ok keyed single s \<longleftrightarrow> tree_ok s \<and> levels_ok s \<and> places_ok s
     \<and> (keyed \<longrightarrow> ranks_ok s \<and> registered s) \<and> (single \<longrightarrow> commands_ok s)"

text \<open>The level an operation gives is a registered key; the commander it names commands nothing.\<close>

definition by_key :: "org \<Rightarrow> string \<Rightarrow> bool" where
  "by_key s level = list_ex (\<lambda>t. t_key t = level) (o_levels s)"

definition commands_nothing :: "org \<Rightarrow> uuid option \<Rightarrow> bool" where
  "commands_nothing s c = (c = None \<or> list_all (\<lambda>n. n_commander_id n \<noteq> c) (o_nodes s))"

lemma path_ok_iff: "path_ok s n \<longleftrightarrow> (n_parent_id n = None \<longrightarrow> n_path_ids n = [n_id n])
    \<and> (\<forall>i. n_parent_id n = Some i \<longrightarrow> (\<exists>q. node_of s i = Some q \<and> n_path_ids n = n_path_ids q @ [n_id n]))"
  by (auto simp: path_ok_def split: option.splits)

lemma find_append: "find P (xs @ ys) = (case find P xs of Some x \<Rightarrow> Some x | None \<Rightarrow> find P ys)"
  by (induction xs) auto

lemma same_nodes:
  assumes "o_nodes s' = o_nodes s" "o_levels s' = o_levels s"
  shows "tree_ok s' = tree_ok s" "ranks_ok s' = ranks_ok s" "levels_ok s' = levels_ok s"
    "commands_ok s' = commands_ok s" "registered s' = registered s"
  using assms node_of_nodes [OF assms(1)] rank_of_levels [OF assms(2)]
  by (simp_all add: tree_ok_def list_all_iff path_ok_iff ranks_ok_def levels_ok_def commands_ok_def
      registered_def)

lemma map_nodes:
  assumes "o_nodes s' = map f (o_nodes s)" "\<And>n. n_id (f n) = n_id n"
  shows "(\<And>n. n_parent_id (f n) = n_parent_id n) \<Longrightarrow> (\<And>n. n_path_ids (f n) = n_path_ids n)
      \<Longrightarrow> tree_ok s \<Longrightarrow> tree_ok s'"
    and "(\<And>n. n_parent_id (f n) = n_parent_id n) \<Longrightarrow> (\<And>n. n_level (f n) = n_level n)
      \<Longrightarrow> o_levels s' = o_levels s \<Longrightarrow> ranks_ok s \<Longrightarrow> ranks_ok s'"
    and "(\<And>n. n_level (f n) = n_level n) \<Longrightarrow> o_levels s' = o_levels s \<Longrightarrow> registered s \<Longrightarrow> registered s'"
    and "(\<And>n. n_commander_id (f n) = n_commander_id n) \<Longrightarrow> commands_ok s \<Longrightarrow> commands_ok s'"
    and "o_people s' = o_people s \<Longrightarrow> o_scopes s' = o_scopes s \<Longrightarrow> places_ok s \<Longrightarrow> places_ok s'"
proof -
  note look = node_of_map [OF assms]
  show "tree_ok s'" if "\<And>n. n_parent_id (f n) = n_parent_id n" "\<And>n. n_path_ids (f n) = n_path_ids n" "tree_ok s"
  proof -
    have "path_ok s' (f n)" if "path_ok s n" for n
      using that unfolding path_ok_iff by (fastforce simp: look \<open>\<And>n. n_parent_id (f n) = n_parent_id n\<close>
          \<open>\<And>n. n_path_ids (f n) = n_path_ids n\<close> assms(2))
    then show ?thesis using that(3) by (simp add: tree_ok_def assms list_all_iff comp_def)
  qed
  show "ranks_ok s'" if "\<And>n. n_parent_id (f n) = n_parent_id n" "\<And>n. n_level (f n) = n_level n"
      "o_levels s' = o_levels s" "ranks_ok s"
    using that(4) rank_of_levels [OF that(3)] unfolding ranks_ok_def assms(1)
    by (auto simp: look that(1,2))
  show "registered s'" if "\<And>n. n_level (f n) = n_level n" "o_levels s' = o_levels s" "registered s"
    using that unfolding registered_def assms(1) by auto
  show "commands_ok s'" if "\<And>n. n_commander_id (f n) = n_commander_id n" "commands_ok s"
    using that unfolding commands_ok_def assms(1) by (auto simp: assms(2))
  show "places_ok s'" if "o_people s' = o_people s" "o_scopes s' = o_scopes s" "places_ok s"
    using that unfolding places_ok_def by (simp add: look)
qed

lemma same_levels: "o_levels s' = o_levels s \<Longrightarrow> levels_ok s' = levels_ok s"
  by (simp add: levels_ok_def)

lemma below_trans: "below a b \<Longrightarrow> below b c \<Longrightarrow> below a c"
  by (auto simp: below_def split: option.splits)

lemma ranks_mapI:
  assumes "o_nodes s' = map f (o_nodes s)" "\<And>n. n_id (f n) = n_id n"
    and "\<And>d j q. d \<in> set (o_nodes s) \<Longrightarrow> n_parent_id (f d) = Some j \<Longrightarrow> node_of s j = Some q
        \<Longrightarrow> below (get_level_rank s' (n_level (f d))) (get_level_rank s' (n_level (f q)))"
  shows "ranks_ok s'"
  unfolding ranks_ok_def
proof (intro ballI allI impI)
  fix n i q assume n: "n \<in> set (o_nodes s')" "n_parent_id n = Some i" "node_of s' i = Some q"
  obtain d where d: "d \<in> set (o_nodes s)" "n = f d" using n(1) by (auto simp: assms(1))
  obtain r where r: "node_of s i = Some r" "q = f r"
    using n(3) by (auto simp: node_of_map [OF assms(1,2)])
  show "below (get_level_rank s' (n_level n)) (get_level_rank s' (n_level q))"
    using assms(3) [OF d(1) _ r(1)] n(2) d(2) r(2) by simp
qed

section \<open>Creating and deleting nodes\<close>

lemma create_node_ok:
  assumes ok: "org_ok k u s" and c: "create_node s i level name parent commander a = Inr s'"
    and i: "node_of s i = None"
  shows "org_ok (k \<and> by_key s level) (u \<and> commands_nothing s commander) s'"
proof -
  obtain base where base: "case parent of None \<Rightarrow> base = []
       | Some j \<Rightarrow> \<exists>q. node_of s j = Some q \<and> base = n_path_ids q
           \<and> below (get_level_rank s level) (get_level_rank s (n_level q))"
    and s': "s' = write_audit a ''hierarchy_node.create'' (Some i) (s\<lparr>o_nodes := o_nodes s @
        [\<lparr>n_id = i, n_level = level, n_name = name, n_parent_id = parent,
          n_commander_id = commander, n_path_ids = base @ [i]\<rparr>]\<rparr>)"
    using c by (auto simp: create_node_def split: if_split_asm sum.splits option.splits)
  let ?n = "\<lparr>n_id = i, n_level = level, n_name = name, n_parent_id = parent,
          n_commander_id = commander, n_path_ids = base @ [i]\<rparr>"
  have nodes: "o_nodes s' = o_nodes s @ [?n]" and rest: "o_levels s' = o_levels s"
      "o_people s' = o_people s" "o_scopes s' = o_scopes s"
    by (simp_all add: s')
  have fresh: "\<And>n. n \<in> set (o_nodes s) \<Longrightarrow> n_id n \<noteq> i" using i by (simp add: node_of_None)
  have old: "node_of s j = Some q \<Longrightarrow> node_of s' j = Some q" for j q
    by (simp add: node_of_def nodes find_append)
  have exists: "node_of s j \<noteq> None \<Longrightarrow> node_of s' j \<noteq> None" for j using old [of j] by auto
  have new: "node_of s' j = Some q \<Longrightarrow> j \<noteq> i \<Longrightarrow> node_of s j = Some q" for j q
    by (auto simp: node_of_def nodes find_append split: option.splits if_split_asm)
  have known: "\<And>n j. n \<in> set (o_nodes s) \<Longrightarrow> n_parent_id n = Some j \<Longrightarrow> j \<noteq> i"
    using ok i by (fastforce simp: org_ok_def tree_ok_def list_all_iff path_ok_iff)
  note ranks = rank_of_levels [OF rest(1)]
  have "tree_ok s'"
  proof -
    have "path_ok s' n" if "path_ok s n" for n
      using that old unfolding path_ok_iff by blast
    moreover have "path_ok s' ?n"
    proof (cases parent)
      case (Some j)
      then obtain q where "node_of s' j = Some q" "base = n_path_ids q" using base old by auto
      then show ?thesis using Some by (simp add: path_ok_iff)
    qed (use base in \<open>simp add: path_ok_iff\<close>)
    ultimately show ?thesis
      using ok fresh by (auto simp: tree_ok_def nodes org_ok_def list_all_iff)
  qed
  moreover have "ranks_ok s'" if k
  proof -
    have "below (get_level_rank s (n_level n)) (get_level_rank s (n_level q))"
      if "n \<in> set (o_nodes s')" "n_parent_id n = Some j" "node_of s' j = Some q" for n j q
    proof (cases "n \<in> set (o_nodes s)")
      case True
      then show ?thesis using ok \<open>k\<close> new [OF that(3)] known [OF True that(2)] that(2)
        by (auto simp: org_ok_def ranks_ok_def)
    next
      case False
      then have "n = ?n" using that(1) by (simp add: nodes)
      then have "parent = Some j" "n_level n = level" using that(2) by auto
      then show ?thesis using base old that(3) by auto
    qed
    then show ?thesis by (simp add: ranks_ok_def ranks)
  qed
  moreover have "levels_ok s'" using ok same_levels [OF rest(1)] by (simp add: org_ok_def)
  moreover have "registered s'" if k "by_key s level"
    using ok that unfolding registered_def nodes org_ok_def rest by (auto simp: by_key_def list_ex_iff)
  moreover have "commands_ok s'" if u: u and n: "commands_nothing s commander"
    unfolding commands_ok_def
  proof (intro ballI impI)
    fix x y assume a: "x \<in> set (o_nodes s')" "y \<in> set (o_nodes s')" "n_commander_id x \<noteq> None"
      "n_commander_id x = n_commander_id y"
    have "z = ?n \<or> n_commander_id z \<noteq> commander" if "z \<in> set (o_nodes s')" "n_commander_id z \<noteq> None" for z
      using n that by (auto simp: nodes commands_nothing_def list_all_iff)
    then have "x = ?n \<longleftrightarrow> y = ?n" using a by (metis HierarchyNode.select_convs(5))
    then show "n_id x = n_id y" using ok u a unfolding org_ok_def commands_ok_def by (auto simp: nodes)
  qed
  moreover have "places_ok s'" using ok exists unfolding places_ok_def rest org_ok_def by blast
  ultimately show ?thesis by (simp add: org_ok_def)
qed

lemma delete_node_ok:
  assumes ok: "org_ok k u s" and c: "delete_node s refs i a = Inr s'"
  shows "org_ok k u s'"
proof -
  have free: "\<forall>n \<in> set (o_nodes s). n_parent_id n \<noteq> Some i" "\<forall>p \<in> set (o_people s). p_node_id p \<noteq> Some i"
    and s': "s' = write_audit a ''hierarchy_node.delete'' (Some i)
        (s\<lparr>o_nodes := filter (\<lambda>n. n_id n \<noteq> i) (o_nodes s),
           o_scopes := filter (\<lambda>g. g_node_id g \<noteq> i) (o_scopes s)\<rparr>)"
    using c by (auto simp: delete_node_def list_ex_iff split: if_split_asm)
  have look: "node_of s' j = (if j = i then None else node_of s j)" for j
  proof -
    have "find (\<lambda>n. n_id n = j) (filter (\<lambda>n. n_id n \<noteq> i) ns)
        = (if j = i then None else find (\<lambda>n. n_id n = j) ns)" for ns
      by (induction ns) auto
    from this [of "o_nodes s"] show ?thesis by (simp add: node_of_def s' cong: if_cong)
  qed
  have nodes: "o_nodes s' = filter (\<lambda>n. n_id n \<noteq> i) (o_nodes s)" and rest: "o_levels s' = o_levels s"
    by (simp_all add: s')
  note ranks = rank_of_levels [OF rest]
  have "tree_ok s'"
    using ok free(1) unfolding tree_ok_def nodes org_ok_def list_all_iff
    by (auto simp: path_ok_iff look distinct_map_filter)
  moreover have "ranks_ok s'" if k
    using ok that free(1) unfolding ranks_ok_def nodes org_ok_def ranks by (auto simp: look split: if_split_asm)
  moreover have "levels_ok s'" using ok same_levels [OF rest] by (simp add: org_ok_def)
  moreover have "registered s'" if k using ok that unfolding registered_def nodes org_ok_def rest by auto
  moreover have "commands_ok s'" if u using ok that unfolding commands_ok_def nodes org_ok_def by auto
  moreover have "places_ok s'"
  proof -
    have "o_people s' = o_people s" "o_scopes s' = filter (\<lambda>g. g_node_id g \<noteq> i) (o_scopes s)"
      by (simp_all add: s')
    then show ?thesis using ok free(2) by (auto simp: places_ok_def org_ok_def look)
  qed
  ultimately show ?thesis by (simp add: org_ok_def)
qed

section \<open>Changing nodes\<close>

lemma rename_node_ok:
  assumes "org_ok k u s" "rename_node s i name a = Inr s'"
  shows "org_ok k u s'"
proof -
  have nodes: "o_nodes s' = map (\<lambda>n. if n_id n = i then n\<lparr>n_name := name\<rparr> else n) (o_nodes s)"
    and rest: "o_levels s' = o_levels s" "o_people s' = o_people s" "o_scopes s' = o_scopes s"
    using assms(2) by (auto simp: rename_node_def update_node_def split: if_split_asm)
  show ?thesis using assms(1) map_nodes [OF nodes] same_levels [OF rest(1)] rest unfolding org_ok_def by auto
qed

lemma move_node_ok:
  assumes ok: "org_ok k u s" and c: "move_node s i p a = Inr s'"
  shows "org_ok k u s'"
proof -
  obtain node base where n: "node_of s i = Some node" and b: "move_base s node p = Inr base"
    and s': "s' = write_audit a ''hierarchy_node.move'' (Some i)
        (s\<lparr>o_nodes := map (moved node p (base @ [i])) (o_nodes s)\<rparr>)"
    using c by (auto simp: move_node_def split: option.splits sum.splits)
  have nodes: "o_nodes s' = map (moved node p (base @ [i])) (o_nodes s)"
    and rest: "o_levels s' = o_levels s" "o_people s' = o_people s" "o_scopes s' = o_scopes s"
    by (simp_all add: s')
  have node: "node \<in> set (o_nodes s)" "n_id node = i" using node_of_Some [OF n] by auto
  have t: "tree_ok s" using ok by (simp add: org_ok_def)
  note look = node_of_map [OF nodes moved_simps(1)]
  have "below (get_level_rank s (n_level d)) (get_level_rank s (n_level q))"
    if k: k and d: "d \<in> set (o_nodes s)" and p: "n_parent_id (moved node p (base @ [i]) d) = Some j"
      and q: "node_of s j = Some q" for d j q
  proof (cases "n_id d = i")
    case True
    then have "d = node" using tree_node [OF t d] n by simp
    with p True node have "p = Some j" by (simp add: moved_def)
    with b show ?thesis using q \<open>d = node\<close> by (cases rule: move_baseE) auto
  next
    case False
    then have "n_parent_id d = Some j" using p node by (simp add: moved_def split: if_split_asm)
    then show ?thesis using ok k d q by (simp add: org_ok_def ranks_ok_def)
  qed
  then have "ranks_ok s'" if k using that rank_of_levels [OF rest(1)] by (intro ranks_mapI [OF nodes]) simp_all
  then show ?thesis using ok map_nodes(3-5) [OF nodes] same_levels [OF rest(1)] rest move_tree [OF t n b nodes]
    unfolding org_ok_def by auto
qed

lemma change_level_ok:
  assumes ok: "org_ok k u s" and c: "change_node_level s i level a = Inr s'"
  shows "org_ok (k \<and> by_key s level) u s'"
proof -
  obtain node where n: "node_of s i = Some node"
    and up: "\<And>j. n_parent_id node = Some j \<Longrightarrow> below (get_level_rank s level)
        (case node_of s j of None \<Rightarrow> None | Some q \<Rightarrow> get_level_rank s (n_level q))"
    and down: "\<And>c. c \<in> set (o_nodes s) \<Longrightarrow> n_parent_id c = Some i
        \<Longrightarrow> below (get_level_rank s (n_level c)) (get_level_rank s level)"
    and s': "s' = write_audit a ''hierarchy_node.change_level'' (Some i)
        (update_node i (n_level_update (\<lambda>_. level)) s)"
    using c by (auto simp: change_node_level_def list_ex_iff split: option.splits if_split_asm)
  let ?f = "\<lambda>n. if n_id n = i then n\<lparr>n_level := level\<rparr> else n"
  have nodes: "o_nodes s' = map ?f (o_nodes s)"
    and rest: "o_levels s' = o_levels s" "o_people s' = o_people s" "o_scopes s' = o_scopes s"
    by (simp_all add: s' update_node_def)
  have node: "node \<in> set (o_nodes s)" "n_id node = i" using node_of_Some [OF n] by auto
  have t: "tree_ok s" using ok by (simp add: org_ok_def)
  have look: "node_of s' j = map_option ?f (node_of s j)" for j by (rule node_of_map [OF nodes]) simp
  have "below (get_level_rank s (n_level (?f d))) (get_level_rank s (n_level (?f q)))"
    if k: k and d: "d \<in> set (o_nodes s)" and p: "n_parent_id d = Some j" and q: "node_of s j = Some q" for d j q
  proof (cases "n_id d = i")
    case True
    then have "d = node" using tree_node [OF t d] n by simp
    moreover have "n_id q \<noteq> i"
    proof
      assume "n_id q = i"
      then have "q = node" using node_of_Some [OF q] n q by auto
      then have "path_ok s node" "n_parent_id node = Some j" "node_of s j = Some node"
        using tree_path [OF t node(1)] p q \<open>d = node\<close> by auto
      then show False by (simp add: path_ok_iff)
    qed
    ultimately show ?thesis using up [of j] p q True by simp
  next
    case False
    then show ?thesis using down [OF d] p q node_of_Some [OF q] ok k d
      by (auto simp: org_ok_def ranks_ok_def)
  qed
  note keep = this
  have "ranks_ok s'" if k
  proof (rule ranks_mapI [OF nodes])
    fix d j q assume d: "d \<in> set (o_nodes s)" "n_parent_id (?f d) = Some j" "node_of s j = Some q"
    have "n_parent_id (?f d) = n_parent_id d" by simp
    from keep [OF that d(1) d(2) [unfolded this] d(3)]
    show "below (get_level_rank s' (n_level (?f d))) (get_level_rank s' (n_level (?f q)))"
      unfolding rank_of_levels [OF rest(1)] .
  qed simp
  moreover have "levels_ok s'" using ok same_levels [OF rest(1)] by (simp add: org_ok_def)
  moreover have "registered s'" if k "by_key s level"
    using ok that unfolding registered_def nodes rest org_ok_def by (auto simp: by_key_def list_ex_iff)
  moreover have "tree_ok s'" using t by (intro map_nodes(1) [OF nodes]) simp_all
  moreover have "commands_ok s'" if u using ok that by (intro map_nodes(4) [OF nodes]) (simp_all add: org_ok_def)
  moreover have "places_ok s'" using ok rest by (intro map_nodes(5) [OF nodes]) (simp_all add: org_ok_def)
  ultimately show ?thesis by (simp add: org_ok_def)
qed

end
