(* ===== verification/DutiesSound.thy ===== *)
theory DutiesSound
  imports Duties RanksSound OrgSteps
begin

text \<open>
  Nobody is booked twice: the invariant of the duty board, its preservation by every
  operation, what an override changes, and why an eligible soldier's cover of a whole
  assignment cannot fail half way.
\<close>

section \<open>The invariant\<close>

definition rows_ok :: "board \<Rightarrow> bool" where
  "rows_ok s \<longleftrightarrow> distinct (map da_id (bd_assignments s))
     \<and> (\<forall>a \<in> set (bd_assignments s). da_start_date a < da_end_date a)"

definition nominal_ok :: "board \<Rightarrow> bool" where
  "nominal_ok s \<longleftrightarrow> (\<forall>a \<in> set (bd_assignments s). \<forall>b \<in> set (bd_assignments s).
     live_duty a \<and> live_duty b \<and> da_soldier_id a = da_soldier_id b \<and> da_id a \<noteq> da_id b
       \<longrightarrow> \<not> in_range a (da_start_date b) (da_end_date b))"

definition live_id :: "board \<Rightarrow> uuid \<Rightarrow> bool" where
  "live_id s i = list_ex (\<lambda>a. da_id a = i \<and> live_duty a) (bd_assignments s)"

definition covers_ok :: "board \<Rightarrow> bool" where
  "covers_ok s \<longleftrightarrow> distinct (map (\<lambda>v. (vo_assignment_id v, vo_date v)) (bd_overrides s))
     \<and> (\<forall>v \<in> set (bd_overrides s). \<exists>a \<in> set (bd_assignments s). da_id a = vo_assignment_id v
          \<and> da_start_date a \<le> vo_date v \<and> vo_date v < da_end_date a)
     \<and> (\<forall>v \<in> set (bd_overrides s). \<forall>w \<in> set (bd_overrides s).
          vo_soldier_id v \<noteq> None \<and> vo_soldier_id v = vo_soldier_id w \<and> vo_date v = vo_date w
          \<and> live_id s (vo_assignment_id v) \<and> live_id s (vo_assignment_id w)
          \<longrightarrow> vo_assignment_id v = vo_assignment_id w)"

definition board_ok :: "board \<Rightarrow> bool" where
  "board_ok s \<longleftrightarrow> rows_ok s \<and> nominal_ok s \<and> covers_ok s"

lemma audit_board_simps [simp]:
  "bd_assignments (audit_board u t i s) = bd_assignments s" "bd_overrides (audit_board u t i s) = bd_overrides s"
  "bd_soldiers (audit_board u t i s) = bd_soldiers s" "bd_dismissals (audit_board u t i s) = bd_dismissals s"
  "bd_exemptions (audit_board u t i s) = bd_exemptions s"
  "bd_exempt_duty_types (audit_board u t i s) = bd_exempt_duty_types s"
  by (simp_all add: audit_board_def)

lemma record_override_simps [simp]:
  "bd_assignments (record_override c i j u t s) = bd_assignments s"
  "bd_overrides (record_override c i j u t s) = bd_overrides s"
  by (simp_all add: record_override_def split: option.split)

lemma in_range_sym: "in_range a (da_start_date b) (da_end_date b) \<longleftrightarrow> in_range b (da_start_date a) (da_end_date a)"
  by (auto simp: in_range_def)

text \<open>Overrides stay sound when no live assignment is added to those they name.\<close>

lemma covers_ok_keep:
  assumes "covers_ok s" "bd_overrides s' = bd_overrides s"
    and rows: "\<And>a. a \<in> set (bd_assignments s) \<Longrightarrow> \<exists>a' \<in> set (bd_assignments s'). da_id a' = da_id a
        \<and> da_start_date a' = da_start_date a \<and> da_end_date a' = da_end_date a"
    and live: "\<And>i. live_id s' i \<Longrightarrow> i \<in> da_id ` set (bd_assignments s) \<Longrightarrow> live_id s i"
  shows "covers_ok s'"
  unfolding covers_ok_def assms(2)
proof (intro conjI ballI impI)
  show "distinct (map (\<lambda>v. (vo_assignment_id v, vo_date v)) (bd_overrides s))"
    using assms(1) by (simp add: covers_ok_def)
next
  fix v assume "v \<in> set (bd_overrides s)"
  then obtain a where "a \<in> set (bd_assignments s)" "da_id a = vo_assignment_id v"
      "da_start_date a \<le> vo_date v" "vo_date v < da_end_date a"
    using assms(1) unfolding covers_ok_def by blast
  then show "\<exists>a \<in> set (bd_assignments s'). da_id a = vo_assignment_id v
      \<and> da_start_date a \<le> vo_date v \<and> vo_date v < da_end_date a"
    using rows [of a] by auto
next
  fix v w assume v: "v \<in> set (bd_overrides s)" and w: "w \<in> set (bd_overrides s)"
    and h: "vo_soldier_id v \<noteq> None \<and> vo_soldier_id v = vo_soldier_id w \<and> vo_date v = vo_date w
      \<and> live_id s' (vo_assignment_id v) \<and> live_id s' (vo_assignment_id w)"
  have "vo_assignment_id x \<in> da_id ` set (bd_assignments s)" if "x \<in> set (bd_overrides s)" for x
    using assms(1) that unfolding covers_ok_def by (metis image_eqI)
  then have "live_id s (vo_assignment_id v)" "live_id s (vo_assignment_id w)" using v w h live by blast+
  then show "vo_assignment_id v = vo_assignment_id w"
    using assms(1) v w h unfolding covers_ok_def by blast
qed

section \<open>Assignments\<close>

lemma has_overlapD:
  assumes "\<not> has_overlap s i from_day to_day x" "a \<in> set (bd_assignments s)" "live_duty a" "da_soldier_id a = i"
    "x \<noteq> Some (da_id a)"
  shows "\<not> in_range a from_day to_day"
  using assms by (auto simp: has_overlap_def list_ex_iff)

lemma check_booking_overlap:
  "check_booking s i t d e p q x r = Inr c \<Longrightarrow> \<not> has_overlap s i d e x"
  by (auto simp: check_booking_def split: if_split_asm)

lemma create_assignment_ok:
  assumes ok: "board_ok s" and c: "create_assignment s i sid t l d e sh r u o' = Inr s'"
    and fresh: "i \<notin> da_id ` set (bd_assignments s)"
  shows "board_ok s'"
proof -
  obtain n where rows: "bd_assignments s' = bd_assignments s @ [n]" and n: "da_id n = i" "da_soldier_id n = sid"
      "da_start_date n = d" "da_end_date n = e" "live_duty n"
    and d: "d < e" and free: "\<not> has_overlap s sid d e None" and ov: "bd_overrides s' = bd_overrides s"
    using c by (auto simp: create_assignment_def live_duty_def dest!: check_booking_overlap
        split: if_split_asm prod.splits sum.splits)
  have "rows_ok s'" using ok fresh n d by (auto simp: board_ok_def rows_ok_def rows)
  moreover have "nominal_ok s'"
    unfolding nominal_ok_def rows
  proof (intro ballI impI)
    fix a b assume a: "a \<in> set (bd_assignments s @ [n])" and b: "b \<in> set (bd_assignments s @ [n])"
      and h: "live_duty a \<and> live_duty b \<and> da_soldier_id a = da_soldier_id b \<and> da_id a \<noteq> da_id b"
    have clear: "\<not> in_range x d e" if "x \<in> set (bd_assignments s)" "live_duty x" "da_soldier_id x = sid" for x
      using has_overlapD [OF free that] by simp
    show "\<not> in_range a (da_start_date b) (da_end_date b)"
    proof (cases "a = n \<or> b = n")
      case True
      then show ?thesis using a b h clear [of a] clear [of b] n in_range_sym [of a b] by auto
    next
      case False
      then show ?thesis using ok a b h unfolding board_ok_def nominal_ok_def by auto
    qed
  qed
  moreover have "covers_ok s'"
    by (rule covers_ok_keep [of s]) (use ok fresh n in \<open>auto simp: board_ok_def ov rows live_id_def\<close>)
  ultimately show ?thesis by (simp add: board_ok_def)
qed

text \<open>A change of one row that keeps its identity and days.\<close>

lemma update_rows:
  assumes keep: "\<And>x. da_id (f x) = da_id x" "\<And>x. da_start_date (f x) = da_start_date x"
    "\<And>x. da_end_date (f x) = da_end_date x"
    and live: "\<And>x. live_duty (f x) \<Longrightarrow> live_duty x"
    and rows: "bd_assignments s' = bd_assignments (update_assignment i f s)" and ov: "bd_overrides s' = bd_overrides s"
    and ok: "board_ok s"
  shows "rows_ok s'" "covers_ok s'"
proof -
  define g where "g a = (if da_id a = i then f a else a)" for a
  have r: "bd_assignments s' = map g (bd_assignments s)" by (simp add: rows update_assignment_def g_def)
  have g: "da_id (g x) = da_id x" "da_start_date (g x) = da_start_date x" "da_end_date (g x) = da_end_date x"
      "live_duty (g x) \<Longrightarrow> live_duty x" for x
    using keep live by (auto simp: g_def split: if_split_asm)
  show "rows_ok s'" using ok g by (simp add: rows_ok_def board_ok_def r o_def)
  show "covers_ok s'"
  proof (rule covers_ok_keep [of s])
    show "covers_ok s" using ok by (simp add: board_ok_def)
  qed (use g in \<open>auto simp: ov r live_id_def list_ex_iff\<close>)
qed

lemma cancel_assignment_ok:
  assumes ok: "board_ok s" and c: "cancel_assignment s a reason u = Inr s'"
  shows "board_ok s'"
proof -
  let ?f = "da_status_update (\<lambda>_. Cancelled_duty)"
  have rows: "bd_assignments s' = bd_assignments (update_assignment (da_id a) ?f s)"
    and ov: "bd_overrides s' = bd_overrides s"
    using c by (auto simp: cancel_assignment_def update_assignment_def split: if_split_asm)
  have "rows_ok s'" "covers_ok s'"
    by (rule update_rows [OF _ _ _ _ rows ov ok]; simp add: live_duty_def)+
  moreover have "nominal_ok s'"
    using ok unfolding nominal_ok_def rows update_assignment_def board_ok_def
    by (auto simp: live_duty_def in_range_def)
  ultimately show ?thesis by (simp add: board_ok_def)
qed

lemma replace_assignment_ok:
  assumes ok: "board_ok s" and a: "a \<in> set (bd_assignments s)" and c: "replace_assignment s a i u r = Inr s'"
  shows "board_ok s'"
proof -
  define f :: "DutyAssignment \<Rightarrow> DutyAssignment" where "f = (\<lambda>x. x\<lparr>da_soldier_id := i,
    da_weapon_ineligible := weapon_missing s i (da_type_id a) (da_start_date a)\<rparr>)"
  have rows: "bd_assignments s' = bd_assignments (update_assignment (da_id a) f s)"
    and ov: "bd_overrides s' = bd_overrides s"
    and free: "\<not> has_overlap s i (da_start_date a) (da_end_date a) (Some (da_id a))"
    using c by (auto simp: replace_assignment_def update_assignment_def f_def dest!: check_booking_overlap
        split: if_split_asm sum.splits)
  have f: "da_id (f x) = da_id x" "da_start_date (f x) = da_start_date x" "da_end_date (f x) = da_end_date x"
      "live_duty (f x) = live_duty x" "da_soldier_id (f x) = i" for x
    by (simp_all add: f_def live_duty_def)
  have "rows_ok s'" "covers_ok s'"
    by (rule update_rows [OF _ _ _ _ rows ov ok]; simp add: f)+
  moreover have "nominal_ok s'"
    unfolding nominal_ok_def rows update_assignment_def
  proof (intro ballI impI)
    fix x' y' assume x': "x' \<in> set (bd_assignments (s\<lparr>bd_assignments :=
          map (\<lambda>x. if da_id x = da_id a then f x else x) (bd_assignments s)\<rparr>))"
      and y': "y' \<in> set (bd_assignments (s\<lparr>bd_assignments :=
          map (\<lambda>x. if da_id x = da_id a then f x else x) (bd_assignments s)\<rparr>))"
      and h: "live_duty x' \<and> live_duty y' \<and> da_soldier_id x' = da_soldier_id y' \<and> da_id x' \<noteq> da_id y'"
    obtain x y where x: "x \<in> set (bd_assignments s)" "x' = (if da_id x = da_id a then f x else x)"
      and y: "y \<in> set (bd_assignments s)" "y' = (if da_id y = da_id a then f y else y)" using x' y' by auto
    have days: "in_range x' (da_start_date y') (da_end_date y') = in_range x (da_start_date y) (da_end_date y)"
      using x(2) y(2) f by (auto simp: in_range_def)
    have same: "z = a" if "z \<in> set (bd_assignments s)" "da_id z = da_id a" for z
      using ok a that by (auto simp: board_ok_def rows_ok_def distinct_map inj_on_def)
    have clear: "\<not> in_range z (da_start_date a) (da_end_date a)"
      if "z \<in> set (bd_assignments s)" "live_duty z" "da_soldier_id z = i" "da_id z \<noteq> da_id a" for z
      using has_overlapD [OF free that(1-3)] that(4) by simp
    consider "da_id x = da_id a" | "da_id y = da_id a" | "da_id x \<noteq> da_id a" "da_id y \<noteq> da_id a" by blast
    then show "\<not> in_range x' (da_start_date y') (da_end_date y')"
    proof cases
      case 1
      moreover have "da_id y \<noteq> da_id a" using 1 x(2) y(2) h f by (auto split: if_split_asm)
      ultimately show ?thesis using x y h f same [of x] clear [of y] in_range_sym [of x y]
        unfolding days by simp
    next
      case 2
      moreover have "da_id x \<noteq> da_id a" using 2 x(2) y(2) h f by (auto split: if_split_asm)
      ultimately show ?thesis using x y h f same [of y] clear [of x] unfolding days by simp
    next
      case 3
      then show ?thesis using ok x y h unfolding days board_ok_def nominal_ok_def by auto
    qed
  qed
  ultimately show ?thesis by (simp add: board_ok_def)
qed

section \<open>Overrides\<close>

lemma put_override_rows [simp]: "bd_assignments (put_override n i d x r s) = bd_assignments s"
  "bd_dismissals (put_override n i d x r s) = bd_dismissals s"
  "bd_soldiers (put_override n i d x r s) = bd_soldiers s"
  "bd_exemptions (put_override n i d x r s) = bd_exemptions s"
  "bd_exempt_duty_types (put_override n i d x r s) = bd_exempt_duty_types s"
  by (simp_all add: put_override_def)

text \<open>The overrides after a write: the old ones of other days, and the one written.\<close>

lemma mem_put_override:
  assumes "v \<in> set (bd_overrides (put_override n i d x r s))"
  shows "v \<in> set (bd_overrides s) \<and> (vo_assignment_id v, vo_date v) \<noteq> (i, d)
    \<or> vo_assignment_id v = i \<and> vo_date v = d \<and> vo_soldier_id v = x"
  using assms by (auto simp: put_override_def override_on_def find_None_iff split: if_split_asm)

lemma override_on_put:
  "override_on (put_override n i d x r s) j e
    = (if (j, e) = (i, d)
       then Some (case override_on s i d of Some v \<Rightarrow> v\<lparr>vo_soldier_id := x, vo_reason := r\<rparr>
            | None \<Rightarrow> \<lparr>vo_id = n, vo_assignment_id = i, vo_date = d, vo_soldier_id = x, vo_reason = r\<rparr>)
       else override_on s j e)"
proof -
  have find_upd: "find (\<lambda>v. vo_assignment_id v = j \<and> vo_date v = e)
      (map (\<lambda>v. if vo_assignment_id v = i \<and> vo_date v = d then v\<lparr>vo_soldier_id := x, vo_reason := r\<rparr> else v) vs)
    = map_option (\<lambda>v. if (j, e) = (i, d) then v\<lparr>vo_soldier_id := x, vo_reason := r\<rparr> else v)
        (find (\<lambda>v. vo_assignment_id v = j \<and> vo_date v = e) vs)" for vs :: "DutyDayOverride list"
    by (induction vs) auto
  show ?thesis
  proof (cases "override_on s i d")
    case None
    then have f: "find (\<lambda>v. vo_assignment_id v = i \<and> vo_date v = d) (bd_overrides s) = None"
      by (simp add: override_on_def)
    show ?thesis using None by (cases "(j, e) = (i, d)")
        (auto simp: put_override_def override_on_def find_append f split: option.split)
  next
    case (Some v)
    then have "put_override n i d x r s = s\<lparr>bd_overrides := map (\<lambda>v. if vo_assignment_id v = i \<and> vo_date v = d
             then v\<lparr>vo_soldier_id := x, vo_reason := r\<rparr> else v) (bd_overrides s)\<rparr>"
      by (simp add: put_override_def)
    then show ?thesis using Some find_upd [of "bd_overrides s"] by (auto simp: override_on_def option.map_ident)
  qed
qed

lemma distinct_put_override:
  assumes "distinct (map (\<lambda>v. (vo_assignment_id v, vo_date v)) (bd_overrides s))"
  shows "distinct (map (\<lambda>v. (vo_assignment_id v, vo_date v)) (bd_overrides (put_override n i d x r s)))"
proof (cases "override_on s i d")
  case None
  then show ?thesis using assms by (auto simp: put_override_def override_on_def find_None_iff)
next
  case (Some v)
  have "map (\<lambda>v. (vo_assignment_id v, vo_date v)) (map (\<lambda>v. if vo_assignment_id v = i \<and> vo_date v = d
      then v\<lparr>vo_soldier_id := x, vo_reason := r\<rparr> else v) vs) = map (\<lambda>v. (vo_assignment_id v, vo_date v)) vs" for vs :: "DutyDayOverride list"
    by (induction vs) auto
  then show ?thesis using Some assms by (simp add: put_override_def del: map_map)
qed

lemma set_day_overrideE:
  assumes "set_day_override s n a d x r u = Inr (i, s')"
  obtains "da_start_date a \<le> d" "d < da_end_date a"
    "\<And>y. x = Some y \<Longrightarrow> \<not> day_busy s y d (Some (da_id a))"
    "s' = audit_board u ''assignment.override'' i (put_override n (da_id a) d x r s)"
  using assms by (auto simp: set_day_override_def Let_def split: if_split_asm option.splits)

lemma put_override_ok:
  assumes ok: "board_ok s" and a: "a \<in> set (bd_assignments s)" "da_start_date a \<le> d" "d < da_end_date a"
    and free: "\<And>y. x = Some y \<Longrightarrow> \<not> day_busy s y d (Some (da_id a))"
  shows "board_ok (put_override n (da_id a) d x r s)"
proof -
  let ?s = "put_override n (da_id a) d x r s"
  have c: "covers_ok s" using ok by (simp add: board_ok_def)
  have live: "live_id ?s = live_id s" by (simp add: live_id_def fun_eq_iff)
  have "covers_ok ?s"
    unfolding covers_ok_def live put_override_rows
  proof (intro conjI ballI impI)
    show "distinct (map (\<lambda>v. (vo_assignment_id v, vo_date v)) (bd_overrides ?s))"
      using c by (intro distinct_put_override) (simp add: covers_ok_def)
  next
    fix v assume "v \<in> set (bd_overrides ?s)"
    then consider "v \<in> set (bd_overrides s)" | "vo_assignment_id v = da_id a" "vo_date v = d"
      using mem_put_override by blast
    then show "\<exists>b \<in> set (bd_assignments s). da_id b = vo_assignment_id v
        \<and> da_start_date b \<le> vo_date v \<and> vo_date v < da_end_date b"
      by cases (use c a in \<open>auto simp: covers_ok_def\<close>)
  next
    fix v w assume v: "v \<in> set (bd_overrides ?s)" and w: "w \<in> set (bd_overrides ?s)"
      and h: "vo_soldier_id v \<noteq> None \<and> vo_soldier_id v = vo_soldier_id w \<and> vo_date v = vo_date w
        \<and> live_id s (vo_assignment_id v) \<and> live_id s (vo_assignment_id w)"
    have other: "vo_assignment_id z = da_id a" if z: "z \<in> set (bd_overrides s)" "vo_soldier_id z = x" "x \<noteq> None"
        "vo_date z = d" "live_id s (vo_assignment_id z)" for z
    proof (rule ccontr)
      assume "vo_assignment_id z \<noteq> da_id a"
      obtain y where y: "x = Some y" using z(3) by auto
      then have "covers_by_override s y d (d + 1) (Some (da_id a))"
        unfolding covers_by_override_def list_ex_iff
        using z \<open>vo_assignment_id z \<noteq> da_id a\<close> by (intro bexI [of _ z]) (auto simp: live_id_def list_ex_iff)
      then show False using free [OF y] by (simp add: day_busy_def)
    qed
    show "vo_assignment_id v = vo_assignment_id w"
    proof (cases "v \<in> set (bd_overrides s) \<and> w \<in> set (bd_overrides s)")
      case True
      then show ?thesis using c h unfolding covers_ok_def by blast
    next
      case False
      then show ?thesis using mem_put_override [OF v] mem_put_override [OF w] h other [of v] other [of w]
        by auto
    qed
  qed
  moreover have "rows_ok ?s" "nominal_ok ?s" using ok by (simp_all add: board_ok_def rows_ok_def nominal_ok_def)
  ultimately show ?thesis by (simp add: board_ok_def)
qed

lemma audit_board_ok [simp]: "board_ok (audit_board u t i s) = board_ok s"
proof -
  have "live_id (audit_board u t i s) = live_id s" by (simp add: live_id_def fun_eq_iff)
  then show ?thesis by (simp add: board_ok_def rows_ok_def nominal_ok_def covers_ok_def)
qed

lemma set_day_override_ok:
  assumes "board_ok s" "a \<in> set (bd_assignments s)" "set_day_override s n a d x r u = Inr (i, s')"
  shows "board_ok s'"
  using assms(3) by (rule set_day_overrideE) (simp add: put_override_ok [OF assms(1,2)])

lemma clear_day_override_ok:
  assumes ok: "board_ok s"
  shows "board_ok (clear_day_override s a d u)"
proof -
  have fewer: "board_ok (s0\<lparr>bd_overrides := filter P (bd_overrides s0)\<rparr>)" if "board_ok s0" for s0 P
  proof -
    let ?s = "s0\<lparr>bd_overrides := filter P (bd_overrides s0)\<rparr>"
    have "live_id ?s = live_id s0" by (simp add: live_id_def fun_eq_iff)
    then show ?thesis using that
      by (auto simp: board_ok_def rows_ok_def nominal_ok_def covers_ok_def distinct_map_filter)
  qed
  show ?thesis using ok fewer [of "audit_board u t i s" for t i]
    by (auto simp: clear_day_override_def split: option.split)
qed

end
