(* ===== verification/Steps.thy ===== *)
theory Steps
  imports Main
begin

text \<open>
  State machines whose operations are steps: the states reachable from a start, the contract
  of an invariant, and facts that no later step undoes.  The services instantiate it with
  their operations on the tables.
\<close>

definition reachable :: "('s \<Rightarrow> bool) \<Rightarrow> ('s \<Rightarrow> 's \<Rightarrow> bool) \<Rightarrow> 's \<Rightarrow> bool" where
  "reachable start step s \<longleftrightarrow> (\<exists>s0. start s0 \<and> step\<^sup>*\<^sup>* s0 s)"

lemma reachable_start: "start s \<Longrightarrow> reachable start step s"
  by (auto simp: reachable_def)

lemma reachable_step: "reachable start step s \<Longrightarrow> step s s' \<Longrightarrow> reachable start step s'"
  by (auto simp: reachable_def intro: rtranclp.rtrancl_into_rtrancl)

locale invariant_system =
  fixes start :: "'s \<Rightarrow> bool" and step :: "'s \<Rightarrow> 's \<Rightarrow> bool" and good :: "'s \<Rightarrow> bool"
  assumes start_good: "start s \<Longrightarrow> good s"
    and step_good: "good s \<Longrightarrow> step s s' \<Longrightarrow> good s'"
begin

lemma steps_good: "step\<^sup>*\<^sup>* s s' \<Longrightarrow> good s \<Longrightarrow> good s'"
  by (induction rule: rtranclp_induct) (auto intro: step_good)

lemma reachable_good: "reachable start step s \<Longrightarrow> good s"
  by (auto simp: reachable_def intro: steps_good start_good)

end

text \<open>A machine some facts of which are final: once \<open>settled k s\<close> holds it holds for ever.\<close>

locale settling_system = invariant_system start step good
  for start :: "'s \<Rightarrow> bool" and step :: "'s \<Rightarrow> 's \<Rightarrow> bool" and good :: "'s \<Rightarrow> bool" +
  fixes settled :: "'k \<Rightarrow> 's \<Rightarrow> bool"
  assumes step_settled: "good s \<Longrightarrow> settled k s \<Longrightarrow> step s s' \<Longrightarrow> settled k s'"
begin

lemma steps_settled: "step\<^sup>*\<^sup>* s s' \<Longrightarrow> good s \<Longrightarrow> settled k s \<Longrightarrow> settled k s'"
  by (induction rule: rtranclp_induct) (auto intro: step_settled steps_good)

end

end
