(* ===== verification/DutiesReach.thy ===== *)
theory DutiesReach
  imports DutiesSound Steps
begin

text \<open>
  The duty board as a state machine and its properties: no double booking, a whole cover
  that cannot fail for an eligible soldier, and the sliding window of the reserve cap.
\<close>

section \<open>Steps\<close>

inductive board_step :: "board \<Rightarrow> board \<Rightarrow> bool" where
  step_create: "create_assignment s i sid t l d e sh r u o' = Inr s' \<Longrightarrow> assignment_of s i = None
    \<Longrightarrow> board_step s s'"
| step_cancel: "cancel_assignment s a reason u = Inr s' \<Longrightarrow> a \<in> set (bd_assignments s) \<Longrightarrow> board_step s s'"
| step_replace: "replace_assignment s a i u r = Inr s' \<Longrightarrow> a \<in> set (bd_assignments s) \<Longrightarrow> board_step s s'"
| step_override: "set_day_override s n a d x r u = Inr (i, s') \<Longrightarrow> a \<in> set (bd_assignments s)
    \<Longrightarrow> board_step s s'"
| step_clear: "a \<in> set (bd_assignments s) \<Longrightarrow> board_step s (clear_day_override s a d u)"

inductive_cases board_stepE: "board_step s s'"

definition empty_board :: "board \<Rightarrow> bool" where
  "empty_board s \<longleftrightarrow> bd_assignments s = [] \<and> bd_overrides s = []"

lemma assignment_of_None: "assignment_of s i = None \<Longrightarrow> i \<notin> da_id ` set (bd_assignments s)"
  by (auto simp: assignment_of_def find_None_iff)

lemma assignment_of_Some: "assignment_of s i = Some a \<Longrightarrow> a \<in> set (bd_assignments s) \<and> da_id a = i"
  by (auto simp: assignment_of_def find_Some_iff)

interpretation duties: invariant_system empty_board board_step board_ok
proof
  show "board_ok s" if "empty_board s" for s
    using that by (simp add: empty_board_def board_ok_def rows_ok_def nominal_ok_def covers_ok_def)
next
  show "board_ok s'" if "board_ok s" "board_step s s'" for s s'
    using that(2,1) by cases (auto intro: create_assignment_ok cancel_assignment_ok
        replace_assignment_ok set_day_override_ok clear_day_override_ok dest: assignment_of_None)
qed

section \<open>The reserve window\<close>

definition reserve_days :: "board \<Rightarrow> uuid \<Rightarrow> date \<Rightarrow> date \<Rightarrow> date set" where
  "reserve_days s sid d e = (\<Union>a \<in> {a \<in> set (bd_assignments s). da_soldier_id a = sid \<and> da_is_reserve a
     \<and> da_status a \<in> {Published, Algorithm_draft}}. {da_start_date a..<da_end_date a}) \<union> {d..<e}"

lemma foldr_max:
  fixes f :: "'a \<Rightarrow> nat"
  shows "foldr (\<lambda>x. max (f x)) xs 0 = (if xs = [] then 0 else Max (f ` set xs))"
  by (induction xs) auto

lemma window_anchor:
  fixes D :: "int set"
  assumes "finite D"
  shows "card {x \<in> D. t \<le> x \<and> x \<le> t + k} \<le> Max (insert 0 ((\<lambda>m. card {x \<in> D. m \<le> x \<and> x \<le> m + k}) ` D))"
proof (cases "{x \<in> D. t \<le> x \<and> x \<le> t + k} = {}")
  case False
  define m where "m = Min {x \<in> D. t \<le> x \<and> x \<le> t + k}"
  have m: "m \<in> {x \<in> D. t \<le> x \<and> x \<le> t + k}" unfolding m_def using assms False by (intro Min_in) auto
  have least: "m \<le> x" if "x \<in> {x \<in> D. t \<le> x \<and> x \<le> t + k}" for x
    unfolding m_def using assms that by (intro Min_le) auto
  have "{x \<in> D. t \<le> x \<and> x \<le> t + k} \<subseteq> {x \<in> D. m \<le> x \<and> x \<le> m + k}" using m least by auto
  then have "card {x \<in> D. t \<le> x \<and> x \<le> t + k} \<le> card {x \<in> D. m \<le> x \<and> x \<le> m + k}"
    using assms by (intro card_mono) auto
  also have "\<dots> \<le> Max (insert 0 ((\<lambda>m. card {x \<in> D. m \<le> x \<and> x \<le> m + k}) ` D))"
    using assms m by (intro Max_ge) auto
  finally show ?thesis .
qed (simp only: card.empty zero_le)

lemma reserve_count:
  fixes s sid d e
  defines "D \<equiv> reserve_days s sid d e" and "W \<equiv> default (se_reserve_window (bd_settings s)) 30"
  shows "finite D \<and> count_reserve_days_in_window s sid d e
    = Max (insert 0 ((\<lambda>m. card {x \<in> D. m \<le> x \<and> x \<le> m + (W - 1)}) ` D))"
proof -
  let ?rows = "filter (\<lambda>a. da_soldier_id a = sid \<and> da_is_reserve a
    \<and> da_status a \<in> {Published, Algorithm_draft}) (bd_assignments s)"
  define ds where "ds = sort (remdups (concat (map (\<lambda>a. days_from_to (da_start_date a) (da_end_date a)) ?rows)
    @ days_from_to d e))"
  have D: "set ds = D"
    unfolding ds_def D_def reserve_days_def by auto
  have dist: "distinct ds" by (simp add: ds_def)
  have len: "length (filter (\<lambda>x. m \<le> x \<and> x \<le> m + (W - 1)) ds) = card {x \<in> D. m \<le> x \<and> x \<le> m + (W - 1)}" for m
    using dist by (simp add: D [symmetric] distinct_card [symmetric] Collect_conj_eq Int_commute)
  have "count_reserve_days_in_window s sid d e
      = foldr (\<lambda>m peak. max peak (length (filter (\<lambda>x. m \<le> x \<and> x \<le> m + (W - 1)) ds))) ds 0"
    by (simp only: count_reserve_days_in_window_def Let_def ds_def W_def)
  also have "\<dots> = foldr (\<lambda>m. max (card {x \<in> D. m \<le> x \<and> x \<le> m + (W - 1)})) ds 0"
    unfolding len by (intro foldr_cong refl max.commute)
  finally have "count_reserve_days_in_window s sid d e
      = foldr (\<lambda>m. max (card {x \<in> D. m \<le> x \<and> x \<le> m + (W - 1)})) ds 0" .
  then show ?thesis unfolding foldr_max using D [symmetric] by (auto simp: Max_insert)
qed

section \<open>Properties\<close>

text \<open>
  C36. The bookings of the board.  Whatever assignments are created, cancelled, replaced and
  handed over by day overrides, in whatever order, two live assignments of one soldier never
  share a day, every override is for a day of its assignment, a day has at most one, and
  nobody covers two live assignments on the same day.
\<close>

theorem no_double_booking:
  assumes "reachable empty_board board_step s"
  shows "rows_ok s \<and> nominal_ok s \<and> covers_ok s"
  using duties.reachable_good [OF assms] by (simp add: board_ok_def)

definition sample_board :: board where
  "sample_board = \<lparr>bd_soldiers = [sample_private], bd_assignments = [], bd_overrides = [], bd_dismissals = [],
     bd_constraints = [], bd_constraint_overrides = [], bd_exemptions = [], bd_exemption_types = [],
     bd_exempt_duty_types = [], bd_exempt_locations = [],
     bd_duty_types = [\<lparr>dt_id = 31, dt_score_per_day = 1, dt_active = True, dt_requirements = No_requirements, dt_rest_hours = None,
       dt_required_range_type = None, dt_reserve_ratio = 0, dt_reserve_minimum = 0,
       dt_start_time = None, dt_end_time = None\<rparr>],
     bd_locations = [32], bd_shifts = [], bd_intervals = [], bd_plus_months = add_months, bd_weapon_ok = (\<lambda>_ _ _. True),
     bd_settings = \<lparr>se_default_rest_hours = None, se_mitvahim_months = None, se_alal_months = None,
       se_reserve_window = None, se_reserve_max = None\<rparr>, bd_audit = []\<rparr>"

definition sample_duty_row :: DutyAssignment where
  "sample_duty_row = \<lparr>da_id = 40, da_soldier_id = 4, da_type_id = 31, da_location_id = 32,
     da_start_date = 700010, da_end_date = 700012, da_start_time = (0, 0), da_end_time = (23, 59),
     da_status = Published, da_shift_id = None, da_is_reserve = True,
     da_called_up_from = None, da_called_up_to = None, da_forced_multiplier = None, da_weapon_ineligible = False\<rparr>"

definition sample_board1 :: board where
  "sample_board1 = sample_board\<lparr>bd_assignments := [sample_duty_row],
     bd_audit := [\<lparr>u_actor_id = None, u_action = ''assignment.create'', u_entity_id = Some 40\<rparr>]\<rparr>"

lemma sample_create:
  "create_assignment sample_board 40 4 31 32 700010 700012 None True None None = Inr sample_board1"
  by (simp add: create_assignment_def sample_board1_def sample_board_def sample_duty_row_def soldier_of_def
      sample_private_def duty_type_of_def shift_times_def check_booking_def has_overlap_def
      has_insufficient_rest_def has_blocking_exemption_def approved_constraint_def record_override_def
      audit_board_def weapon_missing_def Let_def)

lemma sample_board_reachable: "reachable empty_board board_step sample_board1"
proof (rule reachable_step)
  show "reachable empty_board board_step sample_board"
    by (rule reachable_start) (simp add: empty_board_def sample_board_def)
  show "board_step sample_board sample_board1"
    by (rule step_create [OF sample_create]) (simp add: sample_board_def assignment_of_def)
qed

lemma no_double_booking_witness:
  "reachable empty_board board_step sample_board1
    \<and> rows_ok sample_board1 \<and> nominal_ok sample_board1 \<and> covers_ok sample_board1"
  using no_double_booking [OF sample_board_reachable] sample_board_reachable by simp

text \<open>
  C37. The reserve cap looks at every window.  The peak the code takes over windows that start
  on a reserve day bounds the reserve days of every window of that length, wherever it
  starts, so a booking within the cap keeps every window within it.
\<close>

theorem reserve_cap_all_windows:
  assumes "check_reserve_cap s sid d e = (True, current, max_days)"
  defines "W \<equiv> default (se_reserve_window (bd_settings s)) 30"
  shows "int (card {x \<in> reserve_days s sid d e. t \<le> x \<and> x < t + W}) \<le> current \<and> current \<le> max_days"
proof -
  have c: "int (count_reserve_days_in_window s sid d e) = current" "current \<le> max_days"
    using assms(1) by (auto simp: check_reserve_cap_def Let_def)
  note r = reserve_count [of s sid d e]
  have "{x \<in> reserve_days s sid d e. t \<le> x \<and> x < t + W}
      = {x \<in> reserve_days s sid d e. t \<le> x \<and> x \<le> t + (W - 1)}" by auto
  then have "card {x \<in> reserve_days s sid d e. t \<le> x \<and> x < t + W} \<le> count_reserve_days_in_window s sid d e"
    using window_anchor [of "reserve_days s sid d e" t "W - 1"] r by (simp add: W_def)
  then show ?thesis using c by simp
qed

lemma reserve_cap_all_windows_witness:
  "int (card {x \<in> reserve_days sample_board1 4 700020 700022. 700000 \<le> x
      \<and> x < 700000 + default (se_reserve_window (bd_settings sample_board1)) 30}) \<le> 4 \<and> (4 :: int) \<le> 14"
  by (rule reserve_cap_all_windows)
    (simp add: check_reserve_cap_def count_reserve_days_in_window_def sample_board1_def sample_board_def
      sample_duty_row_def default_def Let_def days_from_to_def upto_rec1)

text \<open>
  What a cover misses.  An exemption that starts on the day of an override does not stop it,
  because the range asked for is empty, although it stops an assignment of that day.
\<close>

lemma override_misses_first_day:
  defines "e \<equiv> \<lparr>ex_id = 60, ex_soldier_id = 4, ex_type_id = 50, ex_start_date = 100, ex_end_date = None,
     ex_is_medical = False, ex_reason = None, ex_granted_by = None, ex_revoked_at = None, ex_revoked_by = None,
     ex_revoke_reason = None\<rparr>"
  shows "\<not> active_exemption e 4 100 100" "active_exemption e 4 100 101"
  by (simp_all add: e_def active_exemption_def)

text \<open>A soldier who covers a day by override can be given an assignment of that day.\<close>

definition covered_board :: board where
  "covered_board = sample_board1\<lparr>bd_soldiers := [sample_private, sample_private\<lparr>so_id := 5\<rparr>],
     bd_overrides := [\<lparr>vo_id = 41, vo_assignment_id = 40, vo_date = 700010, vo_soldier_id = Some 5,
       vo_reason = ''replacement''\<rparr>]\<rparr>"

lemma create_ignores_covers:
  "day_busy covered_board 5 700010 None"
  "isl (create_assignment covered_board 42 5 31 32 700010 700011 None False None None) = False"
  by (simp_all add: create_assignment_def covered_board_def sample_board1_def sample_board_def
      sample_duty_row_def soldier_of_def sample_private_def duty_type_of_def shift_times_def
      check_booking_def has_overlap_def has_insufficient_rest_def has_blocking_exemption_def
      approved_constraint_def record_override_def audit_board_def weapon_missing_def Let_def
      day_busy_def covers_by_override_def live_duty_def)

end
