(* ===== verification/Swaps.thy ===== *)
theory Swaps
  imports DutiesReach
begin

text \<open>
  Swap requests: \<open>services/swaps.py\<close>.  A soldier asks to hand a duty over, candidates are
  invited or claim it from the marketplace, both soldiers and the managers of both sides
  approve, and the first candidate with every approval takes the days by overrides on the
  duty board.  The state holds the board, the organisation (the row of a soldier is split
  between its \<open>Person\<close> and its \<open>Soldier\<close>) and the three tables of the swaps; \<open>wd_tie\<close> is the
  order in which the database returns rows with equal \<open>created_at\<close>.  Row locks are left
  out: an operation is one transaction.  Notifications, which are only written, are left out.
\<close>

section \<open>Tables\<close>

datatype swap_status = Swap_open | Swap_applied | Swap_rejected | Swap_cancelled

datatype cand_status = Cand_pending | Cand_accepted | Cand_declined | Cand_applied | Cand_cancelled

datatype cand_source = Invited | From_marketplace

datatype side = Requester_side | Covering_side

datatype approver_kind = By_commander | By_duty_manager

record SwapRequest =
  sr_id :: uuid
  sr_assignment_id :: uuid
  sr_duty_date :: date
  sr_requester :: uuid
  sr_marketplace :: bool
  sr_status :: swap_status
  sr_reason :: "string option"
  sr_requester_ok :: "bool option"
  sr_override_id :: "uuid option"
  sr_note :: "string option"
  sr_rejected_by :: "uuid option"

record SwapCandidate =
  sc_id :: uuid
  sc_request_id :: uuid
  sc_soldier_id :: uuid
  sc_source :: cand_source
  sc_status :: cand_status
  sc_offered :: "uuid list"
  sc_ok :: "bool option"
  sc_created_at :: moment

record SwapManagerApproval =
  sm_request_id :: uuid
  sm_candidate_id :: "uuid option"
  sm_side :: side
  sm_commander_id :: uuid
  sm_kind :: approver_kind
  sm_approved :: bool
  sm_approved_by :: "uuid option"
  sm_rejected :: bool
  sm_rejected_by :: "uuid option"

record swap_settings =
  ss_restrict_level :: "string option"
  ss_max_targets :: "int option"
  ss_manager_approval :: "bool option"
  ss_dm_approval :: "bool option"
  ss_allow_take_free :: "bool option"

record world =
  wd_board :: board
  wd_org :: org
  wd_requests :: "SwapRequest list"
  wd_candidates :: "SwapCandidate list"
  wd_approvals :: "SwapManagerApproval list"
  wd_swap_settings :: swap_settings
  wd_tie :: "SwapCandidate \<Rightarrow> nat"

datatype swap_error = Hierarchy_level_mismatch | Too_many_targets | No_targets_specified
  | Assignment_not_found | Not_your_duty | Not_published | Duty_already_started | Already_pending
  | Cannot_target_self | Cover_not_eligible check_reason | Request_not_found | Not_open
  | Already_invited uuid | Target_limit_reached | Already_on_marketplace | Cover_blocked duty_error
  | Not_a_party | Not_pending | Candidate_mismatch | Not_required_approver | Forbidden
  | No_soldier_for_side | Cannot_cover_own | Swap_soldier_not_found | Not_targeted_at_you
  | Not_rejectable | Not_cancellable | Cannot_take_own_duty | Reserve_take_free_disabled
  | Reserve_cap_exceeded int int int | Unique_violation | Multiple_rows

definition and_then :: "'e + 'a \<Rightarrow> ('a \<Rightarrow> 'e + 'b) \<Rightarrow> 'e + 'b" where
  "and_then x f = (case x of Inl e \<Rightarrow> Inl e | Inr a \<Rightarrow> f a)"

definition ensure :: "bool \<Rightarrow> 'e \<Rightarrow> 'e + unit" where
  "ensure b e = (if b then Inr () else Inl e)"

definition audit_swap :: "uuid option \<Rightarrow> string \<Rightarrow> uuid \<Rightarrow> world \<Rightarrow> world" where
  "audit_swap actor_id action i w = w\<lparr>wd_board := audit_board actor_id action i (wd_board w)\<rparr>"

definition request_of :: "world \<Rightarrow> uuid \<Rightarrow> SwapRequest option" where
  "request_of w i = find (\<lambda>r. sr_id r = i) (wd_requests w)"

definition candidate_of :: "world \<Rightarrow> uuid \<Rightarrow> SwapCandidate option" where
  "candidate_of w i = find (\<lambda>c. sc_id c = i) (wd_candidates w)"

definition candidate_for :: "world \<Rightarrow> uuid \<Rightarrow> uuid \<Rightarrow> SwapCandidate option" where
  "candidate_for w request_id soldier_id =
     find (\<lambda>c. sc_request_id c = request_id \<and> sc_soldier_id c = soldier_id) (wd_candidates w)"

definition update_request :: "uuid \<Rightarrow> (SwapRequest \<Rightarrow> SwapRequest) \<Rightarrow> world \<Rightarrow> world" where
  "update_request i f w = w\<lparr>wd_requests := map (\<lambda>r. if sr_id r = i then f r else r) (wd_requests w)\<rparr>"

definition update_candidate :: "uuid \<Rightarrow> (SwapCandidate \<Rightarrow> SwapCandidate) \<Rightarrow> world \<Rightarrow> world" where
  "update_candidate i f w = w\<lparr>wd_candidates := map (\<lambda>c. if sc_id c = i then f c else c) (wd_candidates w)\<rparr>"

definition live_cand :: "SwapCandidate \<Rightarrow> bool" where
  "live_cand c \<longleftrightarrow> sc_status c \<in> {Cand_pending, Cand_accepted}"

definition new_candidate :: "uuid \<Rightarrow> uuid \<Rightarrow> uuid \<Rightarrow> cand_source \<Rightarrow> moment \<Rightarrow> SwapCandidate" where
  "new_candidate i request_id soldier_id source created = \<lparr>sc_id = i, sc_request_id = request_id,
     sc_soldier_id = soldier_id, sc_source = source, sc_status = Cand_pending, sc_offered = [],
     sc_ok = None, sc_created_at = created\<rparr>"

definition new_request :: "uuid \<Rightarrow> DutyAssignment \<Rightarrow> uuid \<Rightarrow> bool \<Rightarrow> string option \<Rightarrow> bool option
    \<Rightarrow> SwapRequest" where
  "new_request i a requester marketplace reason requester_ok = \<lparr>sr_id = i, sr_assignment_id = da_id a,
     sr_duty_date = da_start_date a, sr_requester = requester, sr_marketplace = marketplace,
     sr_status = Swap_open, sr_reason = reason, sr_requester_ok = requester_ok, sr_override_id = None,
     sr_note = None, sr_rejected_by = None\<rparr>"

section \<open>Requests and invitations\<close>

definition enforce_hierarchy_level :: "world \<Rightarrow> uuid \<Rightarrow> uuid \<Rightarrow> swap_error + unit" where
  "enforce_hierarchy_level w requesting_soldier_id other_soldier_id =
     (case ss_restrict_level (wd_swap_settings w) of
        None \<Rightarrow> Inr ()
      | Some level \<Rightarrow>
          if level = [] then Inr ()
          else
            (let above = (\<lambda>i. case person_of (wd_org w) i of None \<Rightarrow> None
                   | Some p \<Rightarrow> (case p_node_id p of None \<Rightarrow> None
                       | Some node \<Rightarrow> ancestor_id_at_level (wd_org w) node level))
             in ensure (above requesting_soldier_id \<noteq> None
                        \<and> above requesting_soldier_id = above other_soldier_id)
                  Hierarchy_level_mismatch))"

definition max_specific_targets :: "world \<Rightarrow> int" where
  "max_specific_targets w = default (ss_max_targets (wd_swap_settings w)) 5"

definition check_cover :: "world \<Rightarrow> SwapRequest \<Rightarrow> uuid \<Rightarrow> swap_error + unit" where
  "check_cover w req soldier_id =
     (case check_soldier_for_assignment (wd_board w) soldier_id (sr_assignment_id req) None False of
        Inl reason \<Rightarrow> Inl (Cover_not_eligible reason)
      | Inr _ \<Rightarrow> enforce_hierarchy_level w (sr_requester req) soldier_id)"

definition insert_candidate :: "SwapCandidate \<Rightarrow> world \<Rightarrow> swap_error + world" where
  "insert_candidate c w =
     (if candidate_for w (sc_request_id c) (sc_soldier_id c) \<noteq> None then Inl Unique_violation
      else Inr (w\<lparr>wd_candidates := wd_candidates w @ [c]\<rparr>))"

definition add_invited_candidate :: "SwapRequest \<Rightarrow> moment \<Rightarrow> uuid \<Rightarrow> uuid \<Rightarrow> world \<Rightarrow> swap_error + world" where
  "add_invited_candidate req now new_id target w =
     (if target = sr_requester req then Inl Cannot_target_self
      else and_then (check_cover w req target)
        (\<lambda>_. insert_candidate (new_candidate new_id (sr_id req) target Invited now) w))"

fun add_invited :: "SwapRequest \<Rightarrow> moment \<Rightarrow> (uuid \<times> uuid) list \<Rightarrow> world \<Rightarrow> swap_error + world" where
  "add_invited req now [] w = Inr w"
| "add_invited req now ((i, target) # rest) w =
     and_then (add_invited_candidate req now i target w) (add_invited req now rest)"

text \<open>\<open>candidate_ids\<close> gives the identifier of the new row of a target.\<close>

definition open_request :: "world \<Rightarrow> uuid \<Rightarrow> uuid \<Rightarrow> bool" where
  "open_request w duty_assignment_id soldier_id =
     list_ex (\<lambda>r. sr_assignment_id r = duty_assignment_id \<and> sr_requester r = soldier_id
       \<and> sr_status r = Swap_open) (wd_requests w)"

definition swappable :: "DutyAssignment \<Rightarrow> bool" where
  "swappable a \<longleftrightarrow> da_status a \<in> {Published, Algorithm_draft}"

definition requested_targets :: "uuid option \<Rightarrow> uuid list option \<Rightarrow> uuid list" where
  "requested_targets target_soldier_id target_soldier_ids =
     (case target_soldier_ids of Some ts \<Rightarrow> ts
      | None \<Rightarrow> (case target_soldier_id of None \<Rightarrow> [] | Some t \<Rightarrow> [t]))"

definition create_request :: "world \<Rightarrow> uuid \<Rightarrow> (uuid \<Rightarrow> uuid) \<Rightarrow> uuid \<Rightarrow> uuid \<Rightarrow> uuid option \<Rightarrow> string option
    \<Rightarrow> uuid list option \<Rightarrow> bool \<Rightarrow> uuid option \<Rightarrow> moment \<Rightarrow> swap_error + world" where
  "create_request w new_id candidate_ids requesting_soldier_id duty_assignment_id target_soldier_id
      reason target_soldier_ids open_to_marketplace actor_id now =
     (let targets = requested_targets target_soldier_id target_soldier_ids
      in if int (length targets) > max_specific_targets w then Inl Too_many_targets
         else if targets = [] \<and> \<not> open_to_marketplace then Inl No_targets_specified
         else
           (case assignment_of (wd_board w) duty_assignment_id of None \<Rightarrow> Inl Assignment_not_found
            | Some a \<Rightarrow>
                if effective_soldier_on_date (wd_board w) a (da_start_date a) \<noteq> Some requesting_soldier_id
                then Inl Not_your_duty
                else if \<not> swappable a then Inl Not_published
                else if combine_date_time (da_start_date a) (da_start_time a) \<le> now
                then Inl Duty_already_started
                else if open_request w duty_assignment_id requesting_soldier_id then Inl Already_pending
                else
                  (let req = new_request new_id a requesting_soldier_id open_to_marketplace reason None
                   in and_then
                        (add_invited req now (map (\<lambda>t. (candidate_ids t, t)) targets)
                          (w\<lparr>wd_requests := wd_requests w @ [req]\<rparr>))
                        (\<lambda>w'. Inr (audit_swap actor_id ''swap.create'' new_id w')))))"

text \<open>The targets invited twice, before or in the same call; the first is named.\<close>

fun first_repeated :: "uuid list \<Rightarrow> uuid list \<Rightarrow> uuid option" where
  "first_repeated seen [] = None"
| "first_repeated seen (t # ts) = (if t \<in> set seen then Some t else first_repeated (t # seen) ts)"

definition add_targets :: "world \<Rightarrow> (uuid \<Rightarrow> uuid) \<Rightarrow> uuid \<Rightarrow> uuid list \<Rightarrow> uuid option \<Rightarrow> moment
    \<Rightarrow> swap_error + world" where
  "add_targets w candidate_ids request_id target_soldier_ids actor_id now =
     (case request_of w request_id of None \<Rightarrow> Inl Request_not_found
      | Some req \<Rightarrow>
          if sr_status req \<noteq> Swap_open then Inl Not_open
          else
            (let existing = filter (\<lambda>c. sc_request_id c = request_id) (wd_candidates w)
             in (case first_repeated (map sc_soldier_id existing) target_soldier_ids of
                   Some t \<Rightarrow> Inl (Already_invited t)
                 | None \<Rightarrow>
                     if int (length existing + length target_soldier_ids) > max_specific_targets w
                     then Inl Target_limit_reached
                     else and_then (add_invited req now (map (\<lambda>t. (candidate_ids t, t)) target_soldier_ids) w)
                       (\<lambda>w'. Inr (audit_swap actor_id ''swap.add_targets'' request_id w')))))"

definition publish_to_marketplace :: "world \<Rightarrow> uuid \<Rightarrow> uuid option \<Rightarrow> swap_error + world" where
  "publish_to_marketplace w request_id actor_id =
     (case request_of w request_id of None \<Rightarrow> Inl Request_not_found
      | Some req \<Rightarrow>
          if sr_status req \<noteq> Swap_open then Inl Not_open
          else if sr_marketplace req then Inl Already_on_marketplace
          else Inr (audit_swap actor_id ''swap.publish'' request_id
                 (update_request request_id (sr_marketplace_update (\<lambda>_. True)) w)))"

section \<open>Approvals\<close>

definition require_approval :: "world \<Rightarrow> bool" where
  "require_approval w = default (ss_manager_approval (wd_swap_settings w)) True"

definition require_duty_manager_approval :: "world \<Rightarrow> bool" where
  "require_duty_manager_approval w = default (ss_dm_approval (wd_swap_settings w)) True"

definition has_decision :: "world \<Rightarrow> uuid \<Rightarrow> uuid option \<Rightarrow> side \<Rightarrow> approver_kind \<Rightarrow> bool \<Rightarrow> bool" where
  "has_decision w request_id candidate_id side kind approved =
     list_ex (\<lambda>m. sm_request_id m = request_id \<and> sm_candidate_id m = candidate_id \<and> sm_side m = side
       \<and> sm_kind m = kind \<and> sm_approved m = approved) (wd_approvals w)"

definition commanders :: "world \<Rightarrow> uuid \<Rightarrow> uuid list" where
  "commanders w i = commander_chain_for_soldier (wd_org w) i"

definition duty_managers :: "world \<Rightarrow> uuid \<Rightarrow> uuid list" where
  "duty_managers w i = duty_manager_chain_for_soldier (wd_org w) i"

definition candidate_fully_approved :: "world \<Rightarrow> SwapRequest \<Rightarrow> SwapCandidate \<Rightarrow> bool" where
  "candidate_fully_approved w req c =
     (if \<not> (sr_requester_ok req = Some True \<and> sc_ok c = Some True) then False
      else if \<not> require_approval w then True
      else
        (let require_dm = require_duty_manager_approval w
         in if commanders w (sr_requester req) \<noteq> []
               \<and> \<not> has_decision w (sr_id req) None Requester_side By_commander True then False
            else if require_dm \<and> duty_managers w (sr_requester req) \<noteq> []
               \<and> \<not> has_decision w (sr_id req) None Requester_side By_duty_manager True then False
            else if commanders w (sc_soldier_id c) \<noteq> []
               \<and> \<not> has_decision w (sr_id req) (Some (sc_id c)) Covering_side By_commander True then False
            else if require_dm \<and> duty_managers w (sc_soldier_id c) \<noteq> []
               \<and> \<not> has_decision w (sr_id req) (Some (sc_id c)) Covering_side By_duty_manager True then False
            else True))"

text \<open>The days of the assignment in turn; the identifier of the first override is kept.\<close>

fun cover_days :: "(date \<Rightarrow> uuid) \<Rightarrow> DutyAssignment \<Rightarrow> uuid \<Rightarrow> uuid option \<Rightarrow> date list
    \<Rightarrow> uuid option \<times> board \<Rightarrow> swap_error + uuid option \<times> board" where
  "cover_days ids a soldier_id actor_id [] acc = Inr acc"
| "cover_days ids a soldier_id actor_id (d # ds) (first_ov, s) =
     (case set_day_override s (ids d) a d (Some soldier_id) ''replacement'' actor_id of
        Inl e \<Rightarrow> Inl (Cover_blocked e)
      | Inr (ov, s') \<Rightarrow> cover_days ids a soldier_id actor_id ds
          (if first_ov = None then Some ov else first_ov, s'))"

definition apply_cover :: "(date \<Rightarrow> uuid) \<Rightarrow> SwapRequest \<Rightarrow> SwapCandidate \<Rightarrow> uuid option \<Rightarrow> world
    \<Rightarrow> swap_error + world" where
  "apply_cover ids req c actor_id w =
     (case assignment_of (wd_board w) (sr_assignment_id req) of None \<Rightarrow> Inl Assignment_not_found
      | Some a \<Rightarrow>
          and_then (cover_days ids a (sc_soldier_id c) actor_id
              (days_from_to (da_start_date a) (da_end_date a)) (None, wd_board w))
            (\<lambda>(first_ov, s). Inr (update_request (sr_id req) (sr_override_id_update (\<lambda>_. first_ov))
               (w\<lparr>wd_board := s\<rparr>))))"

definition live_of :: "world \<Rightarrow> uuid \<Rightarrow> SwapCandidate list" where
  "live_of w request_id = filter (\<lambda>c. sc_request_id c = request_id \<and> live_cand c) (wd_candidates w)"

definition in_creation_order :: "world \<Rightarrow> SwapCandidate list \<Rightarrow> SwapCandidate list" where
  "in_creation_order w cs = sort_key sc_created_at (sort_key (wd_tie w) cs)"

definition settle :: "uuid \<Rightarrow> uuid \<Rightarrow> world \<Rightarrow> world" where
  "settle request_id winner w =
     update_request request_id (sr_status_update (\<lambda>_. Swap_applied))
       (w\<lparr>wd_candidates := map (\<lambda>c.
          if sc_id c = winner then c\<lparr>sc_status := Cand_applied\<rparr>
          else if sc_request_id c = request_id \<and> live_cand c then c\<lparr>sc_status := Cand_cancelled\<rparr>
          else c) (wd_candidates w)\<rparr>)"

definition try_finalize :: "(date \<Rightarrow> uuid) \<Rightarrow> uuid \<Rightarrow> uuid option \<Rightarrow> world \<Rightarrow> swap_error + world" where
  "try_finalize ids request_id actor_id w =
     (case request_of w request_id of None \<Rightarrow> Inr w
      | Some req \<Rightarrow>
          if sr_status req \<noteq> Swap_open then Inr w
          else
            (case find (candidate_fully_approved w req) (in_creation_order w (live_of w request_id)) of
               None \<Rightarrow> Inr w
             | Some winner \<Rightarrow>
                 and_then (apply_cover ids req winner actor_id w)
                   (\<lambda>w'. Inr (audit_swap actor_id ''swap.finalize'' request_id
                      (settle request_id (sc_id winner) w')))))"

section \<open>Soldiers' answers\<close>

definition decline_candidate :: "world \<Rightarrow> uuid \<Rightarrow> uuid \<Rightarrow> uuid option \<Rightarrow> swap_error + world" where
  "decline_candidate w request_id soldier_id actor_id =
     (if request_of w request_id = None then Inl Request_not_found
      else
        (case candidate_for w request_id soldier_id of None \<Rightarrow> Inl Not_a_party
         | Some c \<Rightarrow>
             if \<not> live_cand c then Inl Not_pending
             else Inr (audit_swap (Some (default actor_id soldier_id)) ''swap.candidate_decline'' request_id
                    (update_candidate (sc_id c) (sc_status_update (\<lambda>_. Cand_declined)) w))))"

definition accept_cand :: "SwapCandidate \<Rightarrow> SwapCandidate" where
  "accept_cand c = c\<lparr>sc_ok := Some True,
     sc_status := (if sc_status c = Cand_pending then Cand_accepted else sc_status c)\<rparr>"

definition requester_agrees :: "uuid \<Rightarrow> world \<Rightarrow> world" where
  "requester_agrees request_id = update_request request_id (sr_requester_ok_update (\<lambda>_. Some True))"

definition approve_soldier_side :: "(date \<Rightarrow> uuid) \<Rightarrow> world \<Rightarrow> uuid \<Rightarrow> uuid \<Rightarrow> uuid option
    \<Rightarrow> swap_error + world" where
  "approve_soldier_side ids w request_id soldier_id actor_id =
     (case request_of w request_id of None \<Rightarrow> Inl Request_not_found
      | Some req \<Rightarrow>
          if soldier_id = sr_requester req
          then
            (if sr_status req = Swap_applied then Inr w
             else if sr_status req \<noteq> Swap_open then Inl Not_pending
             else try_finalize ids request_id (Some (default actor_id soldier_id))
               (audit_swap (Some (default actor_id soldier_id)) ''swap.soldier_approve'' request_id
                 (requester_agrees request_id w)))
          else
            (case candidate_for w request_id soldier_id of None \<Rightarrow> Inl Not_a_party
             | Some c \<Rightarrow>
                 if \<not> live_cand c then Inr w
                 else if sr_status req \<noteq> Swap_open then Inl Not_pending
                 else
                   (let w1 = update_candidate (sc_id c) accept_cand w;
                        w2 = (if sc_source c = Invited then requester_agrees request_id w1 else w1)
                    in try_finalize ids request_id (Some (default actor_id soldier_id))
                         (audit_swap (Some (default actor_id soldier_id)) ''swap.soldier_approve'' request_id w2))))"

section \<open>Managers' answers\<close>

definition get_candidate_for_request :: "world \<Rightarrow> uuid \<Rightarrow> uuid option \<Rightarrow> swap_error + SwapCandidate option" where
  "get_candidate_for_request w request_id candidate_id =
     (case candidate_id of None \<Rightarrow> Inr None
      | Some i \<Rightarrow>
          (case candidate_of w i of None \<Rightarrow> Inr None
           | Some c \<Rightarrow> if sc_request_id c \<noteq> request_id then Inl Candidate_mismatch else Inr (Some c)))"

definition is_chain_commander_for_side :: "world \<Rightarrow> uuid \<Rightarrow> side \<Rightarrow> uuid \<Rightarrow> uuid option
    \<Rightarrow> swap_error + bool" where
  "is_chain_commander_for_side w request_id side commander_id candidate_id =
     (case request_of w request_id of None \<Rightarrow> Inr False
      | Some req \<Rightarrow>
          and_then (if side = Requester_side then Inr (Some (sr_requester req))
              else and_then (get_candidate_for_request w request_id candidate_id)
                (\<lambda>c. Inr (map_option sc_soldier_id c)))
            (\<lambda>soldier. Inr (case soldier of None \<Rightarrow> False
               | Some i \<Rightarrow> commander_id \<in> set (commanders w i)
                   \<or> require_duty_manager_approval w \<and> commander_id \<in> set (duty_managers w i))))"

definition rows_for_soldier :: "world \<Rightarrow> side \<Rightarrow> uuid \<Rightarrow> uuid \<Rightarrow> (side \<times> approver_kind) list" where
  "rows_for_soldier w side actor_id soldier_id =
     (if actor_id \<in> set (commanders w soldier_id) then [(side, By_commander)] else [])
     @ (if require_duty_manager_approval w \<and> actor_id \<in> set (duty_managers w soldier_id)
        then [(side, By_duty_manager)] else [])"

definition qualifying_rows_for_actor :: "world \<Rightarrow> SwapRequest \<Rightarrow> uuid \<Rightarrow> uuid option
    \<Rightarrow> swap_error + (side \<times> approver_kind) list" where
  "qualifying_rows_for_actor w req actor_id candidate_id =
     and_then (get_candidate_for_request w (sr_id req) candidate_id)
       (\<lambda>c. Inr (rows_for_soldier w Requester_side actor_id (sr_requester req)
          @ (case c of None \<Rightarrow> []
             | Some c \<Rightarrow> rows_for_soldier w Covering_side actor_id (sc_soldier_id c))))"

definition row_candidate :: "side \<Rightarrow> uuid option \<Rightarrow> uuid option" where
  "row_candidate side candidate_id = (if side = Covering_side then candidate_id else None)"

text \<open>\<open>_get_or_create_row\<close> and the change of the row found or made.\<close>

definition stamp_row :: "uuid \<Rightarrow> uuid option \<Rightarrow> side \<Rightarrow> uuid \<Rightarrow> approver_kind
    \<Rightarrow> (SwapManagerApproval \<Rightarrow> SwapManagerApproval) \<Rightarrow> world \<Rightarrow> world" where
  "stamp_row request_id candidate_id side actor_id kind f w =
     (let here = (\<lambda>m. sm_request_id m = request_id \<and> sm_candidate_id m = candidate_id \<and> sm_side m = side
            \<and> sm_commander_id m = actor_id \<and> sm_kind m = kind)
      in if list_ex here (wd_approvals w)
         then w\<lparr>wd_approvals := map (\<lambda>m. if here m then f m else m) (wd_approvals w)\<rparr>
         else w\<lparr>wd_approvals := wd_approvals w @ [f \<lparr>sm_request_id = request_id,
                sm_candidate_id = candidate_id, sm_side = side, sm_commander_id = actor_id, sm_kind = kind,
                sm_approved = False, sm_approved_by = None, sm_rejected = False, sm_rejected_by = None\<rparr>]\<rparr>)"

definition mark_approved :: "uuid \<Rightarrow> SwapManagerApproval \<Rightarrow> SwapManagerApproval" where
  "mark_approved actor_id m = (if sm_approved m then m
     else m\<lparr>sm_approved := True, sm_approved_by := Some actor_id\<rparr>)"

definition mark_rejected :: "uuid \<Rightarrow> SwapManagerApproval \<Rightarrow> SwapManagerApproval" where
  "mark_rejected actor_id m = (if sm_rejected m then m
     else m\<lparr>sm_rejected := True, sm_rejected_by := Some actor_id\<rparr>)"

definition row_approved :: "world \<Rightarrow> uuid \<Rightarrow> uuid option \<Rightarrow> side \<Rightarrow> uuid \<Rightarrow> approver_kind \<Rightarrow> bool" where
  "row_approved w request_id candidate_id side actor_id kind =
     list_ex (\<lambda>m. sm_request_id m = request_id \<and> sm_candidate_id m = candidate_id \<and> sm_side m = side
       \<and> sm_commander_id m = actor_id \<and> sm_kind m = kind \<and> sm_approved m) (wd_approvals w)"

definition approve_one_row :: "uuid \<Rightarrow> uuid option \<Rightarrow> uuid \<Rightarrow> side \<times> approver_kind \<Rightarrow> world \<Rightarrow> world" where
  "approve_one_row request_id candidate_id actor_id row w =
     (case row of (side, kind) \<Rightarrow>
       (let i = row_candidate side candidate_id;
            w1 = stamp_row request_id i side actor_id kind (mark_approved actor_id) w
        in if row_approved w request_id i side actor_id kind then w1
           else audit_swap (Some actor_id) ''swap.manager_approve'' request_id w1))"

definition approve_manager_row :: "(date \<Rightarrow> uuid) \<Rightarrow> world \<Rightarrow> uuid \<Rightarrow> uuid \<Rightarrow> uuid option
    \<Rightarrow> swap_error + world" where
  "approve_manager_row ids w request_id actor_id candidate_id =
     (case request_of w request_id of None \<Rightarrow> Inl Request_not_found
      | Some req \<Rightarrow>
          if sr_status req \<noteq> Swap_open then Inl Not_pending
          else and_then (qualifying_rows_for_actor w req actor_id candidate_id)
            (\<lambda>qualifying.
               if qualifying = [] then Inl Not_required_approver
               else try_finalize ids request_id (Some actor_id)
                 (fold (approve_one_row request_id candidate_id actor_id) qualifying w)))"

definition close_request :: "uuid \<Rightarrow> (SwapRequest \<Rightarrow> SwapRequest) \<Rightarrow> world \<Rightarrow> world" where
  "close_request request_id f w =
     update_request request_id f
       (w\<lparr>wd_candidates := map (\<lambda>c. if sc_request_id c = request_id \<and> live_cand c
            then c\<lparr>sc_status := Cand_cancelled\<rparr> else c) (wd_candidates w)\<rparr>)"

definition reject_request :: "world \<Rightarrow> uuid \<Rightarrow> string option \<Rightarrow> uuid option \<Rightarrow> swap_error + world" where
  "reject_request w request_id decision_note actor_id =
     (case request_of w request_id of None \<Rightarrow> Inl Request_not_found
      | Some req \<Rightarrow>
          if sr_status req \<noteq> Swap_open then Inl Not_rejectable
          else Inr (audit_swap actor_id ''swap.reject'' request_id
                 (close_request request_id (\<lambda>r. r\<lparr>sr_status := Swap_rejected, sr_note := decision_note,
                    sr_rejected_by := actor_id\<rparr>) w)))"

definition reject_rows :: "uuid \<Rightarrow> uuid option \<Rightarrow> uuid \<Rightarrow> (side \<times> approver_kind) list \<Rightarrow> world \<Rightarrow> world" where
  "reject_rows request_id candidate_id actor_id rows w =
     fold (\<lambda>(side, kind). stamp_row request_id (row_candidate side candidate_id) side actor_id kind
        (mark_rejected actor_id)) rows w"

definition drop_candidate :: "uuid \<Rightarrow> uuid option \<Rightarrow> world \<Rightarrow> swap_error + world" where
  "drop_candidate request_id candidate_id w =
     and_then (get_candidate_for_request w request_id candidate_id)
       (\<lambda>c. Inr (case c of None \<Rightarrow> w
          | Some c \<Rightarrow> if live_cand c
              then update_candidate (sc_id c) (sc_status_update (\<lambda>_. Cand_cancelled)) w
              else w))"

definition reject_manager_row :: "world \<Rightarrow> uuid \<Rightarrow> uuid \<Rightarrow> uuid option \<Rightarrow> string option \<Rightarrow> bool
    \<Rightarrow> swap_error + world" where
  "reject_manager_row w request_id actor_id candidate_id decision_note authorized_override =
     (case request_of w request_id of None \<Rightarrow> Inl Request_not_found
      | Some req \<Rightarrow>
          if sr_status req \<noteq> Swap_open then Inl Not_pending
          else and_then (qualifying_rows_for_actor w req actor_id candidate_id)
            (\<lambda>rows.
               let qualifying = (if candidate_id \<noteq> None then filter (\<lambda>row. fst row = Covering_side) rows else rows)
               in if qualifying = [] \<and> \<not> authorized_override then Inl Not_required_approver
                  else if candidate_id = None
                  then reject_request (reject_rows request_id candidate_id actor_id qualifying w)
                         request_id decision_note (Some actor_id)
                  else drop_candidate request_id candidate_id
                         (reject_rows request_id candidate_id actor_id qualifying w)))"

definition override_authorized_kinds :: "world \<Rightarrow> date \<Rightarrow> uuid \<Rightarrow> HierarchyNode option
    \<Rightarrow> approver_kind list" where
  "override_authorized_kinds w today actor_id side_node =
     (case person_of (wd_org w) actor_id of None \<Rightarrow> []
      | Some actor \<Rightarrow>
          if p_role actor = Admin then [By_commander, By_duty_manager]
          else
            (let scoped = node_in_roots side_node (scope_root_ids (wd_org w) actor_id today)
             in (if is_duty_manager (wd_org w) actor_id today \<and> scoped then [By_duty_manager] else [])
                @ (if is_commander (wd_org w) actor_id today \<and> scoped then [By_commander] else [])))"

definition node_of_soldier :: "world \<Rightarrow> uuid \<Rightarrow> HierarchyNode option" where
  "node_of_soldier w i =
     (case person_of (wd_org w) i of None \<Rightarrow> None
      | Some p \<Rightarrow> (case p_node_id p of None \<Rightarrow> None | Some node \<Rightarrow> node_of (wd_org w) node))"

definition override_rows :: "(date \<Rightarrow> uuid) \<Rightarrow> world \<Rightarrow> date \<Rightarrow> uuid \<Rightarrow> side \<Rightarrow> uuid \<Rightarrow> uuid option \<Rightarrow> uuid
    \<Rightarrow> swap_error + world" where
  "override_rows ids w today request_id side actor_id candidate_id soldier_id =
     (let allowed = override_authorized_kinds w today actor_id (node_of_soldier w soldier_id);
          needed = (if commanders w soldier_id \<noteq> [] then [By_commander] else [])
            @ (if require_duty_manager_approval w \<and> duty_managers w soldier_id \<noteq> []
               then [By_duty_manager] else [])
      in if allowed = [] then Inl Forbidden
         else try_finalize ids request_id (Some actor_id)
           (audit_swap (Some actor_id) ''swap.manager_approve_override'' request_id
             (fold (\<lambda>kind. stamp_row request_id (row_candidate side candidate_id) side actor_id
                  kind (mark_approved actor_id))
               (filter (\<lambda>k. k \<in> set allowed) needed) w)))"

definition approve_manager_side_override :: "(date \<Rightarrow> uuid) \<Rightarrow> world \<Rightarrow> date \<Rightarrow> uuid \<Rightarrow> side \<Rightarrow> uuid
    \<Rightarrow> uuid option \<Rightarrow> swap_error + world" where
  "approve_manager_side_override ids w today request_id side actor_id candidate_id =
     (case request_of w request_id of None \<Rightarrow> Inl Request_not_found
      | Some req \<Rightarrow>
          if sr_status req \<noteq> Swap_open then Inl Not_pending
          else and_then (if side = Requester_side then Inr (Some (sr_requester req))
              else if candidate_id = None then Inl No_soldier_for_side
              else and_then (get_candidate_for_request w request_id candidate_id)
                (\<lambda>c. Inr (map_option sc_soldier_id c)))
            (\<lambda>soldier. case soldier of None \<Rightarrow> Inl No_soldier_for_side
               | Some soldier_id \<Rightarrow> override_rows ids w today request_id side actor_id candidate_id soldier_id))"

definition approve_manager_side :: "(date \<Rightarrow> uuid) \<Rightarrow> world \<Rightarrow> date \<Rightarrow> uuid \<Rightarrow> side \<Rightarrow> uuid \<Rightarrow> bool
    \<Rightarrow> uuid option \<Rightarrow> swap_error + world" where
  "approve_manager_side ids w today request_id side actor_id authorized candidate_id =
     and_then (is_chain_commander_for_side w request_id side actor_id candidate_id)
       (\<lambda>in_chain.
          if in_chain then approve_manager_row ids w request_id actor_id candidate_id
          else if \<not> authorized then Inl Forbidden
          else approve_manager_side_override ids w today request_id side actor_id candidate_id)"

section \<open>Marketplace, cancelling and expiry\<close>

definition claim_request :: "(date \<Rightarrow> uuid) \<Rightarrow> world \<Rightarrow> uuid \<Rightarrow> uuid \<Rightarrow> uuid \<Rightarrow> uuid option \<Rightarrow> moment
    \<Rightarrow> swap_error + world" where
  "claim_request ids w new_id request_id covering_soldier_id actor_id now =
     (case request_of w request_id of None \<Rightarrow> Inl Request_not_found
      | Some req \<Rightarrow>
          if sr_status req \<noteq> Swap_open then Inl Not_open
          else if covering_soldier_id = sr_requester req then Inl Cannot_cover_own
          else if soldier_of (wd_board w) covering_soldier_id = None then Inl Swap_soldier_not_found
          else and_then
            (case candidate_for w request_id covering_soldier_id of
               None \<Rightarrow>
                 if \<not> sr_marketplace req then Inl Not_targeted_at_you
                 else and_then (check_cover w req covering_soldier_id)
                   (\<lambda>_. and_then (insert_candidate
                        (new_candidate new_id request_id covering_soldier_id From_marketplace now) w)
                      (\<lambda>w'. Inr (new_id, w')))
             | Some c \<Rightarrow> if sc_status c \<noteq> Cand_pending then Inl Already_pending else Inr (sc_id c, w))
            (\<lambda>(i, w1). try_finalize ids request_id actor_id
               (audit_swap actor_id ''swap.claim'' request_id
                 (requester_agrees request_id
                   (update_candidate i (\<lambda>c. c\<lparr>sc_status := Cand_accepted, sc_ok := Some True\<rparr>) w1)))))"

definition cover_offer :: "(date \<Rightarrow> uuid) \<Rightarrow> world \<Rightarrow> uuid \<Rightarrow> uuid \<Rightarrow> uuid \<Rightarrow> uuid list \<Rightarrow> uuid option
    \<Rightarrow> moment \<Rightarrow> swap_error + world" where
  "cover_offer ids w new_id swap_id covering_soldier_id offered_assignment_ids actor_id now =
     (case request_of w swap_id of None \<Rightarrow> Inl Request_not_found
      | Some req \<Rightarrow>
          if sr_status req \<noteq> Swap_open then Inl Not_open
          else if sr_requester req = covering_soldier_id then Inl Cannot_cover_own
          else and_then (check_cover w req covering_soldier_id)
            (\<lambda>_. and_then
              (case candidate_for w swap_id covering_soldier_id of
                 None \<Rightarrow>
                   if \<not> sr_marketplace req then Inl Not_targeted_at_you
                   else and_then (insert_candidate
                        (new_candidate new_id swap_id covering_soldier_id From_marketplace now) w)
                      (\<lambda>w'. Inr (new_id, w'))
               | Some c \<Rightarrow> if sc_status c \<noteq> Cand_pending then Inl Already_pending else Inr (sc_id c, w))
              (\<lambda>(i, w1). try_finalize ids swap_id actor_id
                 (audit_swap actor_id ''swap.cover_offer'' swap_id
                   (requester_agrees swap_id
                     (update_candidate i (\<lambda>c. c\<lparr>sc_offered := offered_assignment_ids,
                        sc_status := Cand_accepted, sc_ok := Some True\<rparr>) w1))))))"

definition cancel_request :: "world \<Rightarrow> uuid \<Rightarrow> uuid option \<Rightarrow> swap_error + world" where
  "cancel_request w request_id actor_id =
     (case request_of w request_id of None \<Rightarrow> Inl Request_not_found
      | Some req \<Rightarrow>
          if sr_status req \<noteq> Swap_open then Inl Not_cancellable
          else Inr (audit_swap actor_id ''swap.cancel'' request_id
                 (close_request request_id (sr_status_update (\<lambda>_. Swap_cancelled)) w)))"

definition reserve_block :: "world \<Rightarrow> DutyAssignment \<Rightarrow> uuid \<Rightarrow> swap_error + bool" where
  "reserve_block w a covering_soldier_id =
     (if \<not> da_is_reserve a then Inr False
      else if \<not> default (ss_allow_take_free (wd_swap_settings w)) True then Inl Reserve_take_free_disabled
      else
        (case check_reserve_cap (wd_board w) covering_soldier_id (da_start_date a) (da_end_date a) of
           (passes, current, max_days) \<Rightarrow>
             if \<not> passes then Inl (Reserve_cap_exceeded current max_days
                 (default (se_reserve_window (bd_settings (wd_board w))) 30))
             else Inr (0 \<le> max_days - current \<and> max_days - current \<le> 3)))"

text \<open>
  The query for an open request of the assignment raises when two requesters have one.  The
  second component is the warning that the reserve cap is near.
\<close>

definition take_free :: "world \<Rightarrow> uuid \<Rightarrow> uuid \<Rightarrow> uuid \<Rightarrow> uuid \<Rightarrow> uuid option \<Rightarrow> moment
    \<Rightarrow> swap_error + bool \<times> world" where
  "take_free w new_id candidate_id assignment_id covering_soldier_id actor_id now =
     (case assignment_of (wd_board w) assignment_id of None \<Rightarrow> Inl Assignment_not_found
      | Some a \<Rightarrow>
          if da_soldier_id a = covering_soldier_id then Inl Cannot_take_own_duty
          else if \<not> swappable a then Inl Not_published
          else
            (case filter (\<lambda>r. sr_assignment_id r = assignment_id \<and> sr_status r = Swap_open) (wd_requests w) of
               _ # _ # _ \<Rightarrow> Inl Multiple_rows
             | [_] \<Rightarrow> Inl Already_pending
             | [] \<Rightarrow>
                 (let req = new_request new_id a (da_soldier_id a) False None (Some False)
                  in and_then (reserve_block w a covering_soldier_id)
                       (\<lambda>near_cap. and_then (check_cover w req covering_soldier_id)
                         (\<lambda>_. and_then (insert_candidate
                              ((new_candidate candidate_id new_id covering_soldier_id From_marketplace now)
                                 \<lparr>sc_status := Cand_accepted, sc_ok := Some True\<rparr>)
                              (w\<lparr>wd_requests := wd_requests w @ [req]\<rparr>))
                            (\<lambda>w'. Inr (near_cap, audit_swap actor_id ''swap.take_free'' new_id w')))))))"

definition expire_one :: "uuid \<Rightarrow> world \<Rightarrow> world" where
  "expire_one request_id w =
     (case request_of w request_id of None \<Rightarrow> w
      | Some req \<Rightarrow>
          if sr_status req \<noteq> Swap_open then w
          else audit_swap None ''swap.auto_expire'' request_id
                 (close_request request_id (sr_status_update (\<lambda>_. Swap_cancelled)) w))"

definition due_swaps :: "world \<Rightarrow> moment \<Rightarrow> uuid list" where
  "due_swaps w now =
     map sr_id (filter (\<lambda>r. sr_status r = Swap_open
       \<and> (case assignment_of (wd_board w) (sr_assignment_id r) of None \<Rightarrow> False
          | Some a \<Rightarrow> da_start_date a \<le> now div (24 * 60)
              \<and> combine_date_time (da_start_date a) (da_start_time a) \<le> now))
       (sort_key sr_id (wd_requests w)))"

definition expire_started_swaps :: "world \<Rightarrow> moment \<Rightarrow> world" where
  "expire_started_swaps w now = fold expire_one (due_swaps w now) w"

end
