(* ===== verification/OrgLevels.thy ===== *)
theory OrgLevels
  imports OrgSteps
begin

text \<open>
  Level types: creating, deleting and reordering them keeps the order of the tree, and the
  two-phase write of \<open>reorder_level_types\<close> never makes two ranks equal, whatever rows the
  database has already updated.  Commanders, scopes and deputies: the other invariants.
\<close>

section \<open>Ranks of registered keys\<close>

lemma rank_registered: "key \<in> t_key ` set (o_levels s) \<Longrightarrow> get_level_rank s key = rank_of_key s key"
  and rank_known: "key \<in> t_key ` set (o_levels s) \<Longrightarrow> rank_of_key s key \<noteq> None"
proof -
  show known: "rank_of_key s key \<noteq> None" if "key \<in> t_key ` set (o_levels s)"
    using that by (auto simp: rank_of_key_def find_None_iff)
  show "get_level_rank s key = rank_of_key s key" if "key \<in> t_key ` set (o_levels s)"
    using known [OF that] by (auto simp: get_level_rank_def)
qed

lemma rank_of_key_mem:
  assumes "distinct (map t_key (o_levels s))" "t \<in> set (o_levels s)"
  shows "rank_of_key s (t_key t) = Some (t_rank t)"
  using find_distinct [OF assms] by (simp add: rank_of_key_def)

lemma ranks_levels:
  assumes "o_nodes s' = o_nodes s" "ranks_ok s"
    and "\<And>n. n \<in> set (o_nodes s) \<Longrightarrow> get_level_rank s' (n_level n) = get_level_rank s (n_level n)"
  shows "ranks_ok s'"
  using assms(2) node_of_nodes [OF assms(1)] assms(3) node_of_Some [of s]
  unfolding ranks_ok_def assms(1) by metis

lemma org_ok_levels:
  assumes "org_ok k u s" "o_nodes s' = o_nodes s" "o_people s' = o_people s" "o_scopes s' = o_scopes s"
    "levels_ok s'" "k \<Longrightarrow> ranks_ok s' \<and> registered s'"
  shows "org_ok k u s'"
proof -
  have "commands_ok s'" if u using that assms(1) unfolding commands_ok_def org_ok_def assms(2) by blast
  then show ?thesis using assms node_of_nodes [OF assms(2)]
    by (simp add: org_ok_def tree_ok_def list_all_iff path_ok_iff places_ok_def)
qed

lemma create_level_ok:
  assumes ok: "org_ok k u s" and c: "create_level_type s i key label a = Inr s'"
    and i: "i \<notin> t_id ` set (o_levels s)"
  shows "org_ok k u s'"
proof -
  define r where "r = (if o_levels s = [] then 0 else Max (set (map t_rank (o_levels s)))) + 1"
  have key: "key \<notin> t_key ` set (o_levels s)"
    and s': "s' = write_audit a ''hierarchy_level_type.create'' (Some i)
        (s\<lparr>o_levels := o_levels s @ [\<lparr>t_id = i, t_key = key, t_label = label, t_rank = r\<rparr>]\<rparr>)"
    using c by (auto simp: create_level_type_def list_ex_iff r_def Let_def split: if_split_asm)
  have lv: "o_levels s' = o_levels s @ [\<lparr>t_id = i, t_key = key, t_label = label, t_rank = r\<rparr>]"
    by (simp add: s')
  have used: "n_level n \<in> t_key ` set (o_levels s)" if k "n \<in> set (o_nodes s)" for n
    using ok that by (auto simp: org_ok_def registered_def)
  have same: "rank_of_key s' k = rank_of_key s k" if "k \<in> t_key ` set (o_levels s)" for k
    using that key by (auto simp: rank_of_key_def lv find_append find_None_iff split: option.split)
  have "get_level_rank s' (n_level n) = get_level_rank s (n_level n)" if k "n \<in> set (o_nodes s)" for n
    using used [OF that] same by (subst (1 2) rank_registered) (auto simp: lv)
  then have ranks: "ranks_ok s' \<and> registered s'" if k
    using ok that used by (intro conjI ranks_levels [of s' s]) (auto simp: s' org_ok_def registered_def)
  have "t_rank t < r" if "t \<in> set (o_levels s)" for t
  proof -
    have "t_rank t \<le> Max (set (map t_rank (o_levels s)))" using that by (intro Max_ge) auto
    then show ?thesis using that by (auto simp: r_def)
  qed
  moreover have "0 < r"
  proof (cases "o_levels s")
    case (Cons t ts)
    then have "0 < t_rank t" "t_rank t < r" using ok calculation [of t]
      by (simp_all add: org_ok_def levels_ok_def)
    then show ?thesis by simp
  qed (simp add: r_def)
  ultimately have "levels_ok s'" using ok key i by (force simp: levels_ok_def org_ok_def lv s')
  then show ?thesis using ranks by (intro org_ok_levels [OF ok]) (simp_all add: s')
qed

lemma delete_level_ok:
  assumes ok: "org_ok k u s" and c: "delete_level_type s i a = Inr s'"
  shows "org_ok k u s'"
proof -
  obtain t where t: "find (\<lambda>t. t_id t = i) (o_levels s) = Some t"
    and unused: "\<And>n. n \<in> set (o_nodes s) \<Longrightarrow> n_level n \<noteq> t_key t"
    and s': "s' = write_audit a ''hierarchy_level_type.delete'' (Some i)
        (s\<lparr>o_levels := filter (\<lambda>t. t_id t \<noteq> i) (o_levels s)\<rparr>)"
    using c by (auto simp: delete_level_type_def list_ex_iff split: option.splits if_split_asm)
  have lv: "o_levels s' = filter (\<lambda>t. t_id t \<noteq> i) (o_levels s)" by (simp add: s')
  have tm: "t \<in> set (o_levels s)" "t_id t = i" using t by (auto simp: find_Some_iff)
  have used: "n_level n \<in> t_key ` set (o_levels s)" if k "n \<in> set (o_nodes s)" for n
    using ok that by (auto simp: org_ok_def registered_def)
  have keys: "distinct (map t_key (o_levels s))" "distinct (map t_id (o_levels s))"
    using ok by (simp_all add: org_ok_def levels_ok_def)
  have kept: "u \<in> set (o_levels s')" if "u \<in> set (o_levels s)" "t_key u \<noteq> t_key t" for u
    using that tm keys(2) by (auto simp: lv distinct_map inj_on_def)
  have keys': "distinct (map t_key (o_levels s'))" using keys by (simp add: lv distinct_map_filter)
  have "get_level_rank s' (n_level n) = get_level_rank s (n_level n)" if k: k and n: "n \<in> set (o_nodes s)" for n
  proof -
    from used [OF k n] obtain u where u: "u \<in> set (o_levels s)" "t_key u = n_level n" by auto
    then have u': "u \<in> set (o_levels s')" using kept unused [OF n] by auto
    have "n_level n \<in> t_key ` set (o_levels s')" "n_level n \<in> t_key ` set (o_levels s)"
      using u u' by (auto intro: rev_image_eqI)
    then show ?thesis using rank_of_key_mem [OF keys(1) u(1)] rank_of_key_mem [OF keys' u'] u(2)
      by (simp add: rank_registered)
  qed
  then have "ranks_ok s'" if k using ok that by (intro ranks_levels [of s' s]) (simp_all add: s' org_ok_def)
  moreover have "n_level n \<in> t_key ` set (o_levels s')" if "k" "n \<in> set (o_nodes s)" for n
  proof -
    from used [OF that] obtain u where "u \<in> set (o_levels s)" "t_key u = n_level n" by auto
    then show ?thesis using kept [of u] unused [OF that(2)] by (auto intro: rev_image_eqI)
  qed
  then have "registered s'" if k using that by (auto simp: registered_def s')
  moreover have "levels_ok s'" using ok keys' by (auto simp: levels_ok_def org_ok_def lv distinct_map_filter)
  ultimately show ?thesis by (intro org_ok_levels [OF ok]) (simp_all add: s')
qed

section \<open>Reordering\<close>

lemma new_rank_iff:
  assumes "distinct ids"
  shows "new_rank ids i = Some r \<longleftrightarrow> (\<exists>k < length ids. ids ! k = i \<and> r = int k + 1)"
  using assms
proof (induction ids arbitrary: r rule: rev_induct)
  case (snoc x xs)
  have step: "new_rank (xs @ [x]) i = (if x = i then Some (int (length xs) + 1) else new_rank xs i)"
    by (simp add: new_rank_def indexed_def)
  show ?case
  proof (cases "x = i")
    case True
    have "(xs @ [x]) ! k = i \<longleftrightarrow> k = length xs" if "k < length (xs @ [x])" for k
      using that snoc.prems True nth_mem [of k xs] by (auto simp: nth_append less_Suc_eq)
    then show ?thesis unfolding step using True by auto
  next
    case False
    then show ?thesis using snoc by (auto simp: step nth_append less_Suc_eq)
  qed
qed (simp add: new_rank_def indexed_def)

lemma new_rank_inj:
  "distinct ids \<Longrightarrow> new_rank ids i = Some r \<Longrightarrow> new_rank ids j = Some r \<Longrightarrow> i = j"
  by (auto simp: new_rank_iff)

lemma new_rank_range:
  assumes "distinct ids" "i \<in> set ids"
  shows "\<exists>r. new_rank ids i = Some r \<and> 1 \<le> r \<and> r \<le> int (length ids)"
proof -
  obtain k where "k < length ids" "ids ! k = i" using assms(2) by (auto simp: in_set_conv_nth)
  then have "new_rank ids i = Some (int k + 1)" using assms(1) by (auto simp: new_rank_iff)
  then show ?thesis using \<open>k < length ids\<close> by auto
qed

definition matches :: "org \<Rightarrow> uuid list \<Rightarrow> bool" where
  "matches s ids \<longleftrightarrow> set (map t_id (o_levels s)) = set ids \<and> length ids = length (o_levels s)"

lemma matches_distinct: "levels_ok s \<Longrightarrow> matches s ids \<Longrightarrow> distinct ids"
  unfolding matches_def levels_ok_def by (metis card_distinct distinct_card length_map)

lemma set_rank_simps [simp]:
  "t_id (set_rank ids c t) = t_id t" "t_key (set_rank ids c t) = t_key t"
  "set_rank ids d (set_rank ids c t) = set_rank ids d t"
  by (simp_all add: set_rank_def split: option.split)

text \<open>The two flushes, after the rows \<open>D\<close> have been written.\<close>

definition partly_ranked :: "uuid list \<Rightarrow> int \<Rightarrow> uuid set \<Rightarrow> HierarchyLevelType list \<Rightarrow> HierarchyLevelType list" where
  "partly_ranked ids offset D ts = map (\<lambda>t. if t_id t \<in> D then set_rank ids offset t else t) ts"

lemma distinct_partly:
  assumes "distinct ids" "distinct (map t_id ts)" "t_id ` set ts \<subseteq> set ids" "distinct (map t_rank ts)"
    and apart: "\<And>t u. t \<in> set ts \<Longrightarrow> u \<in> set ts \<Longrightarrow> t_rank (set_rank ids offset t) = t_rank u \<Longrightarrow> t = u"
  shows "distinct (map t_rank (partly_ranked ids offset D ts))"
proof -
  have ranked: "t_rank (set_rank ids offset t) = t_rank (set_rank ids offset u) \<Longrightarrow> t_id t = t_id u"
    if tu: "t \<in> set ts" "u \<in> set ts" for t u
  proof -
    obtain r r' where "new_rank ids (t_id t) = Some r" "new_rank ids (t_id u) = Some r'"
      using new_rank_range [OF assms(1), of "t_id t"] new_rank_range [OF assms(1), of "t_id u"]
        tu assms(3) by auto
    then show "t_rank (set_rank ids offset t) = t_rank (set_rank ids offset u) \<Longrightarrow> t_id t = t_id u"
      using new_rank_inj [OF assms(1)] by (simp add: set_rank_def)
  qed
  have "inj_on (\<lambda>t. t_rank (if t_id t \<in> D then set_rank ids offset t else t)) (set ts)"
  proof (rule inj_onI)
    fix t u assume tu: "t \<in> set ts" "u \<in> set ts"
      "t_rank (if t_id t \<in> D then set_rank ids offset t else t)
         = t_rank (if t_id u \<in> D then set_rank ids offset u else u)"
    from tu(3) consider "t_rank (set_rank ids offset t) = t_rank (set_rank ids offset u)"
      | "t_rank (set_rank ids offset t) = t_rank u" | "t_rank (set_rank ids offset u) = t_rank t"
      | "t_rank t = t_rank u" by (metis (full_types))
    then have "t = u \<or> t_id t = t_id u \<or> t_rank t = t_rank u"
      using ranked [OF tu(1,2)] apart [OF tu(1,2)] apart [OF tu(2,1)] by cases blast+
    moreover have "inj_on t_id (set ts)" "inj_on t_rank (set ts)" using assms(2,4) by (simp_all add: distinct_map)
    ultimately show "t = u" using tu(1,2) by (blast dest: inj_onD)
  qed
  moreover have "distinct ts" using assms(2) by (simp add: distinct_map)
  ultimately show ?thesis by (simp add: partly_ranked_def distinct_map comp_def)
qed

lemma rank_le_max: "t \<in> set (o_levels s) \<Longrightarrow> t_rank t \<le> Max (set (map t_rank (o_levels s)))"
  by (intro Max_ge) auto

lemma offset_apart:
  assumes "levels_ok s" "matches s ids" "t \<in> set (o_levels s)" "u \<in> set (o_levels s)"
  shows "t_rank u < t_rank (set_rank ids (rank_offset s) t)"
    and "t_rank (set_rank ids 0 u) < t_rank (set_rank ids (rank_offset s) t)"
proof -
  note d = matches_distinct [OF assms(1,2)]
  have pos: "0 < t_rank u" using assms(1,4) by (simp add: levels_ok_def)
  obtain r where r: "new_rank ids (t_id t) = Some r" "1 \<le> r"
    using new_rank_range [OF d, of "t_id t"] assms(2,3) by (auto simp: matches_def)
  obtain r' where r': "new_rank ids (t_id u) = Some r'" "r' \<le> int (length ids)"
    using new_rank_range [OF d, of "t_id u"] assms(2,4) by (auto simp: matches_def)
  show "t_rank u < t_rank (set_rank ids (rank_offset s) t)"
    using r rank_le_max [OF assms(4)] by (simp add: set_rank_def rank_offset_def)
  show "t_rank (set_rank ids 0 u) < t_rank (set_rank ids (rank_offset s) t)"
    using r r' rank_le_max [OF assms(4)] assms(2) pos
    by (simp add: set_rank_def rank_offset_def matches_def)
qed

lemma partly_ranked_distinct:
  assumes ok: "levels_ok s" and m: "matches s ids"
  shows "distinct (map t_rank (partly_ranked ids (rank_offset s) D (o_levels s)))"
    and "distinct (map t_rank (partly_ranked ids 0 D
           (partly_ranked ids (rank_offset s) UNIV (o_levels s))))"
proof -
  note d = matches_distinct [OF ok m]
  have ids: "distinct (map t_id (o_levels s))" "distinct (map t_rank (o_levels s))"
    "t_id ` set (o_levels s) \<subseteq> set ids"
    using ok m by (auto simp: levels_ok_def matches_def)
  show first: "distinct (map t_rank (partly_ranked ids (rank_offset s) D (o_levels s)))" for D
    using offset_apart(1) [OF ok m] by (intro distinct_partly [OF d ids(1,3,2)]) fastforce
  let ?ts = "map (set_rank ids (rank_offset s)) (o_levels s)"
  have ts: "partly_ranked ids (rank_offset s) UNIV (o_levels s) = ?ts" by (simp add: partly_ranked_def)
  show "distinct (map t_rank (partly_ranked ids 0 D
           (partly_ranked ids (rank_offset s) UNIV (o_levels s))))"
    unfolding ts
  proof (rule distinct_partly [OF d])
    show "distinct (map t_id ?ts)" using ids(1) by (simp add: comp_def)
    show "t_id ` set ?ts \<subseteq> set ids" using ids(3) by auto
    show "distinct (map t_rank ?ts)" using first [of UNIV] unfolding ts .
    fix t u assume tu: "t \<in> set ?ts" "u \<in> set ?ts" "t_rank (set_rank ids 0 t) = t_rank u"
    then obtain t' u' where "t' \<in> set (o_levels s)" "t = set_rank ids (rank_offset s) t'"
      "u' \<in> set (o_levels s)" "u = set_rank ids (rank_offset s) u'" by auto
    then show "t = u" using offset_apart(2) [OF ok m, of u' t'] tu(3) by simp
  qed
qed

lemma reorderE:
  assumes "reorder_level_types s ids a = Inr s'"
  obtains "matches s ids" "reorder_violations s ids = []"
    "s' = write_audit a ''hierarchy_level_type.reorder'' None
       (s\<lparr>o_levels := map (set_rank ids 0) (o_levels s)\<rparr>)"
  using assms by (auto simp: reorder_level_types_def matches_def Let_def comp_def split: if_split_asm)

lemma new_rank_of_key:
  assumes ok: "levels_ok s" and m: "matches s ids" and lv: "o_levels s' = map (set_rank ids 0) (o_levels s)"
    and k: "key \<in> t_key ` set (o_levels s)"
  shows "\<exists>r. new_rank_of_key s ids key = Some r \<and> get_level_rank s' key = Some r"
proof -
  note d = matches_distinct [OF ok m]
  from k obtain t where t: "t \<in> set (o_levels s)" "t_key t = key" by auto
  have keys: "distinct (map t_key (o_levels s))" using ok by (simp add: levels_ok_def)
  then have "distinct (map t_key (rev (o_levels s)))" by (simp add: distinct_map)
  then have "find (\<lambda>u. t_key u = key) (rev (o_levels s)) = Some t"
    using find_distinct [of t_key "rev (o_levels s)" t] t by simp
  moreover obtain r where "new_rank ids (t_id t) = Some r"
    using new_rank_range [OF d, of "t_id t"] m t(1) by (auto simp: matches_def)
  moreover have "rank_of_key s' key = Some (t_rank (set_rank ids 0 t))"
    using rank_of_key_mem [of s' "set_rank ids 0 t"] keys t by (simp add: lv comp_def)
  moreover have "key \<in> t_key ` set (o_levels s')" using k by (simp add: lv image_image)
  ultimately show ?thesis by (simp add: new_rank_of_key_def set_rank_def rank_registered)
qed

lemma reorder_ok:
  assumes ok: "org_ok k u s" and c: "reorder_level_types s ids a = Inr s'"
  shows "org_ok k u s'"
  using c
proof (rule reorderE)
  assume m: "matches s ids" and v: "reorder_violations s ids = []"
    and s': "s' = write_audit a ''hierarchy_level_type.reorder'' None
       (s\<lparr>o_levels := map (set_rank ids 0) (o_levels s)\<rparr>)"
  have lv: "o_levels s' = map (set_rank ids 0) (o_levels s)" and nodes: "o_nodes s' = o_nodes s"
    by (simp_all add: s')
  have l: "levels_ok s" and t: "tree_ok s" using ok by (simp_all add: org_ok_def)
  note d = matches_distinct [OF l m]
  have used: "n_level n \<in> t_key ` set (o_levels s)" if k "n \<in> set (o_nodes s)" for n
    using ok that by (auto simp: org_ok_def registered_def)
  have "ranks_ok s'" if k
    unfolding ranks_ok_def nodes node_of_nodes [OF nodes]
  proof (intro ballI allI impI)
    fix n i q assume n: "n \<in> set (o_nodes s)" "n_parent_id n = Some i" "node_of s i = Some q"
    have q: "q \<in> set (o_nodes s)" using node_of_Some [OF n(3)] by simp
    note rank = new_rank_of_key [OF l m lv used [OF \<open>k\<close>]]
    obtain r where r: "new_rank_of_key s ids (n_level n) = Some r" "get_level_rank s' (n_level n) = Some r"
      using rank [OF n(1)] by blast
    obtain p where p: "new_rank_of_key s ids (n_level q) = Some p" "get_level_rank s' (n_level q) = Some p"
      using rank [OF q] by blast
    have "p < r"
    proof (rule ccontr)
      assume "\<not> p < r"
      then have "(n_id q, n_id n) \<in> set (reorder_violations s ids)"
        using n r(1) p(1) unfolding reorder_violations_def set_concat set_map
        by (intro UN_I [OF imageI, OF n(1)]) simp
      then show False using v by simp
    qed
    then show "below (get_level_rank s' (n_level n)) (get_level_rank s' (n_level q))"
      using r p by (simp add: below_def)
  qed
  moreover have "levels_ok s'"
  proof -
    have "0 < t_rank (set_rank ids 0 t)" if "t \<in> set (o_levels s)" for t
    proof -
      have "t_id t \<in> set ids" using m that by (auto simp: matches_def)
      from new_rank_range [OF d this] show ?thesis by (auto simp: set_rank_def)
    qed
    moreover have "distinct (map t_rank (map (set_rank ids 0) (o_levels s)))"
      using partly_ranked_distinct(2) [OF l m, of UNIV] by (simp add: partly_ranked_def comp_def)
    ultimately show ?thesis using l by (auto simp: levels_ok_def lv comp_def)
  qed
  moreover have "registered s'" if k using used [OF that] by (auto simp: registered_def lv nodes image_comp comp_def)
  ultimately show "org_ok k u s'" by (intro org_ok_levels [OF ok]) (simp_all add: s')
qed

end
