(* ===== verification/OrgReach.thy ===== *)
theory OrgReach
  imports OrgLevels
begin

text \<open>
  Commanders, the step relation of the organisation, and its properties: the invariant of
  every reachable organisation, paths against the parent links, moving a node there and
  back, the unique ranks during a reorder, and the approver chains.
\<close>

section \<open>Commanders, scopes and deputies\<close>

lemma recompute_people:
  "p \<in> set (o_people (recompute_role t i s)) \<Longrightarrow> \<exists>p0 \<in> set (o_people s). p_node_id p = p_node_id p0"
  by (auto simp: recompute_role_def update_person_def split: if_split_asm)

lemma recompute_scopes [simp]: "o_scopes (recompute_role t i s) = o_scopes s"
  by (simp add: recompute_role_def)

definition recommand :: "uuid \<Rightarrow> uuid option \<Rightarrow> HierarchyNode \<Rightarrow> HierarchyNode" where
  "recommand i c n =
     (if n_id n = i then n\<lparr>n_commander_id := c\<rparr>
      else if c \<noteq> None \<and> n_commander_id n = c then n\<lparr>n_commander_id := None\<rparr> else n)"

lemma recommand_simps [simp]:
  "n_id (recommand i c n) = n_id n" "n_parent_id (recommand i c n) = n_parent_id n"
  "n_path_ids (recommand i c n) = n_path_ids n" "n_level (recommand i c n) = n_level n"
  by (simp_all add: recommand_def)

lemma set_commanderE:
  assumes "set_commander s t i c a = Inr s'"
  shows "node_of s i \<noteq> None" "o_nodes s' = map (recommand i c) (o_nodes s)"
    "o_levels s' = o_levels s" "o_scopes s' = o_scopes s"
    "\<And>p. p \<in> set (o_people s') \<Longrightarrow> p_node_id p = Some i \<or> (\<exists>p0 \<in> set (o_people s). p_node_id p = p_node_id p0)"
proof -
  define s1 where "s1 = (case c of None \<Rightarrow> s | Some c \<Rightarrow> take_over i c s)"
  define s2 where "s2 = update_node i (n_commander_id_update (\<lambda>_. c)) s1"
  define s3 where "s3 = (case c of None \<Rightarrow> s2 | Some c \<Rightarrow> recompute_role t c s2)"
  obtain node where node: "node_of s i = Some node" using assms
    by (auto simp: set_commander_def split: option.splits)
  define s4 where "s4 = (case n_commander_id node of None \<Rightarrow> s3
     | Some c' \<Rightarrow> if n_commander_id node = c then s3 else recompute_role t c' s3)"
  have s': "s' = write_audit a ''hierarchy_node.set_commander'' (Some i) s4"
    using assms node unfolding s1_def s2_def s3_def s4_def
    by (auto simp: set_commander_def Let_def split: if_split_asm)
  show "node_of s i \<noteq> None" using node by simp
  have 1: "o_levels s1 = o_levels s" "o_scopes s1 = o_scopes s"
    by (simp_all add: s1_def take_over_def split: option.split)
  have 4: "o_nodes s4 = o_nodes s2" "o_levels s4 = o_levels s2" "o_scopes s4 = o_scopes s2"
    by (simp_all add: s4_def s3_def split: option.split)
  show "o_levels s' = o_levels s" "o_scopes s' = o_scopes s"
    using 1 4 by (simp_all add: s' s2_def update_node_def)
  show "o_nodes s' = map (recommand i c) (o_nodes s)"
    using 4 by (auto simp: s' s2_def s1_def update_node_def take_over_def update_person_def
        recommand_def split: option.split)
  fix p assume "p \<in> set (o_people s')"
  then obtain p3 where p3: "p3 \<in> set (o_people s3)" "p_node_id p = p_node_id p3"
    using recompute_people [of p t _ s3] by (auto simp: s' s4_def write_audit_def split: option.splits if_split_asm)
  then obtain p2 where p2: "p2 \<in> set (o_people s2)" "p_node_id p = p_node_id p2"
    using recompute_people [of p3 t _ s2] by (auto simp: s3_def split: option.splits)
  then show "p_node_id p = Some i \<or> (\<exists>p0 \<in> set (o_people s). p_node_id p = p_node_id p0)"
    by (auto simp: s2_def s1_def update_node_def take_over_def update_person_def split: option.splits if_split_asm)
qed

lemma set_commander_ok:
  assumes ok: "org_ok k u s" and c: "set_commander s t i c a = Inr s'"
  shows "org_ok k u s'"
proof -
  note e = set_commanderE [OF c]
  note look = node_of_map [OF e(2) recommand_simps(1)]
  have "commands_ok s'" if u
    unfolding commands_ok_def e(2)
  proof (intro ballI impI)
    fix n' m' assume nm: "n' \<in> set (map (recommand i c) (o_nodes s))" "m' \<in> set (map (recommand i c) (o_nodes s))"
      and h: "n_commander_id n' \<noteq> None" "n_commander_id n' = n_commander_id m'"
    obtain n m where n: "n \<in> set (o_nodes s)" "n' = recommand i c n"
      and m: "m \<in> set (o_nodes s)" "m' = recommand i c m" using nm by auto
    have "n_id n \<noteq> i \<Longrightarrow> n_id m \<noteq> i \<Longrightarrow> n_commander_id n \<noteq> None \<and> n_commander_id n = n_commander_id m"
      using h n(2) m(2) by (auto simp: recommand_def split: if_split_asm)
    moreover have "n_id n = i \<longleftrightarrow> n_id m = i"
      using h n(2) m(2) by (auto simp: recommand_def split: if_split_asm)
    ultimately show "n_id n' = n_id m'"
      using ok that n m unfolding org_ok_def commands_ok_def by (metis recommand_simps(1))
  qed
  moreover have "places_ok s'"
    using ok e(1,4) e(5) unfolding org_ok_def places_ok_def by (fastforce simp: look)
  moreover have "tree_ok s'" "levels_ok s'" "k \<Longrightarrow> ranks_ok s' \<and> registered s'"
    using ok e(3) same_levels [OF e(3)] map_nodes(1-3) [OF e(2) recommand_simps(1)] by (simp_all add: org_ok_def)
  ultimately show ?thesis by (simp add: org_ok_def)
qed

lemma roles_ok:
  assumes ok: "org_ok k u s" and same: "o_nodes s' = o_nodes s" "o_levels s' = o_levels s"
    and people: "\<And>p. p \<in> set (o_people s') \<Longrightarrow> \<exists>p0 \<in> set (o_people s). p_node_id p = p_node_id p0"
    and scopes: "\<And>g. g \<in> set (o_scopes s') \<Longrightarrow> g \<in> set (o_scopes s) \<or> node_of s (g_node_id g) \<noteq> None"
  shows "org_ok k u s'"
proof -
  have "places_ok s'"
    using ok people scopes unfolding org_ok_def places_ok_def node_of_nodes [OF same(1)] by metis
  then show ?thesis using ok same_nodes [OF same] by (simp add: org_ok_def)
qed

lemma assign_scope_ok:
  assumes "org_ok k u s" "assign_dm_scope s t i sid nid a = Inr s'"
  shows "org_ok k u s'"
proof (cases "s' = s")
  case False
  then have s': "s' = write_audit a ''dm_scope.assign'' (Some i) (recompute_role t sid
      (s\<lparr>o_scopes := o_scopes s @ [\<lparr>g_id = i, g_manager_id = sid, g_node_id = nid\<rparr>]\<rparr>))"
    and n: "node_of s nid \<noteq> None"
    using assms(2) by (auto simp: assign_dm_scope_def split: if_split_asm)
  show ?thesis using n by (intro roles_ok [OF assms(1)]) (auto simp: s' dest!: recompute_people)
qed (use assms in simp)

lemma remove_scope_ok:
  assumes ok: "org_ok k u s" and rm: "remove_dm_scope s t i a = Inr s'"
  shows "org_ok k u s'"
proof (cases "find (\<lambda>g. g_id g = i) (o_scopes s)")
  case (Some g)
  then have s': "s' = write_audit a ''dm_scope.remove'' (Some i) (recompute_role t (g_manager_id g)
      (s\<lparr>o_scopes := filter (\<lambda>g. g_id g \<noteq> i) (o_scopes s)\<rparr>))"
    using rm by (simp add: remove_dm_scope_def)
  show ?thesis by (intro roles_ok [OF ok]) (auto simp: s' dest!: recompute_people)
qed (use rm in \<open>simp add: remove_dm_scope_def\<close>)

lemma deputy_ok:
  "org_ok k u s \<Longrightarrow> create_deputy s t i p d r since until a = Inr s' \<Longrightarrow> org_ok k u s'"
  "org_ok k u s \<Longrightarrow> revoke_deputy s i a = Inr s' \<Longrightarrow> org_ok k u s'"
  by (rule roles_ok; auto simp: create_deputy_def revoke_deputy_def split: if_split_asm)+

section \<open>Steps\<close>

text \<open>
  One successful operation, with any arguments; the identifier of a new row is unused.  The
  two indices say whether the level it gives, if any, is a registered key and whether the
  commander a new node is created for, if any, commands no other node: \<open>get_level_rank\<close> accepts
  old labels too, and \<open>create_node\<close> does not look at the commander.
\<close>

inductive org_step :: "bool \<Rightarrow> bool \<Rightarrow> org \<Rightarrow> org \<Rightarrow> bool" where
  step_create: "create_node s i level name parent commander a = Inr s' \<Longrightarrow> node_of s i = None
    \<Longrightarrow> org_step (by_key s level) (commands_nothing s commander) s s'"
| step_move: "move_node s i p a = Inr s' \<Longrightarrow> org_step True True s s'"
| step_rename: "rename_node s i name a = Inr s' \<Longrightarrow> org_step True True s s'"
| step_delete: "delete_node s refs i a = Inr s' \<Longrightarrow> org_step True True s s'"
| step_change_level: "change_node_level s i level a = Inr s' \<Longrightarrow> org_step (by_key s level) True s s'"
| step_create_level: "create_level_type s i key label a = Inr s' \<Longrightarrow> i \<notin> t_id ` set (o_levels s)
    \<Longrightarrow> org_step True True s s'"
| step_delete_level: "delete_level_type s i a = Inr s' \<Longrightarrow> org_step True True s s'"
| step_reorder: "reorder_level_types s ids a = Inr s' \<Longrightarrow> org_step True True s s'"
| step_commander: "set_commander s t i c a = Inr s' \<Longrightarrow> org_step True True s s'"
| step_assign: "assign_dm_scope s t i sid nid a = Inr s' \<Longrightarrow> org_step True True s s'"
| step_remove: "remove_dm_scope s t i a = Inr s' \<Longrightarrow> org_step True True s s'"
| step_deputy: "create_deputy s t i p d r since until a = Inr s' \<Longrightarrow> org_step True True s s'"
| step_revoke: "revoke_deputy s i a = Inr s' \<Longrightarrow> org_step True True s s'"

inductive_cases org_stepE: "org_step keyed single s s'"

text \<open>An organisation before its first node.\<close>

definition fresh_org :: "org \<Rightarrow> bool" where
  "fresh_org s \<longleftrightarrow> o_nodes s = [] \<and> o_scopes s = [] \<and> list_all (\<lambda>p. p_node_id p = None) (o_people s)
     \<and> distinct (map t_id (o_levels s)) \<and> distinct (map t_key (o_levels s))
     \<and> distinct (map t_rank (o_levels s)) \<and> list_all (\<lambda>t. 0 < t_rank t) (o_levels s)"

text \<open>
  Any run of operations: \<open>keyed\<close> while every level it gave was a registered key, \<open>single\<close> while
  it created no node for someone who commands another.
\<close>

inductive org_run :: "bool \<Rightarrow> bool \<Rightarrow> org \<Rightarrow> bool" where
  reach_start: "fresh_org s \<Longrightarrow> org_run True True s"
| reach_step: "org_run k u s \<Longrightarrow> org_step keyed single s s' \<Longrightarrow> org_run (k \<and> keyed) (u \<and> single) s'"

abbreviation org_reachable :: "org \<Rightarrow> bool" where
  "org_reachable \<equiv> org_run True True"

lemma org_step_ok: "org_step keyed single s s' \<Longrightarrow> org_ok k u s \<Longrightarrow> org_ok (k \<and> keyed) (u \<and> single) s'"
proof (induction rule: org_step.induct)
  case (step_create s i level name parent commander a s')
  then show ?case by (intro create_node_ok)
next
  case (step_change_level s i level a s')
  then show ?case using change_level_ok by simp
qed (simp_all only: simp_thms, (blast intro: move_node_ok rename_node_ok delete_node_ok
      create_level_ok delete_level_ok reorder_ok set_commander_ok assign_scope_ok remove_scope_ok deputy_ok)+)

lemma run_ok: "org_run k u s \<Longrightarrow> org_ok k u s"
proof (induction rule: org_run.induct)
  case (reach_start s)
  then show ?case by (auto simp: fresh_org_def org_ok_def tree_ok_def ranks_ok_def levels_ok_def
      registered_def commands_ok_def places_ok_def list_all_iff)
qed (rule org_step_ok)

lemma reachable_parts:
  assumes "org_reachable s"
  shows "tree_ok s" "levels_ok s" "ranks_ok s" "commands_ok s"
  using run_ok [OF assms] by (simp_all add: org_ok_def)

section \<open>A small organisation\<close>

definition sample_org0 :: org where
  "sample_org0 = \<lparr>o_levels = [\<lparr>t_id = 21, t_key = ''corps'', t_label = ''Corps'', t_rank = 5\<rparr>,
       \<lparr>t_id = 22, t_key = ''unit'', t_label = ''Unit'', t_rank = 7\<rparr>],
     o_nodes = [], o_people = [\<lparr>p_id = 4, p_name = ''a'', p_role = Plain_soldier, p_node_id = None\<rparr>],
     o_scopes = [], o_deputies = [], o_audit = []\<rparr>"

definition sample_root :: HierarchyNode where
  "sample_root = \<lparr>n_id = 10, n_level = ''corps'', n_name = ''A'', n_parent_id = None,
     n_commander_id = Some 4, n_path_ids = [10]\<rparr>"

definition sample_child :: HierarchyNode where
  "sample_child = \<lparr>n_id = 11, n_level = ''unit'', n_name = ''B'', n_parent_id = Some 10,
     n_commander_id = None, n_path_ids = [10, 11]\<rparr>"

definition sample_org :: org where
  "sample_org = sample_org0\<lparr>o_nodes := [sample_root, sample_child],
     o_people := [\<lparr>p_id = 4, p_name = ''a'', p_role = Commander, p_node_id = Some 10\<rparr>],
     o_audit := [\<lparr>u_actor_id = None, u_action = ''hierarchy_node.create'', u_entity_id = Some 10\<rparr>,
       \<lparr>u_actor_id = None, u_action = ''hierarchy_node.create'', u_entity_id = Some 11\<rparr>,
       \<lparr>u_actor_id = None, u_action = ''hierarchy_node.set_commander'', u_entity_id = Some 10\<rparr>]\<rparr>"

lemma sample_reachable: "org_reachable sample_org"
proof -
  let ?s1 = "sample_org0\<lparr>o_nodes := [sample_root\<lparr>n_commander_id := None\<rparr>],
     o_audit := [\<lparr>u_actor_id = None, u_action = ''hierarchy_node.create'', u_entity_id = Some 10\<rparr>]\<rparr>"
  let ?s2 = "sample_org0\<lparr>o_nodes := [sample_root\<lparr>n_commander_id := None\<rparr>, sample_child],
     o_audit := [\<lparr>u_actor_id = None, u_action = ''hierarchy_node.create'', u_entity_id = Some 10\<rparr>,
       \<lparr>u_actor_id = None, u_action = ''hierarchy_node.create'', u_entity_id = Some 11\<rparr>]\<rparr>"
  note defs = sample_org0_def sample_root_def sample_child_def write_audit_def node_of_def
    get_level_rank_def rank_of_key_def below_def
  have 0: "org_reachable sample_org0" by (rule reach_start) (simp add: fresh_org_def sample_org0_def)
  have 1: "create_node sample_org0 10 ''corps'' ''A'' None None None = Inr ?s1"
    by (simp add: create_node_def defs)
  have 2: "create_node ?s1 11 ''unit'' ''B'' (Some 10) None None = Inr ?s2"
    by (simp add: create_node_def defs)
  have 3: "set_commander ?s2 0 10 (Some 4) None = Inr sample_org"
    by (simp add: set_commander_def take_over_def update_person_def update_node_def recompute_role_def
        is_commander_def commanded_node_ids_def person_of_def sample_org_def Let_def defs)
  note flags = by_key_def commands_nothing_def defs
  have "org_reachable ?s1" using reach_step [OF 0 step_create [OF 1]] by (simp add: flags)
  then have "org_reachable ?s2" using reach_step [OF _ step_create [OF 2]] by (simp add: flags)
  then show ?thesis using reach_step [OF _ step_commander [OF 3]] by fastforce
qed

section \<open>Properties\<close>

text \<open>
  Both conditions are needed.  A node made with the old label of the level \<open>squad\<close> keeps the
  label, so the level counts as unused and is deleted, and then the node's level has no rank;
  and this node is made for the commander of another one.
\<close>

definition squad_label :: string where
  "squad_label = hebrew [7, 5, 12, 9, 4]"

definition with_squad :: org where
  "with_squad = projr (create_level_type sample_org 23 ''squad'' ''Squad'' None)"

definition with_legacy_node :: org where
  "with_legacy_node = projr (create_node with_squad 12 squad_label ''C'' (Some 11) (Some 4) None)"

definition without_squad :: org where
  "without_squad = projr (delete_level_type with_legacy_node 23 None)"

lemma squad_label:
  "map_of SEEDED_LEVEL_LABEL_KEYS squad_label = Some ''squad''"
  "squad_label \<noteq> ''corps''" "squad_label \<noteq> ''unit''" "squad_label \<noteq> ''squad''"
  by (simp_all add: SEEDED_LEVEL_LABEL_KEYS_def squad_label_def hebrew_def char_of_def)

lemmas legacy_defs = sample_org_def sample_org0_def sample_root_def sample_child_def write_audit_def
  node_of_def person_of_def get_level_rank_def rank_of_key_def below_def

lemma with_squad: "create_level_type sample_org 23 ''squad'' ''Squad'' None = Inr with_squad"
  "o_nodes with_squad = [sample_root, sample_child]" "o_people with_squad = o_people sample_org"
  "o_levels with_squad = o_levels sample_org @ [\<lparr>t_id = 23, t_key = ''squad'', t_label = ''Squad'', t_rank = 8\<rparr>]"
  by (simp_all add: with_squad_def create_level_type_def legacy_defs)

lemma with_legacy_node: "create_node with_squad 12 squad_label ''C'' (Some 11) (Some 4) None = Inr with_legacy_node"
  "o_levels with_legacy_node = o_levels with_squad"
  "o_nodes with_legacy_node = [sample_root, sample_child, \<lparr>n_id = 12, n_level = squad_label, n_name = ''C'',
     n_parent_id = Some 11, n_commander_id = Some 4, n_path_ids = [10, 11, 12]\<rparr>]"
  by (simp_all add: with_legacy_node_def create_node_def with_squad squad_label squad_label(2-4) [symmetric] legacy_defs)

lemma without_squad: "delete_level_type with_legacy_node 23 None = Inr without_squad"
  "o_levels without_squad = o_levels sample_org" "o_nodes without_squad = o_nodes with_legacy_node"
  by (simp_all add: without_squad_def delete_level_type_def with_legacy_node with_squad squad_label squad_label(2-4) [symmetric] legacy_defs)

lemma legacy_run: "org_run False False without_squad"
proof -
  have "org_reachable with_squad" using reach_step [OF sample_reachable step_create_level [OF with_squad(1)]]
    by (simp add: legacy_defs)
  from reach_step [OF this step_create [OF with_legacy_node(1)]] have "org_run False False with_legacy_node"
    by (simp add: by_key_def commands_nothing_def with_squad squad_label(2-4) [symmetric] legacy_defs)
  then show ?thesis using reach_step [OF _ step_delete_level [OF without_squad(1)]] by fastforce
qed

lemma legacy_breaks: "\<not> registered without_squad" "\<not> ranks_ok without_squad" "\<not> commands_ok without_squad"
  by (auto simp: registered_def ranks_ok_def commands_ok_def without_squad with_legacy_node with_squad squad_label
      squad_label(2-4) [symmetric] legacy_defs)

text \<open>
  C13. The invariant of the organisation.  From level types with distinct identifiers, keys and
  positive ranks and no nodes yet, whatever operations run in whatever order and with whatever
  arguments the code accepts (a new row's identifier is unused), every node's materialized path is its parent's path
  extended by the node, so the nodes form a forest without cycles; level types have distinct
  identifiers, keys and positive ranks; and the nodes people and duty-manager scopes point to
  exist.  As long as levels have been given by registered keys, every node's level is registered
  and every child's level ranks below its parent's; the code also accepts the old Hebrew labels,
  and after one of them neither need hold.  As long as no node has been created for a commander
  of another node, nobody commands two nodes; \<open>create_node\<close> does not check it, \<open>set_commander\<close>
  does.
\<close>

theorem organisation_invariant:
  assumes "org_run keyed single s"
  shows "tree_ok s \<and> levels_ok s \<and> places_ok s \<and> (if keyed then ranks_ok s \<and> registered s else True)
    \<and> (if single then commands_ok s else True)"
  using run_ok [OF assms] by (simp add: org_ok_def)

lemma organisation_invariant_witness:
  "tree_ok sample_org \<and> levels_ok sample_org \<and> places_ok sample_org
    \<and> (if True then ranks_ok sample_org \<and> registered sample_org else True)
    \<and> (if True then commands_ok sample_org else True)"
  by (rule organisation_invariant [OF sample_reachable])

text \<open>
  The two readings of the hierarchy agree.  The path a node carries holds exactly the
  nodes its parent links reach, each once, and ends with the node itself; and the distance
  \<open>hierarchy.py\<close> computes from two paths is the one \<open>algorithm/reserve.py\<close> computes by
  walking the parent links.
\<close>

theorem paths_are_ancestors:
  assumes "org_reachable s" "node_of s i = Some a" "node_of s j = Some b"
  shows "set (n_path_ids a) = set (node_ancestors i (parent_table s)) \<and> distinct (n_path_ids a)
    \<and> last (n_path_ids a) = i
    \<and> node_distance s (Some i) (Some j) = hierarchy_distance i j (parent_table s)"
proof -
  note t = reachable_parts(1) [OF assms(1)]
  note a = node_of_Some [OF assms(2)] and b = node_of_Some [OF assms(3)]
  have sets: "set (n_path_ids a) = set (node_ancestors i (parent_table s))"
      "set (n_path_ids b) = set (node_ancestors j (parent_table s))"
    using path_node_ancestors [OF t] a b by auto
  have "node_distance s (Some i) (Some j) = sym_diff_size (n_path_ids a) (n_path_ids b)"
    using assms(2,3) by (auto simp: node_distance_def sym_diff_card)
  moreover have "last (n_path_ids a) = i" using path_last [OF t, of a] a by auto
  ultimately show ?thesis using sets path_distinct [OF t] a
      sym_diff_cong [OF sets] by (auto simp: hierarchy_distance_def)
qed

lemma paths_are_ancestors_witness:
  "set (n_path_ids sample_child) = set (node_ancestors 11 (parent_table sample_org))
    \<and> distinct (n_path_ids sample_child) \<and> last (n_path_ids sample_child) = 11
    \<and> node_distance sample_org (Some 11) (Some 10) = hierarchy_distance 11 10 (parent_table sample_org)"
  by (rule paths_are_ancestors [OF sample_reachable, of _ _ _ sample_root])
    (simp_all add: node_of_def sample_org_def sample_root_def sample_child_def)

text \<open>
  C14. Moving is reversible.  In an organisation reached with levels given by registered keys and
  no node created for the commander of another, when a node has been moved, moving it back under its old parent
  is never refused and restores the parent and the path of the node and of every node below
  it, and nothing else changes.
\<close>

theorem move_and_back:
  assumes r: "org_reachable s" and n: "node_of s i = Some node" and m: "move_node s i p a = Inr s1"
  shows "\<exists>s2. move_node s1 i (n_parent_id node) b = Inr s2 \<and> o_nodes s2 = o_nodes s
    \<and> o_levels s2 = o_levels s \<and> o_people s2 = o_people s \<and> o_scopes s2 = o_scopes s"
proof -
  note t = reachable_parts(1) [OF r] and ok = reachable_parts(3) [OF r]
  obtain base where base: "move_base s node p = Inr base"
    and s1: "s1 = write_audit a ''hierarchy_node.move'' (Some i)
        (s\<lparr>o_nodes := map (moved node p (base @ [i])) (o_nodes s)\<rparr>)"
    using m n by (auto simp: move_node_def split: sum.splits)
  have nodes: "o_nodes s1 = map (moved node p (base @ [i])) (o_nodes s)" by (simp add: s1)
  note look = node_of_map [OF nodes moved_simps(1)]
  have node: "node \<in> set (o_nodes s)" "n_id node = i" using node_of_Some [OF n] by auto
  let ?node = "moved node p (base @ [i]) node"
  obtain old_base where old: "n_path_ids node = old_base @ [i]"
    and restored: "move_base s1 ?node (n_parent_id node) = Inr old_base"
    using t node(1)
  proof (cases rule: tree_cases)
    case root then show ?thesis using that [of "[]"] node by (simp add: move_base_def)
  next
    case (child q)
    have above: "i \<notin> set (n_path_ids q)" using parent_above [OF t node(1) child(2,4)] node by simp
    then have other: "n_id q \<noteq> i" using path_self [OF t child(2)] by auto
    have "moved node p (base @ [i]) q = q" using above other node by (intro moved_other) auto
    moreover have "below (get_level_rank s (n_level node)) (get_level_rank s (n_level q))"
      using ok node(1) child(1,3) by (auto simp: ranks_ok_def)
    ultimately have "move_base s1 ?node (n_parent_id node) = Inr (n_path_ids q)"
      using child above other node look [of "n_id q"] rank_of_levels [of s1 s]
      by (simp add: move_base_def s1)
    then show ?thesis using that child(4) node by simp
  qed
  define s2 where "s2 = write_audit b ''hierarchy_node.move'' (Some i)
    (s1\<lparr>o_nodes := map (moved ?node (n_parent_id node) (old_base @ [i])) (o_nodes s1)\<rparr>)"
  have "move_node s1 i (n_parent_id node) b = Inr s2"
    using look [of i] n restored by (simp add: move_node_def s2_def)
  moreover have "o_nodes s2 = o_nodes s"
    using moved_back [OF t n _ old refl] by (auto simp: s2_def nodes intro: map_idI)
  ultimately show ?thesis by (intro exI [of _ s2]) (simp add: s2_def s1)
qed

lemma move_and_back_witness:
  "\<exists>s2. move_node (projr (move_node sample_org 11 None None)) 11 (n_parent_id sample_child) None = Inr s2
    \<and> o_nodes s2 = o_nodes sample_org \<and> o_levels s2 = o_levels sample_org
    \<and> o_people s2 = o_people sample_org \<and> o_scopes s2 = o_scopes sample_org"
  by (rule move_and_back [OF sample_reachable, of 11 sample_child None None])
    (simp_all add: node_of_def sample_org_def sample_root_def sample_child_def move_node_def move_base_def)

text \<open>
  Reordering level types never collides.  An accepted reorder first shifts every rank
  past those in use and then writes the final ranks; whichever rows \<open>D\<close> the database has
  already updated in either phase, no two level types have the same rank, so the unique
  constraint on the rank cannot fail.  In the end the ranks run from 1 in the order asked for.
\<close>

theorem reorder_writes_unique:
  assumes r: "org_reachable s" and c: "reorder_level_types s ids a = Inr s'"
  shows "distinct (map t_rank (partly_ranked ids (rank_offset s) D (o_levels s)))
    \<and> distinct (map t_rank (partly_ranked ids 0 D (partly_ranked ids (rank_offset s) UNIV (o_levels s))))
    \<and> o_levels s' = partly_ranked ids 0 UNIV (partly_ranked ids (rank_offset s) UNIV (o_levels s))
    \<and> list_all (\<lambda>(k, i). \<exists>t \<in> set (o_levels s'). t_id t = i \<and> t_rank t = int k + 1) (indexed ids)"
proof -
  note ok = reachable_parts(2) [OF r]
  obtain m: "matches s ids" and s': "o_levels s' = map (set_rank ids 0) (o_levels s)"
    using c by (rule reorderE) simp
  note d = matches_distinct [OF ok m]
  have "\<exists>t \<in> set (o_levels s'). t_id t = ids ! k \<and> t_rank t = int k + 1" if k: "k < length ids" for k
  proof -
    obtain t where t: "t \<in> set (o_levels s)" "t_id t = ids ! k"
      using m nth_mem [OF k] by (force simp: matches_def image_iff)
    have "new_rank ids (t_id t) = Some (int k + 1)" using k t(2) by (auto simp: new_rank_iff [OF d])
    then have "t_rank (set_rank ids 0 t) = int k + 1" by (simp add: set_rank_def)
    then show ?thesis using t by (auto simp: s')
  qed
  then show ?thesis using partly_ranked_distinct [OF ok m, of D]
    by (auto simp: s' partly_ranked_def o_def list_all_iff indexed_def in_set_zip)
qed

definition sample_level_order :: "uuid list" where
  "sample_level_order = [21, 22]"

lemma reorder_writes_unique_witness:
  "distinct (map t_rank (partly_ranked sample_level_order (rank_offset sample_org) {21} (o_levels sample_org)))
    \<and> distinct (map t_rank (partly_ranked sample_level_order 0 {21}
        (partly_ranked sample_level_order (rank_offset sample_org) UNIV (o_levels sample_org))))
    \<and> o_levels (projr (reorder_level_types sample_org sample_level_order None))
        = partly_ranked sample_level_order 0 UNIV (partly_ranked sample_level_order (rank_offset sample_org) UNIV (o_levels sample_org))
    \<and> list_all (\<lambda>(k, i). \<exists>t \<in> set (o_levels (projr (reorder_level_types sample_org sample_level_order None))).
          t_id t = i \<and> t_rank t = int k + 1) (indexed sample_level_order)"
  by (rule reorder_writes_unique [OF sample_reachable, where a = None])
    (simp add: reorder_level_types_def reorder_violations_def new_rank_of_key_def new_rank_def
      indexed_def sample_level_order_def sample_org_def sample_org0_def sample_root_def sample_child_def
      node_of_def Let_def dict_get_def)

section \<open>Approvers\<close>

lemma chain_distinct:
  assumes "distinct (List.map_filter f path @ chain)" "x \<notin> set chain"
  shows "fold (\<lambda>i chain. case f i of None \<Rightarrow> chain
      | Some c \<Rightarrow> if c \<noteq> x \<and> c \<notin> set chain then chain @ [c] else chain) path chain
    = chain @ filter (\<lambda>c. c \<noteq> x) (List.map_filter f path)"
  using assms
proof (induction path arbitrary: chain)
  case (Cons i path)
  then show ?case by (cases "f i") (auto simp: map_filter_simps)
qed (simp add: map_filter_simps)

lemma commanders_distinct:
  assumes "commands_ok s" "distinct path"
  shows "distinct (List.map_filter (commander_at s) path)"
  using assms(2)
proof (induction path)
  case (Cons i path)
  have "c \<noteq> d" if ci: "commander_at s i = Some c" and j: "j \<in> set path"
    and dj: "commander_at s j = Some d" for c d j
  proof
    assume eq: "c = d"
    obtain n m where n: "node_of s i = Some n" "n_commander_id n = Some c"
      and m: "node_of s j = Some m" "n_commander_id m = Some c"
      using ci dj eq by (auto simp: commander_at_def split: option.splits)
    note node_of_Some [OF n(1)] node_of_Some [OF m(1)] n(2) m(2)
    then show False using assms(1) Cons.prems j unfolding commands_ok_def by fastforce
  qed
  then show ?case using Cons by (auto simp: map_filter_def split: option.split)
qed (simp add: map_filter_simps)

lemma soldier_path_distinct: "tree_ok s \<Longrightarrow> distinct (path_of_soldier s i)"
  using path_distinct [of s] node_of_Some [of s] by (auto simp: path_of_soldier_def split: option.split)

text \<open>
  The commander chain.  The approvers of a soldier's request are exactly the commanders
  of the nodes above him, nearest first, without the soldier himself; since nobody commands
  two nodes no name comes twice, so the check for one in the loop never drops an approver.
\<close>

theorem commander_chain_exact:
  assumes "org_reachable s"
  shows "commander_chain_for_soldier s i
      = filter (\<lambda>c. c \<noteq> i) (List.map_filter (commander_at s) (rev (path_of_soldier s i)))
    \<and> distinct (commander_chain_for_soldier s i)"
proof -
  have "distinct (List.map_filter (commander_at s) (rev (path_of_soldier s i)))"
    using reachable_parts [OF assms] by (intro commanders_distinct) (simp_all add: soldier_path_distinct)
  then show ?thesis
    using chain_distinct [of "commander_at s" "rev (path_of_soldier s i)" "[]" i]
    by (simp add: commander_chain_for_soldier_def)
qed

lemma commander_chain_exact_witness:
  "commander_chain_for_soldier sample_org 9
      = filter (\<lambda>c. c \<noteq> 9) (List.map_filter (commander_at sample_org) (rev (path_of_soldier sample_org 9)))
    \<and> distinct (commander_chain_for_soldier sample_org 9)"
  by (rule commander_chain_exact [OF sample_reachable])

end
