(* ===== verification/SwapsSound.thy ===== *)
theory SwapsSound
  imports Swaps OrgReach
begin

text \<open>
  The invariant of the swap tables: a request that is no longer open has no live candidate,
  exactly the applied requests have a candidate who took the duty, and just one.  Every
  operation keeps it, together with the invariant of the duty board it writes to.
\<close>

section \<open>The tables\<close>

definition applied_of :: "uuid \<Rightarrow> SwapCandidate list \<Rightarrow> SwapCandidate list" where
  "applied_of i cs = filter (\<lambda>c. sc_request_id c = i \<and> sc_status c = Cand_applied) cs"

definition is_open :: "SwapRequest \<Rightarrow> bool" where
  "is_open r \<longleftrightarrow> sr_status r = Swap_open"

text \<open>The primary keys and the two unique constraints; a candidate's request exists.\<close>

definition keys_ok :: "SwapRequest list \<Rightarrow> SwapCandidate list \<Rightarrow> bool" where
  "keys_ok rs cs \<longleftrightarrow> distinct (map sr_id rs) \<and> distinct (map sc_id cs)
     \<and> distinct (map (\<lambda>r. (sr_requester r, sr_assignment_id r)) (filter is_open rs))
     \<and> distinct (map (\<lambda>c. (sc_request_id c, sc_soldier_id c)) cs)
     \<and> sc_request_id ` set cs \<subseteq> sr_id ` set rs"

definition outcome_ok :: "SwapCandidate list \<Rightarrow> SwapRequest \<Rightarrow> bool" where
  "outcome_ok cs r \<longleftrightarrow> (sr_status r \<noteq> Swap_open \<longrightarrow> (\<forall>c \<in> set cs. sc_request_id c = sr_id r \<longrightarrow> \<not> live_cand c))
     \<and> length (applied_of (sr_id r) cs) = (if sr_status r = Swap_applied then 1 else 0)"

definition swap_ok :: "world \<Rightarrow> bool" where
  "swap_ok w \<longleftrightarrow> keys_ok (wd_requests w) (wd_candidates w)
     \<and> (\<forall>r \<in> set (wd_requests w). outcome_ok (wd_candidates w) r) \<and> board_ok (wd_board w)"

lemma distinct_map_sub:
  assumes "distinct (map k (filter P xs))" "\<And>x. Q x \<Longrightarrow> P x"
  shows "distinct (map k (filter Q xs))"
proof -
  have "(\<lambda>x. P x \<and> Q x) = Q" using assms(2) by auto
  then have "filter Q xs = filter Q (filter P xs)" by (simp only: filter_filter)
  then show ?thesis using distinct_map_filter [OF assms(1)] by metis
qed

text \<open>Rewriting rows one by one keeps the keys.\<close>

lemma keys_ok_map:
  assumes ok: "keys_ok rs cs"
    and f: "\<And>r. sr_id (f r) = sr_id r" "\<And>r. sr_requester (f r) = sr_requester r"
      "\<And>r. sr_assignment_id (f r) = sr_assignment_id r" "\<And>r. is_open (f r) \<Longrightarrow> is_open r"
    and g: "\<And>c. sc_id (g c) = sc_id c" "\<And>c. sc_request_id (g c) = sc_request_id c"
      "\<And>c. sc_soldier_id (g c) = sc_soldier_id c"
  shows "keys_ok (map f rs) (map g cs)"
proof -
  have "distinct (map (\<lambda>r. (sr_requester r, sr_assignment_id r)) (filter (\<lambda>r. is_open (f r)) rs))"
  proof (rule distinct_map_sub [where P = is_open])
    show "distinct (map (\<lambda>r. (sr_requester r, sr_assignment_id r)) (filter is_open rs))"
      using ok by (simp add: keys_ok_def)
  qed (rule f(4))
  moreover have "map sr_id (map f rs) = map sr_id rs" "map sc_id (map g cs) = map sc_id cs"
    "map (\<lambda>c. (sc_request_id c, sc_soldier_id c)) (map g cs) = map (\<lambda>c. (sc_request_id c, sc_soldier_id c)) cs"
    "map (\<lambda>r. (sr_requester r, sr_assignment_id r)) (filter is_open (map f rs))
      = map (\<lambda>r. (sr_requester r, sr_assignment_id r)) (filter (\<lambda>r. is_open (f r)) rs)"
    "sc_request_id ` set (map g cs) = sc_request_id ` set cs" "sr_id ` set (map f rs) = sr_id ` set rs"
    using f(1-3) g by (simp_all add: o_def filter_map image_image)
  ultimately show ?thesis using ok unfolding keys_ok_def by (simp only:)
qed

lemma applied_of_simps [simp]:
  "applied_of i [] = []"
  "applied_of i (c # cs) = (if sc_request_id c = i \<and> sc_status c = Cand_applied then c # applied_of i cs else applied_of i cs)"
  by (simp_all add: applied_of_def)

lemma applied_of_append [simp]: "applied_of i (cs @ ds) = applied_of i cs @ applied_of i ds"
  by (simp add: applied_of_def)

lemma outcome_ok_same: "sr_id r' = sr_id r \<Longrightarrow> sr_status r' = sr_status r \<Longrightarrow> outcome_ok cs r' = outcome_ok cs r"
  by (simp only: outcome_ok_def)

lemma keys_ok_Cons:
  "keys_ok rs (cs @ [c]) \<longleftrightarrow> keys_ok rs cs \<and> sc_id c \<notin> sc_id ` set cs
    \<and> (sc_request_id c, sc_soldier_id c) \<notin> (\<lambda>c. (sc_request_id c, sc_soldier_id c)) ` set cs
    \<and> sc_request_id c \<in> sr_id ` set rs"
  by (auto simp: keys_ok_def)

lemma keys_ok_open:
  assumes "is_open r"
  shows "keys_ok (rs @ [r]) cs \<longleftrightarrow> distinct (map sr_id (rs @ [r])) \<and> distinct (map sc_id cs)
    \<and> distinct (map (\<lambda>r. (sr_requester r, sr_assignment_id r)) (filter is_open rs))
    \<and> (sr_requester r, sr_assignment_id r) \<notin> (\<lambda>r. (sr_requester r, sr_assignment_id r)) ` set (filter is_open rs)
    \<and> distinct (map (\<lambda>c. (sc_request_id c, sc_soldier_id c)) cs)
    \<and> sc_request_id ` set cs \<subseteq> insert (sr_id r) (sr_id ` set rs)"
  using assms by (auto simp: keys_ok_def)

text \<open>The identity on requests, and candidates that neither come to life nor to application.\<close>

lemma outcome_ok_map:
  assumes "outcome_ok cs r" "sr_id r' = sr_id r" "sr_status r' = sr_status r"
    and g: "\<And>c. sc_request_id (g c) = sc_request_id c" "\<And>c. live_cand (g c) \<Longrightarrow> live_cand c"
      "\<And>c. sc_status (g c) = Cand_applied \<longleftrightarrow> sc_status c = Cand_applied"
  shows "outcome_ok (map g cs) r'"
proof -
  have "applied_of i (map g cs) = map g (applied_of i cs)" for i
    using g(1,3) by (induction cs) (simp_all add: applied_of_def)
  then show ?thesis using assms by (auto simp: outcome_ok_def)
qed

lemma request_of_Some: "request_of w i = Some r \<Longrightarrow> r \<in> set (wd_requests w) \<and> sr_id r = i"
  by (auto simp: request_of_def find_Some_iff)

lemma request_of_mem: "keys_ok (wd_requests w) cs \<Longrightarrow> r \<in> set (wd_requests w) \<Longrightarrow> request_of w (sr_id r) = Some r"
  using find_distinct [of sr_id "wd_requests w" r] by (simp add: keys_ok_def request_of_def)

lemma candidate_of_Some: "candidate_of w i = Some c \<Longrightarrow> c \<in> set (wd_candidates w) \<and> sc_id c = i"
  by (auto simp: candidate_of_def find_Some_iff)

lemma candidate_for_Some:
  "candidate_for w i x = Some c \<Longrightarrow> c \<in> set (wd_candidates w) \<and> sc_request_id c = i \<and> sc_soldier_id c = x"
  by (auto simp: candidate_for_def find_Some_iff)

lemma request_unique:
  "keys_ok rs cs \<Longrightarrow> r \<in> set rs \<Longrightarrow> r' \<in> set rs \<Longrightarrow> sr_id r = sr_id r' \<Longrightarrow> r = r'"
  by (auto simp: keys_ok_def distinct_map inj_on_def)

lemma candidate_unique:
  "keys_ok rs cs \<Longrightarrow> c \<in> set cs \<Longrightarrow> c' \<in> set cs \<Longrightarrow> sc_id c = sc_id c' \<Longrightarrow> c = c'"
  by (auto simp: keys_ok_def distinct_map inj_on_def)

section \<open>The primitive writes\<close>

lemma swap_tables [simp]:
  "wd_requests (audit_swap u t i w) = wd_requests w" "wd_candidates (audit_swap u t i w) = wd_candidates w"
  "wd_approvals (audit_swap u t i w) = wd_approvals w" "wd_org (audit_swap u t i w) = wd_org w"
  "wd_swap_settings (audit_swap u t i w) = wd_swap_settings w" "wd_tie (audit_swap u t i w) = wd_tie w"
  "wd_board (update_request i f w) = wd_board w" "wd_candidates (update_request i f w) = wd_candidates w"
  "wd_approvals (update_request i f w) = wd_approvals w" "wd_org (update_request i f w) = wd_org w"
  "wd_swap_settings (update_request i f w) = wd_swap_settings w"
  "wd_board (update_candidate i g w) = wd_board w" "wd_requests (update_candidate i g w) = wd_requests w"
  by (simp_all add: audit_swap_def update_request_def update_candidate_def)

lemma audit_swap_ok [simp]: "swap_ok (audit_swap u t i w) = swap_ok w"
  by (simp add: swap_ok_def audit_swap_def)

text \<open>Only requests, candidates and the board matter.\<close>

lemma swap_ok_same:
  "wd_requests w' = wd_requests w \<Longrightarrow> wd_candidates w' = wd_candidates w \<Longrightarrow> wd_board w' = wd_board w
   \<Longrightarrow> swap_ok w \<Longrightarrow> swap_ok w'"
  by (simp add: swap_ok_def)

lemma update_request_ok:
  assumes "swap_ok w"
    and f: "\<And>r. sr_id (f r) = sr_id r" "\<And>r. sr_requester (f r) = sr_requester r"
      "\<And>r. sr_assignment_id (f r) = sr_assignment_id r" "\<And>r. sr_status (f r) = sr_status r"
  shows "swap_ok (update_request i f w)"
proof -
  let ?f = "\<lambda>r. if sr_id r = i then f r else r"
  have "keys_ok (map ?f (wd_requests w)) (map (\<lambda>c. c) (wd_candidates w))"
    using assms by (intro keys_ok_map) (simp_all add: swap_ok_def is_open_def split: if_split_asm)
  moreover have "outcome_ok (wd_candidates w) (?f r)" if "r \<in> set (wd_requests w)" for r
  proof -
    have "outcome_ok (wd_candidates w) (?f r) = outcome_ok (wd_candidates w) r"
      by (rule outcome_ok_same) (simp_all add: f)
    then show ?thesis using assms(1) that by (simp only: swap_ok_def)
  qed
  then have "\<forall>r \<in> set (map ?f (wd_requests w)). outcome_ok (wd_candidates w) r" unfolding set_map by blast
  ultimately show ?thesis using assms(1) unfolding swap_ok_def update_request_def by simp
qed

lemma update_candidate_ok:
  assumes "swap_ok w"
    and g: "\<And>c. sc_id (g c) = sc_id c" "\<And>c. sc_request_id (g c) = sc_request_id c"
      "\<And>c. sc_soldier_id (g c) = sc_soldier_id c"
    and c: "c \<in> set (wd_candidates w)" "live_cand c" "sc_status (g c) \<noteq> Cand_applied"
  shows "swap_ok (update_candidate (sc_id c) g w)"
proof -
  let ?g = "\<lambda>x. if x = c then g x else x"
  have same: "map (\<lambda>x. if sc_id x = sc_id c then g x else x) (wd_candidates w) = map ?g (wd_candidates w)"
    using assms(1) c(1) candidate_unique by (auto simp: swap_ok_def)
  have "keys_ok (map (\<lambda>r. r) (wd_requests w)) (map ?g (wd_candidates w))"
    using assms by (intro keys_ok_map) (simp_all add: swap_ok_def)
  moreover have "outcome_ok (map ?g (wd_candidates w)) r" if "r \<in> set (wd_requests w)" for r
    using assms(1) that c g by (intro outcome_ok_map [of "wd_candidates w" r])
      (auto simp: swap_ok_def live_cand_def split: if_split_asm)
  ultimately show ?thesis using assms(1) by (simp add: swap_ok_def update_candidate_def same)
qed

lemma insert_candidate_ok:
  assumes ok: "swap_ok w" and ins: "insert_candidate c w = Inr w'"
    and r: "r \<in> set (wd_requests w)" "sr_id r = sc_request_id c" "sr_status r = Swap_open"
    and c: "sc_id c \<notin> sc_id ` set (wd_candidates w)" "sc_status c \<noteq> Cand_applied"
  shows "swap_ok w'"
proof -
  have w': "w' = w\<lparr>wd_candidates := wd_candidates w @ [c]\<rparr>"
    and new: "(sc_request_id c, sc_soldier_id c) \<notin> (\<lambda>c. (sc_request_id c, sc_soldier_id c)) ` set (wd_candidates w)"
    using ins by (auto simp: insert_candidate_def candidate_for_def find_None_iff split: if_split_asm)
  have "sc_request_id c \<in> sr_id ` set (wd_requests w)" using r(1,2) by (metis image_eqI)
  then have "keys_ok (wd_requests w) (wd_candidates w @ [c])"
    using ok c(1) new by (simp add: swap_ok_def keys_ok_Cons)
  moreover have "outcome_ok (wd_candidates w @ [c]) x" if x: "x \<in> set (wd_requests w)" for x
  proof (cases "sr_id x = sr_id r")
    case True
    then have "x = r" using ok x r(1) request_unique by (auto simp: swap_ok_def)
    moreover have "outcome_ok (wd_candidates w) r" using ok r(1) by (auto simp: swap_ok_def)
    ultimately show ?thesis using r c by (simp add: outcome_ok_def)
  next
    case False
    then show ?thesis using ok r c x by (auto simp: swap_ok_def outcome_ok_def)
  qed
  ultimately show ?thesis using ok by (simp add: swap_ok_def w')
qed

lemma add_request_ok:
  assumes ok: "swap_ok w" and r: "sr_id r \<notin> sr_id ` set (wd_requests w)" "sr_status r = Swap_open"
    and new: "\<not> open_request w (sr_assignment_id r) (sr_requester r)"
  shows "swap_ok (w\<lparr>wd_requests := wd_requests w @ [r]\<rparr>)"
proof -
  have "sc_request_id ` set (wd_candidates w) \<subseteq> sr_id ` set (wd_requests w)"
    using ok by (simp add: swap_ok_def keys_ok_def)
  then have none: "sc_request_id c \<noteq> sr_id r" if "c \<in> set (wd_candidates w)" for c
    using r(1) that by (metis image_eqI subsetD)
  have "keys_ok (wd_requests w @ [r]) (wd_candidates w)"
  proof -
    have "(sr_requester r, sr_assignment_id r)
        \<notin> (\<lambda>r. (sr_requester r, sr_assignment_id r)) ` set (filter is_open (wd_requests w))"
      using new by (auto simp: open_request_def list_ex_iff is_open_def)
    moreover have "is_open r" using r(2) by (simp add: is_open_def)
    moreover have "keys_ok (wd_requests w) (wd_candidates w)" using ok by (simp add: swap_ok_def)
    ultimately show ?thesis using r(1) by (subst keys_ok_open) (simp_all add: keys_ok_def subset_insertI2)
  qed
  moreover have "outcome_ok (wd_candidates w) r"
    using none r(2) by (auto simp: outcome_ok_def applied_of_def filter_empty_conv)
  ultimately show ?thesis using ok by (simp add: swap_ok_def)
qed

lemma close_request_ok:
  assumes ok: "swap_ok w" and r: "request_of w i = Some r" "sr_status r = Swap_open"
    and f: "\<And>r. sr_id (f r) = sr_id r" "\<And>r. sr_requester (f r) = sr_requester r"
      "\<And>r. sr_assignment_id (f r) = sr_assignment_id r"
      "\<And>r. sr_status (f r) \<noteq> Swap_open" "\<And>r. sr_status (f r) \<noteq> Swap_applied"
  shows "swap_ok (close_request i f w)"
proof -
  let ?f = "\<lambda>x. if sr_id x = i then f x else x"
  let ?g = "\<lambda>c. if sc_request_id c = i \<and> live_cand c then c\<lparr>sc_status := Cand_cancelled\<rparr> else c"
  have keys: "keys_ok (map ?f (wd_requests w)) (map ?g (wd_candidates w))"
    using ok f by (intro keys_ok_map) (simp_all add: swap_ok_def is_open_def split: if_split_asm)
  have app: "applied_of j (map ?g cs) = map ?g (applied_of j cs)" for j cs
    by (induction cs) (auto simp: live_cand_def)
  have "outcome_ok (map ?g (wd_candidates w)) (?f x)" if x: "x \<in> set (wd_requests w)" for x
  proof (cases "sr_id x = i")
    case True
    then have "x = r" using ok x request_of_Some [OF r(1)] request_unique by (auto simp: swap_ok_def)
    then have "applied_of i (wd_candidates w) = []" using ok r x True by (auto simp: swap_ok_def outcome_ok_def)
    then show ?thesis using True f app [of i] by (auto simp: outcome_ok_def live_cand_def)
  next
    case False
    then show ?thesis using ok x app by (auto simp: swap_ok_def outcome_ok_def)
  qed
  then have "\<forall>x \<in> set (map ?f (wd_requests w)). outcome_ok (map ?g (wd_candidates w)) x"
    unfolding set_map by blast
  then show ?thesis using ok keys unfolding swap_ok_def close_request_def update_request_def by simp
qed

lemma settle_ok:
  assumes ok: "swap_ok w" and r: "request_of w i = Some r" "sr_status r = Swap_open"
    and c: "c \<in> set (wd_candidates w)" "sc_request_id c = i" "live_cand c"
  shows "swap_ok (settle i (sc_id c) w)"
proof -
  let ?f = "\<lambda>x. if sr_id x = i then x\<lparr>sr_status := Swap_applied\<rparr> else x"
  define g where "g x = (if x = c then x\<lparr>sc_status := Cand_applied\<rparr>
      else if sc_request_id x = i \<and> live_cand x then x\<lparr>sc_status := Cand_cancelled\<rparr> else x)" for x
  have same: "map (\<lambda>x. if sc_id x = sc_id c then x\<lparr>sc_status := Cand_applied\<rparr>
      else if sc_request_id x = i \<and> live_cand x then x\<lparr>sc_status := Cand_cancelled\<rparr> else x) (wd_candidates w)
      = map g (wd_candidates w)"
    using ok c(1) candidate_unique unfolding g_def by (auto simp: swap_ok_def)
  have keys: "keys_ok (map ?f (wd_requests w)) (map g (wd_candidates w))"
    using ok by (intro keys_ok_map) (simp_all add: swap_ok_def g_def is_open_def split: if_split_asm)
  have x_id: "sr_id r = i" "r \<in> set (wd_requests w)" using request_of_Some [OF r(1)] by auto
  then have none: "applied_of i (wd_candidates w) = []" using ok r by (auto simp: swap_ok_def outcome_ok_def)
  have "distinct (wd_candidates w)" using ok by (auto simp: swap_ok_def keys_ok_def distinct_map)
  have gc: "sc_request_id (g x) = sc_request_id x"
    "sc_status (g x) = Cand_applied \<longleftrightarrow> x = c \<or> sc_status x = Cand_applied \<and> \<not> (sc_request_id x = i \<and> live_cand x)" for x
    by (auto simp: g_def)
  have one: "length (applied_of i (map g cs)) = (if c \<in> set cs then 1 else 0)"
    if "applied_of i cs = []" "distinct cs" for cs
    using that
  proof (induction cs)
    case (Cons x cs)
    then show ?case using c(2) by (auto simp: gc split: if_split_asm)
  qed simp
  have other: "applied_of j (map g cs) = map g (applied_of j cs)" if "j \<noteq> i" for j cs
    using that c(2,3) by (induction cs) (auto simp: g_def live_cand_def)
  have "outcome_ok (map g (wd_candidates w)) (?f x)" if x: "x \<in> set (wd_requests w)" for x
  proof (cases "sr_id x = i")
    case True
    then show ?thesis using one [OF none] \<open>distinct (wd_candidates w)\<close> c(1)
      by (auto simp: outcome_ok_def g_def live_cand_def)
  next
    case False
    have "outcome_ok (wd_candidates w) x" using ok x by (simp add: swap_ok_def)
    moreover have "live_cand y" if "live_cand (g y)" for y
      using that c(3) by (auto simp: g_def live_cand_def split: if_split_asm)
    ultimately show ?thesis using False other [OF False] gc(1) by (auto simp: outcome_ok_def)
  qed
  then have "\<forall>x \<in> set (map ?f (wd_requests w)). outcome_ok (map g (wd_candidates w)) x"
    unfolding set_map by blast
  then show ?thesis using ok keys unfolding swap_ok_def settle_def update_request_def by (simp add: same)
qed

end
