(* ===== verification/SwapsSteps.thy ===== *)
theory SwapsSteps
  imports SwapsSound
begin

text \<open>
  Every operation of the swaps keeps the invariant and never touches the status of a request
  that is no longer open.
\<close>

section \<open>Progress\<close>

definition moves_on :: "world \<Rightarrow> world \<Rightarrow> bool" where
  "moves_on w w' \<longleftrightarrow> swap_ok w' \<and> (\<forall>k r. request_of w k = Some r \<longrightarrow> sr_status r \<noteq> Swap_open
     \<longrightarrow> (\<exists>r'. request_of w' k = Some r' \<and> sr_status r' = sr_status r))"

lemma moves_onD: "moves_on w w' \<Longrightarrow> swap_ok w'"
  by (simp add: moves_on_def)

lemma moves_on_trans: "moves_on w w1 \<Longrightarrow> moves_on w1 w2 \<Longrightarrow> moves_on w w2"
  by (fastforce simp: moves_on_def)

lemma moves_on_same:
  assumes "swap_ok w" "wd_requests w' = wd_requests w" "wd_candidates w' = wd_candidates w"
    "wd_board w' = wd_board w \<or> board_ok (wd_board w')"
  shows "moves_on w w'"
  using assms by (auto simp: moves_on_def swap_ok_def request_of_def)

lemma moves_on_audit: "moves_on w w' \<Longrightarrow> moves_on w (audit_swap u t i w')"
  by (simp add: moves_on_def request_of_def)

lemma request_of_requests: "wd_requests w' = wd_requests w \<Longrightarrow> request_of w' i = request_of w i"
  by (simp add: request_of_def)

lemma request_of_update:
  assumes "\<And>r. sr_id (f r) = sr_id r"
  shows "request_of (update_request i f w) k = map_option (\<lambda>r. if k = i then f r else r) (request_of w k)"
proof -
  have "find (\<lambda>r. sr_id r = k) (map (\<lambda>r. if sr_id r = i then f r else r) rs)
    = map_option (\<lambda>r. if k = i then f r else r) (find (\<lambda>r. sr_id r = k) rs)" for rs
    using assms by (induction rs) auto
  then show ?thesis by (simp add: request_of_def update_request_def)
qed

lemma moves_on_request:
  assumes "swap_ok w"
    and f: "\<And>r. sr_id (f r) = sr_id r" "\<And>r. sr_requester (f r) = sr_requester r"
      "\<And>r. sr_assignment_id (f r) = sr_assignment_id r" "\<And>r. sr_status (f r) = sr_status r"
  shows "moves_on w (update_request i f w)"
  using update_request_ok [OF assms] by (auto simp: moves_on_def request_of_update [OF f(1)] f(4))

lemma moves_on_candidate:
  assumes "swap_ok w"
    and "\<And>c. sc_id (g c) = sc_id c" "\<And>c. sc_request_id (g c) = sc_request_id c"
      "\<And>c. sc_soldier_id (g c) = sc_soldier_id c"
    and "c \<in> set (wd_candidates w)" "live_cand c" "sc_status (g c) \<noteq> Cand_applied"
  shows "moves_on w (update_candidate (sc_id c) g w)"
  using update_candidate_ok [OF assms] by (simp add: moves_on_def request_of_def)

lemma moves_on_insert:
  assumes "swap_ok w" "insert_candidate c w = Inr w'" "request_of w (sc_request_id c) = Some r"
    "sr_status r = Swap_open" "sc_id c \<notin> sc_id ` set (wd_candidates w)" "sc_status c \<noteq> Cand_applied"
  shows "moves_on w w' \<and> wd_candidates w' = wd_candidates w @ [c] \<and> wd_requests w' = wd_requests w
    \<and> wd_board w' = wd_board w"
proof -
  have "swap_ok w'" using insert_candidate_ok [OF assms(1,2), of r] request_of_Some [OF assms(3)] assms(4-6) by auto
  moreover have "wd_candidates w' = wd_candidates w @ [c]" "wd_requests w' = wd_requests w"
      "wd_board w' = wd_board w"
    using assms(2) by (auto simp: insert_candidate_def split: if_split_asm)
  ultimately show ?thesis by (simp add: moves_on_def request_of_def)
qed

lemma moves_on_close:
  assumes "swap_ok w" "request_of w i = Some r" "sr_status r = Swap_open"
    and f: "\<And>r. sr_id (f r) = sr_id r" "\<And>r. sr_requester (f r) = sr_requester r"
      "\<And>r. sr_assignment_id (f r) = sr_assignment_id r"
      "\<And>r. sr_status (f r) \<noteq> Swap_open" "\<And>r. sr_status (f r) \<noteq> Swap_applied"
  shows "moves_on w (close_request i f w)"
proof -
  have "request_of (close_request i f w) k = map_option (\<lambda>r. if k = i then f r else r) (request_of w k)" for k
    unfolding close_request_def by (subst request_of_update) (simp_all add: request_of_def f(1))
  then show ?thesis using close_request_ok [OF assms] assms(2,3) by (auto simp: moves_on_def)
qed

lemma moves_on_settle:
  assumes "swap_ok w" "request_of w i = Some r" "sr_status r = Swap_open"
    and "c \<in> set (wd_candidates w)" "sc_request_id c = i" "live_cand c"
  shows "moves_on w (settle i (sc_id c) w)"
proof -
  let ?f = "sr_status_update (\<lambda>_. Swap_applied)"
  have "request_of (settle i (sc_id c) w) k = map_option (\<lambda>r. if k = i then ?f r else r) (request_of w k)" for k
    unfolding settle_def by (subst request_of_update) (simp_all add: request_of_def)
  then show ?thesis using settle_ok [OF assms] assms(2,3) by (auto simp: moves_on_def)
qed

section \<open>Covering the days\<close>

lemma cover_days_spec:
  assumes "board_ok s" "a \<in> set (bd_assignments s)" "cover_days ids a i u ds (ov, s) = Inr (ov', s')"
  shows "board_ok s' \<and> bd_assignments s' = bd_assignments s \<and> bd_dismissals s' = bd_dismissals s
    \<and> (\<forall>d \<in> set ds. \<exists>v. override_on s' (da_id a) d = Some v \<and> vo_soldier_id v = Some i)
    \<and> (\<forall>j d. j \<noteq> da_id a \<or> d \<notin> set ds \<longrightarrow> override_on s' j d = override_on s j d)"
  using assms
proof (induction ds arbitrary: ov s)
  case (Cons d ds)
  obtain v s1 where set: "set_day_override s (ids d) a d (Some i) ''replacement'' u = Inr (v, s1)"
    and rest: "cover_days ids a i u ds (if ov = None then Some v else ov, s1) = Inr (ov', s')"
    using Cons.prems(3) by (auto split: sum.splits)
  have s1: "board_ok s1" by (rule set_day_override_ok [OF Cons.prems(1,2) set])
  have w: "s1 = audit_board u ''assignment.override'' v (put_override (ids d) (da_id a) d (Some i) ''replacement'' s)"
    using set by (rule set_day_overrideE)
  have same: "bd_assignments s1 = bd_assignments s" "bd_dismissals s1 = bd_dismissals s" by (simp_all add: w)
  have on: "override_on s1 j e = override_on (put_override (ids d) (da_id a) d (Some i) ''replacement'' s) j e" for j e
    by (simp add: w override_on_def)
  note IH = Cons.IH [OF s1 _ rest]
  have "\<exists>v. override_on s' (da_id a) e = Some v \<and> vo_soldier_id v = Some i" if "e \<in> set (d # ds)" for e
  proof (cases "e \<in> set ds")
    case False
    then have "override_on s' (da_id a) e = override_on s1 (da_id a) d" using IH same Cons.prems(2) that by auto
    then show ?thesis by (simp add: on override_on_put split: option.split)
  qed (use IH same Cons.prems(2) in auto)
  moreover have "override_on s' j e = override_on s j e" if "j \<noteq> da_id a \<or> e \<notin> set (d # ds)" for j e
    using IH same Cons.prems(2) that by (auto simp: on override_on_put)
  ultimately show ?case using IH same Cons.prems(2) by simp
qed simp

lemma apply_coverE:
  assumes "apply_cover ids req c u w = Inr w'"
  obtains a ov s where "assignment_of (wd_board w) (sr_assignment_id req) = Some a"
    "cover_days ids a (sc_soldier_id c) u (days_from_to (da_start_date a) (da_end_date a)) (None, wd_board w) = Inr (ov, s)"
    "w' = update_request (sr_id req) (sr_override_id_update (\<lambda>_. ov)) (w\<lparr>wd_board := s\<rparr>)"
  using assms by (auto simp: apply_cover_def and_then_def split: option.splits sum.splits)

lemma mem_creation_order: "c \<in> set (in_creation_order w cs) \<longleftrightarrow> c \<in> set cs"
  by (simp add: in_creation_order_def)

lemma find_SomeD: "find P xs = Some x \<Longrightarrow> x \<in> set xs \<and> P x"
  by (auto simp: find_Some_iff)

lemma try_finalizeE:
  assumes "try_finalize ids i u w = Inr w'"
  obtains "w' = w"
  | r c w1 where "request_of w i = Some r" "sr_status r = Swap_open"
    "c \<in> set (wd_candidates w)" "sc_request_id c = i" "live_cand c" "candidate_fully_approved w r c"
    "apply_cover ids r c u w = Inr w1"
    "w' = audit_swap u ''swap.finalize'' i (settle i (sc_id c) w1)"
proof -
  consider "w' = w" | r c where "request_of w i = Some r" "sr_status r = Swap_open"
    "find (candidate_fully_approved w r) (in_creation_order w (live_of w i)) = Some c"
    "and_then (apply_cover ids r c u w)
       (\<lambda>w'. Inr (audit_swap u ''swap.finalize'' i (settle i (sc_id c) w'))) = Inr w'"
    using assms by (auto simp: try_finalize_def split: option.splits if_split_asm)
  then show ?thesis
  proof cases
    case (2 r c)
    then show ?thesis using that(2) [of r c] find_SomeD [OF 2(3)]
      by (auto simp: and_then_def mem_creation_order live_of_def split: sum.splits)
  qed (rule that(1))
qed

lemma apply_cover_moves:
  assumes ok: "swap_ok w" and c: "apply_cover ids r c u w = Inr w'"
  shows "moves_on w w' \<and> wd_candidates w' = wd_candidates w
    \<and> map_option sr_status (request_of w' k) = map_option sr_status (request_of w k)"
  using c
proof (rule apply_coverE)
  fix a ov s assume a: "assignment_of (wd_board w) (sr_assignment_id r) = Some a"
    and cov: "cover_days ids a (sc_soldier_id c) u (days_from_to (da_start_date a) (da_end_date a)) (None, wd_board w) = Inr (ov, s)"
    and w': "w' = update_request (sr_id r) (sr_override_id_update (\<lambda>_. ov)) (w\<lparr>wd_board := s\<rparr>)"
  have "board_ok s" using cover_days_spec [OF _ _ cov] ok assignment_of_Some [OF a] by (auto simp: swap_ok_def)
  then have m: "moves_on w (w\<lparr>wd_board := s\<rparr>)" using ok by (intro moves_on_same) simp_all
  have "moves_on (w\<lparr>wd_board := s\<rparr>) w'"
    unfolding w' by (rule moves_on_request [OF moves_onD [OF m]]) simp_all
  moreover have "request_of w' k = map_option (\<lambda>x. if k = sr_id r then x\<lparr>sr_override_id := ov\<rparr> else x) (request_of w k)"
    unfolding w' by (subst request_of_update) (simp_all add: request_of_def)
  then have "map_option sr_status (request_of w' k) = map_option sr_status (request_of w k)"
    by (cases "request_of w k") simp_all
  ultimately show ?thesis using moves_on_trans [OF m] by (simp add: w')
qed

lemma try_finalize_moves:
  assumes ok: "swap_ok w" and t: "try_finalize ids i u w = Inr w'"
  shows "moves_on w w'"
  using t
proof (cases rule: try_finalizeE)
  case 1
  then show ?thesis using ok by (auto intro: moves_on_same)
next
  case (2 r c w1)
  have m: "moves_on w w1" and same: "wd_candidates w1 = wd_candidates w"
    and st: "map_option sr_status (request_of w1 i) = map_option sr_status (request_of w i)"
    using apply_cover_moves [OF ok 2(7)] by blast+
  have "map_option sr_status (request_of w1 i) = Some Swap_open" using st 2(1,2) by simp
  then obtain r1 where r1: "request_of w1 i = Some r1" "sr_status r1 = Swap_open" by blast
  have "c \<in> set (wd_candidates w1)" using 2(3) same by simp
  from moves_on_settle [OF moves_onD [OF m] r1 this 2(4,5)]
  have "moves_on w (settle i (sc_id c) w1)" by (rule moves_on_trans [OF m])
  then show ?thesis unfolding 2(8) by (rule moves_on_audit)
qed

section \<open>The operations\<close>

lemma and_thenE:
  assumes "and_then x f = Inr z" obtains y where "x = Inr y" "f y = Inr z"
  using assms by (auto simp: and_then_def split: sum.splits)

lemma fresh_targets:
  assumes "inj ids" "range ids \<inter> S = {}" "distinct ts"
  shows "distinct (map fst (map (\<lambda>t. (ids t, t)) ts)) \<and> fst ` set (map (\<lambda>t. (ids t, t)) ts) \<inter> S = {}"
proof -
  have "fst ` set (map (\<lambda>t. (ids t, t)) ts) \<subseteq> range ids" by auto
  moreover have "distinct (map fst (map (\<lambda>t. (ids t, t)) ts))"
    using assms(1,3) by (simp add: o_def distinct_map inj_on_def inj_def)
  ultimately show ?thesis using assms(2) by blast
qed

lemma add_invited_moves:
  assumes "swap_ok w" "request_of w (sr_id req) = Some r" "sr_status r = Swap_open"
    "distinct (map fst xs)" "fst ` set xs \<inter> sc_id ` set (wd_candidates w) = {}"
    "add_invited req now xs w = Inr w'"
  shows "moves_on w w'"
  using assms
proof (induction xs arbitrary: w)
  case Nil
  then show ?case by (auto intro: moves_on_same)
next
  case (Cons x xs)
  obtain i t where x: "x = (i, t)" by force
  obtain w1 where one: "add_invited_candidate req now i t w = Inr w1" and rest: "add_invited req now xs w1 = Inr w'"
    using Cons.prems(6) by (auto simp: x elim!: and_thenE)
  have ins: "insert_candidate (new_candidate i (sr_id req) t Invited now) w = Inr w1"
    using one by (auto simp: add_invited_candidate_def and_then_def split: if_split_asm sum.splits)
  have m: "moves_on w w1 \<and> wd_candidates w1 = wd_candidates w @ [new_candidate i (sr_id req) t Invited now]
      \<and> wd_requests w1 = wd_requests w \<and> wd_board w1 = wd_board w"
    using Cons.prems(1-3,5) by (intro moves_on_insert [OF _ ins]) (auto simp: new_candidate_def x)
  have "moves_on w1 w'"
    using Cons.prems m by (intro Cons.IH [OF _ _ _ _ _ rest])
      (auto simp: x new_candidate_def moves_on_def request_of_def)
  then show ?case using m moves_on_trans by blast
qed

lemma new_request_simps [simp]:
  "sr_id (new_request i a q m r k) = i" "sr_status (new_request i a q m r k) = Swap_open"
  "sr_assignment_id (new_request i a q m r k) = da_id a" "sr_requester (new_request i a q m r k) = q"
  by (simp_all add: new_request_def)

lemma moves_on_open:
  assumes "swap_ok w" "request_of w (sr_id req) = None" "sr_status req = Swap_open"
    "\<not> open_request w (sr_assignment_id req) (sr_requester req)"
  defines "w1 \<equiv> w\<lparr>wd_requests := wd_requests w @ [req]\<rparr>"
  shows "moves_on w w1 \<and> request_of w1 (sr_id req) = Some req"
proof -
  have "sr_id req \<notin> sr_id ` set (wd_requests w)" using assms(2) by (auto simp: request_of_def find_None_iff)
  then have "swap_ok w1" unfolding w1_def by (intro add_request_ok assms)
  moreover have "request_of w1 k = (case request_of w k of None \<Rightarrow> if sr_id req = k then Some req else None | Some r \<Rightarrow> Some r)" for k
    by (simp add: w1_def request_of_def find_append split: option.split)
  ultimately show ?thesis using assms(2) by (auto simp: moves_on_def split: option.split)
qed

lemma create_request_moves:
  assumes ok: "swap_ok w" and c: "create_request w i ids q d t r ts m u now = Inr w'"
    and fresh: "request_of w i = None" "inj ids" "range ids \<inter> sc_id ` set (wd_candidates w) = {}"
    and once: "distinct (requested_targets t ts)"
  shows "moves_on w w'"
proof -
  obtain a where a: "assignment_of (wd_board w) d = Some a" and none: "\<not> open_request w d q"
    and c': "and_then (add_invited (new_request i a q m r None) now (map (\<lambda>t. (ids t, t)) (requested_targets t ts))
        (w\<lparr>wd_requests := wd_requests w @ [new_request i a q m r None]\<rparr>))
      (\<lambda>w'. Inr (audit_swap u ''swap.create'' i w')) = Inr w'"
    using c by (auto simp: create_request_def Let_def split: option.splits if_split_asm)
  obtain w1 where inv: "add_invited (new_request i a q m r None) now (map (\<lambda>t. (ids t, t)) (requested_targets t ts))
        (w\<lparr>wd_requests := wd_requests w @ [new_request i a q m r None]\<rparr>) = Inr w1"
    and w': "w' = audit_swap u ''swap.create'' i w1"
    using c' by (rule and_thenE) auto
  have m1: "moves_on w (w\<lparr>wd_requests := wd_requests w @ [new_request i a q m r None]\<rparr>)
      \<and> request_of (w\<lparr>wd_requests := wd_requests w @ [new_request i a q m r None]\<rparr>) (sr_id (new_request i a q m r None))
        = Some (new_request i a q m r None)"
    using none assignment_of_Some [OF a] fresh(1) by (intro moves_on_open [OF ok]) simp_all
  then have "moves_on (w\<lparr>wd_requests := wd_requests w @ [new_request i a q m r None]\<rparr>) w1"
    using fresh_targets [OF fresh(2,3) once] by (intro add_invited_moves [OF moves_onD _ _ _ _ inv]) auto
  then show ?thesis using m1 moves_on_trans unfolding w' by (blast intro: moves_on_audit)
qed

lemma add_targets_moves:
  assumes ok: "swap_ok w" and c: "add_targets w ids i ts u now = Inr w'"
    and fresh: "inj ids" "range ids \<inter> sc_id ` set (wd_candidates w) = {}" and once: "distinct ts"
  shows "moves_on w w'"
proof -
  obtain r where r: "request_of w i = Some r" "sr_status r = Swap_open"
    and c': "and_then (add_invited r now (map (\<lambda>t. (ids t, t)) ts) w)
      (\<lambda>w'. Inr (audit_swap u ''swap.add_targets'' i w')) = Inr w'"
    using c by (auto simp: add_targets_def Let_def split: option.splits if_split_asm)
  obtain w1 where inv: "add_invited r now (map (\<lambda>t. (ids t, t)) ts) w = Inr w1"
    and w': "w' = audit_swap u ''swap.add_targets'' i w1"
    using c' by (rule and_thenE) auto
  have "moves_on w w1"
    using r request_of_Some [OF r(1)] fresh_targets [OF fresh once]
    by (intro add_invited_moves [OF ok _ _ _ _ inv]) auto
  then show ?thesis unfolding w' by (rule moves_on_audit)
qed

lemma publish_moves:
  assumes "swap_ok w" "publish_to_marketplace w i u = Inr w'"
  shows "moves_on w w'"
proof -
  have "w' = audit_swap u ''swap.publish'' i (update_request i (sr_marketplace_update (\<lambda>_. True)) w)"
    using assms(2) by (auto simp: publish_to_marketplace_def split: option.splits if_split_asm)
  then show ?thesis using moves_on_request [OF assms(1)] by (auto intro: moves_on_audit)
qed

lemma decline_moves:
  assumes ok: "swap_ok w" and c: "decline_candidate w i x u = Inr w'"
  shows "moves_on w w'"
proof -
  obtain c where "candidate_for w i x = Some c" "live_cand c"
    "w' = audit_swap (Some (default u x)) ''swap.candidate_decline'' i
       (update_candidate (sc_id c) (sc_status_update (\<lambda>_. Cand_declined)) w)"
    using c by (auto simp: decline_candidate_def split: option.splits if_split_asm)
  then show ?thesis using candidate_for_Some [of w i x c]
    by (auto intro!: moves_on_audit moves_on_candidate [OF ok])
qed

lemma agrees_moves: "swap_ok w \<Longrightarrow> moves_on w (requester_agrees i w)"
  unfolding requester_agrees_def by (rule moves_on_request) simp_all

lemma finalize_after:
  assumes "moves_on w w1" "try_finalize ids i u (audit_swap v t j w1) = Inr w'"
  shows "moves_on w w'"
  using moves_on_trans [OF assms(1)] try_finalize_moves [OF _ assms(2)] moves_onD [OF assms(1)]
    moves_on_audit [OF assms(1)] moves_on_trans by (metis audit_swap_ok)

lemma approve_soldier_moves:
  assumes ok: "swap_ok w" and c: "approve_soldier_side ids w i x u = Inr w'"
  shows "moves_on w w'"
proof -
  obtain r where r: "request_of w i = Some r" using c by (auto simp: approve_soldier_side_def split: option.splits)
  have stay: "moves_on w w" using ok by (auto intro: moves_on_same)
  show ?thesis
  proof (cases "x = sr_requester r")
    case True
    then have "w' = w \<or> try_finalize ids i (Some (default u x))
        (audit_swap (Some (default u x)) ''swap.soldier_approve'' i (requester_agrees i w)) = Inr w'"
      using c r by (auto simp: approve_soldier_side_def split: if_split_asm)
    then show ?thesis using stay finalize_after [OF agrees_moves [OF ok]] by blast
  next
    case False
    then obtain c0 where c0: "candidate_for w i x = Some c0"
      using c r by (auto simp: approve_soldier_side_def split: option.splits)
    let ?w1 = "update_candidate (sc_id c0) accept_cand w"
    let ?w2 = "if sc_source c0 = Invited then requester_agrees i ?w1 else ?w1"
    have "w' = w \<or> live_cand c0 \<and> try_finalize ids i (Some (default u x))
        (audit_swap (Some (default u x)) ''swap.soldier_approve'' i ?w2) = Inr w'"
      using c r c0 False by (auto simp: approve_soldier_side_def Let_def split: if_split_asm)
    then show ?thesis
    proof
      assume h: "live_cand c0 \<and> try_finalize ids i (Some (default u x))
        (audit_swap (Some (default u x)) ''swap.soldier_approve'' i ?w2) = Inr w'"
      then have live: "live_cand c0" and fin: "try_finalize ids i (Some (default u x))
        (audit_swap (Some (default u x)) ''swap.soldier_approve'' i ?w2) = Inr w'" by blast+
      have "c0 \<in> set (wd_candidates w)" using candidate_for_Some [OF c0] by blast
      then have m: "moves_on w ?w1"
        by (rule moves_on_candidate [OF ok, rotated 3])
          (use live in \<open>auto simp: accept_cand_def live_cand_def\<close>)
      have "moves_on w ?w2"
      proof (cases "sc_source c0 = Invited")
        case True
        then show ?thesis using moves_on_trans [OF m agrees_moves [OF moves_onD [OF m]]] by simp
      next
        case False
        then show ?thesis using m by simp
      qed
      then show ?thesis using fin by (rule finalize_after)
    qed (use stay in simp)
  qed
qed

end
