(* ===== verification/SwapsManagers.thy ===== *)
theory SwapsManagers
  imports SwapsSteps
begin

text \<open>
  The operations of the managers, of the marketplace and of the clock keep the invariant of
  the swaps and the outcome of a decided request.
\<close>

section \<open>Approvals of managers\<close>

text \<open>The approval rows are no part of the invariant.\<close>

definition rows_only :: "world \<Rightarrow> world \<Rightarrow> bool" where
  "rows_only w w' \<longleftrightarrow> wd_requests w' = wd_requests w \<and> wd_candidates w' = wd_candidates w
     \<and> (board_ok (wd_board w) \<longrightarrow> board_ok (wd_board w')) \<and> wd_org w' = wd_org w
     \<and> wd_swap_settings w' = wd_swap_settings w"

lemma rows_only_refl [simp]: "rows_only w w"
  by (simp add: rows_only_def)

lemma rows_only_trans: "rows_only w w1 \<Longrightarrow> rows_only w1 w2 \<Longrightarrow> rows_only w w2"
  by (simp add: rows_only_def)

lemma rows_only_stamp [simp]: "rows_only w (stamp_row i c sd u k f w)"
  by (simp add: rows_only_def stamp_row_def Let_def)

lemma rows_only_audit [simp]: "rows_only w (audit_swap u t i w)"
  by (simp add: rows_only_def audit_swap_def)

lemma rows_only_fold:
  assumes "\<And>x w. rows_only w (f x w)"
  shows "rows_only w (fold f xs w)"
  by (induction xs arbitrary: w) (auto intro: rows_only_trans assms)

lemma rows_only_approve: "rows_only w (approve_one_row i c u row w)"
  by (auto simp: approve_one_row_def Let_def split: prod.split
      intro: rows_only_trans [OF rows_only_stamp rows_only_audit])

lemma rows_only_moves: "swap_ok w \<Longrightarrow> rows_only w w' \<Longrightarrow> moves_on w w'"
  by (rule moves_on_same) (auto simp: rows_only_def swap_ok_def)

lemma finalize_moves:
  "moves_on w w1 \<Longrightarrow> try_finalize ids i u w1 = Inr w' \<Longrightarrow> moves_on w w'"
  using try_finalize_moves moves_on_trans moves_onD by blast

lemma approve_row_moves:
  assumes ok: "swap_ok w" and c: "approve_manager_row ids w i u j = Inr w'"
  shows "moves_on w w'"
proof -
  obtain rows where "try_finalize ids i (Some u) (fold (approve_one_row i j u) rows w) = Inr w'"
    using c by (auto simp: approve_manager_row_def and_then_def split: option.splits if_split_asm sum.splits)
  then show ?thesis
    by (rule finalize_moves [rotated]) (intro rows_only_moves ok rows_only_fold rows_only_approve)
qed

lemma approve_override_moves:
  assumes ok: "swap_ok w" and c: "approve_manager_side_override ids w today i sd u j = Inr w'"
  shows "moves_on w w'"
proof -
  obtain soldier where "override_rows ids w today i sd u j soldier = Inr w'"
    using c by (auto simp: approve_manager_side_override_def and_then_def
        split: option.splits if_split_asm sum.splits)
  then obtain kinds where x: "try_finalize ids i (Some u) (audit_swap (Some u) ''swap.manager_approve_override'' i
      (fold (\<lambda>kind. stamp_row i (row_candidate sd j) sd u kind (mark_approved u)) kinds w)) = Inr w'"
    unfolding override_rows_def Let_def by (split if_split_asm) blast+
  show ?thesis
    by (rule finalize_after [OF _ x]) (intro rows_only_moves ok rows_only_fold rows_only_stamp)
qed

lemma approve_side_moves:
  assumes ok: "swap_ok w" and c: "approve_manager_side ids w today i sd u au j = Inr w'"
  shows "moves_on w w'"
proof -
  have "approve_manager_row ids w i u j = Inr w' \<or> approve_manager_side_override ids w today i sd u j = Inr w'"
    using c by (auto simp: approve_manager_side_def and_then_def split: sum.splits if_split_asm)
  then show ?thesis using approve_row_moves [OF ok] approve_override_moves [OF ok] by blast
qed

lemma reject_request_moves:
  assumes ok: "swap_ok w" and c: "reject_request w i note u = Inr w'"
  shows "moves_on w w'"
proof -
  let ?f = "\<lambda>r. r\<lparr>sr_status := Swap_rejected, sr_note := note, sr_rejected_by := u\<rparr>"
  obtain r where r: "request_of w i = Some r" "sr_status r = Swap_open"
    and w': "w' = audit_swap u ''swap.reject'' i (close_request i ?f w)"
    using c by (auto simp: reject_request_def split: option.splits if_split_asm)
  have "moves_on w (close_request i ?f w)" by (rule moves_on_close [OF ok r]) simp_all
  then show ?thesis unfolding w' by (rule moves_on_audit)
qed

lemma drop_candidate_moves:
  assumes ok: "swap_ok w" and c: "drop_candidate i j w = Inr w'"
  shows "moves_on w w'"
proof -
  obtain y where y: "get_candidate_for_request w i j = Inr y"
    "w' = (case y of None \<Rightarrow> w | Some c \<Rightarrow> if live_cand c
        then update_candidate (sc_id c) (sc_status_update (\<lambda>_. Cand_cancelled)) w else w)"
    using c by (auto simp: drop_candidate_def and_then_def split: sum.splits)
  have stay: "moves_on w w" using ok by (auto intro: moves_on_same)
  show ?thesis
  proof (cases "\<exists>c. y = Some c \<and> live_cand c")
    case True
    then obtain c0 where c0: "y = Some c0" "live_cand c0" by blast
    then have "c0 \<in> set (wd_candidates w)" using y(1) candidate_of_Some
      by (auto simp: get_candidate_for_request_def split: option.splits if_split_asm)
    then have "moves_on w (update_candidate (sc_id c0) (sc_status_update (\<lambda>_. Cand_cancelled)) w)"
      using c0(2) by (intro moves_on_candidate [OF ok]) simp_all
    then show ?thesis using y(2) c0 by simp
  next
    case False
    then show ?thesis using y(2) stay by (auto split: option.splits)
  qed
qed

lemma reject_row_moves:
  assumes ok: "swap_ok w" and c: "reject_manager_row w i u j note au = Inr w'"
  shows "moves_on w w'"
proof -
  obtain rows where rows: "reject_request (reject_rows i j u rows w) i note (Some u) = Inr w'
      \<or> drop_candidate i j (reject_rows i j u rows w) = Inr w'"
    using c unfolding reject_manager_row_def and_then_def Let_def
    by (auto split: option.splits if_split_asm sum.splits)
  have "rows_only w (reject_rows i j u rows w)"
    unfolding reject_rows_def by (intro rows_only_fold) (simp split: prod.split)
  then have m: "moves_on w (reject_rows i j u rows w)" by (rule rows_only_moves [OF ok])
  then show ?thesis
    using rows reject_request_moves [OF moves_onD [OF m]] drop_candidate_moves [OF moves_onD [OF m]]
      moves_on_trans [OF m] by blast
qed

section \<open>The marketplace and the clock\<close>

text \<open>A candidate joins or is found and accepts.\<close>

lemma answer_moves:
  assumes m: "moves_on w w1" and c: "c \<in> set (wd_candidates w1)" "live_cand c"
    and g: "\<And>c. sc_id (g c) = sc_id c" "\<And>c. sc_request_id (g c) = sc_request_id c"
      "\<And>c. sc_soldier_id (g c) = sc_soldier_id c" "sc_status (g c) \<noteq> Cand_applied"
    and fin: "try_finalize ids i u (audit_swap v t i (requester_agrees i (update_candidate (sc_id c) g w1))) = Inr w'"
  shows "moves_on w w'"
proof -
  have m2: "moves_on w1 (update_candidate (sc_id c) g w1)"
    by (rule moves_on_candidate [OF moves_onD [OF m] g(1-3) c g(4)])
  have "moves_on w (requester_agrees i (update_candidate (sc_id c) g w1))"
    by (rule moves_on_trans [OF m moves_on_trans [OF m2 agrees_moves [OF moves_onD [OF m2]]]])
  then show ?thesis using fin by (rule finalize_after)
qed

text \<open>The new or the found row of the covering soldier.\<close>

definition joins :: "world \<Rightarrow> uuid \<Rightarrow> uuid \<Rightarrow> uuid \<Rightarrow> moment \<Rightarrow> uuid \<times> world \<Rightarrow> bool" where
  "joins w n i x now res \<longleftrightarrow> (\<exists>c. candidate_for w i x = Some c \<and> sc_status c = Cand_pending \<and> res = (sc_id c, w))
     \<or> insert_candidate (new_candidate n i x From_marketplace now) w = Inr (snd res) \<and> fst res = n"

lemma joins_moves:
  assumes ok: "swap_ok w" and r: "request_of w i = Some r" "sr_status r = Swap_open"
    and n: "n \<notin> sc_id ` set (wd_candidates w)" and j: "joins w n i x now (k, w1)"
  obtains c where "moves_on w w1" "c \<in> set (wd_candidates w1)" "live_cand c" "sc_id c = k"
proof -
  consider c where "candidate_for w i x = Some c" "sc_status c = Cand_pending" "k = sc_id c" "w1 = w"
    | "insert_candidate (new_candidate n i x From_marketplace now) w = Inr w1" "k = n"
    using j by (auto simp: joins_def)
  then show ?thesis
  proof cases
    case (1 c)
    then show ?thesis using that [of c] candidate_for_Some ok by (auto simp: live_cand_def intro: moves_on_same)
  next
    case 2
    note new_candidate_def [simp]
    have "moves_on w w1 \<and> wd_candidates w1 = wd_candidates w @ [new_candidate n i x From_marketplace now]
        \<and> wd_requests w1 = wd_requests w \<and> wd_board w1 = wd_board w"
      by (rule moves_on_insert [OF ok 2(1)]) (use r n in simp_all)
    then show ?thesis using that [of "new_candidate n i x From_marketplace now"] 2(2) by (simp add: live_cand_def)
  qed
qed

lemma claim_moves:
  assumes ok: "swap_ok w" and c: "claim_request ids w n i x u now = Inr w'"
    and n: "n \<notin> sc_id ` set (wd_candidates w)"
  shows "moves_on w w'"
proof -
  obtain r k w1 where r: "request_of w i = Some r" "sr_status r = Swap_open"
    and j: "joins w n i x now (k, w1)"
    and fin: "try_finalize ids i u (audit_swap u ''swap.claim'' i (requester_agrees i
        (update_candidate k (\<lambda>c. c\<lparr>sc_status := Cand_accepted, sc_ok := Some True\<rparr>) w1))) = Inr w'"
    using c by (auto simp: claim_request_def and_then_def joins_def
        split: option.splits if_split_asm sum.splits prod.splits)
  show ?thesis
  proof (rule joins_moves [OF ok r n j])
    fix c0 assume m: "moves_on w w1" "c0 \<in> set (wd_candidates w1)" "live_cand c0" and k: "sc_id c0 = k"
    show ?thesis by (rule answer_moves [OF m _ _ _ _ fin [folded k]]) simp_all
  qed
qed

lemma cover_offer_moves:
  assumes ok: "swap_ok w" and c: "cover_offer ids w n i x offered u now = Inr w'"
    and n: "n \<notin> sc_id ` set (wd_candidates w)"
  shows "moves_on w w'"
proof -
  obtain r k w1 where r: "request_of w i = Some r" "sr_status r = Swap_open"
    and j: "joins w n i x now (k, w1)"
    and fin: "try_finalize ids i u (audit_swap u ''swap.cover_offer'' i (requester_agrees i
        (update_candidate k (\<lambda>c. c\<lparr>sc_offered := offered, sc_status := Cand_accepted,
           sc_ok := Some True\<rparr>) w1))) = Inr w'"
    using c by (auto simp: cover_offer_def and_then_def joins_def
        split: option.splits if_split_asm sum.splits prod.splits)
  show ?thesis
  proof (rule joins_moves [OF ok r n j])
    fix c0 assume m: "moves_on w w1" "c0 \<in> set (wd_candidates w1)" "live_cand c0" and k: "sc_id c0 = k"
    show ?thesis by (rule answer_moves [OF m _ _ _ _ fin [folded k]]) simp_all
  qed
qed

lemma cancel_moves:
  assumes ok: "swap_ok w" and c: "cancel_request w i u = Inr w'"
  shows "moves_on w w'"
proof -
  obtain r where r: "request_of w i = Some r" "sr_status r = Swap_open"
    and w': "w' = audit_swap u ''swap.cancel'' i (close_request i (sr_status_update (\<lambda>_. Swap_cancelled)) w)"
    using c by (auto simp: cancel_request_def split: option.splits if_split_asm)
  have "moves_on w (close_request i (sr_status_update (\<lambda>_. Swap_cancelled)) w)"
    by (rule moves_on_close [OF ok r]) simp_all
  then show ?thesis unfolding w' by (rule moves_on_audit)
qed

lemma take_free_moves:
  assumes ok: "swap_ok w" and c: "take_free w n k d x u now = Inr (near, w')"
    and n: "request_of w n = None" "k \<notin> sc_id ` set (wd_candidates w)"
  shows "moves_on w w'"
proof -
  define c0 where "c0 = (new_candidate k n x From_marketplace now)\<lparr>sc_status := Cand_accepted, sc_ok := Some True\<rparr>"
  obtain a where a: "assignment_of (wd_board w) d = Some a"
    and none: "filter (\<lambda>r. sr_assignment_id r = d \<and> sr_status r = Swap_open) (wd_requests w) = []"
    and rest: "and_then (insert_candidate c0
        (w\<lparr>wd_requests := wd_requests w @ [new_request n a (da_soldier_id a) False None (Some False)]\<rparr>))
      (\<lambda>w'. Inr (near, audit_swap u ''swap.take_free'' n w')) = Inr (near, w')"
    using c by (auto simp: take_free_def Let_def and_then_def c0_def
        split: option.splits if_split_asm sum.splits list.splits)
  define req where "req = new_request n a (da_soldier_id a) False None (Some False)"
  define w1 where "w1 = w\<lparr>wd_requests := wd_requests w @ [req]\<rparr>"
  obtain w2 where ins: "insert_candidate c0 w1 = Inr w2" and w': "w' = audit_swap u ''swap.take_free'' n w2"
    using rest by (auto simp: and_then_def w1_def req_def split: sum.splits)
  have "\<not> open_request w (sr_assignment_id req) (sr_requester req)"
    using none assignment_of_Some [OF a] by (auto simp: open_request_def list_ex_iff filter_empty_conv req_def)
  then have "moves_on w w1 \<and> request_of w1 (sr_id req) = Some req"
    unfolding w1_def by (intro moves_on_open [OF ok]) (simp_all add: req_def n)
  then have m: "moves_on w w1" and q: "request_of w1 n = Some req" "sr_status req = Swap_open"
    by (simp_all add: req_def)
  have c0: "sc_request_id c0 = n" "sc_id c0 = k" "sc_status c0 \<noteq> Cand_applied"
    "wd_candidates w1 = wd_candidates w" by (simp_all add: c0_def new_candidate_def w1_def)
  have "moves_on w1 w2 \<and> wd_candidates w2 = wd_candidates w1 @ [c0] \<and> wd_requests w2 = wd_requests w1
      \<and> wd_board w2 = wd_board w1"
    using q n c0 by (intro moves_on_insert [OF moves_onD [OF m] ins]) simp_all
  then show ?thesis using m moves_on_trans moves_on_audit unfolding w' by blast
qed

lemma expire_one_moves:
  assumes ok: "swap_ok w"
  shows "moves_on w (expire_one i w)"
proof -
  have stay: "moves_on w w" using ok by (auto intro: moves_on_same)
  show ?thesis
  proof (cases "\<exists>r. request_of w i = Some r \<and> sr_status r = Swap_open")
    case True
    then obtain r where r: "request_of w i = Some r" "sr_status r = Swap_open" by blast
    have "moves_on w (close_request i (sr_status_update (\<lambda>_. Swap_cancelled)) w)"
      by (rule moves_on_close [OF ok r]) simp_all
    then show ?thesis using r by (simp add: expire_one_def moves_on_audit)
  next
    case False
    then show ?thesis using stay by (auto simp: expire_one_def split: option.split)
  qed
qed

lemma expire_moves:
  assumes "swap_ok w"
  shows "moves_on w (expire_started_swaps w now)"
proof -
  have "moves_on w (fold expire_one xs w)" if "swap_ok w" for xs w
    using that
  proof (induction xs arbitrary: w)
    case Nil
    then show ?case by (auto intro: moves_on_same)
  next
    case (Cons x xs)
    then show ?case using expire_one_moves [of w x] moves_onD moves_on_trans by (metis fold_simps(2))
  qed
  then show ?thesis using assms by (simp add: expire_started_swaps_def)
qed

end
