(* ===== verification/SwapsReach.thy ===== *)
theory SwapsReach
  imports SwapsManagers
begin

text \<open>
  The swaps as a state machine over the board, the organisation and the settings, which
  change between the operations as they like, and what it guarantees: the invariant, the
  finality of a decision, and that a request is applied exactly when a candidate with every
  approval can take the days.
\<close>

section \<open>Steps\<close>

lemma add_invited_distinct:
  assumes "add_invited req now xs w = Inr w'"
  shows "distinct (map snd xs) \<and> (\<forall>x \<in> set xs. candidate_for w (sr_id req) (snd x) = None)"
  using assms
proof (induction xs arbitrary: w)
  case (Cons x xs)
  obtain i t where x: "x = (i, t)" by force
  obtain w1 where ins: "insert_candidate (new_candidate i (sr_id req) t Invited now) w = Inr w1"
    and rest: "add_invited req now xs w1 = Inr w'"
    using Cons.prems by (auto simp: x add_invited_candidate_def and_then_def split: if_split_asm sum.splits)
  have w1: "wd_candidates w1 = wd_candidates w @ [new_candidate i (sr_id req) t Invited now]"
    and none: "candidate_for w (sr_id req) t = None"
    using ins by (auto simp: insert_candidate_def new_candidate_def split: if_split_asm)
  have "candidate_for w (sr_id req) y = None \<and> y \<noteq> t" if "candidate_for w1 (sr_id req) y = None" for y
    using that by (auto simp: candidate_for_def w1 find_append new_candidate_def split: option.splits)
  then show ?case using Cons.IH [OF rest] none by (auto simp: x)
qed simp

lemma create_request_once:
  assumes "create_request w i ids q d t r ts m u now = Inr w'"
  shows "distinct (requested_targets t ts)"
proof -
  obtain req w0 w1 where
    "add_invited req now (map (\<lambda>t. (ids t, t)) (requested_targets t ts)) w0 = Inr w1"
    using assms by (auto simp: create_request_def Let_def and_then_def split: option.splits if_split_asm sum.splits)
  then show ?thesis using add_invited_distinct by (fastforce simp: o_def)
qed

lemma add_targets_once:
  assumes "add_targets w ids i ts u now = Inr w'"
  shows "distinct ts"
proof -
  obtain req w1 where "add_invited req now (map (\<lambda>t. (ids t, t)) ts) w = Inr w1"
    using assms by (auto simp: add_targets_def Let_def and_then_def split: option.splits if_split_asm sum.splits)
  then show ?thesis using add_invited_distinct by (fastforce simp: o_def)
qed

text \<open>New identifiers are fresh; the board, the organisation and the settings may change.\<close>

inductive swap_step :: "world \<Rightarrow> world \<Rightarrow> bool" where
  sw_create: "create_request w i ids q d t r ts m u now = Inr w' \<Longrightarrow> request_of w i = None \<Longrightarrow> inj ids
    \<Longrightarrow> range ids \<inter> sc_id ` set (wd_candidates w) = {} \<Longrightarrow> swap_step w w'"
| sw_targets: "add_targets w ids i ts u now = Inr w' \<Longrightarrow> inj ids
    \<Longrightarrow> range ids \<inter> sc_id ` set (wd_candidates w) = {} \<Longrightarrow> swap_step w w'"
| sw_publish: "publish_to_marketplace w i u = Inr w' \<Longrightarrow> swap_step w w'"
| sw_decline: "decline_candidate w i x u = Inr w' \<Longrightarrow> swap_step w w'"
| sw_soldier: "approve_soldier_side v w i x u = Inr w' \<Longrightarrow> swap_step w w'"
| sw_manager: "approve_manager_side v w today i sd u au j = Inr w' \<Longrightarrow> swap_step w w'"
| sw_reject_row: "reject_manager_row w i u j note au = Inr w' \<Longrightarrow> swap_step w w'"
| sw_reject: "reject_request w i note u = Inr w' \<Longrightarrow> swap_step w w'"
| sw_claim: "claim_request v w n i x u now = Inr w' \<Longrightarrow> candidate_of w n = None \<Longrightarrow> swap_step w w'"
| sw_cover: "cover_offer v w n i x offered u now = Inr w' \<Longrightarrow> candidate_of w n = None \<Longrightarrow> swap_step w w'"
| sw_cancel: "cancel_request w i u = Inr w' \<Longrightarrow> swap_step w w'"
| sw_take_free: "take_free w n k d x u now = Inr (near, w') \<Longrightarrow> request_of w n = None
    \<Longrightarrow> candidate_of w k = None \<Longrightarrow> swap_step w w'"
| sw_expire: "swap_step w (expire_started_swaps w now)"
| sw_board: "board_step (wd_board w) s \<Longrightarrow> swap_step w (w\<lparr>wd_board := s\<rparr>)"
| sw_org: "org_step keyed single (wd_org w) o' \<Longrightarrow> swap_step w (w\<lparr>wd_org := o'\<rparr>)"
| sw_settings: "swap_step w (w\<lparr>wd_swap_settings := st\<rparr>)"

inductive_cases swap_stepE: "swap_step w w'"

definition no_swaps :: "world \<Rightarrow> bool" where
  "no_swaps w \<longleftrightarrow> wd_requests w = [] \<and> wd_candidates w = [] \<and> empty_board (wd_board w)"

text \<open>A request with a decision \<open>st\<close>.\<close>

definition decided :: "uuid \<times> swap_status \<Rightarrow> world \<Rightarrow> bool" where
  "decided k w \<longleftrightarrow> snd k \<noteq> Swap_open \<and> map_option sr_status (request_of w (fst k)) = Some (snd k)"

lemma candidate_of_None: "candidate_of w n = None \<Longrightarrow> n \<notin> sc_id ` set (wd_candidates w)"
  by (auto simp: candidate_of_def find_None_iff)

lemma swap_step_moves:
  assumes ok: "swap_ok w" and step: "swap_step w w'"
  shows "moves_on w w'"
  using step
proof cases
  case (sw_create i ids q d t r ts m u now)
  show ?thesis by (rule create_request_moves [OF ok sw_create create_request_once [OF sw_create(1)]])
next
  case (sw_targets ids i ts u now)
  show ?thesis by (rule add_targets_moves [OF ok sw_targets add_targets_once [OF sw_targets(1)]])
next
  case (sw_claim v n i x u now)
  show ?thesis by (rule claim_moves [OF ok sw_claim(1) candidate_of_None [OF sw_claim(2)]])
next
  case (sw_cover v n i x offered u now)
  show ?thesis by (rule cover_offer_moves [OF ok sw_cover(1) candidate_of_None [OF sw_cover(2)]])
next
  case (sw_take_free n k d x u now near)
  show ?thesis by (rule take_free_moves [OF ok sw_take_free(1,2) candidate_of_None [OF sw_take_free(3)]])
next
  case (sw_board s)
  have "board_ok (wd_board w)" using ok by (simp add: swap_ok_def)
  then have "board_ok s" using sw_board(2) by (rule duties.step_good)
  then show ?thesis using ok sw_board(1) by (intro moves_on_same) simp_all
next
  case (sw_org o')
  then show ?thesis using ok by (intro moves_on_same) simp_all
next
  case (sw_settings st)
  then show ?thesis using ok by (intro moves_on_same) simp_all
next
  case sw_expire
  then show ?thesis using expire_moves [OF ok] by simp
qed (rule publish_moves [OF ok] decline_moves [OF ok] approve_soldier_moves [OF ok]
      approve_side_moves [OF ok] reject_row_moves [OF ok] reject_request_moves [OF ok] cancel_moves [OF ok]; assumption)+

lemma moves_on_decided:
  assumes "moves_on w w'" "decided k w"
  shows "decided k w'"
proof -
  obtain r where r: "request_of w (fst k) = Some r" "sr_status r = snd k" "snd k \<noteq> Swap_open"
    using assms(2) by (auto simp: decided_def)
  then obtain r' where "request_of w' (fst k) = Some r'" "sr_status r' = sr_status r"
    using assms(1) unfolding moves_on_def by metis
  then show ?thesis using r by (simp add: decided_def)
qed

interpretation swaps: settling_system no_swaps swap_step swap_ok decided
proof
  fix w assume w: "no_swaps w"
  then have "board_ok (wd_board w)" by (intro duties.start_good) (simp add: no_swaps_def)
  with w show "swap_ok w" by (simp add: no_swaps_def swap_ok_def keys_ok_def)
next
  show "swap_ok w'" if "swap_ok w" "swap_step w w'" for w w'
    using swap_step_moves [OF that] by (rule moves_onD)
next
  show "decided k w'" if "swap_ok w" "decided k w" "swap_step w w'" for k w w'
    using moves_on_decided [OF swap_step_moves [OF that(1,3)] that(2)] .
qed

section \<open>A cover that cannot fail\<close>

lemma set_day_override_Inr:
  assumes "da_start_date a \<le> d" "d < da_end_date a" "soldier_of s x \<noteq> None"
    "\<not> day_busy s x d (Some (da_id a))" "\<not> has_blocking_exemption s x (da_type_id a) d d"
  shows "\<exists>i. set_day_override s n a d (Some x) ''replacement'' u
    = Inr (i, audit_board u ''assignment.override'' i (put_override n (da_id a) d (Some x) ''replacement'' s))"
  using assms by (auto simp: set_day_override_def OVERRIDE_REASONS_def Let_def)

lemma put_override_checks [simp]:
  "soldier_of (put_override n i d x r s) = soldier_of s"
  "has_blocking_exemption (put_override n i d x r s) = has_blocking_exemption s"
  "soldier_of (audit_board u t i s) = soldier_of s"
  "has_blocking_exemption (audit_board u t i s) = has_blocking_exemption s"
  "day_busy (audit_board u t i s) = day_busy s"
  by (simp_all add: fun_eq_iff soldier_of_def has_blocking_exemption_def day_busy_def covers_by_override_def)

text \<open>The overrides of an assignment do not count against its own cover.\<close>

lemma covers_put: "covers_by_override (put_override n i d x r s) y b c (Some i) = covers_by_override s y b c (Some i)"
proof -
  have other: "list_ex P (map (\<lambda>v. if vo_assignment_id v = i \<and> vo_date v = d
      then v\<lparr>vo_soldier_id := x, vo_reason := r\<rparr> else v) vs) = list_ex P vs"
    if "\<And>v. vo_assignment_id v = i \<Longrightarrow> \<not> P v" for P and vs :: "DutyDayOverride list"
    using that by (induction vs) auto
  have old: "bd_overrides (put_override n i d x r s) = map (\<lambda>v. if vo_assignment_id v = i \<and> vo_date v = d
      then v\<lparr>vo_soldier_id := x, vo_reason := r\<rparr> else v) (bd_overrides s)
    \<or> bd_overrides (put_override n i d x r s) = bd_overrides s @ [\<lparr>vo_id = n, vo_assignment_id = i,
             vo_date = d, vo_soldier_id = x, vo_reason = r\<rparr>]"
    by (simp add: put_override_def)
  then show ?thesis unfolding covers_by_override_def put_override_rows
    by (elim disjE) (simp only:, rule other, simp, simp)
qed

lemma day_busy_put: "day_busy (put_override n i d x r s) y e (Some i) = day_busy s y e (Some i)"
  by (simp add: day_busy_def covers_put)

lemma cover_days_total:
  assumes "\<forall>d \<in> set ds. da_start_date a \<le> d \<and> d < da_end_date a" "soldier_of s x \<noteq> None"
    "\<forall>d \<in> set ds. \<not> day_busy s x d (Some (da_id a))"
    "\<forall>d \<in> set ds. \<not> has_blocking_exemption s x (da_type_id a) d d"
  shows "\<exists>res. cover_days ids a x u ds (ov, s) = Inr res"
  using assms
proof (induction ds arbitrary: ov s)
  case (Cons d ds)
  have "\<exists>i. set_day_override s (ids d) a d (Some x) ''replacement'' u
    = Inr (i, audit_board u ''assignment.override'' i (put_override (ids d) (da_id a) d (Some x) ''replacement'' s))"
    using Cons.prems by (intro set_day_override_Inr) simp_all
  then obtain i where set: "set_day_override s (ids d) a d (Some x) ''replacement'' u
    = Inr (i, audit_board u ''assignment.override'' i (put_override (ids d) (da_id a) d (Some x) ''replacement'' s))" ..
  have "\<exists>res. cover_days ids a x u ds (if ov = None then Some i else ov,
      audit_board u ''assignment.override'' i (put_override (ids d) (da_id a) d (Some x) ''replacement'' s)) = Inr res"
    using Cons.prems by (intro Cons.IH) (simp_all add: day_busy_put)
  then show ?case by (simp add: set)
qed simp

text \<open>What the eligibility check says about every day of the assignment.\<close>

definition no_drafts :: "board \<Rightarrow> uuid \<Rightarrow> DutyAssignment \<Rightarrow> bool" where
  "no_drafts s x a \<longleftrightarrow> list_all (\<lambda>b. da_soldier_id b = x \<and> da_status b \<in> {Algorithm_draft, Algorithm_rejected} \<and> da_id b \<noteq> da_id a
     \<longrightarrow> \<not> in_range b (da_start_date a) (da_end_date a)) (bd_assignments s)"

lemma checked_days:
  assumes chk: "check_soldier_for_assignment s x i None False = Inr c" and a: "assignment_of s i = Some a"
    and drafts: "no_drafts s x a" and d: "da_start_date a \<le> d" "d < da_end_date a"
  shows "soldier_of s x \<noteq> None \<and> \<not> day_busy s x d (Some (da_id a))
    \<and> \<not> has_blocking_exemption s x (da_type_id a) d d"
proof (intro conjI notI)
  have fb: "first_block s a x = None" and free: "\<not> scheduling_conflict s a x None"
    using chk a by (auto simp: check_soldier_for_assignment_def Let_def split: option.splits if_split_asm)
  show "soldier_of s x = None \<Longrightarrow> False"
    using chk a by (auto simp: check_soldier_for_assignment_def)
  { assume "has_blocking_exemption s x (da_type_id a) d d"
    then obtain e where e: "e \<in> set (bd_exemptions s)" "active_exemption e x d d"
        "(ex_type_id e, da_type_id a) \<in> set (bd_exempt_duty_types s)"
      by (auto simp: has_blocking_exemption_def list_ex_iff)
    have "active_exemption e x (da_start_date a) (da_end_date a)"
      using e(2) d by (auto simp: active_exemption_def split: option.splits)
    moreover have "exemption_blocks s a e \<noteq> None" using e(3) by (simp add: exemption_blocks_def)
    ultimately have "List.map_filter (exemption_blocks s a)
        (filter (\<lambda>e. active_exemption e x (da_start_date a) (da_end_date a)) (bd_exemptions s)) \<noteq> []"
      using e(1) by (auto simp: List.map_filter_def filter_empty_conv)
    then show False using fb by (auto simp: first_block_def split: list.splits) }
  assume "day_busy s x d (Some (da_id a))"
  then consider b where "b \<in> set (bd_assignments s)" "da_soldier_id b = x" "live_duty b"
      "da_start_date b \<le> d" "d < da_end_date b" "da_id b \<noteq> da_id a"
    | "covers_by_override s x d (d + 1) (Some (da_id a))"
    by (auto simp: day_busy_def list_ex_iff)
  then show False
  proof cases
    case (1 b)
    then have r: "in_range b (da_start_date a) (da_end_date a)" using d by (simp add: in_range_def)
    moreover have "da_status b = Published"
      using 1 r drafts by (cases "da_status b") (auto simp: no_drafts_def list_all_iff live_duty_def)
    ultimately show False using 1 free by (auto simp: scheduling_conflict_def list_ex_iff)
  next
    case 2
    then have "covers_by_override s x (da_start_date a) (da_end_date a) (Some (da_id a))"
      using d by (auto simp: covers_by_override_def list_ex_iff)
    then show False using free by (simp add: scheduling_conflict_def)
  qed
qed

lemma apply_cover_total:
  assumes chk: "check_soldier_for_assignment (wd_board w) (sc_soldier_id c) (sr_assignment_id req) None False = Inr k"
    and a: "assignment_of (wd_board w) (sr_assignment_id req) = Some a"
    and drafts: "no_drafts (wd_board w) (sc_soldier_id c) a"
  shows "\<exists>w'. apply_cover ids req c u w = Inr w'"
proof -
  let ?ds = "days_from_to (da_start_date a) (da_end_date a)"
  have "\<exists>res. cover_days ids a (sc_soldier_id c) u ?ds (None, wd_board w) = Inr res"
  proof (rule cover_days_total)
    show "soldier_of (wd_board w) (sc_soldier_id c) \<noteq> None"
      using chk a by (auto simp: check_soldier_for_assignment_def split: option.splits)
  qed (use checked_days [OF chk a drafts] in auto)
  then obtain ov s where "cover_days ids a (sc_soldier_id c) u ?ds (None, wd_board w) = Inr (ov, s)" by force
  then show ?thesis by (simp add: apply_cover_def a and_then_def)
qed

section \<open>Finalizing\<close>

lemma find_sorted_least:
  fixes k :: "'a \<Rightarrow> 'b :: linorder"
  assumes "find P (sort_key k xs) = Some x" "y \<in> set xs" "P y"
  shows "k x \<le> k y"
proof -
  have least: "k x \<le> k y" if "sorted (map k ys)" "find P ys = Some x" "y \<in> set ys" for ys
    using that assms(3) by (induction ys) (auto split: if_split_asm)
  show ?thesis using least [of "sort_key k xs"] assms(1,2) by simp
qed

lemma cover_effective:
  assumes cov: "apply_cover ids req c u w = Inr w'" and ok: "board_ok (wd_board w)"
    and a: "assignment_of (wd_board w) (sr_assignment_id req) = Some a"
    and d: "da_start_date a \<le> d" "d < da_end_date a"
  shows "effective_soldier_on_date (wd_board w') a d = Some (sc_soldier_id c)"
  using cov
proof (rule apply_coverE)
  fix a' ov s assume a': "assignment_of (wd_board w) (sr_assignment_id req) = Some a'"
    and days: "cover_days ids a' (sc_soldier_id c) u (days_from_to (da_start_date a') (da_end_date a'))
      (None, wd_board w) = Inr (ov, s)"
    and w': "w' = update_request (sr_id req) (sr_override_id_update (\<lambda>_. ov)) (w\<lparr>wd_board := s\<rparr>)"
  have "a' = a" using a a' by simp
  then have "\<exists>v. override_on s (da_id a) d = Some v \<and> vo_soldier_id v = Some (sc_soldier_id c)"
    using cover_days_spec [OF ok _ days] assignment_of_Some [OF a] d by auto
  then show ?thesis by (auto simp: effective_soldier_on_date_def w')
qed

definition ready :: "world \<Rightarrow> SwapRequest \<Rightarrow> SwapCandidate list" where
  "ready w r = filter (candidate_fully_approved w r) (live_of w (sr_id r))"

lemma ready_none:
  "find (candidate_fully_approved w r) (in_creation_order w (live_of w (sr_id r))) = None \<longleftrightarrow> ready w r = []"
  by (auto simp: find_None_iff ready_def filter_empty_conv mem_creation_order)

lemma settle_tables:
  "request_of (settle i k w) i = map_option (sr_status_update (\<lambda>_. Swap_applied)) (request_of w i)"
  "wd_board (settle i k w) = wd_board w"
proof -
  show "request_of (settle i k w) i = map_option (sr_status_update (\<lambda>_. Swap_applied)) (request_of w i)"
    unfolding settle_def by (subst request_of_update) (simp_all add: request_of_def)
qed (simp add: settle_def)

lemma effective_audit [simp]:
  "effective_soldier_on_date (audit_board u t i s) = effective_soldier_on_date s"
  by (simp add: fun_eq_iff effective_soldier_on_date_def override_on_def)

section \<open>A sample run\<close>

text \<open>Soldier 4 is put on a duty, asks soldier 5 to take it, and 5 agrees or 4 cancels.\<close>

definition sample_world0 :: world where
  "sample_world0 = \<lparr>wd_board = sample_board\<lparr>bd_soldiers := [sample_private, sample_private\<lparr>so_id := 5\<rparr>]\<rparr>,
     wd_org = sample_org, wd_requests = [], wd_candidates = [], wd_approvals = [],
     wd_swap_settings = \<lparr>ss_restrict_level = None, ss_max_targets = None, ss_manager_approval = None,
       ss_dm_approval = None, ss_allow_take_free = None\<rparr>, wd_tie = sc_id\<rparr>"

definition sample_world1 :: world where
  "sample_world1 = sample_world0\<lparr>wd_board :=
     sample_board1\<lparr>bd_soldiers := [sample_private, sample_private\<lparr>so_id := 5\<rparr>]\<rparr>\<rparr>"

definition sample_world2 :: world where
  "sample_world2 = audit_swap (Some 4) ''swap.create'' 60 (sample_world1
     \<lparr>wd_requests := [new_request 60 sample_duty_row 4 False None None],
      wd_candidates := [new_candidate 75 60 5 Invited 0]\<rparr>)"

definition sample_accepted :: world where
  "sample_accepted = audit_swap (Some 5) ''swap.soldier_approve'' 60
     (requester_agrees 60 (update_candidate 75 accept_cand sample_world2))"

definition sample_ids :: "date \<Rightarrow> uuid" where
  "sample_ids d = (if d = 700010 then 90 else 91)"

definition sample_final :: world where
  "sample_final = projr (try_finalize sample_ids 60 (Some 5) sample_accepted)"

definition sample_request :: SwapRequest where
  "sample_request = new_request 60 sample_duty_row 4 False None (Some True)"

lemma sample_book: "board_step (wd_board sample_world0) (wd_board sample_world1)"
proof (rule board_step.step_create)
  show "create_assignment (wd_board sample_world0) 40 4 31 32 700010 700012 None True None None
      = Inr (wd_board sample_world1)"
    by (simp add: create_assignment_def sample_board1_def sample_board_def sample_duty_row_def soldier_of_def
        sample_private_def duty_type_of_def shift_times_def check_booking_def has_overlap_def
        has_insufficient_rest_def has_blocking_exemption_def approved_constraint_def record_override_def
        audit_board_def weapon_missing_def Let_def sample_world0_def sample_world1_def)
  show "assignment_of (wd_board sample_world0) 40 = None"
    by (simp add: sample_world0_def sample_board_def assignment_of_def)
qed

lemma sample_ask:
  "create_request sample_world1 60 (\<lambda>t. 70 + t) 4 40 None None (Some [5]) False (Some 4) 0 = Inr sample_world2"
proof -
  have "check_soldier_for_assignment (wd_board sample_world1) 5 40 None False = Inr None" by code_simp
  moreover have "assignment_of (wd_board sample_world1) 40 = Some sample_duty_row"
    by (simp add: sample_world1_def sample_board1_def assignment_of_def sample_duty_row_def)
  moreover have "effective_soldier_on_date (wd_board sample_world1) sample_duty_row 700010 = Some 4"
    by code_simp
  ultimately show ?thesis
    by (simp add: create_request_def requested_targets_def max_specific_targets_def sample_world2_def
        open_request_def swappable_def combine_date_time_def parse_hhmm_def add_invited_candidate_def
        check_cover_def and_then_def insert_candidate_def candidate_for_def new_candidate_def
        enforce_hierarchy_level_def sample_world1_def sample_world0_def default_def sample_duty_row_def
        new_request_def)
qed

lemma sample_swap_steps: "reachable no_swaps swap_step sample_world2"
proof (rule reachable_step)
  have w1: "sample_world1 = sample_world0\<lparr>wd_board := wd_board sample_world1\<rparr>" by (simp add: sample_world1_def)
  have "swap_step sample_world0 sample_world1" by (subst w1) (rule sw_board [OF sample_book])
  moreover have "reachable no_swaps swap_step sample_world0"
    by (rule reachable_start) (simp add: no_swaps_def empty_board_def sample_world0_def sample_board_def)
  ultimately show "reachable no_swaps swap_step sample_world1" by (rule reachable_step [rotated])
  show "swap_step sample_world1 sample_world2"
    by (rule sw_create [OF sample_ask]) (simp_all add: sample_world1_def sample_world0_def request_of_def inj_def)
qed

lemma sample_approve: "approve_soldier_side sample_ids sample_world2 60 5 None = Inr sample_final"
proof -
  have "request_of sample_world2 60 = Some (new_request 60 sample_duty_row 4 False None None)"
    "candidate_for sample_world2 60 5 = Some (new_candidate 75 60 5 Invited 0)"
    by (simp_all add: sample_world2_def request_of_def candidate_for_def new_candidate_def audit_swap_def)
  then have "approve_soldier_side sample_ids sample_world2 60 5 None = try_finalize sample_ids 60 (Some 5) sample_accepted"
    by (simp add: approve_soldier_side_def sample_accepted_def new_candidate_def new_request_def live_cand_def default_def)
  moreover have "\<not> isl (try_finalize sample_ids 60 (Some 5) sample_accepted)" by code_simp
  ultimately show ?thesis by (auto simp: sample_final_def isl_def split: sum.splits)
qed

lemma sample_swap_reachable: "reachable no_swaps swap_step sample_final"
  by (rule reachable_step [OF sample_swap_steps sw_soldier [OF sample_approve]])

lemma sample_finalize: "try_finalize sample_ids 60 (Some 5) sample_accepted = Inr sample_final"
proof -
  have "\<not> isl (try_finalize sample_ids 60 (Some 5) sample_accepted)" by code_simp
  then show ?thesis by (auto simp: sample_final_def isl_def split: sum.splits)
qed

lemma sample_request: "request_of sample_accepted 60 = Some sample_request" "sr_status sample_request = Swap_open"
  by (simp_all add: sample_request_def sample_accepted_def sample_world2_def request_of_def requester_agrees_def
      update_request_def new_request_def)

lemma sample_request_assignment:
  "assignment_of (wd_board sample_accepted) (sr_assignment_id sample_request) = Some sample_duty_row"
  by (simp add: sample_request_def sample_accepted_def sample_world2_def sample_world1_def sample_board1_def
      assignment_of_def requester_agrees_def sample_duty_row_def new_request_def audit_swap_def audit_board_def)

lemma sample_accepted_ok: "swap_ok sample_accepted"
proof -
  have ok: "swap_ok sample_world2" using swaps.reachable_good [OF sample_swap_steps] .
  have c: "new_candidate 75 60 5 Invited 0 \<in> set (wd_candidates sample_world2)" by (simp add: sample_world2_def)
  have "moves_on sample_world2 (update_candidate 75 accept_cand sample_world2)"
    using moves_on_candidate [OF ok _ _ _ c, of accept_cand]
    by (simp add: accept_cand_def new_candidate_def live_cand_def)
  then have "swap_ok (update_candidate 75 accept_cand sample_world2)" by (rule moves_onD)
  then show ?thesis using moves_onD [OF agrees_moves] by (simp add: sample_accepted_def)
qed

section \<open>Properties\<close>

text \<open>
  C15. The swap tables are sound.  In every state the operations reach, in whatever order and
  with whatever changes of the board, the organisation and the settings in between, a
  soldier has at most one open request for an assignment and one row per request as a
  candidate, a request that is closed has no pending or accepted candidate, exactly the
  applied requests have a candidate who took the duty, just one.  The board they write, which
  assignments being created, cancelled, replaced and overridden may change in between, keeps its
  own invariant: two live assignments of one soldier share no day, every override is for a day of
  its assignment, with at most one per day, and nobody covers two live assignments on one day.
  (A cover and an own assignment of the soldier may meet: lemma \<open>create_ignores_covers\<close>.)
\<close>

theorem swap_tables_sound:
  assumes "reachable no_swaps swap_step w"
  shows "swap_ok w"
  using swaps.reachable_good [OF assms] .

lemma swap_tables_sound_witness: "reachable no_swaps swap_step sample_final \<and> swap_ok sample_final"
  using swap_tables_sound [OF sample_swap_reachable] sample_swap_reachable by simp

text \<open>
  C16. A decision is final.  Once a request is applied, rejected or cancelled, no later
  operation of any kind changes its status or removes it.
\<close>

theorem swap_decision_final:
  assumes "reachable no_swaps swap_step w" "swap_step\<^sup>*\<^sup>* w w'"
    and "request_of w i = Some r" "sr_status r \<noteq> Swap_open"
  shows "\<exists>r'. request_of w' i = Some r' \<and> sr_status r' = sr_status r"
proof -
  have "decided (i, sr_status r) w'"
    by (rule swaps.steps_settled [OF assms(2) swaps.reachable_good [OF assms(1)]])
      (use assms(3,4) in \<open>simp add: decided_def\<close>)
  then show ?thesis by (simp add: decided_def)
qed

lemma swap_decision_final_witness:
  "\<exists>r'. request_of (expire_started_swaps sample_final 1008100000) 60 = Some r' \<and> sr_status r' = Swap_applied"
proof -
  have "map_option sr_status (request_of sample_final 60) = Some Swap_applied" by code_simp
  then obtain r where r: "request_of sample_final 60 = Some r" "sr_status r = Swap_applied" by blast
  show ?thesis
    using swap_decision_final [OF sample_swap_reachable r_into_rtranclp [of swap_step, OF sw_expire] r(1)] r(2) by simp
qed

text \<open>
  C17. The finalization of an open request.  Either nobody is fully approved and nothing
  changes, or the request becomes applied for a fully approved candidate who was invited no
  later than any other fully approved one, and on every day of the assignment that candidate
  is the soldier on duty.
\<close>

theorem finalize_exact:
  assumes "swap_ok w" "request_of w i = Some r" "sr_status r = Swap_open"
    and "assignment_of (wd_board w) (sr_assignment_id r) = Some a"
    and "try_finalize ids i u w = Inr w'"
  shows "if ready w r = [] then w' = w
    else (\<exists>c. c \<in> set (ready w r) \<and> list_all (\<lambda>x. sc_created_at c \<le> sc_created_at x) (ready w r)
      \<and> map_option sr_status (request_of w' i) = Some Swap_applied
      \<and> list_all (\<lambda>d. effective_soldier_on_date (wd_board w') a d = Some (sc_soldier_id c))
           (days_from_to (da_start_date a) (da_end_date a)))"
proof (cases "find (candidate_fully_approved w r) (in_creation_order w (live_of w i))")
  case None
  then have "ready w r = []" using ready_none [of w r] request_of_Some [OF assms(2)] by simp
  then show ?thesis using assms None by (simp add: try_finalize_def)
next
  case (Some c)
  have id: "sr_id r = i" using request_of_Some [OF assms(2)] by simp
  obtain w1 where cov: "apply_cover ids r c u w = Inr w1"
    and w': "w' = audit_swap u ''swap.finalize'' i (settle i (sc_id c) w1)"
    using assms(2,3,5) Some by (auto simp: try_finalize_def and_then_def split: sum.splits)
  have c: "c \<in> set (ready w r)" using find_SomeD [OF Some] by (simp add: mem_creation_order ready_def id)
  have first: "sc_created_at c \<le> sc_created_at x" if "x \<in> set (ready w r)" for x
    using find_sorted_least [OF Some [unfolded in_creation_order_def]] that by (simp add: ready_def id)
  have "map_option sr_status (request_of w1 i) = Some Swap_open"
    using apply_cover_moves [OF assms(1) cov, of i] assms(2,3) by simp
  then have "map_option sr_status (request_of w' i) = Some Swap_applied"
    by (auto simp: w' request_of_requests [OF swap_tables(1)] settle_tables)
  moreover have "effective_soldier_on_date (wd_board w') a d = Some (sc_soldier_id c)"
    if "da_start_date a \<le> d" "d < da_end_date a" for d
    using cover_effective [OF cov _ assms(4) that] assms(1)
    by (simp add: w' audit_swap_def settle_tables swap_ok_def)
  ultimately have "\<exists>c. c \<in> set (ready w r) \<and> list_all (\<lambda>x. sc_created_at c \<le> sc_created_at x) (ready w r)
      \<and> map_option sr_status (request_of w' i) = Some Swap_applied
      \<and> list_all (\<lambda>d. effective_soldier_on_date (wd_board w') a d = Some (sc_soldier_id c))
           (days_from_to (da_start_date a) (da_end_date a))"
    using c first by (intro exI [of _ c]) (simp add: list_all_iff)
  then show ?thesis using c by (simp add: if_not_P [OF list.discI] neq_Nil_conv) (metis empty_iff list.set(1))
qed

lemma finalize_exact_witness:
  "if ready sample_accepted sample_request = [] then sample_final = sample_accepted
    else (\<exists>c. c \<in> set (ready sample_accepted sample_request)
      \<and> list_all (\<lambda>x. sc_created_at c \<le> sc_created_at x) (ready sample_accepted sample_request)
      \<and> map_option sr_status (request_of sample_final 60) = Some Swap_applied
      \<and> list_all (\<lambda>d. effective_soldier_on_date (wd_board sample_final) sample_duty_row d = Some (sc_soldier_id c))
           (days_from_to (da_start_date sample_duty_row) (da_end_date sample_duty_row)))"
  by (rule finalize_exact [OF sample_accepted_ok sample_request sample_request_assignment sample_finalize])

text \<open>
  C18. An approved cover goes through.  If some candidate of an open request is fully approved
  and every fully approved one passes the eligibility check and has no draft of the algorithm,
  waiting or rejected, on those days, finalizing raises no exception and applies the request.
\<close>

theorem approved_cover_applies:
  assumes "request_of w i = Some r" "sr_status r = Swap_open"
    and "assignment_of (wd_board w) (sr_assignment_id r) = Some a" "ready w r \<noteq> []"
    and "list_all (\<lambda>c. check_soldier_for_assignment (wd_board w) (sc_soldier_id c) (sr_assignment_id r) None False
        = Inr None \<and> no_drafts (wd_board w) (sc_soldier_id c) a) (ready w r)"
  shows "\<exists>w'. try_finalize ids i u w = Inr w' \<and> map_option sr_status (request_of w' i) = Some Swap_applied"
proof -
  have id: "sr_id r = i" using request_of_Some [OF assms(1)] by simp
  then obtain c where c: "find (candidate_fully_approved w r) (in_creation_order w (live_of w i)) = Some c"
    using assms(4) ready_none by fastforce
  then have "c \<in> set (ready w r)" using find_SomeD [OF c] by (simp add: mem_creation_order ready_def id)
  then have "\<exists>w1. apply_cover ids r c u w = Inr w1"
    using assms(3,5) by (intro apply_cover_total) (auto simp: list_all_iff)
  then obtain w1 where cov: "apply_cover ids r c u w = Inr w1" ..
  obtain ov s where w1: "w1 = update_request (sr_id r) (sr_override_id_update (\<lambda>_. ov)) (w\<lparr>wd_board := s\<rparr>)"
    using cov by (rule apply_coverE)
  have "request_of w1 k = map_option (\<lambda>x. if k = sr_id r then x\<lparr>sr_override_id := ov\<rparr> else x) (request_of w k)" for k
    unfolding w1 by (subst request_of_update) (simp_all add: request_of_def)
  then have "map_option sr_status (request_of (settle i (sc_id c) w1) i) = Some Swap_applied"
    using assms(1) by (simp add: settle_tables)
  then show ?thesis using assms(1,2) c cov
    by (simp add: try_finalize_def and_then_def request_of_requests [OF swap_tables(1)])
qed

lemma approved_cover_applies_witness:
  "\<exists>w'. try_finalize sample_ids 60 (Some 5) sample_accepted = Inr w'
    \<and> map_option sr_status (request_of w' 60) = Some Swap_applied"
proof (rule approved_cover_applies [OF sample_request sample_request_assignment])
  show "ready sample_accepted sample_request \<noteq> []" by code_simp
  show "list_all (\<lambda>c. check_soldier_for_assignment (wd_board sample_accepted) (sc_soldier_id c)
        (sr_assignment_id sample_request) None False = Inr None
      \<and> no_drafts (wd_board sample_accepted) (sc_soldier_id c) sample_duty_row)
      (ready sample_accepted sample_request)" by code_simp
qed

end
