(* ===== verification/Constraints.thy ===== *)
theory Constraints
  imports DutiesReach
begin

text \<open>
  Personal constraints: \<open>services/constraints.py\<close> and \<open>services/date_validation.py\<close>.  A
  soldier asks to be left off duty on some days, within a cap of days per calendar period,
  and a commander and a duty manager decide.  The rows are those of the duty board, whose
  booking checks read the approved ones.  \<open>today\<close> is \<open>date.today()\<close>; row locks, notifications
  and score projections are left out, and so are the moments of the decisions.
\<close>

section \<open>State\<close>

record SoldierEnrollmentRequest =
  er_id :: uuid
  er_soldier_id :: uuid
  er_requested_node_id :: uuid
  er_status :: string
  er_decided_by :: "uuid option"
  er_decision_note :: "string option"

text \<open>Settings; \<open>None\<close> is a setting without a row, for which the code has a default.\<close>

record constraint_settings =
  cs_require_commander :: "bool option"
  cs_require_dm :: "bool option"
  cs_reset_period :: "string option"
  cs_cap_days :: "int option"

record constraint_db =
  cd_board :: board
  cd_org :: org
  cd_enrollments :: "SoldierEnrollmentRequest list"
  cd_settings :: constraint_settings

datatype constraint_error = Soldier_not_found | Bad_range | Date_range_too_long | Start_date_in_past
  | Cap_exceeded | Constraint_not_found | Constraint_not_pending | Enrollment_not_approved
  | Not_duty_manager | Cancellation_reason_required

definition constraint_of :: "constraint_db \<Rightarrow> uuid \<Rightarrow> PersonalConstraint option" where
  "constraint_of d i = find (\<lambda>c. pc_id c = i) (bd_constraints (cd_board d))"

definition write_constraint :: "uuid \<Rightarrow> (PersonalConstraint \<Rightarrow> PersonalConstraint) \<Rightarrow> uuid option \<Rightarrow> string
    \<Rightarrow> constraint_db \<Rightarrow> constraint_db" where
  "write_constraint i f actor_id action d =
     d\<lparr>cd_board := audit_board actor_id action i ((cd_board d)
         \<lparr>bd_constraints := map (\<lambda>c. if pc_id c = i then f c else c) (bd_constraints (cd_board d))\<rparr>)\<rparr>"

definition pending :: "PersonalConstraint \<Rightarrow> bool" where
  "pending c \<longleftrightarrow> pc_status c \<in> {Pending_commander, Pending_duty_manager}"

text \<open>The statuses whose days count against the cap.\<close>

definition counts :: "PersonalConstraint \<Rightarrow> bool" where
  "counts c \<longleftrightarrow> pc_status c \<in> {Pending_commander, Pending_duty_manager, Approved_constraint}"

section \<open>The cap\<close>

definition MAX_REQUEST_SPAN_DAYS :: int where
  "MAX_REQUEST_SPAN_DAYS = 364"

definition span_too_long :: "date \<Rightarrow> date option \<Rightarrow> bool" where
  "span_too_long start_date end_date =
     (case end_date of None \<Rightarrow> False | Some e \<Rightarrow> e - start_date > MAX_REQUEST_SPAN_DAYS)"

definition period_bounds :: "string \<Rightarrow> date \<Rightarrow> date \<times> date" where
  "period_bounds reset_period today =
     (let y = year_of today; m = month_of today
      in if reset_period = ''half_year''
         then (let start_month = (if m \<le> 6 then 1 else 7)
               in (civil y start_month 1, if start_month = 1 then civil y 7 1 else civil (y + 1) 1 1))
         else if reset_period = ''year'' then (civil y 1 1, civil (y + 1) 1 1)
         else (let q_start_month = ((m - 1) div 3) * 3 + 1; end_month = q_start_month + 3
               in (civil y q_start_month 1,
                   if end_month \<le> 12 then civil y end_month 1 else civil (y + 1) 1 1)))"

definition constraint_overlap :: "date \<Rightarrow> date \<Rightarrow> PersonalConstraint \<Rightarrow> int" where
  "constraint_overlap period_start period_end c =
     min (pc_end_date c) (period_end - 1) - max (pc_start_date c) period_start + 1"

text \<open>\<open>remaining_days\<close>: cap, used days and the period; the days that remain are their difference.\<close>

definition reset_period_of :: "constraint_db \<Rightarrow> string" where
  "reset_period_of d = default (cs_reset_period (cd_settings d)) ''quarter''"

definition cap_days_of :: "constraint_db \<Rightarrow> int" where
  "cap_days_of d = default (cs_cap_days (cd_settings d)) 15"

definition used_days :: "PersonalConstraint list \<Rightarrow> uuid \<Rightarrow> date \<Rightarrow> date \<Rightarrow> int" where
  "used_days rows soldier_id period_start period_end =
     (\<Sum>c \<leftarrow> filter (\<lambda>c. pc_soldier_id c = soldier_id \<and> counts c \<and> pc_start_date c < period_end
          \<and> pc_end_date c \<ge> period_start) rows. constraint_overlap period_start period_end c)"

definition remaining_days :: "constraint_db \<Rightarrow> uuid \<Rightarrow> date \<Rightarrow> int \<times> int \<times> int \<times> date \<times> date" where
  "remaining_days d soldier_id today =
     (case period_bounds (reset_period_of d) today of
        (period_start, period_end) \<Rightarrow>
          (let used = used_days (bd_constraints (cd_board d)) soldier_id period_start period_end
           in (cap_days_of d, used, max 0 (cap_days_of d - used), period_start, period_end)))"

definition AUTO_NOTE :: string where
  "AUTO_NOTE = hebrew [0, 5, 25, 24] @ '' '' @ hebrew [0, 5, 8, 5, 14, 8, 9, 26] @ '' - '' @ hebrew [0, 9, 15]
     @ '' '' @ hebrew [3, 24, 9, 25, 26] @ '' '' @ hebrew [0, 9, 25, 5, 24] @ '' ''
     @ hebrew [14, 5, 2, 3, 24, 26]"

definition require_commander :: "constraint_db \<Rightarrow> bool" where
  "require_commander d = default (cs_require_commander (cd_settings d)) True"

definition require_dm :: "constraint_db \<Rightarrow> bool" where
  "require_dm d = default (cs_require_dm (cd_settings d)) True"

definition initial_status :: "constraint_db \<Rightarrow> constraint_status" where
  "initial_status d = (if require_commander d then Pending_commander
     else if require_dm d then Pending_duty_manager else Approved_constraint)"

definition new_constraint :: "constraint_db \<Rightarrow> uuid \<Rightarrow> uuid \<Rightarrow> date \<Rightarrow> date \<Rightarrow> string \<Rightarrow> PersonalConstraint" where
  "new_constraint d new_id soldier_id start_date end_date reason =
     \<lparr>pc_id = new_id, pc_soldier_id = soldier_id, pc_start_date = start_date, pc_end_date = end_date,
      pc_reason = reason, pc_status = initial_status d, pc_commander_approved_by = None,
      pc_commander_note = None, pc_decided_by = None,
      pc_decision_note = (if initial_status d = Approved_constraint then Some AUTO_NOTE else None)\<rparr>"

definition submit_constraint :: "constraint_db \<Rightarrow> uuid \<Rightarrow> date \<Rightarrow> uuid \<Rightarrow> date \<Rightarrow> date \<Rightarrow> string
    \<Rightarrow> uuid option \<Rightarrow> constraint_error + constraint_db" where
  "submit_constraint d new_id today soldier_id start_date end_date reason actor_id =
     (if soldier_of (cd_board d) soldier_id = None then Inl Soldier_not_found
      else if end_date < start_date then Inl Bad_range
      else if span_too_long start_date (Some end_date) then Inl Date_range_too_long
      else if start_date < today then Inl Start_date_in_past
      else
        (case remaining_days d soldier_id start_date of
           (cap_days, used, _, period_start, period_end) \<Rightarrow>
             (let requested = max 0 (min end_date (period_end - 1) - max start_date period_start + 1)
              in if used + requested > cap_days then Inl Cap_exceeded
                 else Inr (d\<lparr>cd_board := audit_board actor_id ''constraint.submit'' new_id ((cd_board d)
                   \<lparr>bd_constraints := bd_constraints (cd_board d) @
                      [new_constraint d new_id soldier_id start_date end_date reason]\<rparr>)\<rparr>))))"

section \<open>Decisions\<close>

definition approve_commander_step :: "constraint_db \<Rightarrow> uuid \<Rightarrow> uuid option \<Rightarrow> string option \<Rightarrow> constraint_db" where
  "approve_commander_step d i actor_id decision_note =
     write_constraint i (\<lambda>c. if require_dm d
        then c\<lparr>pc_commander_approved_by := actor_id, pc_commander_note := decision_note,
               pc_status := Pending_duty_manager\<rparr>
        else c\<lparr>pc_commander_approved_by := actor_id, pc_commander_note := decision_note,
               pc_status := Approved_constraint, pc_decided_by := actor_id\<rparr>)
       actor_id ''constraint.approve_commander_step'' d"

definition approve_duty_manager_step :: "constraint_db \<Rightarrow> uuid \<Rightarrow> uuid option \<Rightarrow> string option \<Rightarrow> constraint_db" where
  "approve_duty_manager_step d i actor_id decision_note =
     write_constraint i (\<lambda>c. c\<lparr>pc_status := Approved_constraint, pc_decided_by := actor_id,
        pc_decision_note := decision_note\<rparr>) actor_id ''constraint.approve_duty_manager_step'' d"

definition unresolved_enrollment :: "constraint_db \<Rightarrow> uuid \<Rightarrow> bool" where
  "unresolved_enrollment d soldier_id = list_ex (\<lambda>e. er_soldier_id e = soldier_id
     \<and> er_status e \<in> {''pending'', ''commander_approved''}) (cd_enrollments d)"

definition acting_role :: "constraint_db \<Rightarrow> uuid option \<Rightarrow> Role option \<Rightarrow> Role option" where
  "acting_role d actor_id actor_role =
     (case actor_role of Some r \<Rightarrow> Some r
      | None \<Rightarrow> (case actor_id of None \<Rightarrow> None
          | Some i \<Rightarrow> map_option p_role (person_of (cd_org d) i)))"

definition approve_constraint :: "constraint_db \<Rightarrow> uuid \<Rightarrow> uuid option \<Rightarrow> string option \<Rightarrow> Role option
    \<Rightarrow> constraint_error + constraint_db" where
  "approve_constraint d i actor_id decision_note actor_role =
     (case constraint_of d i of None \<Rightarrow> Inl Constraint_not_found
      | Some c \<Rightarrow>
          if \<not> pending c then Inl Constraint_not_pending
          else if unresolved_enrollment d (pc_soldier_id c) then Inl Enrollment_not_approved
          else if pc_status c = Pending_commander then Inr (approve_commander_step d i actor_id decision_note)
          else if acting_role d actor_id actor_role \<notin> {Some Duty_manager, Some Admin}
          then Inl Not_duty_manager
          else Inr (approve_duty_manager_step d i actor_id decision_note))"

definition reject_constraint :: "constraint_db \<Rightarrow> uuid \<Rightarrow> uuid option \<Rightarrow> string
    \<Rightarrow> constraint_error + constraint_db" where
  "reject_constraint d i actor_id decision_note =
     (case constraint_of d i of None \<Rightarrow> Inl Constraint_not_found
      | Some c \<Rightarrow>
          if \<not> pending c then Inl Constraint_not_pending
          else Inr (write_constraint i (\<lambda>c. c\<lparr>pc_status := Rejected_constraint, pc_decided_by := actor_id,
                 pc_decision_note := Some decision_note\<rparr>) actor_id ''constraint.reject'' d))"

text \<open>A pending constraint is deleted, an approved one becomes cancelled.\<close>

definition cancel_constraint :: "constraint_db \<Rightarrow> uuid \<Rightarrow> uuid option \<Rightarrow> string option
    \<Rightarrow> constraint_error + constraint_db" where
  "cancel_constraint d i actor_id reason =
     (case constraint_of d i of None \<Rightarrow> Inl Constraint_not_found
      | Some c \<Rightarrow>
          if pending c
          then Inr (d\<lparr>cd_board := audit_board actor_id ''constraint.cancel'' i ((cd_board d)
                 \<lparr>bd_constraints := filter (\<lambda>x. pc_id x \<noteq> i) (bd_constraints (cd_board d))\<rparr>)\<rparr>)
          else if pc_status c \<noteq> Approved_constraint then Inl Constraint_not_pending
          else if \<not> given reason then Inl Cancellation_reason_required
          else Inr (write_constraint i (\<lambda>c. c\<lparr>pc_status := Cancelled_constraint, pc_decided_by := actor_id,
                 pc_decision_note := Some (strip (the reason))\<rparr>) actor_id ''constraint.cancel'' d))"

definition get_approved_constraint_dates :: "constraint_db \<Rightarrow> uuid \<Rightarrow> date \<Rightarrow> (date \<times> date) list" where
  "get_approved_constraint_dates d soldier_id today =
     map (\<lambda>c. (pc_start_date c, pc_end_date c))
       (filter (\<lambda>c. pc_soldier_id c = soldier_id \<and> pc_status c = Approved_constraint
          \<and> pc_end_date c \<ge> today) (bd_constraints (cd_board d)))"

end
