(* ===== verification/ConstraintsSound.thy ===== *)
theory ConstraintsSound
  imports Constraints
begin

text \<open>
  Personal constraints: the periods tile the calendar, the cap holds in every reachable
  state, a refusal for the cap is exact, approvals take the required path and a refusal or
  cancellation is final.
\<close>

section \<open>Periods\<close>

definition period_months :: "string \<Rightarrow> int" where
  "period_months rp = (if rp = ''half_year'' then 6 else if rp = ''year'' then 12 else 3)"

lemma period_bounds_index:
  "period_bounds rp t = (let k = period_months rp; i = k * (month_index t div k)
     in (month_start i, month_start (i + k)))"
proof -
  have m: "1 \<le> month_of t" "month_of t \<le> 12" using month_spec [of t] by auto
  define y where "y = year_of t"
  define r where "r = int (month_of t) - 1"
  have r: "0 \<le> r" "r \<le> 11" using m by (simp_all add: r_def)
  have idx: "month_index t = 12 * y + r" by (simp add: month_index_def y_def r_def)
  have start: "civil y q 1 = month_start (12 * y + int q - 1)" if "1 \<le> q" "q \<le> 12" for q
    using that by (rule month_start_civil)
  have next_year: "civil (y + 1) 1 1 = month_start (12 * y + 12)"
    using month_start_civil [of 1 "y + 1"] by (simp add: algebra_simps)
  consider "rp = ''half_year''" | "rp = ''year''" | "rp \<noteq> ''half_year''" "rp \<noteq> ''year''" by blast
  then show ?thesis
  proof cases
    case 1
    have "month_index t div 6 = 2 * y + r div 6" unfolding idx using div_mult_self1 [of 6 r "2 * y"] by simp
    moreover have "r div 6 = (if r \<le> 5 then 0 else 1)" using r by presburger
    moreover have "month_of t \<le> 6 \<longleftrightarrow> r \<le> 5" by (auto simp: r_def)
    ultimately show ?thesis using 1 m start [of 1] start [of 7] next_year
      by (simp add: period_bounds_def period_months_def Let_def y_def [symmetric] algebra_simps)
  next
    case 2
    have "month_index t div 12 = y" unfolding idx using r by simp
    then show ?thesis using 2 start [of 1] next_year
      by (simp add: period_bounds_def period_months_def Let_def y_def [symmetric] algebra_simps)
  next
    case 3
    define q where "q = (month_of t - 1) div 3 * 3 + 1"
    have q: "1 \<le> q" "q \<le> 10" using m unfolding q_def by auto
    have ri: "r = int (month_of t - 1)" using m by (simp add: r_def of_nat_diff)
    have rq: "3 * (r div 3) = int q - 1" unfolding ri q_def by (simp add: zdiv_int)
    have div3: "month_index t div 3 = 4 * y + r div 3"
      unfolding idx using div_mult_self1 [of 3 r "4 * y"] by simp
    have k: "3 * (month_index t div 3) = 12 * y + int q - 1" unfolding div3 using rq by simp
    have "(month_of t - 1) div 3 \<le> 3" using m by simp
    then have "q + 3 \<le> 12 \<or> q = 10" unfolding q_def by linarith
    then have stop: "(if q + 3 \<le> 12 then civil y (q + 3) 1 else civil (y + 1) 1 1)
        = month_start (12 * y + int q - 1 + 3)"
      using start [of "q + 3"] next_year by (auto simp: algebra_simps)
    have "period_bounds rp t = (civil y q 1, if q + 3 \<le> 12 then civil y (q + 3) 1 else civil (y + 1) 1 1)"
      using 3 by (simp add: period_bounds_def Let_def y_def q_def)
    then show ?thesis using 3 k stop start [of q] q by (simp add: period_months_def Let_def)
  qed
qed

lemma period_months_pos: "0 < period_months rp"
  by (simp add: period_months_def)

lemma period_iff:
  assumes "period_bounds rp t = (a, b)"
  shows "a \<le> u \<and> u < b \<longleftrightarrow> period_bounds rp u = (a, b)"
proof -
  define k where "k = period_months rp"
  define i where "i = k * (month_index t div k)"
  have k: "0 < k" by (simp add: k_def period_months_pos)
  have ab: "a = month_start i" "b = month_start (i + k)"
    using assms by (simp_all add: period_bounds_index Let_def k_def i_def)
  have "a \<le> u \<and> u < b \<longleftrightarrow> i \<le> month_index u \<and> month_index u < i + k"
    using le_month_index [of i u] le_month_index [of "i + k" u] by (auto simp: ab)
  also have "\<dots> \<longleftrightarrow> month_index u div k = month_index t div k"
  proof
    assume "i \<le> month_index u \<and> month_index u < i + k"
    then show "month_index u div k = month_index t div k" unfolding i_def
      by (intro int_div_pos_eq [of _ k _ "month_index u - k * (month_index t div k)"]) auto
  next
    assume h: "month_index u div k = month_index t div k"
    have "month_index u = i + month_index u mod k" unfolding i_def h [symmetric] by simp
    then show "i \<le> month_index u \<and> month_index u < i + k"
      using pos_mod_sign [OF k, of "month_index u"] pos_mod_bound [OF k, of "month_index u"] by linarith
  qed
  also have "\<dots> \<longleftrightarrow> period_bounds rp u = (a, b)"
  proof
    assume "period_bounds rp u = (a, b)"
    then have "month_start (k * (month_index u div k)) = month_start i"
      by (simp add: period_bounds_index Let_def k_def [symmetric] ab)
    then have "k * (month_index u div k) = i"
      using month_start_strict [of "k * (month_index u div k)" i]
        month_start_strict [of i "k * (month_index u div k)"] by (metis less_irrefl linorder_neqE)
    then show "month_index u div k = month_index t div k" using k by (simp add: i_def)
  qed (simp add: period_bounds_index Let_def k_def [symmetric] ab i_def)
  finally show ?thesis .
qed

section \<open>Days within a period\<close>

definition days_asked :: "PersonalConstraint \<Rightarrow> date set" where
  "days_asked c = {pc_start_date c..pc_end_date c}"

definition ranges_ok :: "PersonalConstraint list \<Rightarrow> bool" where
  "ranges_ok rows \<longleftrightarrow> distinct (map pc_id rows) \<and> (\<forall>c \<in> set rows. pc_start_date c \<le> pc_end_date c)"

lemma clipped_card: "int (card ({x..y} \<inter> {a..<b :: int})) = max 0 (min y (b - 1) - max x a + 1)"
proof -
  have "{x..y} \<inter> {a..<b} = {max x a..min y (b - 1)}" by auto
  then show ?thesis by simp
qed

lemma used_days_card:
  assumes "\<forall>c \<in> set rows. pc_start_date c \<le> pc_end_date c" "a < b"
  shows "used_days rows i a b
    = (\<Sum>c \<leftarrow> filter (\<lambda>c. pc_soldier_id c = i \<and> counts c) rows. int (card (days_asked c \<inter> {a..<b})))"
  using assms(1)
proof (induction rows)
  case (Cons c rows)
  then have "pc_start_date c \<le> pc_end_date c" by simp
  then have "int (card (days_asked c \<inter> {a..<b}))
      = (if pc_start_date c < b \<and> pc_end_date c \<ge> a then constraint_overlap a b c else 0)"
    using assms(2) unfolding days_asked_def clipped_card constraint_overlap_def by (simp add: max_def min_def)
  then show ?case using Cons by (simp add: used_days_def)
qed (simp add: used_days_def)

text \<open>The days of the constraints that start in a period, as far as they lie in it.\<close>

definition starting_days :: "PersonalConstraint list \<Rightarrow> uuid \<Rightarrow> date \<Rightarrow> date \<Rightarrow> int" where
  "starting_days rows i a b = (\<Sum>c \<leftarrow> filter (\<lambda>c. pc_soldier_id c = i \<and> counts c \<and> a \<le> pc_start_date c
     \<and> pc_start_date c < b) rows. int (card (days_asked c \<inter> {a..<b})))"

lemma starting_days_simps [simp]:
  "starting_days [] i a b = 0"
  "starting_days (rows @ rows') i a b = starting_days rows i a b + starting_days rows' i a b"
  by (simp_all add: starting_days_def)

lemma sum_filter_sub:
  assumes "\<And>x. P x \<Longrightarrow> Q x" "\<And>x. 0 \<le> f x"
  shows "(\<Sum>x \<leftarrow> filter P xs. f x) \<le> (\<Sum>x \<leftarrow> filter Q xs. f x :: int)"
  using assms by (induction xs) (auto intro: add_nonneg_nonneg add_increasing)

lemma starting_days_le_used:
  assumes "\<forall>c \<in> set rows. pc_start_date c \<le> pc_end_date c" "a < b"
  shows "starting_days rows i a b \<le> used_days rows i a b"
  unfolding used_days_card [OF assms] starting_days_def by (rule sum_filter_sub) auto

lemma starting_days_map:
  assumes "\<And>c. pc_soldier_id (f c) = pc_soldier_id c" "\<And>c. pc_start_date (f c) = pc_start_date c"
    "\<And>c. pc_end_date (f c) = pc_end_date c" "\<And>c. c \<in> set rows \<Longrightarrow> counts (f c) \<Longrightarrow> counts c"
  shows "starting_days (map f rows) i a b \<le> starting_days rows i a b"
  using assms(4)
proof (induction rows)
  case (Cons c rows)
  have "starting_days (map f rows) i a b \<le> starting_days rows i a b" using Cons by simp
  then show ?case using Cons.prems [of c] assms(1-3)
    by (auto simp: starting_days_def days_asked_def intro: add_increasing)
qed simp

lemma starting_days_filter: "starting_days (filter P rows) i a b \<le> starting_days rows i a b"
  unfolding starting_days_def filter_filter by (rule sum_filter_sub) auto

section \<open>The cap\<close>

definition within_cap :: "constraint_db \<Rightarrow> bool" where
  "within_cap d \<longleftrightarrow> (\<forall>i t. let p = period_bounds (reset_period_of d) t
     in starting_days (bd_constraints (cd_board d)) i (fst p) (snd p) \<le> max 0 (cap_days_of d))"

lemma within_capD:
  "within_cap d \<Longrightarrow> period_bounds (reset_period_of d) t = (a, b)
   \<Longrightarrow> starting_days (bd_constraints (cd_board d)) i a b \<le> max 0 (cap_days_of d)"
  unfolding within_cap_def Let_def by (metis fst_conv snd_conv)

lemma within_capI:
  "(\<And>i t a b. period_bounds (reset_period_of d) t = (a, b)
     \<Longrightarrow> starting_days (bd_constraints (cd_board d)) i a b \<le> max 0 (cap_days_of d)) \<Longrightarrow> within_cap d"
  unfolding within_cap_def Let_def by (metis prod.collapse)

definition constraints_ok :: "constraint_db \<Rightarrow> bool" where
  "constraints_ok d \<longleftrightarrow> ranges_ok (bd_constraints (cd_board d)) \<and> within_cap d"

lemma period_nonempty: "period_bounds rp t = (a, b) \<Longrightarrow> a \<le> t \<and> t < b"
  using period_iff by blast

lemma board_constraints_audit [simp]: "bd_constraints (audit_board u t i s) = bd_constraints s"
  by (simp add: audit_board_def)

lemma settings_simps [simp]:
  "reset_period_of (d\<lparr>cd_board := s\<rparr>) = reset_period_of d" "cap_days_of (d\<lparr>cd_board := s\<rparr>) = cap_days_of d"
  "require_dm (d\<lparr>cd_board := s\<rparr>) = require_dm d" "initial_status (d\<lparr>cd_board := s\<rparr>) = initial_status d"
  "cd_settings (write_constraint i f u t d) = cd_settings d"
  by (simp_all add: reset_period_of_def cap_days_of_def require_dm_def initial_status_def require_commander_def
      write_constraint_def)

lemma write_constraint_ok:
  assumes ok: "constraints_ok d" and c: "constraint_of d i = Some c" "counts (f c) \<Longrightarrow> counts c"
    and f: "\<And>c. pc_soldier_id (f c) = pc_soldier_id c" "\<And>c. pc_start_date (f c) = pc_start_date c"
      "\<And>c. pc_end_date (f c) = pc_end_date c" "\<And>c. pc_id (f c) = pc_id c"
  shows "constraints_ok (write_constraint i f u t d)"
proof -
  let ?f = "\<lambda>c. if pc_id c = i then f c else c"
  let ?rows = "bd_constraints (cd_board d)"
  have rows: "bd_constraints (cd_board (write_constraint i f u t d)) = map ?f ?rows"
    by (simp add: write_constraint_def)
  have ids: "map pc_id (map ?f ?rows) = map pc_id ?rows" using f(4) by simp
  have "ranges_ok (map ?f ?rows)" unfolding ranges_ok_def ids
    using ok f by (auto simp: constraints_ok_def ranges_ok_def)
  moreover have less: "starting_days (map ?f ?rows) j a b \<le> starting_days ?rows j a b" for j a b
  proof (rule starting_days_map)
    fix x assume "x \<in> set ?rows" "counts (?f x)"
    moreover have "x = c" if "x \<in> set ?rows" "pc_id x = i"
      using find_distinct [of pc_id ?rows x] that c(1) ok by (simp add: constraints_ok_def ranges_ok_def constraint_of_def)
    ultimately show "counts x" using c(2) by (auto split: if_split_asm)
  qed (simp_all add: f)
  have "within_cap (write_constraint i f u t d)"
  proof (rule within_capI)
    fix j t' a b assume "period_bounds (reset_period_of (write_constraint i f u t d)) t' = (a, b)"
    then have "starting_days ?rows j a b \<le> max 0 (cap_days_of d)"
      using ok by (intro within_capD) (simp_all add: constraints_ok_def reset_period_of_def)
    then have "starting_days (map ?f ?rows) j a b \<le> max 0 (cap_days_of d)"
      using less [of j a b] by linarith
    then show "starting_days (bd_constraints (cd_board (write_constraint i f u t d))) j a b
        \<le> max 0 (cap_days_of (write_constraint i f u t d))"
      unfolding rows by (simp add: cap_days_of_def)
  qed
  ultimately show ?thesis by (simp add: constraints_ok_def rows)
qed

lemma drop_constraint_ok:
  assumes "constraints_ok d"
  shows "constraints_ok (d\<lparr>cd_board := audit_board u t i ((cd_board d)
    \<lparr>bd_constraints := filter P (bd_constraints (cd_board d))\<rparr>)\<rparr>)"
proof -
  have "within_cap (d\<lparr>cd_board := audit_board u t i ((cd_board d)
      \<lparr>bd_constraints := filter P (bd_constraints (cd_board d))\<rparr>)\<rparr>)"
  proof (rule within_capI, simp)
    fix j t' a b assume "period_bounds (reset_period_of d) t' = (a, b)"
    then have "starting_days (bd_constraints (cd_board d)) j a b \<le> max 0 (cap_days_of d)"
      using assms by (intro within_capD) (simp_all add: constraints_ok_def)
    then show "starting_days (filter P (bd_constraints (cd_board d))) j a b \<le> max 0 (cap_days_of d)"
      using starting_days_filter [of P "bd_constraints (cd_board d)" j a b] by linarith
  qed
  then show ?thesis using assms by (simp add: constraints_ok_def ranges_ok_def distinct_map_filter)
qed

text \<open>A submission that is not refused, and its days in its period.\<close>

lemma submitE:
  assumes "submit_constraint d n today i x y r u = Inr d'"
  obtains a b where "x \<le> y" "today \<le> x" "period_bounds (reset_period_of d) x = (a, b)"
    "used_days (bd_constraints (cd_board d)) i a b + int (card ({x..y} \<inter> {a..<b})) \<le> cap_days_of d"
    "d' = d\<lparr>cd_board := audit_board u ''constraint.submit'' n ((cd_board d)
       \<lparr>bd_constraints := bd_constraints (cd_board d) @ [new_constraint d n i x y r]\<rparr>)\<rparr>"
proof -
  obtain a b where ab: "period_bounds (reset_period_of d) x = (a, b)" by force
  show ?thesis by (rule that [OF _ _ ab])
    (use assms in \<open>simp_all add: submit_constraint_def remaining_days_def ab Let_def clipped_card
      not_less split: if_split_asm\<close>)
qed

lemma starting_days_new:
  "starting_days [new_constraint d n i x y r] j a b
    = (if j = i \<and> a \<le> x \<and> x < b then int (card ({x..y} \<inter> {a..<b})) else 0)"
  by (auto simp: starting_days_def days_asked_def new_constraint_def counts_def initial_status_def)

lemma submit_ok:
  assumes ok: "constraints_ok d" and s: "submit_constraint d n today i x y r u = Inr d'"
    and n: "constraint_of d n = None"
  shows "constraints_ok d'"
proof (rule submitE [OF s])
  fix a b assume xy: "x \<le> y" and ab: "period_bounds (reset_period_of d) x = (a, b)"
    and cap: "used_days (bd_constraints (cd_board d)) i a b + int (card ({x..y} \<inter> {a..<b})) \<le> cap_days_of d"
    and d': "d' = d\<lparr>cd_board := audit_board u ''constraint.submit'' n ((cd_board d)
       \<lparr>bd_constraints := bd_constraints (cd_board d) @ [new_constraint d n i x y r]\<rparr>)\<rparr>"
  let ?rows = "bd_constraints (cd_board d)"
  have ranges: "\<forall>c \<in> set ?rows. pc_start_date c \<le> pc_end_date c"
    using ok by (simp add: constraints_ok_def ranges_ok_def)
  have "n \<notin> pc_id ` set ?rows" using n by (auto simp: constraint_of_def find_None_iff)
  then have "ranges_ok (bd_constraints (cd_board d'))"
    using ok xy by (auto simp: d' constraints_ok_def ranges_ok_def new_constraint_def)
  moreover have "starting_days (bd_constraints (cd_board d')) j a' b' \<le> max 0 (cap_days_of d)"
    if p: "period_bounds (reset_period_of d) t = (a', b')" for j t a' b'
  proof (cases "j = i \<and> a' \<le> x \<and> x < b'")
    case True
    then have "period_bounds (reset_period_of d) x = (a', b')" using period_iff [OF p] by blast
    then have same: "a' = a" "b' = b" using ab by simp_all
    have "a < b" using period_nonempty [OF ab] by simp
    then have "starting_days ?rows i a b \<le> used_days ?rows i a b" by (rule starting_days_le_used [OF ranges])
    then show ?thesis using cap True by (simp add: d' same starting_days_new)
  next
    case False
    have "starting_days ?rows j a' b' \<le> max 0 (cap_days_of d)"
      using ok p within_capD by (simp add: constraints_ok_def)
    then show ?thesis using False by (auto simp: d' starting_days_new)
  qed
  then have "within_cap d'" by (intro within_capI) (simp add: d')
  ultimately show ?thesis by (simp add: constraints_ok_def)
qed

section \<open>Steps\<close>

inductive constraint_step :: "constraint_db \<Rightarrow> constraint_db \<Rightarrow> bool" where
  con_submit: "submit_constraint d n today i x y r u = Inr d' \<Longrightarrow> constraint_of d n = None
    \<Longrightarrow> constraint_step d d'"
| con_approve: "approve_constraint d i u nt role = Inr d' \<Longrightarrow> constraint_step d d'"
| con_reject: "reject_constraint d i u nt = Inr d' \<Longrightarrow> constraint_step d d'"
| con_cancel: "cancel_constraint d i u reason = Inr d' \<Longrightarrow> constraint_step d d'"
| con_other: "bd_constraints (cd_board d') = bd_constraints (cd_board d) \<Longrightarrow> cd_settings d' = cd_settings d
    \<Longrightarrow> constraint_step d d'"

inductive_cases constraint_stepE: "constraint_step d d'"

definition no_constraints :: "constraint_db \<Rightarrow> bool" where
  "no_constraints d \<longleftrightarrow> bd_constraints (cd_board d) = []"

text \<open>A constraint that was refused, or approved and then cancelled.\<close>

definition closed_constraint :: "uuid \<times> constraint_status \<Rightarrow> constraint_db \<Rightarrow> bool" where
  "closed_constraint k d \<longleftrightarrow> snd k \<in> {Rejected_constraint, Cancelled_constraint}
     \<and> map_option pc_status (constraint_of d (fst k)) = Some (snd k)"

lemma constraint_of_write:
  assumes "\<And>c. pc_id (f c) = pc_id c"
  shows "constraint_of (write_constraint i f u t d) k = map_option (\<lambda>c. if k = i then f c else c) (constraint_of d k)"
proof -
  have "find (\<lambda>c. pc_id c = k) (map (\<lambda>c. if pc_id c = i then f c else c) rows)
    = map_option (\<lambda>c. if k = i then f c else c) (find (\<lambda>c. pc_id c = k) rows)" for rows
    using assms by (induction rows) auto
  then show ?thesis by (simp add: constraint_of_def write_constraint_def)
qed

lemma approveE:
  assumes "approve_constraint d i u nt role = Inr d'"
  obtains c where "constraint_of d i = Some c" "pc_status c = Pending_commander"
    "d' = approve_commander_step d i u nt"
  | c where "constraint_of d i = Some c" "pc_status c = Pending_duty_manager"
    "acting_role d u role \<in> {Some Duty_manager, Some Admin}" "\<not> unresolved_enrollment d (pc_soldier_id c)"
    "d' = approve_duty_manager_step d i u nt"
  using assms by (auto simp: approve_constraint_def pending_def split: option.splits if_split_asm)

lemma constraint_step_ok:
  assumes "constraint_step d d'" "constraints_ok d"
  shows "constraints_ok d'"
  using assms
proof (induction rule: constraint_step.induct)
  case (con_submit d n today i x y r u d')
  then show ?case using submit_ok by blast
next
  case (con_approve d i u nt role d')
  show ?case using con_approve(1)
  proof (cases rule: approveE)
    case (1 c)
    then show ?thesis unfolding approve_commander_step_def
      by (simp, intro write_constraint_ok [OF con_approve(2) 1(1)]) (simp_all add: counts_def)
  next
    case (2 c)
    then show ?thesis unfolding approve_duty_manager_step_def
      by (simp, intro write_constraint_ok [OF con_approve(2) 2(1)]) (simp_all add: counts_def)
  qed
next
  case (con_reject d i u nt d')
  then obtain c where "constraint_of d i = Some c" "d' = write_constraint i (\<lambda>c. c\<lparr>pc_status := Rejected_constraint,
      pc_decided_by := u, pc_decision_note := Some nt\<rparr>) u ''constraint.reject'' d"
    by (auto simp: reject_constraint_def split: option.splits if_split_asm)
  then show ?case using con_reject(2) by (simp, intro write_constraint_ok) (simp_all add: counts_def)
next
  case (con_cancel d i u reason d')
  then consider "d' = d\<lparr>cd_board := audit_board u ''constraint.cancel'' i ((cd_board d)
        \<lparr>bd_constraints := filter (\<lambda>x. pc_id x \<noteq> i) (bd_constraints (cd_board d))\<rparr>)\<rparr>"
    | c where "constraint_of d i = Some c" "d' = write_constraint i (\<lambda>c. c\<lparr>pc_status := Cancelled_constraint,
        pc_decided_by := u, pc_decision_note := Some (strip (the reason))\<rparr>) u ''constraint.cancel'' d"
    by (auto simp: cancel_constraint_def split: option.splits if_split_asm)
  then show ?case
  proof cases
    case 1
    then show ?thesis using drop_constraint_ok [OF con_cancel(2)] by simp
  next
    case (2 c)
    then show ?thesis using con_cancel(2) by (simp, intro write_constraint_ok) (simp_all add: counts_def)
  qed
next
  case (con_other d' d)
  then show ?case
    by (simp add: constraints_ok_def within_cap_def reset_period_of_def cap_days_of_def)
qed

end
