(* ===== verification/ConstraintsReach.thy ===== *)
theory ConstraintsReach
  imports ConstraintsSound OrgReach
begin

text \<open>
  Personal constraints as a state machine, and its properties.  Between two operations the
  rest of the database may change as it likes; the settings of the constraints stay.
\<close>

lemma fresh_row:
  assumes "submit_constraint d n today i x y r u = Inr d'" "constraint_of d k = Some c"
  shows "constraint_of d' k = Some c"
  using assms(1) by (rule submitE) (use assms(2) in \<open>simp add: constraint_of_def find_append\<close>)

lemma write_closed:
  assumes "closed_constraint k d" "constraint_of d i = Some c" "pc_status c \<notin> {Rejected_constraint, Cancelled_constraint}"
    and "\<And>c. pc_id (f c) = pc_id c"
  shows "closed_constraint k (write_constraint i f u t d)"
proof -
  have "fst k \<noteq> i" using assms(1-3) by (auto simp: closed_constraint_def)
  then have "constraint_of (write_constraint i f u t d) (fst k) = constraint_of d (fst k)"
    using assms(4) by (simp add: constraint_of_write map_option_case split: option.split)
  then show ?thesis using assms(1) by (simp add: closed_constraint_def)
qed

lemma constraint_of_drop:
  "constraint_of (d\<lparr>cd_board := audit_board u t i ((cd_board d)
      \<lparr>bd_constraints := filter (\<lambda>x. pc_id x \<noteq> i) (bd_constraints (cd_board d))\<rparr>)\<rparr>) j
    = (if j = i then None else constraint_of d j)"
proof -
  have "find (\<lambda>c. pc_id c = j) (filter (\<lambda>x. pc_id x \<noteq> i) rows)
    = (if j = i then None else find (\<lambda>c. pc_id c = j) rows)" for rows :: "PersonalConstraint list"
    by (induction rows) auto
  then show ?thesis by (simp add: constraint_of_def)
qed

lemma constraint_step_closed:
  assumes "constraint_step d d'" "closed_constraint k d"
  shows "closed_constraint k d'"
  using assms
proof (induction rule: constraint_step.induct)
  case (con_submit d n today i x y r u d')
  then show ?case using fresh_row by (auto simp: closed_constraint_def)
next
  case (con_approve d i u nt role d')
  show ?case using con_approve(1)
    by (cases rule: approveE) (simp_all add: approve_commander_step_def approve_duty_manager_step_def
        write_closed [OF con_approve(2)])
next
  case (con_reject d i u nt d')
  then show ?case
    by (auto simp: reject_constraint_def pending_def intro!: write_closed split: option.splits if_split_asm)
next
  case (con_cancel d i u reason d')
  obtain c where c: "constraint_of d i = Some c" using con_cancel(1) by (auto simp: cancel_constraint_def split: option.splits)
  show ?case
  proof (cases "pending c")
    case True
    then have "fst k \<noteq> i" using con_cancel(2) c by (auto simp: closed_constraint_def pending_def)
    then show ?thesis using con_cancel True c
      by (auto simp: cancel_constraint_def closed_constraint_def constraint_of_drop)
  next
    case False
    then have "d' = write_constraint i (\<lambda>c. c\<lparr>pc_status := Cancelled_constraint, pc_decided_by := u,
        pc_decision_note := Some (strip (the reason))\<rparr>) u ''constraint.cancel'' d" "pc_status c = Approved_constraint"
      using con_cancel(1) c by (auto simp: cancel_constraint_def split: if_split_asm)
    then show ?thesis using write_closed [OF con_cancel(2) c] by simp
  qed
qed (simp add: closed_constraint_def constraint_of_def)

interpretation constraints: settling_system no_constraints constraint_step constraints_ok closed_constraint
proof
  fix d assume "no_constraints d"
  then show "constraints_ok d"
    by (simp add: no_constraints_def constraints_ok_def ranges_ok_def within_cap_def)
qed (use constraint_step_ok constraint_step_closed in blast)+

section \<open>Properties\<close>

text \<open>
  The reset periods tile the calendar.  Whatever the setting, the period computed for a
  day contains it, and a day lies in that period exactly when the same period is computed for
  it: no day is in two periods or in none.
\<close>

theorem periods_tile:
  "case period_bounds reset_period t of (a, b) \<Rightarrow> a \<le> t \<and> t < b
     \<and> (a \<le> u \<and> u < b \<longleftrightarrow> period_bounds reset_period u = (a, b))"
  using period_iff [of reset_period t] by (auto split: prod.split)

text \<open>
  C19. The cap holds.  In every state the operations of \<open>constraints.py\<close> reach, for every
  soldier and every period, the days of his pending and approved constraints that start in
  the period, as far as they lie in it, are within the cap.
\<close>

theorem cap_kept:
  assumes "reachable no_constraints constraint_step d"
    and "period_bounds (reset_period_of d) t = (a, b)" "0 \<le> cap_days_of d"
  shows "starting_days (bd_constraints (cd_board d)) soldier_id a b \<le> cap_days_of d"
  using constraints.reachable_good [OF assms(1)] assms(2,3) within_capD [of d]
  by (fastforce simp: constraints_ok_def)

definition sample_db0 :: constraint_db where
  "sample_db0 = \<lparr>cd_board = sample_board, cd_org = sample_org, cd_enrollments = [],
     cd_settings = \<lparr>cs_require_commander = None, cs_require_dm = None, cs_reset_period = None,
       cs_cap_days = Some 5\<rparr>\<rparr>"

definition sample_db1 :: constraint_db where
  "sample_db1 = sample_db0\<lparr>cd_board := audit_board (Some 4) ''constraint.submit'' 80
     (sample_board\<lparr>bd_constraints := [new_constraint sample_db0 80 4 700000 700003 ''exam'']\<rparr>)\<rparr>"

lemma sample_period: "period_bounds ''quarter'' 700000 = (699986, 700078)"
  by code_simp

lemma sample_submit: "submit_constraint sample_db0 80 699990 4 700000 700003 ''exam'' (Some 4) = Inr sample_db1"
  by (simp add: submit_constraint_def remaining_days_def reset_period_of_def sample_db0_def sample_db1_def
      default_def sample_period soldier_of_def sample_board_def sample_private_def span_too_long_def
      MAX_REQUEST_SPAN_DAYS_def cap_days_of_def used_days_def)

lemma sample_db_reachable: "reachable no_constraints constraint_step sample_db1"
proof (rule reachable_step)
  show "reachable no_constraints constraint_step sample_db0"
    by (rule reachable_start) (simp add: no_constraints_def sample_db0_def sample_board_def)
  show "constraint_step sample_db0 sample_db1"
    by (rule con_submit [OF sample_submit]) (simp add: constraint_of_def sample_db0_def sample_board_def)
qed

lemma cap_kept_witness: "starting_days (bd_constraints (cd_board sample_db1)) 4 699986 700078 \<le> cap_days_of sample_db1"
  by (rule cap_kept [OF sample_db_reachable, of 700000])
    (simp_all add: reset_period_of_def cap_days_of_def sample_db1_def sample_db0_def default_def sample_period)

text \<open>
  C20. A refusal for the cap is exact.  For a submission that is otherwise in order, in a
  reachable state, the cap is the reason of a refusal exactly when the days of his counting
  constraints in the period of its first day, together with its own in that period, are more
  than the cap.
\<close>

theorem submit_refused_exactly:
  assumes "reachable no_constraints constraint_step d" "soldier_of (cd_board d) soldier_id \<noteq> None"
    and "today \<le> x" "x \<le> y" "y - x \<le> 364" "period_bounds (reset_period_of d) x = (a, b)"
  shows "submit_constraint d n today soldier_id x y r u = Inl Cap_exceeded
    \<longleftrightarrow> (\<Sum>c \<leftarrow> filter (\<lambda>c. pc_soldier_id c = soldier_id \<and> counts c) (bd_constraints (cd_board d)).
            int (card (days_asked c \<inter> {a..<b}))) + int (card ({x..y} \<inter> {a..<b})) > cap_days_of d"
proof -
  have "\<forall>c \<in> set (bd_constraints (cd_board d)). pc_start_date c \<le> pc_end_date c"
    using constraints.reachable_good [OF assms(1)] by (simp add: constraints_ok_def ranges_ok_def)
  then show ?thesis using assms(2-6) period_nonempty [OF assms(6)]
    by (simp add: submit_constraint_def remaining_days_def span_too_long_def MAX_REQUEST_SPAN_DAYS_def Let_def
        used_days_card [symmetric] clipped_card)
qed

lemma submit_refused_exactly_witness:
  "submit_constraint sample_db1 81 699990 4 700000 700003 ''trip'' (Some 4) = Inl Cap_exceeded
    \<longleftrightarrow> (\<Sum>c \<leftarrow> filter (\<lambda>c. pc_soldier_id c = 4 \<and> counts c) (bd_constraints (cd_board sample_db1)).
            int (card (days_asked c \<inter> {699986..<700078}))) + int (card ({700000..700003} \<inter> {699986..<700078 :: int}))
          > cap_days_of sample_db1"
proof (rule submit_refused_exactly [OF sample_db_reachable])
  show "soldier_of (cd_board sample_db1) 4 \<noteq> None"
    by (simp add: sample_db1_def soldier_of_def audit_board_def sample_board_def sample_private_def)
  show "period_bounds (reset_period_of sample_db1) 700000 = (699986, 700078)"
    by (simp add: reset_period_of_def sample_db1_def sample_db0_def default_def sample_period)
qed simp_all

text \<open>
  C21. Who approves.  While the approval of a duty manager is required, a constraint becomes
  approved only by an approval of the second step: it was waiting for the duty manager, the
  one who acts is a duty manager or an admin, and the soldier's enrollment is settled.
\<close>

theorem approval_needs_manager:
  assumes "constraint_step d d'" "require_dm d"
    and "map_option pc_status (constraint_of d i) \<noteq> Some Approved_constraint"
    and "constraint_of d' i = Some c'" "pc_status c' = Approved_constraint"
  shows "\<exists>c u nt role. constraint_of d i = Some c \<and> pc_status c = Pending_duty_manager
    \<and> approve_constraint d i u nt role = Inr d'
    \<and> acting_role d u role \<in> {Some Duty_manager, Some Admin} \<and> \<not> unresolved_enrollment d (pc_soldier_id c)"
  using assms
proof (induction rule: constraint_step.induct)
  case (con_submit d n today k x y r u d')
  have "constraint_of d' i = (if constraint_of d i = None then find (\<lambda>c. pc_id c = i) [new_constraint d n k x y r]
      else constraint_of d i)"
    using con_submit(1) by (rule submitE) (auto simp: constraint_of_def find_append split: option.split)
  then show ?case using con_submit(3-6)
    by (auto simp: new_constraint_def initial_status_def split: if_split_asm option.splits)
next
  case (con_approve d k u nt role d')
  show ?case using con_approve(1)
  proof (cases rule: approveE)
    case (1 c)
    then have "constraint_of d' i = map_option (\<lambda>c. if i = k
        then c\<lparr>pc_commander_approved_by := u, pc_commander_note := nt, pc_status := Pending_duty_manager\<rparr> else c)
        (constraint_of d i)"
      using con_approve(2) by (simp add: approve_commander_step_def constraint_of_write)
    then show ?thesis using con_approve(3-5) by (cases "constraint_of d i") (auto split: if_split_asm)
  next
    case (2 c)
    then have "constraint_of d' i = map_option (\<lambda>c. if i = k then c\<lparr>pc_status := Approved_constraint,
        pc_decided_by := u, pc_decision_note := nt\<rparr> else c) (constraint_of d i)"
      by (simp add: approve_duty_manager_step_def constraint_of_write)
    then have "i = k" using con_approve(3-5) by (cases "constraint_of d i") (auto split: if_split_asm)
    then show ?thesis using 2 con_approve(1) by blast
  qed
next
  case (con_reject d k u nt d')
  then show ?case
    by (auto simp: reject_constraint_def constraint_of_write split: option.splits if_split_asm)
next
  case (con_cancel d k u reason d')
  then show ?case
    by (auto simp: cancel_constraint_def constraint_of_write constraint_of_drop split: option.splits if_split_asm)
next
  case (con_other d' d)
  then show ?case by (simp add: constraint_of_def)
qed

definition sample_db2 :: constraint_db where
  "sample_db2 = projr (approve_constraint sample_db1 80 (Some 5) None None)"

definition sample_db3 :: constraint_db where
  "sample_db3 = projr (approve_constraint sample_db2 80 (Some 4) None (Some Admin))"

lemma sample_decisions:
  "approve_constraint sample_db1 80 (Some 5) None None = Inr sample_db2"
  "approve_constraint sample_db2 80 (Some 4) None (Some Admin) = Inr sample_db3"
proof -
  have "\<not> isl (approve_constraint sample_db1 80 (Some 5) None None)"
    "\<not> isl (approve_constraint sample_db2 80 (Some 4) None (Some Admin))" by code_simp+
  then show "approve_constraint sample_db1 80 (Some 5) None None = Inr sample_db2"
    "approve_constraint sample_db2 80 (Some 4) None (Some Admin) = Inr sample_db3"
    by (auto simp: sample_db2_def sample_db3_def isl_def split: sum.splits)
qed

lemma approval_needs_manager_witness:
  "\<exists>c u nt role. constraint_of sample_db2 80 = Some c \<and> pc_status c = Pending_duty_manager
    \<and> approve_constraint sample_db2 80 u nt role = Inr sample_db3
    \<and> acting_role sample_db2 u role \<in> {Some Duty_manager, Some Admin}
    \<and> \<not> unresolved_enrollment sample_db2 (pc_soldier_id c)"
proof -
  have "map_option pc_status (constraint_of sample_db3 80) = Some Approved_constraint" by code_simp
  then obtain c' where c': "constraint_of sample_db3 80 = Some c'" "pc_status c' = Approved_constraint" by blast
  show ?thesis
  proof (rule approval_needs_manager [OF con_approve [OF sample_decisions(2)] _ _ c'])
    show "require_dm sample_db2" by code_simp
    show "map_option pc_status (constraint_of sample_db2 80) \<noteq> Some Approved_constraint" by code_simp
  qed
qed

text \<open>
  Closed is closed.  A constraint that was refused, or approved and then cancelled, keeps
  that status whatever is done later.
\<close>

theorem closed_constraint_final:
  assumes "reachable no_constraints constraint_step d" "constraint_step\<^sup>*\<^sup>* d d'"
    and "constraint_of d i = Some c" "pc_status c \<in> {Rejected_constraint, Cancelled_constraint}"
  shows "map_option pc_status (constraint_of d' i) = Some (pc_status c)"
proof -
  have "closed_constraint (i, pc_status c) d'"
    by (rule constraints.steps_settled [OF assms(2) constraints.reachable_good [OF assms(1)]])
      (use assms(3,4) in \<open>simp add: closed_constraint_def\<close>)
  then show ?thesis by (simp add: closed_constraint_def)
qed

definition sample_db4 :: constraint_db where
  "sample_db4 = projr (reject_constraint sample_db2 80 (Some 5) ''no'')"

lemma sample_rejected: "reachable no_constraints constraint_step sample_db4"
proof -
  have "\<not> isl (reject_constraint sample_db2 80 (Some 5) ''no'')" by code_simp
  then have "reject_constraint sample_db2 80 (Some 5) ''no'' = Inr sample_db4"
    by (auto simp: sample_db4_def isl_def split: sum.splits)
  then show ?thesis
    using reachable_step [OF reachable_step [OF sample_db_reachable con_approve [OF sample_decisions(1)]] con_reject]
    by blast
qed

lemma closed_constraint_final_witness:
  "map_option pc_status (constraint_of (sample_db4\<lparr>cd_enrollments := []\<rparr>) 80) = Some Rejected_constraint"
proof -
  have "map_option pc_status (constraint_of sample_db4 80) = Some Rejected_constraint" by code_simp
  then obtain c where c: "constraint_of sample_db4 80 = Some c" "pc_status c = Rejected_constraint" by blast
  have "constraint_step\<^sup>*\<^sup>* sample_db4 (sample_db4\<lparr>cd_enrollments := []\<rparr>)"
    by (rule r_into_rtranclp) (rule con_other, simp_all)
  then show ?thesis using closed_constraint_final [OF sample_rejected _ c(1)] c(2) by simp
qed

text \<open>
  What the cap does not see.  The check looks only at the period of the first day: a constraint
  that runs over its end takes days of the next period that nobody counted.
\<close>

lemma next_period_unchecked:
  "used_days [new_constraint sample_db0 80 4 700077 700090 ''trip''] 4 699986 700078 = 1"
  "used_days [new_constraint sample_db0 80 4 700077 700090 ''trip''] 4 700078 700170 = 13"
  "cap_days_of sample_db0 = 5"
  by (simp_all add: used_days_def new_constraint_def counts_def initial_status_def require_commander_def
      sample_db0_def default_def constraint_overlap_def cap_days_of_def)

end
