(* ===== verification/Exemptions.thy ===== *)
theory Exemptions
  imports Constraints
begin

text \<open>
  Exemptions: \<open>services/exemptions.py\<close>, \<open>services/exemption_requests.py\<close> and the decisions of
  \<open>services/enrollment.py\<close>.  An exemption is granted by a duty manager, by a commander (for
  types of their own), or by a request that a commander and then a duty manager approve; it
  keeps a soldier off the duty types of its type, which the booking checks of the duty board
  read.  \<open>today\<close> is \<open>date.today()\<close>, \<open>now\<close> the moment of a revocation; row locks, notifications
  and score projections are left out.
\<close>

section \<open>State\<close>

datatype request_status = Request_pending_commander | Request_pending_duty_manager | Request_approved
  | Request_rejected | Request_expired

record ExemptionRequest =
  xr_id :: uuid
  xr_soldier_id :: uuid
  xr_type_id :: uuid
  xr_start_date :: "date option"
  xr_end_date :: "date option"
  xr_reason :: "string option"
  xr_enrollment_request_id :: "uuid option"
  xr_linked_exemption_id :: "uuid option"
  xr_status :: request_status
  xr_decided_by :: "uuid option"
  xr_commander_approved_by :: "uuid option"
  xr_commander_note :: "string option"
  xr_decision_note :: "string option"

record exemption_db =
  xd_board :: board
  xd_requests :: "ExemptionRequest list"
  xd_enrollments :: "SoldierEnrollmentRequest list"

datatype exemption_error = Exemption_soldier_not_found | Exemption_type_not_found
  | Commander_exemption_requires_endpoint | Not_commander_exemption_type | Exemption_bad_range
  | Exemption_not_found | Request_reason_required | Start_date_required | Request_too_long
  | Commander_exemption_not_requestable | Official_type_required | Commander_type_required
  | Exemption_request_not_found | Request_not_pending_commander | Request_not_pending_duty_manager
  | Request_not_pending | Enrollment_request_not_found | Already_decided | Soldier_key_violation

definition exemption_type_of :: "exemption_db \<Rightarrow> uuid \<Rightarrow> ExemptionType option" where
  "exemption_type_of d i = find (\<lambda>t. et_id t = i) (bd_exemption_types (xd_board d))"

definition exemption_of :: "exemption_db \<Rightarrow> uuid \<Rightarrow> SoldierExemption option" where
  "exemption_of d i = find (\<lambda>e. ex_id e = i) (bd_exemptions (xd_board d))"

definition exemption_request_of :: "exemption_db \<Rightarrow> uuid \<Rightarrow> ExemptionRequest option" where
  "exemption_request_of d i = find (\<lambda>r. xr_id r = i) (xd_requests d)"

definition update_exemption_request :: "uuid \<Rightarrow> (ExemptionRequest \<Rightarrow> ExemptionRequest) \<Rightarrow> exemption_db \<Rightarrow> exemption_db" where
  "update_exemption_request i f d = d\<lparr>xd_requests := map (\<lambda>r. if xr_id r = i then f r else r) (xd_requests d)\<rparr>"

definition backwards :: "date \<Rightarrow> date option \<Rightarrow> bool" where
  "backwards start_date end_date = (case end_date of None \<Rightarrow> False | Some e \<Rightarrow> e < start_date)"

definition open_exemption_request :: "ExemptionRequest \<Rightarrow> bool" where
  "open_exemption_request r \<longleftrightarrow> xr_status r \<in> {Request_pending_commander, Request_pending_duty_manager}"

section \<open>Grants and revocation\<close>

definition add_exemption :: "SoldierExemption \<Rightarrow> exemption_db \<Rightarrow> exemption_db" where
  "add_exemption e d = d\<lparr>xd_board := (xd_board d)\<lparr>bd_exemptions := bd_exemptions (xd_board d) @ [e]\<rparr>\<rparr>"

definition audit_exemption :: "uuid option \<Rightarrow> string \<Rightarrow> uuid \<Rightarrow> exemption_db \<Rightarrow> exemption_db" where
  "audit_exemption actor_id action i d = d\<lparr>xd_board := audit_board actor_id action i (xd_board d)\<rparr>"

definition new_exemption :: "uuid \<Rightarrow> uuid \<Rightarrow> uuid \<Rightarrow> date \<Rightarrow> date option \<Rightarrow> bool \<Rightarrow> string option \<Rightarrow> uuid option
    \<Rightarrow> SoldierExemption" where
  "new_exemption new_id soldier_id type_id start_date end_date is_medical reason granted_by =
     \<lparr>ex_id = new_id, ex_soldier_id = soldier_id, ex_type_id = type_id, ex_start_date = start_date,
      ex_end_date = end_date, ex_is_medical = is_medical, ex_reason = reason, ex_granted_by = granted_by,
      ex_revoked_at = None, ex_revoked_by = None, ex_revoke_reason = None\<rparr>"

definition grant_exemption :: "exemption_db \<Rightarrow> uuid \<Rightarrow> uuid \<Rightarrow> uuid \<Rightarrow> date \<Rightarrow> date option \<Rightarrow> string option
    \<Rightarrow> bool \<Rightarrow> uuid option \<Rightarrow> exemption_error + exemption_db" where
  "grant_exemption d new_id soldier_id type_id start_date end_date reason is_medical actor_id =
     (if soldier_of (xd_board d) soldier_id = None then Inl Exemption_soldier_not_found
      else (case exemption_type_of d type_id of None \<Rightarrow> Inl Exemption_type_not_found
        | Some et \<Rightarrow>
            if et_is_commander_exemption et then Inl Commander_exemption_requires_endpoint
            else if backwards start_date end_date then Inl Exemption_bad_range
            else Inr (audit_exemption actor_id ''exemption.grant'' new_id
              (add_exemption (new_exemption new_id soldier_id type_id start_date end_date is_medical reason actor_id) d))))"

definition grant_commander_exemption :: "exemption_db \<Rightarrow> uuid \<Rightarrow> uuid \<Rightarrow> uuid \<Rightarrow> date \<Rightarrow> date option
    \<Rightarrow> string option \<Rightarrow> uuid option \<Rightarrow> exemption_error + exemption_db" where
  "grant_commander_exemption d new_id soldier_id type_id start_date end_date reason actor_id =
     (case exemption_type_of d type_id of None \<Rightarrow> Inl Exemption_type_not_found
      | Some et \<Rightarrow>
          if \<not> et_is_commander_exemption et then Inl Not_commander_exemption_type
          else if soldier_of (xd_board d) soldier_id = None then Inl Exemption_soldier_not_found
          else if backwards start_date end_date then Inl Exemption_bad_range
          else Inr (audit_exemption actor_id ''exemption.grant_commander'' new_id
            (add_exemption (new_exemption new_id soldier_id type_id start_date end_date (et_is_medical et) reason
               actor_id) d)))"

definition revoked :: "date \<Rightarrow> moment \<Rightarrow> uuid \<Rightarrow> string \<Rightarrow> SoldierExemption \<Rightarrow> SoldierExemption" where
  "revoked today now actor_id reason e =
     e\<lparr>ex_end_date := (if ex_start_date e \<le> today then Some today else ex_end_date e),
       ex_revoked_at := Some now, ex_revoked_by := Some actor_id, ex_revoke_reason := Some reason\<rparr>"

definition revoke_exemption :: "exemption_db \<Rightarrow> date \<Rightarrow> moment \<Rightarrow> uuid \<Rightarrow> string \<Rightarrow> uuid
    \<Rightarrow> exemption_error + exemption_db" where
  "revoke_exemption d today now i reason actor_id =
     (case exemption_of d i of None \<Rightarrow> Inl Exemption_not_found
      | Some e \<Rightarrow>
          if (case ex_end_date e of None \<Rightarrow> False | Some x \<Rightarrow> x < today) then Inr d
          else Inr (audit_exemption (Some actor_id) ''exemption.revoke'' i
            (d\<lparr>xd_board := (xd_board d)\<lparr>bd_exemptions :=
               map (\<lambda>e. if ex_id e = i then revoked today now actor_id reason e else e)
                 (bd_exemptions (xd_board d))\<rparr>\<rparr>)))"

definition active_exemptions :: "exemption_db \<Rightarrow> uuid \<Rightarrow> date \<Rightarrow> SoldierExemption list" where
  "active_exemptions d soldier_id on_date =
     filter (\<lambda>e. ex_soldier_id e = soldier_id \<and> ex_start_date e \<le> on_date
        \<and> (case ex_end_date e of None \<Rightarrow> True | Some x \<Rightarrow> x \<ge> on_date)) (bd_exemptions (xd_board d))"

section \<open>Enrollment\<close>

definition enrollment_of :: "exemption_db \<Rightarrow> uuid \<Rightarrow> SoldierEnrollmentRequest option" where
  "enrollment_of d i = find (\<lambda>r. er_id r = i) (xd_enrollments d)"

definition update_enrollment :: "uuid \<Rightarrow> (SoldierEnrollmentRequest \<Rightarrow> SoldierEnrollmentRequest)
    \<Rightarrow> exemption_db \<Rightarrow> exemption_db" where
  "update_enrollment i f d = d\<lparr>xd_enrollments := map (\<lambda>r. if er_id r = i then f r else r) (xd_enrollments d)\<rparr>"

definition place_soldier :: "uuid \<Rightarrow> uuid \<Rightarrow> exemption_db \<Rightarrow> exemption_db" where
  "place_soldier i node_id d = d\<lparr>xd_board := (xd_board d)\<lparr>bd_soldiers :=
     map (\<lambda>s. if so_id s = i then s\<lparr>so_hierarchy_node_id := Some node_id\<rparr> else s) (bd_soldiers (xd_board d))\<rparr>\<rparr>"

definition try_activate :: "exemption_db \<Rightarrow> uuid \<Rightarrow> exemption_error + exemption_db" where
  "try_activate d i =
     (case enrollment_of d i of None \<Rightarrow> Inr d
      | Some req \<Rightarrow>
          if er_status req \<noteq> ''commander_approved'' then Inr d
          else if soldier_of (xd_board d) (er_soldier_id req) = None then Inl Exemption_soldier_not_found
          else Inr (update_enrollment i (\<lambda>r. r\<lparr>er_status := ''approved''\<rparr>)
                 (place_soldier (er_soldier_id req) (er_requested_node_id req) d)))"

definition approve_enrollment :: "exemption_db \<Rightarrow> uuid \<Rightarrow> uuid \<Rightarrow> string option \<Rightarrow> exemption_error + exemption_db" where
  "approve_enrollment d i decider_id decision_note =
     (case enrollment_of d i of None \<Rightarrow> Inl Enrollment_request_not_found
      | Some req \<Rightarrow>
          if er_status req \<noteq> ''pending'' then Inl Already_decided
          else try_activate (audit_exemption (Some decider_id) ''enrollment.approve'' i
            (update_enrollment i (\<lambda>r. r\<lparr>er_status := ''commander_approved'', er_decided_by := Some decider_id,
               er_decision_note := decision_note\<rparr>) d)) i)"

definition reject_enrollment :: "exemption_db \<Rightarrow> uuid \<Rightarrow> uuid \<Rightarrow> string \<Rightarrow> exemption_error + exemption_db" where
  "reject_enrollment d i decider_id decision_note =
     (case enrollment_of d i of None \<Rightarrow> Inl Enrollment_request_not_found
      | Some req \<Rightarrow>
          if er_status req \<noteq> ''pending'' then Inl Already_decided
          else Inr (audit_exemption (Some decider_id) ''enrollment.reject'' i
            (update_enrollment i (\<lambda>r. r\<lparr>er_status := ''rejected'', er_decided_by := Some decider_id,
               er_decision_note := Some decision_note\<rparr>) d)))"

section \<open>Requests\<close>

definition new_exemption_request :: "uuid \<Rightarrow> uuid \<Rightarrow> uuid \<Rightarrow> date option \<Rightarrow> date option \<Rightarrow> string option \<Rightarrow> uuid option
    \<Rightarrow> ExemptionRequest" where
  "new_exemption_request new_id soldier_id type_id start_date end_date reason enrollment_id =
     \<lparr>xr_id = new_id, xr_soldier_id = soldier_id, xr_type_id = type_id, xr_start_date = start_date,
      xr_end_date = end_date, xr_reason = reason, xr_enrollment_request_id = enrollment_id,
      xr_linked_exemption_id = None, xr_status = Request_pending_commander, xr_decided_by = None,
      xr_commander_approved_by = None, xr_commander_note = None, xr_decision_note = None\<rparr>"

definition add_request :: "ExemptionRequest \<Rightarrow> exemption_db \<Rightarrow> exemption_db" where
  "add_request r d = d\<lparr>xd_requests := xd_requests d @ [r]\<rparr>"

definition submit_request :: "exemption_db \<Rightarrow> uuid \<Rightarrow> uuid \<Rightarrow> uuid \<Rightarrow> date option \<Rightarrow> date option
    \<Rightarrow> string option \<Rightarrow> exemption_error + exemption_db" where
  "submit_request d new_id soldier_id type_id start_date end_date reason =
     (if \<not> given reason then Inl Request_reason_required
      else if end_date \<noteq> None \<and> start_date = None then Inl Start_date_required
      else if (case start_date of None \<Rightarrow> False | Some s \<Rightarrow> backwards s end_date) then Inl Exemption_bad_range
      else if (case start_date of None \<Rightarrow> False | Some s \<Rightarrow> span_too_long s end_date) then Inl Request_too_long
      else (case exemption_type_of d type_id of None \<Rightarrow> Inl Exemption_type_not_found
        | Some et \<Rightarrow>
            if et_is_commander_exemption et then Inl Commander_exemption_not_requestable
            else if soldier_of (xd_board d) soldier_id = None then Inl Soldier_key_violation
            else Inr (add_request (new_exemption_request new_id soldier_id type_id start_date end_date reason None) d)))"

text \<open>The requests of \<open>registration.py\<close>, which come with an enrollment and are checked there.\<close>

definition register_request :: "exemption_db \<Rightarrow> uuid \<Rightarrow> uuid \<Rightarrow> uuid \<Rightarrow> date option \<Rightarrow> date option
    \<Rightarrow> string option \<Rightarrow> uuid \<Rightarrow> exemption_error + exemption_db" where
  "register_request d new_id soldier_id type_id start_date end_date reason enrollment_id =
     (if end_date \<noteq> None \<and> start_date = None then Inl Start_date_required
      else (case exemption_type_of d type_id of None \<Rightarrow> Inl Exemption_type_not_found
        | Some et \<Rightarrow>
            if et_is_commander_exemption et then Inl Commander_exemption_not_requestable
            else if (case start_date of None \<Rightarrow> False | Some s \<Rightarrow> backwards s end_date) then Inl Exemption_bad_range
            else Inr (add_request (new_exemption_request new_id soldier_id type_id start_date end_date reason
                   (Some enrollment_id)) d)))"

definition submit_commander_escalation :: "exemption_db \<Rightarrow> uuid \<Rightarrow> uuid \<Rightarrow> uuid \<Rightarrow> uuid \<Rightarrow> date \<Rightarrow> date option
    \<Rightarrow> string option \<Rightarrow> bool \<Rightarrow> uuid \<Rightarrow> uuid option \<Rightarrow> exemption_error + exemption_db" where
  "submit_commander_escalation d new_id new_exemption_id soldier_id official_type_id start_date end_date reason
      apply_immediately actor_id commander_type_id =
     (case exemption_type_of d official_type_id of None \<Rightarrow> Inl Exemption_type_not_found
      | Some et \<Rightarrow>
          if et_is_commander_exemption et then Inl Official_type_required
          else if apply_immediately \<and> commander_type_id = None then Inl Commander_type_required
          else if backwards start_date end_date then Inl Exemption_bad_range
          else if span_too_long start_date end_date then Inl Request_too_long
          else
            (case (if apply_immediately
                   then grant_commander_exemption d new_exemption_id soldier_id (the commander_type_id) start_date
                          end_date reason (Some actor_id)
                   else if soldier_of (xd_board d) soldier_id = None then Inl Soldier_key_violation
                   else Inr d) of
               Inl e \<Rightarrow> Inl e
             | Inr d' \<Rightarrow> Inr (add_request
                 ((new_exemption_request new_id soldier_id official_type_id (Some start_date) end_date reason None)
                    \<lparr>xr_status := Request_pending_duty_manager, xr_commander_approved_by := Some actor_id,
                     xr_linked_exemption_id := (if apply_immediately then Some new_exemption_id else None)\<rparr>) d')))"

definition approve_request_commander :: "exemption_db \<Rightarrow> uuid \<Rightarrow> uuid \<Rightarrow> string option
    \<Rightarrow> exemption_error + exemption_db" where
  "approve_request_commander d i approved_by decision_note =
     (case exemption_request_of d i of None \<Rightarrow> Inl Exemption_request_not_found
      | Some req \<Rightarrow>
          if xr_status req \<noteq> Request_pending_commander then Inl Request_not_pending_commander
          else Inr (update_exemption_request i (\<lambda>r. r\<lparr>xr_status := Request_pending_duty_manager,
                 xr_commander_approved_by := Some approved_by, xr_commander_note := decision_note\<rparr>) d))"

definition activate_enrollment :: "uuid option \<Rightarrow> exemption_db \<Rightarrow> exemption_error + exemption_db" where
  "activate_enrollment enrollment_id d = (case enrollment_id of None \<Rightarrow> Inr d | Some i \<Rightarrow> try_activate d i)"

definition approve_request_manager :: "exemption_db \<Rightarrow> uuid \<Rightarrow> date \<Rightarrow> uuid \<Rightarrow> uuid \<Rightarrow> string option
    \<Rightarrow> exemption_error + exemption_db" where
  "approve_request_manager d new_id today i decided_by decision_note =
     (case exemption_request_of d i of None \<Rightarrow> Inl Exemption_request_not_found
      | Some req \<Rightarrow>
          if xr_status req \<noteq> Request_pending_duty_manager then Inl Request_not_pending_duty_manager
          else
            (let start_date = default (xr_start_date req) today
             in activate_enrollment (xr_enrollment_request_id req)
                  (add_exemption (new_exemption new_id (xr_soldier_id req) (xr_type_id req) start_date
                      (xr_end_date req) False (xr_reason req) (Some decided_by))
                    (update_exemption_request i (\<lambda>r. r\<lparr>xr_status := Request_approved, xr_decided_by := Some decided_by,
                       xr_decision_note := decision_note, xr_start_date := Some start_date\<rparr>) d))))"

definition reject_exemption_request :: "exemption_db \<Rightarrow> uuid \<Rightarrow> uuid \<Rightarrow> string option \<Rightarrow> exemption_error + exemption_db" where
  "reject_exemption_request d i decided_by decision_note =
     (case exemption_request_of d i of None \<Rightarrow> Inl Exemption_request_not_found
      | Some req \<Rightarrow>
          if \<not> open_exemption_request req then Inl Request_not_pending
          else activate_enrollment (xr_enrollment_request_id req)
            (update_exemption_request i (\<lambda>r. r\<lparr>xr_status := Request_rejected, xr_decided_by := Some decided_by,
               xr_decision_note := decision_note\<rparr>) d))"

definition EXPIRY_NOTE :: string where
  "EXPIRY_NOTE = hebrew [4, 26, 0, 24, 9, 10] @ '' '' @ hebrew [25, 4, 5, 2, 3, 24] @ '' ''
     @ hebrew [12, 1, 23, 25, 4] @ '' '' @ hebrew [18, 1, 24]"

definition stale :: "date \<Rightarrow> ExemptionRequest \<Rightarrow> bool" where
  "stale today r \<longleftrightarrow> open_exemption_request r \<and> (case xr_end_date r of None \<Rightarrow> False | Some e \<Rightarrow> e < today)"

text \<open>
  The worker selects the stale requests and then takes each row, in the order of the ids, and
  looks again whether it is open.
\<close>

definition expire_request :: "uuid \<Rightarrow> exemption_db \<Rightarrow> exemption_db" where
  "expire_request i d =
     (case exemption_request_of d i of None \<Rightarrow> d
      | Some req \<Rightarrow> if \<not> open_exemption_request req then d
          else update_exemption_request i (\<lambda>r. r\<lparr>xr_status := Request_expired, xr_decision_note := Some EXPIRY_NOTE\<rparr>) d)"

definition expire_stale_exemption_requests :: "exemption_db \<Rightarrow> date \<Rightarrow> exemption_db" where
  "expire_stale_exemption_requests d today =
     fold expire_request (sort (map xr_id (filter (stale today) (xd_requests d)))) d"

end
