(* ===== verification/ExemptionsSound.thy ===== *)
theory ExemptionsSound
  imports Exemptions
begin

text \<open>
  What the operations on exemptions keep: ranges that do not run backwards, a commander and
  a duty manager behind every approval, an exemption behind every approved request, and the
  decisions that were taken.
\<close>

section \<open>The invariant\<close>

definition exemption_ok :: "SoldierExemption \<Rightarrow> bool" where
  "exemption_ok e \<longleftrightarrow> \<not> backwards (ex_start_date e) (ex_end_date e)"

text \<open>An exemption that a request was granted, cut only by a revocation.\<close>

definition grants :: "ExemptionRequest \<Rightarrow> SoldierExemption \<Rightarrow> bool" where
  "grants r e \<longleftrightarrow> ex_soldier_id e = xr_soldier_id r \<and> ex_type_id e = xr_type_id r
     \<and> Some (ex_start_date e) = xr_start_date r \<and> ex_granted_by e = xr_decided_by r
     \<and> (ex_end_date e = xr_end_date r \<or> ex_revoked_at e \<noteq> None)"

definition request_ok :: "SoldierExemption list \<Rightarrow> ExemptionRequest \<Rightarrow> bool" where
  "request_ok es r \<longleftrightarrow>
     (case xr_start_date r of None \<Rightarrow> xr_end_date r = None | Some s \<Rightarrow> \<not> backwards s (xr_end_date r))
     \<and> (xr_status r \<in> {Request_pending_duty_manager, Request_approved} \<longrightarrow> xr_commander_approved_by r \<noteq> None)
     \<and> (xr_status r = Request_approved \<longrightarrow> xr_decided_by r \<noteq> None \<and> list_ex (grants r) es)"

definition exemptions_ok :: "exemption_db \<Rightarrow> bool" where
  "exemptions_ok d \<longleftrightarrow> distinct (map xr_id (xd_requests d)) \<and> distinct (map ex_id (bd_exemptions (xd_board d)))
     \<and> list_all exemption_ok (bd_exemptions (xd_board d))
     \<and> list_all (request_ok (bd_exemptions (xd_board d))) (xd_requests d)"

lemma exemptions_ok_cong:
  "xd_requests d' = xd_requests d \<Longrightarrow> bd_exemptions (xd_board d') = bd_exemptions (xd_board d)
    \<Longrightarrow> exemptions_ok d' = exemptions_ok d"
  by (simp add: exemptions_ok_def)

lemma exemption_rows [simp]:
  "xd_requests (audit_exemption u t i d) = xd_requests d"
  "bd_exemptions (xd_board (audit_exemption u t i d)) = bd_exemptions (xd_board d)"
  "xd_requests (add_exemption e d) = xd_requests d"
  "bd_exemptions (xd_board (add_exemption e d)) = bd_exemptions (xd_board d) @ [e]"
  "xd_requests (add_request r d) = xd_requests d @ [r]" "xd_board (add_request r d) = xd_board d"
  "xd_board (update_exemption_request i f d) = xd_board d"
  "xd_requests (update_enrollment i g d) = xd_requests d" "xd_board (update_enrollment i g d) = xd_board d"
  "xd_requests (place_soldier i n d) = xd_requests d"
  "bd_exemptions (xd_board (place_soldier i n d)) = bd_exemptions (xd_board d)"
  by (simp_all add: audit_exemption_def audit_board_def add_exemption_def add_request_def update_exemption_request_def
      update_enrollment_def place_soldier_def)

lemma request_ok_mono: "request_ok es r \<Longrightarrow> set es \<subseteq> set es' \<Longrightarrow> request_ok es' r"
  by (auto simp: request_ok_def list_ex_iff)

lemma audit_exemptions_ok [simp]: "exemptions_ok (audit_exemption u t i d) = exemptions_ok d"
  by (rule exemptions_ok_cong) simp_all

lemma add_exemption_ok:
  assumes "exemptions_ok d" "exemption_ok e" "exemption_of d (ex_id e) = None"
  shows "exemptions_ok (add_exemption e d)"
proof -
  have "ex_id e \<notin> ex_id ` set (bd_exemptions (xd_board d))"
    using assms(3) by (auto simp: exemption_of_def find_None_iff)
  moreover have "request_ok (bd_exemptions (xd_board d) @ [e]) r" if "request_ok (bd_exemptions (xd_board d)) r" for r
    using that by (rule request_ok_mono) auto
  ultimately show ?thesis using assms(1,2) by (auto simp: exemptions_ok_def list_all_iff)
qed

lemma add_exemption_request_ok:
  "exemptions_ok d \<Longrightarrow> request_ok (bd_exemptions (xd_board d)) r \<Longrightarrow> exemption_request_of d (xr_id r) = None
    \<Longrightarrow> exemptions_ok (add_request r d)"
  by (auto simp: exemptions_ok_def exemption_request_of_def find_None_iff)

lemma update_exemption_request_ok:
  assumes "exemptions_ok d" "exemption_request_of d i = Some r" "request_ok (bd_exemptions (xd_board d)) (f r)"
    and "\<And>r. xr_id (f r) = xr_id r"
  shows "exemptions_ok (update_exemption_request i f d)"
proof -
  have "x = r" if "x \<in> set (xd_requests d)" "xr_id x = i" for x
    using find_distinct [of xr_id "xd_requests d" x] that assms(1,2) by (simp add: exemptions_ok_def exemption_request_of_def)
  then have "list_all (request_ok (bd_exemptions (xd_board d))) (map (\<lambda>r. if xr_id r = i then f r else r) (xd_requests d))"
    using assms(1,3) by (auto simp: exemptions_ok_def list_all_iff)
  moreover have "map xr_id (map (\<lambda>r. if xr_id r = i then f r else r) (xd_requests d)) = map xr_id (xd_requests d)"
    using assms(4) by simp
  ultimately show ?thesis using assms(1) by (simp add: exemptions_ok_def update_exemption_request_def del: map_map)
qed

lemma request_of_ok: "exemptions_ok d \<Longrightarrow> exemption_request_of d i = Some r \<Longrightarrow> request_ok (bd_exemptions (xd_board d)) r"
  by (auto simp: exemptions_ok_def exemption_request_of_def find_Some_iff list_all_iff)

lemma try_activate_rows:
  "try_activate d i = Inr d' \<Longrightarrow> xd_requests d' = xd_requests d \<and> bd_exemptions (xd_board d') = bd_exemptions (xd_board d)"
  by (auto simp: try_activate_def split: option.splits if_split_asm)

lemma activate_enrollment_rows:
  "activate_enrollment x d = Inr d' \<Longrightarrow> xd_requests d' = xd_requests d \<and> bd_exemptions (xd_board d') = bd_exemptions (xd_board d)"
  using try_activate_rows by (auto simp: activate_enrollment_def split: option.splits)

section \<open>Grants and revocation\<close>

lemma new_exemption_simps [simp]:
  "ex_id (new_exemption n s t a b m r g) = n" "ex_soldier_id (new_exemption n s t a b m r g) = s"
  "ex_type_id (new_exemption n s t a b m r g) = t" "ex_start_date (new_exemption n s t a b m r g) = a"
  "ex_end_date (new_exemption n s t a b m r g) = b" "ex_granted_by (new_exemption n s t a b m r g) = g"
  by (simp_all add: new_exemption_def)

lemma grant_commanderE:
  assumes "grant_commander_exemption d n i t a b reason u = Inr d'"
  obtains m where "\<not> backwards a b"
    "d' = audit_exemption u ''exemption.grant_commander'' n (add_exemption (new_exemption n i t a b m reason u) d)"
  using assms by (auto simp: grant_commander_exemption_def split: option.splits if_split_asm)

lemma grant_ok:
  "exemptions_ok d \<Longrightarrow> exemption_of d n = None \<Longrightarrow> grant_exemption d n i t a b reason m u = Inr d' \<Longrightarrow> exemptions_ok d'"
  by (auto simp: grant_exemption_def exemption_ok_def intro!: add_exemption_ok split: option.splits if_split_asm)

lemma grant_commander_ok:
  "exemptions_ok d \<Longrightarrow> exemption_of d n = None \<Longrightarrow> grant_commander_exemption d n i t a b reason u = Inr d'
    \<Longrightarrow> exemptions_ok d'"
  by (erule grant_commanderE) (auto simp: exemption_ok_def intro!: add_exemption_ok)

lemma revoked_ok: "exemption_ok e \<Longrightarrow> exemption_ok (revoked today now u reason e)"
  by (simp add: exemption_ok_def revoked_def backwards_def)

lemma grants_revoked: "grants r e \<Longrightarrow> grants r (revoked today now u reason e)"
  by (simp add: grants_def revoked_def)

lemma revoke_ok:
  assumes "exemptions_ok d" "revoke_exemption d today now i reason u = Inr d'"
  shows "exemptions_ok d'"
proof -
  let ?f = "\<lambda>e. if ex_id e = i then revoked today now u reason e else e"
  let ?es = "bd_exemptions (xd_board d)"
  have "list_ex (grants r) (map ?f ?es)" if r: "list_ex (grants r) ?es" for r
  proof -
    obtain e where e: "e \<in> set ?es" "grants r e" using r by (auto simp: list_ex_iff)
    then have "grants r (?f e)" "?f e \<in> set (map ?f ?es)" using grants_revoked by simp_all
    then show ?thesis unfolding list_ex_iff by blast
  qed
  then have "request_ok (map ?f ?es) r" if "request_ok ?es r" for r
    using that by (auto simp: request_ok_def)
  then have "list_all (request_ok (map ?f ?es)) (xd_requests d)"
    using assms(1) by (auto simp: exemptions_ok_def list_all_iff)
  moreover have "map ex_id (map ?f ?es) = map ex_id ?es" by (simp add: revoked_def)
  moreover have "list_all exemption_ok (map ?f ?es)"
    using assms(1) revoked_ok by (auto simp: exemptions_ok_def list_all_iff)
  ultimately have "exemptions_ok (d\<lparr>xd_board := (xd_board d)\<lparr>bd_exemptions := map ?f ?es\<rparr>\<rparr>)"
    using assms(1) by (simp add: exemptions_ok_def del: map_map list.pred_map)
  then show ?thesis using assms
    by (auto simp: revoke_exemption_def split: option.splits if_split_asm)
qed

section \<open>Requests\<close>

lemma new_request_ok:
  "(case a of None \<Rightarrow> b = None | Some s \<Rightarrow> \<not> backwards s b) \<Longrightarrow> request_ok es (new_exemption_request n i t a b reason x)"
  by (simp add: request_ok_def new_exemption_request_def split: option.splits)

lemma new_request_id [simp]: "xr_id (new_exemption_request n i t a b reason x) = n"
  by (simp add: new_exemption_request_def)

lemma submit_request_ok:
  "exemptions_ok d \<Longrightarrow> exemption_request_of d n = None \<Longrightarrow> submit_request d n i t a b reason = Inr d' \<Longrightarrow> exemptions_ok d'"
  by (auto simp: submit_request_def intro!: add_exemption_request_ok new_request_ok split: option.splits if_split_asm)

lemma register_request_ok:
  "exemptions_ok d \<Longrightarrow> exemption_request_of d n = None \<Longrightarrow> register_request d n i t a b reason x = Inr d' \<Longrightarrow> exemptions_ok d'"
  by (auto simp: register_request_def intro!: add_exemption_request_ok new_request_ok split: option.splits if_split_asm)

lemma escalateE:
  assumes "submit_commander_escalation d n e i t a b reason now u ct = Inr d'"
  obtains d1 linked where "\<not> backwards a b"
    "d1 = d \<or> (\<exists>ct. grant_commander_exemption d e i ct a b reason (Some u) = Inr d1)"
    "d' = add_request ((new_exemption_request n i t (Some a) b reason None)\<lparr>xr_status := Request_pending_duty_manager,
       xr_commander_approved_by := Some u, xr_linked_exemption_id := linked\<rparr>) d1"
  using assms by (auto simp: submit_commander_escalation_def split: option.splits if_split_asm sum.splits)

lemma escalate_ok:
  assumes "exemptions_ok d" "exemption_request_of d n = None" "exemption_of d e = None"
    and "submit_commander_escalation d n e i t a b reason now u ct = Inr d'"
  shows "exemptions_ok d'"
  using assms(4)
proof (rule escalateE)
  fix d1 linked assume r: "\<not> backwards a b" "d1 = d \<or> (\<exists>ct. grant_commander_exemption d e i ct a b reason (Some u) = Inr d1)"
    and d': "d' = add_request ((new_exemption_request n i t (Some a) b reason None)\<lparr>xr_status := Request_pending_duty_manager,
       xr_commander_approved_by := Some u, xr_linked_exemption_id := linked\<rparr>) d1"
  have "exemptions_ok d1 \<and> xd_requests d1 = xd_requests d"
    using r(2) assms(1,3) grant_commander_ok by (auto elim: grant_commanderE)
  then show ?thesis using r(1) assms(2) unfolding d'
    by (intro add_exemption_request_ok) (simp_all add: request_ok_def new_exemption_request_def exemption_request_of_def)
qed

lemma approve_request_commander_ok:
  assumes "exemptions_ok d" "approve_request_commander d i u note = Inr d'"
  shows "exemptions_ok d'"
proof -
  obtain r where r: "exemption_request_of d i = Some r" using assms(2) by (auto simp: approve_request_commander_def split: option.splits)
  let ?f = "\<lambda>r. r\<lparr>xr_status := Request_pending_duty_manager, xr_commander_approved_by := Some u,
    xr_commander_note := note\<rparr>"
  have "d' = update_exemption_request i ?f d" using assms(2) r by (auto simp: approve_request_commander_def split: if_split_asm)
  moreover have "request_ok (bd_exemptions (xd_board d)) (?f r)"
    using request_of_ok [OF assms(1) r] by (simp add: request_ok_def split: option.splits)
  ultimately show ?thesis using update_exemption_request_ok [OF assms(1) r, of ?f] by simp
qed

lemma approve_request_managerE:
  assumes "approve_request_manager d n today i u note = Inr d'"
  obtains r where "exemption_request_of d i = Some r" "xr_status r = Request_pending_duty_manager"
    "xd_requests d' = xd_requests (update_exemption_request i (\<lambda>r'. r'\<lparr>xr_status := Request_approved, xr_decided_by := Some u,
       xr_decision_note := note, xr_start_date := Some (default (xr_start_date r) today)\<rparr>) d)"
    "bd_exemptions (xd_board d') = bd_exemptions (xd_board d) @ [new_exemption n (xr_soldier_id r) (xr_type_id r)
       (default (xr_start_date r) today) (xr_end_date r) False (xr_reason r) (Some u)]"
  using assms
  by (auto simp: approve_request_manager_def Let_def split: option.splits if_split_asm dest!: activate_enrollment_rows)

lemma approve_request_manager_ok:
  assumes "exemptions_ok d" "exemption_of d n = None" "approve_request_manager d n today i u note = Inr d'"
  shows "exemptions_ok d'"
  using assms(3)
proof (rule approve_request_managerE)
  fix r assume r: "exemption_request_of d i = Some r" "xr_status r = Request_pending_duty_manager"
  let ?start = "default (xr_start_date r) today"
  let ?e = "new_exemption n (xr_soldier_id r) (xr_type_id r) ?start (xr_end_date r) False (xr_reason r) (Some u)"
  let ?f = "\<lambda>r'. r'\<lparr>xr_status := Request_approved, xr_decided_by := Some u, xr_decision_note := note,
    xr_start_date := Some ?start\<rparr>"
  assume rows: "xd_requests d' = xd_requests (update_exemption_request i ?f d)"
    "bd_exemptions (xd_board d') = bd_exemptions (xd_board d) @ [?e]"
  have ok: "request_ok (bd_exemptions (xd_board d)) r" by (rule request_of_ok [OF assms(1) r(1)])
  then have range: "\<not> backwards ?start (xr_end_date r)"
    by (auto simp: request_ok_def default_def backwards_def split: option.splits)
  have d1: "exemptions_ok (add_exemption ?e d)"
    by (rule add_exemption_ok) (use assms(1,2) range in \<open>simp_all add: exemption_ok_def\<close>)
  have "grants (?f r) ?e" by (simp add: grants_def)
  then have "request_ok (bd_exemptions (xd_board (add_exemption ?e d))) (?f r)"
    using ok r(2) range by (simp add: request_ok_def)
  then have "exemptions_ok (update_exemption_request i ?f (add_exemption ?e d))"
    using r(1) by (intro update_exemption_request_ok [OF d1]) (simp_all add: exemption_request_of_def)
  then show ?thesis
    by (subst exemptions_ok_cong) (simp_all add: rows update_exemption_request_def)
qed

lemma reject_request_ok:
  assumes "exemptions_ok d" "reject_exemption_request d i u note = Inr d'"
  shows "exemptions_ok d'"
proof -
  let ?f = "\<lambda>r. r\<lparr>xr_status := Request_rejected, xr_decided_by := Some u, xr_decision_note := note\<rparr>"
  obtain r where r: "exemption_request_of d i = Some r" using assms(2) by (auto simp: reject_exemption_request_def split: option.splits)
  have "exemptions_ok (update_exemption_request i ?f d)"
    using request_of_ok [OF assms(1) r] by (intro update_exemption_request_ok [OF assms(1) r]) (simp_all add: request_ok_def split: option.splits)
  moreover have "xd_requests d' = xd_requests (update_exemption_request i ?f d)"
    "bd_exemptions (xd_board d') = bd_exemptions (xd_board (update_exemption_request i ?f d))"
    using assms(2) r by (auto simp: reject_exemption_request_def split: if_split_asm dest!: activate_enrollment_rows)
  ultimately show ?thesis using exemptions_ok_cong by blast
qed

lemma expire_request_ok: "exemptions_ok d \<Longrightarrow> exemptions_ok (expire_request i d)"
  using request_of_ok [of d i]
  by (auto simp: expire_request_def request_ok_def intro!: update_exemption_request_ok split: option.split)

lemma expire_ok: "exemptions_ok d \<Longrightarrow> exemptions_ok (expire_stale_exemption_requests d today)"
proof -
  have "exemptions_ok d \<Longrightarrow> exemptions_ok (fold expire_request is d)" for "is"
    by (induction "is" arbitrary: d) (simp_all add: expire_request_ok)
  then show "exemptions_ok d \<Longrightarrow> exemptions_ok (expire_stale_exemption_requests d today)"
    by (simp add: expire_stale_exemption_requests_def)
qed

end
