(* ===== verification/ExemptionsReach.thy ===== *)
theory ExemptionsReach
  imports ExemptionsSound ConstraintsReach
begin

text \<open>
  Exemptions and their requests as a state machine, and its properties.  Ids of new rows are
  fresh.  Between two operations the rest of the database may change as it likes.
\<close>

section \<open>The operations as steps\<close>

inductive exemption_step :: "exemption_db \<Rightarrow> exemption_db \<Rightarrow> bool" where
  ex_grant: "grant_exemption d n i t a b reason m u = Inr d' \<Longrightarrow> exemption_of d n = None \<Longrightarrow> exemption_step d d'"
| ex_grant_commander: "grant_commander_exemption d n i t a b reason u = Inr d' \<Longrightarrow> exemption_of d n = None
    \<Longrightarrow> exemption_step d d'"
| ex_revoke: "revoke_exemption d today now i reason u = Inr d' \<Longrightarrow> exemption_step d d'"
| ex_submit: "submit_request d n i t a b reason = Inr d' \<Longrightarrow> exemption_request_of d n = None \<Longrightarrow> exemption_step d d'"
| ex_register: "register_request d n i t a b reason x = Inr d' \<Longrightarrow> exemption_request_of d n = None
    \<Longrightarrow> exemption_step d d'"
| ex_escalate: "submit_commander_escalation d n e i t a b reason now u ct = Inr d' \<Longrightarrow> exemption_request_of d n = None
    \<Longrightarrow> exemption_of d e = None \<Longrightarrow> exemption_step d d'"
| ex_approve_commander: "approve_request_commander d i u nt = Inr d' \<Longrightarrow> exemption_step d d'"
| ex_approve_manager: "approve_request_manager d n today i u nt = Inr d' \<Longrightarrow> exemption_of d n = None
    \<Longrightarrow> exemption_step d d'"
| ex_reject: "reject_exemption_request d i u nt = Inr d' \<Longrightarrow> exemption_step d d'"
| ex_expire: "exemption_step d (expire_stale_exemption_requests d today)"
| ex_enroll: "approve_enrollment d i u nt = Inr d' \<Longrightarrow> exemption_step d d'"
| ex_refuse_enrollment: "reject_enrollment d i u reason = Inr d' \<Longrightarrow> exemption_step d d'"
| ex_other: "xd_requests d' = xd_requests d \<Longrightarrow> bd_exemptions (xd_board d') = bd_exemptions (xd_board d)
    \<Longrightarrow> exemption_step d d'"

inductive_cases exemption_stepE: "exemption_step d d'"

definition no_exemptions :: "exemption_db \<Rightarrow> bool" where
  "no_exemptions d \<longleftrightarrow> xd_requests d = [] \<and> bd_exemptions (xd_board d) = []"

definition closed_request :: "uuid \<times> request_status \<Rightarrow> exemption_db \<Rightarrow> bool" where
  "closed_request k d \<longleftrightarrow> snd k \<in> {Request_approved, Request_rejected, Request_expired}
     \<and> map_option xr_status (exemption_request_of d (fst k)) = Some (snd k)"

lemma enroll_rows:
  "approve_enrollment d i u nt = Inr d' \<Longrightarrow> xd_requests d' = xd_requests d \<and> bd_exemptions (xd_board d') = bd_exemptions (xd_board d)"
  "reject_enrollment d i u reason = Inr d' \<Longrightarrow> xd_requests d' = xd_requests d \<and> bd_exemptions (xd_board d') = bd_exemptions (xd_board d)"
  by (auto simp: approve_enrollment_def reject_enrollment_def split: option.splits if_split_asm dest!: try_activate_rows)

lemma exemption_step_ok:
  assumes "exemption_step d d'" "exemptions_ok d"
  shows "exemptions_ok d'"
  using assms
proof (induction rule: exemption_step.induct)
  case (ex_other d' d)
  then show ?case using exemptions_ok_cong by blast
next
  case (ex_enroll d i u nt d')
  then show ?case using exemptions_ok_cong enroll_rows(1) by blast
next
  case (ex_refuse_enrollment d i u reason d')
  then show ?case using exemptions_ok_cong enroll_rows(2) by blast
qed (blast intro: grant_ok grant_commander_ok revoke_ok submit_request_ok register_request_ok escalate_ok
    approve_request_commander_ok approve_request_manager_ok reject_request_ok expire_ok)+

section \<open>Decided requests\<close>

lemma exemption_request_of_cong: "xd_requests d' = xd_requests d \<Longrightarrow> exemption_request_of d' k = exemption_request_of d k"
  by (simp add: exemption_request_of_def)

lemma closed_cong: "xd_requests d' = xd_requests d \<Longrightarrow> closed_request k d' = closed_request k d"
  by (simp add: closed_request_def exemption_request_of_def)

lemma exemption_request_of_update:
  assumes "\<And>r. xr_id (f r) = xr_id r"
  shows "exemption_request_of (update_exemption_request i f d) k
    = map_option (\<lambda>r. if k = i then f r else r) (exemption_request_of d k)"
proof -
  have "find (\<lambda>r. xr_id r = k) (map (\<lambda>r. if xr_id r = i then f r else r) rows)
    = map_option (\<lambda>r. if k = i then f r else r) (find (\<lambda>r. xr_id r = k) rows)" for rows
    using assms by (induction rows) auto
  then show ?thesis by (simp add: exemption_request_of_def update_exemption_request_def)
qed

lemma closed_add: "closed_request k d \<Longrightarrow> closed_request k (add_request r d)"
  by (auto simp: closed_request_def exemption_request_of_def find_append split: option.splits)

lemma closed_update:
  assumes "closed_request k d" "exemption_request_of d i = Some r" "open_exemption_request r"
    and "\<And>r. xr_id (f r) = xr_id r"
  shows "closed_request k (update_exemption_request i f d)"
proof -
  have "fst k \<noteq> i" using assms(1-3) by (auto simp: closed_request_def open_exemption_request_def)
  then have "exemption_request_of (update_exemption_request i f d) (fst k) = exemption_request_of d (fst k)"
    using assms(4) by (simp add: exemption_request_of_update map_option_case split: option.split)
  then show ?thesis using assms(1) by (simp add: closed_request_def)
qed

lemma expire_request_closed: "closed_request k d \<Longrightarrow> closed_request k (expire_request i d)"
  by (auto simp: expire_request_def intro!: closed_update split: option.split)

lemma expire_closed: "closed_request k d \<Longrightarrow> closed_request k (expire_stale_exemption_requests d today)"
proof -
  have "closed_request k d \<Longrightarrow> closed_request k (fold expire_request is d)" for "is"
    by (induction "is" arbitrary: d) (simp_all add: expire_request_closed)
  then show "closed_request k d \<Longrightarrow> closed_request k (expire_stale_exemption_requests d today)"
    by (simp add: expire_stale_exemption_requests_def)
qed

lemma grant_requests:
  "grant_exemption d n i t a b reason m u = Inr d' \<Longrightarrow> xd_requests d' = xd_requests d"
  "grant_commander_exemption d n i t a b reason u = Inr d' \<Longrightarrow> xd_requests d' = xd_requests d"
  "revoke_exemption d today now j why v = Inr d' \<Longrightarrow> xd_requests d' = xd_requests d"
  by (auto simp: grant_exemption_def grant_commander_exemption_def revoke_exemption_def split: option.splits if_split_asm)

lemma exemption_step_closed:
  assumes "exemption_step d d'" "closed_request k d"
  shows "closed_request k d'"
  using assms
proof (induction rule: exemption_step.induct)
  case (ex_grant d n i t a b reason m u d')
  then show ?case using closed_cong grant_requests(1) by blast
next
  case (ex_grant_commander d n i t a b reason u d')
  then show ?case using closed_cong grant_requests(2) by blast
next
  case (ex_revoke d today now i reason u d')
  then show ?case using closed_cong grant_requests(3) by blast
next
  case (ex_submit d n i t a b reason d')
  then show ?case by (auto simp: submit_request_def closed_add split: option.splits if_split_asm)
next
  case (ex_register d n i t a b reason x d')
  then show ?case by (auto simp: register_request_def closed_add split: option.splits if_split_asm)
next
  case (ex_escalate d n e i t a b reason now u ct d')
  from ex_escalate(1) show ?case
  proof (rule escalateE)
    fix d1 linked
    assume "d1 = d \<or> (\<exists>ct. grant_commander_exemption d e i ct a b reason (Some u) = Inr d1)"
      and d': "d' = add_request ((new_exemption_request n i t (Some a) b reason None)\<lparr>xr_status := Request_pending_duty_manager,
        xr_commander_approved_by := Some u, xr_linked_exemption_id := linked\<rparr>) d1"
    then have "closed_request k d1" using ex_escalate(4) closed_cong grant_requests(2) by blast
    then show ?thesis unfolding d' by (rule closed_add)
  qed
next
  case (ex_approve_commander d i u nt d')
  then show ?case
    by (auto simp: approve_request_commander_def open_exemption_request_def intro!: closed_update split: option.splits if_split_asm)
next
  case (ex_approve_manager d n today i u nt d')
  from ex_approve_manager(1) show ?case
  proof (rule approve_request_managerE)
    fix r :: ExemptionRequest
    let ?d = "update_exemption_request i (\<lambda>r'. r'\<lparr>xr_status := Request_approved, xr_decided_by := Some u,
       xr_decision_note := nt, xr_start_date := Some (default (xr_start_date r) today)\<rparr>) d"
    assume r: "exemption_request_of d i = Some r" "xr_status r = Request_pending_duty_manager" "xd_requests d' = xd_requests ?d"
    then have "closed_request k ?d"
      using ex_approve_manager(3) by (intro closed_update [OF _ r(1)]) (simp_all add: open_exemption_request_def)
    then show ?thesis using r(3) closed_cong by blast
  qed
next
  case (ex_reject d i u nt d')
  let ?d = "update_exemption_request i (\<lambda>r. r\<lparr>xr_status := Request_rejected, xr_decided_by := Some u,
    xr_decision_note := nt\<rparr>) d"
  obtain r where r: "exemption_request_of d i = Some r" "open_exemption_request r" "xd_requests d' = xd_requests ?d"
    using ex_reject(1) by (auto simp: reject_exemption_request_def split: option.splits if_split_asm dest!: activate_enrollment_rows)
  then have "closed_request k ?d" using ex_reject(2) by (intro closed_update) simp_all
  then show ?case using r(3) closed_cong by blast
next
  case (ex_expire d today)
  then show ?case by (rule expire_closed)
next
  case (ex_enroll d i u nt d')
  then show ?case using closed_cong enroll_rows(1) by blast
next
  case (ex_refuse_enrollment d i u reason d')
  then show ?case using closed_cong enroll_rows(2) by blast
next
  case (ex_other d' d)
  then show ?case using closed_cong by blast
qed

interpretation exemptions: settling_system no_exemptions exemption_step exemptions_ok closed_request
proof
  fix d assume "no_exemptions d"
  then show "exemptions_ok d" by (simp add: no_exemptions_def exemptions_ok_def)
qed (use exemption_step_ok exemption_step_closed in blast)+

section \<open>Revocation and expiry\<close>

lemma filter_map_ids:
  assumes "\<And>x. x \<in> set xs \<Longrightarrow> g (f x) = g x" "\<And>x. x \<in> set xs \<Longrightarrow> P (f x) = (Q x \<and> P x)"
  shows "map g (filter P (map f xs)) = map g (filter Q (filter P xs))"
  using assms by (induction xs) auto

lemma revoked_active:
  assumes "distinct (map ex_id (bd_exemptions (xd_board d)))" "revoke_exemption d today now i reason u = Inr d'"
  shows "map ex_id (active_exemptions d' soldier_id day)
    = map ex_id (filter (\<lambda>e. ex_id e \<noteq> i \<or> today < ex_start_date e \<or> day \<le> today) (active_exemptions d soldier_id day))"
proof -
  let ?past = "\<lambda>e. case ex_end_date e of None \<Rightarrow> False | Some x \<Rightarrow> x < today"
  let ?f = "\<lambda>e. if ex_id e = i then revoked today now u reason e else e"
  let ?Q = "\<lambda>e. ex_id e \<noteq> i \<or> today < ex_start_date e \<or> day \<le> today"
  obtain e where e: "exemption_of d i = Some e" using assms(2) by (auto simp: revoke_exemption_def split: option.splits)
  have only: "x = e" if "x \<in> set (bd_exemptions (xd_board d))" "ex_id x = i" for x
    using find_distinct [of ex_id "bd_exemptions (xd_board d)" x] assms(1) that e by (simp add: exemption_of_def)
  show ?thesis
  proof (cases "?past e")
    case True
    then have "d' = d" using assms(2) e by (auto simp: revoke_exemption_def)
    moreover have "?Q x" if "x \<in> set (active_exemptions d soldier_id day)" for x
      using that only [of x] True by (auto simp: active_exemptions_def split: option.splits)
    ultimately show ?thesis by (simp cong: filter_cong)
  next
    case False
    then have "bd_exemptions (xd_board d') = map ?f (bd_exemptions (xd_board d))"
      using assms(2) e by (auto simp: revoke_exemption_def)
    moreover have "ex_id (?f x) = ex_id x" for x by (simp add: revoked_def)
    ultimately show ?thesis using only False unfolding active_exemptions_def
      by (simp only:, intro filter_map_ids) (auto simp: revoked_def split: option.splits)
  qed
qed

lemma list_ex_map: "list_ex P (map f xs) = list_ex (\<lambda>x. P (f x)) xs"
  by (induction xs) simp_all

text \<open>An exemption revoked before it starts goes on blocking bookings.\<close>

lemma revoked_before_start_blocks:
  assumes "exemptions_ok d" "exemption_of d i = Some e" "today < ex_start_date e"
    and "revoke_exemption d today now i reason u = Inr d'"
  shows "has_blocking_exemption (xd_board d') = has_blocking_exemption (xd_board d)"
proof -
  let ?f = "\<lambda>e. if ex_id e = i then revoked today now u reason e else e"
  have only: "x = e" if "x \<in> set (bd_exemptions (xd_board d))" "ex_id x = i" for x
    using find_distinct [of ex_id "bd_exemptions (xd_board d)" x] assms(1,2) that
    by (simp add: exemption_of_def exemptions_ok_def)
  have same: "active_exemption (?f x) s a b = active_exemption x s a b" "ex_type_id (?f x) = ex_type_id x"
    if "x \<in> set (bd_exemptions (xd_board d))" for x s a b
    using only [OF that] assms(3) by (auto simp: active_exemption_def revoked_def)
  have "d' = d \<or> bd_exemptions (xd_board d') = map ?f (bd_exemptions (xd_board d))
      \<and> bd_exempt_duty_types (xd_board d') = bd_exempt_duty_types (xd_board d)"
    using assms(2,4) by (auto simp: revoke_exemption_def audit_exemption_def audit_board_def split: if_split_asm)
  moreover have "list_ex P (map ?f (bd_exemptions (xd_board d))) = list_ex P (bd_exemptions (xd_board d))"
    if "\<And>x. x \<in> set (bd_exemptions (xd_board d)) \<Longrightarrow> P (?f x) = P x" for P
    using that by (simp only: list_ex_map cong: list_ex_cong)
  ultimately show ?thesis
    using same by (simp only: fun_eq_iff has_blocking_exemption_def) auto
qed

definition expired :: "ExemptionRequest \<Rightarrow> ExemptionRequest" where
  "expired r = r\<lparr>xr_status := Request_expired, xr_decision_note := Some EXPIRY_NOTE\<rparr>"

lemma expire_request_rows:
  assumes "distinct (map xr_id (xd_requests d))"
  shows "xd_requests (expire_request i d)
    = map (\<lambda>r. if xr_id r = i \<and> open_exemption_request r then expired r else r) (xd_requests d)"
proof (cases "exemption_request_of d i")
  case None
  then have "xr_id x \<noteq> i" if "x \<in> set (xd_requests d)" for x
    using that by (auto simp: exemption_request_of_def find_None_iff)
  then show ?thesis using None by (auto simp: expire_request_def intro!: map_idI [symmetric])
next
  case (Some q)
  have "x = q" if "x \<in> set (xd_requests d)" "xr_id x = i" for x
    using find_distinct [of xr_id "xd_requests d" x] assms that Some by (simp add: exemption_request_of_def)
  then show ?thesis using Some
    by (auto simp: expire_request_def update_exemption_request_def expired_def intro!: map_idI [symmetric])
qed

lemma expire_requests_rows:
  "distinct (map xr_id (xd_requests d)) \<Longrightarrow> xd_requests (fold expire_request ids d)
    = map (\<lambda>r. if xr_id r \<in> set ids \<and> open_exemption_request r then expired r else r) (xd_requests d)"
proof (induction ids arbitrary: d)
  case (Cons i ids)
  let ?g = "\<lambda>r. if xr_id r = i \<and> open_exemption_request r then expired r else r"
  have "map xr_id (map ?g (xd_requests d)) = map xr_id (xd_requests d)" by (simp add: expired_def)
  then have "distinct (map xr_id (xd_requests (expire_request i d)))"
    using Cons.prems by (simp only: expire_request_rows)
  then show ?case using Cons.IH [of "expire_request i d"] expire_request_rows [OF Cons.prems]
    by (auto simp: expired_def open_exemption_request_def)
qed simp

text \<open>The worker expires exactly the stale requests, all of them.\<close>

lemma expire_exact:
  assumes "exemptions_ok d"
  shows "xd_requests (expire_stale_exemption_requests d today)
    = map (\<lambda>r. if stale today r then expired r else r) (xd_requests d)"
proof -
  have "x = y" if "x \<in> set (xd_requests d)" "y \<in> set (xd_requests d)" "xr_id x = xr_id y" for x y
    using assms that by (simp add: exemptions_ok_def distinct_map inj_on_def)
  then have "xr_id r \<in> xr_id ` {x \<in> set (xd_requests d). stale today x} \<longleftrightarrow> stale today r" if "r \<in> set (xd_requests d)" for r
    using that by blast
  then show ?thesis using assms
    by (auto simp: expire_stale_exemption_requests_def expire_requests_rows exemptions_ok_def stale_def)
qed

section \<open>Properties\<close>

text \<open>
  A sample life of a request: submitted, approved by the commander and by the duty manager,
  and its exemption revoked.
\<close>

definition sample_ex0 :: exemption_db where
  "sample_ex0 = \<lparr>xd_board = sample_board\<lparr>bd_exemption_types := [\<lparr>et_id = 70, et_is_global = False,
       et_is_medical = False, et_is_commander_exemption = False\<rparr>], bd_exempt_duty_types := [(70, 31)]\<rparr>,
     xd_requests = [], xd_enrollments = []\<rparr>"

definition sample_ask :: ExemptionRequest where
  "sample_ask = new_exemption_request 90 4 70 (Some 700000) (Some 700010) (Some ''knee'') None"

definition sample_ex1 :: exemption_db where
  "sample_ex1 = sample_ex0\<lparr>xd_requests := [sample_ask]\<rparr>"

definition sample_ex2 :: exemption_db where
  "sample_ex2 = sample_ex0\<lparr>xd_requests := [sample_ask\<lparr>xr_status := Request_pending_duty_manager,
     xr_commander_approved_by := Some 9\<rparr>]\<rparr>"

definition sample_approved :: ExemptionRequest where
  "sample_approved = sample_ask\<lparr>xr_status := Request_approved, xr_commander_approved_by := Some 9,
     xr_decided_by := Some 8\<rparr>"

definition sample_ex3 :: exemption_db where
  "sample_ex3 = add_exemption (new_exemption 91 4 70 700000 (Some 700010) False (Some ''knee'') (Some 8))
     (sample_ex0\<lparr>xd_requests := [sample_approved]\<rparr>)"

definition sample_ex4 :: exemption_db where
  "sample_ex4 = (case revoke_exemption sample_ex3 700004 0 91 ''healed'' 8 of Inl _ \<Rightarrow> sample_ex3 | Inr d \<Rightarrow> d)"

lemma sample_ex_steps:
  "submit_request sample_ex0 90 4 70 (Some 700000) (Some 700010) (Some ''knee'') = Inr sample_ex1"
  "approve_request_commander sample_ex1 90 9 None = Inr sample_ex2"
  "approve_request_manager sample_ex2 91 699999 90 8 None = Inr sample_ex3"
  "revoke_exemption sample_ex3 700004 0 91 ''healed'' 8 = Inr sample_ex4"
  by (simp_all add: strip_def is_space_def submit_request_def approve_request_commander_def approve_request_manager_def
      activate_enrollment_def revoke_exemption_def sample_ex0_def sample_ex1_def sample_ex2_def sample_ex3_def sample_ex4_def
      sample_ask_def sample_approved_def new_exemption_request_def new_exemption_def add_request_def add_exemption_def
      update_exemption_request_def exemption_request_of_def exemption_type_of_def exemption_of_def soldier_of_def
      sample_board_def sample_private_def backwards_def span_too_long_def MAX_REQUEST_SPAN_DAYS_def given_def
      default_def)

lemma sample_ex3_reachable: "reachable no_exemptions exemption_step sample_ex3"
proof (rule reachable_step)
  show "reachable no_exemptions exemption_step sample_ex2"
  proof (rule reachable_step)
    show "reachable no_exemptions exemption_step sample_ex1"
    proof (rule reachable_step)
      show "reachable no_exemptions exemption_step sample_ex0"
        by (rule reachable_start) (simp add: no_exemptions_def sample_ex0_def sample_board_def)
      show "exemption_step sample_ex0 sample_ex1"
        by (rule ex_submit [OF sample_ex_steps(1)]) (simp add: exemption_request_of_def sample_ex0_def)
    qed
    show "exemption_step sample_ex1 sample_ex2" by (rule ex_approve_commander [OF sample_ex_steps(2)])
  qed
  show "exemption_step sample_ex2 sample_ex3"
    by (rule ex_approve_manager [OF sample_ex_steps(3)]) (simp add: exemption_of_def sample_ex2_def sample_ex0_def sample_board_def)
qed

lemma sample_ex3_request: "exemption_request_of sample_ex3 90 = Some sample_approved"
  by (simp add: exemption_request_of_def sample_ex3_def sample_approved_def sample_ask_def new_exemption_request_def)

text \<open>
  C25. The rows of the two tables are in order.  In every reachable state the ids are keys, no
  exemption ends before it starts, and a request with an end has a start that is not after
  it.
\<close>

theorem exemption_rows_sound:
  assumes "reachable no_exemptions exemption_step d"
  shows "distinct (map ex_id (bd_exemptions (xd_board d))) \<and> distinct (map xr_id (xd_requests d))
    \<and> list_all (\<lambda>e. case ex_end_date e of None \<Rightarrow> True | Some x \<Rightarrow> ex_start_date e \<le> x) (bd_exemptions (xd_board d))
    \<and> list_all (\<lambda>r. case xr_end_date r of None \<Rightarrow> True
        | Some x \<Rightarrow> (case xr_start_date r of None \<Rightarrow> False | Some s \<Rightarrow> s \<le> x)) (xd_requests d)"
  using exemptions.reachable_good [OF assms]
  by (auto simp: exemptions_ok_def list_all_iff exemption_ok_def request_ok_def backwards_def not_less
      split: option.splits)

lemma exemption_rows_sound_witness:
  "reachable no_exemptions exemption_step sample_ex3 \<and> distinct (map ex_id (bd_exemptions (xd_board sample_ex3)))"
  using exemption_rows_sound [OF sample_ex3_reachable] sample_ex3_reachable by simp

text \<open>
  C22. Every approval is carried out.  In every reachable state an approved request names the
  commander and the duty manager who approved it, and the soldier holds an exemption of the
  requested type from the start of the request, granted by that duty manager, to its end
  unless it was revoked.
\<close>

theorem approved_has_grant:
  assumes "reachable no_exemptions exemption_step d" "exemption_request_of d i = Some r"
    and "xr_status r = Request_approved"
  shows "xr_commander_approved_by r \<noteq> None \<and> xr_decided_by r \<noteq> None
    \<and> list_ex (\<lambda>e. ex_soldier_id e = xr_soldier_id r \<and> ex_type_id e = xr_type_id r
        \<and> Some (ex_start_date e) = xr_start_date r \<and> ex_granted_by e = xr_decided_by r
        \<and> (if ex_revoked_at e = None then ex_end_date e = xr_end_date r else True)) (bd_exemptions (xd_board d))"
  using request_of_ok [OF exemptions.reachable_good [OF assms(1)] assms(2)] assms(3)
  by (auto simp: request_ok_def grants_def list_ex_iff)

lemma approved_has_grant_witness:
  "xr_commander_approved_by sample_approved \<noteq> None \<and> xr_decided_by sample_approved \<noteq> None"
  using approved_has_grant [OF sample_ex3_reachable sample_ex3_request] by (simp add: sample_approved_def)

text \<open>
  C23. A decision on a request is final.  Once a request is approved, rejected or expired, no later
  operation of any kind changes its status or removes it.
\<close>

theorem exemption_decision_final:
  assumes "reachable no_exemptions exemption_step d" "exemption_step\<^sup>*\<^sup>* d d'"
    and "exemption_request_of d i = Some r" "\<not> open_exemption_request r"
  shows "\<exists>r'. exemption_request_of d' i = Some r' \<and> xr_status r' = xr_status r"
proof -
  have "xr_status r \<in> {Request_approved, Request_rejected, Request_expired}"
    using assms(4) by (cases "xr_status r") (simp_all add: open_exemption_request_def)
  then have "closed_request (i, xr_status r) d'"
    using assms(3) exemptions.steps_settled [OF assms(2) exemptions.reachable_good [OF assms(1)], of "(i, xr_status r)"]
    by (simp add: closed_request_def)
  then show ?thesis by (simp add: closed_request_def)
qed

lemma exemption_decision_final_witness:
  "\<exists>r'. exemption_request_of sample_ex4 90 = Some r' \<and> xr_status r' = Request_approved"
  using exemption_decision_final [OF sample_ex3_reachable r_into_rtranclp [of exemption_step, OF ex_revoke, OF sample_ex_steps(4)]
      sample_ex3_request]
  by (simp add: sample_approved_def open_exemption_request_def)

text \<open>
  C24. What a revocation does.  From the day after it the exemption is no longer among the active
  ones of its soldier, on the days before nothing changes, and an exemption that has not
  started yet stays as it is: \<open>active_exemptions\<close> does not look at \<open>revoked_at\<close>.
\<close>

theorem revoke_exactly:
  assumes "reachable no_exemptions exemption_step d" "revoke_exemption d today now i reason u = Inr d'"
  shows "map ex_id (active_exemptions d' soldier_id day)
    = map ex_id (filter (\<lambda>e. ex_id e \<noteq> i \<or> today < ex_start_date e \<or> day \<le> today) (active_exemptions d soldier_id day))"
proof -
  have keys: "distinct (map ex_id (bd_exemptions (xd_board d)))"
    using exemptions.reachable_good [OF assms(1)] by (simp add: exemptions_ok_def)
  show ?thesis by (rule revoked_active [OF keys assms(2)])
qed

lemma revoke_exactly_witness:
  "map ex_id (active_exemptions sample_ex4 4 700005) = []
    \<and> map ex_id (active_exemptions sample_ex3 4 700005) = [91]
    \<and> map ex_id (active_exemptions sample_ex4 4 700004) = [91]"
proof -
  have "active_exemptions sample_ex3 4 day = (if 700000 \<le> day \<and> day \<le> 700010
      then [new_exemption 91 4 70 700000 (Some 700010) False (Some ''knee'') (Some 8)] else [])" for day
    by (simp add: active_exemptions_def sample_ex3_def sample_ex0_def sample_board_def)
  then show ?thesis using revoke_exactly [OF sample_ex3_reachable sample_ex_steps(4)] by simp
qed

end
