(* ===== verification/CallUps.thy ===== *)
theory CallUps
  imports DutiesReach
begin

text \<open>
  Reserves on call: the operations of \<open>services/reserves.py\<close> that change state, over the rows of
  the duty board, with \<open>build_hierarchy_maps\<close> of \<open>services/algorithm_bridge.py\<close>.  A reserve is
  called up for a range of days, a primary or a reserve is dismissed for one, and every
  primary has at most one link to the reserve that stands in for it.  An assignment that the
  caller has loaded is an argument, as in \<open>assignments.py\<close>; the list of a table has the order in
  which the database returns its rows.  Row locks, notifications, projections and calendar
  exports are left out.
\<close>

section \<open>State\<close>

record DutyReserveLink =
  rk_id :: uuid
  rk_reserve_id :: uuid
  rk_primary_id :: uuid
  rk_distance :: int

record reserve_db =
  rd_board :: board
  rd_nodes :: "HierarchyNode list"
  rd_links :: "DutyReserveLink list"

datatype reserve_error = Not_a_reserve | Not_a_primary | Reserve_date_out_of_range | Reserve_bad_range
  | Overlapping_dismissal | Reserve_not_found

definition audit_reserve :: "uuid option \<Rightarrow> string \<Rightarrow> uuid \<Rightarrow> reserve_db \<Rightarrow> reserve_db" where
  "audit_reserve actor_id action i d = d\<lparr>rd_board := audit_board actor_id action i (rd_board d)\<rparr>"

section \<open>The hierarchy\<close>

definition parent_map :: "HierarchyNode list \<Rightarrow> parents" where
  "parent_map nodes = map (\<lambda>n. (n_id n, n_parent_id n)) nodes"

definition children_map :: "HierarchyNode list \<Rightarrow> (uuid, uuid list) dict" where
  "children_map nodes =
     fold (\<lambda>n m. case n_parent_id n of None \<Rightarrow> m
        | Some p \<Rightarrow> if dict_get m p = None then m else dict_append m p (n_id n))
       nodes (map (\<lambda>n. (n_id n, [])) nodes)"

definition placed_soldiers :: "Soldier list \<Rightarrow> (uuid, uuid) dict" where
  "placed_soldiers soldiers = List.map_filter (\<lambda>s. map_option (Pair (so_id s)) (so_hierarchy_node_id s))
     (filter (\<lambda>s. so_left_at s = None) soldiers)"

definition build_hierarchy_maps :: "HierarchyNode list \<Rightarrow> Soldier list
    \<Rightarrow> parents \<times> (uuid, uuid list) dict \<times> (uuid, uuid) dict \<times> (uuid, uuid list) dict" where
  "build_hierarchy_maps nodes soldiers =
     (parent_map nodes, children_map nodes, placed_soldiers soldiers,
      fold (\<lambda>(sid, nid) m. dict_append m nid sid) (placed_soldiers soldiers) (map (\<lambda>n. (n_id n, [])) nodes))"

text \<open>The two maps the operations use.\<close>

definition parents_of :: "reserve_db \<Rightarrow> parents" where
  "parents_of d = (case build_hierarchy_maps (rd_nodes d) (bd_soldiers (rd_board d)) of (hp, _) \<Rightarrow> hp)"

definition soldier_node_of :: "reserve_db \<Rightarrow> uuid \<Rightarrow> uuid option" where
  "soldier_node_of d i = (case build_hierarchy_maps (rd_nodes d) (bd_soldiers (rd_board d)) of (_, _, m, _) \<Rightarrow> dict_get m i)"

section \<open>Call-ups and dismissals\<close>

definition bad_days :: "DutyAssignment \<Rightarrow> date \<Rightarrow> date \<Rightarrow> reserve_error option" where
  "bad_days a from_date to_date =
     (if from_date < da_start_date a \<or> to_date \<ge> da_end_date a then Some Reserve_date_out_of_range
      else if to_date < from_date then Some Reserve_bad_range
      else None)"

definition call_up_reserve :: "reserve_db \<Rightarrow> DutyAssignment \<Rightarrow> date \<Rightarrow> date \<Rightarrow> uuid option
    \<Rightarrow> reserve_error + reserve_db" where
  "call_up_reserve d a from_date to_date actor_id =
     (if \<not> da_is_reserve a then Inl Not_a_reserve
      else (case bad_days a from_date to_date of Some e \<Rightarrow> Inl e
        | None \<Rightarrow> Inr (audit_reserve actor_id ''reserve.call_up'' (da_id a)
            (d\<lparr>rd_board := update_assignment (da_id a)
               (\<lambda>x. x\<lparr>da_called_up_from := Some from_date, da_called_up_to := Some to_date\<rparr>) (rd_board d)\<rparr>))))"

definition dismissal_overlaps :: "board \<Rightarrow> DutyAssignment \<Rightarrow> date \<Rightarrow> date \<Rightarrow> bool" where
  "dismissal_overlaps s a from_date to_date =
     list_ex (\<lambda>x. di_assignment_id x = da_id a \<and> di_from x \<le> to_date \<and> di_to x \<ge> from_date) (bd_dismissals s)"

definition add_dismissal :: "uuid \<Rightarrow> DutyAssignment \<Rightarrow> date \<Rightarrow> date \<Rightarrow> string option \<Rightarrow> reserve_db \<Rightarrow> reserve_db" where
  "add_dismissal new_id a from_date to_date reason d = d\<lparr>rd_board := (rd_board d)\<lparr>bd_dismissals :=
     bd_dismissals (rd_board d) @ [\<lparr>di_id = new_id, di_assignment_id = da_id a, di_from = from_date,
       di_to = to_date, di_reason = reason\<rparr>]\<rparr>\<rparr>"

definition dismiss_primary :: "reserve_db \<Rightarrow> uuid \<Rightarrow> DutyAssignment \<Rightarrow> date \<Rightarrow> date \<Rightarrow> string option \<Rightarrow> uuid option
    \<Rightarrow> reserve_error + reserve_db" where
  "dismiss_primary d new_id a from_date to_date reason actor_id =
     (if da_is_reserve a then Inl Not_a_primary
      else (case bad_days a from_date to_date of Some e \<Rightarrow> Inl e
        | None \<Rightarrow>
            if dismissal_overlaps (rd_board d) a from_date to_date then Inl Overlapping_dismissal
            else Inr (audit_reserve actor_id ''reserve.dismiss'' new_id (add_dismissal new_id a from_date to_date reason d))))"

definition delete_dismissal :: "reserve_db \<Rightarrow> DutyDismissal \<Rightarrow> uuid option \<Rightarrow> reserve_db" where
  "delete_dismissal d x actor_id =
     d\<lparr>rd_board := (audit_board actor_id ''reserve.dismiss_delete'' (di_id x) (rd_board d))
        \<lparr>bd_dismissals := filter (\<lambda>y. di_id y \<noteq> di_id x) (bd_dismissals (rd_board d))\<rparr>\<rparr>"

section \<open>Links\<close>

definition replace_link :: "uuid \<Rightarrow> uuid \<Rightarrow> uuid \<Rightarrow> int \<Rightarrow> reserve_db \<Rightarrow> reserve_db" where
  "replace_link new_id primary_id reserve_id distance d = d\<lparr>rd_links :=
     filter (\<lambda>l. rk_primary_id l \<noteq> primary_id) (rd_links d)
       @ [\<lparr>rk_id = new_id, rk_reserve_id = reserve_id, rk_primary_id = primary_id, rk_distance = distance\<rparr>]\<rparr>"

definition relink_distance :: "reserve_db \<Rightarrow> DutyAssignment \<Rightarrow> DutyAssignment \<Rightarrow> int" where
  "relink_distance d p r =
     (case (soldier_node_of d (da_soldier_id p), soldier_node_of d (da_soldier_id r)) of
        (Some p_node, Some r_node) \<Rightarrow> hierarchy_distance p_node r_node (parents_of d) | _ \<Rightarrow> 99)"

definition relink_reserve :: "reserve_db \<Rightarrow> uuid \<Rightarrow> DutyAssignment \<Rightarrow> uuid \<Rightarrow> uuid option
    \<Rightarrow> reserve_error + int \<times> reserve_db" where
  "relink_reserve d new_id p reserve_id actor_id =
     (if da_is_reserve p then Inl Not_a_primary
      else (case assignment_of (rd_board d) reserve_id of None \<Rightarrow> Inl Reserve_not_found
        | Some r \<Rightarrow>
            if \<not> da_is_reserve r then Inl Not_a_reserve
            else (let distance = relink_distance d p r
                  in Inr (distance, audit_reserve actor_id ''reserve.relink'' new_id
                       (replace_link new_id (da_id p) reserve_id distance d)))))"

record reallocation =
  ra_primary_id :: uuid
  ra_old_reserve_id :: uuid
  ra_new_reserve_id :: "uuid option"
  ra_distance :: "int option"
  ra_warning :: "string option"

definition called_up_free :: "date \<Rightarrow> date \<Rightarrow> DutyAssignment \<Rightarrow> bool" where
  "called_up_free from_date to_date r =
     (case (da_called_up_from r, da_called_up_to r) of
        (Some x, Some y) \<Rightarrow> \<not> (x \<le> to_date \<and> y \<ge> from_date) | _ \<Rightarrow> True)"

fun best_reserve :: "(uuid \<Rightarrow> uuid option) \<Rightarrow> (uuid \<Rightarrow> int) \<Rightarrow> DutyAssignment list
    \<Rightarrow> DutyAssignment option \<times> int \<Rightarrow> DutyAssignment option \<times> int" where
  "best_reserve node distance_to [] best = best"
| "best_reserve node distance_to (r # rs) best =
     (case node (da_soldier_id r) of None \<Rightarrow> best_reserve node distance_to rs best
      | Some r_node \<Rightarrow> best_reserve node distance_to rs (if distance_to r_node < snd best then (Some r, distance_to r_node) else best))"

definition other_reserves :: "board \<Rightarrow> uuid option \<Rightarrow> uuid \<Rightarrow> DutyAssignment list" where
  "other_reserves s shift_id reserve_id =
     filter (\<lambda>a. da_shift_id a = shift_id \<and> da_is_reserve a \<and> da_id a \<noteq> reserve_id
       \<and> da_status a \<in> {Published, Algorithm_draft}) (bd_assignments s)"

definition reallocate_one :: "uuid \<Rightarrow> (uuid \<Rightarrow> uuid) \<Rightarrow> DutyAssignment list \<Rightarrow> uuid option \<Rightarrow> DutyAssignment
    \<Rightarrow> reallocation list \<times> reserve_db \<Rightarrow> reallocation list \<times> reserve_db" where
  "reallocate_one reserve_id link_ids available actor_id p st =
     (case st of (results, d) \<Rightarrow>
       (case soldier_node_of d (da_soldier_id p) of
          None \<Rightarrow> (results @ [\<lparr>ra_primary_id = da_id p, ra_old_reserve_id = reserve_id, ra_new_reserve_id = None,
                     ra_distance = None, ra_warning = Some ''no_hierarchy_node''\<rparr>], d)
        | Some p_node \<Rightarrow>
           (case best_reserve (soldier_node_of d) (\<lambda>n. hierarchy_distance p_node n (parents_of d)) available (None, 999) of
              (None, _) \<Rightarrow> (results @ [\<lparr>ra_primary_id = da_id p, ra_old_reserve_id = reserve_id,
                 ra_new_reserve_id = None, ra_distance = None, ra_warning = Some ''no_available_reserve''\<rparr>], d)
            | (Some r, best_dist) \<Rightarrow>
                (results @ [\<lparr>ra_primary_id = da_id p, ra_old_reserve_id = reserve_id,
                   ra_new_reserve_id = Some (da_id r), ra_distance = Some best_dist, ra_warning = None\<rparr>],
                 audit_reserve actor_id ''reserve.relink'' (link_ids (da_id p))
                   (replace_link (link_ids (da_id p)) (da_id p) (da_id r) best_dist d)))))"

definition affected_primaries :: "reserve_db \<Rightarrow> uuid option \<Rightarrow> uuid \<Rightarrow> date \<Rightarrow> date \<Rightarrow> DutyAssignment list" where
  "affected_primaries d shift_id reserve_id from_date to_date =
     (let orphan_ids = map rk_primary_id (filter (\<lambda>l. rk_reserve_id l = reserve_id) (rd_links d))
      in sort_key da_id (filter (\<lambda>a. da_id a \<in> set orphan_ids \<and> da_shift_id a = shift_id
           \<and> da_start_date a \<le> to_date \<and> da_end_date a > from_date) (bd_assignments (rd_board d))))"

definition reallocate_orphaned_primaries :: "reserve_db \<Rightarrow> (uuid \<Rightarrow> uuid) \<Rightarrow> uuid option \<Rightarrow> uuid \<Rightarrow> date \<Rightarrow> date
    \<Rightarrow> uuid option \<Rightarrow> reallocation list \<times> reserve_db" where
  "reallocate_orphaned_primaries d link_ids shift_id reserve_id from_date to_date actor_id =
     fold (reallocate_one reserve_id link_ids
         (filter (called_up_free from_date to_date) (other_reserves (rd_board d) shift_id reserve_id)) actor_id)
       (affected_primaries d shift_id reserve_id from_date to_date) ([], d)"

text \<open>The relinks to a reserve that the caller names; the first refusal rolls back everything.\<close>

fun relink_all :: "uuid \<Rightarrow> (uuid \<Rightarrow> uuid) \<Rightarrow> uuid \<Rightarrow> uuid option \<Rightarrow> DutyReserveLink list
    \<Rightarrow> reallocation list \<times> reserve_db \<Rightarrow> reserve_error + reallocation list \<times> reserve_db" where
  "relink_all old_id link_ids covering_id actor_id [] st = Inr st"
| "relink_all old_id link_ids covering_id actor_id (l # ls) (results, d) =
     (case assignment_of (rd_board d) (rk_primary_id l) of
        None \<Rightarrow> relink_all old_id link_ids covering_id actor_id ls (results, d)
      | Some p \<Rightarrow>
          (case relink_reserve d (link_ids (da_id p)) p covering_id actor_id of
             Inl e \<Rightarrow> Inl e
           | Inr (distance, d') \<Rightarrow> relink_all old_id link_ids covering_id actor_id ls
               (results @ [\<lparr>ra_primary_id = da_id p, ra_old_reserve_id = old_id,
                  ra_new_reserve_id = Some covering_id, ra_distance = Some distance, ra_warning = None\<rparr>], d')))"

definition dismiss_reserve :: "reserve_db \<Rightarrow> uuid \<Rightarrow> (uuid \<Rightarrow> uuid) \<Rightarrow> DutyAssignment \<Rightarrow> date \<Rightarrow> date
    \<Rightarrow> string option \<Rightarrow> uuid option \<Rightarrow> uuid option \<Rightarrow> reserve_error + reallocation list \<times> reserve_db" where
  "dismiss_reserve d new_id link_ids a from_date to_date reason actor_id covering_reserve_id =
     (if \<not> da_is_reserve a then Inl Not_a_reserve
      else (case bad_days a from_date to_date of Some e \<Rightarrow> Inl e
        | None \<Rightarrow>
            if dismissal_overlaps (rd_board d) a from_date to_date then Inl Overlapping_dismissal
            else
              (let d1 = audit_reserve actor_id ''reserve.dismiss_reserve'' new_id
                     (add_dismissal new_id a from_date to_date reason d)
               in case covering_reserve_id of
                    Some covering_id \<Rightarrow> relink_all (da_id a) link_ids covering_id actor_id
                      (sort_key rk_primary_id (filter (\<lambda>l. rk_reserve_id l = da_id a) (rd_links d1))) ([], d1)
                  | None \<Rightarrow> Inr (reallocate_orphaned_primaries d1 link_ids (da_shift_id a) (da_id a)
                      from_date to_date actor_id))))"

section \<open>Candidates\<close>

record reserve_candidate =
  rc_assignment_id :: uuid
  rc_soldier_id :: uuid
  rc_distance :: int
  rc_called_up_from :: "date option"
  rc_called_up_to :: "date option"

definition candidate_row :: "reserve_db \<Rightarrow> uuid list \<Rightarrow> DutyAssignment \<Rightarrow> reserve_candidate" where
  "candidate_row d primary_nodes r =
     (let distances = (case soldier_node_of d (da_soldier_id r) of None \<Rightarrow> []
             | Some r_node \<Rightarrow> map (\<lambda>p_node. hierarchy_distance p_node r_node (parents_of d)) primary_nodes)
      in \<lparr>rc_assignment_id = da_id r, rc_soldier_id = da_soldier_id r,
          rc_distance = (if distances = [] then 99 else Min (set distances)),
          rc_called_up_from = da_called_up_from r, rc_called_up_to = da_called_up_to r\<rparr>)"

definition get_reserve_candidates :: "reserve_db \<Rightarrow> uuid \<Rightarrow> uuid \<Rightarrow> reserve_candidate list" where
  "get_reserve_candidates d shift_id reserve_id =
     (let orphan_ids = map rk_primary_id (filter (\<lambda>l. rk_reserve_id l = reserve_id) (rd_links d));
          primaries = filter (\<lambda>a. da_id a \<in> set orphan_ids) (bd_assignments (rd_board d));
          primary_nodes = List.map_filter (\<lambda>p. soldier_node_of d (da_soldier_id p)) primaries
      in if orphan_ids = [] then []
         else sort_key rc_distance (map (candidate_row d primary_nodes)
                (other_reserves (rd_board d) (Some shift_id) reserve_id)))"

end
