(* ===== verification/CallUpsSound.thy ===== *)
theory CallUpsSound
  imports CallUps
begin

text \<open>
  What the operations on reserves keep: a call-up lies within the days of a reserve, the
  dismissals of an assignment are disjoint and within its days, and a link joins a primary,
  at most once, to a reserve.
\<close>

section \<open>The invariant\<close>

definition call_ok :: "DutyAssignment \<Rightarrow> bool" where
  "call_ok a = (case (da_called_up_from a, da_called_up_to a) of
       (None, None) \<Rightarrow> True
     | (Some x, Some y) \<Rightarrow> da_is_reserve a \<and> da_start_date a \<le> x \<and> x \<le> y \<and> y < da_end_date a
     | _ \<Rightarrow> False)"

definition dismissal_ok :: "board \<Rightarrow> DutyDismissal \<Rightarrow> bool" where
  "dismissal_ok s x = list_ex (\<lambda>a. da_id a = di_assignment_id x \<and> da_start_date a \<le> di_from x
     \<and> di_from x \<le> di_to x \<and> di_to x < da_end_date a) (bd_assignments s)"

definition apart :: "DutyDismissal \<Rightarrow> DutyDismissal \<Rightarrow> bool" where
  "apart x y \<longleftrightarrow> di_assignment_id x \<noteq> di_assignment_id y \<or> di_to x < di_from y \<or> di_to y < di_from x"

definition link_ok :: "board \<Rightarrow> DutyReserveLink \<Rightarrow> bool" where
  "link_ok s l \<longleftrightarrow> list_ex (\<lambda>a. da_id a = rk_primary_id l \<and> \<not> da_is_reserve a) (bd_assignments s)
     \<and> list_ex (\<lambda>a. da_id a = rk_reserve_id l \<and> da_is_reserve a) (bd_assignments s)"

definition reserves_ok :: "reserve_db \<Rightarrow> bool" where
  "reserves_ok d \<longleftrightarrow> board_ok (rd_board d)
     \<and> list_all call_ok (bd_assignments (rd_board d))
     \<and> list_all (dismissal_ok (rd_board d)) (bd_dismissals (rd_board d))
     \<and> sorted_wrt apart (bd_dismissals (rd_board d))
     \<and> list_all (link_ok (rd_board d)) (rd_links d)
     \<and> distinct (map rk_primary_id (rd_links d))"

text \<open>What the invariant of dismissals and links reads of an assignment.\<close>

definition duty_core :: "DutyAssignment \<Rightarrow> uuid \<times> date \<times> date \<times> bool" where
  "duty_core a = (da_id a, da_start_date a, da_end_date a, da_is_reserve a)"

definition same_cores :: "board \<Rightarrow> board \<Rightarrow> bool" where
  "same_cores s s' \<longleftrightarrow> duty_core ` set (bd_assignments s) \<subseteq> duty_core ` set (bd_assignments s')"

lemma coreE:
  assumes "same_cores s s'" "a \<in> set (bd_assignments s)"
  obtains a' where "a' \<in> set (bd_assignments s')" "da_id a' = da_id a" "da_start_date a' = da_start_date a"
    "da_end_date a' = da_end_date a" "da_is_reserve a' = da_is_reserve a"
proof -
  have "duty_core a \<in> duty_core ` set (bd_assignments s')" using assms by (auto simp: same_cores_def)
  then show ?thesis using that by (auto simp: duty_core_def)
qed

lemma dismissal_ok_core: "dismissal_ok s x \<Longrightarrow> same_cores s s' \<Longrightarrow> dismissal_ok s' x"
  unfolding dismissal_ok_def list_ex_iff by (metis coreE)

lemma link_ok_core: "link_ok s l \<Longrightarrow> same_cores s s' \<Longrightarrow> link_ok s' l"
  unfolding link_ok_def list_ex_iff by (metis coreE)

lemma same_cores_refl [simp]: "bd_assignments s' = bd_assignments s \<Longrightarrow> same_cores s s'"
  by (simp add: same_cores_def)

lemma reserve_rows [simp]:
  "bd_assignments (rd_board (audit_reserve u t i d)) = bd_assignments (rd_board d)"
  "bd_dismissals (rd_board (audit_reserve u t i d)) = bd_dismissals (rd_board d)"
  "bd_overrides (rd_board (audit_reserve u t i d)) = bd_overrides (rd_board d)"
  "bd_soldiers (rd_board (audit_reserve u t i d)) = bd_soldiers (rd_board d)"
  "rd_links (audit_reserve u t i d) = rd_links d" "rd_nodes (audit_reserve u t i d) = rd_nodes d"
  "rd_board (replace_link n p r k d) = rd_board d" "rd_nodes (replace_link n p r k d) = rd_nodes d"
  by (simp_all add: audit_reserve_def replace_link_def)

lemma assignment_of_audit [simp]: "assignment_of (rd_board (audit_reserve u t i d)) = assignment_of (rd_board d)"
  by (simp add: fun_eq_iff assignment_of_def)

lemma board_ok_rows:
  "bd_assignments s' = bd_assignments s \<Longrightarrow> bd_overrides s' = bd_overrides s \<Longrightarrow> board_ok s' = board_ok s"
  by (simp add: board_ok_def rows_ok_def nominal_ok_def covers_ok_def live_id_def)

lemma reserves_ok_cong:
  assumes "bd_assignments (rd_board d') = bd_assignments (rd_board d)" "bd_overrides (rd_board d') = bd_overrides (rd_board d)"
    "bd_dismissals (rd_board d') = bd_dismissals (rd_board d)" "rd_links d' = rd_links d"
  shows "reserves_ok d' = reserves_ok d"
  using board_ok_rows [OF assms(1,2)] assms
  by (simp add: reserves_ok_def dismissal_ok_def [abs_def] link_ok_def [abs_def])

lemma audit_reserve_ok [simp]: "reserves_ok (audit_reserve u t i d) = reserves_ok d"
  by (rule reserves_ok_cong) simp_all

section \<open>Links\<close>

lemma replace_link_ok:
  assumes "reserves_ok d" "p \<in> set (bd_assignments (rd_board d))" "\<not> da_is_reserve p"
    and "r \<in> set (bd_assignments (rd_board d))" "da_is_reserve r"
  shows "reserves_ok (replace_link n (da_id p) (da_id r) k d)"
proof -
  have "link_ok (rd_board d) \<lparr>rk_id = n, rk_reserve_id = da_id r, rk_primary_id = da_id p, rk_distance = k\<rparr>"
    using assms(2-5) by (auto simp: link_ok_def list_ex_iff)
  moreover have "distinct (map rk_primary_id (filter P (rd_links d)))" for P
    using assms(1) by (simp add: reserves_ok_def distinct_map_filter)
  ultimately show ?thesis using assms(1)
    by (auto simp: reserves_ok_def replace_link_def list_all_iff)
qed

lemma relinkE:
  assumes "relink_reserve d n p j u = Inr (k, d')"
  obtains r where "\<not> da_is_reserve p" "assignment_of (rd_board d) j = Some r" "da_is_reserve r" "da_id r = j"
    "k = relink_distance d p r" "d' = audit_reserve u ''reserve.relink'' n (replace_link n (da_id p) j k d)"
  using assms
  by (auto simp: relink_reserve_def Let_def split: option.splits if_split_asm dest: assignment_of_Some)

lemma relink_ok:
  assumes "reserves_ok d" "p \<in> set (bd_assignments (rd_board d))" "relink_reserve d n p j u = Inr (k, d')"
  shows "reserves_ok d' \<and> bd_assignments (rd_board d') = bd_assignments (rd_board d)"
  using assms(3)
proof (rule relinkE)
  fix r assume r: "\<not> da_is_reserve p" "assignment_of (rd_board d) j = Some r" "da_is_reserve r" "da_id r = j"
    and d': "d' = audit_reserve u ''reserve.relink'' n (replace_link n (da_id p) j k d)"
  have "r \<in> set (bd_assignments (rd_board d))" using assignment_of_Some [OF r(2)] by simp
  then show ?thesis unfolding d' using replace_link_ok [OF assms(1,2) r(1) _ r(3)] by (simp add: r(4) [symmetric])
qed

lemma relink_all_ok:
  "relink_all i ids j u ls (rs, d) = Inr (rs', d') \<Longrightarrow> reserves_ok d \<Longrightarrow> reserves_ok d'"
proof (induction ls arbitrary: rs d)
  case (Cons l ls)
  show ?case
  proof (cases "assignment_of (rd_board d) (rk_primary_id l)")
    case None
    then show ?thesis using Cons by simp
  next
    case (Some p)
    then obtain k d1 where "relink_reserve d (ids (da_id p)) p j u = Inr (k, d1)"
      using Cons.prems(1) by (auto split: sum.splits)
    moreover from this have "reserves_ok d1"
      using relink_ok [OF Cons.prems(2)] assignment_of_Some [OF Some] by blast
    ultimately show ?thesis using Some Cons.prems(1) Cons.IH by auto
  qed
qed simp

lemma best_reserve_spec:
  "best_reserve node distance_to rs b = (best, k) \<Longrightarrow> (best = fst b \<or> (\<exists>r \<in> set rs. best = Some r)) \<and> k \<le> snd b"
  by (induction node distance_to rs b rule: best_reserve.induct) (fastforce split: option.splits if_split_asm)+

lemma reallocate_one_ok:
  assumes "reserves_ok d" "p \<in> set (bd_assignments (rd_board d))" "\<not> da_is_reserve p"
    and "set available \<subseteq> {r \<in> set (bd_assignments (rd_board d)). da_is_reserve r}"
    and "reallocate_one i ids available u p (rs, d) = (rs', d')"
  shows "reserves_ok d' \<and> bd_assignments (rd_board d') = bd_assignments (rd_board d)"
proof (cases "soldier_node_of d (da_soldier_id p)")
  case None
  then show ?thesis using assms(1,5) by (simp add: reallocate_one_def)
next
  case (Some p_node)
  obtain b k where b: "best_reserve (soldier_node_of d) (\<lambda>n. hierarchy_distance p_node n (parents_of d)) available (None, 999)
      = (b, k)" by (metis surj_pair)
  show ?thesis
  proof (cases b)
    case None
    then show ?thesis using assms(1,5) Some b by (simp add: reallocate_one_def)
  next
    case (Some r)
    then have "r \<in> set (bd_assignments (rd_board d))" "da_is_reserve r"
      using best_reserve_spec [OF b] assms(4) by auto
    then show ?thesis
      using replace_link_ok [OF assms(1,2,3)] assms(5) Some b \<open>soldier_node_of d (da_soldier_id p) = Some p_node\<close>
      by (auto simp: reallocate_one_def)
  qed
qed

lemma reallocate_fold_ok:
  "fold (reallocate_one i ids available u) ps (rs, d) = (rs', d') \<Longrightarrow> reserves_ok d
    \<Longrightarrow> set ps \<subseteq> {p \<in> set (bd_assignments (rd_board d)). \<not> da_is_reserve p}
    \<Longrightarrow> set available \<subseteq> {r \<in> set (bd_assignments (rd_board d)). da_is_reserve r} \<Longrightarrow> reserves_ok d'"
proof (induction ps arbitrary: rs d)
  case (Cons p ps)
  obtain rs1 d1 where one: "reallocate_one i ids available u p (rs, d) = (rs1, d1)" by (metis surj_pair)
  have "reserves_ok d1 \<and> bd_assignments (rd_board d1) = bd_assignments (rd_board d)"
    using Cons.prems by (intro reallocate_one_ok [OF _ _ _ _ one]) auto
  then show ?case using Cons.prems one Cons.IH [of rs1 d1] by auto
qed simp

lemma affected_primary:
  assumes "reserves_ok d" "p \<in> set (affected_primaries d sh i x y)"
  shows "p \<in> set (bd_assignments (rd_board d)) \<and> \<not> da_is_reserve p"
proof -
  obtain l where l: "l \<in> set (rd_links d)" "da_id p = rk_primary_id l" and p: "p \<in> set (bd_assignments (rd_board d))"
    using assms(2) by (auto simp: affected_primaries_def Let_def)
  obtain q where q: "q \<in> set (bd_assignments (rd_board d))" "da_id q = rk_primary_id l" "\<not> da_is_reserve q"
    using assms(1) l(1) by (auto simp: reserves_ok_def list_all_iff link_ok_def list_ex_iff)
  have "distinct (map da_id (bd_assignments (rd_board d)))" using assms(1) by (simp add: reserves_ok_def board_ok_def rows_ok_def)
  then have "q = p" using p q l(2) by (simp add: distinct_map inj_on_def)
  then show ?thesis using p q by simp
qed

lemma reallocate_ok:
  assumes "reserves_ok d" "reallocate_orphaned_primaries d ids sh i x y u = (rs, d')"
  shows "reserves_ok d'"
  using assms(2) unfolding reallocate_orphaned_primaries_def
  by (rule reallocate_fold_ok) (use assms(1) affected_primary in \<open>auto simp: other_reserves_def\<close>)

section \<open>Call-ups and dismissals\<close>

lemma updated_rows: "bd_assignments (update_assignment i f s) = map (\<lambda>a. if da_id a = i then f a else a) (bd_assignments s)"
  by (simp add: update_assignment_def)

lemma update_core:
  assumes "\<And>x. duty_core (f x) = duty_core x"
  shows "map duty_core (bd_assignments (update_assignment i f s)) = map duty_core (bd_assignments s)"
  using assms by (simp add: update_assignment_def)

lemma cores_map: "map duty_core (bd_assignments s') = map duty_core (bd_assignments s) \<Longrightarrow> same_cores s s'"
  unfolding same_cores_def by (metis list.set_map order_refl)

lemma rows_kept:
  assumes "reserves_ok d" "same_cores (rd_board d) (rd_board d')" "rd_links d' = rd_links d"
    and "bd_dismissals (rd_board d') = bd_dismissals (rd_board d)" "board_ok (rd_board d')"
    and "list_all call_ok (bd_assignments (rd_board d'))"
  shows "reserves_ok d'"
  using assms dismissal_ok_core link_ok_core unfolding reserves_ok_def list_all_iff by metis

lemma call_update_board_ok:
  assumes ok: "board_ok s"
  shows "board_ok (update_assignment i (\<lambda>x. x\<lparr>da_called_up_from := b, da_called_up_to := c\<rparr>) s)"
proof -
  let ?f = "\<lambda>x :: DutyAssignment. x\<lparr>da_called_up_from := b, da_called_up_to := c\<rparr>"
  have rows: "bd_assignments (update_assignment i ?f s) = bd_assignments (update_assignment i ?f s)"
    and ov: "bd_overrides (update_assignment i ?f s) = bd_overrides s"
    by (simp_all add: update_assignment_def)
  have "rows_ok (update_assignment i ?f s)" "covers_ok (update_assignment i ?f s)"
    by (rule update_rows [OF _ _ _ _ rows ov ok]; simp add: live_duty_def)+
  moreover have "nominal_ok (update_assignment i ?f s)"
    using ok unfolding nominal_ok_def update_assignment_def board_ok_def by (auto simp: live_duty_def in_range_def)
  ultimately show ?thesis by (simp add: board_ok_def)
qed

lemma bad_days_None: "bad_days a x y = None \<longleftrightarrow> da_start_date a \<le> x \<and> x \<le> y \<and> y < da_end_date a"
  by (auto simp: bad_days_def)

lemma call_up_ok:
  assumes "reserves_ok d" "a \<in> set (bd_assignments (rd_board d))" "call_up_reserve d a x y u = Inr d'"
  shows "reserves_ok d'"
proof -
  let ?b = "update_assignment (da_id a) (\<lambda>z. z\<lparr>da_called_up_from := Some x, da_called_up_to := Some y\<rparr>) (rd_board d)"
  have r: "da_is_reserve a" "bad_days a x y = None"
    and d': "d' = audit_reserve u ''reserve.call_up'' (da_id a) (d\<lparr>rd_board := ?b\<rparr>)"
    using assms(3) by (auto simp: call_up_reserve_def split: option.splits if_split_asm)
  have "call_ok (if da_id c = da_id a then c\<lparr>da_called_up_from := Some x, da_called_up_to := Some y\<rparr> else c)"
    if c: "c \<in> set (bd_assignments (rd_board d))" for c
  proof (cases "da_id c = da_id a")
    case True
    then have "c = a" using assms(1,2) c by (auto simp: reserves_ok_def board_ok_def rows_ok_def distinct_map inj_on_def)
    then show ?thesis using r by (simp add: call_ok_def bad_days_None)
  next
    case False
    then show ?thesis using assms(1) c by (auto simp: reserves_ok_def list_all_iff)
  qed
  then have "list_all call_ok (bd_assignments ?b)"
    by (simp only: updated_rows set_map list_all_iff ball_simps) blast
  moreover have "same_cores (rd_board d) ?b" by (rule cores_map, rule update_core) (simp add: duty_core_def)
  moreover have "board_ok ?b" using assms(1) by (simp add: reserves_ok_def call_update_board_ok)
  ultimately have "reserves_ok (d\<lparr>rd_board := ?b\<rparr>)"
    by (intro rows_kept [OF assms(1)]) (simp_all add: update_assignment_def)
  then show ?thesis unfolding d' by simp
qed

lemma add_dismissal_ok:
  assumes "reserves_ok d" "a \<in> set (bd_assignments (rd_board d))" "bad_days a x y = None"
    and "\<not> dismissal_overlaps (rd_board d) a x y"
  shows "reserves_ok (add_dismissal n a x y reason d)"
proof -
  let ?new = "\<lparr>di_id = n, di_assignment_id = da_id a, di_from = x, di_to = y, di_reason = reason\<rparr>"
  have "dismissal_ok (rd_board (add_dismissal n a x y reason d)) z = dismissal_ok (rd_board d) z"
    "link_ok (rd_board (add_dismissal n a x y reason d)) l = link_ok (rd_board d) l" for z l
    by (simp_all add: dismissal_ok_def link_ok_def add_dismissal_def)
  moreover have "dismissal_ok (rd_board d) ?new"
    using assms(2,3) by (auto simp: dismissal_ok_def list_ex_iff bad_days_None)
  moreover have "\<forall>z \<in> set (bd_dismissals (rd_board d)). apart z ?new"
    using assms(4) by (auto simp: dismissal_overlaps_def list_ex_iff apart_def not_le)
  moreover have "board_ok (rd_board (add_dismissal n a x y reason d)) = board_ok (rd_board d)"
    by (rule board_ok_rows) (simp_all add: add_dismissal_def)
  ultimately show ?thesis using assms(1)
    by (auto simp: reserves_ok_def list_all_iff sorted_wrt_append add_dismissal_def)
qed

lemma dismiss_primary_ok:
  assumes "reserves_ok d" "a \<in> set (bd_assignments (rd_board d))" "dismiss_primary d n a x y reason u = Inr d'"
  shows "reserves_ok d'"
  using assms(3) add_dismissal_ok [OF assms(1,2)]
  by (auto simp: dismiss_primary_def split: option.splits if_split_asm)

lemma dismiss_reserve_ok:
  assumes "reserves_ok d" "a \<in> set (bd_assignments (rd_board d))"
    and "dismiss_reserve d n ids a x y reason u cover = Inr (rs, d')"
  shows "reserves_ok d'"
proof -
  let ?d = "audit_reserve u ''reserve.dismiss_reserve'' n (add_dismissal n a x y reason d)"
  have "bad_days a x y = None" "\<not> dismissal_overlaps (rd_board d) a x y"
    using assms(3) by (auto simp: dismiss_reserve_def split: option.splits if_split_asm)
  then have ok: "reserves_ok ?d" using add_dismissal_ok [OF assms(1,2)] by simp
  show ?thesis
  proof (cases cover)
    case None
    then have "reallocate_orphaned_primaries ?d ids (da_shift_id a) (da_id a) x y u = (rs, d')"
      using assms(3) by (auto simp: dismiss_reserve_def Let_def split: option.splits if_split_asm)
    then show ?thesis by (rule reallocate_ok [OF ok])
  next
    case (Some j)
    let ?ls = "sort_key rk_primary_id (filter (\<lambda>l. rk_reserve_id l = da_id a) (rd_links ?d))"
    have "relink_all (da_id a) ids j u ?ls ([], ?d) = Inr (rs, d')"
      using assms(3) Some by (auto simp: dismiss_reserve_def Let_def split: option.splits if_split_asm)
    then show ?thesis using relink_all_ok ok by blast
  qed
qed

lemma delete_dismissal_ok:
  assumes "reserves_ok d"
  shows "reserves_ok (delete_dismissal d x u)"
proof -
  have "board_ok (rd_board (delete_dismissal d x u)) = board_ok (rd_board d)"
    by (rule board_ok_rows) (simp_all add: delete_dismissal_def)
  moreover have "dismissal_ok (rd_board (delete_dismissal d x u)) z = dismissal_ok (rd_board d) z"
    "link_ok (rd_board (delete_dismissal d x u)) l = link_ok (rd_board d) l" for z l
    by (simp_all add: dismissal_ok_def link_ok_def delete_dismissal_def)
  ultimately show ?thesis using assms
    by (auto simp: reserves_ok_def list_all_iff delete_dismissal_def intro: sorted_wrt_filter)
qed

section \<open>The duty board underneath\<close>

lemma override_dismissals [simp]:
  "bd_dismissals (record_override c i j u t s) = bd_dismissals s"
  "bd_dismissals (put_override n k e x r s) = bd_dismissals s"
  by (simp_all add: record_override_def put_override_def split: option.split)

lemma call_ok_None [simp]: "da_called_up_from a = None \<Longrightarrow> da_called_up_to a = None \<Longrightarrow> call_ok a"
  by (simp add: call_ok_def)

lemma call_ok_core:
  "duty_core b = duty_core a \<Longrightarrow> da_called_up_from b = da_called_up_from a \<Longrightarrow> da_called_up_to b = da_called_up_to a
    \<Longrightarrow> call_ok b = call_ok a"
  by (auto simp: call_ok_def duty_core_def split: option.split)

lemma update_call_ok:
  assumes "list_all call_ok (bd_assignments s)"
    and "\<And>x. duty_core (f x) = duty_core x" "\<And>x. da_called_up_from (f x) = da_called_up_from x"
    "\<And>x. da_called_up_to (f x) = da_called_up_to x"
  shows "list_all call_ok (bd_assignments (update_assignment i f s))"
  using assms call_ok_core [OF assms(2-4)] by (auto simp: update_assignment_def list_all_iff)

lemma board_step_rows:
  assumes "board_step s s'" "list_all call_ok (bd_assignments s)"
  shows "same_cores s s' \<and> bd_dismissals s' = bd_dismissals s \<and> list_all call_ok (bd_assignments s')"
  using assms
proof (induction rule: board_step.induct)
  case (step_create s i sid t l d e sh r u o' s')
  then show ?case
    by (auto simp: create_assignment_def Let_def same_cores_def
        split: option.splits if_split_asm sum.splits prod.splits)
next
  case (step_cancel s a reason u s')
  then have "s' = audit_board u ''assignment.cancel'' (da_id a)
      (update_assignment (da_id a) (da_status_update (\<lambda>_. Cancelled_duty)) s)"
    by (simp add: cancel_assignment_def split: if_split_asm)
  then show ?case using step_cancel(3)
    by (auto intro!: cores_map update_core update_call_ok simp: duty_core_def, simp add: update_assignment_def)
next
  case (step_replace s a i u r s')
  then obtain c where "s' = record_override c i (da_id a) u r (audit_board u ''assignment.replace'' (da_id a)
      (update_assignment (da_id a) (\<lambda>x. x\<lparr>da_soldier_id := i, da_weapon_ineligible :=
         weapon_missing s i (da_type_id a) (da_start_date a)\<rparr>) s))"
    by (auto simp: replace_assignment_def split: if_split_asm sum.splits)
  then show ?case using step_replace(3)
    by (auto intro!: cores_map update_core update_call_ok simp: duty_core_def, simp add: update_assignment_def)
next
  case (step_override s n a d x r u i s')
  then show ?case by (auto simp: set_day_override_def Let_def split: if_split_asm option.splits)
next
  case (step_clear a s d u)
  then show ?case by (auto simp: clear_day_override_def split: option.splits)
qed

end
