(* ===== verification/Quarters.thy ===== *)
theory Quarters
  imports ConstraintsSound
begin

text \<open>
  Calendar quarters: the quarter functions of \<open>services/effort_score.py\<close> and
  \<open>_iter_calendar_quarters\<close> of \<open>services/scoring.py\<close>, and the quarters whose scores count for
  the effort of a planning run.  The loops over quarters are one recursion,
  \<open>quarters_until\<close>.
\<close>

section \<open>The quarter of a day\<close>

definition quarter_start :: "date \<Rightarrow> date" where
  "quarter_start d = civil (year_of d) ((month_of d - 1) div 3 * 3 + 1) 1"

definition quarter_end :: "date \<Rightarrow> date" where
  "quarter_end d =
     (let qs = quarter_start d
      in if month_of qs \<ge> 10 then civil (year_of qs) 12 31
         else civil (year_of qs) (month_of qs + 3) 1 - 1)"

definition find_quarter_key :: "(date \<times> date) list \<Rightarrow> date \<Rightarrow> date option" where
  "find_quarter_key all_quarters d =
     map_option fst (find (\<lambda>q. quarter_start (fst q) = quarter_start d) all_quarters)"

text \<open>A quarter as three month indices: the first day of a month and its quarter.\<close>

definition quarter_index :: "date \<Rightarrow> int" where
  "quarter_index d = month_index d div 3"

lemma quarter_start_index: "quarter_start d = month_start (3 * quarter_index d)"
proof -
  have "quarter_start d = fst (period_bounds ''quarter'' d)"
    by (simp add: quarter_start_def period_bounds_def Let_def)
  then show ?thesis by (simp add: period_bounds_index period_months_def Let_def quarter_index_def)
qed

lemma quarter_index_start [simp]: "quarter_index (month_start (3 * i)) = i"
proof -
  have "month_index (month_start (3 * i)) = 3 * i"
    unfolding month_index_iff using month_start_less by simp
  then show ?thesis by (simp add: quarter_index_def)
qed

lemma quarter_start_idem [simp]: "quarter_start (quarter_start d) = quarter_start d"
  by (simp add: quarter_start_index)

lemma quarter_end_index: "quarter_end d = month_start (3 * quarter_index d + 3) - 1"
proof -
  define i where "i = 3 * quarter_index d"
  define y where "y = year_of (quarter_start d)"
  have mi: "month_index (quarter_start d) = i"
    unfolding quarter_start_index i_def month_index_iff using month_start_less by simp
  define m where "m = month_of (quarter_start d)"
  have m: "1 \<le> m" "m \<le> 12" using month_spec [of "quarter_start d"] by (simp_all add: m_def)
  have i: "i = 12 * y + int m - 1" using mi by (simp add: month_index_def y_def m_def)
  have m3: "int m = 3 * (quarter_index d - 4 * y) + 1" using i unfolding i_def by simp
  have small: "m < 10 \<Longrightarrow> civil y (m + 3) 1 = month_start (i + 3)"
  proof -
    assume "m < 10"
    then have "civil y (m + 3) 1 = month_start (12 * y + int (m + 3) - 1)"
      using m by (intro month_start_civil) simp_all
    also have "12 * y + int (m + 3) - 1 = i + 3" using i by simp
    finally show "civil y (m + 3) 1 = month_start (i + 3)" .
  qed
  have large: "m \<ge> 10 \<Longrightarrow> m = 10" using m m3 by presburger
  have "civil y 12 31 = civil (y + 1) 1 1 - 1"
    by (simp add: civil_def days_before_year_Suc days_before_month_def days_in_month_def upt_rec)
  then have "m = 10 \<Longrightarrow> civil y 12 31 = month_start (i + 3) - 1"
    using month_start_civil [of 1 "y + 1"] i by (simp add: algebra_simps)
  then show ?thesis using small large
    by (auto simp: quarter_end_def Let_def m_def [symmetric] y_def [symmetric] i_def [symmetric])
qed

lemma quarter_contains: "quarter_start d \<le> d" "d \<le> quarter_end d"
proof -
  have "3 * quarter_index d \<le> month_index d" "month_index d < 3 * quarter_index d + 3"
    unfolding quarter_index_def using pos_mod_bound [of 3 "month_index d"] mult_div_mod_eq [of 3 "month_index d"]
      pos_mod_sign [of 3 "month_index d"] by linarith+
  then show "quarter_start d \<le> d" "d \<le> quarter_end d"
    using le_month_index [of "3 * quarter_index d" d] le_month_index [of "3 * quarter_index d + 3" d]
    by (simp_all add: quarter_start_index quarter_end_index)
qed

lemma quarter_start_eq_iff: "quarter_start a = quarter_start b \<longleftrightarrow> quarter_index a = quarter_index b"
  by (metis quarter_index_start quarter_start_index)

lemma same_quarter_iff: "quarter_start u = quarter_start d \<longleftrightarrow> quarter_start d \<le> u \<and> u \<le> quarter_end d"
proof -
  have "quarter_start d \<le> u \<and> u \<le> quarter_end d
      \<longleftrightarrow> 3 * quarter_index d \<le> month_index u \<and> month_index u < 3 * quarter_index d + 3"
    using le_month_index [of "3 * quarter_index d" u] le_month_index [of "3 * quarter_index d + 3" u]
    by (auto simp: quarter_start_index quarter_end_index)
  also have "\<dots> \<longleftrightarrow> month_index u div 3 = quarter_index d"
    using pos_mod_bound [of 3 "month_index u"] mult_div_mod_eq [of 3 "month_index u"]
      pos_mod_sign [of 3 "month_index u"] by presburger
  finally show ?thesis by (auto simp: quarter_start_eq_iff quarter_index_def)
qed

lemma next_quarter: "quarter_start (quarter_end d + 1) = quarter_end d + 1"
proof -
  have e: "quarter_end d + 1 = month_start (3 * (quarter_index d + 1))"
    by (simp add: quarter_end_index algebra_simps)
  show ?thesis unfolding e quarter_start_index quarter_index_start ..
qed

lemma quarter_start_mono: "a \<le> b \<Longrightarrow> quarter_start a \<le> quarter_start b"
  using month_start_mono [of "3 * quarter_index a" "3 * quarter_index b"]
    le_month_index [of "month_index a" b] month_index_bounds [of a]
  by (simp add: quarter_start_index quarter_index_def zdiv_mono1)

section \<open>Quarters in a row\<close>

text \<open>\<open>while q_s < stop: ...; q_s = quarter_end(q_s) + 1\<close>\<close>

function quarters_until :: "date \<Rightarrow> date \<Rightarrow> date list" where
  "quarters_until q_s stop = (if q_s < stop then q_s # quarters_until (quarter_end q_s + 1) stop else [])"
  by auto

termination quarters_until
proof (relation "measure (\<lambda>(q_s, stop). nat (stop - q_s))")
  fix q_s stop :: date
  assume "q_s < stop"
  then show "((quarter_end q_s + 1, stop), q_s, stop) \<in> measure (\<lambda>(q_s, stop). nat (stop - q_s))"
    using quarter_contains(2) [of q_s] by simp
qed simp

declare quarters_until.simps [simp del]

definition iter_calendar_quarters :: "date \<Rightarrow> date \<Rightarrow> date list" where
  "iter_calendar_quarters start stop =
     (if stop < start then [] else quarters_until (quarter_start start) (quarter_start stop + 1))"

text \<open>The quarters of the past: from the reset date to the day before the planning starts.\<close>

definition past_quarters :: "date \<Rightarrow> date \<Rightarrow> (date \<times> date) list" where
  "past_quarters reset_date planning_start =
     (let history_end = planning_start - 1
      in if history_end \<ge> reset_date
         then map (\<lambda>q_s. (max q_s reset_date, min (quarter_end q_s) history_end))
                (quarters_until (quarter_start reset_date) planning_start)
         else [])"

definition build_future_quarters :: "date list \<Rightarrow> date \<Rightarrow> (date \<times> date) list" where
  "build_future_quarters days planning_end =
     (let future_dates = filter (\<lambda>day. day > planning_end) days
      in if future_dates = [] then []
         else map (\<lambda>q_s. (q_s, quarter_end q_s))
                (quarters_until (quarter_start (Min (set future_dates))) (Max (set future_dates) + 1)))"

lemma set_quarters_until:
  assumes "quarter_start x = x"
  shows "set (quarters_until x y) = {q. quarter_start q = q \<and> x \<le> q \<and> q < y}"
  using assms
proof (induction x y rule: quarters_until.induct)
  case (1 x y)
  show ?case
  proof (cases "x < y")
    case True
    have "x = q \<or> quarter_end x + 1 \<le> q \<longleftrightarrow> x \<le> q" if "quarter_start q = q" for q
    proof -
      have "x \<le> quarter_end x" by (rule quarter_contains)
      moreover have "q = x" if "x \<le> q" "q \<le> quarter_end x"
        using same_quarter_iff [of q x] that \<open>quarter_start q = q\<close> 1(2) by simp
      ultimately show ?thesis by linarith
    qed
    then have "{q. quarter_start q = q \<and> x \<le> q \<and> q < y}
        = insert x {q. quarter_start q = q \<and> quarter_end x + 1 \<le> q \<and> q < y}"
      using True 1(2) by blast
    then show ?thesis
      using 1(1) [OF True next_quarter] True by (subst quarters_until.simps) simp
  qed (simp add: quarters_until.simps)
qed

lemma distinct_quarters_until: "quarter_start x = x \<Longrightarrow> distinct (quarters_until x y)"
proof (induction x y rule: quarters_until.induct)
  case (1 x y)
  then show ?case using quarter_contains(2) [of x] next_quarter [of x]
    by (subst quarters_until.simps) (auto simp: set_quarters_until)
qed

end
