(* ===== verification/Scoring.thy ===== *)
theory Scoring
  imports Quarters
begin

text \<open>
  Scores of \<open>services/scoring.py\<close>: published assignments expanded to days with their
  effective soldier and multiplier, merged again into spans, duty scores, active days and
  the dates from which history counts.  A \<open>Decimal\<close> is a rational number, without the
  rounding to 28 digits; a \<open>defaultdict\<close> is a function.  The projection tables that cache
  these results are left out: each definition is the computation the code falls back to.
\<close>

section \<open>State\<close>

record ScoreAdjustment =
  sa_soldier_id :: uuid
  sa_delta :: decimal
  sa_created_on :: date

text \<open>
  Settings; \<open>None\<close> is a setting without a row.  The reset date is \<open>None\<close> also when its text
  is no date; an override of a node is \<open>None\<close> when its text is no date.
\<close>

record score_settings =
  ss_standby_multiplier :: "decimal option"
  ss_called_up_multiplier :: "decimal option"
  ss_dismissed_multiplier :: "decimal option"
  ss_reset_date :: "date option"
  ss_reset_overrides :: "(uuid, date option) dict"

record score_db =
  sd_board :: board
  sd_nodes :: "HierarchyNode list"
  sd_adjustments :: "ScoreAdjustment list"
  sd_settings :: score_settings

datatype score_error = Malformed_reset_date

definition type_score :: "score_db \<Rightarrow> uuid \<Rightarrow> decimal" where
  "type_score db duty_type_id =
     (case find (\<lambda>t. dt_id t = duty_type_id) (bd_duty_types (sd_board db)) of
        None \<Rightarrow> 0 | Some t \<Rightarrow> dt_score_per_day t)"

definition since :: "date option \<Rightarrow> date \<Rightarrow> bool" where
  "since date_from d = (case date_from of None \<Rightarrow> True | Some x \<Rightarrow> x \<le> d)"

definition up_to :: "date option \<Rightarrow> date \<Rightarrow> bool" where
  "up_to date_to d = (case date_to of None \<Rightarrow> True | Some x \<Rightarrow> d \<le> x)"

section \<open>Duty days\<close>

datatype multiplier_source = Default_multiplier | Reserve_standby | Reserve_called_up | Dismissal | Forced_call_up

record duty_day =
  dd_assignment_id :: uuid
  dd_day :: date
  dd_soldier_id :: uuid
  dd_owner_id :: uuid
  dd_type_id :: uuid
  dd_day_weight :: decimal
  dd_multiplier :: decimal
  dd_source :: multiplier_source
  dd_weighted :: decimal
  dd_override :: "DutyDayOverride option"
  dd_dismissal :: "DutyDismissal option"

text \<open>The dict of overrides keeps the last row of a key, the list of dismissals its first match.\<close>

definition override_at :: "DutyDayOverride list \<Rightarrow> uuid \<Rightarrow> date \<Rightarrow> DutyDayOverride option" where
  "override_at rows i day = find (\<lambda>v. vo_assignment_id v = i \<and> vo_date v = day) (rev rows)"

definition dismissal_at :: "DutyDismissal list \<Rightarrow> uuid \<Rightarrow> date \<Rightarrow> DutyDismissal option" where
  "dismissal_at rows i day = find (\<lambda>d. di_assignment_id d = i \<and> di_from d \<le> day \<and> day \<le> di_to d) rows"

definition day_weight_of :: "DutyAssignment \<Rightarrow> decimal" where
  "day_weight_of a =
     (let touched = calendar_days_touched (da_start_date a) (da_end_date a)
      in if touched > 0
         then of_int (score_days (da_start_date a) (da_end_date a) (da_start_time a) (da_end_time a)) / of_int touched
         else 1)"

definition multiplier_of :: "score_db \<Rightarrow> DutyAssignment \<Rightarrow> date \<Rightarrow> DutyDismissal option
    \<Rightarrow> decimal \<times> multiplier_source" where
  "multiplier_of db a day dismissal =
     (case da_forced_multiplier a of Some m \<Rightarrow> (m, Forced_call_up)
      | None \<Rightarrow>
          if da_is_reserve a
          then (case (da_called_up_from a, da_called_up_to a) of
              (Some x, Some y) \<Rightarrow>
                if x \<le> day \<and> day \<le> y
                then (default (ss_called_up_multiplier (sd_settings db)) (13 / 10), Reserve_called_up)
                else (default (ss_standby_multiplier (sd_settings db)) (1 / 5), Reserve_standby)
            | _ \<Rightarrow> (default (ss_standby_multiplier (sd_settings db)) (1 / 5), Reserve_standby))
          else if dismissal \<noteq> None then (default (ss_dismissed_multiplier (sd_settings db)) 0, Dismissal)
          else (1, Default_multiplier))"

definition selected_assignments :: "score_db \<Rightarrow> duty_status list \<Rightarrow> date option \<Rightarrow> date option
    \<Rightarrow> DutyAssignment list" where
  "selected_assignments db statuses date_from date_to =
     filter (\<lambda>a. da_status a \<in> set statuses
        \<and> (case date_from of None \<Rightarrow> True | Some x \<Rightarrow> da_end_date a > x)
        \<and> (case date_to of None \<Rightarrow> True | Some x \<Rightarrow> da_start_date a \<le> x))
       (bd_assignments (sd_board db))"

definition duty_day_row :: "score_db \<Rightarrow> DutyDayOverride list \<Rightarrow> DutyDismissal list \<Rightarrow> DutyAssignment
    \<Rightarrow> date \<Rightarrow> duty_day option" where
  "duty_day_row db overrides dismissals a day =
     (let override = override_at overrides (da_id a) day;
          effective = (case override of Some v \<Rightarrow> vo_soldier_id v | None \<Rightarrow> Some (da_soldier_id a))
      in case effective of None \<Rightarrow> None
         | Some soldier_id \<Rightarrow>
             (let dismissal = dismissal_at dismissals (da_id a) day;
                  (multiplier, src) = multiplier_of db a day dismissal
              in Some \<lparr>dd_assignment_id = da_id a, dd_day = day, dd_soldier_id = soldier_id,
                   dd_owner_id = da_soldier_id a, dd_type_id = da_type_id a, dd_day_weight = day_weight_of a,
                   dd_multiplier = multiplier, dd_source = src, dd_weighted = multiplier * day_weight_of a,
                   dd_override = override, dd_dismissal = dismissal\<rparr>))"

definition effective_duty_day_rows :: "score_db \<Rightarrow> duty_status list \<Rightarrow> uuid list option \<Rightarrow> date option
    \<Rightarrow> date option \<Rightarrow> duty_day list" where
  "effective_duty_day_rows db statuses assignment_ids date_from date_to =
     (let assignments = filter (\<lambda>a. case assignment_ids of None \<Rightarrow> True | Some ids \<Rightarrow> da_id a \<in> set ids)
            (selected_assignments db statuses date_from date_to);
          overrides = filter (\<lambda>v. since date_from (vo_date v) \<and> up_to date_to (vo_date v)) (bd_overrides (sd_board db));
          dismissals = filter (\<lambda>d. since date_from (di_to d) \<and> up_to date_to (di_from d)) (bd_dismissals (sd_board db))
      in concat (map (\<lambda>a. List.map_filter (duty_day_row db overrides dismissals a)
             (filter (\<lambda>day. since date_from day \<and> up_to date_to day)
               (days_from_to (da_start_date a) (da_end_date a)))) assignments))"

definition day_tuple :: "duty_day \<Rightarrow> date \<times> uuid \<times> uuid \<times> decimal" where
  "day_tuple r = (dd_day r, dd_soldier_id r, dd_type_id r, dd_weighted r)"

definition effective_duty_days :: "score_db \<Rightarrow> date option \<Rightarrow> date option
    \<Rightarrow> (date \<times> uuid \<times> uuid \<times> decimal) list" where
  "effective_duty_days db date_from date_to =
     map day_tuple (effective_duty_day_rows db [Published] None date_from date_to)"

definition effective_duty_days_with_drafts :: "score_db \<Rightarrow> date option \<Rightarrow> date option \<Rightarrow> uuid list
    \<Rightarrow> (date \<times> uuid \<times> uuid \<times> decimal) list" where
  "effective_duty_days_with_drafts db date_from date_to exclude_assignment_ids =
     map day_tuple (filter (\<lambda>r. dd_assignment_id r \<notin> set exclude_assignment_ids)
       (effective_duty_day_rows db [Published, Algorithm_draft] None date_from date_to))"

section \<open>Spans\<close>

record span =
  sp_assignment_id :: uuid
  sp_soldier_id :: uuid
  sp_type_id :: uuid
  sp_location_id :: uuid
  sp_start_date :: date
  sp_end_date :: date
  sp_start_time :: clock
  sp_end_time :: clock
  sp_start_at :: moment
  sp_end_at :: moment
  sp_shift_id :: "uuid option"
  sp_is_reserve :: bool
  sp_called_up_from :: "date option"
  sp_called_up_to :: "date option"
  sp_weapon_ineligible :: bool
  sp_status :: duty_status

definition make_span :: "DutyAssignment \<Rightarrow> uuid \<times> date \<times> date \<Rightarrow> span" where
  "make_span a = (\<lambda>(cur, run_start, run_end).
     (let start_time = (if run_start = da_start_date a then da_start_time a else (0, 0));
          end_time = (if run_end = da_end_date a - 1 then da_end_time a else (23, 59))
      in \<lparr>sp_assignment_id = da_id a, sp_soldier_id = cur, sp_type_id = da_type_id a,
          sp_location_id = da_location_id a, sp_start_date = run_start, sp_end_date = run_end + 1,
          sp_start_time = start_time, sp_end_time = end_time,
          sp_start_at = combine_date_time run_start start_time, sp_end_at = combine_date_time run_end end_time,
          sp_shift_id = da_shift_id a, sp_is_reserve = da_is_reserve a,
          sp_called_up_from = da_called_up_from a, sp_called_up_to = da_called_up_to a,
          sp_weapon_ineligible = (if cur = da_soldier_id a then da_weapon_ineligible a else False),
          sp_status = da_status a\<rparr>))"

text \<open>
  The run a loop over the days is in: the effective soldier of the day before (\<open>None\<close> is
  \<open>_UNSET\<close>, \<open>Some None\<close> a day without soldier), the first and the last day of the run, and the
  runs found.
\<close>

type_synonym run_state = "uuid option option \<times> date option \<times> date option \<times> (uuid \<times> date \<times> date) list"

definition effective_on :: "DutyDayOverride list \<Rightarrow> DutyDismissal list \<Rightarrow> DutyAssignment \<Rightarrow> date \<Rightarrow> uuid option" where
  "effective_on overrides dismissals a day =
     (case override_at overrides (da_id a) day of
        Some v \<Rightarrow> vo_soldier_id v
      | None \<Rightarrow> if dismissal_at dismissals (da_id a) day \<noteq> None then None else Some (da_soldier_id a))"

definition close_run :: "run_state \<Rightarrow> (uuid \<times> date \<times> date) list" where
  "close_run st =
     (case st of
        (Some (Some cur), Some run_start, Some run_end, runs) \<Rightarrow> runs @ [(cur, run_start, run_end)]
      | (_, _, _, runs) \<Rightarrow> runs)"

definition run_step :: "(date \<Rightarrow> uuid option) \<Rightarrow> date \<Rightarrow> run_state \<Rightarrow> run_state" where
  "run_step eff day st =
     (case st of (cur, run_start, run_end, runs) \<Rightarrow>
        if Some (eff day) = cur then (cur, run_start, Some day, runs)
        else (Some (eff day), if eff day \<noteq> None then Some day else None,
              if eff day \<noteq> None then Some day else None, close_run st))"

definition runs_of :: "(date \<Rightarrow> uuid option) \<Rightarrow> date list \<Rightarrow> (uuid \<times> date \<times> date) list" where
  "runs_of eff days = close_run (fold (run_step eff) days (None, None, None, []))"

definition in_window :: "date option \<Rightarrow> date option \<Rightarrow> span \<Rightarrow> bool" where
  "in_window date_from date_to sp \<longleftrightarrow>
     (case date_from of None \<Rightarrow> True | Some x \<Rightarrow> \<not> sp_end_date sp \<le> x)
     \<and> (case date_to of None \<Rightarrow> True | Some x \<Rightarrow> \<not> sp_start_date sp > x)"

text \<open>The assignments the query selects for a set of soldiers: theirs, and those with a day of theirs.\<close>

definition concerns :: "DutyDayOverride list \<Rightarrow> uuid list \<Rightarrow> date option \<Rightarrow> date option \<Rightarrow> DutyAssignment \<Rightarrow> bool" where
  "concerns overrides soldier_ids date_from date_to a \<longleftrightarrow>
     da_soldier_id a \<in> set soldier_ids
     \<or> list_ex (\<lambda>v. vo_assignment_id v = da_id a \<and> vo_date v \<ge> da_start_date a \<and> vo_date v < da_end_date a
          \<and> (case vo_soldier_id v of None \<Rightarrow> False | Some i \<Rightarrow> i \<in> set soldier_ids)
          \<and> since date_from (vo_date v) \<and> up_to date_to (vo_date v)) overrides"

definition effective_duty_spans_impl :: "score_db \<Rightarrow> duty_status list \<Rightarrow> uuid list option \<Rightarrow> date option
    \<Rightarrow> date option \<Rightarrow> span list" where
  "effective_duty_spans_impl db statuses soldier_ids date_from date_to =
     (let assignments = filter (\<lambda>a. case soldier_ids of None \<Rightarrow> True
              | Some ids \<Rightarrow> concerns (bd_overrides (sd_board db)) ids date_from date_to a)
            (selected_assignments db statuses date_from date_to)
      in if assignments = [] then []
         else
           (let first_day = Min (set (map da_start_date assignments));
                last_end_date = Max (set (map da_end_date assignments));
                overrides = filter (\<lambda>v. vo_date v \<ge> first_day \<and> vo_date v < last_end_date) (bd_overrides (sd_board db));
                dismissals = filter (\<lambda>d. di_to d \<ge> first_day \<and> di_from d < last_end_date) (bd_dismissals (sd_board db));
                spans = concat (map (\<lambda>a. map (make_span a)
                  (runs_of (effective_on overrides dismissals a)
                     (days_from_to (da_start_date a) (da_end_date a)))) assignments)
            in sort_key sp_start_date
                 (filter (\<lambda>sp. (case soldier_ids of None \<Rightarrow> True | Some ids \<Rightarrow> sp_soldier_id sp \<in> set ids)
                    \<and> in_window date_from date_to sp) spans)))"

definition effective_duty_spans :: "score_db \<Rightarrow> uuid list option \<Rightarrow> date option \<Rightarrow> date option \<Rightarrow> span list" where
  "effective_duty_spans db = effective_duty_spans_impl db [Published]"

definition effective_duty_spans_with_drafts :: "score_db \<Rightarrow> uuid list option \<Rightarrow> date option \<Rightarrow> date option
    \<Rightarrow> span list" where
  "effective_duty_spans_with_drafts db = effective_duty_spans_impl db [Published, Algorithm_draft]"

section \<open>Totals\<close>

definition shift_count_by_soldier :: "score_db \<Rightarrow> uuid \<Rightarrow> nat" where
  "shift_count_by_soldier db =
     (let counts = fold (\<lambda>sp c. c(sp_soldier_id sp := insert (sp_assignment_id sp) (c (sp_soldier_id sp))))
            (effective_duty_spans db None None None) (\<lambda>_. {})
      in (\<lambda>s. card (counts s)))"

definition duty_score_by_soldier :: "score_db \<Rightarrow> uuid \<Rightarrow> decimal" where
  "duty_score_by_soldier db =
     fold (\<lambda>(day, eff, type_id, mult) out. out(eff := out eff + type_score db type_id * mult))
       (effective_duty_days db None None) (\<lambda>_. 0)"

definition duty_stats_by_soldier :: "score_db \<Rightarrow> (uuid \<Rightarrow> decimal) \<times> (uuid \<Rightarrow> nat)" where
  "duty_stats_by_soldier db =
     (let (scores, sets) = fold (\<lambda>r (scores, sets).
            (scores(dd_soldier_id r := scores (dd_soldier_id r) + type_score db (dd_type_id r) * dd_weighted r),
             sets(dd_soldier_id r := insert (dd_assignment_id r) (sets (dd_soldier_id r)))))
          (effective_duty_day_rows db [Published] None None None) (\<lambda>_. 0, \<lambda>_. {})
      in (scores, \<lambda>s. card (sets s)))"

definition adjustments_by_soldier :: "score_db \<Rightarrow> uuid \<Rightarrow> decimal" where
  "adjustments_by_soldier db s =
     (\<Sum>a \<leftarrow> filter (\<lambda>a. sa_soldier_id a = s) (sd_adjustments db). sa_delta a)"

definition cumulative_score :: "score_db \<Rightarrow> uuid \<Rightarrow> decimal" where
  "cumulative_score db s = duty_score_by_soldier db s + adjustments_by_soldier db s"

section \<open>Active days\<close>

definition full_coverage_types :: "score_db \<Rightarrow> uuid list" where
  "full_coverage_types db =
     (let active = map dt_id (filter dt_active (bd_duty_types (sd_board db)));
          rows = bd_exempt_duty_types (sd_board db)
      in if active = [] then []
         else filter (\<lambda>t. list_all (\<lambda>d. (t, d) \<in> set rows) active) (remdups (map fst rows)))"

definition full_coverage_exemptions :: "score_db \<Rightarrow> uuid \<Rightarrow> SoldierExemption list" where
  "full_coverage_exemptions db soldier_id =
     filter (\<lambda>e. ex_soldier_id e = soldier_id \<and> ex_type_id e \<in> set (full_coverage_types db))
       (bd_exemptions (sd_board db))"

definition clip :: "date \<Rightarrow> date \<Rightarrow> SoldierExemption \<Rightarrow> date \<times> date" where
  "clip start stop e = (max (ex_start_date e) start,
     case ex_end_date e of None \<Rightarrow> stop | Some x \<Rightarrow> min x stop)"

definition full_coverage_exempt_dates :: "score_db \<Rightarrow> uuid \<Rightarrow> date \<Rightarrow> date \<Rightarrow> date set" where
  "full_coverage_exempt_dates db soldier_id start stop =
     set (concat (map (\<lambda>e. case clip start stop e of (lo, hi) \<Rightarrow> days_from_to lo (hi + 1))
       (full_coverage_exemptions db soldier_id)))"

text \<open>A pair of days as Python compares it, in the order \<open>ranges.sort()\<close> puts them.\<close>

datatype day_range = Day_range (lo_day: date) (hi_day: date)

instantiation day_range :: linorder
begin

definition less_eq_day_range :: "day_range \<Rightarrow> day_range \<Rightarrow> bool" where
  "less_eq_day_range x y \<longleftrightarrow> lo_day x < lo_day y \<or> (lo_day x = lo_day y \<and> hi_day x \<le> hi_day y)"

definition less_day_range :: "day_range \<Rightarrow> day_range \<Rightarrow> bool" where
  "less_day_range x y \<longleftrightarrow> lo_day x < lo_day y \<or> (lo_day x = lo_day y \<and> hi_day x < hi_day y)"

instance
  by standard (auto simp: less_eq_day_range_def less_day_range_def intro: day_range.expand)

end

fun merge_ranges :: "day_range \<Rightarrow> day_range list \<Rightarrow> int" where
  "merge_ranges cur [] = hi_day cur - lo_day cur + 1"
| "merge_ranges cur (r # rs) =
     (if lo_day r \<le> hi_day cur + 1 then merge_ranges (Day_range (lo_day cur) (max (hi_day cur) (hi_day r))) rs
      else hi_day cur - lo_day cur + 1 + merge_ranges r rs)"

definition count_exempt_days :: "SoldierExemption list \<Rightarrow> date \<Rightarrow> date \<Rightarrow> int" where
  "count_exempt_days exemptions start stop =
     (case sort (map (\<lambda>(lo, hi). Day_range lo hi) (filter (\<lambda>(lo, hi). lo \<le> hi) (map (clip start stop) exemptions))) of
        [] \<Rightarrow> 0 | r # rs \<Rightarrow> merge_ranges r rs)"

definition effective_active_start :: "date \<Rightarrow> date option \<Rightarrow> date" where
  "effective_active_start reference_date unit_join_date =
     (case unit_join_date of None \<Rightarrow> reference_date | Some x \<Rightarrow> max reference_date x)"

definition active_day_interval :: "Soldier \<Rightarrow> date \<Rightarrow> date \<Rightarrow> date \<times> date" where
  "active_day_interval s reference_date today =
     (effective_active_start reference_date (so_unit_join_date s),
      min today (min (default (so_discharge_date s) today) (default (so_left_at s) today)))"

definition burden_share_reset_date :: "score_db \<Rightarrow> date \<Rightarrow> date" where
  "burden_share_reset_date db today =
     (case ss_reset_date (sd_settings db) of Some d \<Rightarrow> d
      | None \<Rightarrow>
          (let starts = map da_start_date (filter (\<lambda>a. da_status a = Published) (bd_assignments (sd_board db)))
           in if starts \<noteq> [] then quarter_start (Min (set starts))
              else quarter_start (civil (year_of today - 2) (month_of today) 1)))"

definition active_days :: "score_db \<Rightarrow> date \<Rightarrow> Soldier \<Rightarrow> int" where
  "active_days db today s =
     (case active_day_interval s (burden_share_reset_date db today) today of
        (effective_start, calculation_end) \<Rightarrow>
          max 1 (max 1 (calculation_end - effective_start)
            - int (card (full_coverage_exempt_dates db (so_id s) effective_start today))))"

definition bulk_active_days :: "score_db \<Rightarrow> date \<Rightarrow> Soldier list \<Rightarrow> (uuid, int) dict" where
  "bulk_active_days db today soldiers =
     map (\<lambda>s. (so_id s,
       (case active_day_interval s (burden_share_reset_date db today) today of
          (effective_start, calculation_end) \<Rightarrow>
            (let raw = max 1 (calculation_end - effective_start)
             in if full_coverage_types db = [] then raw
                else max 1 (raw - count_exempt_days
                  (filter (\<lambda>e. ex_soldier_id e = so_id s)
                    (filter (\<lambda>e. ex_soldier_id e \<in> set (map so_id soldiers)
                        \<and> ex_type_id e \<in> set (full_coverage_types db)) (bd_exemptions (sd_board db))))
                  effective_start today))))) soldiers"

definition normalised_score :: "score_db \<Rightarrow> date \<Rightarrow> Soldier \<Rightarrow> decimal" where
  "normalised_score db today s = cumulative_score db (so_id s) / of_int (active_days db today s)"

section \<open>Reset dates\<close>

definition resolve_reset_date_from_path :: "uuid list \<Rightarrow> (uuid, date option) dict \<Rightarrow> date \<Rightarrow> score_error + date" where
  "resolve_reset_date_from_path path_ids overrides default_date =
     (case find (\<lambda>i. map_of overrides i \<noteq> None) (rev path_ids) of
        None \<Rightarrow> Inr default_date
      | Some i \<Rightarrow> (case map_of overrides i of Some (Some d) \<Rightarrow> Inr d | _ \<Rightarrow> Inl Malformed_reset_date))"

definition earliest_configured_reset_date :: "score_db \<Rightarrow> date \<Rightarrow> date" where
  "earliest_configured_reset_date db today =
     fold (\<lambda>v earliest. case v of None \<Rightarrow> earliest | Some d \<Rightarrow> if d < earliest then d else earliest)
       (map snd (ss_reset_overrides (sd_settings db))) (burden_share_reset_date db today)"

definition path_of_node :: "score_db \<Rightarrow> uuid \<Rightarrow> uuid list" where
  "path_of_node db i = (case find (\<lambda>n. n_id n = i) (sd_nodes db) of None \<Rightarrow> [] | Some n \<Rightarrow> n_path_ids n)"

definition reset_date_of :: "score_db \<Rightarrow> date \<Rightarrow> Soldier \<Rightarrow> score_error + date" where
  "reset_date_of db today s =
     (let fallback = burden_share_reset_date db today
      in case so_hierarchy_node_id s of None \<Rightarrow> Inr fallback
         | Some i \<Rightarrow> resolve_reset_date_from_path (path_of_node db i) (ss_reset_overrides (sd_settings db)) fallback)"

fun resolve_reset_dates_for_soldiers :: "score_db \<Rightarrow> date \<Rightarrow> Soldier list \<Rightarrow> score_error + (uuid, date) dict" where
  "resolve_reset_dates_for_soldiers db today [] = Inr []"
| "resolve_reset_dates_for_soldiers db today (s # ss) =
     (case reset_date_of db today s of Inl e \<Rightarrow> Inl e
      | Inr d \<Rightarrow> (case resolve_reset_dates_for_soldiers db today ss of Inl e \<Rightarrow> Inl e
          | Inr rows \<Rightarrow> Inr ((so_id s, d) # rows)))"

definition burden_share_planning_start :: "score_db \<Rightarrow> date \<Rightarrow> date" where
  "burden_share_planning_start db today =
     (let ends = map da_end_date (filter (\<lambda>a. da_status a = Published) (bd_assignments (sd_board db)))
      in if ends \<noteq> [] \<and> Max (set ends) \<ge> today then Max (set ends) + 1 else today)"

end
