(* ===== verification/CallUpsReach.thy ===== *)
theory CallUpsReach
  imports CallUpsSound Scoring
begin

text \<open>
  Reserves on call as a state machine on top of that of the duty board, and their properties:
  sound tables, relinking to the nearest free reserve, and a dismissal that can be taken back.
\<close>

section \<open>Steps\<close>

inductive reserve_step :: "reserve_db \<Rightarrow> reserve_db \<Rightarrow> bool" where
  re_call_up: "call_up_reserve d a x y u = Inr d' \<Longrightarrow> a \<in> set (bd_assignments (rd_board d)) \<Longrightarrow> reserve_step d d'"
| re_dismiss_primary: "dismiss_primary d n a x y reason u = Inr d' \<Longrightarrow> a \<in> set (bd_assignments (rd_board d))
    \<Longrightarrow> reserve_step d d'"
| re_dismiss_reserve: "dismiss_reserve d n ids a x y reason u cover = Inr (rs, d')
    \<Longrightarrow> a \<in> set (bd_assignments (rd_board d)) \<Longrightarrow> reserve_step d d'"
| re_delete: "reserve_step d (delete_dismissal d z u)"
| re_relink: "relink_reserve d n p j u = Inr (k, d') \<Longrightarrow> p \<in> set (bd_assignments (rd_board d)) \<Longrightarrow> reserve_step d d'"
| re_reallocate: "reallocate_orphaned_primaries d ids sh i x y u = (rs, d') \<Longrightarrow> reserve_step d d'"
| re_board: "board_step (rd_board d) s \<Longrightarrow> reserve_step d (d\<lparr>rd_board := s\<rparr>)"
| re_other: "bd_assignments (rd_board d') = bd_assignments (rd_board d)
    \<Longrightarrow> bd_overrides (rd_board d') = bd_overrides (rd_board d)
    \<Longrightarrow> bd_dismissals (rd_board d') = bd_dismissals (rd_board d) \<Longrightarrow> rd_links d' = rd_links d \<Longrightarrow> reserve_step d d'"

inductive_cases reserve_stepE: "reserve_step d d'"

definition no_reserves :: "reserve_db \<Rightarrow> bool" where
  "no_reserves d \<longleftrightarrow> empty_board (rd_board d) \<and> bd_dismissals (rd_board d) = [] \<and> rd_links d = []"

lemma reserve_step_ok:
  assumes "reserve_step d d'" "reserves_ok d"
  shows "reserves_ok d'"
  using assms
proof (induction rule: reserve_step.induct)
  case (re_relink d n p j u k d')
  then show ?case using relink_ok by blast
next
  case (re_board d s)
  then have "same_cores (rd_board d) s" "bd_dismissals s = bd_dismissals (rd_board d)" "list_all call_ok (bd_assignments s)"
    using board_step_rows [OF re_board(1)] by (auto simp: reserves_ok_def)
  moreover have "board_ok s" using duties.step_good [OF _ re_board(1)] re_board(2) by (simp add: reserves_ok_def)
  ultimately show ?case by (intro rows_kept [OF re_board(2)]) simp_all
next
  case (re_other d' d)
  then show ?case using reserves_ok_cong by blast
qed (blast intro: call_up_ok dismiss_primary_ok dismiss_reserve_ok delete_dismissal_ok reallocate_ok)+

interpretation reserves: invariant_system no_reserves reserve_step reserves_ok
proof
  fix d assume "no_reserves d"
  then show "reserves_ok d"
    using duties.start_good [of "rd_board d"] by (simp add: no_reserves_def reserves_ok_def empty_board_def)
qed (use reserve_step_ok in blast)

section \<open>Reallocation\<close>

definition link_of :: "reserve_db \<Rightarrow> uuid \<Rightarrow> DutyReserveLink option" where
  "link_of d i = find (\<lambda>l. rk_primary_id l = i) (rd_links d)"

definition placed_distance :: "reserve_db \<Rightarrow> DutyAssignment \<Rightarrow> DutyAssignment \<Rightarrow> int option" where
  "placed_distance d p r =
     (case (soldier_node_of d (da_soldier_id p), soldier_node_of d (da_soldier_id r)) of
        (Some a, Some b) \<Rightarrow> Some (hierarchy_distance a b (parents_of d)) | _ \<Rightarrow> None)"

text \<open>What a reallocation does with one primary, given the reserves that are free.\<close>

definition nearest_row :: "reserve_db \<Rightarrow> reserve_db \<Rightarrow> DutyAssignment list \<Rightarrow> DutyAssignment \<Rightarrow> reallocation \<Rightarrow> bool" where
  "nearest_row d d' available p row \<longleftrightarrow> ra_primary_id row = da_id p
     \<and> (case ra_new_reserve_id row of
          None \<Rightarrow> link_of d' (da_id p) = link_of d (da_id p)
            \<and> list_all (\<lambda>r. case placed_distance d p r of None \<Rightarrow> True | Some m \<Rightarrow> 999 \<le> m) available
        | Some j \<Rightarrow> list_ex (\<lambda>r. da_id r = j \<and> placed_distance d p r = ra_distance row) available
            \<and> list_all (\<lambda>r. case placed_distance d p r of None \<Rightarrow> True | Some m \<Rightarrow> the (ra_distance row) \<le> m) available
            \<and> map_option rk_reserve_id (link_of d' (da_id p)) = Some j
            \<and> map_option rk_distance (link_of d' (da_id p)) = ra_distance row)"

definition same_places :: "reserve_db \<Rightarrow> reserve_db \<Rightarrow> bool" where
  "same_places d d' \<longleftrightarrow> soldier_node_of d' = soldier_node_of d \<and> parents_of d' = parents_of d"

lemma same_places_refl [simp]: "same_places d d"
  by (simp add: same_places_def)

lemma places_kept [simp]:
  "same_places d (audit_reserve u t i (replace_link n p r k d))"
  by (simp add: same_places_def fun_eq_iff soldier_node_of_def parents_of_def)

lemma link_of_audit [simp]: "link_of (audit_reserve u t i d) j = link_of d j"
  by (simp add: link_of_def)

lemma link_of_replace:
  "link_of (replace_link n p r k d) j = (if j = p then Some \<lparr>rk_id = n, rk_reserve_id = r, rk_primary_id = p, rk_distance = k\<rparr>
    else link_of d j)"
proof -
  have "find (\<lambda>l. rk_primary_id l = j) (filter (\<lambda>l. rk_primary_id l \<noteq> p) ls)
    = (if j = p then None else find (\<lambda>l. rk_primary_id l = j) ls)" for ls :: "DutyReserveLink list"
    by (induction ls) auto
  then show ?thesis by (simp add: link_of_def replace_link_def find_append split: option.split)
qed

lemma best_reserve_least:
  "best_reserve node distance_to rs b = (best, k) \<Longrightarrow>
    k \<le> snd b \<and> (\<forall>r \<in> set rs. \<forall>n. node (da_soldier_id r) = Some n \<longrightarrow> k \<le> distance_to n)
    \<and> ((best, k) = b \<or> (\<exists>r \<in> set rs. \<exists>n. best = Some r \<and> node (da_soldier_id r) = Some n \<and> k = distance_to n))"
proof (induction node distance_to rs b rule: best_reserve.induct)
  case (2 node distance_to r rs b)
  show ?case
  proof (cases "node (da_soldier_id r)")
    case None
    then show ?thesis using 2 by auto
  next
    case (Some n)
    show ?thesis using 2(2) [OF Some] 2(3) Some by (cases "distance_to n < snd b") auto
  qed
qed auto

lemma reallocate_one_row:
  assumes "reallocate_one i ids available u p (rs, d) = (rs', d')"
  shows "\<exists>row. rs' = rs @ [row] \<and> nearest_row d d' available p row \<and> same_places d d'
    \<and> (\<forall>j. j \<noteq> da_id p \<longrightarrow> link_of d' j = link_of d j)"
proof (cases "soldier_node_of d (da_soldier_id p)")
  case None
  then have "placed_distance d p r = None" for r by (simp add: placed_distance_def)
  then show ?thesis using assms None by (auto simp: reallocate_one_def nearest_row_def list_all_iff)
next
  case (Some a)
  let ?dist = "\<lambda>n. hierarchy_distance a n (parents_of d)"
  obtain b k where b: "best_reserve (soldier_node_of d) ?dist available (None, 999) = (b, k)" by (metis surj_pair)
  have near: "placed_distance d p r = map_option ?dist (soldier_node_of d (da_soldier_id r))" for r
    using Some by (simp add: placed_distance_def split: option.split)
  have least: "list_all (\<lambda>r. case placed_distance d p r of None \<Rightarrow> True | Some m \<Rightarrow> k \<le> m) available"
    using best_reserve_least [OF b] by (auto simp: list_all_iff near split: option.split)
  show ?thesis
  proof (cases b)
    case None
    then have "k = 999" using best_reserve_least [OF b] by auto
    then show ?thesis using assms Some b None least by (auto simp: reallocate_one_def nearest_row_def)
  next
    case (Some r)
    then have "r \<in> set available" "placed_distance d p r = Some k"
      using best_reserve_least [OF b] by (auto simp: near)
    then have "list_ex (\<lambda>q. da_id q = da_id r \<and> placed_distance d p q = Some k) available"
      by (auto simp: list_ex_iff)
    then show ?thesis using assms b Some least \<open>soldier_node_of d (da_soldier_id p) = Some a\<close>
      by (auto simp: reallocate_one_def nearest_row_def link_of_replace cong: option.case_cong)
  qed
qed

lemma placed_places: "same_places d d1 \<Longrightarrow> placed_distance d1 = placed_distance d"
  by (intro ext) (simp add: same_places_def placed_distance_def cong: option.case_cong)

lemma nearest_row_places:
  "same_places d d1 \<Longrightarrow> link_of d1 (da_id p) = link_of d (da_id p) \<Longrightarrow> nearest_row d1 d' available p = nearest_row d d' available p"
  using placed_places [of d d1] by (simp add: fun_eq_iff nearest_row_def cong: option.case_cong)

lemma reallocate_fold_rows:
  "fold (reallocate_one i ids available u) ps (rs, d) = (rs', d') \<Longrightarrow> distinct (map da_id ps)
    \<Longrightarrow> \<exists>rows. rs' = rs @ rows \<and> list_all2 (nearest_row d d' available) ps rows \<and> same_places d d'
        \<and> (\<forall>j. j \<notin> da_id ` set ps \<longrightarrow> link_of d' j = link_of d j)"
proof (induction ps arbitrary: rs d)
  case (Cons p ps)
  obtain rs1 d1 where one: "reallocate_one i ids available u p (rs, d) = (rs1, d1)" by (metis surj_pair)
  obtain row where row: "rs1 = rs @ [row]" "nearest_row d d1 available p row" "same_places d d1"
    "\<forall>j. j \<noteq> da_id p \<longrightarrow> link_of d1 j = link_of d j"
    using reallocate_one_row [OF one] by blast
  obtain rows where rows: "rs' = rs1 @ rows" "list_all2 (nearest_row d1 d' available) ps rows" "same_places d1 d'"
    "\<forall>j. j \<notin> da_id ` set ps \<longrightarrow> link_of d' j = link_of d1 j"
    using Cons.IH [of rs1 d1] Cons.prems one by auto
  have "link_of d' (da_id p) = link_of d1 (da_id p)" using rows(4) Cons.prems(2) by auto
  then have "nearest_row d d' available p row" using row(2)
    by (simp add: nearest_row_def cong: option.case_cong)
  moreover have "list_all2 (nearest_row d d' available) ps rows"
    using rows(2)
  proof (rule list.rel_mono_strong)
    fix q r assume q: "q \<in> set ps" "nearest_row d1 d' available q r"
    have "da_id p \<notin> da_id ` set ps" using Cons.prems(2) by simp
    then have "da_id q \<noteq> da_id p" using q(1) by (metis image_eqI)
    then show "nearest_row d d' available q r" using nearest_row_places [OF row(3)] row(4) q(2) by auto
  qed
  moreover have "same_places d d'" using row(3) rows(3) by (simp add: same_places_def)
  ultimately show ?case using row(1,4) rows(1,4) by auto
qed simp

lemma apart_one:
  assumes "sorted_wrt apart rows"
  shows "length (filter (\<lambda>x. di_assignment_id x = i \<and> di_from x \<le> day \<and> day \<le> di_to x) rows) \<le> 1"
  using assms
proof (induction rows)
  case (Cons x rows)
  show ?case
  proof (cases "di_assignment_id x = i \<and> di_from x \<le> day \<and> day \<le> di_to x")
    case True
    then have "\<not> (di_assignment_id y = i \<and> di_from y \<le> day \<and> day \<le> di_to y)" if "y \<in> set rows" for y
      using Cons.prems that by (auto simp: apart_def)
    then show ?thesis by (simp add: filter_empty_conv)
  next
    case False
    then have "filter (\<lambda>x. di_assignment_id x = i \<and> di_from x \<le> day \<and> day \<le> di_to x) (x # rows)
      = filter (\<lambda>x. di_assignment_id x = i \<and> di_from x \<le> day \<and> day \<le> di_to x) rows" by auto
    then show ?thesis using Cons by simp
  qed
qed simp

section \<open>Dismissed reserves\<close>

text \<open>The choice of a new reserve does not look at the dismissals of the candidates.\<close>

lemma dismissed_reserve_chosen:
  "filter (called_up_free x y) (other_reserves (s\<lparr>bd_dismissals := rows\<rparr>) sh i)
    = filter (called_up_free x y) (other_reserves s sh i)"
  by (simp add: other_reserves_def)

text \<open>A dismissed day of a reserve counts like any other day of his.\<close>

lemma dismissed_reserve_earns:
  "da_is_reserve a \<Longrightarrow> multiplier_of db a day (Some x) = multiplier_of db a day None"
  by (simp add: multiplier_of_def)

section \<open>Properties\<close>

text \<open>
  A shift with a primary and two reserves, one of them linked to the primary; the other one
  sits in the node of the primary.
\<close>

definition sample_post0 :: reserve_db where
  "sample_post0 = \<lparr>rd_board = sample_board\<lparr>bd_soldiers := [sample_private\<lparr>so_hierarchy_node_id := Some 10\<rparr>,
       sample_private\<lparr>so_id := 5, so_hierarchy_node_id := Some 11\<rparr>,
       sample_private\<lparr>so_id := 6, so_hierarchy_node_id := Some 10\<rparr>],
       bd_shifts := [\<lparr>sh_id = 50, sh_type_id = 31, sh_location_id = 32, sh_start_date = 700010,
         sh_end_date = 700012, sh_start_time = (0, 0), sh_end_time = (23, 59), sh_required_count = 1, sh_active = True,
         sh_reserve_override = None, sh_eligible_node_ids = None, sh_template_id = None\<rparr>]\<rparr>,
     rd_nodes = map (\<lambda>(i, up). \<lparr>n_id = i, n_level = ''team'', n_name = ''n'', n_parent_id = up, n_commander_id = None,
       n_path_ids = []\<rparr>) [(1, None), (10, Some 1), (11, Some 1)],
     rd_links = []\<rparr>"

definition sample_post :: "reserve_db \<Rightarrow> uuid \<Rightarrow> uuid \<Rightarrow> bool \<Rightarrow> reserve_db" where
  "sample_post d i sid is_reserve = d\<lparr>rd_board := projr (create_assignment (rd_board d) i sid 31 32 700010 700012
     (Some 50) is_reserve None None)\<rparr>"

definition sample_post1 :: reserve_db where "sample_post1 = sample_post sample_post0 40 4 False"
definition sample_post2 :: reserve_db where "sample_post2 = sample_post sample_post1 41 5 True"
definition sample_post3 :: reserve_db where "sample_post3 = sample_post sample_post2 42 6 True"

definition sample_primary :: DutyAssignment where
  "sample_primary = the (assignment_of (rd_board sample_post3) 40)"

definition sample_post4 :: reserve_db where
  "sample_post4 = snd (projr (relink_reserve sample_post3 60 sample_primary 41 None))"

lemma Inr_projr: "\<not> isl x \<Longrightarrow> x = Inr (projr x)"
  by (cases x) simp_all

lemma sample_post_step:
  assumes "\<not> isl (create_assignment (rd_board d) i sid 31 32 700010 700012 (Some 50) r None None)"
    and "assignment_of (rd_board d) i = None"
  shows "reserve_step d (sample_post d i sid r)"
  unfolding sample_post_def by (rule re_board, rule step_create [OF Inr_projr [OF assms(1)] assms(2)])

lemma sample_post_reachable: "reachable no_reserves reserve_step sample_post4"
proof (rule reachable_step)
  have "reserve_step sample_post0 sample_post1" unfolding sample_post1_def by (rule sample_post_step) code_simp+
  moreover have "reserve_step sample_post1 sample_post2" unfolding sample_post2_def by (rule sample_post_step) code_simp+
  moreover have "reserve_step sample_post2 sample_post3" unfolding sample_post3_def by (rule sample_post_step) code_simp+
  moreover have "no_reserves sample_post0"
    by (simp add: no_reserves_def sample_post0_def empty_board_def sample_board_def)
  ultimately show "reachable no_reserves reserve_step sample_post3"
    using reachable_start reachable_step by metis
  have p: "assignment_of (rd_board sample_post3) 40 = Some sample_primary"
  proof -
    have "assignment_of (rd_board sample_post3) 40 \<noteq> None" by code_simp
    then show ?thesis by (auto simp: sample_primary_def)
  qed
  have "\<not> isl (relink_reserve sample_post3 60 sample_primary 41 None)" by code_simp
  then have "relink_reserve sample_post3 60 sample_primary 41 None
      = Inr (fst (projr (relink_reserve sample_post3 60 sample_primary 41 None)), sample_post4)"
    by (simp add: sample_post4_def Inr_projr)
  then show "reserve_step sample_post3 sample_post4" by (rule re_relink) (use assignment_of_Some [OF p] in simp)
qed

text \<open>
  C26. The tables of the reserves are sound.  Whatever call-ups, dismissals, relinks and
  bookings happen, in whatever order, only reserves are called up and only for days of their
  duty, every dismissal is for days of its assignment, a day has at most one, and every link
  joins a primary, at most once, to a reserve.
\<close>

theorem reserve_tables_sound:
  assumes "reachable no_reserves reserve_step d"
  shows "list_all call_ok (bd_assignments (rd_board d))
    \<and> list_all (dismissal_ok (rd_board d)) (bd_dismissals (rd_board d))
    \<and> length (filter (\<lambda>x. di_assignment_id x = i \<and> di_from x \<le> day \<and> day \<le> di_to x) (bd_dismissals (rd_board d))) \<le> 1
    \<and> list_all (link_ok (rd_board d)) (rd_links d) \<and> distinct (map rk_primary_id (rd_links d))"
  using reserves.reachable_good [OF assms] apart_one by (auto simp: reserves_ok_def)

lemma reserve_tables_sound_witness:
  "list_all (link_ok (rd_board sample_post4)) (rd_links sample_post4) \<and> map rk_primary_id (rd_links sample_post4) = [40]"
proof -
  have "map rk_primary_id (rd_links sample_post4) = [40]" by code_simp
  then show ?thesis using reserve_tables_sound [OF sample_post_reachable] by simp
qed

text \<open>
  C27. Relinking finds the nearest free reserve.  When a reserve drops out, every primary
  linked to it whose days meet the range is handled once, in the order of the ids: it is
  linked to a reserve of the shift that is not called up in the range and that no other such
  reserve is closer than, or, when there is none with a place, keeps its link; the links of
  all other primaries stay.
\<close>

theorem reallocation_nearest:
  assumes "reachable no_reserves reserve_step d"
    and "reallocate_orphaned_primaries d link_ids shift_id reserve_id x y actor_id = (rows, d')"
  shows "list_all2 (nearest_row d d' (filter (called_up_free x y) (other_reserves (rd_board d) shift_id reserve_id)))
      (affected_primaries d shift_id reserve_id x y) rows
    \<and> (if j \<in> da_id ` set (affected_primaries d shift_id reserve_id x y) then True else link_of d' j = link_of d j)"
proof -
  have "distinct (map da_id (bd_assignments (rd_board d)))"
    using reserves.reachable_good [OF assms(1)] by (simp add: reserves_ok_def board_ok_def rows_ok_def)
  then have "distinct (map da_id (affected_primaries d shift_id reserve_id x y))"
    by (auto simp: affected_primaries_def Let_def distinct_map inj_on_def)
  then show ?thesis
    using reallocate_fold_rows [OF assms(2) [unfolded reallocate_orphaned_primaries_def]] by auto
qed

lemma reallocation_nearest_witness:
  "link_of (snd (reallocate_orphaned_primaries sample_post4 (\<lambda>i. i + 100) (Some 50) 41 700010 700011 None)) 40
     = Some \<lparr>rk_id = 140, rk_reserve_id = 42, rk_primary_id = 40, rk_distance = 0\<rparr>
   \<and> map da_id (affected_primaries sample_post4 (Some 50) 41 700010 700011) = [40]
   \<and> link_of (snd (reallocate_orphaned_primaries sample_post4 (\<lambda>i. i + 100) (Some 50) 41 700010 700011 None)) 77
     = link_of sample_post4 77"
proof -
  have "link_of (snd (reallocate_orphaned_primaries sample_post4 (\<lambda>i. i + 100) (Some 50) 41 700010 700011 None)) 40
     = Some \<lparr>rk_id = 140, rk_reserve_id = 42, rk_primary_id = 40, rk_distance = 0\<rparr>" by code_simp
  moreover have a: "map da_id (affected_primaries sample_post4 (Some 50) 41 700010 700011) = [40]" by code_simp
  moreover have "77 \<notin> da_id ` set (affected_primaries sample_post4 (Some 50) 41 700010 700011)"
    using arg_cong [OF a, of set] by simp
  ultimately show ?thesis
    using reallocation_nearest [OF sample_post_reachable prod.collapse [symmetric], where j = 77] by simp
qed

text \<open>
  C28. A dismissal does what it says and can be taken back.  On its days, unless the day was
  handed to somebody by an override, nobody serves the assignment; on every other day the
  same soldier serves as before; and deleting the dismissal leaves the board as it was, but
  for the audit.
\<close>

theorem dismiss_and_back:
  assumes "dismiss_primary d new_id a x y reason u = Inr d'" "list_all (\<lambda>z. di_id z \<noteq> new_id) (bd_dismissals (rd_board d))"
  shows "effective_soldier_on_date (rd_board d') b day
      = (if da_id b = da_id a \<and> x \<le> day \<and> day \<le> y \<and> override_on (rd_board d) (da_id a) day = None then None
         else effective_soldier_on_date (rd_board d) b day)
    \<and> (rd_board (delete_dismissal d' \<lparr>di_id = new_id, di_assignment_id = da_id a, di_from = x, di_to = y,
          di_reason = reason\<rparr> v))\<lparr>bd_audit := bd_audit (rd_board d)\<rparr> = rd_board d"
proof -
  let ?new = "\<lparr>di_id = new_id, di_assignment_id = da_id a, di_from = x, di_to = y, di_reason = reason\<rparr>"
  have b: "rd_board d' = audit_board u ''reserve.dismiss'' new_id ((rd_board d)\<lparr>bd_dismissals := bd_dismissals (rd_board d) @ [?new]\<rparr>)"
    using assms(1) by (auto simp: dismiss_primary_def audit_reserve_def add_dismissal_def split: option.splits if_split_asm)
  have "override_on (rd_board d') = override_on (rd_board d)" by (simp add: b fun_eq_iff override_on_def)
  then have "effective_soldier_on_date (rd_board d') b day
      = (if da_id b = da_id a \<and> x \<le> day \<and> day \<le> y \<and> override_on (rd_board d) (da_id a) day = None then None
         else effective_soldier_on_date (rd_board d) b day)"
    by (auto simp: effective_soldier_on_date_def b split: option.split)
  moreover have "filter (\<lambda>z. di_id z \<noteq> new_id) (bd_dismissals (rd_board d)) = bd_dismissals (rd_board d)"
    using assms(2) by (simp add: list_all_iff filter_id_conv)
  ultimately show ?thesis by (simp add: b delete_dismissal_def audit_board_def)
qed

lemma dismiss_and_back_witness:
  "effective_soldier_on_date (rd_board (projr (dismiss_primary sample_post4 70 sample_primary 700010 700010 None None)))
     sample_primary 700010 = None
   \<and> effective_soldier_on_date (rd_board (projr (dismiss_primary sample_post4 70 sample_primary 700010 700010 None None)))
     sample_primary 700011 = Some 4"
proof -
  have d: "dismiss_primary sample_post4 70 sample_primary 700010 700010 None None
      = Inr (projr (dismiss_primary sample_post4 70 sample_primary 700010 700010 None None))"
    by (rule Inr_projr) code_simp
  have n: "list_all (\<lambda>z. di_id z \<noteq> 70) (bd_dismissals (rd_board sample_post4))" by code_simp
  have "override_on (rd_board sample_post4) (da_id sample_primary) 700010 = None"
    "effective_soldier_on_date (rd_board sample_post4) sample_primary 700011 = Some 4" by code_simp+
  then show ?thesis
    using dismiss_and_back [OF d n, of sample_primary 700010] dismiss_and_back [OF d n, of sample_primary 700011] by simp
qed

end
