(* ===== verification/SpansSound.thy ===== *)
theory SpansSound
  imports ScoringSound
begin

text \<open>
  Spans of duty: the loop that merges days into runs finds exactly the maximal runs of one
  effective soldier, in order, and the selective query for some soldiers and a window of days
  gives the same spans as filtering all of them.
\<close>

section \<open>Maximal runs\<close>

definition maximal_runs :: "(date \<Rightarrow> uuid option) \<Rightarrow> date \<Rightarrow> date \<Rightarrow> (uuid \<times> date \<times> date) set" where
  "maximal_runs eff a b = {(s, x, y). a \<le> x \<and> x \<le> y \<and> y < b \<and> (\<forall>d. x \<le> d \<and> d \<le> y \<longrightarrow> eff d = Some s)
     \<and> (x = a \<or> eff (x - 1) \<noteq> Some s) \<and> (y = b - 1 \<or> eff (y + 1) \<noteq> Some s)}"

lemma maximal_run_unique:
  assumes "(s, x, y) \<in> maximal_runs eff a b" "(s', x', y') \<in> maximal_runs eff a b"
    and "x \<le> d" "d \<le> y" "x' \<le> d" "d \<le> y'"
  shows "s' = s \<and> x' = x \<and> y' = y"
proof -
  have day: "eff t = Some s" if "x \<le> t" "t \<le> y" for t using that assms(1) by (simp add: maximal_runs_def)
  have day': "eff t = Some s'" if "x' \<le> t" "t \<le> y'" for t using that assms(2) by (simp add: maximal_runs_def)
  have s: "s' = s" using day [of d] day' [of d] assms(3-6) by simp
  have "\<not> x < x'" using assms s day [of "x' - 1"] by (auto simp: maximal_runs_def)
  moreover have "\<not> x' < x" using assms s day' [of "x - 1"] by (auto simp: maximal_runs_def)
  moreover have "\<not> y < y'" using assms s day' [of "y + 1"] by (auto simp: maximal_runs_def)
  moreover have "\<not> y' < y" using assms s day [of "y' + 1"] by (auto simp: maximal_runs_def)
  ultimately show ?thesis using s by simp
qed

lemma maximal_run_at:
  assumes "a \<le> d" "d < b" "eff d = Some s"
  shows "\<exists>x y. (s, x, y) \<in> maximal_runs eff a b \<and> x \<le> d \<and> d \<le> y"
  using assms
proof (induction "nat (b - a)" arbitrary: b d)
  case (Suc n)
  show ?case
  proof (cases "d = b - 1")
    case last: True
    show ?thesis
    proof (cases "a \<le> d - 1 \<and> eff (d - 1) = Some s")
      case True
      have "n = nat (d - a)" using Suc.hyps(2) last by simp
      with True obtain x y where r: "(s, x, y) \<in> maximal_runs eff a d" "x \<le> d - 1" "d - 1 \<le> y"
        using Suc.hyps(1) [of d "d - 1"] by auto
      then have "y = d - 1" by (auto simp: maximal_runs_def)
      moreover have "eff t = Some s" if "x \<le> t" "t \<le> d" for t
        using r \<open>y = d - 1\<close> that Suc.prems(3) by (cases "t = d") (auto simp: maximal_runs_def)
      ultimately have "(s, x, d) \<in> maximal_runs eff a b" using r last by (auto simp: maximal_runs_def)
      then show ?thesis using r(2) by fastforce
    next
      case False
      have "eff t = Some s" if "d \<le> t" "t \<le> d" for t using that Suc.prems(3) by simp
      then have "(s, d, d) \<in> maximal_runs eff a b" using False last Suc.prems by (auto simp: maximal_runs_def)
      then show ?thesis by blast
    qed
  next
    case False
    then have "d < b - 1" "n = nat (b - 1 - a)" using Suc.hyps(2) Suc.prems(2) by simp_all
    then obtain x y where r: "(s, x, y) \<in> maximal_runs eff a (b - 1)" "x \<le> d" "d \<le> y"
      using Suc.hyps(1) Suc.prems by blast
    show ?thesis
    proof (cases "y = b - 2 \<and> eff (b - 1) = Some s")
      case True
      have "eff t = Some s" if "x \<le> t" "t \<le> b - 1" for t
        using r True that by (cases "t = b - 1") (auto simp: maximal_runs_def)
      then have "(s, x, b - 1) \<in> maximal_runs eff a b" using r by (auto simp: maximal_runs_def)
      then show ?thesis using r Suc.prems by fastforce
    next
      case False
      then have "(s, x, y) \<in> maximal_runs eff a b" using r by (auto simp: maximal_runs_def)
      then show ?thesis using r by blast
    qed
  qed
qed simp

lemma maximal_run_last: "r \<in> maximal_runs eff a m \<Longrightarrow> eff (snd (snd r)) = Some (fst r) \<and> snd (snd r) < m"
  by (auto simp: maximal_runs_def)

lemma maximal_run_before:
  assumes "r \<in> maximal_runs eff a m" "eff (m - 1) \<noteq> Some (fst r)"
  shows "snd (snd r) < m - 1"
proof -
  have "snd (snd r) \<noteq> m - 1" using assms maximal_run_last by metis
  then show ?thesis using maximal_run_last [OF assms(1)] by simp
qed

lemma single_run:
  assumes "a \<le> m" "eff m = Some s" "m = a \<or> eff (m - 1) \<noteq> Some s"
  shows "(s, m, m) \<in> maximal_runs eff a (m + 1)"
proof -
  have "eff d = Some s" if "m \<le> d \<and> d \<le> m" for d
  proof -
    have "d = m" using that by simp
    then show ?thesis using assms(2) by simp
  qed
  then show ?thesis using assms by (simp add: maximal_runs_def)
qed

section \<open>The loop finds them\<close>

definition run_ok :: "(date \<Rightarrow> uuid option) \<Rightarrow> date \<Rightarrow> date \<Rightarrow> run_state \<Rightarrow> bool" where
  "run_ok eff a m st \<longleftrightarrow> (case st of (cur, x, y, runs) \<Rightarrow>
     cur = Some (eff (m - 1))
     \<and> set runs = {r \<in> maximal_runs eff a m. snd (snd r) < m - 1}
     \<and> sorted_wrt (\<lambda>r r'. snd (snd r) < fst (snd r')) runs
     \<and> (case eff (m - 1) of None \<Rightarrow> x = None
        | Some s \<Rightarrow> y = Some (m - 1) \<and> (\<exists>x'. x = Some x' \<and> (s, x', m - 1) \<in> maximal_runs eff a m)))"

lemma close_run_ok:
  assumes "run_ok eff a m st"
  shows "set (close_run st) = maximal_runs eff a m"
    and "sorted_wrt (\<lambda>r r'. snd (snd r) < fst (snd r')) (close_run st)"
proof -
  obtain cur x y runs where st: "st = (cur, x, y, runs)" by (cases st)
  have ok: "cur = Some (eff (m - 1))" "set runs = {r \<in> maximal_runs eff a m. snd (snd r) < m - 1}"
    "sorted_wrt (\<lambda>r r'. snd (snd r) < fst (snd r')) runs"
    "case eff (m - 1) of None \<Rightarrow> x = None
      | Some s \<Rightarrow> y = Some (m - 1) \<and> (\<exists>x'. x = Some x' \<and> (s, x', m - 1) \<in> maximal_runs eff a m)"
    using assms by (simp_all add: run_ok_def st)
  have "set (close_run st) = maximal_runs eff a m
    \<and> sorted_wrt (\<lambda>r r'. snd (snd r) < fst (snd r')) (close_run st)"
  proof (cases "eff (m - 1)")
    case None
    then have "snd (snd r) < m - 1" if "r \<in> maximal_runs eff a m" for r
      using that None by (simp add: maximal_run_before)
    then show ?thesis using None ok by (auto simp: close_run_def st)
  next
    case (Some s)
    then obtain x' where x': "x = Some x'" "y = Some (m - 1)" "(s, x', m - 1) \<in> maximal_runs eff a m" using ok by auto
    have close: "close_run st = runs @ [(s, x', m - 1)]" using x' ok(1) Some by (simp add: close_run_def st)
    have "r = (s, x', m - 1) \<or> snd (snd r) < x'" if r: "r \<in> maximal_runs eff a m" for r
    proof (cases r)
      case (fields t u v)
      have "t = s \<and> u = x' \<and> v = m - 1" if "x' \<le> v"
        using r x'(3) that unfolding fields
        by (intro maximal_run_unique [OF x'(3), of t u v v]) (auto simp: maximal_runs_def)
      then show ?thesis using fields by fastforce
    qed
    moreover have "x' \<le> m - 1" using x'(3) by (simp add: maximal_runs_def)
    ultimately have "maximal_runs eff a m = insert (s, x', m - 1) (set runs)" "\<forall>r \<in> set runs. snd (snd r) < x'"
      using x'(3) unfolding ok(2) by fastforce+
    then show ?thesis using ok(3) by (auto simp: close sorted_wrt_append)
  qed
  then show "set (close_run st) = maximal_runs eff a m"
    "sorted_wrt (\<lambda>r r'. snd (snd r) < fst (snd r')) (close_run st)" by simp_all
qed

lemma maximal_runs_Suc:
  "{r \<in> maximal_runs eff a (m + 1). snd (snd r) < m}
    = {r \<in> maximal_runs eff a m. snd (snd r) < m - 1 \<or> eff m \<noteq> Some (fst r)}"
proof -
  have "(s, x, y) \<in> maximal_runs eff a (m + 1) \<and> y < m
      \<longleftrightarrow> (s, x, y) \<in> maximal_runs eff a m \<and> (y < m - 1 \<or> eff m \<noteq> Some s)" for s x y
    by (cases "y = m - 1") (auto simp: maximal_runs_def)
  then show ?thesis by (simp add: set_eq_iff)
qed

lemma run_step_ok:
  assumes "run_ok eff a m st" "a < m"
  shows "run_ok eff a (m + 1) (run_step eff m st)"
proof -
  obtain cur x y runs where st: "st = (cur, x, y, runs)" by (cases st)
  have cur: "cur = Some (eff (m - 1))" using assms(1) by (simp add: run_ok_def st)
  show ?thesis
  proof (cases "eff m = eff (m - 1)")
    case True
    have "{r \<in> maximal_runs eff a (m + 1). snd (snd r) < m} = {r \<in> maximal_runs eff a m. snd (snd r) < m - 1}"
      unfolding maximal_runs_Suc True using maximal_run_before by blast
    moreover have "(s, x', m) \<in> maximal_runs eff a (m + 1)"
      if "(s, x', m - 1) \<in> maximal_runs eff a m" "eff m = Some s" for s x'
    proof -
      have "eff d = Some s" if "x' \<le> d" "d \<le> m" for d
        using that \<open>(s, x', m - 1) \<in> maximal_runs eff a m\<close> \<open>eff m = Some s\<close>
        by (cases "d = m") (auto simp: maximal_runs_def)
      then show ?thesis using that(1) by (auto simp: maximal_runs_def)
    qed
    ultimately show ?thesis using assms(1) True
      by (auto simp: run_ok_def run_step_def st split: option.splits)
  next
    case False
    have "snd (snd r) < m - 1 \<or> eff m \<noteq> Some (fst r)" if "r \<in> maximal_runs eff a m" for r
      using maximal_run_before [OF that] False by force
    then have "{r \<in> maximal_runs eff a (m + 1). snd (snd r) < m} = maximal_runs eff a m"
      unfolding maximal_runs_Suc by blast
    moreover have "(s, m, m) \<in> maximal_runs eff a (m + 1)" if "eff m = Some s" for s
      by (rule single_run) (use False that assms(2) in auto)
    ultimately show ?thesis using False cur close_run_ok [OF assms(1)]
      by (auto simp: run_ok_def run_step_def st split: option.splits)
  qed
qed

lemma run_first_ok: "run_ok eff a (a + 1) (run_step eff a (None, None, None, []))"
proof -
  have "\<not> snd (snd r) < a" if "r \<in> maximal_runs eff a (a + 1)" for r
    using that by (auto simp: maximal_runs_def)
  then show ?thesis using single_run [of a a eff]
    by (auto simp: run_ok_def run_step_def close_run_def split: option.split)
qed

lemma runs_ok:
  assumes "a < b"
  shows "run_ok eff a b (fold (run_step eff) (days_from_to a b) (None, None, None, []))"
  using assms
proof (induction "nat (b - a)" arbitrary: b)
  case (Suc n)
  show ?case
  proof (cases "b = a + 1")
    case True
    then show ?thesis using run_first_ok by (simp add: days_from_to_def)
  next
    case False
    then have "a < b - 1" "n = nat (b - 1 - a)" using Suc.hyps(2) Suc.prems by simp_all
    then have "run_ok eff a (b - 1) (fold (run_step eff) (days_from_to a (b - 1)) (None, None, None, []))"
      using Suc.hyps(1) by blast
    moreover have "days_from_to a b = days_from_to a (b - 1) @ [b - 1]"
      using \<open>a < b - 1\<close> upto_rec2 [of a "b - 1"] by (simp add: days_from_to_def)
    ultimately show ?thesis using run_step_ok [OF _ \<open>a < b - 1\<close>] by fastforce
  qed
qed simp

lemma set_runs_of: "set (runs_of eff (days_from_to a b)) = maximal_runs eff a b"
proof (cases "a < b")
  case True
  then show ?thesis using close_run_ok(1) [OF runs_ok] by (simp add: runs_of_def)
qed (auto simp: runs_of_def close_run_def maximal_runs_def)

lemma sorted_runs_of: "sorted_wrt (\<lambda>r r'. snd (snd r) < fst (snd r')) (runs_of eff (days_from_to a b))"
proof (cases "a < b")
  case True
  then show ?thesis using close_run_ok(2) [OF runs_ok] by (simp add: runs_of_def)
qed (simp add: runs_of_def close_run_def)

lemma distinct_runs_of: "distinct (runs_of eff (days_from_to a b))"
proof -
  have "distinct rs" if "sorted_wrt (\<lambda>r r'. snd (snd r) < fst (snd r')) rs" "\<forall>r \<in> set rs. fst (snd r) \<le> snd (snd r)"
    for rs :: "(uuid \<times> date \<times> date) list" using that by (induction rs) fastforce+
  moreover have "\<forall>r \<in> maximal_runs eff a b. fst (snd r) \<le> snd (snd r)" by (auto simp: maximal_runs_def)
  ultimately show ?thesis using sorted_runs_of set_runs_of by metis
qed

lemma filter_singleton:
  assumes "distinct xs" "r \<in> set xs" "P r" "\<And>r'. r' \<in> set xs \<Longrightarrow> P r' \<Longrightarrow> r' = r"
  shows "filter P xs = [r]"
  using assms
proof -
  obtain ys zs where xs: "xs = ys @ r # zs" using split_list [OF assms(2)] by blast
  have "\<not> P r'" if "r' \<in> set ys \<union> set zs" for r' using assms(1,4) [unfolded xs] that by auto
  then show ?thesis using assms(3) by (simp add: xs filter_empty_conv)
qed

lemma runs_at:
  "map fst (filter (\<lambda>r. fst (snd r) \<le> d \<and> d \<le> snd (snd r)) (runs_of eff (days_from_to a b)))
    = (if a \<le> d \<and> d < b then (case eff d of None \<Rightarrow> [] | Some s \<Rightarrow> [s]) else [])" (is "map fst (filter ?P ?rs) = _")
proof (cases "\<exists>r \<in> set ?rs. ?P r")
  case True
  then obtain s x y where r: "(s, x, y) \<in> maximal_runs eff a b" "x \<le> d" "d \<le> y" by (auto simp: set_runs_of)
  have "filter ?P ?rs = [(s, x, y)]"
  proof (rule filter_singleton [OF distinct_runs_of])
    fix r' assume "r' \<in> set ?rs" "?P r'"
    then show "r' = (s, x, y)" using r maximal_run_unique [OF r(1), of "fst r'" "fst (snd r')" "snd (snd r')" d]
      by (simp add: set_runs_of prod_eq_iff)
  qed (use r in \<open>simp_all add: set_runs_of\<close>)
  moreover have "a \<le> d" "d < b" "eff d = Some s" using r by (auto simp: maximal_runs_def)
  ultimately show ?thesis by simp
next
  case False
  then have "eff d = None" if "a \<le> d" "d < b"
    using maximal_run_at [OF that, of eff] by (cases "eff d") (fastforce simp: set_runs_of)+
  moreover have "filter ?P ?rs = []" using False by (simp add: filter_empty_conv)
  ultimately show ?thesis by simp
qed

lemma runs_of_cong:
  assumes "\<And>d. d \<in> set days \<Longrightarrow> eff d = eff' d"
  shows "runs_of eff days = runs_of eff' days"
proof -
  have "run_step eff d = run_step eff' d" if "d \<in> set days" for d
    by (intro ext) (simp only: run_step_def assms [OF that])
  then have "fold (run_step eff) days st = fold (run_step eff') days st" for st by (intro fold_cong refl)
  then show ?thesis by (simp add: runs_of_def)
qed

section \<open>Spans of the database\<close>

definition effective_now :: "score_db \<Rightarrow> DutyAssignment \<Rightarrow> date \<Rightarrow> uuid option" where
  "effective_now db = effective_on (bd_overrides (sd_board db)) (bd_dismissals (sd_board db))"

definition assignment_spans :: "score_db \<Rightarrow> DutyAssignment \<Rightarrow> span list" where
  "assignment_spans db a =
     map (make_span a) (runs_of (effective_now db a) (days_from_to (da_start_date a) (da_end_date a)))"

lemma find_filter: "(\<And>x. P x \<Longrightarrow> Q x) \<Longrightarrow> find P (filter Q xs) = find P xs"
  by (induction xs) auto

lemma override_at_filter: "lo \<le> day \<Longrightarrow> day < hi
    \<Longrightarrow> override_at (filter (\<lambda>v. vo_date v \<ge> lo \<and> vo_date v < hi) rows) i day = override_at rows i day"
  unfolding override_at_def rev_filter by (rule find_filter) auto

lemma dismissal_at_filter: "lo \<le> day \<Longrightarrow> day < hi
    \<Longrightarrow> dismissal_at (filter (\<lambda>d. di_to d \<ge> lo \<and> di_from d < hi) rows) i day = dismissal_at rows i day"
  unfolding dismissal_at_def by (rule find_filter) auto

definition kept :: "score_db \<Rightarrow> uuid list option \<Rightarrow> date option \<Rightarrow> date option \<Rightarrow> DutyAssignment \<Rightarrow> bool" where
  "kept db soldier_ids date_from date_to a \<longleftrightarrow>
     (case date_from of None \<Rightarrow> True | Some x \<Rightarrow> da_end_date a > x)
     \<and> (case date_to of None \<Rightarrow> True | Some x \<Rightarrow> da_start_date a \<le> x)
     \<and> (case soldier_ids of None \<Rightarrow> True
        | Some ids \<Rightarrow> concerns (bd_overrides (sd_board db)) ids date_from date_to a)"

definition wanted :: "uuid list option \<Rightarrow> date option \<Rightarrow> date option \<Rightarrow> span \<Rightarrow> bool" where
  "wanted soldier_ids date_from date_to sp \<longleftrightarrow>
     (case soldier_ids of None \<Rightarrow> True | Some ids \<Rightarrow> sp_soldier_id sp \<in> set ids) \<and> in_window date_from date_to sp"

lemma effective_duty_spans_eq:
  "effective_duty_spans_impl db statuses soldier_ids date_from date_to =
     sort_key sp_start_date (filter (wanted soldier_ids date_from date_to)
       (concat (map (assignment_spans db)
         (filter (kept db soldier_ids date_from date_to)
           (filter (\<lambda>a. da_status a \<in> set statuses) (bd_assignments (sd_board db)))))))"
proof -
  define xs where "xs = filter (kept db soldier_ids date_from date_to)
    (filter (\<lambda>a. da_status a \<in> set statuses) (bd_assignments (sd_board db)))"
  have xs: "filter (\<lambda>a. case soldier_ids of None \<Rightarrow> True
      | Some ids \<Rightarrow> concerns (bd_overrides (sd_board db)) ids date_from date_to a)
      (selected_assignments db statuses date_from date_to) = xs"
    unfolding xs_def selected_assignments_def filter_filter kept_def by (rule filter_cong) auto
  have spans: "map (make_span a) (runs_of (effective_on
        (filter (\<lambda>v. vo_date v \<ge> Min (set (map da_start_date xs)) \<and> vo_date v < Max (set (map da_end_date xs)))
          (bd_overrides (sd_board db)))
        (filter (\<lambda>d. di_to d \<ge> Min (set (map da_start_date xs)) \<and> di_from d < Max (set (map da_end_date xs)))
          (bd_dismissals (sd_board db))) a)
        (days_from_to (da_start_date a) (da_end_date a))) = assignment_spans db a" if "a \<in> set xs" for a
  proof -
    have "Min (set (map da_start_date xs)) \<le> da_start_date a" "da_end_date a \<le> Max (set (map da_end_date xs))"
      using that by simp_all
    then show ?thesis unfolding assignment_spans_def
      by (intro arg_cong [of _ _ "map (make_span a)"] runs_of_cong)
        (auto simp: effective_now_def effective_on_def override_at_filter dismissal_at_filter)
  qed
  show ?thesis unfolding effective_duty_spans_impl_def xs Let_def wanted_def [symmetric] xs_def [symmetric]
    using spans by (cases "xs = []") (simp_all cong: map_cong)
qed

end
