(* ===== verification/Scores.thy ===== *)
theory Scores
  imports SpansSound OrgReach
begin

text \<open>
  Properties of the scores: spans and days agree, the query for some soldiers is a filter,
  totals computed in one pass are those computed apart, a duty without changes earns its
  days, and the two computations of active days agree.
\<close>

section \<open>Spans\<close>

lemma make_span_simps [simp]:
  "sp_assignment_id (make_span a r) = da_id a" "sp_soldier_id (make_span a r) = fst r"
  "sp_start_date (make_span a r) = fst (snd r)" "sp_end_date (make_span a r) = snd (snd r) + 1"
  by (simp_all add: make_span_def Let_def split: prod.split)

lemma assignment_spans_at:
  "map sp_soldier_id (filter (\<lambda>sp. sp_start_date sp \<le> d \<and> d < sp_end_date sp) (assignment_spans db a))
    = (if da_start_date a \<le> d \<and> d < da_end_date a
       then (case effective_now db a d of None \<Rightarrow> [] | Some s \<Rightarrow> [s]) else [])"
  unfolding assignment_spans_def filter_map map_map o_def make_span_simps
  using runs_at [of d "effective_now db a" "da_start_date a" "da_end_date a"]
  by (simp add: zle_add1_eq_le)

lemma filter_concat_other:
  assumes "distinct (map f xs)" "x \<in> set xs" "\<And>y. y \<in> set xs \<Longrightarrow> f y \<noteq> f x \<Longrightarrow> filter P (g y) = []"
  shows "filter P (concat (map g xs)) = filter P (g x)"
proof -
  obtain ys zs where xs: "xs = ys @ x # zs" using split_list [OF assms(2)] by blast
  have "filter P (g y) = []" if "y \<in> set ys \<union> set zs" for y
  proof (rule assms(3))
    show "y \<in> set xs" using that by (auto simp: xs)
    show "f y \<noteq> f x" using assms(1) that unfolding xs by (auto simp: image_iff)
  qed
  moreover have "filter P (concat (map g l)) = []" if "\<And>y. y \<in> set l \<Longrightarrow> filter P (g y) = []" for l
    using that by (induction l) simp_all
  ultimately show ?thesis by (simp add: xs)
qed

lemma all_spans: "effective_duty_spans db None None None
    = sort_key sp_start_date (concat (map (assignment_spans db)
        (filter (\<lambda>a. da_status a = Published) (bd_assignments (sd_board db)))))"
  by (simp add: effective_duty_spans_def effective_duty_spans_eq kept_def wanted_def in_window_def)

text \<open>
  C32. Spans are days.  On every day an assignment that counts lies in exactly one of its
  spans, that of the soldier who does the duty on that day, by the overrides and dismissals;
  a day without such a soldier, or outside the assignment, lies in none.
\<close>

theorem spans_are_days:
  assumes "distinct (map da_id (bd_assignments (sd_board db)))"
    and "a \<in> set (bd_assignments (sd_board db))" "da_status a = Published"
  shows "map sp_soldier_id (filter (\<lambda>sp. sp_assignment_id sp = da_id a \<and> sp_start_date sp \<le> d \<and> d < sp_end_date sp)
      (effective_duty_spans db None None None))
    = (if da_start_date a \<le> d \<and> d < da_end_date a
       then (case effective_on (bd_overrides (sd_board db)) (bd_dismissals (sd_board db)) a d of
               None \<Rightarrow> [] | Some s \<Rightarrow> [s]) else [])"
proof -
  let ?P = "\<lambda>sp. sp_assignment_id sp = da_id a \<and> sp_start_date sp \<le> d \<and> d < sp_end_date sp"
  let ?xs = "filter (\<lambda>a. da_status a = Published) (bd_assignments (sd_board db))"
  have id: "sp_assignment_id sp = da_id b" if "sp \<in> set (assignment_spans db b)" for sp b
    using that by (auto simp: assignment_spans_def)
  have "filter ?P (concat (map (assignment_spans db) ?xs)) = filter ?P (assignment_spans db a)"
    by (rule filter_concat_other [where f = da_id])
      (use assms id in \<open>auto simp: filter_empty_conv distinct_map inj_on_def\<close>)
  also have "\<dots> = filter (\<lambda>sp. sp_start_date sp \<le> d \<and> d < sp_end_date sp) (assignment_spans db a)"
    by (rule filter_cong) (auto simp: id)
  finally have one: "filter ?P (concat (map (assignment_spans db) ?xs))
    = filter (\<lambda>sp. sp_start_date sp \<le> d \<and> d < sp_end_date sp) (assignment_spans db a)" (is "_ = ?one") .
  have "length ?one \<le> 1"
    using arg_cong [OF assignment_spans_at [of d db a], of length] by (simp split: if_split_asm option.splits)
  then have "sort_key sp_start_date ?one = ?one" by (cases ?one; cases "tl ?one") auto
  moreover have "filter ?P (effective_duty_spans db None None None)
      = sort_key sp_start_date (filter ?P (concat (map (assignment_spans db) ?xs)))"
    unfolding all_spans filter_sort ..
  ultimately show ?thesis unfolding one
    using assignment_spans_at [of d db a] by (simp add: effective_now_def)
qed

lemma span_wanted_kept:
  assumes "sp \<in> set (assignment_spans db a)" "wanted ids date_from date_to sp"
    and "case (date_from, date_to) of (Some x, Some y) \<Rightarrow> x \<le> y | _ \<Rightarrow> True"
  shows "kept db ids date_from date_to a"
proof -
  let ?lo = "da_start_date a" and ?hi = "da_end_date a"
  obtain s x y where r: "(s, x, y) \<in> maximal_runs (effective_now db a) ?lo ?hi" and sp: "sp = make_span a (s, x, y)"
    using assms(1) by (auto simp: assignment_spans_def set_runs_of)
  have bounds: "?lo \<le> x" "x \<le> y" "y < ?hi" using r by (auto simp: maximal_runs_def)
  have window: "case date_from of None \<Rightarrow> True | Some u \<Rightarrow> u \<le> y" "case date_to of None \<Rightarrow> True | Some v \<Rightarrow> x \<le> v"
    using assms(2) by (auto simp: wanted_def in_window_def sp split: option.splits)
  define d where "d = (case date_from of None \<Rightarrow> x | Some u \<Rightarrow> max x u)"
  have d: "x \<le> d" "d \<le> y" "since date_from d" "up_to date_to d"
    using bounds window assms(3) by (auto simp: d_def since_def up_to_def split: option.splits)
  then have day: "effective_now db a d = Some s" using r by (auto simp: maximal_runs_def)
  have "concerns (bd_overrides (sd_board db)) is date_from date_to a" if "ids = Some is" for "is"
  proof (cases "override_at (bd_overrides (sd_board db)) (da_id a) d")
    case None
    then have "s = da_soldier_id a" using day by (auto simp: effective_now_def effective_on_def split: if_split_asm)
    then show ?thesis using assms(2) that by (simp add: concerns_def wanted_def sp)
  next
    case (Some v)
    then have "v \<in> set (bd_overrides (sd_board db))" "vo_assignment_id v = da_id a" "vo_date v = d"
      by (auto simp: override_at_def find_Some_iff rev_nth)
    moreover have "vo_soldier_id v = Some s" using day Some by (simp add: effective_now_def effective_on_def)
    ultimately show ?thesis using assms(2) that d bounds
      by (auto simp: concerns_def wanted_def sp list_ex_iff intro!: bexI [of _ v])
  qed
  then show ?thesis using bounds window by (auto simp: kept_def split: option.splits)
qed

text \<open>
  The selective query loses nothing.  Asking for the spans of some soldiers in a window
  of days, which selects assignments by their owner or by an override in the window, gives
  exactly those of all spans that are of these soldiers and meet the window, in the same order.
\<close>

theorem spans_filtered:
  assumes "case (date_from, date_to) of (Some x, Some y) \<Rightarrow> x \<le> y | _ \<Rightarrow> True"
  shows "effective_duty_spans db (Some soldier_ids) date_from date_to
    = filter (\<lambda>sp. sp_soldier_id sp \<in> set soldier_ids \<and> in_window date_from date_to sp)
        (effective_duty_spans db None None None)"
proof -
  let ?xs = "filter (\<lambda>a. da_status a = Published) (bd_assignments (sd_board db))"
  let ?w = "wanted (Some soldier_ids) date_from date_to"
  have none: "filter ?w (assignment_spans db a) = []" if "\<not> kept db (Some soldier_ids) date_from date_to a" for a
    using span_wanted_kept [OF _ _ assms] that by (auto simp: filter_empty_conv)
  have "filter ?w (concat (map (assignment_spans db) (filter (kept db (Some soldier_ids) date_from date_to) xs)))
      = filter ?w (concat (map (assignment_spans db) xs))" for xs
    by (induction xs) (auto simp: none)
  then have "effective_duty_spans db (Some soldier_ids) date_from date_to
      = sort_key sp_start_date (filter ?w (concat (map (assignment_spans db) ?xs)))"
    by (simp add: effective_duty_spans_def effective_duty_spans_eq del: filter_filter)
  moreover have "?w = (\<lambda>sp. sp_soldier_id sp \<in> set soldier_ids \<and> in_window date_from date_to sp)"
    by (simp add: wanted_def fun_eq_iff)
  ultimately show ?thesis by (simp add: all_spans filter_sort)
qed

definition sample_primary :: DutyAssignment where
  "sample_primary = sample_duty_row\<lparr>da_id := 41, da_soldier_id := 5, da_end_date := 700014, da_is_reserve := False\<rparr>"

definition sample_cover :: DutyDayOverride where
  "sample_cover = \<lparr>vo_id = 42, vo_assignment_id = 41, vo_date = 700012, vo_soldier_id = Some 4,
     vo_reason = ''replacement''\<rparr>"

definition sample_score_settings :: score_settings where
  "sample_score_settings = \<lparr>ss_standby_multiplier = None, ss_called_up_multiplier = None,
     ss_dismissed_multiplier = None, ss_reset_date = Some 700000, ss_reset_overrides = []\<rparr>"

definition sample_score_db :: score_db where
  "sample_score_db = \<lparr>sd_board = sample_board\<lparr>bd_assignments := [sample_duty_row, sample_primary],
       bd_overrides := [sample_cover]\<rparr>,
     sd_nodes = [], sd_adjustments = [], sd_settings = sample_score_settings\<rparr>"

lemma sample_score_rows:
  "bd_assignments (sd_board sample_score_db) = [sample_duty_row, sample_primary]"
  "bd_overrides (sd_board sample_score_db) = [sample_cover]" "bd_dismissals (sd_board sample_score_db) = []"
  by (simp_all add: sample_score_db_def sample_board_def)

lemma spans_are_days_witness:
  "map sp_soldier_id (filter (\<lambda>sp. sp_assignment_id sp = da_id sample_primary \<and> sp_start_date sp \<le> 700012
        \<and> 700012 < sp_end_date sp) (effective_duty_spans sample_score_db None None None))
    = (if da_start_date sample_primary \<le> 700012 \<and> 700012 < da_end_date sample_primary
       then (case effective_on (bd_overrides (sd_board sample_score_db)) (bd_dismissals (sd_board sample_score_db))
               sample_primary 700012 of None \<Rightarrow> [] | Some s \<Rightarrow> [s]) else [])"
  by (rule spans_are_days) (simp_all add: sample_score_rows sample_primary_def sample_duty_row_def)

lemma spans_filtered_witness:
  "effective_duty_spans sample_score_db (Some [4]) (Some 700011) (Some 700020)
    = filter (\<lambda>sp. sp_soldier_id sp \<in> set [4] \<and> in_window (Some 700011) (Some 700020) sp)
        (effective_duty_spans sample_score_db None None None)"
  by (rule spans_filtered) simp

section \<open>Totals\<close>

lemma set_map_filter_Some: "set (List.map_filter f xs) = {y. \<exists>x \<in> set xs. f x = Some y}"
  by (force simp: List.map_filter_def)

lemma set_day_rows:
  "set (effective_duty_day_rows db [Published] None None None)
    = {r. \<exists>a \<in> set (bd_assignments (sd_board db)). da_status a = Published
        \<and> (\<exists>day \<in> {da_start_date a..<da_end_date a}.
             duty_day_row db (bd_overrides (sd_board db)) (bd_dismissals (sd_board db)) a day = Some r)}"
  by (auto simp: effective_duty_day_rows_def selected_assignments_def since_def up_to_def set_map_filter_Some Let_def)

lemma fold_pair: "fold (\<lambda>x (f, g). (F x f, G x g)) xs (f, g) = (fold F xs f, fold G xs g)"
  by (induction xs arbitrary: f g) auto

lemma fold_insert_at:
  "fold (\<lambda>x c. c(k x := insert (v x) (c (k x)))) xs c = (\<lambda>s. {v x | x. x \<in> set xs \<and> k x = s} \<union> c s)"
  by (induction xs arbitrary: c) (auto simp: fun_eq_iff)

lemma duty_stats_eq:
  "duty_stats_by_soldier db = (duty_score_by_soldier db,
     \<lambda>s. card {dd_assignment_id r | r. r \<in> set (effective_duty_day_rows db [Published] None None None)
       \<and> dd_soldier_id r = s})"
proof -
  have "duty_score_by_soldier db
      = fold (\<lambda>r out. out(dd_soldier_id r := out (dd_soldier_id r) + type_score db (dd_type_id r) * dd_weighted r))
          (effective_duty_day_rows db [Published] None None None) (\<lambda>_. 0)"
    by (simp add: duty_score_by_soldier_def effective_duty_days_def fold_map o_def day_tuple_def)
  then show ?thesis by (simp add: duty_stats_by_soldier_def fold_pair fold_insert_at)
qed

lemma shift_count_eq:
  "shift_count_by_soldier db s
    = card {sp_assignment_id sp | sp. sp \<in> set (effective_duty_spans db None None None) \<and> sp_soldier_id sp = s}"
  by (simp add: shift_count_by_soldier_def fold_insert_at)

lemma spans_of_soldier:
  "{sp_assignment_id sp | sp. sp \<in> set (effective_duty_spans db None None None) \<and> sp_soldier_id sp = s}
    = {da_id a | a. a \<in> set (bd_assignments (sd_board db)) \<and> da_status a = Published
        \<and> (\<exists>d \<in> {da_start_date a..<da_end_date a}. effective_now db a d = Some s)}"
proof -
  have "(\<exists>sp \<in> set (assignment_spans db a). sp_soldier_id sp = s)
      \<longleftrightarrow> (\<exists>d \<in> {da_start_date a..<da_end_date a}. effective_now db a d = Some s)" for a
  proof -
    have "(\<exists>sp \<in> set (assignment_spans db a). sp_soldier_id sp = s)
        \<longleftrightarrow> (\<exists>x y. (s, x, y) \<in> maximal_runs (effective_now db a) (da_start_date a) (da_end_date a))"
      by (simp add: assignment_spans_def set_runs_of) (metis fst_conv prod.exhaust_sel)
    also have "\<dots> \<longleftrightarrow> (\<exists>d \<in> {da_start_date a..<da_end_date a}. effective_now db a d = Some s)"
    proof
      assume "\<exists>x y. (s, x, y) \<in> maximal_runs (effective_now db a) (da_start_date a) (da_end_date a)"
      then show "\<exists>d \<in> {da_start_date a..<da_end_date a}. effective_now db a d = Some s"
        by (auto simp: maximal_runs_def intro!: bexI)
    next
      assume "\<exists>d \<in> {da_start_date a..<da_end_date a}. effective_now db a d = Some s"
      then show "\<exists>x y. (s, x, y) \<in> maximal_runs (effective_now db a) (da_start_date a) (da_end_date a)"
        using maximal_run_at [of "da_start_date a" _ "da_end_date a" "effective_now db a" s] by fastforce
    qed
    finally show ?thesis .
  qed
  note run = this
  have id: "sp_assignment_id sp = da_id a" if "sp \<in> set (assignment_spans db a)" for sp a
    using that by (auto simp: assignment_spans_def)
  show ?thesis (is "?L = ?R")
  proof (rule set_eqI)
    fix i
    have "i \<in> ?L \<longleftrightarrow> (\<exists>a \<in> set (bd_assignments (sd_board db)). da_status a = Published
        \<and> (\<exists>sp \<in> set (assignment_spans db a). sp_soldier_id sp = s \<and> i = sp_assignment_id sp))"
      by (auto simp: all_spans)
    also have "\<dots> \<longleftrightarrow> (\<exists>a \<in> set (bd_assignments (sd_board db)). da_status a = Published
        \<and> (\<exists>sp \<in> set (assignment_spans db a). sp_soldier_id sp = s) \<and> i = da_id a)"
      by (intro bex_cong refl conj_cong) (auto simp: id)
    also have "\<dots> \<longleftrightarrow> i \<in> ?R" unfolding run by blast
    finally show "i \<in> ?L \<longleftrightarrow> i \<in> ?R" .
  qed
qed

text \<open>
  One pass is enough.  As long as nobody is dismissed, the scores and shift counts computed in one pass
  over the duty days are those of the two separate computations, over days and over spans.
\<close>

theorem duty_stats_agree:
  assumes "bd_dismissals (sd_board db) = []"
  shows "duty_stats_by_soldier db = (duty_score_by_soldier db, shift_count_by_soldier db)"
proof -
  have day: "(\<exists>r. duty_day_row db (bd_overrides (sd_board db)) (bd_dismissals (sd_board db)) a d = Some r
      \<and> dd_soldier_id r = s \<and> dd_assignment_id r = i) \<longleftrightarrow> effective_now db a d = Some s \<and> i = da_id a" for a d s i
    using assms by (auto simp: duty_day_row_def effective_now_def effective_on_def dismissal_at_def Let_def
        split: option.split prod.split)
  have "{dd_assignment_id r | r. r \<in> set (effective_duty_day_rows db [Published] None None None) \<and> dd_soldier_id r = s}
    = {da_id a | a. a \<in> set (bd_assignments (sd_board db)) \<and> da_status a = Published
        \<and> (\<exists>d \<in> {da_start_date a..<da_end_date a}. effective_now db a d = Some s)}" for s
    unfolding set_day_rows using day [of _ _ s] by (simp add: set_eq_iff) metis
  then show ?thesis by (simp add: duty_stats_eq shift_count_eq fun_eq_iff spans_of_soldier)
qed

lemma duty_stats_agree_witness:
  "duty_stats_by_soldier sample_score_db = (duty_score_by_soldier sample_score_db, shift_count_by_soldier sample_score_db)"
  by (rule duty_stats_agree) (simp add: sample_score_rows)

text \<open>
  A duty whose soldier was dismissed on all its days is a shift in the one pass and none in
  the spans, which drop dismissed days.
\<close>

definition dismissed_db :: score_db where
  "dismissed_db = sample_score_db\<lparr>sd_board := (sd_board sample_score_db)\<lparr>bd_overrides := [],
     bd_dismissals := [\<lparr>di_id = 43, di_assignment_id = 41, di_from = 700010, di_to = 700013, di_reason = None\<rparr>]\<rparr>\<rparr>"

lemma dismissed_shift_counts:
  "snd (duty_stats_by_soldier dismissed_db) 5 = 1" "shift_count_by_soldier dismissed_db 5 = 0"
  by code_simp+

section \<open>What a duty earns\<close>

lemma sum_list_same: "(\<And>x. x \<in> set xs \<Longrightarrow> f x = (c :: decimal)) \<Longrightarrow> (\<Sum>x \<leftarrow> xs. f x) = of_nat (length xs) * c"
  by (induction xs) (auto simp: algebra_simps)

lemma map_filter_total:
  assumes "\<And>x. x \<in> set xs \<Longrightarrow> f x \<noteq> None"
  shows "List.map_filter f xs = map (the \<circ> f) xs"
  using assms by (induction xs) (auto simp: List.map_filter_simps split: option.split)

lemma duty_day_row_id: "duty_day_row db vs ds a day = Some r \<Longrightarrow> dd_assignment_id r = da_id a"
  by (auto simp: duty_day_row_def Let_def case_prod_beta split: option.splits)

lemma rows_of_assignment:
  assumes "distinct (map da_id (bd_assignments (sd_board db)))"
    and "a \<in> set (bd_assignments (sd_board db))" "da_status a = Published"
  shows "filter (\<lambda>r. dd_assignment_id r = da_id a) (effective_duty_day_rows db [Published] None None None)
    = List.map_filter (duty_day_row db (bd_overrides (sd_board db)) (bd_dismissals (sd_board db)) a)
        (days_from_to (da_start_date a) (da_end_date a))" (is "filter ?P _ = ?rows a")
proof -
  let ?xs = "filter (\<lambda>a. da_status a = Published) (bd_assignments (sd_board db))"
  have id: "dd_assignment_id r = da_id b" if "r \<in> set (?rows b)" for r b
    using that duty_day_row_id by (auto simp: set_map_filter_Some)
  have "effective_duty_day_rows db [Published] None None None = concat (map ?rows ?xs)"
    by (simp add: effective_duty_day_rows_def selected_assignments_def since_def up_to_def Let_def)
  moreover have "filter ?P (concat (map ?rows ?xs)) = filter ?P (?rows a)"
    by (rule filter_concat_other [where f = da_id])
      (use assms id in \<open>auto simp: filter_empty_conv distinct_map inj_on_def\<close>)
  moreover have "filter ?P (?rows a) = ?rows a" using id by (auto simp: filter_id_conv)
  ultimately show ?thesis by simp
qed

text \<open>
  C33. A duty earns its days.  An assignment that is no reserve and has no forced multiplier,
  from which nobody was dismissed and none of whose days was cancelled, earns in all its days
  together, for whoever does them, the score per day of its type times the days that count
  for its length, whatever days were handed over.
\<close>

theorem duty_earns_days:
  assumes "distinct (map da_id (bd_assignments (sd_board db)))"
    and "a \<in> set (bd_assignments (sd_board db))" "da_status a = Published" "da_start_date a < da_end_date a"
    and "\<not> da_is_reserve a" "da_forced_multiplier a = None"
    and "filter (\<lambda>d. di_assignment_id d = da_id a) (bd_dismissals (sd_board db)) = []"
    and "filter (\<lambda>v. vo_assignment_id v = da_id a \<and> vo_soldier_id v = None) (bd_overrides (sd_board db)) = []"
  shows "(\<Sum>r \<leftarrow> filter (\<lambda>r. dd_assignment_id r = da_id a) (effective_duty_day_rows db [Published] None None None).
      type_score db (dd_type_id r) * dd_weighted r)
    = type_score db (da_type_id a)
      * of_int (score_days (da_start_date a) (da_end_date a) (da_start_time a) (da_end_time a))"
proof -
  let ?row = "duty_day_row db (bd_overrides (sd_board db)) (bd_dismissals (sd_board db)) a"
  let ?c = "type_score db (da_type_id a) * day_weight_of a"
  have none: "dismissal_at (bd_dismissals (sd_board db)) (da_id a) day = None" for day
    using assms(7) by (auto simp: dismissal_at_def find_None_iff filter_empty_conv)
  have soldier: "vo_soldier_id v \<noteq> None" if "override_at (bd_overrides (sd_board db)) (da_id a) day = Some v" for v day
  proof -
    have "v \<in> set (bd_overrides (sd_board db))" "vo_assignment_id v = da_id a"
      using that by (auto simp: override_at_def find_Some_iff rev_nth)
    then show ?thesis using assms(8) by (auto simp: filter_empty_conv)
  qed
  have row: "\<exists>r. ?row day = Some r \<and> type_score db (dd_type_id r) * dd_weighted r = ?c" for day
    using soldier assms(5,6)
    by (auto simp: duty_day_row_def none multiplier_of_def Let_def split: option.splits)
  then have some: "?row day \<noteq> None" for day by (metis option.distinct(1))
  have worth: "type_score db (dd_type_id (the (?row day))) * dd_weighted (the (?row day)) = ?c" for day
    using row [of day] by auto
  have "(\<Sum>r \<leftarrow> List.map_filter ?row (days_from_to (da_start_date a) (da_end_date a)).
      type_score db (dd_type_id r) * dd_weighted r)
    = (\<Sum>day \<leftarrow> days_from_to (da_start_date a) (da_end_date a). ?c)"
    by (simp only: map_filter_total [of _ ?row, OF some] map_map o_def worth)
  also have "\<dots> = of_nat (nat (da_end_date a - da_start_date a)) * ?c"
    by (subst sum_list_same [of _ _ ?c]) simp_all
  also have "\<dots> = of_int (da_end_date a - da_start_date a) * ?c" using assms(4) by (simp add: of_nat_nat)
  also have "\<dots> = type_score db (da_type_id a)
      * of_int (score_days (da_start_date a) (da_end_date a) (da_start_time a) (da_end_time a))"
    using assms(4) by (simp add: day_weight_of_def calendar_days_touched_def Let_def)
  finally show ?thesis by (simp add: rows_of_assignment [OF assms(1-3)])
qed

lemma duty_earns_days_witness:
  "(\<Sum>r \<leftarrow> filter (\<lambda>r. dd_assignment_id r = da_id sample_primary)
        (effective_duty_day_rows sample_score_db [Published] None None None).
      type_score sample_score_db (dd_type_id r) * dd_weighted r)
    = type_score sample_score_db (da_type_id sample_primary)
      * of_int (score_days (da_start_date sample_primary) (da_end_date sample_primary) (da_start_time sample_primary)
          (da_end_time sample_primary))"
  by (rule duty_earns_days)
    (simp_all add: sample_score_rows sample_primary_def sample_duty_row_def sample_cover_def)

section \<open>Active days\<close>

text \<open>
  C34. Active days in bulk.  For any soldiers, the bulk computation, which sorts and merges
  the ranges of their exemptions, gives each the number of active days that the computation
  for one soldier finds by collecting the exempt days.
\<close>

theorem bulk_active_days_agree:
  "bulk_active_days db today soldiers = map (\<lambda>s. (so_id s, active_days db today s)) soldiers"
  by (rule bulk_active_days_map)

text \<open>
  The exempt days are those until today and not until the day the soldier left: one who left
  after ten days of service and has an exemption since keeps a single active day.
\<close>

definition left_early :: Soldier where
  "left_early = sample_private\<lparr>so_discharge_date := Some 700010\<rparr>"

definition left_early_db :: score_db where
  "left_early_db = sample_score_db\<lparr>sd_board := (sd_board sample_score_db)\<lparr>bd_exempt_duty_types := [(50, 31)],
     bd_exemptions := [\<lparr>ex_id = 60, ex_soldier_id = 4, ex_type_id = 50, ex_start_date = 700020, ex_end_date = None,
       ex_is_medical = False, ex_reason = None, ex_granted_by = None, ex_revoked_at = None, ex_revoked_by = None,
       ex_revoke_reason = None\<rparr>]\<rparr>\<rparr>"

lemma exempt_after_leaving:
  "active_day_interval left_early 700000 700040 = (700000, 700010)"
  "active_days left_early_db 700040 left_early = 1"
  by code_simp+

end
