(* ===== verification/Effort.thy ===== *)
theory Effort
  imports Scores
begin

text \<open>
  Effort of \<open>services/effort_score.py\<close>: a soldier's share of the scores of his unit, quarter by
  quarter from his reset date, weighted by the part of the quarter he was there; the
  breakdown of one soldier's share that the interface shows; and \<open>inject_effort_scores\<close> of
  \<open>services/algorithm_bridge.py\<close>, which hands the efforts to the solver.  A \<open>Decimal\<close> and a
  \<open>float\<close> are rational numbers; \<open>py_int\<close> is \<open>int\<close> of such a number.
\<close>

section \<open>One soldier's share\<close>

record EffortData =
  ed_effort_score :: decimal
  ed_C_over_D :: decimal
  ed_effort_offset :: int
  ed_effort_per_milli :: int

text \<open>The part of a quarter the soldier was active, \<open>None\<close> when the loop skips the quarter.\<close>

definition active_frac :: "date \<Rightarrow> date \<Rightarrow> date \<times> date \<Rightarrow> decimal option" where
  "active_frac own_reset activation q =
     (case q of (q_start, q_end) \<Rightarrow>
        (let own_floor = max q_start own_reset
         in if own_floor > q_end then None
            else let soldier_start = max own_floor activation
                 in if soldier_start > q_end then None
                    else Some (of_int (q_end - soldier_start + 1) / of_int (q_end - own_floor + 1))))"

definition activation_of :: "Soldier \<Rightarrow> date" where
  "activation_of s = default (so_unit_join_date s) (so_enrolled_at s)"

text \<open>The scores of the quarters: of the unit and of each soldier, by the first day of a tracked quarter.\<close>

type_synonym quarter_scores = "(date \<Rightarrow> decimal) \<times> (date \<Rightarrow> uuid \<Rightarrow> decimal)"

definition weigh_quarter :: "quarter_scores \<Rightarrow> date \<Rightarrow> Soldier \<Rightarrow> date \<times> date \<Rightarrow> decimal \<times> decimal \<Rightarrow> decimal \<times> decimal" where
  "weigh_quarter scores own_reset s q aw =
     (case active_frac own_reset (activation_of s) q of None \<Rightarrow> aw
      | Some part \<Rightarrow>
          if fst scores (fst q) > 0
          then (fst aw + snd scores (fst q) (so_id s) * part, snd aw + fst scores (fst q) * part)
          else aw)"

definition weigh_quarters :: "quarter_scores \<Rightarrow> date \<Rightarrow> Soldier \<Rightarrow> (date \<times> date) list \<Rightarrow> decimal \<times> decimal" where
  "weigh_quarters scores own_reset s quarters = fold (weigh_quarter scores own_reset s) quarters (0, 0)"

definition effort_data_of :: "quarter_scores \<Rightarrow> date \<Rightarrow> Soldier \<Rightarrow> (date \<times> date) list \<Rightarrow> EffortData" where
  "effort_data_of scores own_reset s quarters =
     (case weigh_quarters scores own_reset s quarters of (A_i, W_i) \<Rightarrow>
        (let effective_W = (if W_i > 0 then W_i else 1);
             effort_score = (if W_i > 0 then A_i / W_i else 0)
         in \<lparr>ed_effort_score = effort_score, ed_C_over_D = 1 / (effective_W * 1000),
             ed_effort_offset = py_int (effort_score * of_int EFFORT_SCALE), ed_effort_per_milli = 0\<rparr>))"

fun compute_effort_rows :: "quarter_scores \<Rightarrow> (uuid, date) dict \<Rightarrow> (date \<times> date) list \<Rightarrow> Soldier list
    \<Rightarrow> (uuid, EffortData) dict" where
  "compute_effort_rows scores resets quarters [] = []"
| "compute_effort_rows scores resets quarters (s # ss) =
     (so_id s, effort_data_of scores (the (map_of resets (so_id s))) s quarters)
       # compute_effort_rows scores resets quarters ss"

section \<open>Scores of the quarters\<close>

fun dict_add :: "'k \<Rightarrow> decimal \<Rightarrow> ('k, decimal) dict \<Rightarrow> ('k, decimal) dict" where
  "dict_add k x [] = [(k, x)]"
| "dict_add k x ((k', y) # d) = (if k' = k then (k', y + x) # d else (k', y) # dict_add k x d)"

definition per_day_score :: "DutyBlock \<Rightarrow> decimal" where
  "per_day_score d = d_score_per_day d
     * (of_int (score_days (d_start_date d) (d_end_date d) (d_start_time d) (d_end_time d))
        / of_int (calendar_days_touched (d_start_date d) (d_end_date d)))"

definition spread_duty :: "DutyBlock \<Rightarrow> (date, decimal) dict \<Rightarrow> (date, decimal) dict" where
  "spread_duty d buckets =
     (if calendar_days_touched (d_start_date d) (d_end_date d) \<le> 0 then buckets
      else fold (\<lambda>day. dict_add (quarter_start day) (per_day_score d))
             (days_from_to (d_start_date d) (d_end_date d)) buckets)"

definition pending_quarter_scores :: "DutyBlock list \<Rightarrow> (date, decimal) dict" where
  "pending_quarter_scores pending_duties = fold spread_duty pending_duties []"

text \<open>The dict from a calendar quarter to the tracked one keeps the last entry.\<close>

definition tracked :: "(date \<times> date) list \<Rightarrow> date \<Rightarrow> date option" where
  "tracked all_quarters day =
     map_option fst (find (\<lambda>q. quarter_start (fst q) = quarter_start day) (rev all_quarters))"

definition merge_pending :: "(date, decimal) dict \<Rightarrow> (date \<times> date) list \<Rightarrow> (date \<times> date) list \<times> (date \<Rightarrow> decimal)" where
  "merge_pending planned quarters =
     fold (\<lambda>(cal_qs, amount) (all_quarters, scores).
        case tracked all_quarters cal_qs of
          Some qs \<Rightarrow> (all_quarters, scores(qs := scores qs + amount))
        | None \<Rightarrow> (all_quarters @ [(cal_qs, quarter_end cal_qs)], scores(cal_qs := scores cal_qs + amount)))
       planned (quarters, \<lambda>_. 0)"

definition book :: "date \<Rightarrow> uuid \<Rightarrow> decimal \<Rightarrow> quarter_scores \<Rightarrow> quarter_scores" where
  "book qs soldier_id score scores =
     ((fst scores)(qs := fst scores qs + score),
      (snd scores)(qs := (snd scores qs)(soldier_id := snd scores qs soldier_id + score)))"

definition book_day :: "score_db \<Rightarrow> (date \<times> date) list \<Rightarrow> date \<Rightarrow> date \<Rightarrow> date \<times> uuid \<times> uuid \<times> decimal
    \<Rightarrow> quarter_scores \<Rightarrow> quarter_scores" where
  "book_day db all_quarters planning_start planning_end row scores =
     (case row of (day, soldier_id, type_id, multiplier) \<Rightarrow>
        if planning_start \<le> day \<and> day \<le> planning_end then scores
        else (case tracked all_quarters day of None \<Rightarrow> scores
              | Some qs \<Rightarrow> book qs soldier_id (type_score db type_id * multiplier) scores))"

definition book_adjustment :: "(date \<times> date) list \<Rightarrow> ScoreAdjustment \<Rightarrow> quarter_scores \<Rightarrow> quarter_scores" where
  "book_adjustment all_quarters adj scores =
     (case find_quarter_key all_quarters (sa_created_on adj) of None \<Rightarrow> scores
      | Some qs \<Rightarrow> book qs (sa_soldier_id adj) (sa_delta adj) scores)"

definition aggregate :: "score_db \<Rightarrow> (date \<times> date) list \<Rightarrow> date \<Rightarrow> date \<Rightarrow> (date \<times> uuid \<times> uuid \<times> decimal) list
    \<Rightarrow> ScoreAdjustment list \<Rightarrow> (date \<Rightarrow> decimal) \<Rightarrow> quarter_scores" where
  "aggregate db all_quarters planning_start planning_end days adjustments planned =
     fold (book_adjustment all_quarters) adjustments
       (fold (book_day db all_quarters planning_start planning_end) days (planned, \<lambda>_ _. 0))"

definition history_stop :: date where
  "history_stop = civil 2099 12 31"

definition duty_days_for_effort :: "score_db \<Rightarrow> date \<Rightarrow> bool \<Rightarrow> uuid list \<Rightarrow> (date \<times> uuid \<times> uuid \<times> decimal) list" where
  "duty_days_for_effort db reset_date include_drafts exclude_assignment_ids =
     (if include_drafts
      then effective_duty_days_with_drafts db (Some reset_date) (Some history_stop) exclude_assignment_ids
      else effective_duty_days db (Some reset_date) (Some history_stop))"

definition compute_effort_data :: "score_db \<Rightarrow> date \<Rightarrow> Soldier list \<Rightarrow> date \<Rightarrow> date \<Rightarrow> date option
    \<Rightarrow> DutyBlock list \<Rightarrow> bool \<Rightarrow> uuid list \<Rightarrow> score_error + (uuid, EffortData) dict" where
  "compute_effort_data db today soldiers planning_start planning_end reset pending_duties include_drafts
      exclude_assignment_ids =
     (case (case reset of Some d \<Rightarrow> Inr (map (\<lambda>s. (so_id s, d)) soldiers)
            | None \<Rightarrow> resolve_reset_dates_for_soldiers db today soldiers) of
        Inl e \<Rightarrow> Inl e
      | Inr resets \<Rightarrow>
          (let reset_date = (case reset of Some d \<Rightarrow> d | None \<Rightarrow> earliest_configured_reset_date db today);
               days = duty_days_for_effort db reset_date include_drafts exclude_assignment_ids;
               quarters = past_quarters reset_date planning_start @ build_future_quarters (map fst days) planning_end;
               (all_quarters, planned) = merge_pending (pending_quarter_scores pending_duties) quarters
           in Inr (compute_effort_rows
                (aggregate db all_quarters planning_start planning_end days (sd_adjustments db) planned)
                resets all_quarters soldiers)))"

section \<open>The breakdown\<close>

record BurdenShareQuarterDetail =
  bq_quarter_start :: date
  bq_quarter_end :: date
  bq_soldier_score :: decimal
  bq_unit_score :: decimal
  bq_active_frac :: decimal
  bq_share :: decimal
  bq_weighted_share :: decimal
  bq_is_partial :: bool

record BurdenShareBreakdown =
  bb_quarters :: "BurdenShareQuarterDetail list"
  bb_burden_share :: decimal
  bb_A_i :: decimal
  bb_W_i :: decimal

definition quarter_detail :: "quarter_scores \<Rightarrow> date \<Rightarrow> Soldier \<Rightarrow> date \<times> date \<Rightarrow> BurdenShareQuarterDetail option" where
  "quarter_detail scores own_reset s q =
     (case active_frac own_reset (activation_of s) q of None \<Rightarrow> None
      | Some part \<Rightarrow>
          (let unit_score = fst scores (fst q); s_score = snd scores (fst q) (so_id s);
               share = (if unit_score > 0 then s_score / unit_score else 0)
           in Some \<lparr>bq_quarter_start = fst q, bq_quarter_end = snd q, bq_soldier_score = s_score,
                bq_unit_score = unit_score, bq_active_frac = part, bq_share = share,
                bq_weighted_share = share * part, bq_is_partial = snd q < quarter_end (fst q)\<rparr>))"

definition compute_burden_share_breakdown :: "score_db \<Rightarrow> date \<Rightarrow> Soldier \<Rightarrow> date \<Rightarrow> date \<Rightarrow> date option
    \<Rightarrow> decimal \<Rightarrow> date option \<Rightarrow> score_error + BurdenShareBreakdown" where
  "compute_burden_share_breakdown db today s planning_start planning_end reset extra_adj_delta extra_adj_date =
     (case (case reset of Some d \<Rightarrow> Inr d | None \<Rightarrow> reset_date_of db today s) of
        Inl e \<Rightarrow> Inl e
      | Inr own_reset \<Rightarrow>
          (let reset_date = (case reset of Some d \<Rightarrow> d | None \<Rightarrow> earliest_configured_reset_date db today);
               days = effective_duty_days db (Some reset_date) (Some history_stop);
               quarters = past_quarters reset_date planning_start @ build_future_quarters (map fst days) planning_end
           in if quarters = [] then Inr \<lparr>bb_quarters = [], bb_burden_share = 0, bb_A_i = 0, bb_W_i = 0\<rparr>
              else
                (let booked = aggregate db quarters planning_start planning_end days
                       (filter (\<lambda>a. sa_soldier_id a = so_id s) (sd_adjustments db)) (\<lambda>_. 0);
                     scores = (if extra_adj_delta = 0 then booked
                       else case extra_adj_date of None \<Rightarrow> booked
                         | Some d \<Rightarrow> (case find_quarter_key quarters d of None \<Rightarrow> booked
                             | Some qs \<Rightarrow> book qs (so_id s) extra_adj_delta booked));
                     (A_i, W_i) = weigh_quarters scores own_reset s quarters
                 in Inr \<lparr>bb_quarters = List.map_filter (quarter_detail scores own_reset s) quarters,
                      bb_burden_share = (if W_i > 0 then A_i / W_i else 0), bb_A_i = A_i, bb_W_i = W_i\<rparr>)))"

section \<open>Efforts for the solver\<close>

definition unit_score_milli :: "DutyBlock list \<Rightarrow> int" where
  "unit_score_milli duty_blocks = (\<Sum>b \<leftarrow> duty_blocks. block_score b)"

definition inject_one :: "int \<Rightarrow> (uuid, EffortData) dict \<Rightarrow> SoldierInput \<Rightarrow> SoldierInput" where
  "inject_one usm effort_map s =
     (case map_of effort_map (s_id s) of None \<Rightarrow> s
      | Some data \<Rightarrow> s\<lparr>s_effort_offset := ed_effort_offset data,
          s_effort_per_milli := (if usm > 0 then py_int (ed_C_over_D data * of_int EFFORT_SCALE) else 0)\<rparr>)"

definition inject_effort_scores :: "SoldierInput list \<Rightarrow> DutyBlock list \<Rightarrow> (uuid, EffortData) dict
    \<Rightarrow> SoldierInput list \<times> int \<times> int" where
  "inject_effort_scores soldiers duty_blocks effort_map =
     (let usm = unit_score_milli duty_blocks;
          injected = map (inject_one usm effort_map) soldiers;
          active = filter (\<lambda>s. s_effort_per_milli s > 0) injected
      in if active = [] then (injected, 0, EFFORT_SCALE)
         else
           (let range_min = Min (set (map s_effort_offset active));
                max_accumulation = Max (set (map s_effort_per_milli active)) * usm;
                range_max = Max (set (map s_effort_offset active)) + max_accumulation
            in (injected, range_min,
                if range_max \<le> range_min then range_min + max 1 max_accumulation else range_max)))"

end
