(* ===== verification/Bridge.thy ===== *)
theory Bridge
  imports CallUps Effort
begin

text \<open>
  The bridge between the database and the engine: \<open>services/algorithm_bridge.py\<close>, with
  \<open>compute_eligibility_exclusions\<close> of \<open>services/eligibility.py\<close> and the bulk checks of
  \<open>services/rank_eligibility_projection.py\<close>.  Rows become the inputs of the solver, and its
  result becomes draft assignments and links to reserves.  \<open>uuid4()\<close> is a function from the
  number of the call to the identifier; the result of the weapon check of
  \<open>weapon_eligibility.py\<close> is an argument.  Explanations, batch reports, snapshots and progress
  messages of a job are left out.
\<close>

section \<open>State\<close>

record DutyShiftNodeQuota =
  nq_shift_id :: uuid
  nq_node_id :: uuid
  nq_count :: nat

text \<open>
  \<open>pd_raw\<close> is the document in the column \<open>requirements\<close> of a duty type, whose parsed form is
  \<open>dt_requirements\<close>.
\<close>

record planning_db =
  pd_scores :: score_db
  pd_links :: "DutyReserveLink list"
  pd_quotas :: "DutyShiftNodeQuota list"
  pd_raw :: "uuid \<Rightarrow> (string, py_value) dict"

abbreviation pd_board :: "planning_db \<Rightarrow> board" where
  "pd_board db \<equiv> sd_board (pd_scores db)"

section \<open>Exemptions\<close>

definition in_force :: "date \<Rightarrow> SoldierExemption \<Rightarrow> bool" where
  "in_force as_of e \<longleftrightarrow> ex_start_date e \<le> as_of \<and> (case ex_end_date e of None \<Rightarrow> True | Some d \<Rightarrow> d \<ge> as_of)"

definition add_ids :: "uuid \<Rightarrow> uuid set \<Rightarrow> (uuid, uuid set) dict \<Rightarrow> (uuid, uuid set) dict" where
  "add_ids k xs m = dict_set m k (dict_get_or m k {} \<union> xs)"

definition global_type_ids :: "board \<Rightarrow> uuid list" where
  "global_type_ids s = map et_id (filter et_is_global (bd_exemption_types s))"

definition active_type_ids :: "board \<Rightarrow> uuid set" where
  "active_type_ids s = set (map dt_id (filter dt_active (bd_duty_types s)))"

text \<open>The duty types an exemption type covers: a global one covers all active types, if any.\<close>

definition exempt_type_map :: "board \<Rightarrow> (uuid, uuid set) dict" where
  "exempt_type_map s =
     (let mapped = fold (\<lambda>(etid, dtid). add_ids etid {dtid}) (bd_exempt_duty_types s) []
      in if active_type_ids s = {} then mapped
         else fold (\<lambda>etid m. dict_set m etid (active_type_ids s)) (global_type_ids s) mapped)"

definition exempt_location_map :: "board \<Rightarrow> (uuid, uuid set) dict" where
  "exempt_location_map s = fold (\<lambda>(etid, locid). add_ids etid {locid}) (bd_exempt_locations s) []"

definition full_coverage_ids :: "board \<Rightarrow> uuid set" where
  "full_coverage_ids s = set (global_type_ids s)
     \<union> (if active_type_ids s = {} then {}
        else set (map fst (filter (\<lambda>(etid, dts). active_type_ids s \<subseteq> dts)
               (fold (\<lambda>(etid, dtid). add_ids etid {dtid}) (bd_exempt_duty_types s) []))))"

definition ids_in_force :: "(uuid, uuid set) dict \<Rightarrow> board \<Rightarrow> date \<Rightarrow> (uuid, uuid set) dict" where
  "ids_in_force by_type s as_of = fold (\<lambda>e m. if in_force as_of e
       then add_ids (ex_soldier_id e) (dict_get_or by_type (ex_type_id e) {}) m else m) (bd_exemptions s) []"

definition compute_eligibility_exclusions :: "board \<Rightarrow> Soldier list \<Rightarrow> int \<Rightarrow> int \<Rightarrow> date \<Rightarrow> (uuid, uuid set) dict" where
  "compute_eligibility_exclusions s soldiers mitvahim_months alal_months reference_date =
     map (\<lambda>x. (so_id x, set (map dt_id (filter (\<lambda>t. dt_active t
           \<and> (case dt_requirements t of
                Requirements reqs \<Rightarrow> \<not> is_eligible_for x reqs mitvahim_months alal_months reference_date None
              | _ \<Rightarrow> False)) (bd_duty_types s))))) soldiers"

definition eligibility_exclusions :: "board \<Rightarrow> Soldier list \<Rightarrow> date \<Rightarrow> (uuid, uuid set) dict" where
  "eligibility_exclusions s soldiers as_of = compute_eligibility_exclusions s soldiers
     (default (se_mitvahim_months (bd_settings s)) 6) (default (se_alal_months (bd_settings s)) 3) as_of"

definition exempted_duty_type_ids_by_soldier :: "board \<Rightarrow> date \<Rightarrow> Soldier list option \<Rightarrow> (uuid, uuid set) dict" where
  "exempted_duty_type_ids_by_soldier s as_of soldiers =
     fold (\<lambda>(i, dtids). add_ids i dtids)
       (eligibility_exclusions s (case soldiers of Some xs \<Rightarrow> xs
          | None \<Rightarrow> filter (\<lambda>x. so_left_at x = None) (bd_soldiers s)) as_of)
       (ids_in_force (exempt_type_map s) s as_of)"

section \<open>Soldiers\<close>

definition node_paths :: "planning_db \<Rightarrow> uuid \<Rightarrow> uuid list option" where
  "node_paths db i = map_option n_path_ids (find (\<lambda>n. n_id n = i) (sd_nodes (pd_scores db)))"

definition path_of_row :: "planning_db \<Rightarrow> Soldier \<Rightarrow> uuid list" where
  "path_of_row db x = (case so_hierarchy_node_id x of None \<Rightarrow> [] | Some i \<Rightarrow> default (node_paths db i) [])"

definition load_soldier_rows :: "planning_db \<Rightarrow> uuid list option \<Rightarrow> uuid list option \<Rightarrow> Soldier list" where
  "load_soldier_rows db eligible_node_ids soldier_ids =
     filter (\<lambda>x. case eligible_node_ids of None \<Rightarrow> True
         | Some ids \<Rightarrow> ids = [] \<or> (so_hierarchy_node_id x \<noteq> None \<and> set ids \<inter> set (path_of_row db x) \<noteq> {}))
       (filter (\<lambda>x. so_left_at x = None \<and> (case soldier_ids of None \<Rightarrow> True | Some ids \<Rightarrow> so_id x \<in> set ids))
         (bd_soldiers (pd_board db)))"

definition draft_score :: "planning_db \<Rightarrow> uuid \<Rightarrow> decimal" where
  "draft_score db i = (\<Sum>a \<leftarrow> filter (\<lambda>a. da_status a = Algorithm_draft \<and> da_soldier_id a = i)
       (bd_assignments (pd_board db)). type_score (pd_scores db) (da_type_id a) * of_int (da_end_date a - da_start_date a))"

definition full_exempt_dates :: "board \<Rightarrow> date \<Rightarrow> uuid \<Rightarrow> date list" where
  "full_exempt_dates s as_of i = remdups (concat (map (\<lambda>e. [ex_start_date e..default (ex_end_date e) as_of])
     (filter (\<lambda>e. ex_soldier_id e = i \<and> ex_type_id e \<in> full_coverage_ids s) (bd_exemptions s))))"

definition solver_active_days :: "board \<Rightarrow> date \<Rightarrow> Soldier \<Rightarrow> int" where
  "solver_active_days s as_of x =
     max 1 (max 1 (as_of - so_enrolled_at x) - int (length (full_exempt_dates s as_of (so_id x))))"

definition approved_ranges :: "board \<Rightarrow> uuid \<Rightarrow> (date \<times> date) list" where
  "approved_ranges s i = map (\<lambda>c. (pc_start_date c, pc_end_date c))
     (filter (\<lambda>c. pc_status c = Approved_constraint \<and> pc_soldier_id c = i) (bd_constraints s))"

definition soldier_input :: "planning_db \<Rightarrow> date \<Rightarrow> Soldier list \<Rightarrow> Soldier \<Rightarrow> SoldierInput" where
  "soldier_input db as_of rows x =
     (let s = pd_board db; i = so_id x
      in \<lparr>s_id = i, s_enrolled_at = so_enrolled_at x,
          s_cumulative_score = duty_score_by_soldier (pd_scores db) i + adjustments_by_soldier (pd_scores db) i
            + draft_score db i,
          s_active_days = solver_active_days s as_of x, s_hierarchy_node_id = so_hierarchy_node_id x,
          s_unit_join_date = so_unit_join_date x, s_path_ids = path_of_row db x,
          s_approved_constraint_dates = approved_ranges s i,
          s_exempted_duty_type_ids = dict_get_or (ids_in_force (exempt_type_map s) s as_of) i {}
            \<union> dict_get_or (eligibility_exclusions s rows as_of) i {},
          s_exempted_duty_location_ids = dict_get_or (ids_in_force (exempt_location_map s) s as_of) i {},
          s_weapon_ineligible_duty_block_ids = {}, s_future_ineligible_duty_block_ids = {},
          s_effort_offset = 0, s_effort_per_milli = 0\<rparr>)"

definition load_soldier_inputs :: "planning_db \<Rightarrow> date \<Rightarrow> uuid list option \<Rightarrow> uuid list option \<Rightarrow> SoldierInput list" where
  "load_soldier_inputs db as_of eligible_node_ids soldier_ids =
     (let rows = load_soldier_rows db eligible_node_ids soldier_ids in map (soldier_input db as_of rows) rows)"

section \<open>Duties\<close>

definition load_duty_blocks :: "planning_db \<Rightarrow> (nat \<Rightarrow> uuid) \<Rightarrow> date \<Rightarrow> date \<Rightarrow> uuid list \<Rightarrow> uuid \<Rightarrow> DutyBlock list" where
  "load_duty_blocks db ids planning_start planning_end duty_type_ids duty_location_id =
     (let types = filter (\<lambda>t. dt_id t \<in> set duty_type_ids \<and> dt_active t) (bd_duty_types (pd_board db))
      in map (\<lambda>(k, day, t). \<lparr>d_id = ids k, d_duty_type_id = dt_id t, d_duty_location_id = duty_location_id,
            d_start_date = day, d_end_date = day, d_score_per_day = dt_score_per_day t, d_is_reserve = False,
            d_eligible_node_ids = None, d_start_time = (0, 0), d_end_time = (23, 59), d_node_quotas = None,
            d_rest_hours = 0, d_required_range_type = dt_required_range_type t, d_requirements = pd_raw db (dt_id t)\<rparr>)
           (List.enumerate 0 (List.product [planning_start..planning_end] types)))"

definition shift_type :: "planning_db \<Rightarrow> DutyShift \<Rightarrow> DutyType option" where
  "shift_type db sh = duty_type_of (pd_board db) (sh_type_id sh)"

definition reserve_count_for_shift :: "planning_db \<Rightarrow> DutyShift \<Rightarrow> int" where
  "reserve_count_for_shift db sh =
     (case sh_reserve_override sh of Some n \<Rightarrow> n
      | None \<Rightarrow> (case shift_type db sh of None \<Rightarrow> 0
          | Some t \<Rightarrow> max (dt_reserve_minimum t) \<lceil>of_int (sh_required_count sh) * dt_reserve_ratio t\<rceil>))"

text \<open>The slots of a shift that are taken, by published assignments or drafts.\<close>

definition filled :: "board \<Rightarrow> uuid \<Rightarrow> bool \<Rightarrow> int" where
  "filled s shift_id is_reserve = int (length (filter (\<lambda>a. da_shift_id a = Some shift_id
     \<and> da_status a \<in> {Published, Algorithm_draft} \<and> da_is_reserve a = is_reserve) (bd_assignments s)))"

definition expanded_quotas :: "planning_db \<Rightarrow> uuid \<Rightarrow> (uuid, int) dict list" where
  "expanded_quotas db shift_id = concat (map (\<lambda>q. replicate (nq_count q) [(nq_node_id q, 1)])
     (filter (\<lambda>q. nq_shift_id q = shift_id) (pd_quotas db)))"

definition shift_block :: "planning_db \<Rightarrow> date \<Rightarrow> DutyShift \<Rightarrow> decimal \<Rightarrow> bool \<Rightarrow> (uuid, int) dict option \<Rightarrow> DutyBlock" where
  "shift_block db today sh score is_reserve quota =
     (let effective_start = max (sh_start_date sh) today
      in \<lparr>d_id = 0, d_duty_type_id = sh_type_id sh, d_duty_location_id = sh_location_id sh,
          d_start_date = effective_start, d_end_date = sh_end_date sh, d_score_per_day = score,
          d_is_reserve = is_reserve, d_eligible_node_ids = sh_eligible_node_ids sh,
          d_start_time = (if effective_start = sh_start_date sh then sh_start_time sh else (0, 0)),
          d_end_time = sh_end_time sh, d_node_quotas = quota,
          d_rest_hours = resolve_rest_hours (shift_type db sh) (default (se_default_rest_hours (bd_settings (pd_board db))) 12),
          d_required_range_type = (case shift_type db sh of None \<Rightarrow> None | Some t \<Rightarrow> dt_required_range_type t),
          d_requirements = (case shift_type db sh of None \<Rightarrow> [] | Some t \<Rightarrow> pd_raw db (dt_id t))\<rparr>)"

definition blocks_of_shift :: "planning_db \<Rightarrow> date \<Rightarrow> decimal \<Rightarrow> DutyShift \<Rightarrow> DutyBlock list" where
  "blocks_of_shift db today standby_multiplier sh =
     (if max (sh_start_date sh) today \<ge> sh_end_date sh then []
      else
        (let score = (case shift_type db sh of None \<Rightarrow> 1 | Some t \<Rightarrow> dt_score_per_day t);
             primary_needed = max 0 (sh_required_count sh - filled (pd_board db) (sh_id sh) False);
             quotas = expanded_quotas db (sh_id sh);
             reserve_needed = max 0 (reserve_count_for_shift db sh - filled (pd_board db) (sh_id sh) True)
         in map (\<lambda>i. shift_block db today sh score False (if i < length quotas then Some (quotas ! i) else None))
              [0..<nat primary_needed]
            @ replicate (nat reserve_needed) (shift_block db today sh (score * standby_multiplier) True None)))"

definition made_blocks :: "planning_db \<Rightarrow> date \<Rightarrow> uuid list \<Rightarrow> decimal \<Rightarrow> (uuid \<times> DutyBlock) list" where
  "made_blocks db today shift_ids standby_multiplier =
     concat (map (\<lambda>sh. map (Pair (sh_id sh)) (blocks_of_shift db today standby_multiplier sh))
       (filter (\<lambda>sh. sh_id sh \<in> set shift_ids \<and> sh_active sh) (bd_shifts (pd_board db))))"

definition load_duty_blocks_from_shifts :: "planning_db \<Rightarrow> (nat \<Rightarrow> uuid) \<Rightarrow> date \<Rightarrow> uuid list \<Rightarrow> decimal
    \<Rightarrow> DutyBlock list \<times> (uuid, uuid) dict" where
  "load_duty_blocks_from_shifts db ids today shift_ids standby_multiplier =
     (let made = List.enumerate 0 (made_blocks db today shift_ids standby_multiplier)
      in (map (\<lambda>(k, _, b). b\<lparr>d_id := ids k\<rparr>) made, map (\<lambda>(k, shift_id, _). (ids k, shift_id)) made))"

definition effort_history_horizon :: "board \<Rightarrow> date \<Rightarrow> date" where
  "effort_history_horizon s planning_start =
     (let ends = map da_end_date (filter (\<lambda>a. da_status a = Published) (bd_assignments s))
      in if ends \<noteq> [] \<and> Max (set ends) \<ge> planning_start then Max (set ends) + 1 else planning_start)"

definition load_existing_assignments :: "board \<Rightarrow> date \<Rightarrow> date \<Rightarrow> int \<Rightarrow> ExistingAssignment list" where
  "load_existing_assignments s planning_start planning_end W =
     map (\<lambda>a. let end_dt = effective_assignment_end s a
          in \<lparr>e_soldier_id = da_soldier_id a, e_duty_type_id = da_type_id a, e_start_date = da_start_date a,
              e_end_date = da_end_date a, e_is_reserve = da_is_reserve a,
              e_rest_hours = resolve_rest_hours (duty_type_of s (da_type_id a))
                (default (se_default_rest_hours (bd_settings s)) 12),
              e_rest_effective_end_date = Some (end_dt div (24 * 60)),
              e_rest_effective_end_time = (end_dt mod (24 * 60) div 60, end_dt mod 60)\<rparr>)
       (filter (\<lambda>a. da_status a = Published \<and> da_start_date a \<le> planning_end + W
          \<and> da_end_date a \<ge> planning_start - W) (bd_assignments s))"

section \<open>Blocks a soldier is not eligible for\<close>

definition exempt_block :: "board \<Rightarrow> DutyBlock \<Rightarrow> SoldierExemption \<Rightarrow> bool" where
  "exempt_block s b e \<longleftrightarrow> ex_start_date e \<le> d_end_date b
     \<and> (case ex_end_date e of None \<Rightarrow> True | Some x \<Rightarrow> d_start_date b \<le> x)
     \<and> (list_ex (\<lambda>t. et_id t = ex_type_id e \<and> et_is_global t) (bd_exemption_types s)
        \<or> (ex_type_id e, d_duty_type_id b) \<in> set (bd_exempt_duty_types s)
        \<or> (ex_type_id e, d_duty_location_id b) \<in> set (bd_exempt_locations s))"

definition bulk_exempt_duty_blocks :: "board \<Rightarrow> uuid list \<Rightarrow> DutyBlock list \<Rightarrow> (uuid, uuid set) dict" where
  "bulk_exempt_duty_blocks s soldier_ids duties =
     (if duties = [] then [] else
        map (\<lambda>(i, es). (i, set (map d_id (filter (\<lambda>b. list_ex (exempt_block s b) es) duties))))
          (fold (\<lambda>e m. dict_append m (ex_soldier_id e) e)
            (filter (\<lambda>e. ex_soldier_id e \<in> set soldier_ids) (bd_exemptions s)) []))"

definition no_requirements :: DutyTypeRequirements where
  "no_requirements = \<lparr>v_allowed_genders = [], v_requires_mitvahim = False, v_requires_alal = False,
     v_allowed_ranks = [], v_allowed_service_types = [], v_rank_service_types = [], v_officers_allowed = True,
     v_enlisted_allowed = True, v_requires_bahad1 = False, v_requires_license = False\<rparr>"

definition parsed_requirements :: "requirements \<Rightarrow> DutyTypeRequirements option" where
  "parsed_requirements r = (case r of No_requirements \<Rightarrow> Some no_requirements | Invalid_requirements \<Rightarrow> None
     | Requirements reqs \<Rightarrow> Some reqs)"

text \<open>The clauses on rank and service type, when there are any.\<close>

definition rank_requirements :: "DutyTypeRequirements \<Rightarrow> DutyTypeRequirements option" where
  "rank_requirements reqs =
     (if v_allowed_ranks reqs \<noteq> [] \<or> v_allowed_service_types reqs \<noteq> [] \<or> v_rank_service_types reqs \<noteq> []
      then Some (no_requirements\<lparr>v_allowed_ranks := v_allowed_ranks reqs,
             v_allowed_service_types := v_allowed_service_types reqs,
             v_rank_service_types := v_rank_service_types reqs\<rparr>)
      else None)"

definition projected_on :: "board \<Rightarrow> Soldier \<Rightarrow> date \<Rightarrow> ProjectedSoldierState" where
  "projected_on s x day = project_soldier_state (bd_plus_months s) (bd_intervals s)
     (Some (load_interval_cache (bd_intervals s))) x day"

definition unfit_block :: "board \<Rightarrow> Soldier \<Rightarrow> DutyBlock \<Rightarrow> bool" where
  "unfit_block s x b =
     (let mitvahim_months = default (se_mitvahim_months (bd_settings s)) 6;
          alal_months = default (se_alal_months (bd_settings s)) 3;
          projected = projected_on s x (d_end_date b)
      in if j_departed projected then True
         else (case duty_type_of s (d_duty_type_id b) of None \<Rightarrow> False
           | Some t \<Rightarrow> (case parsed_requirements (dt_requirements t) of None \<Rightarrow> False
               | Some reqs \<Rightarrow>
                   if \<not> is_eligible_for x reqs mitvahim_months alal_months (d_end_date b) (j_rank projected) then True
                   else (case rank_requirements reqs of None \<Rightarrow> False
                     | Some rank_reqs \<Rightarrow>
                         d_start_date b \<noteq> d_end_date b
                         \<and> \<not> is_eligible_for x rank_reqs mitvahim_months alal_months (d_start_date b)
                               (j_rank (projected_on s x (d_start_date b)))))))"

definition bulk_future_ineligible_duty_blocks :: "board \<Rightarrow> uuid list \<Rightarrow> DutyBlock list \<Rightarrow> (uuid, uuid set) dict" where
  "bulk_future_ineligible_duty_blocks s soldier_ids duties =
     (if soldier_ids = [] \<or> duties = [] then [] else
        filter (\<lambda>(_, excluded). excluded \<noteq> {})
          (map (\<lambda>x. (so_id x, dict_get_or (bulk_exempt_duty_blocks s soldier_ids duties) (so_id x) {}
               \<union> set (map d_id (filter (unfit_block s x) duties))))
            (filter (\<lambda>x. so_id x \<in> set soldier_ids) (bd_soldiers s))))"

definition populate_eligibility_data :: "board \<Rightarrow> (uuid, uuid set) dict \<Rightarrow> SolverSettings \<Rightarrow> DutyBlock list
    \<Rightarrow> SoldierInput list \<Rightarrow> SoldierInput list" where
  "populate_eligibility_data s weapon_ineligible settings duties soldiers =
     (let future = bulk_future_ineligible_duty_blocks s (map s_id soldiers) duties
      in map (\<lambda>x. x\<lparr>s_weapon_ineligible_duty_block_ids :=
             (if enforce_weapon_qualification settings then dict_get_or weapon_ineligible (s_id x) {}
              else s_weapon_ineligible_duty_block_ids x),
           s_future_ineligible_duty_block_ids := dict_get_or future (s_id x) {}\<rparr>) soldiers)"

section \<open>Results\<close>

definition draft_row :: "uuid \<Rightarrow> uuid \<Rightarrow> DutyBlock \<Rightarrow> uuid option \<Rightarrow> DutyAssignment" where
  "draft_row i soldier_id b shift_id =
     \<lparr>da_id = i, da_soldier_id = soldier_id, da_type_id = d_duty_type_id b, da_location_id = d_duty_location_id b,
      da_start_date = d_start_date b, da_end_date = d_end_date b, da_start_time = d_start_time b,
      da_end_time = d_end_time b, da_status = Algorithm_draft, da_shift_id = shift_id,
      da_is_reserve = d_is_reserve b, da_called_up_from = None, da_called_up_to = None,
      da_forced_multiplier = None, da_weapon_ineligible = False\<rparr>"

definition shift_triples :: "bool \<Rightarrow> DutyAssignment list \<Rightarrow> shift_assignment list" where
  "shift_triples is_reserve rows = List.map_filter (\<lambda>a. if da_is_reserve a = is_reserve
     then map_option (\<lambda>sh. (da_id a, da_soldier_id a, sh)) (da_shift_id a) else None) rows"

definition draft_rows :: "DutyBlock list \<Rightarrow> (uuid, uuid) dict \<Rightarrow> (nat \<Rightarrow> uuid) \<Rightarrow> Assignment list
    \<Rightarrow> DutyAssignment list option" where
  "draft_rows duty_blocks block_to_shift row_ids assignments =
     map_option (\<lambda>blocks. map (\<lambda>(k, a, b). draft_row (row_ids k) (a_soldier_id a) b (dict_get block_to_shift (a_duty_id a)))
         (List.enumerate 0 (zip assignments blocks)))
       (those (map (\<lambda>a. find (\<lambda>b. d_id b = a_duty_id a) (rev duty_blocks)) assignments))"

text \<open>\<open>None\<close> is a \<open>KeyError\<close>; the rows of the explanations are left out.\<close>

definition persist_results :: "planning_db \<Rightarrow> DutyBlock list \<Rightarrow> (uuid, uuid) dict \<Rightarrow> (uuid, uuid) dict \<Rightarrow> parents
    \<Rightarrow> (nat \<Rightarrow> uuid) \<Rightarrow> (nat \<Rightarrow> uuid) \<Rightarrow> uuid option \<Rightarrow> Assignment list \<Rightarrow> planning_db option" where
  "persist_results db duty_blocks block_to_shift soldier_node hierarchy_parent row_ids link_ids actor_id assignments =
     (case draft_rows duty_blocks block_to_shift row_ids assignments of None \<Rightarrow> None
      | Some rows \<Rightarrow>
          (let s = pd_board db;
               s' = fold (\<lambda>a. audit_board actor_id ''algorithm.proposal.create'' (da_id a)) rows
                      (s\<lparr>bd_assignments := bd_assignments s @ rows\<rparr>);
               db' = db\<lparr>pd_scores := (pd_scores db)\<lparr>sd_board := s'\<rparr>\<rparr>;
               primaries = shift_triples False rows; reserves = shift_triples True rows
           in if primaries = [] \<or> reserves = [] then Some db'
              else map_option (\<lambda>links. db'\<lparr>pd_links := pd_links db @
                       map (\<lambda>(k, l). \<lparr>rk_id = link_ids k, rk_reserve_id = l_reserve_assignment_id l,
                          rk_primary_id = l_primary_assignment_id l, rk_distance = l_hierarchy_distance l\<rparr>)
                         (List.enumerate 0 links)\<rparr>)
                     (link_reserves primaries reserves soldier_node hierarchy_parent)))"

end
