(* ===== verification/Planning.thy ===== *)
theory Planning
  imports Bridge Solver
begin

text \<open>
  A planning job: the run of \<open>run_algorithm_job\<close> from the rows of the database over the solver
  to its drafts, and the guarantees that hold across it.
\<close>

section \<open>The job\<close>

datatype job_result = Nothing_to_assign | No_soldiers | Interrupted_job | Infeasible_job | Crashed_job | Job_done

definition build_node_parents :: "parents \<Rightarrow> (uuid, uuid) dict" where
  "build_node_parents hierarchy_parent = List.map_filter (\<lambda>(i, p). map_option (Pair i) p) hierarchy_parent"

text \<open>The soldiers of a run with their eligibility and effort; \<open>Inl\<close> is an exception.\<close>

definition solver_soldiers :: "planning_db \<Rightarrow> date \<Rightarrow> (SoldierInput list \<Rightarrow> DutyBlock list \<Rightarrow> (uuid, uuid set) dict)
    \<Rightarrow> uuid list option \<Rightarrow> SolverSettings \<Rightarrow> DutyBlock list \<Rightarrow> score_error + SoldierInput list" where
  "solver_soldiers db today weapon eligible_node_ids settings duties =
     (let planning_start = Min (set (map d_start_date duties));
          rows = load_soldier_rows db eligible_node_ids None;
          loaded = load_soldier_inputs db planning_start eligible_node_ids None;
          soldiers = populate_eligibility_data (pd_board db) (weapon loaded duties) settings duties loaded;
          horizon = effort_history_horizon (pd_board db) planning_start
      in case compute_effort_data (pd_scores db) today rows horizon horizon None duties False [] of
           Inl e \<Rightarrow> Inl e
         | Inr effort_map \<Rightarrow> Inr (fst (inject_effort_scores soldiers duties effort_map)))"

text \<open>
  \<open>cancelled_by_user\<close>: the user, and not the time limit, stopped the solver; \<open>cancelled_late\<close>: the
  job was stopped while its results were written, which are then rolled back.
\<close>

definition run_algorithm_job :: "'w env \<Rightarrow> planning_db \<Rightarrow> date \<Rightarrow> (nat \<Rightarrow> uuid) \<Rightarrow> (nat \<Rightarrow> uuid) \<Rightarrow> (nat \<Rightarrow> uuid)
    \<Rightarrow> (SoldierInput list \<Rightarrow> DutyBlock list \<Rightarrow> (uuid, uuid set) dict) \<Rightarrow> uuid list \<Rightarrow> uuid list option
    \<Rightarrow> SolverSettings \<Rightarrow> bool \<Rightarrow> bool \<Rightarrow> uuid option \<Rightarrow> 'w \<Rightarrow> job_result \<times> planning_db" where
  "run_algorithm_job env db today block_ids row_ids link_ids weapon shift_ids eligible_node_ids settings
      cancelled_by_user cancelled_late actor_id w =
     (let (duties, block_to_shift) = load_duty_blocks_from_shifts db block_ids today shift_ids
            (default (ss_standby_multiplier (sd_settings (pd_scores db))) (1 / 5))
      in if duties = [] then (Nothing_to_assign, db)
         else
           (case solver_soldiers db today weapon eligible_node_ids settings duties of
              Inl _ \<Rightarrow> (Crashed_job, db)
            | Inr soldiers \<Rightarrow>
                if soldiers = [] then (No_soldiers, db)
                else
                  (let existing = load_existing_assignments (pd_board db) (Min (set (map d_start_date duties)))
                         (Max (set (map d_end_date duties))) (Wr settings);
                       (hp, _, soldier_node, _) = build_hierarchy_maps (sd_nodes (pd_scores db)) (bd_soldiers (pd_board db));
                       node_parents = (if auto_relax_node_quotas settings then Some (build_node_parents hp) else None)
                   in case compute_reserve_dist soldiers duties block_to_shift hp soldier_node of
                        None \<Rightarrow> (Crashed_job, db)
                      | Some reserve_dist \<Rightarrow>
                         (case solve env soldiers duties existing settings (Some reserve_dist) node_parents w of
                            (None, _) \<Rightarrow> (Crashed_job, db)
                          | (Some result, _) \<Rightarrow>
                              if r_status result = CANCELLED \<and> (r_assignments result = [] \<or> cancelled_by_user)
                              then (Interrupted_job, db)
                              else if r_status result = INFEASIBLE then (Infeasible_job, db)
                              else
                                (case persist_results db duties block_to_shift soldier_node hp row_ids link_ids
                                        actor_id (r_assignments result) of
                                   None \<Rightarrow> (Crashed_job, db)
                                 | Some db' \<Rightarrow>
                                     if cancelled_late \<and> r_status result \<noteq> CANCELLED then (Interrupted_job, db)
                                     else (Job_done, db'))))))"

end
