(* ===== verification/PlanningSound.thy ===== *)
theory PlanningSound
  imports Planning
begin

text \<open>
  What a planning job hands to the solver and what it makes of the answer: the blocks are the
  free slots of the shifts, the inputs carry every reason that the check of a single soldier
  knows, and the drafts are the rows the schedule names.
\<close>

section \<open>Blocks\<close>

lemma shift_block_simps [simp]:
  "d_start_date (shift_block db today sh m r q) = max (sh_start_date sh) today"
  "d_end_date (shift_block db today sh m r q) = sh_end_date sh" "d_is_reserve (shift_block db today sh m r q) = r"
  "d_end_time (shift_block db today sh m r q) = sh_end_time sh"
  by (simp_all add: shift_block_def Let_def)

lemma blocks_of_shift_facts:
  assumes "b \<in> set (blocks_of_shift db today m sh)" "valid_clock (sh_start_time sh)" "valid_clock (sh_end_time sh)"
  shows "d_start_date b < d_end_date b \<and> valid_clock (d_start_time b) \<and> valid_clock (d_end_time b)"
  using assms
  by (auto simp: blocks_of_shift_def Let_def shift_block_def valid_clock_def split: if_split_asm)

definition free_slots :: "planning_db \<Rightarrow> DutyShift \<Rightarrow> bool \<Rightarrow> int" where
  "free_slots db sh is_reserve = max 0 ((if is_reserve then reserve_count_for_shift db sh else sh_required_count sh)
     - filled (pd_board db) (sh_id sh) is_reserve)"

lemma filter_replicate: "filter P (replicate n x) = (if P x then replicate n x else [])"
  by (induction n) auto

lemma blocks_of_shift_count:
  "int (length (filter (\<lambda>b. d_is_reserve b = r) (blocks_of_shift db today m sh))) \<le> free_slots db sh r"
  by (cases r) (simp_all add: blocks_of_shift_def Let_def free_slots_def filter_replicate filter_map o_def)

lemma made_blocks_of:
  assumes "distinct (map sh_id (bd_shifts (pd_board db)))" "sh \<in> set (bd_shifts (pd_board db))"
  shows "map snd (filter (\<lambda>(i, _). i = sh_id sh) (made_blocks db today shift_ids m))
    = (if sh_id sh \<in> set shift_ids \<and> sh_active sh then blocks_of_shift db today m sh else [])"
proof -
  have "map snd (filter (\<lambda>(i, _). i = sh_id sh) (concat (map (\<lambda>x. map (Pair (sh_id x)) (f x)) (filter P xs))))
      = (if P sh then f sh else [])"
    if "distinct (map sh_id xs)" "sh \<in> set xs" for xs and f :: "DutyShift \<Rightarrow> DutyBlock list" and P
    using that
  proof (induction xs)
    case (Cons x xs)
    show ?case
    proof (cases "x = sh")
      case True
      then have "sh_id sh \<notin> sh_id ` set xs" using Cons.prems by simp
      then have "sh_id y \<noteq> sh_id sh" if "y \<in> set xs" for y using that by (metis image_eqI)
      then have "filter (\<lambda>(i, _). i = sh_id sh) (concat (map (\<lambda>x. map (Pair (sh_id x)) (f x)) (filter P xs))) = []"
        by (auto simp: filter_empty_conv)
      then show ?thesis using True by (simp add: filter_map o_def)
    next
      case False
      then have "sh_id x \<noteq> sh_id sh" using Cons.prems by auto
      then show ?thesis using Cons False by (auto simp: filter_map o_def)
    qed
  qed simp
  then show ?thesis using assms by (simp add: made_blocks_def)
qed

lemma made_block_shift:
  "(i, b) \<in> set (made_blocks db today shift_ids m) \<Longrightarrow>
    \<exists>sh \<in> set (bd_shifts (pd_board db)). sh_id sh = i \<and> b \<in> set (blocks_of_shift db today m sh)"
  by (auto simp: made_blocks_def)

lemma loaded_blocks:
  assumes "load_duty_blocks_from_shifts db ids today shift_ids m = (ds, b2s)" "inj ids"
  shows "distinct (map d_id ds)"
    and "d \<in> set ds \<Longrightarrow> \<exists>k i b. k < length (made_blocks db today shift_ids m)
      \<and> made_blocks db today shift_ids m ! k = (i, b) \<and> d = b\<lparr>d_id := ids k\<rparr> \<and> dict_get b2s (d_id d) = Some i"
    and "map fst b2s = map d_id ds"
proof -
  let ?made = "made_blocks db today shift_ids m"
  have ds: "ds = map (\<lambda>(k, _, b). b\<lparr>d_id := ids k\<rparr>) (List.enumerate 0 ?made)"
    and b2s: "b2s = map (\<lambda>(k, i, _). (ids k, i)) (List.enumerate 0 ?made)"
    using assms(1) by (auto simp: load_duty_blocks_from_shifts_def Let_def)
  have ids: "map d_id ds = map ids [0..<length ?made]"
    by (rule nth_equalityI) (simp_all add: ds nth_enumerate_eq case_prod_beta)
  show "distinct (map d_id ds)"
    unfolding ids using assms(2) by (simp add: distinct_map inj_on_def)
  have keys: "map fst b2s = map d_id ds" by (simp add: ds b2s o_def case_prod_beta)
  then show "map fst b2s = map d_id ds" .
  show "\<exists>k i b. k < length ?made \<and> ?made ! k = (i, b) \<and> d = b\<lparr>d_id := ids k\<rparr> \<and> dict_get b2s (d_id d) = Some i"
    if d: "d \<in> set ds"
  proof -
    obtain k i b where k: "(k, i, b) \<in> set (List.enumerate 0 ?made)" "d = b\<lparr>d_id := ids k\<rparr>" using d by (auto simp: ds)
    then have "k < length ?made" "?made ! k = (i, b)" by (simp_all add: in_set_enumerate_eq)
    moreover have "(ids k, i) \<in> set b2s" using k(1) by (force simp: b2s)
    then have "dict_get b2s (ids k) = Some i"
      using \<open>distinct (map d_id ds)\<close> keys by (simp add: dict_get_def)
    ultimately show ?thesis using k(2) by auto
  qed
qed

section \<open>Soldiers\<close>

text \<open>What a run reads of a soldier and of his eligibility.\<close>

lemma inject_keeps:
  "map (\<lambda>s. (s_id s, s_exempted_duty_type_ids s, s_exempted_duty_location_ids s, s_approved_constraint_dates s,
      s_future_ineligible_duty_block_ids s, s_path_ids s)) (fst (inject_effort_scores ss ds m))
    = map (\<lambda>s. (s_id s, s_exempted_duty_type_ids s, s_exempted_duty_location_ids s, s_approved_constraint_dates s,
      s_future_ineligible_duty_block_ids s, s_path_ids s)) ss"
proof -
  have "fst (inject_effort_scores ss ds m) = map (inject_one (unit_score_milli ds) m) ss"
    by (simp add: inject_effort_scores_def Let_def)
  then show ?thesis by (simp add: inject_one_def split: option.split)
qed

lemma load_soldier_inputs_ids: "map s_id (load_soldier_inputs db as_of el ids) = map so_id (load_soldier_rows db el ids)"
  by (simp add: load_soldier_inputs_def Let_def soldier_input_def o_def)

definition run_soldier :: "planning_db \<Rightarrow> DutyBlock list \<Rightarrow> SoldierInput \<Rightarrow> Soldier \<Rightarrow> bool" where
  "run_soldier db ds s x \<longleftrightarrow> s_id s = so_id x \<and> so_left_at x = None
     \<and> s_approved_constraint_dates s = approved_ranges (pd_board db) (so_id x)
     \<and> (\<forall>d \<in> set ds. d_id d \<notin> s_future_ineligible_duty_block_ids s
          \<longrightarrow> \<not> unfit_block (pd_board db) x d
            \<and> \<not> list_ex (\<lambda>e. ex_soldier_id e = so_id x \<and> exempt_block (pd_board db) d e) (bd_exemptions (pd_board db)))"

lemma bulk_exempt_get:
  assumes "ds \<noteq> []" "i \<in> set ids"
  shows "dict_get_or (bulk_exempt_duty_blocks s ids ds) i {}
    = set (map d_id (filter (\<lambda>b. list_ex (\<lambda>e. ex_soldier_id e = i \<and> exempt_block s b e) (bd_exemptions s)) ds))"
proof -
  let ?m = "fold (\<lambda>e m. dict_append m (ex_soldier_id e) e) (filter (\<lambda>e. ex_soldier_id e \<in> set ids) (bd_exemptions s)) []"
  have get: "dict_get (map (\<lambda>(i, es). (i, g es)) m) i = map_option g (dict_get m i)" for g :: "SoldierExemption list \<Rightarrow> uuid set" and m
    by (induction m) (auto simp: dict_get_def)
  have "dict_get_or ?m i [] = filter (\<lambda>e. ex_soldier_id e = i) (filter (\<lambda>e. ex_soldier_id e \<in> set ids) (bd_exemptions s))"
    using group_fold_get [of ex_soldier_id "filter (\<lambda>e. ex_soldier_id e \<in> set ids) (bd_exemptions s)" "[]" i] by (simp add: dict_get_or_def)
  also have "\<dots> = filter (\<lambda>e. ex_soldier_id e = i) (bd_exemptions s)" using assms(2) by (auto intro!: filter_cong)
  finally have rows: "dict_get_or ?m i [] = filter (\<lambda>e. ex_soldier_id e = i) (bd_exemptions s)" .
  have "list_ex (exempt_block s b) (dict_get_or ?m i []) = list_ex (\<lambda>e. ex_soldier_id e = i \<and> exempt_block s b e) (bd_exemptions s)" for b
    unfolding rows by (auto simp: list_ex_iff)
  moreover have "dict_get_or (bulk_exempt_duty_blocks s ids ds) i {}
      = set (map d_id (filter (\<lambda>b. list_ex (exempt_block s b) (dict_get_or ?m i [])) ds))"
    using assms(1) by (simp add: bulk_exempt_duty_blocks_def dict_get_or_def get split: option.split)
  ultimately show ?thesis by (simp only:)
qed

lemma bulk_future_get:
  assumes "ds \<noteq> []" "x \<in> set (bd_soldiers s)" "so_id x \<in> set ids" "distinct (map so_id (bd_soldiers s))"
  shows "dict_get_or (bulk_future_ineligible_duty_blocks s ids ds) (so_id x) {}
    = set (map d_id (filter (\<lambda>b. list_ex (\<lambda>e. ex_soldier_id e = so_id x \<and> exempt_block s b e) (bd_exemptions s)) ds))
      \<union> set (map d_id (filter (unfit_block s x) ds))"
proof -
  have get: "dict_get_or (filter (\<lambda>(_, ex). ex \<noteq> {}) (map (\<lambda>x. (so_id x, g x)) (filter P xs))) (so_id x) {} = g x"
    if "x \<in> set xs" "P x" "distinct (map so_id xs)" for xs P and g :: "Soldier \<Rightarrow> uuid set"
    using that
  proof (induction xs)
    case (Cons y xs)
    show ?case
    proof (cases "y = x")
      case True
      then have "so_id x \<notin> so_id ` set xs" using Cons.prems by simp
      then have "map_of (filter (\<lambda>(_, ex). ex \<noteq> {}) (map (\<lambda>x. (so_id x, g x)) (filter P xs))) (so_id x) = None"
        by (auto simp: map_of_eq_None_iff)
      then show ?thesis using True Cons.prems by (simp add: dict_get_or_def dict_get_def)
    next
      case False
      then have "so_id y \<noteq> so_id x" using Cons.prems by (metis distinct.simps(2) image_eqI list.simps(9) set_ConsD set_map)
      then show ?thesis using Cons False by (simp add: dict_get_or_def dict_get_def)
    qed
  qed simp
  show ?thesis
    using assms by (simp add: bulk_future_ineligible_duty_blocks_def get bulk_exempt_get del: set_map) auto
qed

lemma load_soldier_rows_subset:
  "x \<in> set (load_soldier_rows db el ids) \<Longrightarrow> x \<in> set (bd_soldiers (pd_board db)) \<and> so_left_at x = None"
  by (simp add: load_soldier_rows_def)

lemma populate_keeps:
  assumes "s \<in> set (populate_eligibility_data b weapon st ds loaded)"
  obtains s1 where "s1 \<in> set loaded" "s_id s = s_id s1"
    "s_approved_constraint_dates s = s_approved_constraint_dates s1"
    "s_future_ineligible_duty_block_ids s
      = dict_get_or (bulk_future_ineligible_duty_blocks b (map s_id loaded) ds) (s_id s1) {}"
  using assms by (auto simp: populate_eligibility_data_def Let_def)

lemma solver_soldiers_run:
  assumes run: "solver_soldiers db today weapon el st ds = Inr ss"
    and ds: "ds \<noteq> []" and keys: "distinct (map so_id (bd_soldiers (pd_board db)))"
  shows "distinct (map s_id ss)"
    and "s \<in> set ss \<Longrightarrow> \<exists>x \<in> set (bd_soldiers (pd_board db)). run_soldier db ds s x"
proof -
  let ?start = "Min (set (map d_start_date ds))"
  let ?rows = "load_soldier_rows db el None" and ?loaded = "load_soldier_inputs db ?start el None"
  let ?ss = "populate_eligibility_data (pd_board db) (weapon ?loaded ds) st ds ?loaded"
  let ?key = "\<lambda>s. (s_id s, s_exempted_duty_type_ids s, s_exempted_duty_location_ids s, s_approved_constraint_dates s,
      s_future_ineligible_duty_block_ids s, s_path_ids s)"
  have same: "map ?key ss = map ?key ?ss"
    using run inject_keeps by (auto simp: solver_soldiers_def Let_def split: sum.splits)
  have "map s_id ss = map fst (map ?key ss)" by simp
  also have "\<dots> = map s_id ?loaded" unfolding same by (simp add: populate_eligibility_data_def Let_def)
  finally have ids: "map s_id ss = map so_id ?rows" by (simp only: load_soldier_inputs_ids)
  have "distinct (map so_id ?rows)" unfolding load_soldier_rows_def by (intro distinct_map_filter keys)
  then show "distinct (map s_id ss)" unfolding ids .
  show "\<exists>x \<in> set (bd_soldiers (pd_board db)). run_soldier db ds s x" if "s \<in> set ss"
  proof -
    have "?key s \<in> set (map ?key ?ss)" using that by (simp only: same [symmetric]) simp
    then obtain s0 where s0: "s0 \<in> set ?ss" "?key s0 = ?key s" by auto
    obtain s1 where s1: "s1 \<in> set ?loaded" "s_id s0 = s_id s1"
      "s_approved_constraint_dates s0 = s_approved_constraint_dates s1"
      "s_future_ineligible_duty_block_ids s0
        = dict_get_or (bulk_future_ineligible_duty_blocks (pd_board db) (map s_id ?loaded) ds) (s_id s1) {}"
      using populate_keeps [OF s0(1)] by blast
    obtain x where x: "x \<in> set ?rows" "s1 = soldier_input db ?start ?rows x"
      using s1(1) by (auto simp: load_soldier_inputs_def Let_def)
    have i: "s_id s1 = so_id x" "s_approved_constraint_dates s1 = approved_ranges (pd_board db) (so_id x)"
      unfolding x(2) by (simp_all add: soldier_input_def Let_def)
    have b: "x \<in> set (bd_soldiers (pd_board db))" "so_left_at x = None" using load_soldier_rows_subset [OF x(1)] by simp_all
    have "so_id x \<in> set (map s_id ?loaded)" using x(1) unfolding load_soldier_inputs_ids by simp
    from bulk_future_get [OF ds b(1) this keys] have f: "s_future_ineligible_duty_block_ids s
        = set (map d_id (filter (\<lambda>b. list_ex (\<lambda>e. ex_soldier_id e = so_id x \<and> exempt_block (pd_board db) b e)
            (bd_exemptions (pd_board db))) ds)) \<union> set (map d_id (filter (unfit_block (pd_board db) x) ds))"
      using s0(2) s1(4) i(1) by simp
    have "run_soldier db ds s x" unfolding run_soldier_def f
      using s0(2) s1(2,3) i b(2) by auto
    then show ?thesis using b(1) by blast
  qed
qed

section \<open>Drafts\<close>

lemma those_eq: "those xs = Some ys \<longleftrightarrow> xs = map Some ys"
proof (induction xs arbitrary: ys)
  case (Cons x xs)
  then show ?case by (cases x; cases ys) auto
qed auto

lemma found_in: "find P xs = Some x \<Longrightarrow> x \<in> set xs \<and> P x"
  by (induction xs) (auto split: if_split_asm)

lemma draft_rows_nth:
  assumes "draft_rows ds b2s ids as = Some rows" "k < length as" "distinct (map d_id ds)"
  shows "\<exists>d \<in> set ds. d_id d = a_duty_id (as ! k)
    \<and> rows ! k = draft_row (ids k) (a_soldier_id (as ! k)) d (dict_get b2s (d_id d))"
proof -
  obtain bs where bs: "map (\<lambda>a. find (\<lambda>b. d_id b = a_duty_id a) (rev ds)) as = map Some bs"
    and rows: "rows = map (\<lambda>(k, a, b). draft_row (ids k) (a_soldier_id a) b (dict_get b2s (a_duty_id a)))
        (List.enumerate 0 (zip as bs))"
    using assms(1) by (auto simp: draft_rows_def those_eq)
  have len: "length bs = length as" using map_eq_imp_length_eq [OF bs] by simp
  have "find (\<lambda>b. d_id b = a_duty_id (as ! k)) (rev ds) = Some (bs ! k)"
    using arg_cong [OF bs, of "\<lambda>xs. xs ! k"] assms(2) len by simp
  then have "bs ! k \<in> set ds" "d_id (bs ! k) = a_duty_id (as ! k)" using found_in by fastforce+
  moreover have "rows ! k = draft_row (ids k) (a_soldier_id (as ! k)) (bs ! k) (dict_get b2s (a_duty_id (as ! k)))"
    using assms(2) len by (simp add: rows nth_enumerate_eq)
  ultimately show ?thesis by metis
qed

lemma draft_rows_length: "draft_rows ds b2s ids as = Some rows \<Longrightarrow> length rows = length as"
  by (auto simp: draft_rows_def those_eq dest: map_eq_imp_length_eq)

end
