(* ===== verification/PlanningReach.thy ===== *)
theory PlanningReach
  imports PlanningChecks
begin

text \<open>
  A planning job as a whole: every draft it writes passes the check that a single manual
  assignment has to pass, nobody is planned twice, and no shift gets more soldiers than it
  asks for.
\<close>

section \<open>What a finished job did\<close>

lemma audits:
  "\<exists>log. fold (\<lambda>a. audit_board actor act (da_id a)) rows s = s\<lparr>bd_audit := log\<rparr>"
proof (induction rows arbitrary: s)
  case Nil
  show ?case by (auto intro: exI [of _ "bd_audit s"])
next
  case (Cons a rows)
  obtain log where "fold (\<lambda>a. audit_board actor act (da_id a)) rows (audit_board actor act (da_id a) s)
      = (audit_board actor act (da_id a) s)\<lparr>bd_audit := log\<rparr>" using Cons by blast
  moreover have "(audit_board actor act (da_id a) s)\<lparr>bd_audit := log\<rparr> = s\<lparr>bd_audit := log\<rparr>"
    by (simp add: audit_board_def)
  ultimately show ?case by auto
qed

lemma persisted:
  assumes "persist_results db ds b2s sn hp row_ids link_ids actor as = Some db'"
  shows "\<exists>rows log. draft_rows ds b2s row_ids as = Some rows
    \<and> pd_board db' = (pd_board db)\<lparr>bd_assignments := bd_assignments (pd_board db) @ rows, bd_audit := log\<rparr>"
proof -
  obtain rows where rows: "draft_rows ds b2s row_ids as = Some rows"
    using assms by (auto simp: persist_results_def split: option.splits)
  let ?s = "(pd_board db)\<lparr>bd_assignments := bd_assignments (pd_board db) @ rows\<rparr>"
  have "pd_board db' = fold (\<lambda>a. audit_board actor ''algorithm.proposal.create'' (da_id a)) rows ?s"
    using assms rows by (auto simp: persist_results_def Let_def split: if_splits)
  then show ?thesis using rows audits [of actor "''algorithm.proposal.create''" rows ?s] by auto
qed

lemma job_done:
  assumes "run_algorithm_job env db today block_ids row_ids link_ids weapon shift_ids el st by_user late actor w
    = (Job_done, db')"
  shows "\<exists>ds b2s ss rd np r rows log.
    load_duty_blocks_from_shifts db block_ids today shift_ids
        (default (ss_standby_multiplier (sd_settings (pd_scores db))) (1 / 5)) = (ds, b2s)
    \<and> ds \<noteq> [] \<and> solver_soldiers db today weapon el st ds = Inr ss
    \<and> fst (solve env ss ds (load_existing_assignments (pd_board db) (Min (set (map d_start_date ds)))
          (Max (set (map d_end_date ds))) (Wr st)) st rd np w) = Some r
    \<and> draft_rows ds b2s row_ids (r_assignments r) = Some rows
    \<and> pd_board db' = (pd_board db)\<lparr>bd_assignments := bd_assignments (pd_board db) @ rows, bd_audit := log\<rparr>"
proof -
  obtain ds b2s where ds: "load_duty_blocks_from_shifts db block_ids today shift_ids
        (default (ss_standby_multiplier (sd_settings (pd_scores db))) (1 / 5)) = (ds, b2s)" by fastforce
  obtain hp ns sn nc where maps: "build_hierarchy_maps (sd_nodes (pd_scores db)) (bd_soldiers (pd_board db)) = (hp, ns, sn, nc)"
    by (metis prod_cases4)
  have ne: "ds \<noteq> []" using assms ds by (auto simp: run_algorithm_job_def)
  obtain ss where ss: "solver_soldiers db today weapon el st ds = Inr ss"
    using assms ds ne by (cases "solver_soldiers db today weapon el st ds") (auto simp: run_algorithm_job_def)
  have "ss \<noteq> []" using assms ds ne ss by (auto simp: run_algorithm_job_def)
  let ?ex = "load_existing_assignments (pd_board db) (Min (set (map d_start_date ds)))
      (Max (set (map d_end_date ds))) (Wr st)"
  let ?np = "if auto_relax_node_quotas st then Some (build_node_parents hp) else None"
  obtain rd where rd: "compute_reserve_dist ss ds b2s hp sn = Some rd"
    using assms ds ne ss \<open>ss \<noteq> []\<close> maps
    by (cases "compute_reserve_dist ss ds b2s hp sn") (auto simp: run_algorithm_job_def Let_def)
  note case_facts = assms [unfolded run_algorithm_job_def ds Let_def case_prod_conv if_not_P [OF ne] ss sum.case
      if_not_P [OF \<open>ss \<noteq> []\<close>] maps rd option.case]
  obtain o' w' where solved: "solve env ss ds ?ex st (Some rd) ?np w = (o', w')" by fastforce
  obtain r where r: "o' = Some r" using case_facts unfolding solved prod.case by (cases o') auto
  have "persist_results db ds b2s sn hp row_ids link_ids actor (r_assignments r) = Some db'"
    using case_facts unfolding solved r prod.case option.case by (auto split: if_splits option.splits)
  then obtain rows log where rows: "draft_rows ds b2s row_ids (r_assignments r) = Some rows"
    "pd_board db' = (pd_board db)\<lparr>bd_assignments := bd_assignments (pd_board db) @ rows, bd_audit := log\<rparr>"
    using persisted by blast
  have fst: "fst (solve env ss ds ?ex st (Some rd) ?np w) = Some r" unfolding solved r by simp
  show ?thesis by (intro exI conjI; fact ds ne ss fst rows)
qed

text \<open>
  A draft stands for a block of a shift and a soldier of the run, and keeps the solver's promises.
  The tables are in order: soldiers and shifts have distinct identifiers, shifts times of the
  clock, and neither a constraint nor an assignment runs backwards.
\<close>

definition planning_ok :: "planning_db \<Rightarrow> bool" where
  "planning_ok db \<longleftrightarrow> distinct (map so_id (bd_soldiers (pd_board db))) \<and> distinct (map sh_id (bd_shifts (pd_board db)))
     \<and> list_all (\<lambda>sh. valid_clock (sh_start_time sh) \<and> valid_clock (sh_end_time sh)) (bd_shifts (pd_board db))
     \<and> list_all (\<lambda>c. pc_start_date c \<le> pc_end_date c) (bd_constraints (pd_board db))
     \<and> list_all (\<lambda>a. da_start_date a < da_end_date a) (bd_assignments (pd_board db))"

definition fresh_ids :: "planning_db \<Rightarrow> (nat \<Rightarrow> uuid) \<Rightarrow> (nat \<Rightarrow> uuid) \<Rightarrow> bool" where
  "fresh_ids db block_ids row_ids \<longleftrightarrow> inj block_ids \<and> inj row_ids
     \<and> range row_ids \<inter> da_id ` set (bd_assignments (pd_board db)) = {}"

definition solver_ok :: "'w env \<Rightarrow> SolverSettings \<Rightarrow> bool" where
  "solver_ok env st \<longleftrightarrow> cp_sound env \<and> set_order_ok env \<and> 0 < Wt st \<and> 0 < Wr st \<and> interleaved_batch_size st \<noteq> 0"

lemma block_dates:
  assumes "planning_ok db" "(i, b) \<in> set (made_blocks db today shift_ids m)"
  shows "d_start_date b < d_end_date b \<and> valid_clock (d_start_time b) \<and> valid_clock (d_end_time b)"
  using assms made_block_shift [OF assms(2)] blocks_of_shift_facts
  unfolding planning_ok_def list_all_iff by meson

lemma block_days:
  assumes "load_duty_blocks_from_shifts db block_ids today shift_ids m = (ds, b2s)" "planning_ok db" "inj block_ids" "d \<in> set ds"
  shows "d_start_date d < d_end_date d"
  using loaded_blocks(2) [OF assms(1,3,4)] block_dates [OF assms(2)]
  by (metis DutyBlock.select_convs(4,5) DutyBlock.surjective DutyBlock.update_convs(1) nth_mem)

lemma job_schedule:
  assumes "run_algorithm_job env db today block_ids row_ids link_ids weapon shift_ids el st by_user late actor w
      = (Job_done, db')"
    and "solver_ok env st" "planning_ok db" "fresh_ids db block_ids row_ids"
  shows "\<exists>ds b2s ss as rows log.
    load_duty_blocks_from_shifts db block_ids today shift_ids
        (default (ss_standby_multiplier (sd_settings (pd_scores db))) (1 / 5)) = (ds, b2s)
    \<and> ds \<noteq> [] \<and> solver_soldiers db today weapon el st ds = Inr ss
    \<and> swap_spec (enforce_weapon_qualification st) ss ds (load_existing_assignments (pd_board db)
        (Min (set (map d_start_date ds))) (Max (set (map d_end_date ds))) (Wr st)) as
    \<and> draft_rows ds b2s row_ids as = Some rows
    \<and> pd_board db' = (pd_board db)\<lparr>bd_assignments := bd_assignments (pd_board db) @ rows, bd_audit := log\<rparr>"
proof -
  obtain ds b2s ss rd np r rows log where
    ds: "load_duty_blocks_from_shifts db block_ids today shift_ids
        (default (ss_standby_multiplier (sd_settings (pd_scores db))) (1 / 5)) = (ds, b2s)"
    and ne: "ds \<noteq> []" and ss: "solver_soldiers db today weapon el st ds = Inr ss"
    and solved: "fst (solve env ss ds (load_existing_assignments (pd_board db) (Min (set (map d_start_date ds)))
          (Max (set (map d_end_date ds))) (Wr st)) st rd np w) = Some r"
    and rows: "draft_rows ds b2s row_ids (r_assignments r) = Some rows"
      "pd_board db' = (pd_board db)\<lparr>bd_assignments := bd_assignments (pd_board db) @ rows, bd_audit := log\<rparr>"
    using job_done [OF assms(1)] by blast
  have inj: "inj block_ids" and keys: "distinct (map so_id (bd_soldiers (pd_board db)))"
    using assms(3,4) by (simp_all add: fresh_ids_def planning_ok_def)
  have "list_all (\<lambda>d. valid_clock (d_start_time d) \<and> valid_clock (d_end_time d)) ds"
    unfolding list_all_iff
  proof
    fix d assume "d \<in> set ds"
    then obtain k i b where "k < length (made_blocks db today shift_ids (default (ss_standby_multiplier (sd_settings (pd_scores db))) (1 / 5)))"
      "made_blocks db today shift_ids (default (ss_standby_multiplier (sd_settings (pd_scores db))) (1 / 5)) ! k = (i, b)"
      "d = b\<lparr>d_id := block_ids k\<rparr>" using loaded_blocks(2) [OF ds inj] by blast
    then show "valid_clock (d_start_time d) \<and> valid_clock (d_end_time d)"
      using block_dates [OF assms(3)] by (metis DutyBlock.select_convs DutyBlock.surjective DutyBlock.update_convs(1) nth_mem)
  qed
  then have "problem_ok st ss ds"
    using assms(2) solver_soldiers_run(1) [OF ss ne keys] loaded_blocks(1) [OF ds inj]
    by (simp add: problem_ok_def clocks_ok_def solver_ok_def)
  then have "swap_spec (enforce_weapon_qualification st) ss ds (load_existing_assignments (pd_board db)
        (Min (set (map d_start_date ds))) (Max (set (map d_end_date ds))) (Wr st)) (r_assignments r)"
    using ensuresD [OF solve_ok, of env st ss ds _ rd np w] assms(2) solved
    by (simp add: solver_ok_def solve_spec_final_def del: set_map) (metis option.case)
  then show ?thesis using ds ne ss rows by blast
qed

section \<open>Every draft\<close>

lemma draft_placed:
  assumes rows: "draft_rows ds b2s ids as = Some rows" and spec: "swap_spec w ss ds ex as"
    and ids: "distinct (map d_id ds)" and k: "k < length rows"
  shows "\<exists>d. rows ! k = draft_row (ids k) (a_soldier_id (as ! k)) d (dict_get b2s (d_id d))
    \<and> d_id d = a_duty_id (as ! k) \<and> d \<in> set ds \<and> (d, a_soldier_id (as ! k)) \<in> placed ds as
    \<and> (\<exists>s \<in> set ss. s_id s = a_soldier_id (as ! k) \<and> basic_ok w s d)"
proof -
  have len: "k < length as" using k draft_rows_length [OF rows] by simp
  obtain d where d: "d \<in> set ds" "d_id d = a_duty_id (as ! k)"
    "rows ! k = draft_row (ids k) (a_soldier_id (as ! k)) d (dict_get b2s (d_id d))"
    using draft_rows_nth [OF rows len ids] by blast
  have p: "(d, a_soldier_id (as ! k)) \<in> placed ds as"
    unfolding placed_def using d(1,2) nth_mem [OF len] by force
  then have "\<exists>s \<in> set ss. s_id s = a_soldier_id (as ! k) \<and> basic_ok w s d"
    using spec unfolding swap_spec_def basic_placed_def by fast
  then show ?thesis using d p by blast
qed

lemma draft_row_simps [simp]:
  "da_id (draft_row i x d sh) = i" "da_soldier_id (draft_row i x d sh) = x"
  "da_type_id (draft_row i x d sh) = d_duty_type_id d" "da_location_id (draft_row i x d sh) = d_duty_location_id d"
  "da_start_date (draft_row i x d sh) = d_start_date d" "da_end_date (draft_row i x d sh) = d_end_date d"
  "da_status (draft_row i x d sh) = Algorithm_draft" "da_shift_id (draft_row i x d sh) = sh"
  "da_is_reserve (draft_row i x d sh) = d_is_reserve d"
  by (simp_all add: draft_row_def)

lemma find_fresh:
  assumes "k < length rows" "inj ids" "\<And>j. j < length rows \<Longrightarrow> da_id (rows ! j) = ids j"
    and "range ids \<inter> da_id ` set old = {}"
  shows "find (\<lambda>a. da_id a = ids k) (old @ rows) = Some (rows ! k)"
proof -
  have "find (\<lambda>a. da_id a = ids k) old = None" using assms(4) by (auto simp: find_None_iff)
  moreover have "find (\<lambda>a. da_id a = ids k) rows = Some (rows ! k)"
    unfolding find_Some_iff using assms(1-3) by (intro exI [of _ k]) (auto dest: injD)
  ultimately show ?thesis by (simp add: find_append)
qed

text \<open>Existing bookings: no published duty of the soldier shares a day with the block.\<close>

lemma not_booked:
  assumes "(d, i) \<in> placed ds as" "swap_spec w ss ds (load_existing_assignments s (Min (set (map d_start_date ds)))
      (Max (set (map d_end_date ds))) W) as" "0 \<le> W" "d_start_date d < d_end_date d"
    and "b \<in> set (bd_assignments s)" "da_soldier_id b = i" "da_status b = Published" "da_start_date b < da_end_date b"
  shows "\<not> in_range b (d_start_date d) (d_end_date d)"
proof
  assume r: "in_range b (d_start_date d) (d_end_date d)"
  let ?lo = "Min (set (map d_start_date ds))" and ?hi = "Max (set (map d_end_date ds))"
  have d: "d \<in> set ds" using assms(1) by (auto simp: placed_def)
  then have "?lo \<le> d_start_date d" "d_end_date d \<le> ?hi" by simp_all
  then have "b \<in> set (filter (\<lambda>a. da_status a = Published \<and> da_start_date a \<le> ?hi + W \<and> da_end_date a \<ge> ?lo - W)
      (bd_assignments s))" using r assms(3,5,7) by (auto simp: in_range_def)
  then have "\<exists>e \<in> set (load_existing_assignments s ?lo ?hi W). e_soldier_id e = i \<and> e_start_date e = da_start_date b
      \<and> e_end_date e = da_end_date b"
    unfolding load_existing_assignments_def Let_def using assms(6) by force
  moreover obtain t where "t \<in> duty_days d" "da_start_date b \<le> t" "t < da_end_date b"
    using r assms(4,8) by (intro that [of "max (d_start_date d) (da_start_date b)"]) (auto simp: in_range_def mem_duty_days)
  ultimately have "t \<in> duty_days d \<inter> booked (load_existing_assignments s ?lo ?hi W) i" by (auto simp: mem_booked)
  moreover have "duty_days d \<inter> booked (load_existing_assignments s ?lo ?hi W) i = {}"
    using assms(1,2) unfolding swap_spec_def clash_free_def by fast
  ultimately show False by blast
qed

section \<open>Drafts pass the check of a manual assignment\<close>

lemma board_keeps:
  "requirements_fail (s\<lparr>bd_assignments := xs, bd_audit := trail\<rparr>) = requirements_fail s"
  "first_block (s\<lparr>bd_assignments := xs, bd_audit := trail\<rparr>) = first_block s"
  "approved_constraint (s\<lparr>bd_assignments := xs, bd_audit := trail\<rparr>) = approved_constraint s"
  "soldier_of (s\<lparr>bd_assignments := xs, bd_audit := trail\<rparr>) = soldier_of s"
  "rank_agrees (s\<lparr>bd_assignments := xs, bd_audit := trail\<rparr>) = rank_agrees s"
proof -
  have e: "exemption_blocks (s\<lparr>bd_assignments := xs, bd_audit := trail\<rparr>) = exemption_blocks s"
    by (simp add: fun_eq_iff exemption_blocks_def)
  show "first_block (s\<lparr>bd_assignments := xs, bd_audit := trail\<rparr>) = first_block s"
    by (intro ext) (simp add: first_block_def e)
qed (simp_all add: fun_eq_iff requirements_fail_def duty_type_of_def approved_constraint_def soldier_of_def
    rank_agrees_def projected_on_def cong: option.case_cong requirements.case_cong)

definition check_of_draft :: "board \<Rightarrow> DutyAssignment \<Rightarrow> check_reason + PersonalConstraint option" where
  "check_of_draft s a = (if covers_by_override s (da_soldier_id a) (da_start_date a) (da_end_date a) (Some (da_id a))
     then Inl Already_assigned else Inr None)"

lemma draft_checked:
  assumes a: "assignment_of s' (da_id a) = Some a" and s': "s' = s\<lparr>bd_assignments := bd_assignments s @ rows, bd_audit := trail\<rparr>"
    and x: "soldier_of s (da_soldier_id a) = Some x" "so_id x = da_soldier_id a"
    and fit: "\<not> j_departed (project_soldier_state (bd_plus_months s) (bd_intervals s) None x (da_start_date a))"
      "first_block s a (da_soldier_id a) = None"
      "approved_constraint s (da_soldier_id a) (da_start_date a) (da_end_date a) = None"
    and free: "\<And>b. b \<in> set (bd_assignments s) \<Longrightarrow> da_soldier_id b = da_soldier_id a \<Longrightarrow> da_status b = Published
      \<Longrightarrow> \<not> in_range b (da_start_date a) (da_end_date a)"
    and drafts: "\<And>b. b \<in> set rows \<Longrightarrow> da_status b = Algorithm_draft"
  shows "check_soldier_for_assignment s' (da_soldier_id a) (da_id a) None False
    = (if requirements_fail s x a then Inl Unfit else check_of_draft s' a)"
proof -
  have "\<not> list_ex (\<lambda>b. da_soldier_id b = da_soldier_id a \<and> da_status b = Published
      \<and> in_range b (da_start_date a) (da_end_date a) \<and> None \<noteq> Some (da_id b)) (bd_assignments s')"
    using free drafts by (fastforce simp: s' list_ex_iff)
  then have c: "scheduling_conflict s' a (da_soldier_id a) None
      = covers_by_override s' (da_soldier_id a) (da_start_date a) (da_end_date a) (Some (da_id a))"
    unfolding scheduling_conflict_def by blast
  have b: "bd_plus_months s' = bd_plus_months s" "bd_intervals s' = bd_intervals s" by (simp_all add: s')
  have k: "requirements_fail s' = requirements_fail s" "first_block s' = first_block s"
    "approved_constraint s' = approved_constraint s" "soldier_of s' = soldier_of s" by (simp_all only: s' board_keeps)
  show ?thesis unfolding check_soldier_for_assignment_def a k x(1) b option.case fit(2) Let_def fit(3) c check_of_draft_def
    using fit(1) by simp
qed

lemma job_checked:
  assumes "run_algorithm_job env db today block_ids row_ids link_ids weapon shift_ids el st by_user late actor w
      = (Job_done, db')"
    and "solver_ok env st" and ok: "planning_ok db" and fresh: "fresh_ids db block_ids row_ids"
    and a: "a \<in> set (drop (length (bd_assignments (pd_board db))) (bd_assignments (pd_board db')))"
  shows "check_soldier_for_assignment (pd_board db') (da_soldier_id a) (da_id a) None False
      = (if rank_agrees (pd_board db') a then check_of_draft (pd_board db') a
         else check_soldier_for_assignment (pd_board db') (da_soldier_id a) (da_id a) None False)
    \<and> check_soldier_for_assignment (pd_board db') (da_soldier_id a) (da_id a) None False
        \<in> {check_of_draft (pd_board db') a, Inl Unfit}"
proof -
  let ?s = "pd_board db" and ?m = "default (ss_standby_multiplier (sd_settings (pd_scores db))) (1 / 5)"
  obtain ds b2s ss as rows log where
    ds: "load_duty_blocks_from_shifts db block_ids today shift_ids ?m = (ds, b2s)"
    and ne: "ds \<noteq> []" and ss: "solver_soldiers db today weapon el st ds = Inr ss"
    and spec: "swap_spec (enforce_weapon_qualification st) ss ds (load_existing_assignments ?s
        (Min (set (map d_start_date ds))) (Max (set (map d_end_date ds))) (Wr st)) as"
    and rows: "draft_rows ds b2s row_ids as = Some rows"
    and s': "pd_board db' = ?s\<lparr>bd_assignments := bd_assignments ?s @ rows, bd_audit := log\<rparr>"
    using job_schedule [OF assms(1-4)] by blast
  have inj: "inj block_ids" "inj row_ids" and keys: "distinct (map so_id (bd_soldiers ?s))"
    using ok fresh by (simp_all add: fresh_ids_def planning_ok_def)
  note ids = loaded_blocks(1) [OF ds inj(1)]
  note placed = draft_placed [OF rows spec ids]
  obtain k where k: "k < length rows" "a = rows ! k" using a by (auto simp: s' in_set_conv_nth)
  obtain d where d: "a = draft_row (row_ids k) (a_soldier_id (as ! k)) d (dict_get b2s (d_id d))" "d \<in> set ds"
    "(d, a_soldier_id (as ! k)) \<in> placed ds as" "\<exists>s \<in> set ss. s_id s = a_soldier_id (as ! k) \<and> basic_ok (enforce_weapon_qualification st) s d"
    using placed [OF k(1)] k(2) by blast
  obtain y where y: "y \<in> set ss" "s_id y = a_soldier_id (as ! k)" "basic_ok (enforce_weapon_qualification st) y d" using d(4) by blast
  obtain x where x: "x \<in> set (bd_soldiers ?s)" "run_soldier db ds y x"
    using solver_soldiers_run(2) [OF ss ne keys y(1)] by blast
  have i: "so_id x = da_soldier_id a" using x(2) y(2) d(1) by (simp add: run_soldier_def)
  note dates = block_days [OF ds ok inj(1) d(2)]
  have "d_id d \<notin> s_future_ineligible_duty_block_ids y" using y(3) by (simp add: basic_ok_def)
  then have fit: "\<not> unfit_block ?s x d"
    "\<not> list_ex (\<lambda>e. ex_soldier_id e = so_id x \<and> exempt_block ?s d e) (bd_exemptions ?s)"
    using x(2) d(2) unfolding run_soldier_def by blast+
  have drafts: "da_status b = Algorithm_draft" if b: "b \<in> set rows" for b
  proof -
    obtain j where "j < length rows" "b = rows ! j" using b by (auto simp: in_set_conv_nth)
    then show ?thesis using placed [of j] by auto
  qed
  have found: "assignment_of (pd_board db') (da_id a) = Some a"
  proof -
    have "da_id (rows ! j) = row_ids j" if "j < length rows" for j using placed [OF that] by auto
    from find_fresh [OF k(1) inj(2) this] fresh
    have "find (\<lambda>b. da_id b = row_ids k) (bd_assignments ?s @ rows) = Some (rows ! k)" by (simp add: fresh_ids_def)
    then show ?thesis unfolding assignment_of_def s' using d(1) k(2) by simp
  qed
  have soldier: "soldier_of ?s (da_soldier_id a) = Some x"
    using x(1) keys unfolding i [symmetric] soldier_of_def by (simp add: find_distinct)
  have w: "0 \<le> Wr st" using assms(2) by (simp add: solver_ok_def)
  have "check_soldier_for_assignment (pd_board db') (da_soldier_id a) (da_id a) None False
    = (if requirements_fail ?s x a then Inl Unfit else check_of_draft (pd_board db') a)"
  proof (rule draft_checked [OF found s' soldier i])
    show "\<not> j_departed (project_soldier_state (bd_plus_months ?s) (bd_intervals ?s) None x (da_start_date a))"
      using fit_block_fits(1) [OF fit(1) dates, of a] d(1) by simp
    show "first_block ?s a (da_soldier_id a) = None"
      using no_exemption_blocks [OF fit(2), of a] d(1) i by simp
    have "approved_constraint ?s (so_id x) (d_start_date d) (d_end_date d) = None"
      by (rule no_constraint_blocks [of _ y, OF _ _ dates])
        (use y(3) x(2) ok in \<open>simp_all add: basic_ok_def run_soldier_def planning_ok_def\<close>)
    then show "approved_constraint ?s (da_soldier_id a) (da_start_date a) (da_end_date a) = None"
      using d(1) i by simp
    show "\<not> in_range b (da_start_date a) (da_end_date a)"
      if "b \<in> set (bd_assignments ?s)" "da_soldier_id b = da_soldier_id a" "da_status b = Published" for b
      using not_booked [OF d(3) spec w dates that(1) _ that(3)] that ok d(1) by (simp add: planning_ok_def list_all_iff)
  qed (rule drafts)
  moreover have "\<not> requirements_fail ?s x a" if "rank_agrees (pd_board db') a"
    using fit_block_fits(2) [OF fit(1) dates, of a] that soldier d(1) unfolding s' board_keeps by simp
  ultimately show ?thesis by auto
qed

section \<open>Nobody is planned twice\<close>

text \<open>Two assignments of one soldier that share a day.\<close>

definition double_booked :: "DutyAssignment \<Rightarrow> DutyAssignment \<Rightarrow> bool" where
  "double_booked a b \<longleftrightarrow> da_soldier_id a = da_soldier_id b \<and> in_range b (da_start_date a) (da_end_date a)"

definition new_drafts :: "planning_db \<Rightarrow> planning_db \<Rightarrow> DutyAssignment list" where
  "new_drafts db db' = drop (length (bd_assignments (pd_board db))) (bd_assignments (pd_board db'))"

definition published :: "planning_db \<Rightarrow> DutyAssignment list" where
  "published db = filter (\<lambda>a. da_status a = Published) (bd_assignments (pd_board db))"

lemma placed_apart:
  assumes spec: "swap_spec w ss ds ex as" and rows: "draft_rows ds b2s ids as = Some rows"
    and keys: "distinct (map d_id ds)" and dates: "\<And>d. d \<in> set ds \<Longrightarrow> d_start_date d < d_end_date d"
    and k: "k < length rows" "j < length rows" "k \<noteq> j"
  shows "\<not> double_booked (rows ! k) (rows ! j)"
proof
  note placed = draft_placed [OF rows spec keys]
  obtain d where d: "rows ! k = draft_row (ids k) (a_soldier_id (as ! k)) d (dict_get b2s (d_id d))"
    "d_id d = a_duty_id (as ! k)" "d \<in> set ds" "(d, a_soldier_id (as ! k)) \<in> placed ds as" using placed [OF k(1)] by blast
  obtain e where e: "rows ! j = draft_row (ids j) (a_soldier_id (as ! j)) e (dict_get b2s (d_id e))"
    "d_id e = a_duty_id (as ! j)" "e \<in> set ds" "(e, a_soldier_id (as ! j)) \<in> placed ds as" using placed [OF k(2)] by blast
  assume "double_booked (rows ! k) (rows ! j)"
  then have b: "a_soldier_id (as ! k) = a_soldier_id (as ! j)" "d_start_date e < d_end_date d" "d_start_date d < d_end_date e"
    by (simp_all add: double_booked_def d(1) e(1) in_range_def)
  have "distinct (map a_duty_id as)" using spec by (simp add: swap_spec_def names_ok_def)
  then have "e \<noteq> d"
    using k d(2) e(2) draft_rows_length [OF rows] by (metis length_map nth_eq_iff_index_eq nth_map)
  then have "duty_days d \<inter> duty_days e = {}"
    using spec d(4) e(4) b(1) unfolding swap_spec_def clash_free_def by fastforce
  moreover have "max (d_start_date d) (d_start_date e) \<in> duty_days d \<inter> duty_days e"
    using b dates [OF d(3)] dates [OF e(3)] by (simp add: mem_duty_days)
  ultimately show False by blast
qed

lemma job_single:
  assumes "run_algorithm_job env db today block_ids row_ids link_ids weapon shift_ids el st by_user late actor w
      = (Job_done, db')"
    and "solver_ok env st" and ok: "planning_ok db" and fresh: "fresh_ids db block_ids row_ids"
  shows "sorted_wrt (\<lambda>a b. \<not> double_booked a b) (new_drafts db db')
    \<and> list_all (\<lambda>b. list_all (\<lambda>a. \<not> double_booked b a) (new_drafts db db')) (published db)"
proof -
  let ?s = "pd_board db" and ?m = "default (ss_standby_multiplier (sd_settings (pd_scores db))) (1 / 5)"
  obtain ds b2s ss as rows log where
    ds: "load_duty_blocks_from_shifts db block_ids today shift_ids ?m = (ds, b2s)"
    and ne: "ds \<noteq> []" and ss: "solver_soldiers db today weapon el st ds = Inr ss"
    and spec: "swap_spec (enforce_weapon_qualification st) ss ds (load_existing_assignments ?s
        (Min (set (map d_start_date ds))) (Max (set (map d_end_date ds))) (Wr st)) as"
    and rows: "draft_rows ds b2s row_ids as = Some rows"
    and s': "pd_board db' = ?s\<lparr>bd_assignments := bd_assignments ?s @ rows, bd_audit := log\<rparr>"
    using job_schedule [OF assms(1-4)] by blast
  have inj: "inj block_ids" using fresh by (simp add: fresh_ids_def)
  note ids = loaded_blocks(1) [OF ds inj] and days = block_days [OF ds ok inj]
  have "sorted_wrt (\<lambda>a b. \<not> double_booked a b) rows"
    unfolding sorted_wrt_iff_nth_less using placed_apart [OF spec rows ids days] by simp
  moreover have "\<not> double_booked b a" if "b \<in> set (bd_assignments ?s)" "da_status b = Published" "a \<in> set rows" for a b
  proof
    assume c: "double_booked b a"
    obtain k where "k < length rows" "a = rows ! k" using \<open>a \<in> set rows\<close> by (metis in_set_conv_nth)
    then obtain d where d: "a = draft_row (row_ids k) (a_soldier_id (as ! k)) d (dict_get b2s (d_id d))" "d \<in> set ds"
      "(d, a_soldier_id (as ! k)) \<in> placed ds as" using draft_placed [OF rows spec ids] by blast
    have "\<not> in_range b (d_start_date d) (d_end_date d)"
      using not_booked [OF d(3) spec _ days [OF d(2)] that(1) _ that(2)] c d(1) assms(2) ok that(1)
      by (simp add: double_booked_def solver_ok_def planning_ok_def list_all_iff)
    then show False using c d(1) by (simp add: double_booked_def in_range_def)
  qed
  ultimately show ?thesis by (auto simp: s' new_drafts_def published_def list_all_iff)
qed

section \<open>No shift is overfilled\<close>

definition places :: "planning_db \<Rightarrow> DutyShift \<Rightarrow> bool \<Rightarrow> int" where
  "places db sh is_reserve = (if is_reserve then reserve_count_for_shift db sh else sh_required_count sh)"

lemma group_length:
  "length (filter P (map snd (filter (\<lambda>(i, _). i = k) xs))) = length (filter (\<lambda>x. fst x = k \<and> P (snd x)) xs)"
  by (induction xs) auto

lemma new_rows_fit:
  assumes ds: "load_duty_blocks_from_shifts db block_ids today shift_ids m = (ds, b2s)" and inj: "inj block_ids"
    and ok: "planning_ok db" and spec: "swap_spec w ss ds ex as" and rows: "draft_rows ds b2s row_ids as = Some rows"
    and sh: "sh \<in> set (bd_shifts (pd_board db))"
  shows "int (length (filter (\<lambda>a. da_shift_id a = Some (sh_id sh) \<and> da_is_reserve a = res) rows)) \<le> free_slots db sh res"
proof -
  note ids = loaded_blocks(1) [OF ds inj] and placed = draft_placed [OF rows spec loaded_blocks(1) [OF ds inj]]
  let ?made = "made_blocks db today shift_ids m"
  let ?P = "\<lambda>a. da_shift_id a = Some (sh_id sh) \<and> da_is_reserve a = res"
  let ?K = "{k. k < length rows \<and> ?P (rows ! k)}" and ?I = "{i. i < length ?made \<and> fst (?made ! i) = sh_id sh \<and> d_is_reserve (snd (?made ! i)) = res}"
  define f where "f = (\<lambda>i. block_ids i)"
  have len: "length as = length rows" using draft_rows_length [OF rows] by simp
  have dist: "distinct (map a_duty_id as)" using spec by (simp add: swap_spec_def names_ok_def)
  have "\<exists>i \<in> ?I. f i = a_duty_id (as ! k)" if k: "k \<in> ?K" for k
  proof -
    obtain d where d: "rows ! k = draft_row (row_ids k) (a_soldier_id (as ! k)) d (dict_get b2s (d_id d))"
      "d_id d = a_duty_id (as ! k)" "d \<in> set ds" using placed k by blast
    obtain i j b where i: "i < length ?made" "?made ! i = (j, b)" "d = b\<lparr>d_id := block_ids i\<rparr>" "dict_get b2s (d_id d) = Some j"
      using loaded_blocks(2) [OF ds inj d(3)] by blast
    have "j = sh_id sh" "d_is_reserve b = res" using k d(1) i(3,4) by simp_all
    then have "i \<in> ?I" "f i = a_duty_id (as ! k)" using i d(2) by (simp_all add: f_def)
    then show ?thesis by blast
  qed
  then have "(\<lambda>k. a_duty_id (as ! k)) ` ?K \<subseteq> f ` ?I" by (metis (no_types, lifting) image_eqI image_subsetI)
  then have "card ((\<lambda>k. a_duty_id (as ! k)) ` ?K) \<le> card (f ` ?I)" by (intro card_mono) simp_all
  moreover have "inj_on (\<lambda>k. a_duty_id (as ! k)) ?K"
    using nth_eq_iff_index_eq [OF dist] len by (intro inj_onI) simp
  moreover have "card (f ` ?I) \<le> card ?I" by (rule card_image_le) simp
  ultimately have "card ?K \<le> card ?I" by (simp add: card_image)
  also have "card ?I = length (filter (\<lambda>x. fst x = sh_id sh \<and> d_is_reserve (snd x) = res) ?made)"
    by (simp add: length_filter_conv_card)
  also have "\<dots> = length (filter (\<lambda>b. d_is_reserve b = res) (map snd (filter (\<lambda>(i, _). i = sh_id sh) ?made)))"
    by (simp only: group_length)
  also have "int \<dots> \<le> free_slots db sh res"
    using made_blocks_of [OF _ sh, of today shift_ids m] ok blocks_of_shift_count [of res db today m sh]
    unfolding planning_ok_def by (cases res) (simp_all add: free_slots_def)
  finally show ?thesis by (simp add: length_filter_conv_card)
qed

lemma job_fills:
  assumes "run_algorithm_job env db today block_ids row_ids link_ids weapon shift_ids el st by_user late actor w
      = (Job_done, db')"
    and "solver_ok env st" and ok: "planning_ok db" and fresh: "fresh_ids db block_ids row_ids"
    and sh: "sh \<in> set (bd_shifts (pd_board db))"
  shows "filled (pd_board db') (sh_id sh) res \<le> max (filled (pd_board db) (sh_id sh) res) (places db sh res)"
proof -
  let ?s = "pd_board db" and ?m = "default (ss_standby_multiplier (sd_settings (pd_scores db))) (1 / 5)"
  obtain ds b2s ss as rows log where
    ds: "load_duty_blocks_from_shifts db block_ids today shift_ids ?m = (ds, b2s)"
    and spec: "swap_spec (enforce_weapon_qualification st) ss ds (load_existing_assignments ?s
        (Min (set (map d_start_date ds))) (Max (set (map d_end_date ds))) (Wr st)) as"
    and rows: "draft_rows ds b2s row_ids as = Some rows"
    and s': "pd_board db' = ?s\<lparr>bd_assignments := bd_assignments ?s @ rows, bd_audit := log\<rparr>"
    using job_schedule [OF assms(1-4)] by blast
  have inj: "inj block_ids" using fresh by (simp add: fresh_ids_def)
  have "length (filter (\<lambda>a. da_shift_id a = Some (sh_id sh) \<and> da_status a \<in> {Published, Algorithm_draft} \<and> da_is_reserve a = res) rows)
      \<le> length (filter (\<lambda>a. da_shift_id a = Some (sh_id sh) \<and> da_is_reserve a = res) rows)"
    by (induction rows) auto
  then have "filled (pd_board db') (sh_id sh) res \<le> filled ?s (sh_id sh) res
      + int (length (filter (\<lambda>a. da_shift_id a = Some (sh_id sh) \<and> da_is_reserve a = res) rows))"
    unfolding filled_def s' by simp
  also have "\<dots> \<le> filled ?s (sh_id sh) res + free_slots db sh res" using new_rows_fit [OF ds inj ok spec rows sh, of res] by simp
  finally show ?thesis by (simp add: free_slots_def places_def split: if_splits)
qed

section \<open>The job as a whole\<close>

lemma job_else:
  assumes "run_algorithm_job env db today block_ids row_ids link_ids weapon shift_ids el st by_user late actor w
      = (outcome, db')"
  shows "outcome = Job_done \<or> db' = db"
  using assms unfolding run_algorithm_job_def Let_def
  by (simp only: split: prod.splits if_splits option.splits sum.splits) (simp_all only: prod.inject, blast+)

definition job_db :: planning_db where
  "job_db = \<lparr>pd_scores = \<lparr>sd_board = sample_board\<lparr>bd_assignments := [sample_duty_row],
       bd_intervals := sample_intervals, bd_shifts := [\<lparr>sh_id = 50, sh_type_id = 31, sh_location_id = 32, sh_start_date = 700010,
         sh_end_date = 700012, sh_start_time = (0, 0), sh_end_time = (23, 59), sh_required_count = 1, sh_active = True,
         sh_reserve_override = None, sh_eligible_node_ids = None, sh_template_id = None\<rparr>]\<rparr>, sd_nodes = [], sd_adjustments = [],
       sd_settings = \<lparr>ss_standby_multiplier = None, ss_called_up_multiplier = None, ss_dismissed_multiplier = None,
         ss_reset_date = Some 700000, ss_reset_overrides = []\<rparr>\<rparr>,
     pd_links = [], pd_quotas = [], pd_raw = (\<lambda>_. [])\<rparr>"

abbreviation job_run :: "job_result \<times> planning_db" where
  "job_run \<equiv> run_algorithm_job (probe_env (\<lambda>_. 0)) job_db 700000 (\<lambda>k. 100 + k) (\<lambda>k. 200 + k) (\<lambda>k. 300 + k)
     (\<lambda>_ _. []) [50] None default_settings False False None ()"

lemma sample_solver_ok: "solver_ok (probe_env v) default_settings"
  by (simp add: solver_ok_def probe_env_sound set_order_ok_def default_settings_def) (simp add: probe_env_def)

lemma job_db_ok: "planning_ok job_db"
  by (simp add: planning_ok_def job_db_def sample_board_def valid_clock_def sample_duty_row_def)

lemma job_ids_fresh: "fresh_ids job_db (\<lambda>k. 100 + k) (\<lambda>k. 200 + k)"
  by (auto simp: fresh_ids_def job_db_def sample_duty_row_def inj_on_def)

text \<open>
  C3. Planning agrees with the manual check.  Whatever a sound solver answers, on tables in order
  (\<open>planning_ok\<close>) and with fresh identifiers, every draft that a planning job writes either passes
  \<open>check_soldier_for_assignment\<close> on the board after the run or is refused as unfit: the soldier
  has not left, no exemption and no approved constraint blocks him and he has no published duty
  on those days.  It is not refused as unfit either when the bulk path and the single path
  project the same rank for the soldier at the start of the duty, which is so whenever every
  rank has its interval row (lemma \<open>known_ranks_agree\<close>); without the rows the two can differ.  A
  draft that is not refused as unfit is refused only for a cover of another duty (a day override),
  which the job does not look at.
\<close>

theorem job_drafts_pass_check:
  assumes "run_algorithm_job env db today block_ids row_ids link_ids weapon shift_ids el st by_user late actor w
      = (outcome, db')"
    and "solver_ok env st" "planning_ok db" "fresh_ids db block_ids row_ids"
  shows "list_all (\<lambda>a. check_soldier_for_assignment (pd_board db') (da_soldier_id a) (da_id a) None False
      = check_of_draft (pd_board db') a) (filter (rank_agrees (pd_board db')) (new_drafts db db'))
    \<and> list_all (\<lambda>a. check_soldier_for_assignment (pd_board db') (da_soldier_id a) (da_id a) None False
      \<in> {check_of_draft (pd_board db') a, Inl Unfit}) (new_drafts db db')"
proof (cases "outcome = Job_done")
  case True
  then show ?thesis unfolding list_all_iff new_drafts_def set_filter
    using job_checked [OF _ assms(2-4)] assms(1) by (metis (no_types, lifting) mem_Collect_eq)
qed (use job_else [OF assms(1)] in \<open>simp add: new_drafts_def\<close>)

lemma job_drafts_pass_check_witness:
  "list_all (\<lambda>a. check_soldier_for_assignment (pd_board (snd job_run)) (da_soldier_id a) (da_id a) None False
      = check_of_draft (pd_board (snd job_run)) a)
      (filter (rank_agrees (pd_board (snd job_run))) (new_drafts job_db (snd job_run)))
    \<and> list_all (\<lambda>a. check_soldier_for_assignment (pd_board (snd job_run)) (da_soldier_id a) (da_id a) None False
      \<in> {check_of_draft (pd_board (snd job_run)) a, Inl Unfit}) (new_drafts job_db (snd job_run))"
  by (rule job_drafts_pass_check [OF surjective_pairing sample_solver_ok job_db_ok job_ids_fresh])

text \<open>
  C4. A planning job books nobody twice.  Whatever a sound solver answers, on tables in order and
  with fresh identifiers, no two of the drafts it writes are of one soldier and share a day, and
  none shares a day with a published assignment of its soldier, whatever clashes the published
  assignments already have among themselves.
\<close>

theorem job_books_once:
  assumes "run_algorithm_job env db today block_ids row_ids link_ids weapon shift_ids el st by_user late actor w
      = (outcome, db')"
    and "solver_ok env st" "planning_ok db" "fresh_ids db block_ids row_ids"
  shows "sorted_wrt (\<lambda>a b. \<not> double_booked a b) (new_drafts db db')
    \<and> list_all (\<lambda>b. list_all (\<lambda>a. \<not> double_booked b a) (new_drafts db db')) (published db)"
proof (cases "outcome = Job_done")
  case True
  then show ?thesis using job_single [OF _ assms(2-4)] assms(1) by blast
qed (use job_else [OF assms(1)] in \<open>simp add: new_drafts_def list_all_iff\<close>)

lemma job_books_once_witness:
  "sorted_wrt (\<lambda>a b. \<not> double_booked a b) (new_drafts job_db (snd job_run))
    \<and> list_all (\<lambda>b. list_all (\<lambda>a. \<not> double_booked b a) (new_drafts job_db (snd job_run))) (published job_db)"
  by (rule job_books_once [OF surjective_pairing sample_solver_ok job_db_ok job_ids_fresh])

text \<open>
  C5. A planning job never overfills a shift: afterwards the published and draft places of each
  shift, primary and reserve, are at most what the shift asks for, or what it had before.
\<close>

theorem job_never_overfills:
  assumes "run_algorithm_job env db today block_ids row_ids link_ids weapon shift_ids el st by_user late actor w
      = (outcome, db')"
    and "solver_ok env st" "planning_ok db" "fresh_ids db block_ids row_ids"
  shows "list_all (\<lambda>sh. list_all (\<lambda>res. filled (pd_board db') (sh_id sh) res
    \<le> max (filled (pd_board db) (sh_id sh) res) (places db sh res)) [False, True]) (bd_shifts (pd_board db))"
proof (cases "outcome = Job_done")
  case True
  then show ?thesis unfolding list_all_iff using job_fills [OF _ assms(2-4)] assms(1) by blast
qed (use job_else [OF assms(1)] in \<open>simp add: list_all_iff\<close>)

lemma job_never_overfills_witness:
  "list_all (\<lambda>sh. list_all (\<lambda>res. filled (pd_board (snd job_run)) (sh_id sh) res
    \<le> max (filled (pd_board job_db) (sh_id sh) res) (places job_db sh res)) [False, True]) (bd_shifts (pd_board job_db))"
  by (rule job_never_overfills [OF surjective_pairing sample_solver_ok job_db_ok job_ids_fresh])

end
