(* ===== verification/Shifts.thy ===== *)
theory Shifts
  imports Bridge "HOL-Library.Char_ord"
begin

text \<open>
  Shifts, the templates they are generated from and the quotas of nodes: \<open>services/shifts.py\<close>,
  \<open>services/shift_templates.py\<close> and \<open>services/shift_quotas.py\<close>.  Times that a caller gives are
  texts; a stored time of a shift is the pair its text reads as.  Digits are the ASCII ones.
  Notes and names are left out; \<open>session.delete\<close> follows the foreign keys of the tables.
\<close>

section \<open>State\<close>

record ShiftTemplate =
  tp_id :: uuid
  tp_type_id :: uuid
  tp_location_id :: uuid
  tp_weekdays :: "int list"
  tp_start_time :: string
  tp_end_time :: string
  tp_required_count :: int
  tp_active :: bool
  tp_auto_roll :: bool
  tp_auto_roll_until :: "date option"
  tp_recurrence_type :: string
  tp_duration_days :: int
  tp_eligible_node_ids :: "uuid list option"

record shift_db =
  sf_planning :: planning_db
  sf_templates :: "ShiftTemplate list"

abbreviation sf_board :: "shift_db \<Rightarrow> board" where
  "sf_board d \<equiv> pd_board (sf_planning d)"

definition set_board :: "board \<Rightarrow> shift_db \<Rightarrow> shift_db" where
  "set_board s d = d\<lparr>sf_planning := (sf_planning d)\<lparr>pd_scores := (pd_scores (sf_planning d))\<lparr>sd_board := s\<rparr>\<rparr>\<rparr>"

definition audit_shift :: "uuid option \<Rightarrow> string \<Rightarrow> uuid \<Rightarrow> shift_db \<Rightarrow> shift_db" where
  "audit_shift actor_id action i d = set_board (audit_board actor_id action i (sf_board d)) d"

definition shift_of :: "shift_db \<Rightarrow> uuid \<Rightarrow> DutyShift option" where
  "shift_of d i = find (\<lambda>sh. sh_id sh = i) (bd_shifts (sf_board d))"

definition template_of :: "shift_db \<Rightarrow> uuid \<Rightarrow> ShiftTemplate option" where
  "template_of d i = find (\<lambda>t. tp_id t = i) (sf_templates d)"

datatype shift_error = End_before_start | Invalid_required_count | Shift_type_not_found | Invalid_time
  | Has_assignments | Shift_foreign_key

section \<open>Times as texts\<close>

definition digit :: "char \<Rightarrow> bool" where
  "digit c \<longleftrightarrow> c \<in> set ''0123456789''"

fun split_colon :: "string \<Rightarrow> string list" where
  "split_colon [] = [[]]"
| "split_colon (c # cs) = (if c = CHR '':'' then [] # split_colon cs
     else (case split_colon cs of [] \<Rightarrow> [[c]] | p # ps \<Rightarrow> (c # p) # ps))"

definition is_digits :: "string \<Rightarrow> bool" where
  "is_digits t \<longleftrightarrow> t \<noteq> [] \<and> list_all digit t"

definition int_of_digits :: "string \<Rightarrow> int" where
  "int_of_digits t = fold (\<lambda>c n. n * 10 + (of_char c - 48)) t 0"

definition clock_of :: "string \<Rightarrow> clock" where
  "clock_of t = (case split_colon t of [h, m] \<Rightarrow> (int_of_digits h, int_of_digits m) | _ \<Rightarrow> (0, 0))"

definition two_digits :: "int \<Rightarrow> string" where
  "two_digits n = [char_of (48 + nat (n div 10)), char_of (48 + nat (n mod 10))]"

definition text_of :: "clock \<Rightarrow> string" where
  "text_of c = two_digits (fst c) @ '':'' @ two_digits (snd c)"

definition text_le :: "string \<Rightarrow> string \<Rightarrow> bool" where
  "text_le a b = ord_class.lexordp_eq a b"

section \<open>Shifts\<close>

text \<open>The hours of a new shift: those given, else those of the duty type, else the whole day.\<close>

definition hours_or :: "string option \<Rightarrow> clock option \<Rightarrow> string \<Rightarrow> string" where
  "hours_or asked own whole = (case asked of Some t \<Rightarrow> t
     | None \<Rightarrow> (case own of Some c \<Rightarrow> text_of c | None \<Rightarrow> whole))"

definition strict_time :: "string \<Rightarrow> bool" where
  "strict_time t = (case split_colon t of
     [h, m] \<Rightarrow> length h = 2 \<and> length m = 2 \<and> is_digits h \<and> is_digits m | _ \<Rightarrow> False)"

definition create_shift :: "shift_db \<Rightarrow> uuid \<Rightarrow> uuid \<Rightarrow> uuid \<Rightarrow> date \<Rightarrow> date \<Rightarrow> string option \<Rightarrow> string option
    \<Rightarrow> int \<Rightarrow> int option \<Rightarrow> uuid list option \<Rightarrow> uuid option \<Rightarrow> shift_error + shift_db" where
  "create_shift d new_id type_id location_id start_date end_date start_time end_time required_count
      reserve_count_override eligible_node_ids actor_id =
     (if end_date \<le> start_date then Inl End_before_start
      else if required_count < 1 then Inl Invalid_required_count
      else
        (let s = sf_board d; t = duty_type_of s type_id
         in if (start_time = None \<or> end_time = None) \<and> t = None then Inl Shift_type_not_found
            else
              (let st = hours_or start_time (Option.bind t dt_start_time) ''00:00'';
                   en = hours_or end_time (Option.bind t dt_end_time) ''23:59''
               in if \<not> strict_time st \<or> \<not> strict_time en then Inl Invalid_time
                  else if t = None \<or> location_id \<notin> set (bd_locations s) then Inl Shift_foreign_key
                  else
                    (let stop = (if end_date - start_date = 1 \<and> text_le en st then end_date + 1 else end_date);
                         sh = \<lparr>sh_id = new_id, sh_type_id = type_id, sh_location_id = location_id,
                           sh_start_date = start_date, sh_end_date = stop, sh_start_time = clock_of st,
                           sh_end_time = clock_of en, sh_required_count = required_count, sh_active = True,
                           sh_reserve_override = reserve_count_override, sh_eligible_node_ids = eligible_node_ids,
                           sh_template_id = None\<rparr>
                     in Inr (audit_shift actor_id ''duty_shift.create'' new_id
                          (set_board (s\<lparr>bd_shifts := bd_shifts s @ [sh]\<rparr>) d))))))"

definition put_shift :: "DutyShift \<Rightarrow> shift_db \<Rightarrow> shift_db" where
  "put_shift sh d = set_board ((sf_board d)\<lparr>bd_shifts :=
     map (\<lambda>x. if sh_id x = sh_id sh then sh else x) (bd_shifts (sf_board d))\<rparr>) d"

text \<open>An argument \<open>Some None\<close> clears a column, \<open>None\<close> leaves it as it is.\<close>

definition update_shift :: "shift_db \<Rightarrow> DutyShift \<Rightarrow> date option \<Rightarrow> date option \<Rightarrow> int option \<Rightarrow> int option option
    \<Rightarrow> uuid list option option \<Rightarrow> uuid option \<Rightarrow> shift_error + shift_db" where
  "update_shift d sh start_date end_date required_count reserve_count_override eligible_node_ids actor_id =
     (if (case required_count of None \<Rightarrow> False | Some n \<Rightarrow> n < 1) then Inl Invalid_required_count
      else
        (let sh' = sh\<lparr>sh_start_date := default start_date (sh_start_date sh), sh_end_date := default end_date (sh_end_date sh),
               sh_required_count := default required_count (sh_required_count sh),
               sh_reserve_override := default reserve_count_override (sh_reserve_override sh),
               sh_eligible_node_ids := default eligible_node_ids (sh_eligible_node_ids sh)\<rparr>
         in if sh_end_date sh' \<le> sh_start_date sh' then Inl End_before_start
            else Inr (audit_shift actor_id ''duty_shift.update'' (sh_id sh) (put_shift sh' d))))"

definition set_shift_active :: "bool \<Rightarrow> shift_db \<Rightarrow> DutyShift \<Rightarrow> shift_db" where
  "set_shift_active on d sh = put_shift (sh\<lparr>sh_active := on\<rparr>) d"

definition delete_shift :: "shift_db \<Rightarrow> DutyShift \<Rightarrow> uuid option \<Rightarrow> shift_error + shift_db" where
  "delete_shift d sh actor_id =
     (let s = sf_board d
      in if list_ex (\<lambda>a. da_shift_id a = Some (sh_id sh) \<and> da_status a = Published) (bd_assignments s)
         then Inl Has_assignments
         else Inr (audit_shift actor_id ''duty_shift.delete'' (sh_id sh)
           (set_board (s\<lparr>bd_shifts := filter (\<lambda>x. sh_id x \<noteq> sh_id sh) (bd_shifts s),
                bd_assignments := map (\<lambda>a. if da_shift_id a = Some (sh_id sh) then a\<lparr>da_shift_id := None\<rparr> else a)
                  (bd_assignments s)\<rparr>)
             (d\<lparr>sf_planning := (sf_planning d)\<lparr>pd_quotas :=
                filter (\<lambda>q. nq_shift_id q \<noteq> sh_id sh) (pd_quotas (sf_planning d))\<rparr>\<rparr>))))"

datatype fill = Empty_shift | Partial_shift | Full_shift

definition fill_status :: "int \<Rightarrow> int \<Rightarrow> int \<Rightarrow> int \<Rightarrow> fill" where
  "fill_status primary required reserve_assigned reserve_required =
     (if primary = 0 \<and> reserve_assigned = 0 then Empty_shift
      else if primary \<ge> required \<and> (reserve_required = 0 \<or> reserve_assigned \<ge> reserve_required) then Full_shift
      else Partial_shift)"

text \<open>\<open>_expected_reserve\<close> is \<open>reserve_count_for_shift\<close> of the bridge.\<close>

definition get_shift_fill :: "planning_db \<Rightarrow> uuid \<Rightarrow> fill option" where
  "get_shift_fill db shift_id = map_option (\<lambda>sh. fill_status (filled (pd_board db) shift_id False) (sh_required_count sh)
       (filled (pd_board db) shift_id True) (reserve_count_for_shift db sh))
     (find (\<lambda>sh. sh_id sh = shift_id) (bd_shifts (pd_board db)))"

section \<open>Templates\<close>

datatype template_error = Invalid_recurrence_type | Invalid_weekdays | Invalid_duration_days
  | Template_required_count | Template_time | Invalid_time_order | Invalid_auto_roll_until | Template_foreign_key

definition isoweekday :: "date \<Rightarrow> int" where
  "isoweekday day = (if day mod 7 = 0 then 7 else day mod 7)"

definition effective_weekdays :: "string \<Rightarrow> int list \<Rightarrow> int set" where
  "effective_weekdays recurrence_type weekdays =
     (if recurrence_type = ''daily'' then {1, 2, 3, 4, 5, 6, 7}
      else if recurrence_type = ''weekdays'' then {7, 1, 2, 3, 4}
      else set weekdays)"

definition expand_dates :: "string \<Rightarrow> int list \<Rightarrow> date \<Rightarrow> date \<Rightarrow> date list" where
  "expand_dates recurrence_type weekdays range_start range_end =
     (let selected = effective_weekdays recurrence_type weekdays
      in if selected = {} \<or> range_end < range_start then []
         else filter (\<lambda>day. isoweekday day \<in> selected) [range_start..range_end])"

definition loose_time :: "string \<Rightarrow> bool" where
  "loose_time t = (case split_colon t of [h, m] \<Rightarrow> is_digits h \<and> is_digits m | _ \<Rightarrow> False)"

definition validate_template :: "ShiftTemplate \<Rightarrow> date \<Rightarrow> template_error option" where
  "validate_template t today =
     (if tp_recurrence_type t \<notin> {''daily'', ''weekdays'', ''weekly''} then Some Invalid_recurrence_type
      else if tp_recurrence_type t = ''weekly''
          \<and> (tp_weekdays t = [] \<or> \<not> set (tp_weekdays t) \<subseteq> {1, 2, 3, 4, 5, 6, 7}) then Some Invalid_weekdays
      else if \<not> (1 \<le> tp_duration_days t \<and> tp_duration_days t \<le> 14) then Some Invalid_duration_days
      else if tp_required_count t < 1 then Some Template_required_count
      else if \<not> loose_time (tp_start_time t) \<or> \<not> loose_time (tp_end_time t) then Some Template_time
      else if tp_duration_days t = 1 \<and> text_le (tp_end_time t) (tp_start_time t) then Some Invalid_time_order
      else if (case tp_auto_roll_until t of None \<Rightarrow> False | Some x \<Rightarrow> x < today) then Some Invalid_auto_roll_until
      else None)"

definition weekday_list :: "int list \<Rightarrow> int list" where
  "weekday_list ws = sort (remdups ws)"

text \<open>\<open>t\<close> holds the arguments; the new template starts active.\<close>

definition create_template :: "shift_db \<Rightarrow> ShiftTemplate \<Rightarrow> date \<Rightarrow> uuid option \<Rightarrow> template_error + shift_db" where
  "create_template d t today actor_id =
     (case validate_template t today of Some e \<Rightarrow> Inl e
      | None \<Rightarrow>
          if duty_type_of (sf_board d) (tp_type_id t) = None \<or> tp_location_id t \<notin> set (bd_locations (sf_board d))
          then Inl Template_foreign_key
          else Inr (audit_shift actor_id ''shift_template.create'' (tp_id t)
             (d\<lparr>sf_templates := sf_templates d @ [t\<lparr>tp_active := True, tp_weekdays :=
                (if tp_recurrence_type t = ''weekly'' then weekday_list (tp_weekdays t) else [])\<rparr>]\<rparr>)))"

text \<open>What an update may change.\<close>

record template_update =
  up_recurrence_type :: "string option"
  up_weekdays :: "int list option"
  up_duration_days :: "int option"
  up_start_time :: "string option"
  up_end_time :: "string option"
  up_required_count :: "int option"
  up_auto_roll :: "bool option"
  up_auto_roll_until :: "date option option"
  up_active :: "bool option"
  up_eligible_node_ids :: "uuid list option option"

definition updated_template :: "template_update \<Rightarrow> ShiftTemplate \<Rightarrow> ShiftTemplate" where
  "updated_template u t =
     (let t' = t\<lparr>tp_recurrence_type := default (up_recurrence_type u) (tp_recurrence_type t),
            tp_weekdays := (case up_weekdays u of None \<Rightarrow> tp_weekdays t | Some ws \<Rightarrow> weekday_list ws),
            tp_duration_days := default (up_duration_days u) (tp_duration_days t),
            tp_start_time := default (up_start_time u) (tp_start_time t),
            tp_end_time := default (up_end_time u) (tp_end_time t),
            tp_required_count := default (up_required_count u) (tp_required_count t),
            tp_auto_roll := default (up_auto_roll u) (tp_auto_roll t),
            tp_auto_roll_until := default (up_auto_roll_until u) (tp_auto_roll_until t),
            tp_active := default (up_active u) (tp_active t),
            tp_eligible_node_ids := default (up_eligible_node_ids u) (tp_eligible_node_ids t)\<rparr>
      in if tp_recurrence_type t' \<noteq> ''weekly'' then t'\<lparr>tp_weekdays := [], tp_duration_days := 1\<rparr> else t')"

definition update_template :: "shift_db \<Rightarrow> ShiftTemplate \<Rightarrow> template_update \<Rightarrow> date \<Rightarrow> uuid option
    \<Rightarrow> template_error + shift_db" where
  "update_template d t u today actor_id =
     (let t' = updated_template u t
      in case validate_template t' today of Some e \<Rightarrow> Inl e
         | None \<Rightarrow> Inr (audit_shift actor_id ''shift_template.update'' (tp_id t)
             (d\<lparr>sf_templates := map (\<lambda>x. if tp_id x = tp_id t then t' else x) (sf_templates d)\<rparr>)))"

definition delete_template :: "shift_db \<Rightarrow> ShiftTemplate \<Rightarrow> uuid option \<Rightarrow> shift_db" where
  "delete_template d t actor_id = audit_shift actor_id ''shift_template.delete'' (tp_id t)
     (set_board ((sf_board d)\<lparr>bd_shifts := map (\<lambda>sh. if sh_template_id sh = Some (tp_id t) then sh\<lparr>sh_template_id := None\<rparr> else sh)
          (bd_shifts (sf_board d))\<rparr>)
       (d\<lparr>sf_templates := filter (\<lambda>x. tp_id x \<noteq> tp_id t) (sf_templates d)\<rparr>))"

definition existing_dates :: "board \<Rightarrow> uuid \<Rightarrow> date list \<Rightarrow> date set" where
  "existing_dates s template_id dates = set (map sh_start_date
     (filter (\<lambda>sh. sh_template_id sh = Some template_id \<and> sh_start_date sh \<in> set dates) (bd_shifts s)))"

definition template_dates :: "ShiftTemplate \<Rightarrow> date \<Rightarrow> date \<Rightarrow> date list" where
  "template_dates t range_start range_end = expand_dates (tp_recurrence_type t) (tp_weekdays t) range_start range_end"

definition preview_generation :: "shift_db \<Rightarrow> ShiftTemplate \<Rightarrow> date \<Rightarrow> date \<Rightarrow> (date \<times> bool) list" where
  "preview_generation d t range_start range_end =
     (let dates = template_dates t range_start range_end; existing = existing_dates (sf_board d) (tp_id t) dates
      in map (\<lambda>x. (x, x \<in> existing)) dates)"

definition template_shift :: "ShiftTemplate \<Rightarrow> uuid \<Rightarrow> date \<Rightarrow> DutyShift" where
  "template_shift t new_id day = \<lparr>sh_id = new_id, sh_type_id = tp_type_id t, sh_location_id = tp_location_id t,
     sh_start_date = day, sh_end_date = day + tp_duration_days t, sh_start_time = clock_of (tp_start_time t),
     sh_end_time = clock_of (tp_end_time t), sh_required_count = tp_required_count t, sh_active = True,
     sh_reserve_override = None, sh_eligible_node_ids = tp_eligible_node_ids t, sh_template_id = Some (tp_id t)\<rparr>"

definition missing_dates :: "shift_db \<Rightarrow> ShiftTemplate \<Rightarrow> date \<Rightarrow> date \<Rightarrow> date list" where
  "missing_dates d t range_start range_end =
     (let dates = template_dates t range_start range_end
      in filter (\<lambda>x. x \<notin> existing_dates (sf_board d) (tp_id t) dates) dates)"

definition generate_shifts :: "shift_db \<Rightarrow> (nat \<Rightarrow> uuid) \<Rightarrow> ShiftTemplate \<Rightarrow> date \<Rightarrow> date \<Rightarrow> uuid option
    \<Rightarrow> DutyShift list \<times> shift_db" where
  "generate_shifts d ids t range_start range_end actor_id =
     (let created = map (\<lambda>(k, day). template_shift t (ids k) day)
            (List.enumerate 0 (missing_dates d t range_start range_end));
          d' = set_board ((sf_board d)\<lparr>bd_shifts := bd_shifts (sf_board d) @ created\<rparr>) d
      in (created, if created = [] then d' else audit_shift actor_id ''shift_template.generate'' (tp_id t) d'))"

definition roll_one :: "(nat \<Rightarrow> uuid) \<Rightarrow> date \<Rightarrow> date \<Rightarrow> uuid option \<Rightarrow> ShiftTemplate \<Rightarrow> nat \<times> shift_db \<Rightarrow> nat \<times> shift_db" where
  "roll_one ids base range_end actor_id t acc =
     (let tally = fst acc; d = snd acc
      in if (case tp_auto_roll_until t of None \<Rightarrow> False | Some x \<Rightarrow> x < base) then acc
         else
           (let stop = (case tp_auto_roll_until t of None \<Rightarrow> range_end | Some x \<Rightarrow> if x < range_end then x else range_end);
                (created, d') = generate_shifts d (\<lambda>k. ids (tally + k)) t base stop actor_id
            in (tally + length created, d')))"

definition roll_horizon :: "shift_db \<Rightarrow> (nat \<Rightarrow> uuid) \<Rightarrow> int \<Rightarrow> date \<Rightarrow> uuid option \<Rightarrow> nat \<times> shift_db" where
  "roll_horizon d ids horizon_days today actor_id =
     fold (roll_one ids today (today + (horizon_days - 1)) actor_id)
       (filter (\<lambda>t. tp_active t \<and> tp_auto_roll t) (sf_templates d)) (0, d)"

section \<open>Quotas\<close>

datatype quota_error = Quota_shift_not_found | Duplicate_quota_node | Quota_count_must_be_positive
  | Quota_node_not_found | Quota_sum_exceeds | Required_count_must_be_positive | Parent_node_no_children
  | Node_ids_required

fun check_quotas :: "(uuid \<Rightarrow> bool) \<Rightarrow> (uuid \<times> int) list \<Rightarrow> uuid set \<Rightarrow> int \<Rightarrow> quota_error + int" where
  "check_quotas known [] visited tally = Inr tally"
| "check_quotas known ((node_id, n) # rest) visited tally =
     (if node_id \<in> visited then Inl Duplicate_quota_node
      else if n < 1 then Inl Quota_count_must_be_positive
      else if \<not> known node_id then Inl Quota_node_not_found
      else check_quotas known rest (insert node_id visited) (tally + n))"

definition set_shift_quotas :: "shift_db \<Rightarrow> uuid \<Rightarrow> (uuid \<times> int) list \<Rightarrow> uuid option \<Rightarrow> quota_error + shift_db" where
  "set_shift_quotas d shift_id quotas actor_id =
     (case shift_of d shift_id of None \<Rightarrow> Inl Quota_shift_not_found
      | Some sh \<Rightarrow>
          (case check_quotas (\<lambda>i. list_ex (\<lambda>n. n_id n = i) (sd_nodes (pd_scores (sf_planning d)))) quotas {} 0 of
             Inl e \<Rightarrow> Inl e
           | Inr tally \<Rightarrow>
               if tally > sh_required_count sh then Inl Quota_sum_exceeds
               else Inr (audit_shift actor_id ''shift.set_node_quotas'' shift_id
                 (d\<lparr>sf_planning := (sf_planning d)\<lparr>pd_quotas :=
                    filter (\<lambda>q. nq_shift_id q \<noteq> shift_id) (pd_quotas (sf_planning d))
                    @ map (\<lambda>(i, n). \<lparr>nq_shift_id = shift_id, nq_node_id = i, nq_count = nat n\<rparr>) quotas\<rparr>\<rparr>))))"

text \<open>
  Potentials are never negative here (\<open>max(.., 0)\<close>), so \<open>int\<close> rounds down.  The potentials
  themselves, of \<open>potential.py\<close>, are the weights.
\<close>

definition largest_remainder_shares :: "int \<Rightarrow> int list \<Rightarrow> int list" where
  "largest_remainder_shares required_count weights =
     (let n = length weights; total_weight = sum_list weights
      in if total_weight = 0
         then map (\<lambda>i. required_count div int n + (if int i < required_count mod int n then 1 else 0)) [0..<n]
         else
           (let raw = map (\<lambda>w. of_int (required_count * w) / of_int total_weight :: decimal) weights;
                shares = map floor raw;
                remainder = required_count - sum_list shares;
                order = sort_key (\<lambda>i. - (raw ! i - of_int (shares ! i))) [0..<n]
            in fold (\<lambda>i xs. xs[i := xs ! i + 1]) (take (nat remainder) order) shares))"

end
