(* ===== verification/ShiftsSound.thy ===== *)
theory ShiftsSound
  imports Shifts Steps
begin

text \<open>
  The tables of shifts, templates and quotas: what every operation keeps, what a generation
  adds, and how the shares of a split add up.
\<close>

section \<open>Projections\<close>

lemma set_board_simps [simp]:
  "sf_board (set_board s d) = s" "sf_templates (set_board s d) = sf_templates d"
  "pd_quotas (sf_planning (set_board s d)) = pd_quotas (sf_planning d)"
  by (simp_all add: set_board_def)

lemma audit_shift_simps [simp]:
  "bd_shifts (sf_board (audit_shift u a i d)) = bd_shifts (sf_board d)"
  "sf_templates (audit_shift u a i d) = sf_templates d"
  "pd_quotas (sf_planning (audit_shift u a i d)) = pd_quotas (sf_planning d)"
  by (simp_all add: audit_shift_def audit_board_def)

lemma put_shift_simps [simp]:
  "bd_shifts (sf_board (put_shift sh d)) = map (\<lambda>x. if sh_id x = sh_id sh then sh else x) (bd_shifts (sf_board d))"
  "sf_templates (put_shift sh d) = sf_templates d"
  "pd_quotas (sf_planning (put_shift sh d)) = pd_quotas (sf_planning d)"
  by (simp_all add: put_shift_def)

section \<open>The invariant\<close>

definition shift_ok :: "DutyShift \<Rightarrow> bool" where
  "shift_ok sh \<longleftrightarrow> sh_start_date sh < sh_end_date sh \<and> 1 \<le> sh_required_count sh"

definition template_ok :: "ShiftTemplate \<Rightarrow> bool" where
  "template_ok t \<longleftrightarrow> tp_recurrence_type t \<in> {''daily'', ''weekdays'', ''weekly''}
     \<and> (if tp_recurrence_type t = ''weekly'' then tp_weekdays t \<noteq> [] \<and> set (tp_weekdays t) \<subseteq> {1, 2, 3, 4, 5, 6, 7}
        else tp_weekdays t = [])
     \<and> 1 \<le> tp_duration_days t \<and> tp_duration_days t \<le> 14 \<and> 1 \<le> tp_required_count t
     \<and> loose_time (tp_start_time t) \<and> loose_time (tp_end_time t)
     \<and> \<not> (tp_duration_days t = 1 \<and> text_le (tp_end_time t) (tp_start_time t))"

text \<open>That is what validation asks for, but for the day the rolling ends, which may have passed.\<close>

lemma template_ok_validates:
  "template_ok t \<Longrightarrow> validate_template t today
    = (case tp_auto_roll_until t of None \<Rightarrow> None
       | Some day \<Rightarrow> if day < today then Some Invalid_auto_roll_until else None)"
  by (auto simp: template_ok_def validate_template_def split: option.split if_splits)

definition of_template :: "ShiftTemplate list \<Rightarrow> DutyShift \<Rightarrow> bool" where
  "of_template ts sh \<longleftrightarrow> (case sh_template_id sh of None \<Rightarrow> True | Some i \<Rightarrow> i \<in> tp_id ` set ts)"

definition quota_ok :: "DutyShift list \<Rightarrow> DutyShiftNodeQuota \<Rightarrow> bool" where
  "quota_ok shs q \<longleftrightarrow> 1 \<le> nq_count q \<and> nq_shift_id q \<in> sh_id ` set shs"

definition shifts_ok :: "shift_db \<Rightarrow> bool" where
  "shifts_ok d \<longleftrightarrow> list_all shift_ok (bd_shifts (sf_board d)) \<and> distinct (map sh_id (bd_shifts (sf_board d)))
     \<and> list_all template_ok (sf_templates d) \<and> distinct (map tp_id (sf_templates d))
     \<and> list_all (of_template (sf_templates d)) (bd_shifts (sf_board d))
     \<and> list_all (quota_ok (bd_shifts (sf_board d))) (pd_quotas (sf_planning d))
     \<and> distinct (map (\<lambda>q. (nq_shift_id q, nq_node_id q)) (pd_quotas (sf_planning d)))"

lemma shifts_okI:
  assumes "\<And>sh. sh \<in> set (bd_shifts (sf_board d)) \<Longrightarrow> shift_ok sh \<and> of_template (sf_templates d) sh"
    and "distinct (map sh_id (bd_shifts (sf_board d)))"
    and "\<And>t. t \<in> set (sf_templates d) \<Longrightarrow> template_ok t" "distinct (map tp_id (sf_templates d))"
    and "\<And>q. q \<in> set (pd_quotas (sf_planning d)) \<Longrightarrow> quota_ok (bd_shifts (sf_board d)) q"
    and "distinct (map (\<lambda>q. (nq_shift_id q, nq_node_id q)) (pd_quotas (sf_planning d)))"
  shows "shifts_ok d"
  unfolding shifts_ok_def list_all_iff using assms by blast

lemma shifts_okD:
  assumes "shifts_ok d"
  shows "\<And>sh. sh \<in> set (bd_shifts (sf_board d)) \<Longrightarrow> shift_ok sh \<and> of_template (sf_templates d) sh"
    and "distinct (map sh_id (bd_shifts (sf_board d)))"
    and "\<And>t. t \<in> set (sf_templates d) \<Longrightarrow> template_ok t" and "distinct (map tp_id (sf_templates d))"
    and "\<And>q. q \<in> set (pd_quotas (sf_planning d)) \<Longrightarrow> quota_ok (bd_shifts (sf_board d)) q"
    and "distinct (map (\<lambda>q. (nq_shift_id q, nq_node_id q)) (pd_quotas (sf_planning d)))"
  using assms unfolding shifts_ok_def list_all_iff by blast+

text \<open>States that agree on the three tables.\<close>

definition same_shifts :: "shift_db \<Rightarrow> shift_db \<Rightarrow> bool" where
  "same_shifts d d' \<longleftrightarrow> bd_shifts (sf_board d') = bd_shifts (sf_board d) \<and> sf_templates d' = sf_templates d
     \<and> pd_quotas (sf_planning d') = pd_quotas (sf_planning d)"

lemma same_shifts_ok: "same_shifts d d' \<Longrightarrow> shifts_ok d \<Longrightarrow> shifts_ok d'"
  by (simp add: same_shifts_def shifts_ok_def)

lemma ids_put: "map sh_id (map (\<lambda>x. if sh_id x = sh_id sh then sh else x) shs) = map sh_id shs"
  by (induction shs) auto

lemma quota_ok_ids: "sh_id ` set shs \<subseteq> sh_id ` set shs' \<Longrightarrow> quota_ok shs q \<Longrightarrow> quota_ok shs' q"
  by (auto simp: quota_ok_def)

lemma put_shift_ok:
  assumes ok: "shifts_ok d" and sh: "shift_ok sh" "of_template (sf_templates d) sh"
  shows "shifts_ok (put_shift sh d)"
proof -
  have ids: "sh_id ` set (map (\<lambda>x. if sh_id x = sh_id sh then sh else x) (bd_shifts (sf_board d)))
      = sh_id ` set (bd_shifts (sf_board d))"
    using arg_cong [OF ids_put, of set] by (simp only: set_map)
  let ?shs = "map (\<lambda>x. if sh_id x = sh_id sh then sh else x) (bd_shifts (sf_board d))"
  have rows: "\<forall>x \<in> set ?shs. shift_ok x \<and> of_template (sf_templates d) x"
    using sh shifts_okD(1) [OF ok] by (auto split: if_split_asm)
  have quotas: "\<forall>q \<in> set (pd_quotas (sf_planning d)). quota_ok ?shs q"
    using shifts_okD(5) [OF ok] quota_ok_ids [OF equalityD2 [OF ids]] by blast
  show ?thesis
    using rows quotas shifts_okD(2-4,6) [OF ok] unfolding shifts_ok_def list_all_iff put_shift_simps ids_put by blast
qed

lemma add_shifts_ok:
  assumes ok: "shifts_ok d" and new: "list_all shift_ok new" "list_all (of_template (sf_templates d)) new"
    "distinct (map sh_id (bd_shifts (sf_board d) @ new))"
  shows "shifts_ok (set_board (s\<lparr>bd_shifts := bd_shifts (sf_board d) @ new\<rparr>) d)"
proof -
  let ?shs = "bd_shifts (sf_board d) @ new"
  have rows: "\<forall>x \<in> set ?shs. shift_ok x \<and> of_template (sf_templates d) x"
    using new(1,2) shifts_okD(1) [OF ok] by (auto simp: list_all_iff)
  have quotas: "\<forall>q \<in> set (pd_quotas (sf_planning d)). quota_ok ?shs q"
    using shifts_okD(5) [OF ok] quota_ok_ids [of "bd_shifts (sf_board d)" ?shs] by auto
  have b: "bd_shifts (s\<lparr>bd_shifts := ?shs\<rparr>) = ?shs" by simp
  show ?thesis
    using rows quotas new(3) shifts_okD(3,4,6) [OF ok] unfolding shifts_ok_def list_all_iff set_board_simps b by blast
qed

section \<open>Operations\<close>

lemma create_shift_ok:
  assumes "create_shift d i t l a b st en n r el u = Inr d'" "shifts_ok d" "shift_of d i = None"
  shows "shifts_ok d'"
proof -
  obtain sh s where d': "d' = audit_shift u ''duty_shift.create'' i (set_board (s\<lparr>bd_shifts := bd_shifts s @ [sh]\<rparr>) d)"
    and s: "s = sf_board d" and sh: "sh_id sh = i" "shift_ok sh" "sh_template_id sh = None"
    using assms(1) by (auto simp: create_shift_def Let_def shift_ok_def split: if_split_asm)
  have "i \<notin> sh_id ` set (bd_shifts (sf_board d))"
    using assms(3) by (auto simp: shift_of_def find_None_iff)
  then have "shifts_ok (set_board (s\<lparr>bd_shifts := bd_shifts (sf_board d) @ [sh]\<rparr>) d)"
    using assms(2) sh by (intro add_shifts_ok) (auto simp: shifts_ok_def of_template_def)
  then show ?thesis unfolding d' s by (rule same_shifts_ok [rotated]) (simp add: same_shifts_def)
qed

lemma update_shift_ok:
  assumes "update_shift d sh a b n r el u = Inr d'" and ok: "shifts_ok d" and sh: "sh \<in> set (bd_shifts (sf_board d))"
  shows "shifts_ok d'"
proof -
  let ?sh = "sh\<lparr>sh_start_date := default a (sh_start_date sh), sh_end_date := default b (sh_end_date sh),
    sh_required_count := default n (sh_required_count sh), sh_reserve_override := default r (sh_reserve_override sh),
    sh_eligible_node_ids := default el (sh_eligible_node_ids sh)\<rparr>"
  have n: "\<not> (case n of None \<Rightarrow> False | Some n \<Rightarrow> n < 1)" "sh_start_date ?sh < sh_end_date ?sh"
    and d': "d' = audit_shift u ''duty_shift.update'' (sh_id sh) (put_shift ?sh d)"
    using assms(1) by (simp_all add: update_shift_def Let_def split: if_split_asm)
  have "1 \<le> sh_required_count sh" using shifts_okD(1) [OF ok sh] by (simp add: shift_ok_def)
  then have "1 \<le> sh_required_count ?sh" using n(1) by (cases n) (simp_all add: default_def)
  moreover have "of_template (sf_templates d) ?sh" using shifts_okD(1) [OF ok sh] by (simp add: of_template_def)
  ultimately have "shifts_ok (put_shift ?sh d)" using n(2) by (intro put_shift_ok ok) (simp_all add: shift_ok_def)
  then show ?thesis unfolding d' by (rule same_shifts_ok [rotated]) (simp add: same_shifts_def)
qed

lemma set_shift_active_ok:
  "shifts_ok d \<Longrightarrow> sh \<in> set (bd_shifts (sf_board d)) \<Longrightarrow> shifts_ok (set_shift_active on d sh)"
  unfolding set_shift_active_def
  using shifts_okD(1) by (intro put_shift_ok) (simp_all add: shift_ok_def of_template_def)

lemma delete_shift_ok:
  assumes "delete_shift d sh u = Inr d'" "shifts_ok d"
  shows "shifts_ok d'"
proof -
  have d': "bd_shifts (sf_board d') = filter (\<lambda>x. sh_id x \<noteq> sh_id sh) (bd_shifts (sf_board d))"
    "sf_templates d' = sf_templates d"
    "pd_quotas (sf_planning d') = filter (\<lambda>q. nq_shift_id q \<noteq> sh_id sh) (pd_quotas (sf_planning d))"
    using assms(1) by (auto simp: delete_shift_def Let_def split: if_split_asm)
  show ?thesis using assms(2) unfolding shifts_ok_def d'
    by (auto simp: list_all_iff quota_ok_def intro!: distinct_map_filter)
qed

lemma validated_ok:
  assumes "validate_template t today = None"
    and "tp_recurrence_type t \<noteq> ''weekly'' \<Longrightarrow> tp_weekdays t = []"
  shows "template_ok t"
  using assms by (auto simp: validate_template_def template_ok_def split: if_split_asm)

lemma sort_remdups_empty: "sort (remdups xs) = [] \<longleftrightarrow> xs = []" for xs :: "int list"
  by (metis remdups_eq_nil_iff set_empty2 set_sort)

lemma create_template_ok:
  assumes "create_template d t today u = Inr d'" "shifts_ok d" "template_of d (tp_id t) = None"
  shows "shifts_ok d'"
proof -
  let ?t = "t\<lparr>tp_active := True, tp_weekdays := (if tp_recurrence_type t = ''weekly'' then weekday_list (tp_weekdays t) else [])\<rparr>"
  have v: "validate_template t today = None" and d': "sf_templates d' = sf_templates d @ [?t]"
    "bd_shifts (sf_board d') = bd_shifts (sf_board d)" "pd_quotas (sf_planning d') = pd_quotas (sf_planning d)"
    using assms(1) by (auto simp: create_template_def split: option.splits if_split_asm)
  have "template_ok ?t"
    using v by (auto simp: validate_template_def template_ok_def weekday_list_def sort_remdups_empty split: if_split_asm)
  moreover have "tp_id t \<notin> tp_id ` set (sf_templates d)"
    using assms(3) by (auto simp: template_of_def find_None_iff)
  moreover have "of_template (sf_templates d @ [?t]) sh" if "of_template (sf_templates d) sh" for sh
    using that by (auto simp: of_template_def split: option.splits)
  ultimately show ?thesis using assms(2) by (auto simp: shifts_ok_def d' list_all_iff)
qed

lemma update_template_ok:
  assumes "update_template d t x today u = Inr d'" "shifts_ok d"
  shows "shifts_ok d'"
proof -
  let ?t = "updated_template x t"
  let ?ts = "map (\<lambda>y. if tp_id y = tp_id t then ?t else y) (sf_templates d)"
  have v: "validate_template ?t today = None" and d': "sf_templates d' = ?ts"
    "bd_shifts (sf_board d') = bd_shifts (sf_board d)" "pd_quotas (sf_planning d') = pd_quotas (sf_planning d)"
    using assms(1) by (auto simp: update_template_def Let_def split: option.splits)
  have id: "tp_id ?t = tp_id t" by (simp add: updated_template_def Let_def)
  have ok: "template_ok ?t" by (rule validated_ok [OF v]) (simp add: updated_template_def Let_def split: if_split_asm)
  have ids: "map tp_id ?ts = map tp_id (sf_templates d)" using id by (induction "sf_templates d") auto
  moreover have "tp_id ` set ?ts = tp_id ` set (sf_templates d)" using arg_cong [OF ids, of set] by (simp only: set_map)
  ultimately have o: "of_template ?ts sh = of_template (sf_templates d) sh" for sh
    unfolding of_template_def by (simp only:)
  have "\<forall>y \<in> set ?ts. template_ok y"
    using ok shifts_okD(3) [OF assms(2)] by (auto split: if_split_asm)
  then show ?thesis using o
    using shifts_okD [OF assms(2)] unfolding shifts_ok_def d' list_all_iff ids by blast
qed

lemma delete_template_ok:
  assumes "shifts_ok d"
  shows "shifts_ok (delete_template d t u)"
proof -
  let ?f = "\<lambda>sh. if sh_template_id sh = Some (tp_id t) then sh\<lparr>sh_template_id := None\<rparr> else sh"
  have ids: "map sh_id (map ?f shs) = map sh_id shs" for shs by (induction shs) auto
  have d': "bd_shifts (sf_board (delete_template d t u)) = map ?f (bd_shifts (sf_board d))"
    "sf_templates (delete_template d t u) = filter (\<lambda>x. tp_id x \<noteq> tp_id t) (sf_templates d)"
    "pd_quotas (sf_planning (delete_template d t u)) = pd_quotas (sf_planning d)"
    by (simp_all add: delete_template_def)
  have "sh_id ` set (map ?f (bd_shifts (sf_board d))) = sh_id ` set (bd_shifts (sf_board d))"
    using arg_cong [OF ids, of set] by (simp only: set_map)
  then have "quota_ok (map ?f (bd_shifts (sf_board d))) q = quota_ok (bd_shifts (sf_board d)) q" for q
    by (simp add: quota_ok_def)
  moreover have "shift_ok x \<and> of_template (filter (\<lambda>x. tp_id x \<noteq> tp_id t) (sf_templates d)) x"
    if "x \<in> set (map ?f (bd_shifts (sf_board d)))" for x
    using that shifts_okD(1) [OF assms] by (fastforce simp: shift_ok_def of_template_def split: option.splits)
  ultimately show ?thesis using shifts_okD [OF assms] unfolding shifts_ok_def d' ids list_all_iff
    by (simp add: distinct_map_filter)
qed

section \<open>Generation\<close>

definition fresh_shift_ids :: "shift_db \<Rightarrow> (nat \<Rightarrow> uuid) \<Rightarrow> nat \<Rightarrow> bool" where
  "fresh_shift_ids d ids n \<longleftrightarrow> inj ids \<and> (\<forall>k \<ge> n. ids k \<notin> sh_id ` set (bd_shifts (sf_board d)))"

lemma generated:
  assumes "generate_shifts d ids t a b u = (new, d')"
  shows "bd_shifts (sf_board d') = bd_shifts (sf_board d) @ new" "sf_templates d' = sf_templates d"
    "pd_quotas (sf_planning d') = pd_quotas (sf_planning d)"
    "new = map (\<lambda>(k, day). template_shift t (ids k) day) (List.enumerate 0 (missing_dates d t a b))"
  using assms by (auto simp: generate_shifts_def Let_def split: if_split_asm)

lemma template_shift_simps [simp]:
  "sh_id (template_shift t i day) = i" "sh_start_date (template_shift t i day) = day"
  "sh_template_id (template_shift t i day) = Some (tp_id t)"
  by (simp_all add: template_shift_def)

lemma generate_ok:
  assumes "generate_shifts d (\<lambda>k. ids (n + k)) t a b u = (new, d')" "shifts_ok d" "t \<in> set (sf_templates d)"
    and fresh: "fresh_shift_ids d ids n"
  shows "shifts_ok d'" "fresh_shift_ids d' ids (n + length new)"
proof -
  note g = generated [OF assms(1)]
  have ids: "map sh_id new = map (\<lambda>k. ids (n + k)) [0..<length new]"
    by (rule nth_equalityI) (simp_all add: g(4) nth_enumerate_eq case_prod_beta)
  have inj: "inj (\<lambda>k. ids (n + k))" using fresh by (auto simp: fresh_shift_ids_def intro!: injI dest: injD)
  have d: "distinct (map sh_id (bd_shifts (sf_board d) @ new))"
  proof -
    have "distinct (map (\<lambda>k. ids (n + k)) [0..<length new])"
      using inj by (simp add: distinct_map inj_on_def inj_def)
    moreover have "set (map sh_id (bd_shifts (sf_board d))) \<inter> set (map (\<lambda>k. ids (n + k)) [0..<length new]) = {}"
    proof -
      have False if x: "x \<in> set (map sh_id (bd_shifts (sf_board d)))" "x \<in> set (map (\<lambda>k. ids (n + k)) [0..<length new])" for x
      proof -
        obtain k where "x = ids (n + k)" using x(2) by auto
        moreover have "ids (n + k) \<notin> sh_id ` set (bd_shifts (sf_board d))" using fresh by (simp add: fresh_shift_ids_def)
        ultimately show False using x(1) by (simp only: set_map)
      qed
      then show ?thesis by blast
    qed
    ultimately show ?thesis
      unfolding map_append ids distinct_append using shifts_okD(2) [OF assms(2)] by blast
  qed
  have ok: "template_ok t" using assms(2,3) by (simp add: shifts_ok_def list_all_iff)
  have "list_all shift_ok new" "list_all (of_template (sf_templates d)) new"
    using ok assms(3) by (auto simp: g(4) list_all_iff shift_ok_def template_shift_def template_ok_def of_template_def)
  from add_shifts_ok [OF assms(2) this d, of "sf_board d"]
  show "shifts_ok d'" by (rule same_shifts_ok [rotated]) (simp add: same_shifts_def g)
  have "ids j \<notin> sh_id ` set (bd_shifts (sf_board d'))" if j: "n + length new \<le> j" for j
  proof
    assume "ids j \<in> sh_id ` set (bd_shifts (sf_board d'))"
    then have "ids j \<in> sh_id ` set (bd_shifts (sf_board d)) \<or> ids j \<in> set (map sh_id new)" by (auto simp: g(1))
    moreover have "ids j \<notin> sh_id ` set (bd_shifts (sf_board d))" using fresh j by (simp add: fresh_shift_ids_def)
    ultimately obtain k where "k < length new" "ids j = ids (n + k)" unfolding ids by auto
    then show False using fresh j by (auto simp: fresh_shift_ids_def dest: injD)
  qed
  then show "fresh_shift_ids d' ids (n + length new)" using fresh by (simp add: fresh_shift_ids_def)
qed

lemma roll_one_ok:
  assumes "roll_one ids base e u t (n, d) = (n', d')" "shifts_ok d" "t \<in> set (sf_templates d)" "fresh_shift_ids d ids n"
  shows "shifts_ok d' \<and> fresh_shift_ids d' ids n' \<and> sf_templates d' = sf_templates d"
  using assms generate_ok generated(2)
  by (auto simp: roll_one_def Let_def split: if_split_asm prod.splits)

lemma roll_ok:
  assumes "fold (roll_one ids base e u) ts (n, d) = (n', d')" "shifts_ok d" "set ts \<subseteq> set (sf_templates d)"
    "fresh_shift_ids d ids n"
  shows "shifts_ok d' \<and> sf_templates d' = sf_templates d"
  using assms
proof (induction ts arbitrary: n d)
  case (Cons t ts)
  obtain m x where r: "roll_one ids base e u t (n, d) = (m, x)" by fastforce
  have "t \<in> set (sf_templates d)" using Cons.prems(3) by simp
  from roll_one_ok [OF r Cons.prems(2) this Cons.prems(4)] show ?case
    using Cons.IH [of m x] Cons.prems r by simp
qed simp

text \<open>Each day of the range on which the template recurs has a shift afterwards; other days keep theirs.\<close>

lemma dates_distinct: "distinct (template_dates t a b)"
  by (simp add: template_dates_def expand_dates_def Let_def)

lemma mem_template_dates:
  "day \<in> set (template_dates t a b) \<longleftrightarrow> a \<le> day \<and> day \<le> b
     \<and> isoweekday day \<in> effective_weekdays (tp_recurrence_type t) (tp_weekdays t)"
  by (auto simp: template_dates_def expand_dates_def Let_def)

definition shifts_on :: "shift_db \<Rightarrow> uuid \<Rightarrow> date \<Rightarrow> DutyShift list" where
  "shifts_on d i day = filter (\<lambda>sh. sh_template_id sh = Some i \<and> sh_start_date sh = day) (bd_shifts (sf_board d))"

lemma mem_missing:
  "day \<in> set (missing_dates d t a b) \<longleftrightarrow> day \<in> set (template_dates t a b) \<and> shifts_on d (tp_id t) day = []"
  by (auto simp: missing_dates_def existing_dates_def shifts_on_def filter_empty_conv Let_def)

lemma missing_distinct: "distinct (missing_dates d t a b)"
  by (simp add: missing_dates_def Let_def dates_distinct)

lemma count_distinct: "distinct xs \<Longrightarrow> length (filter (\<lambda>x. x = y) xs) = (if y \<in> set xs then 1 else 0)"
  by (induction xs) auto

lemma generate_counts:
  assumes "generate_shifts d ids t a b u = (new, d')"
  shows "length (shifts_on d' (tp_id t) day) = (if day \<in> set (template_dates t a b)
    then max 1 (length (shifts_on d (tp_id t) day)) else length (shifts_on d (tp_id t) day))"
proof -
  note g = generated [OF assms]
  have "map sh_start_date new = missing_dates d t a b"
    by (rule nth_equalityI) (simp_all add: g(4) nth_enumerate_eq case_prod_beta)
  moreover have "length (filter (\<lambda>sh. sh_template_id sh = Some (tp_id t) \<and> sh_start_date sh = day) new)
      = length (filter (\<lambda>x. x = day) (map sh_start_date new))"
  proof -
    have "\<forall>sh \<in> set new. sh_template_id sh = Some (tp_id t)" by (auto simp: g(4))
    then show ?thesis by (induction new) auto
  qed
  ultimately have "length (shifts_on d' (tp_id t) day) = length (shifts_on d (tp_id t) day)
      + (if day \<in> set (missing_dates d t a b) then 1 else 0)"
    by (simp add: shifts_on_def g(1) count_distinct [OF missing_distinct])
  then show ?thesis by (cases "shifts_on d (tp_id t) day") (auto simp: mem_missing)
qed

lemma nothing_missing: "missing_dates d t a b = [] \<Longrightarrow> generate_shifts d ids t a b u = ([], d)"
  by (simp add: generate_shifts_def set_board_def)

lemma nobody: "(\<And>x. x \<notin> set xs) \<Longrightarrow> xs = []"
  by (cases xs) auto

lemma generate_again:
  assumes "generate_shifts d ids t a b u = (new, d')"
  shows "missing_dates d' t a b = []"
proof -
  have "day \<notin> set (missing_dates d' t a b)" for day
    using generate_counts [OF assms, of day] by (auto simp: mem_missing)
  then show ?thesis by (rule nobody)
qed

lemma still_covered:
  assumes "missing_dates d t a b = []" "bd_shifts (sf_board d') = bd_shifts (sf_board d) @ new"
  shows "missing_dates d' t a b = []"
proof -
  have "day \<notin> set (missing_dates d' t a b)" for day
    using assms(1) mem_missing [of day d t a b] by (auto simp: mem_missing shifts_on_def assms(2))
  then show ?thesis by (rule nobody)
qed

text \<open>The window that a rolling horizon gives a template.\<close>

definition roll_stop :: "date \<Rightarrow> ShiftTemplate \<Rightarrow> date" where
  "roll_stop e t = (case tp_auto_roll_until t of None \<Rightarrow> e | Some x \<Rightarrow> if x < e then x else e)"

definition rolled :: "date \<Rightarrow> date \<Rightarrow> shift_db \<Rightarrow> ShiftTemplate \<Rightarrow> bool" where
  "rolled base e d t \<longleftrightarrow> (case tp_auto_roll_until t of None \<Rightarrow> False | Some x \<Rightarrow> x < base)
     \<or> missing_dates d t base (roll_stop e t) = []"

lemma roll_one_grows:
  assumes "roll_one ids base e u t (n, d) = (n', d')"
  shows "(\<exists>new. bd_shifts (sf_board d') = bd_shifts (sf_board d) @ new) \<and> rolled base e d' t"
  using assms generated(1) generate_again
  by (fastforce simp: roll_one_def Let_def rolled_def roll_stop_def split: if_split_asm prod.splits)

lemma rolled_keep:
  "rolled base e d t \<Longrightarrow> bd_shifts (sf_board d') = bd_shifts (sf_board d) @ new \<Longrightarrow> rolled base e d' t"
  using still_covered unfolding rolled_def by blast

lemma roll_rolled:
  assumes "fold (roll_one ids base e u) ts (n, d) = (n', d')"
  shows "(\<exists>new. bd_shifts (sf_board d') = bd_shifts (sf_board d) @ new) \<and> (\<forall>t \<in> set ts. rolled base e d' t)"
  using assms
proof (induction ts arbitrary: n d)
  case (Cons t ts)
  obtain m x where r: "roll_one ids base e u t (n, d) = (m, x)" by fastforce
  obtain new1 where n1: "bd_shifts (sf_board x) = bd_shifts (sf_board d) @ new1" and t: "rolled base e x t"
    using roll_one_grows [OF r] by blast
  obtain new2 where n2: "bd_shifts (sf_board d') = bd_shifts (sf_board x) @ new2" and ts: "\<forall>t \<in> set ts. rolled base e d' t"
    using Cons.IH [of m x] Cons.prems r by auto
  then show ?case using n1 rolled_keep [OF t n2] by auto
qed simp

lemma roll_nothing:
  assumes "\<forall>t \<in> set ts. rolled base e d t"
  shows "fold (roll_one ids base e u) ts (n, d) = (n, d)"
  using assms
proof (induction ts)
  case (Cons t ts)
  have "roll_one ids base e u t (n, d) = (n, d)"
    using Cons.prems nothing_missing
    by (auto simp: roll_one_def Let_def rolled_def roll_stop_def split: option.splits)
  then show ?case using Cons by simp
qed simp

end
