(* ===== verification/ShiftsReach.thy ===== *)
theory ShiftsReach
  imports ShiftsSound DutiesReach
begin

text \<open>
  The reachable tables of shifts, templates and quotas, the shifts a template generates, and
  the split of a shift's places among nodes.
\<close>

section \<open>Reachable tables\<close>

inductive shift_step :: "shift_db \<Rightarrow> shift_db \<Rightarrow> bool" where
  sf_create: "create_shift d i t l a b st en n r el u = Inr d' \<Longrightarrow> shift_of d i = None \<Longrightarrow> shift_step d d'"
| sf_update: "update_shift d sh a b n r el u = Inr d' \<Longrightarrow> sh \<in> set (bd_shifts (sf_board d)) \<Longrightarrow> shift_step d d'"
| sf_active: "sh \<in> set (bd_shifts (sf_board d)) \<Longrightarrow> shift_step d (set_shift_active on d sh)"
| sf_delete: "delete_shift d sh u = Inr d' \<Longrightarrow> shift_step d d'"
| sf_create_template: "create_template d t today u = Inr d' \<Longrightarrow> template_of d (tp_id t) = None \<Longrightarrow> shift_step d d'"
| sf_update_template: "update_template d t x today u = Inr d' \<Longrightarrow> shift_step d d'"
| sf_delete_template: "shift_step d (delete_template d t u)"
| sf_generate: "generate_shifts d ids t a b u = (new, d') \<Longrightarrow> t \<in> set (sf_templates d) \<Longrightarrow> fresh_shift_ids d ids 0
    \<Longrightarrow> shift_step d d'"
| sf_roll: "roll_horizon d ids h today u = (n, d') \<Longrightarrow> fresh_shift_ids d ids 0 \<Longrightarrow> shift_step d d'"
| sf_quotas: "set_shift_quotas d i qs u = Inr d' \<Longrightarrow> shift_step d d'"
| sf_other: "same_shifts d d' \<Longrightarrow> shift_step d d'"

definition no_shifts :: "shift_db \<Rightarrow> bool" where
  "no_shifts d \<longleftrightarrow> bd_shifts (sf_board d) = [] \<and> sf_templates d = [] \<and> pd_quotas (sf_planning d) = []"

lemma check_quotas_ok:
  "check_quotas known qs visited tally = Inr m \<Longrightarrow> distinct (map fst qs) \<and> (\<forall>(i, n) \<in> set qs. 1 \<le> n \<and> i \<notin> visited)
     \<and> m = tally + sum_list (map snd qs)"
  by (induction known qs visited tally rule: check_quotas.induct) (fastforce split: if_split_asm)+

lemma set_quotas_ok:
  assumes q: "set_shift_quotas d i qs u = Inr d'" and ok: "shifts_ok d"
  shows "shifts_ok d'"
proof -
  obtain sh m where sh: "shift_of d i = Some sh"
    and m: "check_quotas (\<lambda>i. list_ex (\<lambda>n. n_id n = i) (sd_nodes (pd_scores (sf_planning d)))) qs {} 0 = Inr m"
    using q by (auto simp: set_shift_quotas_def split: option.splits sum.splits)
  let ?new = "map (\<lambda>(j, n). \<lparr>nq_shift_id = i, nq_node_id = j, nq_count = nat n\<rparr>) qs"
  let ?qs = "filter (\<lambda>q. nq_shift_id q \<noteq> i) (pd_quotas (sf_planning d)) @ ?new"
  have d': "bd_shifts (sf_board d') = bd_shifts (sf_board d)" "sf_templates d' = sf_templates d"
    "pd_quotas (sf_planning d') = ?qs"
    using q sh m by (auto simp: set_shift_quotas_def audit_shift_def set_board_def audit_board_def split: if_split_asm)
  have mem: "i \<in> sh_id ` set (bd_shifts (sf_board d))"
    using sh unfolding shift_of_def find_Some_iff by (metis image_eqI nth_mem)
  note checked = check_quotas_ok [OF m]
  have "quota_ok (bd_shifts (sf_board d)) q" if "q \<in> set ?qs" for q
    using that shifts_okD(5) [OF ok] checked mem by (fastforce simp: quota_ok_def)
  moreover have keys: "map (\<lambda>q. (nq_shift_id q, nq_node_id q)) ?new = map (Pair i) (map fst qs)"
    by (simp add: case_prod_beta)
  have "distinct (map (Pair i) (map fst qs))" using checked by (simp add: distinct_map inj_on_def)
  then have "distinct (map (\<lambda>q. (nq_shift_id q, nq_node_id q)) ?qs)"
    using shifts_okD(6) [OF ok] unfolding map_append keys distinct_append by (auto simp: distinct_map_filter)
  ultimately show ?thesis using shifts_okD(1-4) [OF ok] unfolding shifts_ok_def d' list_all_iff by blast
qed

lemma shift_step_ok:
  assumes "shifts_ok d" "shift_step d d'"
  shows "shifts_ok d'"
  using assms(2,1)
proof (induction rule: shift_step.induct)
  case (sf_generate d ids t a b u new d')
  then show ?case using generate_ok(1) [of d ids 0 t a b u new d'] by simp
next
  case (sf_roll d ids h today u n d')
  then show ?case using roll_ok [of ids today "today + (h - 1)" u _ 0 d n d'] by (auto simp: roll_horizon_def)
qed (blast intro: create_shift_ok update_shift_ok set_shift_active_ok delete_shift_ok create_template_ok
    update_template_ok delete_template_ok set_quotas_ok same_shifts_ok)+

interpretation shift_tables: invariant_system no_shifts shift_step shifts_ok
proof
  fix d assume "no_shifts d"
  then show "shifts_ok d" by (simp add: no_shifts_def shifts_ok_def)
qed (rule shift_step_ok)

section \<open>Shares\<close>

lemma bump:
  assumes "distinct js" "set js \<subseteq> {..<length xs}"
  shows "length (fold (\<lambda>i ys. ys[i := ys ! i + 1]) js xs) = length xs
    \<and> (\<forall>k < length xs. fold (\<lambda>i ys. ys[i := ys ! i + 1]) js xs ! k = xs ! k + (if k \<in> set js then 1 else (0 :: int)))"
  using assms
proof (induction js arbitrary: xs)
  case (Cons j js)
  have "set js \<subseteq> {..<length (xs[j := xs ! j + 1])}" "distinct js" using Cons.prems by simp_all
  from Cons.IH [OF this(2,1)] show ?case using Cons.prems by (auto simp: nth_list_update)
qed simp

lemma top_fractions:
  fixes frac :: "nat \<Rightarrow> rat"
  assumes perm: "mset order = mset [0..<n]" and sorted: "sorted (map (\<lambda>i. - frac i) order)"
    and le1: "\<And>i. frac i \<le> 1" and r: "of_nat r \<le> sum_list (map frac [0..<n])" and j: "j \<in> set (take r order)"
  shows "0 < frac j"
proof (rule ccontr)
  assume neg: "\<not> 0 < frac j"
  obtain p where p: "p < length order" "p < r" "j = order ! p"
    using j by (metis in_set_conv_nth length_take min_less_iff_conj nth_take)
  have "frac i \<le> 0" if i: "i \<in> set (drop p order)" for i
  proof -
    obtain q where q: "q < length order - p" "i = order ! (p + q)"
      using i p(1) by (auto simp: in_set_conv_nth)
    then have "- frac j \<le> - frac i"
      using sorted_nth_mono [OF sorted, of p "p + q"] p(1,3) by simp
    then show ?thesis using neg by simp
  qed
  then have "sum_list (map frac (drop p order)) \<le> sum_list (map (\<lambda>_. 0) (drop p order))" by (rule sum_list_mono)
  then have "sum_list (map frac (drop p order)) \<le> 0" by simp
  moreover have "sum_list (map frac (take p order)) \<le> sum_list (map (\<lambda>_. 1) (take p order))"
    by (rule sum_list_mono) (rule le1)
  then have "sum_list (map frac (take p order)) \<le> of_nat p" using p(1) by (simp add: sum_list_triv)
  moreover have "sum_list (map frac order) = sum_list (map frac (take p order)) + sum_list (map frac (drop p order))"
    by (metis append_take_drop_id map_append sum_list.append)
  moreover have "sum_list (map frac order) = sum_list (map frac [0..<n])"
    using perm by (metis mset_map sum_mset_sum_list)
  ultimately have "(of_nat r :: rat) \<le> of_nat p" using r by linarith
  then show False using p(2) by simp
qed

lemma sum_bump1: "j < length xs \<Longrightarrow> sum_list (xs[j := xs ! j + c]) = sum_list xs + c" for c :: int
proof (induction xs arbitrary: j)
  case (Cons x xs)
  then show ?case by (cases j) auto
qed simp

lemma sum_bump:
  "set js \<subseteq> {..<length xs} \<Longrightarrow> sum_list (fold (\<lambda>i ys. ys[i := ys ! i + 1]) js xs) = sum_list xs + int (length js)"
proof (induction js arbitrary: xs)
  case (Cons j js)
  then show ?case using Cons.IH [of "xs[j := xs ! j + 1]"] by (simp add: sum_bump1)
qed simp

text \<open>The share that a weight has of a count, before rounding; without weights all shares are equal.\<close>

definition exact_share :: "int \<Rightarrow> int list \<Rightarrow> int \<Rightarrow> decimal" where
  "exact_share required_count weights w = (if sum_list weights = 0 then of_int required_count / of_nat (length weights)
     else of_int (required_count * w) / of_int (sum_list weights))"

lemma even_shares:
  fixes r :: int
  assumes "0 < n"
  shows "(\<Sum>i \<leftarrow> [0..<n]. r div int n + (if int i < r mod int n then 1 else 0)) = r"
proof -
  have "(\<Sum>i \<leftarrow> [0..<m]. if int i < k then 1 else 0) = min (int m) (max 0 k)" for m and k :: int
    by (induction m) auto
  then have "(\<Sum>i \<leftarrow> [0..<n]. if int i < r mod int n then 1 else 0) = r mod int n"
    using assms pos_mod_bound [of "int n" r] pos_mod_sign [of "int n" r] by simp
  then show ?thesis by (simp add: sum_list_addf sum_list_triv)
qed

lemma near_floor: "\<bar>of_int \<lfloor>x\<rfloor> - x\<bar> < 1" for x :: rat
  using floor_correct [of x] by auto

lemma near_next: "of_int \<lfloor>x\<rfloor> < x \<Longrightarrow> \<bar>of_int (\<lfloor>x\<rfloor> + 1) - x\<bar> < 1" for x :: rat
  using floor_correct [of x] by auto

lemma even_near:
  fixes r :: int
  assumes "0 < n" "i < n"
  shows "\<bar>of_int (r div int n + (if int i < r mod int n then 1 else 0)) - of_int r / rat_of_nat n\<bar> < 1"
proof -
  let ?q = "of_int r / rat_of_nat n"
  have f: "\<lfloor>?q\<rfloor> = r div int n" using floor_divide_of_int_eq [of r "int n"] by simp
  show ?thesis
  proof (cases "int i < r mod int n")
    case True
    then have "r div int n * int n < r" using div_mult_mod_eq [of r "int n"] by linarith
    then have "rat_of_int (r div int n * int n) < of_int r" by (simp only: of_int_less_iff)
    then have "of_int \<lfloor>?q\<rfloor> < ?q"
      using assms(1) unfolding f of_int_mult of_int_of_nat_eq by (simp only: pos_less_divide_eq of_nat_0_less_iff)
    then show ?thesis using near_next [of ?q] True by (simp add: f)
  qed (use near_floor [of ?q] in \<open>simp add: f\<close>)
qed

lemma sum_of_ints: "(\<Sum>x \<leftarrow> xs. rat_of_int x) = of_int (sum_list xs)"
  by (induction xs) simp_all

lemma remainder_shares:
  fixes weights :: "int list" and r :: int
  assumes W: "sum_list weights \<noteq> 0"
  defines "raw \<equiv> map (\<lambda>w. of_int (r * w) / of_int (sum_list weights) :: rat) weights"
  defines "order \<equiv> sort_key (\<lambda>i. - (raw ! i - of_int (map floor raw ! i))) [0..<length weights]"
    and "k \<equiv> nat (r - sum_list (map floor raw))"
  defines "xs \<equiv> fold (\<lambda>i ys. ys[i := ys ! i + 1]) (take k order) (map floor raw)"
  shows "sum_list xs = r" "length xs = length weights" "i < length weights \<Longrightarrow> \<bar>of_int (xs ! i) - raw ! i\<bar> < 1"
proof -
  let ?n = "length weights" and ?frac = "\<lambda>i. raw ! i - of_int (map floor raw ! i)"
  have len: "length raw = ?n" by (simp add: raw_def)
  have fr: "0 \<le> ?frac i" "?frac i < 1" if "i < ?n" for i
    using floor_correct [of "raw ! i"] that len by (auto simp: algebra_simps)
  have "(\<Sum>w \<leftarrow> ws. of_int (r * w) / c) = of_int (r * sum_list ws) / c" for ws and c :: rat
    by (induction ws) (simp_all add: add_divide_distrib distrib_left)
  then have "sum_list raw = of_int (r * sum_list weights) / of_int (sum_list weights)" unfolding raw_def by blast
  then have total: "sum_list raw = of_int r" using W by simp
  have perm: "mset order = mset [0..<?n]" by (simp add: order_def)
  have dist: "distinct (take k order)" by (simp add: order_def)
  have sub: "set (take k order) \<subseteq> {..<length (map floor raw)}"
    using set_take_subset [of k order] by (auto simp: order_def len)
  have fracs: "sum_list (map ?frac [0..<?n]) = of_int (r - sum_list (map floor raw))"
  proof -
    have "sum_list (map ?frac [0..<?n]) = (\<Sum>i \<leftarrow> [0..<?n]. raw ! i) - (\<Sum>i \<leftarrow> [0..<?n]. of_int (map floor raw ! i))"
      by (rule sum_list_subtractf)
    also have "map ((!) raw) [0..<?n] = raw" using map_nth [of raw] len by simp
    also have "map (\<lambda>i. rat_of_int (map floor raw ! i)) [0..<?n] = map of_int (map floor raw)"
      by (rule nth_equalityI) (simp_all add: len)
    also have "sum_list (map rat_of_int (map floor raw)) = of_int (sum_list (map floor raw))" by (rule sum_of_ints)
    finally show ?thesis using total by simp
  qed
  have "0 \<le> sum_list (map ?frac [0..<?n])" by (rule sum_list_nonneg) (use fr in auto)
  then have k: "int k = r - sum_list (map floor raw)" unfolding fracs k_def by simp
  have "sum_list (map ?frac [0..<?n]) \<le> sum_list (map (\<lambda>_. 1) [0..<?n])"
    by (rule sum_list_mono) (use fr in \<open>auto intro: less_imp_le\<close>)
  then have "(of_int (int k) :: rat) \<le> of_nat ?n" unfolding fracs k [symmetric] by (simp add: sum_list_triv)
  then have kn: "length (take k order) = k" by (simp add: order_def)
  show "sum_list xs = r" using sum_bump [OF sub] kn k by (simp add: xs_def)
  note b = bump [OF dist sub]
  show "length xs = length weights" using b by (simp add: xs_def len)
  show "\<bar>of_int (xs ! i) - raw ! i\<bar> < 1" if i: "i < length weights"
  proof -
    have x: "xs ! i = \<lfloor>raw ! i\<rfloor> + (if i \<in> set (take k order) then 1 else 0)" using b i by (simp add: xs_def len)
    show ?thesis
    proof (cases "i \<in> set (take k order)")
      case True
      let ?f = "\<lambda>i. if i < ?n then ?frac i else 0"
      have same: "map ?f [0..<?n] = map ?frac [0..<?n]" by simp
      have "map (\<lambda>i. - ?f i) order = map (\<lambda>i. - ?frac i) order" by (rule map_cong) (simp_all add: order_def)
      moreover have "sorted (map (\<lambda>i. - ?frac i) order)" unfolding order_def by (rule sorted_sort_key)
      ultimately have "sorted (map (\<lambda>i. - ?f i) order)" by (simp only:)
      moreover have "?f j \<le> 1" for j using fr(2) [of j] by (simp add: less_imp_le)
      moreover have "of_nat k \<le> sum_list (map ?f [0..<?n])" unfolding same fracs k [symmetric] by simp
      ultimately have "0 < ?f i" using top_fractions [OF perm, of ?f k i] True by blast
      then show ?thesis using x True i near_next [of "raw ! i"] len by simp
    qed (use x near_floor [of "raw ! i"] in \<open>simp\<close>)
  qed
qed

section \<open>Samples\<close>

definition shift_db0 :: shift_db where
  "shift_db0 = \<lparr>sf_planning = \<lparr>pd_scores = \<lparr>sd_board = sample_board, sd_nodes = map (\<lambda>i. \<lparr>n_id = i, n_level = ''team'',
         n_name = ''n'', n_parent_id = None, n_commander_id = None, n_path_ids = [i]\<rparr>) [10, 11],
       sd_adjustments = [], sd_settings = \<lparr>ss_standby_multiplier = None, ss_called_up_multiplier = None,
         ss_dismissed_multiplier = None, ss_reset_date = None, ss_reset_overrides = []\<rparr>\<rparr>,
       pd_links = [], pd_quotas = [], pd_raw = (\<lambda>_. [])\<rparr>, sf_templates = []\<rparr>"

definition sample_template :: ShiftTemplate where
  "sample_template = \<lparr>tp_id = 70, tp_type_id = 31, tp_location_id = 32, tp_weekdays = [7, 1, 7], tp_start_time = ''08:00'',
     tp_end_time = ''20:00'', tp_required_count = 2, tp_active = False, tp_auto_roll = True, tp_auto_roll_until = None,
     tp_recurrence_type = ''weekly'', tp_duration_days = 1, tp_eligible_node_ids = None\<rparr>"

definition shift_db1 :: shift_db where "shift_db1 = projr (create_template shift_db0 sample_template 700000 None)"
definition stored_template :: ShiftTemplate where "stored_template = hd (sf_templates shift_db1)"
definition shift_db2 :: shift_db where
  "shift_db2 = snd (generate_shifts shift_db1 (\<lambda>k. 50 + k) stored_template 700000 700013 None)"
definition shift_db3 :: shift_db where "shift_db3 = projr (set_shift_quotas shift_db2 50 [(10, 1), (11, 1)] None)"

lemma Inr_projr_sum: "\<not> isl x \<Longrightarrow> x = Inr (projr x)"
  by (cases x) simp_all

lemma sample_shifts_reachable: "reachable no_shifts shift_step shift_db3"
proof -
  have "reachable no_shifts shift_step shift_db0"
    by (rule reachable_start) (simp add: no_shifts_def shift_db0_def sample_board_def)
  moreover have "shift_step shift_db0 shift_db1"
    unfolding shift_db1_def by (rule sf_create_template [OF Inr_projr_sum]; code_simp)
  moreover have "shift_step shift_db1 shift_db2"
  proof (rule sf_generate)
    show "generate_shifts shift_db1 (\<lambda>k. 50 + k) stored_template 700000 700013 None
        = (fst (generate_shifts shift_db1 (\<lambda>k. 50 + k) stored_template 700000 700013 None), shift_db2)"
      by (simp add: shift_db2_def)
    show "stored_template \<in> set (sf_templates shift_db1)"
      unfolding stored_template_def by (rule hd_in_set) code_simp
    have "bd_shifts (sf_board shift_db1) = []" by code_simp
    then show "fresh_shift_ids shift_db1 (\<lambda>k. 50 + k) 0" by (simp add: fresh_shift_ids_def inj_def)
  qed
  moreover have "shift_step shift_db2 shift_db3"
    unfolding shift_db3_def by (rule sf_quotas [OF Inr_projr_sum]) code_simp
  ultimately show ?thesis by (blast intro: reachable_step)
qed

text \<open>Lowering the count of a shift leaves quotas that add up to more; times are compared as texts.\<close>

lemma quotas_outgrow_shift:
  "(case update_shift shift_db3 (hd (bd_shifts (sf_board shift_db3))) None None (Some 1) None None None of
      Inl _ \<Rightarrow> False
    | Inr d \<Rightarrow> sum_list (map nq_count (pd_quotas (sf_planning d))) = 2
        \<and> map sh_required_count (filter (\<lambda>sh. sh_id sh = 50) (bd_shifts (sf_board d))) = [1])"
  by code_simp

lemma short_hour_refused:
  "validate_template (sample_template\<lparr>tp_start_time := ''9:00'', tp_end_time := ''10:00''\<rparr>) 700000 = Some Invalid_time_order"
  by code_simp

lemma impossible_time_stored:
  "(case create_shift shift_db0 50 31 32 700000 700002 (Some ''45:99'') (Some ''23:59'') 1 None None None of
      Inl _ \<Rightarrow> False | Inr d \<Rightarrow> list_ex (\<lambda>sh. \<not> valid_clock (sh_start_time sh)) (bd_shifts (sf_board d)))"
  by code_simp

lemma update_shortens_template:
  "tp_duration_days (updated_template \<lparr>up_recurrence_type = None, up_weekdays = None, up_duration_days = None,
      up_start_time = None, up_end_time = None, up_required_count = None, up_auto_roll = Some True,
      up_auto_roll_until = None, up_active = None, up_eligible_node_ids = None\<rparr>
    (sample_template\<lparr>tp_recurrence_type := ''daily'', tp_duration_days := 3\<rparr>)) = 1
   \<and> validate_template (sample_template\<lparr>tp_recurrence_type := ''daily'', tp_duration_days := 3\<rparr>) 700000 = None"
  by code_simp

section \<open>Properties\<close>

text \<open>
  C29. The tables of shifts stay sound.  Whatever shifts, templates and quotas are created,
  changed, deleted and generated, in whatever order, every shift is at least one day long and
  asks for somebody, every template is one that validation accepts (of one-day templates also that
  the end comes after the start), but for the day its rolling ends, which may pass; a shift
  refers to a template that exists, and the quotas of a shift that exists are positive with one per node.
\<close>

theorem shift_tables_sound:
  assumes "reachable no_shifts shift_step d"
  shows "shifts_ok d"
  by (rule shift_tables.reachable_good [OF assms])

lemma shift_tables_sound_witness:
  "shifts_ok shift_db3 \<and> length (bd_shifts (sf_board shift_db3)) = 4 \<and> length (pd_quotas (sf_planning shift_db3)) = 2"
  using shift_tables_sound [OF sample_shifts_reachable] by (intro conjI; (assumption | code_simp))

text \<open>
  C30. Generating shifts from a template is exact and idempotent.  Afterwards every day of the
  range on which the template recurs has a shift of it, the old one where there was one, no
  other day has gained any, and a second generation of the same range creates none.
\<close>

theorem generation_once:
  assumes "generate_shifts d ids t a b u = (new, d')"
  shows "length (shifts_on d' (tp_id t) day) = (if day \<in> set (template_dates t a b)
      then max 1 (length (shifts_on d (tp_id t) day)) else length (shifts_on d (tp_id t) day))
    \<and> generate_shifts d' ids' t a b v = ([], d')"
  using generate_counts [OF assms] nothing_missing [OF generate_again [OF assms]] by blast

lemma generation_once_witness:
  "length (shifts_on shift_db2 70 700007) = (if 700007 \<in> set (template_dates stored_template 700000 700013)
      then max 1 (length (shifts_on shift_db1 70 700007)) else length (shifts_on shift_db1 70 700007))
    \<and> generate_shifts shift_db2 (\<lambda>k. 90 + k) stored_template 700000 700013 None = ([], shift_db2)
    \<and> length (bd_shifts (sf_board shift_db2)) = 4"
proof -
  have g: "generate_shifts shift_db1 (\<lambda>k. 50 + k) stored_template 700000 700013 None
      = (fst (generate_shifts shift_db1 (\<lambda>k. 50 + k) stored_template 700000 700013 None), shift_db2)"
    by (simp add: shift_db2_def)
  have "tp_id stored_template = 70" "length (bd_shifts (sf_board shift_db2)) = 4" by code_simp+
  then show ?thesis using generation_once [OF g, of 700007] by simp
qed

text \<open>A rolling horizon that is run again on the same day creates nothing.\<close>

lemma roll_templates: "fold (roll_one ids base e u) ts (n, d) = (n', d') \<Longrightarrow> sf_templates d' = sf_templates d"
proof (induction ts arbitrary: n d)
  case (Cons t ts)
  obtain m x where r: "roll_one ids base e u t (n, d) = (m, x)" by fastforce
  have "sf_templates x = sf_templates d"
    using r generated(2) by (auto simp: roll_one_def Let_def split: if_split_asm prod.splits)
  then show ?case using Cons.IH [of m x] Cons.prems r by simp
qed simp

lemma roll_once:
  assumes "roll_horizon d ids h today u = (n, d')"
  shows "roll_horizon d' ids' h today v = (0, d')"
proof -
  note r = assms [unfolded roll_horizon_def]
  have "sf_templates d' = sf_templates d" by (rule roll_templates [OF r])
  then show ?thesis using roll_rolled [OF r] roll_nothing unfolding roll_horizon_def by metis
qed

text \<open>
  C31. A split is fair and complete: the shares of the largest remainder method add up to the
  places asked for, there is one for each node, and each differs from the node's exact
  proportional share by less than one.
\<close>

theorem quota_shares_fair:
  assumes "weights \<noteq> []"
  shows "sum_list (largest_remainder_shares r weights) = r
    \<and> list_all2 (\<lambda>w x. \<bar>of_int x - exact_share r weights w\<bar> < 1) weights (largest_remainder_shares r weights)"
proof (cases "sum_list weights = 0")
  case True
  have n: "0 < length weights" using assms by simp
  show ?thesis
    using even_shares [OF n, of r] even_near [OF n]
    by (simp add: largest_remainder_shares_def True exact_share_def list_all2_conv_all_nth Let_def
      del: of_int_add)
next
  case False
  let ?raw = "map (\<lambda>w. of_int (r * w) / of_int (sum_list weights) :: rat) weights"
  have shares: "largest_remainder_shares r weights = fold (\<lambda>i ys. ys[i := ys ! i + 1])
      (take (nat (r - sum_list (map floor ?raw))) (sort_key (\<lambda>i. - (?raw ! i - of_int (map floor ?raw ! i)))
        [0..<length weights])) (map floor ?raw)"
    unfolding largest_remainder_shares_def Let_def if_not_P [OF False] ..
  note f = remainder_shares [OF False, where r = r]
  have "\<bar>of_int (largest_remainder_shares r weights ! i) - exact_share r weights (weights ! i)\<bar> < 1"
    if i: "i < length weights" for i
  proof -
    have "?raw ! i = exact_share r weights (weights ! i)" using i False by (simp add: exact_share_def)
    then show ?thesis using f(3) [OF i] unfolding shares by (simp only:)
  qed
  then show ?thesis using f(1,2) unfolding list_all2_conv_all_nth shares by (simp only:) blast
qed

lemma quota_shares_fair_witness:
  "sum_list (largest_remainder_shares 7 [3, 0, 5]) = 7
    \<and> list_all2 (\<lambda>w x. \<bar>of_int x - exact_share 7 [3, 0, 5] w\<bar> < 1) [3, 0, 5] (largest_remainder_shares 7 [3, 0, 5])"
  by (rule quota_shares_fair) simp

end
