(* ===== verification/EffortSound.thy ===== *)
theory EffortSound
  imports Effort
begin

text \<open>
  What the efforts rest on: the quarters of the past tile it, shares lie between nothing and
  all, and planned duties keep their scores when they are spread over the quarters.
\<close>

section \<open>Quarters of the past\<close>

text \<open>
  The quarters tile the past.  A day from the reset date to the day before the planning
  starts lies in exactly one of the tracked quarters of the past, its calendar quarter cut to
  these days; any other day lies in none.
\<close>

theorem past_quarters_tile:
  "filter (\<lambda>q. fst q \<le> d \<and> d \<le> snd q) (past_quarters reset_date planning_start)
    = (if reset_date \<le> d \<and> d < planning_start
       then [(max (quarter_start d) reset_date, min (quarter_end d) (planning_start - 1))] else [])"
proof (cases "reset_date \<le> d \<and> d < planning_start")
  case True
  let ?xs = "quarters_until (quarter_start reset_date) planning_start"
  have "filter (\<lambda>q. max q reset_date \<le> d \<and> d \<le> min (quarter_end q) (planning_start - 1)) ?xs = [quarter_start d]"
  proof (rule filter_singleton)
    show "distinct ?xs" by (simp add: distinct_quarters_until)
    show "quarter_start d \<in> set ?xs" using True quarter_start_mono [of reset_date d] quarter_contains(1) [of d]
      by (simp add: set_quarters_until)
    show "max (quarter_start d) reset_date \<le> d \<and> d \<le> min (quarter_end (quarter_start d)) (planning_start - 1)"
      using True quarter_contains [of d] same_quarter_iff [of d "quarter_start d"] by simp
    fix q assume "q \<in> set ?xs" "max q reset_date \<le> d \<and> d \<le> min (quarter_end q) (planning_start - 1)"
    then show "q = quarter_start d" using same_quarter_iff [of d q] by (simp add: set_quarters_until)
  qed
  moreover have "quarter_end (quarter_start d) = quarter_end d"
    by (simp add: quarter_end_index quarter_start_index)
  ultimately show ?thesis using True by (simp add: past_quarters_def filter_map o_def Let_def)
qed (auto simp: past_quarters_def filter_empty_conv Let_def)

section \<open>Shares\<close>

definition shares_ok :: "quarter_scores \<Rightarrow> bool" where
  "shares_ok scores \<longleftrightarrow> (\<forall>q i. 0 \<le> snd scores q i \<and> snd scores q i \<le> fst scores q)"

lemma fold_keeps: "P a \<Longrightarrow> (\<And>x a. x \<in> set xs \<Longrightarrow> P a \<Longrightarrow> P (f x a)) \<Longrightarrow> P (fold f xs a)"
  by (induction xs arbitrary: a) auto

lemma book_shares:
  assumes "shares_ok scores" "0 \<le> score"
  shows "shares_ok (book qs i score scores)"
proof -
  have "0 \<le> snd scores q j" "snd scores q j \<le> fst scores q" for q j using assms(1) by (simp_all add: shares_ok_def)
  then show ?thesis using assms(2) by (auto simp: shares_ok_def book_def intro: add_increasing2)
qed

lemma aggregate_shares:
  assumes "\<And>r. r \<in> set days \<Longrightarrow> 0 \<le> type_score db (fst (snd (snd r))) * snd (snd (snd r))"
    and "\<And>a. a \<in> set adjustments \<Longrightarrow> 0 \<le> sa_delta a" "\<And>q. 0 \<le> planned q"
  shows "shares_ok (aggregate db all_quarters ps pe days adjustments planned)"
proof -
  have "shares_ok (fold (book_day db all_quarters ps pe) days (planned, \<lambda>_ _. 0))"
  proof (rule fold_keeps)
    fix r scores assume "r \<in> set days" "shares_ok scores"
    then show "shares_ok (book_day db all_quarters ps pe r scores)" using assms(1) [of r]
      by (auto simp: book_day_def book_shares split: prod.split option.split)
  qed (use assms(3) in \<open>simp add: shares_ok_def\<close>)
  then show ?thesis unfolding aggregate_def
  proof (rule fold_keeps)
    fix a scores assume "a \<in> set adjustments" "shares_ok scores"
    then show "shares_ok (book_adjustment all_quarters a scores)" using assms(2)
      by (auto simp: book_adjustment_def book_shares split: option.split)
  qed
qed

lemma active_frac_bounds:
  assumes "active_frac own_reset activation q = Some x"
  shows "0 < x" "x \<le> 1"
proof -
  obtain a b where q: "q = (a, b)" by (cases q)
  let ?f = "max a own_reset"
  have h: "?f \<le> b" "max ?f activation \<le> b"
    "x = of_int (b - max ?f activation + 1) / of_int (b - ?f + 1)"
    using assms by (auto simp: active_frac_def q Let_def split: if_split_asm)
  have "(0 :: decimal) < of_int (b - max ?f activation + 1)" using h(2) by (simp only: of_int_0_less_iff)
  moreover have "(of_int (b - max ?f activation + 1) :: decimal) \<le> of_int (b - ?f + 1)"
    by (simp only: of_int_le_iff)
  moreover have "0 < u / v \<and> u / v \<le> 1" if "0 < u" "u \<le> v" for u v :: decimal using that by simp
  ultimately show "0 < x" "x \<le> 1" unfolding h(3) by blast+
qed

lemma weigh_quarters_bounds:
  assumes "shares_ok scores"
  shows "case weigh_quarters scores own_reset s quarters of (A, W) \<Rightarrow> 0 \<le> A \<and> A \<le> W"
  unfolding weigh_quarters_def
proof (rule fold_keeps [where P = "\<lambda>(A, W). 0 \<le> A \<and> A \<le> W"])
  fix q :: "date \<times> date" and aw :: "decimal \<times> decimal" assume aw: "case aw of (A, W) \<Rightarrow> 0 \<le> A \<and> A \<le> W"
  have "0 \<le> snd scores (fst q) (so_id s)" "snd scores (fst q) (so_id s) \<le> fst scores (fst q)"
    using assms by (simp_all add: shares_ok_def)
  then have "0 \<le> snd scores (fst q) (so_id s) * x" "snd scores (fst q) (so_id s) * x \<le> fst scores (fst q) * x"
    if "active_frac own_reset (activation_of s) q = Some x" for x
    using active_frac_bounds(1) [OF that] by (simp_all add: mult_right_mono)
  then show "case weigh_quarter scores own_reset s q aw of (A, W) \<Rightarrow> 0 \<le> A \<and> A \<le> W"
    using aw by (auto simp: weigh_quarter_def intro: add_mono split: option.split)
qed simp

lemma effort_data_bounds:
  assumes "shares_ok scores"
  shows "0 \<le> ed_effort_score (effort_data_of scores own_reset s quarters)
    \<and> ed_effort_score (effort_data_of scores own_reset s quarters) \<le> 1
    \<and> 0 \<le> ed_effort_offset (effort_data_of scores own_reset s quarters)
    \<and> ed_effort_offset (effort_data_of scores own_reset s quarters) \<le> EFFORT_SCALE"
proof -
  obtain A W where aw: "weigh_quarters scores own_reset s quarters = (A, W)" by fastforce
  then have "0 \<le> A" "A \<le> W" using weigh_quarters_bounds [OF assms, of own_reset s quarters] by simp_all
  then have e: "0 \<le> ed_effort_score (effort_data_of scores own_reset s quarters)"
    "ed_effort_score (effort_data_of scores own_reset s quarters) \<le> 1"
    by (auto simp: effort_data_of_def aw Let_def divide_le_eq_1)
  have off: "ed_effort_offset (effort_data_of scores own_reset s quarters)
      = py_int (ed_effort_score (effort_data_of scores own_reset s quarters) * of_int EFFORT_SCALE)"
    by (simp add: effort_data_of_def aw Let_def)
  have "py_int (ed_effort_score (effort_data_of scores own_reset s quarters) * of_int EFFORT_SCALE)
      \<le> py_int (of_int EFFORT_SCALE)"
    by (rule py_int_mono) (use e in \<open>simp add: EFFORT_SCALE_def\<close>)
  moreover have "0 \<le> py_int (ed_effort_score (effort_data_of scores own_reset s quarters) * of_int EFFORT_SCALE)"
    using e by (intro py_int_nonneg mult_nonneg_nonneg) (simp_all add: EFFORT_SCALE_def)
  ultimately show ?thesis unfolding off using e by simp
qed

lemma compute_effort_rows_map:
  "compute_effort_rows scores resets quarters ss
    = map (\<lambda>s. (so_id s, effort_data_of scores (the (map_of resets (so_id s))) s quarters)) ss"
  by (induction ss) auto

section \<open>Planned duties\<close>

lemma sum_dict_add: "(\<Sum>p \<leftarrow> dict_add k x d. snd p) = x + (\<Sum>p \<leftarrow> d. snd p)"
  by (induction k x d rule: dict_add.induct) auto

lemma sum_dict_add_days:
  "(\<Sum>p \<leftarrow> fold (\<lambda>day. dict_add (f day) x) days d. snd p) = of_nat (length days) * x + (\<Sum>p \<leftarrow> d. snd p)"
  by (induction days arbitrary: d) (auto simp: sum_dict_add algebra_simps)

text \<open>
  Planned work is not lost.  Spread over the quarters of their days, the planned duties
  keep their total: together the quarters get, for every duty with a day, its score per day
  times the days that count for its length.
\<close>

theorem pending_scores_total:
  "(\<Sum>p \<leftarrow> pending_quarter_scores duties. snd p)
    = (\<Sum>d \<leftarrow> filter (\<lambda>d. d_start_date d < d_end_date d) duties. d_score_per_day d
        * of_int (score_days (d_start_date d) (d_end_date d) (d_start_time d) (d_end_time d)))"
proof -
  define score where "score d = d_score_per_day d
    * of_int (score_days (d_start_date d) (d_end_date d) (d_start_time d) (d_end_time d))" for d :: DutyBlock
  have days: "(of_int (d_end_date d) - of_int (d_start_date d)) * per_day_score d = score d"
    if "d_start_date d < d_end_date d" for d :: DutyBlock
  proof -
    have "(of_int (d_end_date d) - of_int (d_start_date d) :: decimal) \<noteq> 0" using that by simp
    then show ?thesis by (simp add: per_day_score_def score_def calendar_days_touched_def)
  qed
  have "(\<Sum>p \<leftarrow> spread_duty d b. snd p)
      = (if d_start_date d < d_end_date d then score d else 0) + (\<Sum>p \<leftarrow> b. snd p)" for d b
    by (simp add: spread_duty_def calendar_days_touched_def sum_dict_add_days days)
  then have "(\<Sum>p \<leftarrow> fold spread_duty duties b. snd p)
    = (\<Sum>d \<leftarrow> filter (\<lambda>d. d_start_date d < d_end_date d) duties. score d) + (\<Sum>p \<leftarrow> b. snd p)" for b
    by (induction duties arbitrary: b) simp_all
  from this [of "[]"] show ?thesis by (simp add: pending_quarter_scores_def score_def)
qed

section \<open>The efforts of a run\<close>

definition scores_nonneg :: "score_db \<Rightarrow> bool" where
  "scores_nonneg db \<longleftrightarrow> list_all (\<lambda>t. 0 \<le> dt_score_per_day t) (bd_duty_types (sd_board db))
     \<and> list_all (\<lambda>a. 0 \<le> default (da_forced_multiplier a) 0) (bd_assignments (sd_board db))
     \<and> list_all (\<lambda>a. 0 \<le> sa_delta a) (sd_adjustments db)
     \<and> 0 \<le> default (ss_standby_multiplier (sd_settings db)) 0
     \<and> 0 \<le> default (ss_called_up_multiplier (sd_settings db)) 0
     \<and> 0 \<le> default (ss_dismissed_multiplier (sd_settings db)) 0"

lemma duty_day_row_nonneg:
  assumes "scores_nonneg db" "a \<in> set (bd_assignments (sd_board db))" "duty_day_row db vs ds a day = Some r"
  shows "0 \<le> dd_weighted r"
proof -
  have "0 \<le> default (da_forced_multiplier a) 0" using assms(1,2) by (simp add: scores_nonneg_def list_all_iff)
  then have "0 \<le> fst (multiplier_of db a day x)" for x
    using assms(1) by (auto simp: multiplier_of_def scores_nonneg_def default_def split: option.splits if_splits)
  moreover have "0 \<le> day_weight_of a"
    using score_days_ge_1 [of "da_start_date a" "da_end_date a" "da_start_time a" "da_end_time a"]
    by (simp add: day_weight_of_def Let_def)
  ultimately show ?thesis using assms(3)
    by (auto simp: duty_day_row_def Let_def case_prod_beta split: option.splits)
qed

lemma type_score_nonneg: "scores_nonneg db \<Longrightarrow> 0 \<le> type_score db i"
  by (auto simp: type_score_def scores_nonneg_def list_all_iff find_Some_iff split: option.split)

lemma effort_days_nonneg:
  assumes "scores_nonneg db" "r \<in> set (duty_days_for_effort db d drafts ex)"
  shows "0 \<le> type_score db (fst (snd (snd r))) * snd (snd (snd r))"
proof -
  have "\<exists>row. 0 \<le> dd_weighted row \<and> r = day_tuple row"
    using assms(2) duty_day_row_nonneg [OF assms(1)]
    by (auto simp: duty_days_for_effort_def effective_duty_days_def effective_duty_days_with_drafts_def
        effective_duty_day_rows_def selected_assignments_def set_map_filter_Some Let_def split: if_split_asm) blast+
  then show ?thesis using type_score_nonneg [OF assms(1)] by (auto simp: day_tuple_def)
qed

definition dict_nonneg :: "(date, decimal) dict \<Rightarrow> bool" where
  "dict_nonneg d \<longleftrightarrow> list_all (\<lambda>p. 0 \<le> snd p) d"

lemma dict_nonneg_add: "dict_nonneg d \<Longrightarrow> 0 \<le> x \<Longrightarrow> dict_nonneg (dict_add k x d)"
  unfolding dict_nonneg_def by (induction k x d rule: dict_add.induct) auto

lemma dict_nonneg_days:
  "dict_nonneg d \<Longrightarrow> 0 \<le> x \<Longrightarrow> dict_nonneg (fold (\<lambda>day. dict_add (f day) x) days d)"
  by (rule fold_keeps [where P = dict_nonneg]) (simp_all add: dict_nonneg_add)

lemma pending_scores_nonneg:
  assumes "list_all (\<lambda>d. 0 \<le> d_score_per_day d) duties"
  shows "dict_nonneg (pending_quarter_scores duties)"
  unfolding pending_quarter_scores_def
proof (rule fold_keeps)
  fix d :: DutyBlock and b assume d: "d \<in> set duties" "dict_nonneg b"
  have "0 \<le> per_day_score d" if "d_start_date d < d_end_date d"
    using that assms d(1) score_days_ge_1 [of "d_start_date d" "d_end_date d" "d_start_time d" "d_end_time d"]
    by (auto simp: per_day_score_def calendar_days_touched_def list_all_iff intro!: mult_nonneg_nonneg divide_nonneg_nonneg)
  then show "dict_nonneg (spread_duty d b)"
    using d(2) by (simp add: spread_duty_def calendar_days_touched_def dict_nonneg_days)
qed (simp add: dict_nonneg_def)

lemma merge_pending_nonneg:
  assumes "dict_nonneg planned"
  shows "0 \<le> snd (merge_pending planned quarters) q"
proof -
  have "\<forall>q. 0 \<le> snd (merge_pending planned quarters) q"
    unfolding merge_pending_def
    by (rule fold_keeps [where P = "\<lambda>x. \<forall>q. 0 \<le> snd x q"])
      (use assms in \<open>auto simp: dict_nonneg_def list_all_iff split: prod.split option.split\<close>)
  then show ?thesis ..
qed

end
