(* ===== verification/Efforts.thy ===== *)
theory Efforts
  imports EffortSound Samples
begin

text \<open>
  Properties of the efforts of a planning run: their bounds, their sum over a unit, the
  breakdown that explains them, and the range in which the solver finds them.
\<close>

section \<open>Bounds\<close>

lemma compute_effort_dataE:
  assumes "compute_effort_data db today ss ps pe reset duties drafts ex = Inr rows"
  obtains resets days all_quarters planned where
    "(case reset of Some d \<Rightarrow> Inr (map (\<lambda>s. (so_id s, d)) ss)
        | None \<Rightarrow> resolve_reset_dates_for_soldiers db today ss) = Inr resets"
    "days = duty_days_for_effort db (case reset of Some d \<Rightarrow> d | None \<Rightarrow> earliest_configured_reset_date db today) drafts ex"
    "merge_pending (pending_quarter_scores duties)
       (past_quarters (case reset of Some d \<Rightarrow> d | None \<Rightarrow> earliest_configured_reset_date db today) ps
         @ build_future_quarters (map fst days) pe) = (all_quarters, planned)"
    "rows = map (\<lambda>s. (so_id s, effort_data_of (aggregate db all_quarters ps pe days (sd_adjustments db) planned)
       (the (map_of resets (so_id s))) s all_quarters)) ss"
  using assms
  by (simp add: compute_effort_data_def Let_def compute_effort_rows_map split: sum.splits prod.splits)

text \<open>
  A share is a share.  When no score, multiplier or adjustment is negative, the effort of
  every soldier lies between zero and one, and so does its rounding for the solver between
  zero and the scale.
\<close>

theorem effort_is_share:
  assumes "compute_effort_data db today ss ps pe reset duties drafts ex = Inr rows"
    and "scores_nonneg db" "list_all (\<lambda>d. 0 \<le> d_score_per_day d) duties"
  shows "list_all (\<lambda>r. 0 \<le> ed_effort_score (snd r) \<and> ed_effort_score (snd r) \<le> 1
    \<and> 0 \<le> ed_effort_offset (snd r) \<and> ed_effort_offset (snd r) \<le> EFFORT_SCALE) rows"
proof (rule compute_effort_dataE [OF assms(1)], goal_cases)
  case (1 resets days all_quarters planned)
  have "0 \<le> planned q" for q
    using merge_pending_nonneg [OF pending_scores_nonneg [OF assms(3)]] 1(3) by (metis snd_conv)
  then have "shares_ok (aggregate db all_quarters ps pe days (sd_adjustments db) planned)"
    by (rule aggregate_shares [rotated 2])
      (use assms(2) effort_days_nonneg [OF assms(2)] 1(2) in \<open>auto simp: scores_nonneg_def list_all_iff\<close>)
  then show ?case unfolding 1(4) by (simp add: list_all_iff effort_data_bounds)
qed

definition effort_db :: score_db where
  "effort_db = sample_score_db\<lparr>sd_adjustments := [\<lparr>sa_soldier_id = 5, sa_delta = 2, sa_created_on = 700001\<rparr>]\<rparr>"

definition effort_soldier :: Soldier where
  "effort_soldier = sample_private\<lparr>so_enrolled_at := 699000\<rparr>"

lemma reset_given: "\<exists>rows. compute_effort_data db today ss ps pe (Some d) duties drafts ex = Inr rows"
  by (simp add: compute_effort_data_def Let_def split: prod.split)

lemma sample_scores_nonneg: "scores_nonneg effort_db"
  by (simp add: scores_nonneg_def effort_db_def sample_score_db_def sample_board_def sample_duty_row_def
      sample_primary_def sample_score_settings_def default_def)

lemma effort_is_share_witness:
  "\<exists>rows. compute_effort_data effort_db 700020 [effort_soldier] 700020 700030 (Some 700000) [] False [] = Inr rows
    \<and> list_all (\<lambda>r. 0 \<le> ed_effort_score (snd r) \<and> ed_effort_score (snd r) \<le> 1
      \<and> 0 \<le> ed_effort_offset (snd r) \<and> ed_effort_offset (snd r) \<le> EFFORT_SCALE) rows"
proof -
  obtain rows where "compute_effort_data effort_db 700020 [effort_soldier] 700020 700030 (Some 700000) [] False []
    = Inr rows" using reset_given by blast
  with effort_is_share [OF this sample_scores_nonneg] show ?thesis by simp
qed

section \<open>The breakdown\<close>

lemma resolve_reset_dates_map:
  assumes "resolve_reset_dates_for_soldiers db today ss = Inr resets" "s \<in> set ss" "distinct (map so_id ss)"
  shows "reset_date_of db today s = Inr (the (map_of resets (so_id s)))"
  using assms
proof (induction ss arbitrary: resets)
  case (Cons x ss)
  then obtain d rest where "reset_date_of db today x = Inr d" "resolve_reset_dates_for_soldiers db today ss = Inr rest"
    "resets = (so_id x, d) # rest" by (auto split: sum.splits)
  then show ?case using Cons by (auto simp: image_iff)
qed simp

lemma map_of_ids: "s \<in> set ss \<Longrightarrow> distinct (map so_id ss) \<Longrightarrow> map_of (map (\<lambda>s. (so_id s, f s)) ss) (so_id s) = Some (f s)"
  by (induction ss) (auto simp: image_iff)

lemma merge_nothing [simp]: "merge_pending [] quarters = (quarters, \<lambda>_. 0)"
  by (simp add: merge_pending_def)

text \<open>
  The breakdown explains the effort.  When all adjustments in the table are the
  soldier's, the share that the breakdown of a soldier shows is his effort in a planning run over
  the same window without planned duties, whoever is planned with him; and when the reset dates
  of his run resolve, so does his.
\<close>

theorem breakdown_is_effort:
  assumes "compute_effort_data db today ss ps pe reset [] False [] = Inr rows"
    and "s \<in> set ss" "distinct (map so_id ss)"
    and "filter (\<lambda>a. sa_soldier_id a \<noteq> so_id s) (sd_adjustments db) = []"
  shows "\<exists>b. compute_burden_share_breakdown db today s ps pe reset 0 None = Inr b
    \<and> map_option ed_effort_score (map_of rows (so_id s)) = Some (bb_burden_share b)"
proof (rule compute_effort_dataE [OF assms(1)], goal_cases)
  case (1 resets days all_quarters planned)
  let ?start = "case reset of Some d \<Rightarrow> d | None \<Rightarrow> earliest_configured_reset_date db today"
  let ?own = "the (map_of resets (so_id s))"
  have own: "(case reset of Some d \<Rightarrow> Inr d | None \<Rightarrow> reset_date_of db today s) = Inr ?own"
    using 1(1) assms(2,3) resolve_reset_dates_map [of db today ss resets s]
    by (auto simp: map_of_ids split: option.splits)
  have quarters: "all_quarters = past_quarters ?start ps @ build_future_quarters (map fst days) pe" "planned = (\<lambda>_. 0)"
    using 1(3) by (simp_all add: pending_quarter_scores_def)
  have days: "days = effective_duty_days db (Some ?start) (Some history_stop)"
    using 1(2) by (simp add: duty_days_for_effort_def)
  have adjustments: "filter (\<lambda>a. sa_soldier_id a = so_id s) (sd_adjustments db) = sd_adjustments db"
    using assms(4) by (auto simp: filter_empty_conv filter_id_conv)
  define scores where "scores = aggregate db all_quarters ps pe days (sd_adjustments db) planned"
  have "map_of rows (so_id s) = Some (effort_data_of scores ?own s all_quarters)"
    unfolding 1(4) scores_def by (rule map_of_ids [OF assms(2,3)])
  moreover have "ed_effort_score (effort_data_of scores ?own s all_quarters)
      = (case weigh_quarters scores ?own s all_quarters of (A, W) \<Rightarrow> if W > 0 then A / W else 0)"
    by (simp add: effort_data_of_def Let_def split: prod.split)
  ultimately show ?case unfolding compute_burden_share_breakdown_def own Let_def days [symmetric] sum.case
      quarters(1) [symmetric] adjustments quarters(2) [symmetric] scores_def [symmetric]
    by (cases "all_quarters = []") (simp_all add: weigh_quarters_def split: prod.split)
qed

lemma breakdown_is_effort_witness:
  "\<exists>rows b. compute_effort_data sample_score_db 700020 [effort_soldier] 700020 700030 (Some 700000) [] False [] = Inr rows
    \<and> compute_burden_share_breakdown sample_score_db 700020 effort_soldier 700020 700030 (Some 700000) 0 None = Inr b
    \<and> map_option ed_effort_score (map_of rows 4) = Some (bb_burden_share b)"
proof -
  obtain rows where "compute_effort_data sample_score_db 700020 [effort_soldier] 700020 700030 (Some 700000) [] False []
    = Inr rows" using reset_given by blast
  moreover have "so_id effort_soldier = 4" by (simp add: effort_soldier_def sample_private_def)
  ultimately show ?thesis
    using breakdown_is_effort [of sample_score_db 700020 "[effort_soldier]" 700020 700030 "Some 700000" rows effort_soldier]
    by (auto simp: sample_score_db_def)
qed

text \<open>
  With an adjustment of somebody else the two differ: the run adds it to the score of the
  unit, the breakdown does not.
\<close>

definition days_of_two :: "(date \<times> uuid \<times> uuid \<times> decimal) list" where
  "days_of_two = [(700010, 4, 31, 1), (700011, 5, 31, 1)]"

lemma others_adjustments_missing:
  "weigh_quarters (aggregate effort_db [(700000, 700019)] 700020 700030 days_of_two (sd_adjustments effort_db) (\<lambda>_. 0))
     700000 effort_soldier [(700000, 700019)] = (1, 4)"
  "weigh_quarters (aggregate effort_db [(700000, 700019)] 700020 700030 days_of_two
      (filter (\<lambda>a. sa_soldier_id a = so_id effort_soldier) (sd_adjustments effort_db)) (\<lambda>_. 0))
     700000 effort_soldier [(700000, 700019)] = (1, 2)"
  by code_simp+

text \<open>
  A quarter that holds the planning window and has duties behind it is tracked twice, with
  one key for both parts, so that its scores are weighed twice.
\<close>

lemma quarter_tracked_twice:
  "past_quarters 699986 700020 @ build_future_quarters [700040] 700030 = [(699986, 700019), (699986, 700077)]"
proof -
  have "quarter_start 699986 = 699986" "quarter_end 699986 = 700077" "quarter_start 700040 = 699986" by code_simp+
  then show ?thesis by (simp add: past_quarters_def build_future_quarters_def quarters_until.simps)
qed

section \<open>Shares of a whole unit\<close>

definition totals_ok :: "uuid set \<Rightarrow> quarter_scores \<Rightarrow> bool" where
  "totals_ok S scores \<longleftrightarrow> (\<forall>q. fst scores q = (\<Sum>i \<in> S. snd scores q i))"

lemma book_totals:
  assumes "totals_ok S scores" "i \<in> S" "finite S"
  shows "totals_ok S (book qs i score scores)"
proof -
  have "(\<Sum>j \<in> S. (f(i := f i + score)) j) = (\<Sum>j \<in> S. f j) + score" for f :: "uuid \<Rightarrow> decimal"
  proof -
    have "(\<Sum>j \<in> S. (f(i := f i + score)) j) = (\<Sum>j \<in> S. f j + (if j = i then score else 0))"
      by (intro sum.cong) auto
    then show ?thesis using assms(2,3) by (simp add: sum.distrib)
  qed
  then show ?thesis using assms(1) by (simp add: totals_ok_def book_def)
qed

lemma aggregate_totals:
  assumes "finite S" "\<And>r. r \<in> set days \<Longrightarrow> fst (snd r) \<in> S" "\<And>a. a \<in> set adjustments \<Longrightarrow> sa_soldier_id a \<in> S"
  shows "totals_ok S (aggregate db all_quarters ps pe days adjustments (\<lambda>_. 0))"
proof -
  have "totals_ok S (fold (book_day db all_quarters ps pe) days (\<lambda>_. 0, \<lambda>_ _. 0))"
  proof (rule fold_keeps)
    fix r scores assume "r \<in> set days" "totals_ok S scores"
    then show "totals_ok S (book_day db all_quarters ps pe r scores)" using assms(1) assms(2) [of r]
      by (auto simp: book_day_def book_totals split: prod.split option.split)
  qed (simp add: totals_ok_def)
  then show ?thesis unfolding aggregate_def
  proof (rule fold_keeps)
    fix a scores assume "a \<in> set adjustments" "totals_ok S scores"
    then show "totals_ok S (book_adjustment all_quarters a scores)" using assms(1,3)
      by (auto simp: book_adjustment_def book_totals split: option.split)
  qed
qed

definition scored :: "quarter_scores \<Rightarrow> date \<Rightarrow> date \<times> date \<Rightarrow> bool" where
  "scored scores own q \<longleftrightarrow> max (fst q) own \<le> snd q \<and> 0 < fst scores (fst q)"

lemma active_throughout:
  "activation \<le> own \<Longrightarrow> active_frac own activation q = (if max (fst q) own \<le> snd q then Some 1 else None)"
  by (cases q) (auto simp: active_frac_def Let_def max_def)

lemma weigh_throughout:
  assumes "activation_of s \<le> own"
  shows "weigh_quarters scores own s quarters
    = (\<Sum>q \<leftarrow> filter (scored scores own) quarters. snd scores (fst q) (so_id s),
       \<Sum>q \<leftarrow> filter (scored scores own) quarters. fst scores (fst q))"
proof -
  have "fold (weigh_quarter scores own s) quarters (A, W)
    = (A + (\<Sum>q \<leftarrow> filter (scored scores own) quarters. snd scores (fst q) (so_id s)),
       W + (\<Sum>q \<leftarrow> filter (scored scores own) quarters. fst scores (fst q)))" for A W
    by (induction quarters arbitrary: A W)
      (simp_all add: weigh_quarter_def active_throughout [OF assms] scored_def)
  then show ?thesis by (simp add: weigh_quarters_def)
qed

lemma sum_list_swap:
  "(\<Sum>x \<leftarrow> xs. \<Sum>y \<leftarrow> ys. f x y) = (\<Sum>y \<leftarrow> ys. \<Sum>x \<leftarrow> xs. f x y :: decimal)"
  by (induction xs) (simp_all add: sum_list_addf)

text \<open>
  C35. The shares add up.  When the planned soldiers were all there at the reset date and
  everybody with a duty day or an adjustment is among them, their efforts add up to one,
  whatever the days, handovers and adjustments, unless nothing counts and all are zero.
\<close>

theorem shares_add_up:
  assumes "compute_effort_data db today ss ps pe (Some d) [] False [] = Inr rows"
    and "distinct (map so_id ss)" "list_all (\<lambda>s. activation_of s \<le> d) ss"
    and "list_all (\<lambda>r. fst (snd r) \<in> so_id ` set ss) (effective_duty_days db (Some d) (Some history_stop))"
    and "list_all (\<lambda>a. sa_soldier_id a \<in> so_id ` set ss) (sd_adjustments db)"
  shows "(\<Sum>r \<leftarrow> rows. ed_effort_score (snd r)) = 1 \<or> list_all (\<lambda>r. ed_effort_score (snd r) = 0) rows"
proof (rule compute_effort_dataE [OF assms(1)], goal_cases)
  case (1 resets days all_quarters planned)
  define scores where "scores = aggregate db all_quarters ps pe days (sd_adjustments db) planned"
  define W where "W = (\<Sum>q \<leftarrow> filter (scored scores d) all_quarters. fst scores (fst q))"
  define A where "A s = (\<Sum>q \<leftarrow> filter (scored scores d) all_quarters. snd scores (fst q) (so_id s))" for s :: Soldier
  have "planned = (\<lambda>_. 0)" using 1(3) by (simp add: pending_quarter_scores_def)
  then have totals: "totals_ok (so_id ` set ss) scores"
    unfolding scores_def using assms(4,5) 1(2)
    by (auto intro!: aggregate_totals simp: list_all_iff duty_days_for_effort_def)
  have effort: "ed_effort_score (effort_data_of scores (the (map_of resets (so_id s))) s all_quarters)
      = (if W > 0 then A s / W else 0)" if "s \<in> set ss" for s
  proof -
    have "the (map_of resets (so_id s)) = d" using 1(1) that assms(2) map_of_ids [of s ss "\<lambda>_. d"] by simp
    moreover have "activation_of s \<le> d" using assms(3) that by (simp add: list_all_iff)
    ultimately show ?thesis by (simp add: effort_data_of_def weigh_throughout W_def A_def Let_def)
  qed
  have "(\<Sum>s \<leftarrow> ss. A s) = (\<Sum>q \<leftarrow> filter (scored scores d) all_quarters. \<Sum>i \<leftarrow> map so_id ss. snd scores (fst q) i)"
    unfolding A_def by (subst sum_list_swap) (simp add: o_def)
  also have "\<dots> = W"
  proof -
    have "(\<Sum>i \<leftarrow> map so_id ss. snd scores (fst q) i) = fst scores (fst q)" for q :: "date \<times> date"
      using totals sum_list_distinct_conv_sum_set [OF assms(2), of "snd scores (fst q)"]
      by (simp add: totals_ok_def)
    then show ?thesis by (simp only: W_def)
  qed
  finally have "(\<Sum>s \<leftarrow> ss. A s) = W" .
  then have "(\<Sum>s \<leftarrow> ss. A s / W) = W / W" by (simp add: divide_inverse sum_list_mult_const)
  moreover have "map (\<lambda>r. ed_effort_score (snd r)) rows = map (\<lambda>s. if W > 0 then A s / W else 0) ss"
    using effort by (simp add: 1(4) scores_def [symmetric])
  ultimately have "(\<Sum>r \<leftarrow> rows. ed_effort_score (snd r)) = 1" if "W > 0" using that by simp
  moreover have "list_all (\<lambda>r. ed_effort_score (snd r) = 0) rows" if "\<not> W > 0"
    using that by (auto simp: list_all_iff 1(4) effort scores_def [symmetric])
  ultimately show ?case by blast
qed

definition effort_mate :: Soldier where
  "effort_mate = effort_soldier\<lparr>so_id := 5\<rparr>"

lemma shares_add_up_witness:
  "\<exists>rows. compute_effort_data effort_db 700020 [effort_soldier, effort_mate] 700020 700030 (Some 700000) [] False [] = Inr rows
    \<and> ((\<Sum>r \<leftarrow> rows. ed_effort_score (snd r)) = 1 \<or> list_all (\<lambda>r. ed_effort_score (snd r) = 0) rows)"
proof -
  obtain rows where r: "compute_effort_data effort_db 700020 [effort_soldier, effort_mate] 700020 700030 (Some 700000) [] False []
    = Inr rows" using reset_given by blast
  have "(\<Sum>r \<leftarrow> rows. ed_effort_score (snd r)) = 1 \<or> list_all (\<lambda>r. ed_effort_score (snd r) = 0) rows"
  proof (rule shares_add_up [OF r])
    show "distinct (map so_id [effort_soldier, effort_mate])" by code_simp
    show "list_all (\<lambda>s. activation_of s \<le> 700000) [effort_soldier, effort_mate]" by code_simp
    show "list_all (\<lambda>r. fst (snd r) \<in> so_id ` set [effort_soldier, effort_mate])
      (effective_duty_days effort_db (Some 700000) (Some history_stop))" by code_simp
    show "list_all (\<lambda>a. sa_soldier_id a \<in> so_id ` set [effort_soldier, effort_mate]) (sd_adjustments effort_db)" by code_simp
  qed
  then show ?thesis using r by blast
qed

section \<open>The range of the solver\<close>

text \<open>
  The range covers the run.  When the duties have no negative scores, the range handed to
  the solver holds, for every soldier who can gain effort, his effort before the run and his
  effort after any of its duties, and is not empty.
\<close>

theorem effort_range_covers:
  assumes "inject_effort_scores soldiers duty_blocks effort_map = (injected, lo, hi)"
    and "list_all (\<lambda>b. 0 \<le> d_score_per_day b) duty_blocks"
    and "s \<in> set injected" "0 < s_effort_per_milli s"
  shows "lo \<le> s_effort_offset s
    \<and> s_effort_offset s + s_effort_per_milli s * (\<Sum>b \<leftarrow> filter P duty_blocks. block_score b) \<le> hi"
proof -
  define usm where "usm = unit_score_milli duty_blocks"
  define active where "active = filter (\<lambda>s. s_effort_per_milli s > 0) injected"
  have inj: "injected = map (inject_one usm effort_map) soldiers"
    using assms(1) by (auto simp: inject_effort_scores_def usm_def Let_def split: if_split_asm)
  have s: "s \<in> set active" using assms(3,4) by (simp add: active_def)
  then have "active \<noteq> []" by auto
  let ?acc = "Max (set (map s_effort_per_milli active)) * usm"
  let ?top = "Max (set (map s_effort_offset active)) + ?acc"
  have lo: "lo = Min (set (map s_effort_offset active))"
    and "hi = (if ?top \<le> lo then lo + max 1 ?acc else ?top)"
    using assms(1) \<open>active \<noteq> []\<close>
    by (simp_all only: inject_effort_scores_def Let_def usm_def [symmetric] inj [symmetric] active_def [symmetric]
        if_False prod.inject) blast+
  then have hi: "?top \<le> hi" by (simp add: max_def split: if_splits)
  have blocks: "0 \<le> block_score b" if "b \<in> set duty_blocks" for b
    using that assms(2) block_score_nonneg by (simp add: list_all_iff)
  have part: "(\<Sum>b \<leftarrow> filter P duty_blocks. block_score b) \<le> usm"
    unfolding usm_def unit_score_milli_def using blocks by (induction duty_blocks) (auto simp: add_increasing)
  have "0 \<le> usm" unfolding usm_def unit_score_milli_def using blocks by (intro sum_list_nonneg) auto
  have "s_effort_per_milli s * (\<Sum>b \<leftarrow> filter P duty_blocks. block_score b) \<le> s_effort_per_milli s * usm"
    using part assms(4) by (simp add: mult_left_mono)
  also have "\<dots> \<le> ?acc" using s \<open>0 \<le> usm\<close> by (intro mult_right_mono) auto
  finally have "s_effort_offset s + s_effort_per_milli s * (\<Sum>b \<leftarrow> filter P duty_blocks. block_score b) \<le> ?top"
    using s by (intro add_mono) auto
  then show ?thesis using s hi by (auto simp: lo)
qed

definition sample_effort_map :: "(uuid, EffortData) dict" where
  "sample_effort_map = [(4, \<lparr>ed_effort_score = 1 / 2, ed_C_over_D = 1 / 4000, ed_effort_offset = 500000000,
     ed_effort_per_milli = 0\<rparr>)]"

lemma effort_range_covers_witness:
  "\<exists>injected lo hi. inject_effort_scores [sample_soldier 4] [sample_duty 10 0 2] sample_effort_map = (injected, lo, hi)
    \<and> lo \<le> s_effort_offset (hd injected)
    \<and> s_effort_offset (hd injected) + s_effort_per_milli (hd injected)
        * (\<Sum>b \<leftarrow> filter (\<lambda>b. d_id b = 10) [sample_duty 10 0 2]. block_score b) \<le> hi"
proof -
  obtain injected lo hi where r: "inject_effort_scores [sample_soldier 4] [sample_duty 10 0 2] sample_effort_map
    = (injected, lo, hi)" using prod_cases3 by blast
  then have s: "injected = [inject_one (unit_score_milli [sample_duty 10 0 2]) sample_effort_map (sample_soldier 4)]"
    by (auto simp: inject_effort_scores_def Let_def split: if_split_asm)
  have "0 < s_effort_per_milli (inject_one (unit_score_milli [sample_duty 10 0 2]) sample_effort_map (sample_soldier 4))"
    by code_simp
  then have pos: "0 < s_effort_per_milli (hd injected)" and elem: "hd injected \<in> set injected" by (simp_all add: s)
  have "list_all (\<lambda>b. 0 \<le> d_score_per_day b) [sample_duty 10 0 2]" by (simp add: sample_duty_def)
  then show ?thesis using effort_range_covers [OF r _ elem pos] r by blast
qed

end
