(* ===== verification/Spec2Isabelle.thy ===== *)
theory Spec2Isabelle
  imports Optimal LadderSearch Explain Diagnose Solver SwapsReach ConstraintsReach ExemptionsReach CallUpsReach PlanningReach ShiftsReach Efforts
begin

text \<open>
  Verification of the Justice duty-assignment system (\<open>src/backend/app\<close>): a unit's soldiers,
  its organisation, the duties they are given, and an engine that distributes the duties
  fairly with the CP-SAT solver.

  \<^bold>\<open>The program and its model.\<close>
  The engine under \<open>algorithm/\<close> is a function of lists: soldiers, duty blocks, existing
  assignments and settings go in, a schedule and a report come out.  The services under
  \<open>services/\<close> are transactions on database tables.  The engine is modelled by functions on the
  records of \<open>types.py\<close>; a service operation is a function from the tables it reads to
  \<open>Inl\<close> of the exception it raises (the transaction is rolled back) or \<open>Inr\<close> of the new
  tables, one step of a state machine, as the row locks of the code make it one.

  \<^bold>\<open>Values.\<close>  Identifiers are numbers in the order of the UUIDs, a date is its ordinal
  (\<open>Civil\<close> has the calendar), a moment its minutes, a clock time the pair its text parses to.
  Python's \<open>int\<close> is \<open>int\<close>; \<open>Decimal\<close> and \<open>float\<close> are rationals, without their rounding.  A
  dict that is iterated is a list of pairs, a \<open>defaultdict\<close> a function.  What a statement of
  the code raises is a value: \<open>None\<close> for a \<open>KeyError\<close> or \<open>IndexError\<close> in the engine, a
  constructor of an error type in the services.

  \<^bold>\<open>Theories of the engine.\<close>
  \<^item> \<open>Prelude\<close>, \<open>DutyTypes\<close> (\<open>types.py\<close>, \<open>duration.py\<close>, \<open>rest.py\<close>), \<open>Availability\<close>,
    \<open>UnionFind\<close> (the union-find of components and clusters, behind the locale
    \<open>disjoint_sets\<close>), \<open>Batching\<close>, \<open>Relax\<close> (the ladder of caps), \<open>Reserve\<close>, \<open>Saturation\<close>,
    \<open>Diagnose\<close>, \<open>Explain\<close>: the module of that name, or the part of \<open>solver.py\<close>.
  \<^item> \<open>CpSat\<close>: models as data, and the solver as a parameter \<open>env\<close> with its contract.
    \<open>ModelBuild\<close> and \<open>Fairness\<close> are \<open>model.py\<close>; \<open>ModelSound\<close> and \<open>ModelComplete\<close> prove that
    the hard constraints admit exactly the acceptable choices.
  \<^item> \<open>Attempts\<close>, \<open>Schedule\<close>, \<open>Carry\<close>: one solve, what a schedule is, and the state carried
    between solves.  \<open>Contracts\<close> states one solve as the locales \<open>batch_solver\<close> and
    \<open>covering_solver\<close>, interpreted on the soft-coverage solve and the relaxation chain.
  \<^item> \<open>Interleaved\<close>, \<open>Calendar\<close>, \<open>Rounds\<close>, with \<open>InterleavedSound\<close>, \<open>RoundsSound\<close> and
    \<open>LadderSearch\<close>: the three decompositions; \<open>SwapPass\<close>, \<open>SwapSound\<close>: the swap pass;
    \<open>Solver\<close>: the entry point; \<open>Optimal\<close>: what the answers of the solver decide.

  \<^bold>\<open>Theories of the services.\<close>
  \<^item> \<open>Steps\<close>: state machines, with the locales \<open>invariant_system\<close> and \<open>settling_system\<close>
    (facts no later step undoes) that every service interprets on its own step relation.
  \<^item> \<open>Org\<close>, \<open>OrgSound\<close>, \<open>OrgSteps\<close>, \<open>OrgLevels\<close>, \<open>OrgReach\<close>: the tree of
    \<open>hierarchy.py\<close> with its level types, scopes, deputies, roles and approver chains; a step
    of it takes any arguments the code accepts and carries what they may spoil.
  \<^item> \<open>Ranks\<close>, \<open>RanksSound\<close>: ranks, their advancement and projection, eligibility.
  \<^item> \<open>Duties\<close>, \<open>DutiesSound\<close>, \<open>DutiesReach\<close>: the duty board of \<open>assignments.py\<close>, rest, the
    reserve cap, and the eligibility check of a cover.
  \<^item> \<open>Swaps\<close>, \<open>SwapsSound\<close>, \<open>SwapsSteps\<close>, \<open>SwapsManagers\<close>, \<open>SwapsReach\<close>: swap requests with
    their two sides of approvals, on top of the board and the organisation.
  \<^item> \<open>Constraints\<close>, \<open>ConstraintsSound\<close>, \<open>ConstraintsReach\<close>: personal constraints, their cap
    and their two approvals.
  \<^item> \<open>Quarters\<close>, \<open>Scoring\<close>, \<open>ScoringSound\<close>, \<open>SpansSound\<close>, \<open>Scores\<close>: duty days, spans,
    scores and active days of \<open>scoring.py\<close>; \<open>Effort\<close>, \<open>EffortSound\<close>, \<open>Efforts\<close>: the efforts
    of \<open>effort_score.py\<close> and how \<open>inject_effort_scores\<close> hands them to the engine.
  \<^item> \<open>Exemptions\<close>, \<open>ExemptionsSound\<close>, \<open>ExemptionsReach\<close>: exemptions (\<open>exemptions.py\<close>), the requests
    that a commander and a duty manager approve (\<open>exemption_requests.py\<close>), and enrollments.
  \<^item> \<open>CallUps\<close>, \<open>CallUpsSound\<close>, \<open>CallUpsReach\<close>: the rest of \<open>reserves.py\<close>, call-ups,
    dismissals and the links of primaries to reserves, as steps on top of the duty board.
  \<^item> \<open>Bridge\<close>, \<open>Planning\<close>, \<open>PlanningSound\<close>, \<open>PlanningChecks\<close>, \<open>PlanningReach\<close>: a planning job
    (\<open>algorithm_bridge.py\<close> and the bulk checks of \<open>rank_eligibility_projection.py\<close>): rows become
    soldiers, blocks and bookings, \<open>solve\<close> answers, and its answer becomes drafts and links.  It
    puts the solver, the scores, the board and the links together: drafts pass the manual check
    where the bulk and the single projection of a rank agree, book nobody twice and overfill no shift.  The reserve count is exact where the code uses floats.
  \<^item> \<open>Shifts\<close>, \<open>ShiftsSound\<close>, \<open>ShiftsReach\<close>: shifts (\<open>shifts.py\<close>), the templates that generate
    them (\<open>shift_templates.py\<close>), the quotas of nodes and the split of places (\<open>shift_quotas.py\<close>).

  \<^bold>\<open>What the lemmas show.\<close>
  For the engine: the model is exact, every way through \<open>solve\<close> returns a schedule that
  names given duties once and respects days, duty-type exemptions and eligible blocks, the
  chain stops at the first rung that helps, the soft solve assigns the most, the swap pass keeps
  all of that (not location exemptions, which it does not look at) and levels the loads, and explanations, diagnosis, components and reserve links
  say what they claim.  For the services: invariants of all reachable tables by rule
  induction (the tree, the bookings of the board, sound swap tables, the cap), decisions that stay
  decided, and exact refusals.  For the scores: two computations that the code has of one
  quantity agree, or a lemma shows where they differ and the property names what excludes it.

  \<^bold>\<open>Bounds and termination.\<close>  No definition runs on fuel that the code does not have.
  The only loop without a structural measure, the path walk of \<open>uf_find\<close>, is a
  \<open>partial_function\<close> proved to return.  The rank projection has the code's own bound,
  \<open>MAX_CHAIN_STEPS\<close> = 24, and \<open>projection_climbs\<close> shows that no ladder (at most 11 ranks)
  reaches it; the loops over quarters and windows have a date as their measure.

  \<^bold>\<open>Parameters.\<close>  Code outside the repository is an argument with its documented
  behaviour as a named hypothesis: the answers, statuses and cancellations of CP-SAT
  (\<open>cp_sound\<close>), the iteration order of sets (\<open>set_order_ok\<close>), the month arithmetic of \<open>dateutil\<close>
  (\<open>plus_months\<close>), the identifiers the database generates, and the order of rows with equal
  keys.  \<open>today\<close> and \<open>now\<close> are arguments too.  Each witness instantiates them.

  \<^bold>\<open>Not modelled.\<close>  Wall-clock threads, timers and cancellation signals around the
  solver (their effect is the freedom of \<open>env\<close>); the queue of planning jobs with their
  explanations and batch reports; listings, exports, notifications, e-mail,
  audit payloads and the HTTP routes, which read or report what the operations decide; the
  projection tables of \<open>score_projection*.py\<close>, a cache of the modelled scores kept by SQL;
  spreadsheet imports; shooting ranges; logins and tokens, which rest on external libraries;
  migrations, seed data and the user interface.  They are I/O, SQL text or glue, without a
  computation that could be stated apart from the database they run on.
\<close>

section \<open>The whole run\<close>

lemma sample_problem: "problem_ok default_settings [sample_soldier 4] [sample_duty 10 0 2]"
  by (simp add: problem_ok_def clocks_ok_def default_settings_def)

lemma sample_order: "set_order_ok (probe_env v)"
  by (simp add: set_order_ok_def probe_env_def)

text \<open>
  C2. The whole run returns a schedule.  For every solver that keeps the CP-SAT contract,
  whatever it answers and whenever it is cancelled, \<open>solve\<close> does not raise, and its
  assignments name given duties and soldiers, each duty at most once, with no soldier on two
  duties on one day or on a duty while booked elsewhere, and no soldier on a duty type he is
  exempt from, on a day of an approved constraint, or on a duty block he is ineligible for.
\<close>

theorem solve_schedule:
  assumes "cp_sound env" "set_order_ok env" "problem_ok st ss ds" "interleaved_batch_size st \<noteq> 0"
  shows "case fst (solve env ss ds ex st rd parents w) of None \<Rightarrow> False
     | Some r \<Rightarrow> swap_spec (enforce_weapon_qualification st) ss ds ex (r_assignments r)"
  using ensuresD [OF solve_ok [OF assms]] by (simp add: solve_spec_final_def)

lemma solve_schedule_witness:
  "case fst (solve (probe_env sample_val) [sample_soldier 4] [sample_duty 10 0 2] [] default_settings
        None None ()) of None \<Rightarrow> False
     | Some r \<Rightarrow> swap_spec (enforce_weapon_qualification default_settings)
         [sample_soldier 4] [sample_duty 10 0 2] [] (r_assignments r)"
  by (rule solve_schedule [OF probe_env_sound sample_order sample_problem])
    (simp add: default_settings_def)

text \<open>
  The default decomposition is sound: the interleaved batches, solved one after the other
  over the carried bookings and efforts, together form one schedule of the whole problem
  that keeps eligibility, one soldier per duty, no double booking and both rolling-window
  caps, up to the relaxation ceilings.
\<close>

theorem interleaved_schedule:
  assumes "cp_sound env" "problem_ok st ss ds" "interleaved_batch_size st \<noteq> 0"
  shows "case fst (interleaved_solve env ss ds ex st rd w) of None \<Rightarrow> False
     | Some r \<Rightarrow> assignments_ok st ss ds ex (r_assignments r)"
  using ensuresD [OF interleaved_solve_ok [OF assms]] by (simp add: run_spec_def)

lemma interleaved_schedule_witness:
  "case fst (interleaved_solve (probe_env sample_val) [sample_soldier 4] [sample_duty 10 0 2] []
       default_settings None ()) of None \<Rightarrow> False
     | Some r \<Rightarrow> assignments_ok default_settings [sample_soldier 4] [sample_duty 10 0 2] [] (r_assignments r)"
  by (rule interleaved_schedule [OF probe_env_sound sample_problem]) (simp add: default_settings_def)

text \<open>
  The effort-round decomposition is sound in the same sense: hard solves, rounds of
  soldiers by effort, retries and the ladder search together return one schedule.
\<close>

theorem effort_rounds_schedule:
  assumes "cp_sound env" "problem_ok st ss ds"
  shows "case fst (effort_round_solve env ss ds ex st rd w) of None \<Rightarrow> False
     | Some r \<Rightarrow> assignments_ok st ss ds ex (r_assignments r)"
  using ensuresD [OF effort_round_solve_ok [OF assms]] by (simp add: run_spec_def)

lemma effort_rounds_schedule_witness:
  "case fst (effort_round_solve (probe_env sample_val) [sample_soldier 4] [sample_duty 10 0 2] []
       default_settings None ()) of None \<Rightarrow> False
     | Some r \<Rightarrow> assignments_ok default_settings [sample_soldier 4] [sample_duty 10 0 2] [] (r_assignments r)"
  by (rule effort_rounds_schedule [OF probe_env_sound sample_problem])

text \<open>
  The calendar decomposition is sound in the same sense, for every window length.
\<close>

theorem calendar_schedule:
  assumes "cp_sound env" "problem_ok st ss ds"
  shows "case fst (decomposed_solve env ss ds ex st rd w) of None \<Rightarrow> False
     | Some r \<Rightarrow> assignments_ok st ss ds ex (r_assignments r)"
  using ensuresD [OF decomposed_solve_ok [OF assms]] by (simp add: run_spec_def)

lemma calendar_schedule_witness:
  "case fst (decomposed_solve (probe_env sample_val) [sample_soldier 4] [sample_duty 10 0 2] []
       default_settings None ()) of None \<Rightarrow> False
     | Some r \<Rightarrow> assignments_ok default_settings [sample_soldier 4] [sample_duty 10 0 2] [] (r_assignments r)"
  by (rule calendar_schedule [OF probe_env_sound sample_problem])

text \<open>
  A successful relaxation chain leaves nothing open: when every duty has some soldier
  who may serve it and the chain reports success, its result assigns every duty exactly
  once; when it does not succeed it assigns none.
\<close>

theorem chain_assigns_all:
  assumes env: "cp_sound env" and prob: "problem_ok st ss ds"
    and able: "list_all (\<lambda>d. list_ex (\<lambda>s. may_serve (enforce_weapon_qualification st) s d) ss) ds"
  shows "let r = fst (infeasibility_relaxation_chain env ss ds ex st rd w)
     in length (r_assignments r) = (if succeeded r then length ds else 0)"
proof -
  have "\<forall>d \<in> set ds. \<exists>s \<in> set ss. may_serve (enforce_weapon_qualification st) s d"
    using able by (simp add: list_all_iff list_ex_iff)
  from ensuresD [OF chain.run_complete [OF env prob this]] ensuresD [OF chain_spec_ensures [OF env]]
  show ?thesis by (simp add: Let_def chain_spec_def)
qed

lemma chain_assigns_all_witness:
  "let r = fst (infeasibility_relaxation_chain (probe_env sample_val) [sample_soldier 4]
        [sample_duty 10 0 2] [] default_settings None ())
   in length (r_assignments r) = (if succeeded r then length [sample_duty 10 0 2] else 0)"
  by (rule chain_assigns_all [OF probe_env_sound sample_problem]) simp

text \<open>
  C8. The swap pass keeps these parts of a schedule.  From assignments of soldiers of the run to
  duties of the run with one soldier per duty, where nobody has two duties, or a duty and an
  existing booking, on one day, and nobody is on a duty of a type he is exempt from, on a duty
  with a day of one of his approved constraints, on a block he is listed as ineligible for or,
  when weapon qualification is enforced, unqualified for, it goes to assignments of the same
  duties in the same order with the same guarantees.  Exemptions from a location are not among
  them, since the pass does not look at them (lemma \<open>swap_ignores_location\<close>), nor is the hierarchy
  scope of a duty.
\<close>

theorem swap_keeps_schedule:
  assumes "distinct (map d_id ds)" "set_order_ok env"
    and "swap_spec (enforce_weapon_qualification st) ss ds ex as"
  shows "\<exists>as'. swap_pass env ss ds ex as st = Some as' \<and> map a_duty_id as' = map a_duty_id as
    \<and> swap_spec (enforce_weapon_qualification st) ss ds ex as'"
  by (rule swap_pass_ok [OF assms])

lemma swap_keeps_schedule_witness:
  "\<exists>as'. swap_pass (probe_env (\<lambda>_. 0)) [sample_soldier 4] [sample_duty 10 0 2] [] [sample_assignment]
       default_settings = Some as' \<and> map a_duty_id as' = map a_duty_id [sample_assignment]
    \<and> swap_spec (enforce_weapon_qualification default_settings) [sample_soldier 4] [sample_duty 10 0 2] [] as'"
proof (rule swap_keeps_schedule [OF _ sample_order])
  have "schedule_ok 10 20 default_settings [sample_soldier 4] [sample_duty 10 0 2] []
      (placed [sample_duty 10 0 2] [sample_assignment])"
    by (rule schedule_ok_mono [OF sample_schedule]) simp_all
  then show "swap_spec (enforce_weapon_qualification default_settings) [sample_soldier 4]
      [sample_duty 10 0 2] [] [sample_assignment]"
    by (intro assignments_ok_swap_spec)
      (simp add: assignments_ok_def names_ok_def T_limit_def R_limit_def default_settings_def
        sample_assignment_def)
qed simp

text \<open>
  C9. The swap pass never makes loads less even: when all soldiers have the same effort per
  score, the L1 distance of the efforts from their mean after any number of iterations is at
  most that before.
\<close>

theorem swap_levels_efforts:
  assumes "distinct (map s_id ss)" "uniform_rate ss p" "set_order_ok env"
  shows "spread ss (swap_loop env st ss ds n (swap_start ss ds ex as))
     \<le> spread ss (swap_start ss ds ex as)"
  by (rule swap_loop_spread [OF start_balances_ok [OF assms(1)] assms(2,3)])
    (simp add: swap_start_def Let_def soldier_duty_ids_def)

lemma swap_levels_efforts_witness:
  "spread [sample_soldier 4, sample_soldier 5] (swap_loop (probe_env (\<lambda>_. 0)) default_settings
        [sample_soldier 4, sample_soldier 5] [sample_duty 10 0 2] 6
        (swap_start [sample_soldier 4, sample_soldier 5] [sample_duty 10 0 2] [] [sample_assignment]))
     \<le> spread [sample_soldier 4, sample_soldier 5]
         (swap_start [sample_soldier 4, sample_soldier 5] [sample_duty 10 0 2] [] [sample_assignment])"
  by (rule swap_levels_efforts [OF _ _ sample_order, of _ 1])
    (simp_all add: uniform_rate_def sample_soldier_def)

text \<open>
  C10. Relaxing node quotas keeps the schedule: the retry over the unfilled duties, with their
  quotas moved one level up, does not raise, and what it adds joins the assignments already
  made to one schedule of the original duties.
\<close>

theorem auto_relax_schedule:
  assumes "cp_sound env" "set_order_ok env" "problem_ok st ss ds"
    and "assignments_ok st ss ds ex (r_assignments res)"
  shows "case fst (auto_relax_node_quotas_retry env ss ds ex st res parents rd w) of None \<Rightarrow> False
     | Some r \<Rightarrow> assignments_ok st ss ds ex (r_assignments r)"
  using ensuresD [OF auto_relax_ok [OF assms]] by (simp add: run_spec_def)

lemma auto_relax_schedule_witness:
  "case fst (auto_relax_node_quotas_retry (probe_env sample_val) [sample_soldier 4] [sample_duty 10 0 2]
        [] default_settings (plain_result default_settings [] FEASIBLE []) [(1, 2)] None ()) of None \<Rightarrow> False
     | Some r \<Rightarrow> assignments_ok default_settings [sample_soldier 4] [sample_duty 10 0 2] [] (r_assignments r)"
  by (rule auto_relax_schedule [OF probe_env_sound sample_order sample_problem])
    (simp add: plain_result_def)

section \<open>Where the code departs from its documentation\<close>

text \<open>A parent node that has a quota of its own loses the quota merged into it.\<close>

lemma relaxed_quota_overwritten:
  "relax_duty_quotas [(1, 2)] [10] ((sample_duty 10 0 2)\<lparr>d_node_quotas := Some [(1, 1), (2, 1)]\<rparr>)
   = ((sample_duty 10 0 2)\<lparr>d_node_quotas := Some [(2, 1)]\<rparr>,
      [\<lparr>q_duty_id = 10, q_original_node_id = 1, q_relaxed_node_id = 2, q_count = 1\<rparr>])"
  by (simp add: relax_duty_quotas_def quotas_of_def relax_quota_step_def sample_duty_def
      dict_get_def dict_get_or_def)

text \<open>The swap pass admits a soldier exempted from the location of the duty.\<close>

lemma swap_ignores_location:
  "swap_eligible default_settings (sample_duty 10 0 2)
      ((sample_soldier 4)\<lparr>s_exempted_duty_location_ids := {3}\<rparr>)
   \<and> \<not> may_serve True ((sample_soldier 4)\<lparr>s_exempted_duty_location_ids := {3}\<rparr>) (sample_duty 10 0 2)"
  by (simp add: swap_eligible_def may_serve_def sample_duty_def sample_soldier_def
      constraint_dates_def duty_dates_def)

text \<open>A booking carried to the next batch has no rest time.\<close>

lemma booking_has_no_rest:
  "e_rest_effective_end_date (booking a d) = None \<and> e_rest_hours (booking a d) = 0"
  by (simp add: booking_def)

end
